(* ===== verification/Annex_Prelude.thy ===== *)
theory Annex_Prelude
  imports Complex_Main "HOL-Library.Word" "HOL-Library.Char_ord" "HOL-Library.List_Lexorder"
begin

text \<open>
  The prelude of the Annex development: the types that every component shares, Rust's
  \<open>Result\<close> as a sum type with its question-mark operator, SQLite tables as lists of rows
  with the statements the sources run on them, and the generic interfaces (locales) that
  the component theories interpret.

  Conventions. A Rust \<open>String\<close> is the byte string of its UTF-8 encoding, so \<open>len()\<close> is
  \<^const>\<open>length\<close> and \<open>as_bytes()\<close> is the identity, and Rust's order on strings (bytewise
  lexicographic) is the order of \<open>HOL-Library.List_Lexorder\<close> over \<open>HOL-Library.Char_ord\<close>.
  \<open>usize\<close> values that are bounded by an invariant are \<^typ>\<open>nat\<close>; database keys (\<open>i64\<close>) are
  \<^typ>\<open>int\<close>. SQLite's \<open>datetime\<close> text values are the number of seconds they denote.
\<close>

section \<open>Named collections\<close>

named_theorems res_simps \<open>unfolding rules of the result operations\<close>
named_theorems table_simps \<open>rules on tables: selection, update and deletion of rows\<close>

section \<open>Shared types\<close>

type_synonym bytes = "char list"
type_synonym rust_string = "char list"
type_synonym u8 = "8 word"
type_synonym u32 = "32 word"
type_synonym u64 = "64 word"
type_synonym time = int

abbreviation (input) Ok :: "'a \<Rightarrow> 'e + 'a" where "Ok \<equiv> Inr"
abbreviation (input) Err :: "'e \<Rightarrow> 'e + 'a" where "Err \<equiv> Inl"

section \<open>Results\<close>

text \<open>Rust's \<open>?\<close>: an error returns at once, a value is passed on.\<close>

fun and_then :: "'e + 'a \<Rightarrow> ('a \<Rightarrow> 'e + 'b) \<Rightarrow> 'e + 'b" where
  "and_then (Inl e) f = Inl e"
| "and_then (Inr a) f = f a"

fun map_err :: "('e \<Rightarrow> 'd) \<Rightarrow> 'e + 'a \<Rightarrow> 'd + 'a" where
  "map_err g (Inl e) = Inl (g e)"
| "map_err g (Inr a) = Inr a"

fun ok_or :: "'a option \<Rightarrow> 'e \<Rightarrow> 'e + 'a" where
  "ok_or None e = Inl e"
| "ok_or (Some a) e = Inr a"

definition is_ok :: "'e + 'a \<Rightarrow> bool" where
  "is_ok r \<longleftrightarrow> (\<exists>a. r = Inr a)"

text \<open>Collecting the results of a loop that stops at the first error.\<close>

fun collect_res :: "('e + 'a) list \<Rightarrow> 'e + 'a list" where
  "collect_res [] = Inr []"
| "collect_res (r # rs) = and_then r (\<lambda>a. and_then (collect_res rs) (\<lambda>as. Inr (a # as)))"

lemma is_ok_simps [simp]: "is_ok (Inr a)" "\<not> is_ok (Inl e)"
  by (simp_all add: is_ok_def)

lemma is_ok_code [code]: "is_ok r = (case r of Inl _ \<Rightarrow> False | Inr _ \<Rightarrow> True)"
  by (cases r) simp_all

lemma and_then_Inr [res_simps]:
  "and_then r f = Inr b \<longleftrightarrow> (\<exists>a. r = Inr a \<and> f a = Inr b)"
  by (cases r) auto

lemma and_then_Inl [res_simps]:
  "and_then r f = Inl e \<longleftrightarrow> r = Inl e \<or> (\<exists>a. r = Inr a \<and> f a = Inl e)"
  by (cases r) auto

lemma map_err_Inr [res_simps]: "map_err g r = Inr a \<longleftrightarrow> r = Inr a"
  by (cases r) auto

lemma map_err_Inl [res_simps]: "map_err g r = Inl d \<longleftrightarrow> (\<exists>e. r = Inl e \<and> d = g e)"
  by (cases r) auto

lemma ok_or_Inr [res_simps]: "ok_or x e = Inr a \<longleftrightarrow> x = Some a"
  by (cases x) auto

lemma ok_or_Inl [res_simps]: "ok_or x e = Inl d \<longleftrightarrow> x = None \<and> d = e"
  by (cases x) auto

lemma collect_res_map_Inr [simp]: "collect_res (map (\<lambda>x. Inr (f x)) xs) = Inr (map f xs)"
  by (induction xs) simp_all

lemma collect_res_map_cong:
  "(\<And>x. x \<in> set xs \<Longrightarrow> g x = Inr (f x)) \<Longrightarrow> collect_res (map g xs) = Inr (map f xs)"
  by (induction xs) simp_all

section \<open>Tables\<close>

text \<open>
  A table is the list of its rows in rowid order. \<open>UPDATE \<dots> WHERE p\<close> is \<open>update_where\<close>,
  \<open>DELETE \<dots> WHERE p\<close> is \<open>filter\<close> of the rows that do not satisfy \<open>p\<close>, and the row count that
  \<open>Connection::execute\<close> returns is \<open>count_where\<close> of the affected rows.
\<close>

definition update_where :: "('r \<Rightarrow> bool) \<Rightarrow> ('r \<Rightarrow> 'r) \<Rightarrow> 'r list \<Rightarrow> 'r list" where
  "update_where p f rs = map (\<lambda>r. if p r then f r else r) rs"

definition delete_where :: "('r \<Rightarrow> bool) \<Rightarrow> 'r list \<Rightarrow> 'r list" where
  "delete_where p rs = filter (\<lambda>r. \<not> p r) rs"

definition count_where :: "('r \<Rightarrow> bool) \<Rightarrow> 'r list \<Rightarrow> nat" where
  "count_where p rs = length (filter p rs)"

definition exists_where :: "('r \<Rightarrow> bool) \<Rightarrow> 'r list \<Rightarrow> bool" where
  "exists_where p rs = list_ex p rs"

text \<open>\<open>query_row\<close> takes the first row of the answer; \<open>optional()\<close> maps no row to \<open>None\<close>.\<close>

definition first_where :: "('r \<Rightarrow> bool) \<Rightarrow> 'r list \<Rightarrow> 'r option" where
  "first_where p rs = List.find p rs"

text \<open>
  A rowid table whose \<open>INTEGER PRIMARY KEY\<close> is \<open>AUTOINCREMENT\<close>: the counter is the
  \<open>sqlite_sequence\<close> entry, the largest id ever assigned.
\<close>

record 'r auto_table =
  auto_rows :: "'r list"
  auto_seq :: int

definition empty_auto :: "'r auto_table" where
  "empty_auto = \<lparr>auto_rows = [], auto_seq = 0\<rparr>"

definition auto_next :: "'r auto_table \<Rightarrow> int" where
  "auto_next t = auto_seq t + 1"

definition auto_insert :: "(int \<Rightarrow> 'r) \<Rightarrow> 'r auto_table \<Rightarrow> 'r auto_table" where
  "auto_insert mk t = \<lparr>auto_rows = auto_rows t @ [mk (auto_next t)], auto_seq = auto_next t\<rparr>"

definition auto_update :: "('r \<Rightarrow> bool) \<Rightarrow> ('r \<Rightarrow> 'r) \<Rightarrow> 'r auto_table \<Rightarrow> 'r auto_table" where
  "auto_update p f t = t\<lparr>auto_rows := update_where p f (auto_rows t)\<rparr>"

definition auto_delete :: "('r \<Rightarrow> bool) \<Rightarrow> 'r auto_table \<Rightarrow> 'r auto_table" where
  "auto_delete p t = t\<lparr>auto_rows := delete_where p (auto_rows t)\<rparr>"

text \<open>Every id in use was assigned by the counter, and no two rows share one.\<close>

definition auto_wf :: "('r \<Rightarrow> int) \<Rightarrow> 'r auto_table \<Rightarrow> bool" where
  "auto_wf key t \<longleftrightarrow> sorted_wrt (\<lambda>a b. key a < key b) (auto_rows t) \<and>
     list_all (\<lambda>r. key r \<le> auto_seq t) (auto_rows t)"

lemma set_update_where [table_simps]:
  "set (update_where p f rs) = {f r |r. r \<in> set rs \<and> p r} \<union> {r \<in> set rs. \<not> p r}"
  by (auto simp: update_where_def)

lemma update_where_hit: "x \<in> set (update_where p f rs) \<Longrightarrow> p x \<Longrightarrow> \<exists>r \<in> set rs. p r \<and> x = f r"
  by (auto simp: update_where_def split: if_splits)

lemma set_delete_where [table_simps]: "set (delete_where p rs) = {r \<in> set rs. \<not> p r}"
  by (auto simp: delete_where_def)

lemma key_not_image: "(\<forall>r \<in> set rs. key r \<noteq> k) \<Longrightarrow> k \<notin> key ` set rs"
  by blast

lemma length_update_where [simp]: "length (update_where p f rs) = length rs"
  by (simp add: update_where_def)

lemma count_where_0 [table_simps]: "count_where p rs = 0 \<longleftrightarrow> (\<forall>r \<in> set rs. \<not> p r)"
  by (auto simp: count_where_def filter_empty_conv)

lemma count_where_pos [table_simps]: "0 < count_where p rs \<longleftrightarrow> (\<exists>r \<in> set rs. p r)"
  by (auto simp: count_where_def filter_empty_conv)

lemma exists_where_iff [table_simps]: "exists_where p rs \<longleftrightarrow> (\<exists>r \<in> set rs. p r)"
  by (simp add: exists_where_def list_ex_iff)

lemma first_where_Some [table_simps]:
  "first_where p rs = Some r \<Longrightarrow> r \<in> set rs \<and> p r"
  by (auto simp: first_where_def find_Some_iff in_set_conv_nth)

lemma first_where_None [table_simps]: "first_where p rs = None \<longleftrightarrow> (\<forall>r \<in> set rs. \<not> p r)"
  by (auto simp: first_where_def find_None_iff)

text \<open>Selection by a key.\<close>

lemma first_where_no_key: "k \<notin> key ` set rs \<Longrightarrow> first_where (\<lambda>r. key r = k) rs = None"
  by (auto simp: first_where_None)

lemma exists_where_key: "exists_where (\<lambda>r. key r = k) rs \<longleftrightarrow> k \<in> key ` set rs"
  unfolding exists_where_iff image_iff by blast

lemma first_where_keyE:
  assumes "first_where (\<lambda>r. key r = k) rs = Some r"
  obtains "r \<in> set rs" and "key r = k"
  using first_where_Some [OF assms] by simp

lemma first_where_Nil [simp]: "first_where p [] = None"
  by (simp add: first_where_def)

lemma first_where_Cons [simp]:
  "first_where p (r # rs) = (if p r then Some r else first_where p rs)"
  by (simp add: first_where_def)

lemma first_where_append:
  "first_where p (xs @ ys) = (case first_where p xs of None \<Rightarrow> first_where p ys | Some r \<Rightarrow> Some r)"
  by (induction xs) simp_all

lemma first_where_append_None [simp]:
  "first_where p xs = None \<Longrightarrow> first_where p (xs @ ys) = first_where p ys"
  by (simp add: first_where_append)

text \<open>When a key is unique among the rows, the first match is the only one.\<close>

lemma first_where_unique:
  assumes "distinct (map key rs)" and "r \<in> set rs" and "p r"
    and "\<And>s. s \<in> set rs \<Longrightarrow> p s \<Longrightarrow> key s = key r"
  shows "first_where p rs = Some r"
proof (cases "first_where p rs")
  case None
  with assms(2,3) show ?thesis by (auto simp: first_where_None)
next
  case (Some s)
  then have "s \<in> set rs" "p s" by (auto dest: first_where_Some)
  with assms have "s = r" by (auto dest: inj_onD [OF distinct_map [THEN iffD1, THEN conjunct2]])
  with Some show ?thesis by simp
qed

lemma first_where_key:
  "distinct (map key rs) \<Longrightarrow> r \<in> set rs \<Longrightarrow> first_where (\<lambda>x. key x = key r) rs = Some r"
  by (erule first_where_unique [where key = key]) (assumption | rule refl)+

lemma first_where_update_where:
  "(\<And>r. p r \<Longrightarrow> q (f r) = q r) \<Longrightarrow>
   first_where q (update_where p f rs) = map_option (\<lambda>r. if p r then f r else r) (first_where q rs)"
  by (induction rs) (auto simp: update_where_def)

lemma map_update_where:
  "(\<And>r. p r \<Longrightarrow> key (f r) = key r) \<Longrightarrow> map key (update_where p f rs) = map key rs"
  by (auto simp: update_where_def)

lemma distinct_map_delete_where: "distinct (map key rs) \<Longrightarrow> distinct (map key (delete_where p rs))"
  by (simp add: delete_where_def distinct_map_filter)

lemma count_where_delete_where:
  "length (delete_where p rs) + count_where p rs = length rs"
  unfolding delete_where_def count_where_def
  using sum_length_filter_compl [of p rs] by (simp add: add.commute)

lemma auto_simps [simp]:
  "auto_rows empty_auto = []" "auto_seq empty_auto = 0"
  "auto_rows (auto_insert mk t) = auto_rows t @ [mk (auto_seq t + 1)]"
  "auto_seq (auto_insert mk t) = auto_seq t + 1"
  "auto_rows (auto_update p f t) = update_where p f (auto_rows t)"
  "auto_seq (auto_update p f t) = auto_seq t"
  "auto_rows (auto_delete p t) = delete_where p (auto_rows t)"
  "auto_seq (auto_delete p t) = auto_seq t"
  "auto_next t = auto_seq t + 1"
  by (simp_all add: empty_auto_def auto_insert_def auto_update_def auto_delete_def auto_next_def)

lemma auto_wf_empty [simp]: "auto_wf key empty_auto"
  by (simp add: auto_wf_def)

lemma auto_wf_insert:
  "auto_wf key t \<Longrightarrow> key (mk (auto_seq t + 1)) = auto_seq t + 1 \<Longrightarrow> auto_wf key (auto_insert mk t)"
  by (force simp: auto_wf_def sorted_wrt_append list_all_iff)

lemma sorted_wrt_key_cong:
  "map key xs = map key ys \<Longrightarrow>
   sorted_wrt (\<lambda>a b. key a < key b) xs = sorted_wrt (\<lambda>a b. (key b :: int) > key a) ys"
  using sorted_wrt_map [of "(<)" key xs] sorted_wrt_map [of "(<)" key ys] by simp

lemma auto_wf_update:
  assumes "auto_wf key t" and "\<And>r. p r \<Longrightarrow> key (f r) = key r"
  shows "auto_wf key (auto_update p f t)"
proof -
  have m: "map key (update_where p f (auto_rows t)) = map key (auto_rows t)"
    using assms(2) by (rule map_update_where)
  have "list_all (\<lambda>k. k \<le> auto_seq t) (map key (update_where p f (auto_rows t)))"
    unfolding m using assms(1) by (simp add: auto_wf_def list_all_iff)
  with assms(1) sorted_wrt_key_cong [OF m] show ?thesis
    by (simp add: auto_wf_def list_all_iff)
qed

lemma auto_wf_delete: "auto_wf key t \<Longrightarrow> auto_wf key (auto_delete p t)"
  by (auto simp: auto_wf_def delete_where_def list_all_iff sorted_wrt_filter)

lemma auto_wf_distinct:
  assumes "auto_wf key t"
  shows "distinct (map key (auto_rows t))"
proof -
  have "sorted_wrt (<) (map key (auto_rows t))"
    using assms by (simp add: auto_wf_def sorted_wrt_map)
  then show ?thesis by (simp add: strict_sorted_iff)
qed

lemma auto_wf_le: "auto_wf key t \<Longrightarrow> r \<in> set (auto_rows t) \<Longrightarrow> key r \<le> auto_seq t"
  by (simp add: auto_wf_def list_all_iff)

section \<open>SQLite values\<close>

text \<open>
  \<open>datetime('now', modifier)\<close> is NULL when the shifted time leaves the range of SQLite's
  date functions (Julian day 0 up to the end of year 9999).
\<close>

definition sqlite_datetime :: "time \<Rightarrow> int \<Rightarrow> time option" where
  "sqlite_datetime now shift =
     (if -210866760000 \<le> now + shift \<and> now + shift \<le> 253402300799 then Some (now + shift) else None)"

text \<open>A comparison with NULL is not true.\<close>

fun null_less :: "time option \<Rightarrow> time option \<Rightarrow> bool" where
  "null_less (Some a) (Some b) = (a < b)"
| "null_less _ _ = False"

text \<open>The errors of the database layer that the sources tell apart.\<close>

datatype sqlite_code = ConstraintUnique | ConstraintPrimaryKey | ConstraintForeignKey | EngineFailure

datatype rusqlite_error =
    SqliteFailure sqlite_code
  | QueryReturnedNoRows
  | FromSqlConversionFailure nat
  | ToSqlConversionFailure

fun constraint_violation :: "sqlite_code \<Rightarrow> bool" where
  "constraint_violation EngineFailure = False"
| "constraint_violation _ = True"

text \<open>\<open>ORDER BY\<close> keeps the scan order of rows with equal keys; \<open>LIMIT n\<close> takes a prefix.\<close>

definition order_by :: "('r \<Rightarrow> 'k::linorder) \<Rightarrow> 'r list \<Rightarrow> 'r list" where
  "order_by key rs = sort_key key rs"

definition order_by_desc :: "('r \<Rightarrow> 'k::linordered_ab_group_add) \<Rightarrow> 'r list \<Rightarrow> 'r list" where
  "order_by_desc key rs = sort_key (\<lambda>r. - key r) rs"

lemma set_order_by [simp]: "set (order_by key rs) = set rs" "set (order_by_desc key' rs) = set rs"
  by (simp_all add: order_by_def order_by_desc_def)

lemma length_order_by [simp]:
  "length (order_by key rs) = length rs" "length (order_by_desc key' rs) = length rs"
  by (simp_all add: order_by_def order_by_desc_def)

lemma sorted_order_by: "sorted (map key (order_by key rs))"
  by (simp add: order_by_def)

lemma sorted_order_by_desc: "sorted_wrt (\<ge>) (map key (order_by_desc key rs))"
proof -
  have "sorted (map (\<lambda>r. - key r) (order_by_desc key rs))"
    by (simp add: order_by_desc_def)
  then show ?thesis by (simp add: sorted_wrt_map)
qed

section \<open>Interfaces\<close>

text \<open>
  A textual or numeric encoding of a type: every component that stores an enumeration in
  the database relies on decoding what it encoded.
\<close>

locale codec =
  fixes enc :: "'a \<Rightarrow> 'b"
    and dec :: "'b \<Rightarrow> 'a option"
  assumes dec_enc: "dec (enc a) = Some a"
    and enc_dec: "dec b = Some a \<Longrightarrow> enc a = b"
begin

lemma enc_inj: "enc a = enc a' \<longleftrightarrow> a = a'"
  by (metis dec_enc option.inject)

lemma dec_iff: "dec b = Some a \<longleftrightarrow> b = enc a"
  using dec_enc enc_dec by blast

lemma dec_rejects: "dec b = None \<longleftrightarrow> b \<notin> range enc"
  by (metis dec_iff not_Some_eq rangeE rangeI)

end

text \<open>
  A component as a state machine: each operation maps a state to the next one (an operation
  that fails maps it to the state the failure leaves behind), and every operation keeps the
  component's invariant.
\<close>

locale invariant_machine =
  fixes step :: "'op \<Rightarrow> 's \<Rightarrow> 's"
    and inv :: "'s \<Rightarrow> bool"
  assumes step_inv: "inv s \<Longrightarrow> inv (step op s)"
begin

lemma run_inv: "inv s \<Longrightarrow> inv (fold step ops s)"
  by (induction ops arbitrary: s) (auto intro: step_inv)

lemma prefix_inv: "inv s \<Longrightarrow> inv (fold step (take n ops) s)"
  by (rule run_inv)

end

end
