(* ===== verification/Rust_Float.thy ===== *)
theory Rust_Float
  imports Annex_Prelude "HOL-Library.Log_Nat"
begin

text \<open>
  Rust's \<open>f32\<close> and \<open>f64\<close> arithmetic. A finite IEEE 754 value is the rational it denotes, and
  every operation is the exact one followed by rounding to nearest, ties to even, in the
  target format (subnormal numbers included). Infinities and NaN are not represented: none
  of the modelled computations leaves the finite range. Literals are rounded like results.
  The lemmas are the facts of the standard that the components use: rounding is monotone,
  exact on representable values, odd, and at most doubles a nonnegative number.
\<close>

section \<open>Definitions\<close>

definition pow2 :: "int \<Rightarrow> rat" where
  "pow2 e = (if 0 \<le> e then 2 ^ nat e else 1 / 2 ^ nat (- e))"

text \<open>The binary exponent of a positive rational.\<close>

definition ilog2 :: "rat \<Rightarrow> int" where
  "ilog2 x = (let (a, b) = quotient_of x; d = int (floorlog 2 (nat a)) - int (floorlog 2 (nat b))
     in if pow2 d \<le> x then d else d - 1)"

definition round_half_even :: "rat \<Rightarrow> int" where
  "round_half_even x = (let f = \<lfloor>x\<rfloor>; d = x - of_int f
     in if d < 1/2 then f else if 1/2 < d then f + 1 else if even f then f else f + 1)"

text \<open>The exponent of the spacing of the format's values around a positive number.\<close>

definition ulp_exp :: "nat \<Rightarrow> int \<Rightarrow> rat \<Rightarrow> int" where
  "ulp_exp p q x = max (ilog2 x - (int p - 1)) q"

definition fl_pos :: "nat \<Rightarrow> int \<Rightarrow> rat \<Rightarrow> rat" where
  "fl_pos p q x = of_int (round_half_even (x / pow2 (ulp_exp p q x))) * pow2 (ulp_exp p q x)"

definition fl :: "nat \<Rightarrow> int \<Rightarrow> rat \<Rightarrow> rat" where
  "fl p q x = (if x = 0 then 0 else if 0 < x then fl_pos p q x else - fl_pos p q (- x))"

definition f32 :: "rat \<Rightarrow> rat" where
  "f32 = fl 24 (- 149)"

definition f64 :: "rat \<Rightarrow> rat" where
  "f64 = fl 53 (- 1074)"

text \<open>Integer square root, by one binary digit of the argument pair at a time.\<close>

fun isqrt :: "nat \<Rightarrow> nat" where
  "isqrt n = (if n = 0 then 0
     else let r = 2 * isqrt (n div 4) in if (r + 1) * (r + 1) \<le> n then r + 1 else r)"

declare isqrt.simps [simp del]

text \<open>
  \<open>f32::sqrt\<close> is correctly rounded. The root of \<open>x\<close> has exponent \<open>ilog2 x div 2\<close>; its
  24 significant bits are the integer root of the scaled argument, and the remainder
  decides the direction of rounding (the square of a midpoint has too many bits to be a
  value of the format, so there are no ties).
\<close>

definition f32_sqrt :: "rat \<Rightarrow> rat" where
  "f32_sqrt x = (if x \<le> 0 then 0
     else let k = ilog2 x div 2 - 23; s = nat \<lfloor>x / pow2 (2 * k)\<rfloor>; r = isqrt s
       in if x / pow2 (2 * k) \<le> (of_nat r + 1/2) * (of_nat r + 1/2)
          then of_nat r * pow2 k else (of_nat r + 1) * pow2 k)"

section \<open>Powers of two and the binary exponent\<close>

lemma pow2_powi: "pow2 e = 2 powi e"
  by (simp add: pow2_def power_int_def field_simps)

lemma pow2_pos [simp]: "0 < pow2 e"
  by (simp add: pow2_def)

lemma pow2_nz [simp]: "pow2 e \<noteq> 0"
  using pow2_pos [of e] by linarith

lemma pow2_add: "pow2 (a + b) = pow2 a * pow2 b"
  by (simp add: pow2_powi power_int_add)

lemma pow2_0 [simp]: "pow2 0 = 1"
  by (simp add: pow2_def)

lemma pow2_Suc: "pow2 (e + 1) = 2 * pow2 e"
  using pow2_add [of e 1] by (simp add: pow2_def)

lemma pow2_of_nat: "pow2 (int n) = 2 ^ n"
  by (simp add: pow2_def)

lemma pow2_diff: "pow2 (a - b) = pow2 a / pow2 b"
  by (simp add: pow2_powi power_int_diff)

lemma pow2_diff_int: "b \<le> a \<Longrightarrow> pow2 a / pow2 b = of_int (2 ^ nat (a - b))"
  using pow2_diff [of a b] by (simp add: pow2_def)

lemma pow2_mono: "a \<le> b \<Longrightarrow> pow2 a \<le> pow2 b"
  by (simp add: pow2_powi power_int_increasing)

lemma pow2_less_imp: "pow2 a < pow2 b \<Longrightarrow> a < b"
  by (meson pow2_mono linorder_not_less)

lemma floorlog_pow2:
  assumes "0 < (a :: int)"
  defines "l \<equiv> int (floorlog 2 (nat a))"
  shows "pow2 (l - 1) \<le> of_int a" and "of_int a < pow2 l"
proof -
  define n where "n = nat a"
  have n: "0 < n" "a = int n" using assms(1) by (simp_all add: n_def)
  have fl0: "0 < floorlog 2 n" using n by (simp add: floorlog_def)
  have b: "2 ^ (floorlog 2 n - 1) \<le> n" "n < 2 ^ floorlog 2 n"
    using floorlog_bounds [of n 2] n by auto
  have "pow2 (l - 1) = of_nat (2 ^ (floorlog 2 n - 1))"
    using fl0 by (simp add: l_def n_def [symmetric] pow2_def nat_diff_distrib)
  also have "\<dots> \<le> of_nat n" using b(1) by (simp only: of_nat_le_iff)
  finally show "pow2 (l - 1) \<le> of_int a" by (simp add: n)
  have "(of_nat n :: rat) < of_nat (2 ^ floorlog 2 n)" using b(2) by (simp only: of_nat_less_iff)
  then show "of_int a < pow2 l" by (simp add: n l_def n_def [symmetric] pow2_of_nat)
qed

lemma ilog2_bounds:
  assumes "0 < x"
  shows "pow2 (ilog2 x) \<le> x" and "x < pow2 (ilog2 x + 1)"
proof -
  obtain a b where ab: "quotient_of x = (a, b)" by (cases "quotient_of x")
  have x: "x = of_int a / of_int b" and b: "0 < b"
    using ab quotient_of_div quotient_of_denom_pos by auto
  then have a: "0 < a" using assms by (simp add: zero_less_divide_iff)
  define la lb where "la = int (floorlog 2 (nat a))" and "lb = int (floorlog 2 (nat b))"
  note A = floorlog_pow2 [OF a, folded la_def] and B = floorlog_pow2 [OF b, folded lb_def]
  define d where "d = la - lb"
  have "pow2 (d - 1) = pow2 (la - 1) / pow2 lb"
    by (simp add: d_def pow2_diff)
  also have "\<dots> \<le> of_int a / of_int b"
    using A(1) B(2) a b by (intro frac_le) (auto simp: less_imp_le)
  finally have lo: "pow2 (d - 1) \<le> x" using x by simp
  have "x < pow2 la / pow2 (lb - 1)"
    unfolding x using A(2) B(1) a b by (intro frac_less) (auto simp: less_imp_le)
  then have hi: "x < pow2 (d + 1)"
    by (simp add: d_def pow2_diff pow2_add field_simps)
  have il: "ilog2 x = (if pow2 d \<le> x then d else d - 1)"
    by (simp add: ilog2_def ab d_def la_def lb_def)
  show "pow2 (ilog2 x) \<le> x" "x < pow2 (ilog2 x + 1)"
    using lo hi by (auto simp: il)
qed

lemma ilog2_unique:
  assumes "0 < x" and "pow2 e \<le> x" and "x < pow2 (e + 1)"
  shows "ilog2 x = e"
proof -
  have "pow2 e < pow2 (ilog2 x + 1)" "pow2 (ilog2 x) < pow2 (e + 1)"
    using ilog2_bounds [OF assms(1)] assms(2,3) by linarith+
  then show ?thesis by (auto dest!: pow2_less_imp)
qed

lemma ilog2_mono:
  assumes "0 < x" and "x \<le> y"
  shows "ilog2 x \<le> ilog2 y"
proof -
  have "pow2 (ilog2 x) < pow2 (ilog2 y + 1)"
    using ilog2_bounds(1) [of x] ilog2_bounds(2) [of y] assms by linarith
  then show ?thesis by (auto dest!: pow2_less_imp)
qed

section \<open>Rounding\<close>

lemma round_half_even_int [simp]: "round_half_even (of_int n) = n"
  by (simp add: round_half_even_def Let_def)

lemma round_half_even_bounds: "\<lfloor>x\<rfloor> \<le> round_half_even x" "round_half_even x \<le> \<lfloor>x\<rfloor> + 1"
  by (auto simp: round_half_even_def Let_def)

lemma round_half_even_mono:
  assumes "x \<le> y"
  shows "round_half_even x \<le> round_half_even y"
proof (cases "\<lfloor>x\<rfloor> = \<lfloor>y\<rfloor>")
  case True
  with assms show ?thesis by (auto simp: round_half_even_def Let_def)
next
  case False
  with assms have "\<lfloor>x\<rfloor> + 1 \<le> \<lfloor>y\<rfloor>" using floor_mono [OF assms] by linarith
  then show ?thesis using round_half_even_bounds(2) [of x] round_half_even_bounds(1) [of y] by linarith
qed

lemma round_half_even_le_int: "x \<le> of_int n \<Longrightarrow> round_half_even x \<le> n"
  using round_half_even_mono [of x "of_int n"] by simp

lemma round_half_even_ge_int: "of_int n \<le> x \<Longrightarrow> n \<le> round_half_even x"
  using round_half_even_mono [of "of_int n" x] by simp

lemma round_half_even_double:
  assumes "0 \<le> x"
  shows "of_int (round_half_even x) \<le> 2 * x"
proof -
  have "0 \<le> \<lfloor>x\<rfloor>" using assms by simp
  then have f: "(0 :: rat) \<le> of_int \<lfloor>x\<rfloor>" by simp
  have g: "of_int \<lfloor>x\<rfloor> \<le> x" by simp
  have up: "1/2 \<le> x - of_int \<lfloor>x\<rfloor> \<Longrightarrow> of_int \<lfloor>x\<rfloor> + 1 \<le> 2 * x" using f g by linarith
  have down: "of_int \<lfloor>x\<rfloor> \<le> 2 * x" using f g by linarith
  show ?thesis
    unfolding round_half_even_def Let_def using up down by (simp only: of_int_add of_int_1 split: if_split) auto
qed

lemma fl_pos_le_grid:
  assumes "x \<le> of_int n * pow2 (ulp_exp p q x)"
  shows "fl_pos p q x \<le> of_int n * pow2 (ulp_exp p q x)"
proof -
  have "x / pow2 (ulp_exp p q x) \<le> of_int n"
    using assms by (simp add: pos_divide_le_eq)
  then have "round_half_even (x / pow2 (ulp_exp p q x)) \<le> n"
    by (rule round_half_even_le_int)
  then show ?thesis by (simp add: fl_pos_def)
qed

lemma fl_pos_ge_grid:
  assumes "of_int n * pow2 (ulp_exp p q x) \<le> x"
  shows "of_int n * pow2 (ulp_exp p q x) \<le> fl_pos p q x"
proof -
  have "of_int n \<le> x / pow2 (ulp_exp p q x)"
    using assms by (simp add: pos_le_divide_eq)
  then have "n \<le> round_half_even (x / pow2 (ulp_exp p q x))"
    by (rule round_half_even_ge_int)
  then show ?thesis by (simp add: fl_pos_def)
qed

lemma fl_pos_nonneg: "0 < x \<Longrightarrow> 0 \<le> fl_pos p q x"
  using fl_pos_ge_grid [of 0 p q x] by simp

lemma fl_pos_double: "0 < x \<Longrightarrow> fl_pos p q x \<le> 2 * x"
  using round_half_even_double [of "x / pow2 (ulp_exp p q x)"]
  by (simp add: fl_pos_def field_simps)

lemma fl_pos_mono:
  assumes "0 < x" and "x \<le> y" and p: "0 < p"
  shows "fl_pos p q x \<le> fl_pos p q y"
proof (cases "ulp_exp p q x = ulp_exp p q y")
  case True
  have "x / pow2 (ulp_exp p q y) \<le> y / pow2 (ulp_exp p q y)"
    using assms(2) by (simp add: divide_right_mono less_imp_le)
  then have "round_half_even (x / pow2 (ulp_exp p q y)) \<le> round_half_even (y / pow2 (ulp_exp p q y))"
    by (rule round_half_even_mono)
  then show ?thesis using True by (simp add: fl_pos_def)
next
  case False
  have le: "ilog2 x \<le> ilog2 y" using assms(1,2) by (rule ilog2_mono)
  with False have ux: "ulp_exp p q x < ulp_exp p q y" and lt: "ilog2 x < ilog2 y"
    and uy: "ulp_exp p q y = ilog2 y - (int p - 1)"
    by (auto simp: ulp_exp_def max_def split: if_splits)
  let ?B = "pow2 (ilog2 y)"
  have grid: "?B = of_int (2 ^ nat (ilog2 y - u)) * pow2 u" if "u \<le> ilog2 y" for u
    using pow2_diff_int [OF that] by (simp add: field_simps)
  have y: "?B \<le> y" using ilog2_bounds(1) [of y] assms by linarith
  have "x < pow2 (ilog2 x + 1)" using ilog2_bounds(2) assms(1) by blast
  also have "\<dots> \<le> ?B" using lt by (intro pow2_mono) simp
  finally have x: "x \<le> ?B" by simp
  have "fl_pos p q x \<le> ?B"
    using fl_pos_le_grid [of x "2 ^ nat (ilog2 y - ulp_exp p q x)" p q] grid [of "ulp_exp p q x"] x ux uy p
    by simp
  also have "?B \<le> fl_pos p q y"
    using fl_pos_ge_grid [of "2 ^ nat (ilog2 y - ulp_exp p q y)" p q y] grid [of "ulp_exp p q y"] y uy p
    by simp
  finally show ?thesis .
qed

lemma fl_0 [simp]: "fl p q 0 = 0"
  by (simp add: fl_def)

lemma fl_minus: "fl p q (- x) = - fl p q x"
  by (simp add: fl_def)

lemma fl_nonneg: "0 \<le> x \<Longrightarrow> 0 \<le> fl p q x"
  by (simp add: fl_def fl_pos_nonneg)

lemma fl_double: "0 \<le> x \<Longrightarrow> fl p q x \<le> 2 * x"
  by (simp add: fl_def fl_pos_double)

lemma fl_mono:
  assumes "x \<le> y" and "0 < p"
  shows "fl p q x \<le> fl p q y"
proof -
  consider "0 < x" | "y < 0" | "x \<le> 0" "0 \<le> y" using assms(1) by linarith
  then show ?thesis
  proof cases
    case 1
    with assms fl_pos_mono [of x y p q] show ?thesis by (simp add: fl_def)
  next
    case 2
    with assms fl_pos_mono [of "- y" "- x" p q] show ?thesis by (simp add: fl_def)
  next
    case 3
    then have "0 \<le> fl p q (- x)" "0 \<le> fl p q y" by (simp_all add: fl_nonneg)
    then show ?thesis by (simp add: fl_minus)
  qed
qed

lemma fl_pos_exact:
  assumes "0 < m" and "m < 2 ^ p" and "q \<le> k"
  shows "fl_pos p q (of_int m * pow2 k) = of_int m * pow2 k"
proof -
  let ?x = "of_int m * pow2 k"
  have x0: "0 < ?x" using assms(1) by simp
  have "of_int m < (of_int (2 ^ p) :: rat)" using assms(2) by (simp only: of_int_less_iff)
  then have "?x < 2 ^ p * pow2 k" by simp
  also have "\<dots> = pow2 (int p + k)" by (simp add: pow2_add pow2_of_nat)
  finally have "pow2 (ilog2 ?x) < pow2 (int p + k)"
    using ilog2_bounds(1) [OF x0] by linarith
  then have "ilog2 ?x < int p + k" by (rule pow2_less_imp)
  then have u: "ulp_exp p q ?x \<le> k" using assms(3) by (simp add: ulp_exp_def)
  have "?x = of_int (m * 2 ^ nat (k - ulp_exp p q ?x)) * pow2 (ulp_exp p q ?x)"
    using pow2_diff_int [OF u] by (simp add: field_simps)
  then show ?thesis
    using fl_pos_le_grid [of ?x _ p q] fl_pos_ge_grid [of _ p q ?x] by (metis order_antisym order_refl)
qed

lemma fl_exact:
  assumes "\<bar>m\<bar> < 2 ^ p" and "q \<le> k"
  shows "fl p q (of_int m * pow2 k) = of_int m * pow2 k"
proof (cases m "0 :: int" rule: linorder_cases)
  case less
  then show ?thesis
    using fl_pos_exact [of "- m" p q k] assms pow2_pos [of k] less_not_sym [OF pow2_pos [of k]]
    by (auto simp: fl_def mult_less_0_iff zero_less_mult_iff)
next
  case equal
  then show ?thesis by simp
next
  case greater
  then show ?thesis using fl_pos_exact [of m p q k] assms by (simp add: fl_def)
qed

lemma fl_pos_idem:
  assumes x: "0 < x" and p: "0 < p"
  shows "fl p q (fl_pos p q x) = fl_pos p q x"
proof -
  let ?u = "ulp_exp p q x"
  define m where "m = round_half_even (x / pow2 ?u)"
  have f: "fl_pos p q x = of_int m * pow2 ?u" by (simp add: fl_pos_def m_def)
  have q: "q \<le> ?u" by (simp add: ulp_exp_def)
  have m0: "0 \<le> m" unfolding m_def by (rule round_half_even_ge_int) (use x in \<open>simp add: zero_le_divide_iff less_imp_le\<close>)
  have "x < pow2 (ilog2 x + 1)" using ilog2_bounds(2) [OF x] .
  also have "\<dots> \<le> pow2 (int p + ?u)" by (rule pow2_mono) (simp add: ulp_exp_def)
  also have "\<dots> = of_int (2 ^ p) * pow2 ?u" by (simp add: pow2_add pow2_of_nat)
  finally have "x / pow2 ?u \<le> of_int (2 ^ p)" by (simp add: divide_le_eq)
  then have m1: "m \<le> 2 ^ p" unfolding m_def by (rule round_half_even_le_int)
  show ?thesis
  proof (cases "m = 2 ^ p")
    case False
    then show ?thesis unfolding f using m0 m1 q by (intro fl_exact) auto
  next
    case True
    obtain p' where p': "p = Suc p'" using p by (cases p) auto
    have "of_int m * pow2 ?u = of_int (2 ^ p') * pow2 (?u + 1)"
      by (simp add: True p' pow2_Suc)
    moreover have "fl p q (of_int (2 ^ p') * pow2 (?u + 1)) = of_int (2 ^ p') * pow2 (?u + 1)"
      using q by (intro fl_exact) (auto simp: p')
    ultimately show ?thesis unfolding f by simp
  qed
qed

lemma fl_idem: "0 < p \<Longrightarrow> fl p q (fl p q x) = fl p q x"
  using fl_pos_idem [of x p q] fl_pos_idem [of "- x" p q]
  by (auto simp: fl_minus fl_def [of p q x])

section \<open>The two formats\<close>

lemma f32_mono: "x \<le> y \<Longrightarrow> f32 x \<le> f32 y"
  by (simp add: f32_def fl_mono)

lemma f64_mono: "x \<le> y \<Longrightarrow> f64 x \<le> f64 y"
  by (simp add: f64_def fl_mono)

lemma f32_int [simp]: "\<bar>m\<bar> < 2 ^ 24 \<Longrightarrow> f32 (of_int m) = of_int m"
  using fl_exact [of m 24 "- 149" 0] by (simp add: f32_def)

lemma f64_int: "\<bar>m\<bar> < 2 ^ 53 \<Longrightarrow> f64 (of_int m) = of_int m"
  using fl_exact [of m 53 "- 1074" 0] by (simp add: f64_def)

lemma f32_idem [simp]: "f32 (f32 x) = f32 x"
  by (simp add: f32_def fl_idem)

lemma f32_0 [simp]: "f32 0 = 0"
  by (simp add: f32_def)

lemma f64_0 [simp]: "f64 0 = 0"
  by (simp add: f64_def)

lemma f32_1 [simp]: "f32 1 = 1"
  using f32_int [of 1] by simp

lemma f64_1 [simp]: "f64 1 = 1"
  using f64_int [of 1] by simp

lemma f64_of_nat: "n < 2 ^ 53 \<Longrightarrow> f64 (of_nat n) = of_nat n"
  using f64_int [of "int n"] by simp

lemma f32_nonneg: "0 \<le> x \<Longrightarrow> 0 \<le> f32 x"
  by (simp add: f32_def fl_nonneg)

lemma f64_nonneg: "0 \<le> x \<Longrightarrow> 0 \<le> f64 x"
  by (simp add: f64_def fl_nonneg)

lemma f32_le_1: "x \<le> 1 \<Longrightarrow> f32 x \<le> 1"
  using f32_mono [of x 1] by simp

lemma f64_le_1: "x \<le> 1 \<Longrightarrow> f64 x \<le> 1"
  using f64_mono [of x 1] by simp

lemma f32_double: "0 \<le> x \<Longrightarrow> f32 x \<le> 2 * x"
  by (simp add: f32_def fl_double)

lemma f32_exact: "\<bar>m\<bar> < 2 ^ 24 \<Longrightarrow> - 149 \<le> k \<Longrightarrow> f32 (of_int m * pow2 k) = of_int m * pow2 k"
  by (simp add: f32_def fl_exact)

lemma f32_half [simp]: "f32 (1/2) = 1/2"
  using f32_exact [of 1 "- 1"] by (simp add: pow2_def)

section \<open>The square root\<close>

lemma isqrt_bounds: "isqrt n * isqrt n \<le> n \<and> n < (isqrt n + 1) * (isqrt n + 1)"
proof (induction n rule: isqrt.induct)
  case (1 n)
  show ?case
  proof (cases "n = 0")
    case True
    then show ?thesis by (simp add: isqrt.simps)
  next
    case False
    let ?r = "isqrt (n div 4)"
    have IH: "?r * ?r \<le> n div 4" "n div 4 < (?r + 1) * (?r + 1)" using 1 False by auto
    have "4 * (?r * ?r) \<le> n" using IH(1) by linarith
    moreover have "n < 4 * ((?r + 1) * (?r + 1))" using IH(2) by linarith
    ultimately show ?thesis using False
      by (subst (1 2 3 4) isqrt.simps) (auto simp: Let_def algebra_simps)
  qed
qed

lemma f32_sqrt_0 [simp]: "f32_sqrt 0 = 0"
  by (simp add: f32_sqrt_def)

lemma isqrt_pos: "0 < n \<Longrightarrow> 0 < isqrt n"
  using isqrt_bounds [of n] by (cases "isqrt n") auto

lemma f32_sqrt_pos:
  assumes "0 < x"
  shows "0 < f32_sqrt x"
proof -
  define k where "k = ilog2 x div 2 - 23"
  have "1 \<le> pow2 (ilog2 x - 2 * k)"
    using pow2_mono [of 0 "ilog2 x - 2 * k"] by (simp add: k_def)
  also have "\<dots> = pow2 (ilog2 x) / pow2 (2 * k)" by (rule pow2_diff)
  also have "\<dots> \<le> x / pow2 (2 * k)"
    using ilog2_bounds(1) [OF assms] by (intro divide_right_mono) (auto simp: less_imp_le)
  finally have "0 < isqrt (nat \<lfloor>x / pow2 (2 * k)\<rfloor>)"
    by (intro isqrt_pos) (simp add: le_floor_iff)
  then show ?thesis
    using assms by (simp add: f32_sqrt_def Let_def k_def [symmetric] add_pos_nonneg)
qed

lemma f32_sqrt_nonneg: "0 \<le> f32_sqrt x"
  using f32_sqrt_pos [of x] by (cases "0 < x") (auto simp: f32_sqrt_def)

lemma f32_sqrt_eq_0: "0 \<le> x \<Longrightarrow> f32_sqrt x = 0 \<longleftrightarrow> x = 0"
  using f32_sqrt_pos [of x] by (cases "0 < x") auto

end
