(* ===== verification/Annex_Types.thy ===== *)
theory Annex_Types
  imports Rust_Float
begin

text \<open>
  Crate \<open>annex-types\<close>: the enumerations, the capability flags, the server policy with its
  defaults, and the presence events. Enumerations keep the source's constructors (qualified
  by their type where two enumerations share a name); the variants \<open>Self_\<close> and \<open>None\<close> of
  \<open>VisibilityLevel\<close> are \<open>VisSelf\<close> and \<open>VisNone\<close>.
\<close>

section \<open>Enumerations (lib.rs)\<close>

datatype RoleCode = Human | AiAgent | Collective | Bridge | Service

fun as_u8 :: "RoleCode \<Rightarrow> u8" where
  "as_u8 RoleCode.Human = 1"
| "as_u8 RoleCode.AiAgent = 2"
| "as_u8 RoleCode.Collective = 3"
| "as_u8 RoleCode.Bridge = 4"
| "as_u8 RoleCode.Service = 5"

definition from_u8 :: "u8 \<Rightarrow> RoleCode option" where
  "from_u8 code =
     (if code = 1 then Some RoleCode.Human
      else if code = 2 then Some RoleCode.AiAgent
      else if code = 3 then Some RoleCode.Collective
      else if code = 4 then Some RoleCode.Bridge
      else if code = 5 then Some RoleCode.Service
      else None)"

fun label :: "RoleCode \<Rightarrow> string" where
  "label RoleCode.Human = ''HUMAN''"
| "label RoleCode.AiAgent = ''AI_AGENT''"
| "label RoleCode.Collective = ''COLLECTIVE''"
| "label RoleCode.Bridge = ''BRIDGE''"
| "label RoleCode.Service = ''SERVICE''"

datatype AlignmentStatus = Aligned | Partial | Conflict

datatype TransferScope = NoTransfer | ReflectionSummariesOnly | FullKnowledgeBundle

datatype ChannelType = Text | Voice | Hybrid | Agent | Broadcast

datatype FederationScope = Local | Federated

datatype NodeType = Human | AiAgent | Collective | Bridge | Service

datatype EdgeKind = MemberOf | Connected | AgentServing | FederatedWith | Moderates

record Capabilities =
  can_voice :: bool
  can_moderate :: bool
  can_invite :: bool
  can_federate :: bool
  can_bridge :: bool

definition default_capabilities :: Capabilities where
  "default_capabilities = \<lparr>can_voice = False, can_moderate = False, can_invite = False,
     can_federate = False, can_bridge = False\<rparr>"

datatype VisibilityLevel = VisSelf | Degree1 | Degree2 | Degree3 | AggregateOnly | VisNone

datatype PresenceEvent =
    NodeAdded string NodeType
  | NodeUpdated string bool
  | NodePruned string
  | EdgeAdded string string EdgeKind
  | EdgeRemoved string string EdgeKind
  | FederationRealigned string AlignmentStatus
  | FederationSevered string

section \<open>Server policy (policy.rs)\<close>

record RateLimitConfig =
  registration_limit :: u32
  verification_limit :: u32
  default_limit :: u32

definition default_rate_limit :: RateLimitConfig where
  "default_rate_limit = \<lparr>registration_limit = 10, verification_limit = 10, default_limit = 60\<rparr>"

record ServerPolicy =
  agent_min_alignment_score :: rat
  agent_required_capabilities :: "string list"
  federation_enabled :: bool
  default_retention_days :: u32
  voice_enabled :: bool
  max_members :: u32
  rate_limit :: RateLimitConfig
  principles :: "string list"
  prohibited_actions :: "string list"
  access_mode :: string
  access_password :: string
  images_enabled :: bool
  videos_enabled :: bool
  files_enabled :: bool
  max_image_size_mb :: u32
  max_video_size_mb :: u32
  max_file_size_mb :: u32
  usernames_enabled :: bool

definition default_access_mode :: string where
  "default_access_mode = ''public''"

definition default_true :: bool where
  "default_true = True"

definition default_max_upload_mb :: u32 where
  "default_max_upload_mb = 5"

definition default_policy :: ServerPolicy where
  "default_policy = \<lparr>
     agent_min_alignment_score = f32 (8 / 10),
     agent_required_capabilities = [],
     federation_enabled = True,
     default_retention_days = 30,
     voice_enabled = True,
     max_members = 1000,
     rate_limit = default_rate_limit,
     principles = [],
     prohibited_actions = [],
     access_mode = ''public'',
     access_password = [],
     images_enabled = True,
     videos_enabled = True,
     files_enabled = True,
     max_image_size_mb = 5,
     max_video_size_mb = 5,
     max_file_size_mb = 5,
     usernames_enabled = False\<rparr>"

section \<open>Voice profiles (voice.rs)\<close>

datatype VoiceModel = Piper | Bark | System

record VoiceProfile =
  vp_id :: string
  vp_name :: string
  vp_model :: VoiceModel
  vp_model_path :: string
  vp_config_path :: "string option"
  vp_speed :: rat
  vp_pitch :: rat
  vp_speaker_id :: "u32 option"

definition default_voice_profile :: VoiceProfile where
  "default_voice_profile = \<lparr>
     vp_id = ''default'',
     vp_name = ''Default Voice'',
     vp_model = Piper,
     vp_model_path = ''en_US-lessac-medium.onnx'',
     vp_config_path = Some ''en_US-lessac-medium.onnx.json'',
     vp_speed = 1,
     vp_pitch = 1,
     vp_speaker_id = None\<rparr>"

section \<open>The numeric role codes\<close>

interpretation role_u8: codec as_u8 from_u8
proof (standard, goal_cases)
  case (1 a)
  then show ?case by (cases a) (simp_all add: from_u8_def)
next
  case (2 b a)
  then show ?case by (auto simp: from_u8_def split: if_splits)
qed

lemma as_u8_range: "1 \<le> as_u8 r \<and> as_u8 r \<le> 5"
  by (cases r) (simp_all add: word_le_nat_alt)

lemma label_inj: "label r = label r' \<longleftrightarrow> r = r'"
  by (cases r; cases r') simp_all

lemma from_u8_None: "from_u8 c = None \<longleftrightarrow> c \<notin> {1, 2, 3, 4, 5}"
  by (auto simp: from_u8_def)

end
