(* ===== verification/Annex_Db.thy ===== *)
theory Annex_Db
  imports Annex_Types
begin

text \<open>
  The database that the crates share (crate \<open>annex-db\<close>): one row record per table of
  \<open>migrations/*.sql\<close> that a modelled component uses, with the columns of the table after all
  migrations, and the record of all tables. Connections run with foreign keys enforced
  (\<open>pool.rs\<close>), so a statement that would leave a dangling reference fails as a whole.

  Statements that SQLite itself refuses for reasons outside the data (I/O errors, locking)
  are modelled by a fault schedule, a function from the position of a statement in its
  transaction to whether it fails; it is an argument of the operations whose atomicity
  depends on it.

  The migration runner of \<open>migrations.rs\<close> is here as well, over abstract migrations (a name
  and the effect of its SQL, which may fail).
\<close>

section \<open>Rows\<close>

record leaf_row =
  lf_index :: nat
  lf_commitment :: string

record root_row =
  rt_root_hex :: string
  rt_active :: bool
  rt_created :: time

record vrp_identity_row =
  vi_rowid :: int
  vi_commitment :: string
  vi_role :: u8
  vi_node :: int

record nullifier_row =
  nf_topic :: string
  nf_nullifier :: string
  nf_pseudonym :: "string option"
  nf_commitment :: "string option"

record topic_row =
  tp_topic :: string
  tp_description :: string
  tp_created :: time

record role_row =
  ro_code :: u8
  ro_label :: string

record platform_row =
  pi_id :: int
  pi_server :: int
  pi_pseudonym :: string
  pi_type :: string
  pi_caps :: Capabilities
  pi_active :: bool
  pi_created :: time
  pi_updated :: time

record server_row =
  sv_id :: int
  sv_slug :: string
  sv_label :: string
  sv_policy_json :: string

record channel_row =
  ch_id :: int
  ch_server :: int
  ch_channel :: string
  ch_name :: string
  ch_type :: string
  ch_topic :: "string option"
  ch_binding :: "string option"
  ch_required :: "string option"
  ch_min_alignment :: "string option"
  ch_retention :: "u32 option"
  ch_scope :: string
  ch_created :: time

record message_row =
  ms_id :: int
  ms_server :: int
  ms_channel :: string
  ms_message :: string
  ms_sender :: string
  ms_content :: string
  ms_reply_to :: "string option"
  ms_created :: time
  ms_expires :: "time option"
  ms_edited :: "time option"
  ms_deleted :: "time option"

record edit_row =
  ed_id :: int
  ed_message :: string
  ed_old_content :: string
  ed_edited :: time

record member_row =
  mb_id :: int
  mb_server :: int
  mb_channel :: string
  mb_pseudonym :: string
  mb_role :: string
  mb_joined :: time

record node_row =
  gn_id :: int
  gn_server :: int
  gn_pseudonym :: string
  gn_type :: string
  gn_active :: bool
  gn_last_seen :: "time option"
  gn_metadata :: "string option"
  gn_created :: time

record edge_row =
  ge_id :: int
  ge_server :: int
  ge_from :: string
  ge_to :: string
  ge_kind :: string
  ge_weight :: rat
  ge_created :: time

record handshake_row =
  hl_id :: int
  hl_server :: int
  hl_peer :: string
  hl_peer_type :: string
  hl_status :: string
  hl_report :: string
  hl_created :: time

record instance_row =
  in_id :: int
  in_base_url :: string
  in_public_key :: string
  in_label :: string
  in_status :: string

record agreement_row =
  ag_id :: int
  ag_server :: int
  ag_remote :: int
  ag_alignment :: string
  ag_scope :: string
  ag_report :: string
  ag_handshake :: "string option"
  ag_active :: bool
  ag_created :: time
  ag_updated :: time

record event_row =
  ev_id :: int
  ev_server :: int
  ev_domain :: string
  ev_type :: string
  ev_entity_type :: string
  ev_entity :: string
  ev_seq :: int
  ev_payload :: string
  ev_occurred :: time

record policy_version_row =
  pv_id :: int
  pv_server :: int
  pv_version :: string
  pv_policy_json :: string
  pv_activated :: time

record agent_row =
  ar_id :: int
  ar_server :: int
  ar_pseudonym :: string
  ar_alignment :: string
  ar_scope :: string
  ar_contract :: string
  ar_voice_profile :: "int option"
  ar_reputation :: rat
  ar_last_handshake :: time
  ar_active :: bool
  ar_anchor :: "string option"
  ar_created :: time
  ar_updated :: time

record federated_identity_row =
  fi_id :: int
  fi_server :: int
  fi_remote :: int
  fi_commitment :: string
  fi_pseudonym :: string
  fi_topic :: string
  fi_attested :: time
  fi_root :: "string option"
  fi_verified :: "time option"

record rtx_bundle_row =
  rb_id :: int
  rb_server :: int
  rb_bundle :: string
  rb_source :: string
  rb_source_server :: string
  rb_tags :: string
  rb_summary :: string
  rb_reasoning :: "string option"
  rb_caveats :: string
  rb_created_ms :: "64 word"
  rb_signature :: string
  rb_handshake :: string
  rb_stored :: time
  rb_provenance :: "string option"

record rtx_subscription_row =
  rs_id :: int
  rs_server :: int
  rs_subscriber :: string
  rs_filters :: string
  rs_federated :: bool
  rs_created :: time

record rtx_log_row =
  rl_id :: int
  rl_server :: int
  rl_bundle :: string
  rl_source :: string
  rl_destination :: "string option"
  rl_scope :: string
  rl_redactions :: "string option"
  rl_transferred :: time

record upload_row =
  up_id :: int
  up_server :: int
  up_upload :: string
  up_uploader :: string
  up_filename :: string
  up_type :: string
  up_size :: int
  up_purpose :: string
  up_channel :: "string option"
  up_created :: time
  up_category :: string

record profile_row =
  pr_row_id :: int
  pr_server :: int
  pr_pseudonym :: string
  pr_username :: string
  pr_updated :: time

record grant_row =
  gt_id :: int
  gt_server :: int
  gt_granter :: string
  gt_grantee :: string
  gt_created :: time

section \<open>The tables\<close>

record db =
  vrp_leaves :: "leaf_row list"
  vrp_roots :: "root_row list"
  vrp_identities :: "vrp_identity_row list"
  zk_nullifiers :: "nullifier_row list"
  vrp_topics :: "topic_row list"
  vrp_roles :: "role_row list"
  platform_identities :: "platform_row auto_table"
  servers :: "server_row list"
  channels :: "channel_row auto_table"
  messages :: "message_row auto_table"
  message_edits :: "edit_row auto_table"
  channel_members :: "member_row auto_table"
  graph_nodes :: "node_row auto_table"
  graph_edges :: "edge_row auto_table"
  vrp_handshake_log :: "handshake_row auto_table"
  instances :: "instance_row list"
  federation_agreements :: "agreement_row auto_table"
  public_event_log :: "event_row auto_table"
  server_policy_versions :: "policy_version_row auto_table"
  agent_registrations :: "agent_row auto_table"
  federated_identities :: "federated_identity_row auto_table"
  rtx_bundles :: "rtx_bundle_row auto_table"
  rtx_subscriptions :: "rtx_subscription_row auto_table"
  rtx_transfer_log :: "rtx_log_row auto_table"
  uploads :: "upload_row auto_table"
  user_profiles :: "profile_row auto_table"
  username_grants :: "grant_row auto_table"

text \<open>The state after all migrations on an empty file, at time \<open>now\<close>.\<close>

definition migrated_db :: "time \<Rightarrow> db" where
  "migrated_db now = \<lparr>
     vrp_leaves = [], vrp_roots = [], vrp_identities = [], zk_nullifiers = [],
     vrp_topics =
       [\<lparr>tp_topic = ''annex:server:v1'', tp_description = ''Server identity scope'', tp_created = now\<rparr>,
        \<lparr>tp_topic = ''annex:channel:v1'', tp_description = ''Channel identity scope'', tp_created = now\<rparr>,
        \<lparr>tp_topic = ''annex:federation:v1'', tp_description = ''Federation identity scope'', tp_created = now\<rparr>],
     vrp_roles =
       [\<lparr>ro_code = 1, ro_label = ''HUMAN''\<rparr>, \<lparr>ro_code = 2, ro_label = ''AI_AGENT''\<rparr>,
        \<lparr>ro_code = 3, ro_label = ''COLLECTIVE''\<rparr>, \<lparr>ro_code = 4, ro_label = ''BRIDGE''\<rparr>,
        \<lparr>ro_code = 5, ro_label = ''SERVICE''\<rparr>],
     platform_identities = empty_auto, servers = [], channels = empty_auto, messages = empty_auto,
     message_edits = empty_auto, channel_members = empty_auto, graph_nodes = empty_auto,
     graph_edges = empty_auto, vrp_handshake_log = empty_auto, instances = [],
     federation_agreements = empty_auto, public_event_log = empty_auto,
     server_policy_versions = empty_auto, agent_registrations = empty_auto, federated_identities = empty_auto,
     rtx_bundles = empty_auto, rtx_subscriptions = empty_auto, rtx_transfer_log = empty_auto,
     uploads = empty_auto, user_profiles = empty_auto, username_grants = empty_auto\<rparr>"

lemma migrated_db_simps [simp]:
  "vrp_leaves (migrated_db t) = []"
  "vrp_roots (migrated_db t) = []"
  "vrp_identities (migrated_db t) = []"
  "zk_nullifiers (migrated_db t) = []"
  "servers (migrated_db t) = []"
  "instances (migrated_db t) = []"
  "platform_identities (migrated_db t) = empty_auto"
  "channels (migrated_db t) = empty_auto"
  "messages (migrated_db t) = empty_auto"
  "message_edits (migrated_db t) = empty_auto"
  "channel_members (migrated_db t) = empty_auto"
  "graph_nodes (migrated_db t) = empty_auto"
  "graph_edges (migrated_db t) = empty_auto"
  "vrp_handshake_log (migrated_db t) = empty_auto"
  "federation_agreements (migrated_db t) = empty_auto"
  "public_event_log (migrated_db t) = empty_auto"
  "server_policy_versions (migrated_db t) = empty_auto"
  "agent_registrations (migrated_db t) = empty_auto"
  "federated_identities (migrated_db t) = empty_auto"
  "rtx_bundles (migrated_db t) = empty_auto"
  "rtx_subscriptions (migrated_db t) = empty_auto"
  "rtx_transfer_log (migrated_db t) = empty_auto"
  "uploads (migrated_db t) = empty_auto"
  "user_profiles (migrated_db t) = empty_auto"
  "username_grants (migrated_db t) = empty_auto"
  by (simp_all add: migrated_db_def)

section \<open>Faults\<close>

text \<open>\<open>flt n\<close>: the \<open>n\<close>-th fallible database call of the operation fails in the engine.\<close>

type_synonym faults = "nat \<Rightarrow> bool"

definition no_faults :: faults where
  "no_faults n = False"

definition guard_fault :: "faults \<Rightarrow> nat \<Rightarrow> rusqlite_error + unit" where
  "guard_fault flt n = (if flt n then Inl (SqliteFailure EngineFailure) else Inr ())"

lemma guard_fault_none [simp]: "guard_fault no_faults n = Inr ()"
  by (simp add: guard_fault_def no_faults_def)

lemma guard_fault_Inr [res_simps]: "guard_fault flt n = Inr u \<longleftrightarrow> \<not> flt n"
  by (simp add: guard_fault_def)

section \<open>The connection pool (pool.rs)\<close>

text \<open>
  Every connection is initialised by asking for WAL mode, where an in-memory database answers
  \<open>memory\<close>, and by turning on the foreign keys that the rest of the development relies on;
  the pragma's answer is an argument.
\<close>

record DbRuntimeSettings =
  busy_timeout_ms :: u64
  pool_max_size :: u32

definition default_settings :: DbRuntimeSettings where
  "default_settings = \<lparr>busy_timeout_ms = 5000, pool_max_size = 8\<rparr>"

record connection_state =
  foreign_keys :: bool
  busy_timeout :: u64

definition init_connection :: "DbRuntimeSettings \<Rightarrow> string \<Rightarrow> rusqlite_error + connection_state" where
  "init_connection settings journal_mode =
     (if journal_mode \<noteq> ''wal'' \<and> journal_mode \<noteq> ''memory'' then Inl (SqliteFailure EngineFailure)
      else Inr \<lparr>foreign_keys = True, busy_timeout = busy_timeout_ms settings\<rparr>)"

definition effective_max_size :: "string \<Rightarrow> DbRuntimeSettings \<Rightarrow> u32" where
  "effective_max_size db_path settings = (if db_path = '':memory:'' then 1 else pool_max_size settings)"

lemma init_connection_foreign_keys:
  "init_connection settings mode = Inr c \<Longrightarrow> foreign_keys c \<and> mode \<in> {''wal'', ''memory''}"
  by (auto simp: init_connection_def split: if_splits)

section \<open>The migration runner (migrations.rs)\<close>

text \<open>
  A migration is its name and the effect of its SQL on the schema and data, \<open>None\<close> when a
  statement fails. The state is the list of recorded names together with the database; each
  migration and the record of its name are committed in one transaction, and a failure
  stops the run, keeping what was committed before it.
\<close>

record 's Migration =
  mig_name :: string
  mig_sql :: "'s \<Rightarrow> 's option"

fun run_migrations_from_list ::
  "'s Migration list \<Rightarrow> string list \<times> 's \<Rightarrow> nat \<Rightarrow> (string list \<times> 's) \<times> (string + nat)" where
  "run_migrations_from_list [] (applied, s) n = ((applied, s), Inr n)"
| "run_migrations_from_list (m # ms) (applied, s) n =
     (if mig_name m \<in> set applied then run_migrations_from_list ms (applied, s) n
      else case mig_sql m s of
             None \<Rightarrow> ((applied, s), Inl (mig_name m))
           | Some s' \<Rightarrow> run_migrations_from_list ms (applied @ [mig_name m], s') (n + 1))"

lemma run_migrations_applied_mono:
  "run_migrations_from_list ms (a, s) n = ((a', s'), r) \<Longrightarrow> set a \<subseteq> set a'"
  by (induction ms "(a, s)" n arbitrary: a s rule: run_migrations_from_list.induct)
     (auto split: if_splits option.splits)

lemma run_migrations_all_applied:
  "run_migrations_from_list ms (a, s) n = ((a', s'), Inr k) \<Longrightarrow> mig_name ` set ms \<subseteq> set a'"
proof (induction ms "(a, s)" n arbitrary: a s rule: run_migrations_from_list.induct)
  case (2 m ms a s n)
  show ?case
  proof (cases "mig_name m \<in> set a")
    case True
    with "2.prems" have r: "run_migrations_from_list ms (a, s) n = ((a', s'), Inr k)" by simp
    show ?thesis
      using "2.hyps"(1) [OF True r] run_migrations_applied_mono [OF r] True by auto
  next
    case False
    with "2.prems" obtain t where t: "mig_sql m s = Some t"
      and r: "run_migrations_from_list ms (a @ [mig_name m], t) (n + 1) = ((a', s'), Inr k)"
      by (auto split: option.splits)
    show ?thesis
      using "2.hyps"(2) [OF False t r] run_migrations_applied_mono [OF r] by auto
  qed
qed simp

lemma run_migrations_skip:
  "mig_name ` set ms \<subseteq> set a \<Longrightarrow> run_migrations_from_list ms (a, s) n = ((a, s), Inr n)"
  by (induction ms) auto

lemma run_migrations_distinct:
  "run_migrations_from_list ms (a, s) n = ((a', s'), r) \<Longrightarrow> distinct a \<Longrightarrow> distinct a'"
  by (induction ms "(a, s)" n arbitrary: a s rule: run_migrations_from_list.induct)
     (auto split: if_splits option.splits)

lemma run_migrations_count:
  "run_migrations_from_list ms (a, s) n = ((a', s'), Inr k) \<Longrightarrow> length a' + n = length a + k"
  by (induction ms "(a, s)" n arbitrary: a s rule: run_migrations_from_list.induct)
     (auto split: if_splits option.splits)

text \<open>
  Migrations run exactly once: after a successful run every migration of the list is
  recorded, the count returned is the number of newly recorded names, no name is recorded
  twice, and running the list again changes nothing and reports zero applied migrations.
\<close>

theorem migrations_idempotent:
  assumes "run_migrations_from_list ms (a, s) 0 = ((a', s'), Inr k)" and "distinct a"
  shows "mig_name ` set ms \<subseteq> set a' \<and> distinct a' \<and> length a' = length a + k
    \<and> run_migrations_from_list ms (a', s') 0 = ((a', s'), Inr 0)"
  using run_migrations_all_applied [OF assms(1)] run_migrations_distinct [OF assms]
    run_migrations_count [OF assms(1)] by (simp add: run_migrations_skip)

theorem migrations_idempotent_witness:
  "\<exists>a' s'. run_migrations_from_list
     [\<lparr>mig_name = ''000_init'', mig_sql = Some\<rparr>,
      \<lparr>mig_name = ''001_identity'', mig_sql = \<lambda>n::nat. Some (n + 1)\<rparr>]
     (a', s') 0 = ((a', s'), Inr 0) \<and> a' = [''000_init'', ''001_identity''] \<and> s' = 1"
  using migrations_idempotent [of "[\<lparr>mig_name = ''000_init'', mig_sql = Some\<rparr>,
      \<lparr>mig_name = ''001_identity'', mig_sql = \<lambda>n::nat. Some (n + 1)\<rparr>]" "[]" 0
      "[''000_init'', ''001_identity'']" 1 2] by simp

end
