(* ===== verification/Annex_Identity.thy ===== *)
theory Annex_Identity
  imports Annex_Db
begin

text \<open>
  Crate \<open>annex-identity\<close>, the pure part: the error type, the derivation of nullifiers and
  topic-scoped pseudonyms (\<open>lib.rs\<close>), the Poseidon wrapper (\<open>poseidon.rs\<close>) and the identity
  commitment (\<open>commitment.rs\<close>).

  The third-party primitives are the fields of the record \<open>crypto\<close>, an argument of every
  definition that uses them: Poseidon (\<open>light_poseidon\<close>), the BN254 scalar field
  (\<open>ark_bn254\<close>, \<open>ark_ff\<close>), the \<open>hex\<close> crate and SHA-256 (\<open>sha2\<close>). What the code relies on is
  stated by the predicates \<open>hex_laws\<close>, \<open>field_laws\<close> and \<open>sha_laws\<close>.
\<close>

section \<open>External primitives\<close>

record 'f crypto =
  poseidon :: "nat \<Rightarrow> string + ('f list \<Rightarrow> string + 'f)"
  fr_of_nat :: "nat \<Rightarrow> 'f"
  fr_of_bytes :: "bytes \<Rightarrow> 'f"
  fr_to_bytes :: "'f \<Rightarrow> bytes"
  hex_encode :: "bytes \<Rightarrow> string"
  hex_decode :: "string \<Rightarrow> bytes option"
  sha256 :: "bytes \<Rightarrow> bytes"

section \<open>Errors (lib.rs)\<close>

datatype IdentityError =
    EmptyCommitment
  | EmptyTopic
  | EmptyNullifier
  | InvalidNullifierFormat
  | InvalidCommitmentFormat
  | InvalidHex
  | InvalidRoleCode u8
  | InvalidRoleLabel string
  | PoseidonError string
  | TreeFull
  | InvalidIndex nat
  | DuplicateNullifier string
  | DuplicateCommitment string
  | CommitmentNotFound string
  | MerkleRootMismatch string string
  | DatabaseError rusqlite_error

section \<open>Characters\<close>

definition is_ascii_digit :: "char \<Rightarrow> bool" where
  "is_ascii_digit c \<longleftrightarrow> CHR ''0'' \<le> c \<and> c \<le> CHR ''9''"

definition is_lower_hex :: "char \<Rightarrow> bool" where
  "is_lower_hex c \<longleftrightarrow> is_ascii_digit c \<or> CHR ''a'' \<le> c \<and> c \<le> CHR ''f''"

definition is_ascii_hexdigit :: "char \<Rightarrow> bool" where
  "is_ascii_hexdigit c \<longleftrightarrow> is_lower_hex c \<or> CHR ''A'' \<le> c \<and> c \<le> CHR ''F''"

definition ascii_lower_char :: "char \<Rightarrow> char" where
  "ascii_lower_char c =
     (if CHR ''A'' \<le> c \<and> c \<le> CHR ''Z'' then char_of (of_char c + 32 :: nat) else c)"

definition to_ascii_lowercase :: "string \<Rightarrow> string" where
  "to_ascii_lowercase s = map ascii_lower_char s"

section \<open>Pseudonym derivation (lib.rs)\<close>

definition sha256_hex :: "'f crypto \<Rightarrow> string \<Rightarrow> string" where
  "sha256_hex C input = hex_encode C (sha256 C input)"

definition is_lower_hex_64 :: "string \<Rightarrow> bool" where
  "is_lower_hex_64 v \<longleftrightarrow> length v = 64 \<and> list_all is_lower_hex v"

definition derive_nullifier_hex :: "'f crypto \<Rightarrow> string \<Rightarrow> string \<Rightarrow> IdentityError + string" where
  "derive_nullifier_hex C commitment_hex topic =
     (if commitment_hex = [] then Inl EmptyCommitment
      else if topic = [] then Inl EmptyTopic
      else if \<not> is_lower_hex_64 commitment_hex then Inl InvalidCommitmentFormat
      else Inr (sha256_hex C (commitment_hex @ '':'' @ topic)))"

definition derive_pseudonym_id :: "'f crypto \<Rightarrow> string \<Rightarrow> string \<Rightarrow> IdentityError + string" where
  "derive_pseudonym_id C topic nullifier_hex =
     (if topic = [] then Inl EmptyTopic
      else if nullifier_hex = [] then Inl EmptyNullifier
      else if \<not> is_lower_hex_64 nullifier_hex then Inl InvalidNullifierFormat
      else Inr (sha256_hex C (topic @ '':'' @ nullifier_hex)))"

definition derive_topic_scoped_pseudonym ::
  "'f crypto \<Rightarrow> string \<Rightarrow> string \<Rightarrow> IdentityError + string" where
  "derive_topic_scoped_pseudonym C commitment_hex topic =
     and_then (derive_nullifier_hex C commitment_hex topic)
       (\<lambda>nullifier_hex. derive_pseudonym_id C topic nullifier_hex)"

section \<open>Poseidon (poseidon.rs) and commitments (commitment.rs)\<close>

definition hash_inputs :: "'f crypto \<Rightarrow> 'f list \<Rightarrow> IdentityError + 'f" where
  "hash_inputs C inputs =
     and_then (map_err (\<lambda>e. PoseidonError (''Failed to initialize Poseidon: '' @ e))
                (poseidon C (length inputs)))
       (\<lambda>hash. map_err (\<lambda>e. PoseidonError (''Poseidon hash failed: '' @ e)) (hash inputs))"

definition generate_commitment ::
  "'f crypto \<Rightarrow> string \<Rightarrow> RoleCode \<Rightarrow> u64 \<Rightarrow> IdentityError + string" where
  "generate_commitment C sk_hex role node_id =
     and_then (ok_or (hex_decode C sk_hex) InvalidHex) (\<lambda>sk_bytes.
       if length sk_bytes < 16 \<or> 32 < length sk_bytes then Inl InvalidHex
       else
         let sk_fr = fr_of_bytes C sk_bytes;
             roundtrip_bytes = fr_to_bytes C sk_fr;
             padded = replicate (32 - length sk_bytes) (CHR 0x00) @ sk_bytes
         in if padded \<noteq> roundtrip_bytes then Inl InvalidHex
            else and_then
                   (hash_inputs C [sk_fr, fr_of_nat C (unat (as_u8 role)), fr_of_nat C (unat node_id)])
                   (\<lambda>commitment_fr. Inr (hex_encode C (fr_to_bytes C commitment_fr))))"

section \<open>What the code relies on\<close>

text \<open>The documented behaviour of the \<open>hex\<close> crate.\<close>

definition hex_laws :: "'f crypto \<Rightarrow> bool" where
  "hex_laws C \<longleftrightarrow>
     (\<forall>bs. hex_decode C (hex_encode C bs) = Some bs) \<and>
     (\<forall>bs. length (hex_encode C bs) = 2 * length bs \<and> list_all is_lower_hex (hex_encode C bs)) \<and>
     (\<forall>s. even (length s) \<longrightarrow> list_all is_ascii_hexdigit s \<longrightarrow> hex_decode C s \<noteq> None)"

text \<open>SHA-256 returns 32 bytes.\<close>

definition sha_laws :: "'f crypto \<Rightarrow> bool" where
  "sha_laws C \<longleftrightarrow> (\<forall>bs. length (sha256 C bs) = 32)"

text \<open>
  Field elements are serialised canonically: 32 bytes, and reading the bytes of an element
  gives the element back.
\<close>

definition field_laws :: "'f crypto \<Rightarrow> bool" where
  "field_laws C \<longleftrightarrow>
     (\<forall>x. length (fr_to_bytes C x) = 32) \<and> (\<forall>x. fr_of_bytes C (fr_to_bytes C x) = x)"

section \<open>Lemmas\<close>

lemma hex_encode_inj: "hex_laws C \<Longrightarrow> hex_encode C a = hex_encode C b \<longleftrightarrow> a = b"
  unfolding hex_laws_def by (metis option.inject)

lemma hex_encode_32: "hex_laws C \<Longrightarrow> length bs = 32 \<Longrightarrow> is_lower_hex_64 (hex_encode C bs)"
  by (simp add: hex_laws_def is_lower_hex_64_def)

lemma sha256_hex_format: "hex_laws C \<Longrightarrow> sha_laws C \<Longrightarrow> is_lower_hex_64 (sha256_hex C s)"
  by (simp add: sha256_hex_def sha_laws_def hex_encode_32)

lemma fr_to_bytes_inj: "field_laws C \<Longrightarrow> fr_to_bytes C a = fr_to_bytes C b \<longleftrightarrow> a = b"
  unfolding field_laws_def by metis

lemma fr_hex_inj:
  "hex_laws C \<Longrightarrow> field_laws C \<Longrightarrow>
   hex_encode C (fr_to_bytes C a) = hex_encode C (fr_to_bytes C b) \<longleftrightarrow> a = b"
  by (simp add: hex_encode_inj fr_to_bytes_inj)

lemma fr_hex_decode:
  "hex_laws C \<Longrightarrow> hex_decode C (hex_encode C (fr_to_bytes C a)) = Some (fr_to_bytes C a)"
  by (simp add: hex_laws_def)

lemma is_lower_hex_64_nonempty: "is_lower_hex_64 v \<Longrightarrow> v \<noteq> []"
  by (auto simp: is_lower_hex_64_def)

lemma derive_nullifier_hex_Inr:
  "derive_nullifier_hex C c t = Inr n \<longleftrightarrow>
     is_lower_hex_64 c \<and> t \<noteq> [] \<and> n = sha256_hex C (c @ '':'' @ t)"
  by (auto simp: derive_nullifier_hex_def is_lower_hex_64_nonempty)

lemma derive_pseudonym_id_Inr:
  "derive_pseudonym_id C t n = Inr p \<longleftrightarrow>
     is_lower_hex_64 n \<and> t \<noteq> [] \<and> p = sha256_hex C (t @ '':'' @ n)"
  by (auto simp: derive_pseudonym_id_def is_lower_hex_64_nonempty)

text \<open>Both preimages have a field of fixed length 64, so the separator cannot be confused.\<close>

lemma nullifier_preimage_inj:
  "is_lower_hex_64 c \<Longrightarrow> is_lower_hex_64 c' \<Longrightarrow>
   c @ '':'' @ t = c' @ '':'' @ t' \<longleftrightarrow> c = c' \<and> t = t'"
  by (auto simp: is_lower_hex_64_def append_eq_append_conv)

lemma pseudonym_preimage_inj:
  "is_lower_hex_64 n \<Longrightarrow> is_lower_hex_64 n' \<Longrightarrow>
   t @ '':'' @ n = t' @ '':'' @ n' \<longleftrightarrow> t = t' \<and> n = n'"
proof -
  assume "is_lower_hex_64 n" "is_lower_hex_64 n'"
  then have "length ('':'' @ n) = length ('':'' @ n')" by (simp add: is_lower_hex_64_def)
  then show ?thesis using append_eq_append_conv [of t t' "'':'' @ n" "'':'' @ n'"] by auto
qed

section \<open>Properties\<close>

text \<open>
  Pseudonym derivation is total on well-formed input and follows the documented formula:
  for a 64-digit lowercase commitment and a nonempty topic the pseudonym is
  \<open>sha256(topic : sha256(commitment : topic))\<close> in hex and is itself 64 lowercase hex digits;
  an empty commitment, an empty topic and a malformed commitment are refused with their own
  error, in this order.
\<close>

theorem pseudonym_derivation:
  assumes "hex_laws C" and "sha_laws C"
  shows "derive_topic_scoped_pseudonym C c t =
      (if c = [] then Inl EmptyCommitment
       else if t = [] then Inl EmptyTopic
       else if \<not> is_lower_hex_64 c then Inl InvalidCommitmentFormat
       else Inr (sha256_hex C (t @ '':'' @ sha256_hex C (c @ '':'' @ t))))
    \<and> (\<forall>p. derive_topic_scoped_pseudonym C c t = Inr p \<longrightarrow> is_lower_hex_64 p)"
proof -
  have n: "is_lower_hex_64 (sha256_hex C s)" for s
    using assms by (rule sha256_hex_format)
  then have "sha256_hex C s \<noteq> []" for s by (rule is_lower_hex_64_nonempty)
  with n show ?thesis
    by (auto simp: derive_topic_scoped_pseudonym_def derive_nullifier_hex_def derive_pseudonym_id_def)
qed

lemma topic_scoped_Inr:
  "derive_topic_scoped_pseudonym C c t = Inr p \<longleftrightarrow>
     is_lower_hex_64 c \<and> t \<noteq> [] \<and> is_lower_hex_64 (sha256_hex C (c @ '':'' @ t)) \<and>
     p = sha256_hex C (t @ '':'' @ sha256_hex C (c @ '':'' @ t))"
  by (auto simp: derive_topic_scoped_pseudonym_def and_then_Inr derive_nullifier_hex_Inr
      derive_pseudonym_id_Inr)

text \<open>
  Pseudonyms of different identities or topics collide only if SHA-256 does: when two
  derivations return the same pseudonym, either they are for the same commitment and the
  same topic, or their two nullifier preimages, or their two pseudonym preimages, are
  different messages with the same SHA-256 digest.
\<close>

theorem pseudonym_collision_resistant:
  assumes "hex_laws C"
    and "derive_topic_scoped_pseudonym C c t = Inr p"
    and "derive_topic_scoped_pseudonym C c' t' = Inr p"
    and "x = c @ '':'' @ t" and "x' = c' @ '':'' @ t'"
    and "y = t @ '':'' @ sha256_hex C x" and "y' = t' @ '':'' @ sha256_hex C x'"
  shows "(c = c' \<and> t = t') \<or> (x \<noteq> x' \<and> sha256 C x = sha256 C x') \<or> (y \<noteq> y' \<and> sha256 C y = sha256 C y')"
proof (cases "y = y'")
  case False
  with assms show ?thesis
    by (auto simp: topic_scoped_Inr sha256_hex_def hex_encode_inj)
next
  case True
  have n: "is_lower_hex_64 (sha256_hex C x)" "is_lower_hex_64 (sha256_hex C x')"
    and c: "is_lower_hex_64 c" "is_lower_hex_64 c'"
    using assms(2-5) by (simp_all add: topic_scoped_Inr)
  from True have "t = t'" "sha256_hex C x = sha256_hex C x'"
    using pseudonym_preimage_inj [OF n] unfolding assms(6,7) by blast+
  then show ?thesis
    using nullifier_preimage_inj [OF c, of t t'] assms(1) unfolding assms(4,5)
    by (auto simp: sha256_hex_def hex_encode_inj)
qed

text \<open>
  No secret key is silently reduced modulo the field order: a secret key for which a
  commitment is generated decodes to 16 to 32 bytes whose field element serialises back to
  those bytes, left-padded to 32, so two accepted keys that give the same field element are
  the same number.
\<close>

theorem commitment_key_not_reduced:
  assumes "generate_commitment C sk r n = Inr h"
    and "generate_commitment C sk' r' n' = Inr h'"
  shows "\<exists>b b'. hex_decode C sk = Some b \<and> hex_decode C sk' = Some b'
    \<and> 16 \<le> length b \<and> length b \<le> 32
    \<and> fr_to_bytes C (fr_of_bytes C b) = replicate (32 - length b) (CHR 0x00) @ b
    \<and> (fr_of_bytes C b = fr_of_bytes C b' \<longrightarrow>
         replicate (32 - length b) (CHR 0x00) @ b = replicate (32 - length b') (CHR 0x00) @ b')"
  using assms by (fastforce simp: generate_commitment_def Let_def res_simps split: if_splits)

end
