(* ===== verification/Annex_Demo.thy ===== *)
theory Annex_Demo
  imports Annex_Identity
begin

text \<open>
  A concrete instance of the external primitives, used by the witnesses: the field is the
  bytes, hex is the usual encoding, and the two hash functions are simple mixing functions
  with the sizes of the real ones. No property of the development depends on it.
\<close>

definition hex_digit :: "nat \<Rightarrow> char" where
  "hex_digit n = char_of (if n < 10 then 48 + n else 87 + n)"

fun hex_enc :: "bytes \<Rightarrow> string" where
  "hex_enc [] = []"
| "hex_enc (b # bs) = hex_digit (of_char b div 16) # hex_digit (of_char b mod 16) # hex_enc bs"

definition hex_val :: "char \<Rightarrow> nat option" where
  "hex_val c = (let n = of_char c in
     if 48 \<le> n \<and> n \<le> 57 then Some (n - 48)
     else if 97 \<le> n \<and> n \<le> 102 then Some (n - 87)
     else if 65 \<le> n \<and> n \<le> 70 then Some (n - 55)
     else None)"

fun hex_dec :: "string \<Rightarrow> bytes option" where
  "hex_dec [] = Some []"
| "hex_dec [c] = None"
| "hex_dec (c # d # s) = (case (hex_val c, hex_val d, hex_dec s) of
     (Some h, Some l, Some bs) \<Rightarrow> Some (char_of (16 * h + l) # bs)
   | _ \<Rightarrow> None)"

definition demo_crypto :: "u8 crypto" where
  "demo_crypto = \<lparr>
     poseidon = (\<lambda>n. if n \<le> 12 then Inr (\<lambda>xs. Inr (foldl (\<lambda>a x. 3 * a + x + 1) 0 xs)) else Inl ''width''),
     fr_of_nat = of_nat,
     fr_of_bytes = (\<lambda>bs. if bs = [] then 0 else of_nat (of_char (last bs))),
     fr_to_bytes = (\<lambda>x. replicate 31 (CHR 0x00) @ [char_of (unat x)]),
     hex_encode = hex_enc,
     hex_decode = hex_dec,
     sha256 = (\<lambda>bs. take 32 (rev bs @ replicate 32 (CHR 0x00)))\<rparr>"

lemma hex_val_digit: "n < 16 \<Longrightarrow> hex_val (hex_digit n) = Some n"
  by (simp add: hex_val_def hex_digit_def Let_def)

lemma lower_hex_digit: "n < 16 \<Longrightarrow> is_lower_hex (hex_digit n)"
  by (auto simp: is_lower_hex_def is_ascii_digit_def hex_digit_def less_eq_char_def)

lemma hex_val_hexdigit: "is_ascii_hexdigit c \<Longrightarrow> \<exists>n. hex_val c = Some n"
  by (auto simp: hex_val_def is_ascii_hexdigit_def is_lower_hex_def is_ascii_digit_def
      less_eq_char_def Let_def)

lemma nibbles: "of_char b div 16 < (16 :: nat)" "of_char b mod 16 < (16 :: nat)"
proof -
  have "of_char b < (256 :: nat)" by (rule nat_of_char_less_256)
  then show "of_char b div 16 < (16 :: nat)" by (simp add: less_mult_imp_div_less)
qed simp

lemma hex_dec_enc: "hex_dec (hex_enc bs) = Some bs"
proof (induction bs)
  case (Cons b bs)
  show ?case using Cons nibbles [of b] by (simp add: hex_val_digit)
qed simp

lemma hex_enc_format: "length (hex_enc bs) = 2 * length bs \<and> list_all is_lower_hex (hex_enc bs)"
proof (induction bs)
  case (Cons b bs)
  show ?case using Cons nibbles [of b] by (simp add: lower_hex_digit)
qed simp

lemma hex_dec_total: "even (length s) \<Longrightarrow> list_all is_ascii_hexdigit s \<Longrightarrow> \<exists>bs. hex_dec s = Some bs"
  by (induction s rule: hex_dec.induct) (auto dest!: hex_val_hexdigit)

lemma demo_hex_laws: "hex_laws demo_crypto"
  using hex_dec_enc hex_enc_format hex_dec_total by (auto simp: hex_laws_def demo_crypto_def)

lemma demo_sha_laws: "sha_laws demo_crypto"
  by (auto simp: sha_laws_def demo_crypto_def)

lemma demo_field_laws: "field_laws demo_crypto"
proof -
  have "unat (x :: u8) mod 256 = unat x" for x
    using unsigned_less [of x, where ?'a = nat] by simp
  then show ?thesis by (simp add: field_laws_def demo_crypto_def)
qed

definition demo_commitment :: string where
  "demo_commitment = replicate 62 (CHR ''0'') @ ''a7''"

lemma demo_commitment_format: "is_lower_hex_64 demo_commitment" "demo_commitment \<noteq> []"
  by (simp_all add: is_lower_hex_64_def demo_commitment_def is_lower_hex_def is_ascii_digit_def
      less_eq_char_def list_all_iff)

theorem pseudonym_derivation_witness:
  "hex_laws demo_crypto \<and> sha_laws demo_crypto \<and>
   derive_topic_scoped_pseudonym demo_crypto demo_commitment ''t'' =
     Inr (sha256_hex demo_crypto (''t'' @ '':'' @ sha256_hex demo_crypto (demo_commitment @ '':'' @ ''t'')))"
  using pseudonym_derivation [OF demo_hex_laws demo_sha_laws, of demo_commitment "''t''"]
    demo_hex_laws demo_sha_laws demo_commitment_format by simp

theorem pseudonym_collision_resistant_witness:
  "\<exists>c c' x x'. x = c @ '':'' @ ''t'' \<and> x' = c' @ '':'' @ ''t'' \<and> c \<noteq> c' \<and>
     derive_topic_scoped_pseudonym demo_crypto c ''t'' = derive_topic_scoped_pseudonym demo_crypto c' ''t'' \<and>
     x \<noteq> x' \<and> sha256 demo_crypto x = sha256 demo_crypto x'"
proof -
  let ?c = "demo_commitment" and ?c' = "CHR ''1'' # tl demo_commitment"
  let ?x = "?c @ '':'' @ ''t''" and ?x' = "?c' @ '':'' @ ''t''"
  have c': "is_lower_hex_64 ?c'"
    by (simp add: is_lower_hex_64_def demo_commitment_def is_lower_hex_def is_ascii_digit_def
        less_eq_char_def list_all_iff)
  have sha: "sha256 demo_crypto ?x = sha256 demo_crypto ?x'"
    by (simp add: demo_crypto_def demo_commitment_def)
  have p: "derive_topic_scoped_pseudonym demo_crypto ?c ''t'' =
      Inr (sha256_hex demo_crypto (''t'' @ '':'' @ sha256_hex demo_crypto ?x))"
    "derive_topic_scoped_pseudonym demo_crypto ?c' ''t'' =
      Inr (sha256_hex demo_crypto (''t'' @ '':'' @ sha256_hex demo_crypto ?x))"
    using c' demo_commitment_format sha256_hex_format [OF demo_hex_laws demo_sha_laws] sha
    unfolding topic_scoped_Inr by (auto simp: sha256_hex_def)
  have "hd ?c \<noteq> hd ?c'" by (simp add: demo_commitment_def hd_append)
  then have ne: "?c \<noteq> ?c'" by metis
  have "?x \<noteq> ?x' \<and> sha256 demo_crypto ?x = sha256 demo_crypto ?x'"
    using pseudonym_collision_resistant [OF demo_hex_laws p refl refl refl refl] ne sha
    by (auto simp: sha256_hex_def)
  with p ne show ?thesis by (intro exI [of _ ?c] exI [of _ ?c'] exI [of _ ?x] exI [of _ ?x']) simp
qed

definition demo_sk :: string where
  "demo_sk = replicate 30 (CHR ''0'') @ ''07''"

lemma demo_chars: "char_of (0::nat) = CHR 0x00" "char_of (7::nat) = CHR 0x07"
  by code_simp+

lemma hex_dec_zeros:
  "hex_dec s = Some bs \<Longrightarrow>
   hex_dec (replicate (2 * n) (CHR ''0'') @ s) = Some (replicate n (CHR 0x00) @ bs)"
  by (induction n) (auto simp: hex_val_def demo_chars)

lemma demo_sk_bytes: "hex_dec demo_sk = Some (replicate 15 (CHR 0x00) @ [CHR 0x07])"
  using hex_dec_zeros [of "''07''" "[CHR 0x07]" 15] by (simp add: demo_sk_def hex_val_def demo_chars)

lemma demo_padding: "replicate 16 x @ replicate 15 x @ ys = replicate 31 x @ ys"
  by (simp flip: append_assoc replicate_add)

lemma demo_commitment_generated:
  "\<exists>h. generate_commitment demo_crypto demo_sk r n = Inr h"
proof -
  have b: "hex_decode demo_crypto demo_sk = Some (replicate 15 (CHR 0x00) @ [CHR 0x07])"
    by (simp add: demo_crypto_def demo_sk_bytes)
  have f: "fr_to_bytes demo_crypto (fr_of_bytes demo_crypto (replicate 15 (CHR 0x00) @ [CHR 0x07])) =
      replicate 31 (CHR 0x00) @ [CHR 0x07]"
    by (simp add: demo_crypto_def demo_chars)
  have h: "\<exists>x. hash_inputs demo_crypto [a, b, c] = Inr x" for a b c
    by (simp add: hash_inputs_def demo_crypto_def)
  show ?thesis
    using h [of "fr_of_bytes demo_crypto (replicate 15 (CHR 0x00) @ [CHR 0x07])"]
    by (auto simp: generate_commitment_def b f Let_def demo_padding res_simps
        simp del: replicate_Suc)
qed

theorem commitment_key_not_reduced_witness:
  "\<exists>b. hex_decode demo_crypto demo_sk = Some b \<and> 16 \<le> length b \<and>
     fr_to_bytes demo_crypto (fr_of_bytes demo_crypto b) = replicate (32 - length b) (CHR 0x00) @ b"
proof -
  obtain h where h: "generate_commitment demo_crypto demo_sk RoleCode.Human 42 = Inr h"
    using demo_commitment_generated by blast
  show ?thesis using commitment_key_not_reduced [OF h h] by blast
qed

end
