(* ===== verification/Annex_Merkle.thy ===== *)
theory Annex_Merkle
  imports Annex_Demo
begin

text \<open>
  Crate \<open>annex-identity\<close>, file \<open>merkle.rs\<close>: the append-only Poseidon Merkle tree with its
  sparse node map, the preview of an insertion, proofs, persistence of leaves and roots, and
  the restoration of a tree from the database.

  The specification is the plain recursive Merkle root \<open>spec_node\<close> of the list of leaves
  padded with zeros. The invariant \<open>tree_ok\<close> says that every node of the (default-filled)
  node map is the hash of its two children; it is kept by insertion, and the root, the
  proofs and the previewed root are correct under it.
\<close>

unbundle bit_operations_syntax

section \<open>The tree\<close>

record 'f MerkleTree =
  depth :: nat
  next_index :: nat
  nodes :: "(nat \<times> nat) \<rightharpoonup> 'f"
  zeros :: "'f list"

text \<open>The loop that fills \<open>zeros\<close>: each entry is the hash of the previous one with itself.\<close>

fun zero_hashes :: "'f crypto \<Rightarrow> nat \<Rightarrow> 'f list \<Rightarrow> IdentityError + 'f list" where
  "zero_hashes C 0 zs = Inr zs"
| "zero_hashes C (Suc n) zs =
     and_then (hash_inputs C [last zs, last zs]) (\<lambda>h. zero_hashes C n (zs @ [h]))"

definition new_tree :: "'f crypto \<Rightarrow> nat \<Rightarrow> IdentityError + 'f MerkleTree" where
  "new_tree C d =
     and_then (zero_hashes C d [fr_of_nat C 0])
       (\<lambda>zs. Inr \<lparr>depth = d, next_index = 0, nodes = Map.empty, zeros = zs\<rparr>)"

text \<open>\<open>*self.nodes.get(&(level, index)).unwrap_or(&self.zeros[level])\<close>.\<close>

definition node_or_zero :: "'f MerkleTree \<Rightarrow> nat \<Rightarrow> nat \<Rightarrow> 'f" where
  "node_or_zero t level i = (case nodes t (level, i) of Some v \<Rightarrow> v | None \<Rightarrow> zeros t ! level)"

text \<open>
  \<open>1usize.checked_shl(depth as u32).unwrap_or(usize::MAX)\<close> on a 64-bit target; the cast
  \<open>as u32\<close> truncates.
\<close>

definition capacity :: "nat \<Rightarrow> nat" where
  "capacity d = (if d mod 2 ^ 32 < 64 then 2 ^ (d mod 2 ^ 32) else 2 ^ 64 - 1)"

text \<open>The loop of \<open>preview_insert\<close> over the levels \<open>level..depth\<close>.\<close>

fun preview_loop ::
  "'f crypto \<Rightarrow> 'f MerkleTree \<Rightarrow> nat \<Rightarrow> nat \<Rightarrow> nat \<Rightarrow> 'f \<Rightarrow> ((nat \<times> nat) \<times> 'f) list
     \<Rightarrow> IdentityError + ('f \<times> ((nat \<times> nat) \<times> 'f) list)" where
  "preview_loop C t 0 level idx v ups = Inr (v, ups)"
| "preview_loop C t (Suc n) level idx v ups =
     (let sibling = node_or_zero t level (idx XOR 1)
      in and_then (if idx AND 1 = 0 then hash_inputs C [v, sibling] else hash_inputs C [sibling, v])
           (\<lambda>parent. preview_loop C t n (level + 1) (idx div 2) parent
              (ups @ [((level + 1, idx div 2), parent)])))"

definition preview_insert ::
  "'f crypto \<Rightarrow> 'f MerkleTree \<Rightarrow> 'f \<Rightarrow> IdentityError + (nat \<times> 'f \<times> ((nat \<times> nat) \<times> 'f) list)" where
  "preview_insert C t leaf =
     (if capacity (depth t) \<le> next_index t then Inl TreeFull
      else and_then (preview_loop C t (depth t) 0 (next_index t) leaf [((0, next_index t), leaf)])
             (\<lambda>(root, ups). Inr (next_index t, root, ups)))"

definition apply_updates :: "nat \<Rightarrow> ((nat \<times> nat) \<times> 'f) list \<Rightarrow> 'f MerkleTree \<Rightarrow> 'f MerkleTree" where
  "apply_updates n ups t =
     t\<lparr>next_index := n, nodes := foldl (\<lambda>m (k, v). m(k \<mapsto> v)) (nodes t) ups\<rparr>"

definition tree_insert :: "'f crypto \<Rightarrow> 'f MerkleTree \<Rightarrow> 'f \<Rightarrow> IdentityError + (nat \<times> 'f MerkleTree)" where
  "tree_insert C t leaf =
     and_then (preview_insert C t leaf)
       (\<lambda>(index, _, ups). Inr (index, apply_updates (index + 1) ups t))"

definition tree_root :: "'f MerkleTree \<Rightarrow> 'f" where
  "tree_root t = node_or_zero t (depth t) 0"

definition root_hex :: "'f crypto \<Rightarrow> 'f MerkleTree \<Rightarrow> string" where
  "root_hex C t = hex_encode C (fr_to_bytes C (tree_root t))"

fun proof_loop :: "'f MerkleTree \<Rightarrow> nat \<Rightarrow> nat \<Rightarrow> nat \<Rightarrow> ('f \<times> u8) list" where
  "proof_loop t 0 level idx = []"
| "proof_loop t (Suc n) level idx =
     (node_or_zero t level (idx XOR 1), of_nat (idx mod 2)) # proof_loop t n (level + 1) (idx div 2)"

definition get_proof :: "'f MerkleTree \<Rightarrow> nat \<Rightarrow> IdentityError + ('f list \<times> u8 list)" where
  "get_proof t index =
     (if next_index t \<le> index then Inl (InvalidIndex index)
      else Inr (map fst (proof_loop t (depth t) 0 index), map snd (proof_loop t (depth t) 0 index)))"

section \<open>Persistence\<close>

text \<open>
  \<open>persist_leaf_and_root\<close> inside a transaction: three statements, the first of which also
  fails when the leaf index is taken (\<open>PRIMARY KEY\<close>). \<open>base\<close> numbers its first statement in
  the fault schedule of the transaction.
\<close>

definition persist_leaf_and_root ::
  "'f crypto \<Rightarrow> time \<Rightarrow> faults \<Rightarrow> nat \<Rightarrow> db \<Rightarrow> nat \<Rightarrow> 'f \<Rightarrow> 'f \<Rightarrow> IdentityError + db" where
  "persist_leaf_and_root C now flt base d index leaf rt =
     (let leaf_hex = hex_encode C (fr_to_bytes C leaf); new_root_hex = hex_encode C (fr_to_bytes C rt)
      in and_then (map_err DatabaseError (guard_fault flt base)) (\<lambda>_.
           if exists_where (\<lambda>r. lf_index r = index) (vrp_leaves d)
           then Inl (DatabaseError (SqliteFailure ConstraintPrimaryKey))
           else and_then (map_err DatabaseError (guard_fault flt (base + 1))) (\<lambda>_.
                  and_then (map_err DatabaseError (guard_fault flt (base + 2))) (\<lambda>_.
                    Inr (d\<lparr>vrp_leaves := vrp_leaves d @ [\<lparr>lf_index = index, lf_commitment = leaf_hex\<rparr>],
                           vrp_roots := update_where rt_active (\<lambda>r. r\<lparr>rt_active := False\<rparr>) (vrp_roots d)
                             @ [\<lparr>rt_root_hex = new_root_hex, rt_active = True, rt_created = now\<rparr>]\<rparr>)))))"

text \<open>
  \<open>insert_and_persist\<close>: begin (fault 0), the three statements (1 to 3), commit (4). Any
  failure drops the transaction, which rolls it back, and the tree is not touched.
\<close>

definition insert_and_persist ::
  "'f crypto \<Rightarrow> time \<Rightarrow> faults \<Rightarrow> 'f MerkleTree \<Rightarrow> db \<Rightarrow> 'f
     \<Rightarrow> (IdentityError + nat) \<times> 'f MerkleTree \<times> db" where
  "insert_and_persist C now flt t d leaf =
     (case and_then (preview_insert C t leaf) (\<lambda>(index, new_root, ups).
             and_then (map_err DatabaseError (guard_fault flt 0)) (\<lambda>_.
               and_then (persist_leaf_and_root C now flt 1 d index leaf new_root) (\<lambda>d'.
                 and_then (map_err DatabaseError (guard_fault flt 4)) (\<lambda>_.
                   Inr (index, apply_updates (index + 1) ups t, d')))))
      of Inl e \<Rightarrow> (Inl e, t, d)
       | Inr (index, t', d') \<Rightarrow> (Inr index, t', d'))"

text \<open>The loop of \<open>restore\<close> over the stored leaves.\<close>

fun restore_loop :: "'f crypto \<Rightarrow> string list \<Rightarrow> 'f MerkleTree \<Rightarrow> IdentityError + 'f MerkleTree" where
  "restore_loop C [] t = Inr t"
| "restore_loop C (h # hs) t =
     and_then (ok_or (hex_decode C h) InvalidHex) (\<lambda>bs.
       and_then (tree_insert C t (fr_of_bytes C bs)) (\<lambda>(_, t'). restore_loop C hs t'))"

definition restore :: "'f crypto \<Rightarrow> db \<Rightarrow> nat \<Rightarrow> IdentityError + 'f MerkleTree" where
  "restore C d dep =
     and_then (new_tree C dep) (\<lambda>t0.
       and_then (restore_loop C (map lf_commitment (order_by lf_index (vrp_leaves d))) t0) (\<lambda>t.
         case order_by_desc rt_created (filter rt_active (vrp_roots d)) of
           [] \<Rightarrow> Inr t
         | r # _ \<Rightarrow>
             if root_hex C t \<noteq> rt_root_hex r
             then Inl (MerkleRootMismatch (rt_root_hex r) (root_hex C t))
             else Inr t))"

section \<open>Specification\<close>

text \<open>The Merkle node over a list of leaves, absent leaves being zero.\<close>

fun spec_node :: "'f crypto \<Rightarrow> 'f list \<Rightarrow> nat \<Rightarrow> nat \<Rightarrow> IdentityError + 'f" where
  "spec_node C L 0 i = Inr (if i < length L then L ! i else fr_of_nat C 0)"
| "spec_node C L (Suc l) i =
     and_then (spec_node C L l (2 * i)) (\<lambda>a.
       and_then (spec_node C L l (2 * i + 1)) (\<lambda>b. hash_inputs C [a, b]))"

text \<open>How a verifier folds a path: the direction bit says on which side the current node is.\<close>

fun fold_path :: "'f crypto \<Rightarrow> 'f \<Rightarrow> ('f \<times> u8) list \<Rightarrow> IdentityError + 'f" where
  "fold_path C v [] = Inr v"
| "fold_path C v ((s, b) # ps) =
     and_then (if b = 0 then hash_inputs C [v, s] else hash_inputs C [s, v]) (\<lambda>p. fold_path C p ps)"

definition leaves :: "'f MerkleTree \<Rightarrow> 'f list" where
  "leaves t = map (node_or_zero t 0) [0..<next_index t]"

definition tree_ok :: "'f crypto \<Rightarrow> 'f MerkleTree \<Rightarrow> bool" where
  "tree_ok C t \<longleftrightarrow>
     length (zeros t) = depth t + 1 \<and> zeros t ! 0 = fr_of_nat C 0 \<and>
     next_index t \<le> capacity (depth t) \<and>
     (\<forall>i \<ge> next_index t. nodes t (0, i) = None) \<and>
     (\<forall>l < depth t. \<forall>i.
        hash_inputs C [node_or_zero t l (2 * i), node_or_zero t l (2 * i + 1)] =
          Inr (node_or_zero t (l + 1) i))"

section \<open>The new tree\<close>

lemma zero_hashes_spec:
  "zero_hashes C n zs = Inr zs' \<Longrightarrow> zs \<noteq> [] \<Longrightarrow>
   length zs' = length zs + n \<and> take (length zs) zs' = zs \<and>
   (\<forall>l. length zs \<le> l + 1 \<longrightarrow> l + 1 < length zs' \<longrightarrow> hash_inputs C [zs' ! l, zs' ! l] = Inr (zs' ! (l + 1)))"
proof (induction n arbitrary: zs)
  case (Suc n)
  then obtain h where h: "hash_inputs C [last zs, last zs] = Inr h"
    and r: "zero_hashes C n (zs @ [h]) = Inr zs'"
    by (auto simp: res_simps)
  have IH: "length zs' = length zs + 1 + n" "take (length zs + 1) zs' = zs @ [h]"
    "\<And>l. length zs \<le> l \<Longrightarrow> l + 1 < length zs' \<Longrightarrow> hash_inputs C [zs' ! l, zs' ! l] = Inr (zs' ! (l + 1))"
    using Suc.IH [OF r] by auto
  have t: "take (length zs) zs' = zs"
    using arg_cong [OF IH(2), of "take (length zs)"] by simp
  have nth: "zs' ! l = (zs @ [h]) ! l" if "l \<le> length zs" for l
    using that arg_cong [OF IH(2), of "\<lambda>x. x ! l"] by simp
  have "hash_inputs C [zs' ! l, zs' ! l] = Inr (zs' ! (l + 1))"
    if "length zs \<le> l + 1" "l + 1 < length zs'" for l
  proof (cases "length zs \<le> l")
    case True
    then show ?thesis using IH(3) that by blast
  next
    case False
    then have l: "l + 1 = length zs" using that(1) by simp
    then have "l = length zs - 1" by simp
    then have "zs' ! l = last zs" "zs' ! (l + 1) = h"
      using nth [of l] nth [of "l + 1"] l Suc.prems(2) by (auto simp: nth_append last_conv_nth)
    then show ?thesis using h by simp
  qed
  then show ?case using IH(1) t by simp
qed simp

lemma capacity_le: "capacity d \<le> 2 ^ d"
proof (cases "d mod 2 ^ 32 < 64")
  case True
  then show ?thesis by (simp add: capacity_def mod_less_eq_dividend)
next
  case False
  then have "64 \<le> d" using mod_less_eq_dividend [of d "2 ^ 32"] by linarith
  then have "(2 :: nat) ^ 64 \<le> 2 ^ d" by (rule power_increasing) simp
  then show ?thesis using False by (simp add: capacity_def)
qed

lemma capacity_pos: "0 < capacity d"
  by (simp add: capacity_def)

lemma new_tree_ok:
  assumes "new_tree C d = Inr t"
  shows "tree_ok C t \<and> depth t = d \<and> leaves t = []"
proof -
  obtain zs where zs: "zero_hashes C d [fr_of_nat C 0] = Inr zs"
    and t: "t = \<lparr>depth = d, next_index = 0, nodes = Map.empty, zeros = zs\<rparr>"
    using assms by (auto simp: new_tree_def res_simps)
  have z: "length zs = 1 + d" "take 1 zs = [fr_of_nat C 0]"
    "\<And>l. l + 1 < length zs \<Longrightarrow> hash_inputs C [zs ! l, zs ! l] = Inr (zs ! (l + 1))"
    using zero_hashes_spec [OF zs] by auto
  have "zs ! 0 = fr_of_nat C 0" using z(1,2) by (cases zs) auto
  then show ?thesis
    using z by (auto simp: tree_ok_def t node_or_zero_def leaves_def)
qed

section \<open>Insertion\<close>

lemma xor_one_nat: "(i :: nat) XOR 1 = (if even i then i + 1 else i - 1)"
  using xor_one_eq [of i] by auto

lemma and_one_nat: "(i :: nat) AND 1 = 0 \<longleftrightarrow> even i"
  by (simp add: and_one_eq even_iff_mod_2_eq_zero)

text \<open>The pair of children that the loop hashes at a node with value \<open>v\<close> and index \<open>i\<close>.\<close>

definition children :: "'f MerkleTree \<Rightarrow> nat \<Rightarrow> nat \<Rightarrow> 'f \<Rightarrow> 'f list" where
  "children t l i v = (if even i then [v, node_or_zero t l (i + 1)] else [node_or_zero t l (i - 1), v])"

lemma preview_loop_Suc:
  "preview_loop C t (Suc n) l i v ups =
     and_then (hash_inputs C (children t l i v))
       (\<lambda>p. preview_loop C t n (l + 1) (i div 2) p (ups @ [((l + 1, i div 2), p)]))"
  unfolding preview_loop.simps Let_def and_one_nat xor_one_nat children_def
  by (cases "even i") simp_all

lemma preview_loop_spec:
  "preview_loop C t n l i v ups = Inr (r, ups') \<Longrightarrow>
   \<exists>vs. length vs = n + 1 \<and> vs ! 0 = v \<and> vs ! n = r \<and>
     ups' = ups @ map (\<lambda>k. ((l + k, i div 2 ^ k), vs ! k)) [1..<n + 1] \<and>
     (\<forall>k < n. hash_inputs C (children t (l + k) (i div 2 ^ k) (vs ! k)) = Inr (vs ! (k + 1)))"
proof (induction n arbitrary: l i v ups)
  case 0
  then show ?case by (intro exI [of _ "[v]"]) auto
next
  case (Suc n)
  obtain p where p: "hash_inputs C (children t l i v) = Inr p"
    and r: "preview_loop C t n (l + 1) (i div 2) p (ups @ [((l + 1, i div 2), p)]) = Inr (r, ups')"
    using Suc.prems by (auto simp: preview_loop_Suc res_simps simp del: preview_loop.simps)
  obtain vs where vs: "length vs = n + 1" "vs ! 0 = p" "vs ! n = r"
    "ups' = (ups @ [((l + 1, i div 2), p)]) @
       map (\<lambda>k. ((l + 1 + k, i div 2 div 2 ^ k), vs ! k)) [1..<n + 1]"
    "\<forall>k < n. hash_inputs C (children t (l + 1 + k) (i div 2 div 2 ^ k) (vs ! k)) = Inr (vs ! (k + 1))"
    using Suc.IH [OF r] by blast
  let ?vs = "v # vs"
  have "map (\<lambda>k. ((l + k, i div 2 ^ k), ?vs ! k)) [1..<Suc n + 1] =
      map (\<lambda>k. ((l + Suc k, i div 2 ^ Suc k), vs ! k)) [0..<n + 1]"
    by (simp add: comp_def del: upt_Suc flip: map_Suc_upt)
  also have "\<dots> = ((l + 1, i div 2), p) # map (\<lambda>k. ((l + Suc k, i div 2 ^ Suc k), vs ! k)) [1..<n + 1]"
    using vs(2) by (subst upt_conv_Cons) auto
  finally have "ups' = ups @ map (\<lambda>k. ((l + k, i div 2 ^ k), ?vs ! k)) [1..<Suc n + 1]"
    using vs(4) by (simp add: div_mult2_eq)
  moreover have "hash_inputs C (children t (l + k) (i div 2 ^ k) (?vs ! k)) = Inr (?vs ! (k + 1))"
    if "k < Suc n" for k
    using that p vs(2,5) by (cases k) (auto simp: div_mult2_eq)
  ultimately show ?case using vs(1,3) by (intro exI [of _ ?vs]) auto
qed

lemma foldl_upd_levels:
  "foldl (\<lambda>m (k, v). m(k \<mapsto> v)) m (map (\<lambda>k. ((k, g k), f k)) [0..<n]) =
     (\<lambda>(l, i). if l < n \<and> i = g l then Some (f l) else m (l, i))"
  by (induction n) (auto simp: fun_eq_iff)

lemma preview_insert_nodes:
  assumes "preview_insert C t leaf = Inr (index, r, ups)"
  obtains vs where "index = next_index t" "next_index t < capacity (depth t)"
    "length vs = depth t + 1" "vs ! 0 = leaf" "vs ! depth t = r"
    "\<And>k. k < depth t \<Longrightarrow> hash_inputs C (children t k (index div 2 ^ k) (vs ! k)) = Inr (vs ! (k + 1))"
    "\<And>l i. node_or_zero (apply_updates n ups t) l i =
       (if l \<le> depth t \<and> i = index div 2 ^ l then vs ! l else node_or_zero t l i)"
    "\<And>l i. nodes (apply_updates n ups t) (l, i) =
       (if l \<le> depth t \<and> i = index div 2 ^ l then Some (vs ! l) else nodes t (l, i))"
proof -
  have i: "index = next_index t" "next_index t < capacity (depth t)"
    and l: "preview_loop C t (depth t) 0 index leaf [((0, index), leaf)] = Inr (r, ups)"
    using assms by (auto simp: preview_insert_def res_simps split: if_splits)
  obtain vs where vs: "length vs = depth t + 1" "vs ! 0 = leaf" "vs ! depth t = r"
    "ups = [((0, index), leaf)] @ map (\<lambda>k. ((0 + k, index div 2 ^ k), vs ! k)) [1..<depth t + 1]"
    "\<forall>k < depth t. hash_inputs C (children t (0 + k) (index div 2 ^ k) (vs ! k)) = Inr (vs ! (k + 1))"
    using preview_loop_spec [OF l] by blast
  have "ups = map (\<lambda>k. ((k, index div 2 ^ k), vs ! k)) [0..<depth t + 1]"
    using vs(2,4) by (subst upt_conv_Cons) auto
  then have n: "nodes (apply_updates n ups t) (l, i) =
      (if l \<le> depth t \<and> i = index div 2 ^ l then Some (vs ! l) else nodes t (l, i))" for l i
    by (auto simp: apply_updates_def foldl_upd_levels simp del: upt_Suc)
  have "zeros (apply_updates n ups t) = zeros t" by (simp add: apply_updates_def)
  then have "node_or_zero (apply_updates n ups t) l i =
      (if l \<le> depth t \<and> i = index div 2 ^ l then vs ! l else node_or_zero t l i)" for l i
    using n by (simp add: node_or_zero_def split: option.split)
  with that i vs n show ?thesis by simp
qed

lemma apply_updates_fields [simp]:
  "depth (apply_updates n ups t) = depth t" "zeros (apply_updates n ups t) = zeros t"
  "next_index (apply_updates n ups t) = n"
  by (simp_all add: apply_updates_def)

lemma leaves_length [simp]: "length (leaves t) = next_index t"
  by (simp add: leaves_def)

lemma div_pow_Suc: "(i :: nat) div 2 ^ (l + 1) = i div 2 ^ l div 2"
  by (simp only: power_add power_one_right div_mult2_eq)

lemma preview_insert_ok:
  assumes ok: "tree_ok C t" and p: "preview_insert C t leaf = Inr (index, r, ups)"
  defines "t' \<equiv> apply_updates (index + 1) ups t"
  shows "tree_ok C t' \<and> index = next_index t \<and> leaves t' = leaves t @ [leaf] \<and> tree_root t' = r"
proof -
  obtain vs where i: "index = next_index t" "next_index t < capacity (depth t)"
    and vs: "length vs = depth t + 1" "vs ! 0 = leaf" "vs ! depth t = r"
      "\<And>k. k < depth t \<Longrightarrow> hash_inputs C (children t k (index div 2 ^ k) (vs ! k)) = Inr (vs ! (k + 1))"
    and nd: "\<And>l i. node_or_zero t' l i =
       (if l \<le> depth t \<and> i = index div 2 ^ l then vs ! l else node_or_zero t l i)"
    and ns: "\<And>l i. nodes t' (l, i) =
       (if l \<le> depth t \<and> i = index div 2 ^ l then Some (vs ! l) else nodes t (l, i))"
    by (rule preview_insert_nodes [OF p, where n = "index + 1", folded t'_def]) (rule that)
  have fields: "depth t' = depth t" "zeros t' = zeros t" "next_index t' = index + 1"
    by (simp_all add: t'_def)
  have hash: "hash_inputs C [node_or_zero t' l (2 * j), node_or_zero t' l (2 * j + 1)] =
      Inr (node_or_zero t' (l + 1) j)" if l: "l < depth t" for l j
  proof (cases "j = index div 2 ^ (l + 1)")
    case True
    define k where "k = index div 2 ^ l"
    have j: "j = k div 2" unfolding k_def True by (rule div_pow_Suc)
    have "[node_or_zero t' l (2 * j), node_or_zero t' l (2 * j + 1)] = children t l k (vs ! l)"
      using l unfolding nd children_def k_def [symmetric] j
      by (cases "even k") (auto dest: odd_pos)
    moreover have "node_or_zero t' (l + 1) j = vs ! (l + 1)" using l True by (simp add: nd)
    ultimately show ?thesis using vs(4) [OF l] by (simp add: k_def)
  next
    case False
    then have "2 * j \<noteq> index div 2 ^ l" "2 * j + 1 \<noteq> index div 2 ^ l"
      unfolding div_pow_Suc by auto
    with False show ?thesis using ok l by (simp add: nd tree_ok_def)
  qed
  have "tree_ok C t'"
    using ok i hash by (simp add: tree_ok_def fields ns)
  moreover have "leaves t' = leaves t @ [leaf]"
  proof -
    have "map (node_or_zero t' 0) [0..<index] = map (node_or_zero t 0) [0..<index]"
      by (rule map_cong) (auto simp: nd)
    then show ?thesis unfolding leaves_def fields using i vs(2) by (simp add: nd)
  qed
  moreover have "tree_root t' = r"
  proof -
    have "index < 2 ^ depth t" using i capacity_le [of "depth t"] by simp
    then show ?thesis using vs(3) by (simp add: tree_root_def fields nd)
  qed
  ultimately show ?thesis using i by simp
qed

lemma tree_insert_ok:
  assumes "tree_ok C t" and "tree_insert C t leaf = Inr (index, t')"
  shows "tree_ok C t' \<and> index = length (leaves t) \<and> leaves t' = leaves t @ [leaf] \<and> depth t' = depth t"
proof -
  obtain r ups where p: "preview_insert C t leaf = Inr (index, r, ups)"
    and t': "t' = apply_updates (index + 1) ups t"
    using assms(2) by (auto simp: tree_insert_def res_simps)
  show ?thesis using preview_insert_ok [OF assms(1) p] by (auto simp: t')
qed

section \<open>The root and the proofs meet the specification\<close>

lemma spec_node_ok:
  "tree_ok C t \<Longrightarrow> l \<le> depth t \<Longrightarrow> spec_node C (leaves t) l i = Inr (node_or_zero t l i)"
proof (induction l arbitrary: i)
  case 0
  then show ?case
    by (auto simp: leaves_def node_or_zero_def tree_ok_def)
next
  case (Suc l)
  then show ?case by (simp add: tree_ok_def)
qed

lemma fold_proof_loop:
  assumes ok: "tree_ok C t"
  shows "l + n \<le> depth t \<Longrightarrow>
    fold_path C (node_or_zero t l i) (proof_loop t n l i) = Inr (node_or_zero t (l + n) (i div 2 ^ n))"
proof (induction n arbitrary: l i)
  case (Suc n)
  have h: "hash_inputs C [node_or_zero t l (2 * j), node_or_zero t l (2 * j + 1)] =
      Inr (node_or_zero t (l + 1) j)" for j
    using ok Suc.prems by (simp add: tree_ok_def)
  have IH: "fold_path C (node_or_zero t (l + 1) (i div 2)) (proof_loop t n (l + 1) (i div 2)) =
      Inr (node_or_zero t (l + Suc n) (i div 2 ^ Suc n))"
    using Suc.IH [of "l + 1" "i div 2"] Suc.prems by (simp add: div_mult2_eq)
  show ?case
  proof (cases "even i")
    case True
    then have "i mod 2 = 0" by presburger
    with True IH h [of "i div 2"] show ?thesis
      by (simp only: proof_loop.simps fold_path.simps xor_one_nat) simp
  next
    case False
    then have m: "i mod 2 = 1" by presburger
    with False have "2 * (i div 2) = i - 1" "2 * (i div 2) + 1 = i" by presburger+
    with m False IH h [of "i div 2"] show ?thesis
      by (simp only: proof_loop.simps fold_path.simps xor_one_nat) simp
  qed
qed simp

lemma length_proof_loop [simp]: "length (proof_loop t n l i) = n"
  by (induction n arbitrary: l i) simp_all

lemma get_proof_ok:
  assumes "tree_ok C t" and "i < length (leaves t)"
  shows "\<exists>els bits. get_proof t i = Inr (els, bits) \<and> length els = depth t \<and> length bits = depth t
    \<and> fold_path C (leaves t ! i) (zip els bits) = Inr (tree_root t)"
proof -
  have i: "i < next_index t" using assms(2) by simp
  then have "i < 2 ^ depth t"
    using assms(1) capacity_le [of "depth t"] by (auto simp: tree_ok_def)
  then have "fold_path C (leaves t ! i) (proof_loop t (depth t) 0 i) = Inr (tree_root t)"
    using fold_proof_loop [OF assms(1), of 0 "depth t" i] i by (simp add: leaves_def tree_root_def)
  then show ?thesis using i by (simp add: get_proof_def zip_map_fst_snd)
qed

section \<open>The tree as an interface\<close>

text \<open>
  What the registry relies on: previewing an insertion and committing its updates appends
  the leaf and installs the previewed root, and every leaf has a proof that folds to the root.
\<close>

locale append_tree =
  fixes ok :: "'t \<Rightarrow> bool"
    and leaves_of :: "'t \<Rightarrow> 'f list"
    and preview :: "'t \<Rightarrow> 'f \<Rightarrow> 'e + (nat \<times> 'f \<times> 'u)"
    and commit :: "nat \<Rightarrow> 'u \<Rightarrow> 't \<Rightarrow> 't"
    and root_of :: "'t \<Rightarrow> 'f"
    and proof_of :: "'t \<Rightarrow> nat \<Rightarrow> 'e + ('f list \<times> 'b list)"
    and verify :: "'f \<Rightarrow> ('f \<times> 'b) list \<Rightarrow> 'e + 'f"
  assumes preview_commit:
    "ok t \<Longrightarrow> preview t v = Inr (i, r, u) \<Longrightarrow>
       ok (commit (i + 1) u t) \<and> i = length (leaves_of t) \<and>
       leaves_of (commit (i + 1) u t) = leaves_of t @ [v] \<and> root_of (commit (i + 1) u t) = r"
    and proof_verifies:
    "ok t \<Longrightarrow> i < length (leaves_of t) \<Longrightarrow>
       \<exists>els bits. proof_of t i = Inr (els, bits) \<and> verify (leaves_of t ! i) (zip els bits) = Inr (root_of t)"
begin

lemma inserted_proof:
  assumes "ok t" and "preview t v = Inr (i, r, u)"
  shows "\<exists>els bits. proof_of (commit (i + 1) u t) i = Inr (els, bits) \<and> verify v (zip els bits) = Inr r"
  using proof_verifies [of "commit (i + 1) u t" i] preview_commit [OF assms] by (auto simp: nth_append)

lemma older_proof:
  assumes "ok t" and "preview t v = Inr (i, r, u)" and "j < length (leaves_of t)"
  shows "\<exists>els bits. proof_of (commit (i + 1) u t) j = Inr (els, bits) \<and>
    verify (leaves_of t ! j) (zip els bits) = Inr r"
  using proof_verifies [of "commit (i + 1) u t" j] preview_commit [OF assms(1,2)] assms(3)
  by (auto simp: nth_append)

end

interpretation mt: append_tree "tree_ok C" leaves "preview_insert C" apply_updates tree_root get_proof "fold_path C"
  for C :: "'f crypto"
proof (standard, goal_cases)
  case (1 t v i r u)
  then show ?case using preview_insert_ok by fastforce
next
  case (2 t i)
  then show ?case using get_proof_ok by blast
qed

section \<open>Totality\<close>

text \<open>Poseidon with the circom parameters supports two inputs.\<close>

definition poseidon2_total :: "'f crypto \<Rightarrow> bool" where
  "poseidon2_total C \<longleftrightarrow> (\<forall>a b. is_ok (hash_inputs C [a, b]))"

lemma preview_loop_total: "poseidon2_total C \<Longrightarrow> is_ok (preview_loop C t n l i v ups)"
proof (induction n arbitrary: l i v ups)
  case (Suc n)
  have "is_ok (hash_inputs C (children t l i v))"
    using Suc.prems by (simp add: poseidon2_total_def children_def)
  then obtain p where "hash_inputs C (children t l i v) = Inr p" by (auto simp: is_ok_def)
  then show ?case using Suc by (simp add: preview_loop_Suc del: preview_loop.simps)
qed simp

lemma preview_insert_total:
  assumes "poseidon2_total C" and "next_index t < capacity (depth t)"
  shows "\<exists>r ups. preview_insert C t v = Inr (next_index t, r, ups)"
proof -
  obtain r ups where "preview_loop C t (depth t) 0 (next_index t) v [((0, next_index t), v)] = Inr (r, ups)"
    using preview_loop_total [OF assms(1), of t "depth t" 0 "next_index t" v "[((0, next_index t), v)]"]
    by (auto simp: is_ok_def)
  then show ?thesis using assms(2) by (simp add: preview_insert_def)
qed

lemma zero_hashes_total: "poseidon2_total C \<Longrightarrow> is_ok (zero_hashes C n zs)"
proof (induction n arbitrary: zs)
  case (Suc n)
  have "is_ok (hash_inputs C [last zs, last zs])"
    using Suc.prems by (simp add: poseidon2_total_def)
  then obtain h where "hash_inputs C [last zs, last zs] = Inr h"
    by (auto simp: is_ok_def)
  then show ?case using Suc by simp
qed simp

lemma new_tree_total: "poseidon2_total C \<Longrightarrow> \<exists>t. new_tree C d = Inr t"
  using zero_hashes_total [of C d "[fr_of_nat C 0]"] by (auto simp: new_tree_def is_ok_def)

section \<open>Persistence and restoration\<close>

fun insert_all :: "'f crypto \<Rightarrow> 'f list \<Rightarrow> 'f MerkleTree \<Rightarrow> IdentityError + 'f MerkleTree" where
  "insert_all C [] t = Inr t"
| "insert_all C (v # vs) t = and_then (tree_insert C t v) (\<lambda>(_, t'). insert_all C vs t')"

definition leaf_rows :: "'f crypto \<Rightarrow> 'f list \<Rightarrow> leaf_row list" where
  "leaf_rows C L = map (\<lambda>i. \<lparr>lf_index = i, lf_commitment = hex_encode C (fr_to_bytes C (L ! i))\<rparr>) [0..<length L]"

text \<open>
  The database holds the tree: the stored leaves are the tree's leaves in order, the tree is
  what inserting them into an empty tree gives, and the only active root is the tree's root.
\<close>

definition persisted :: "'f crypto \<Rightarrow> 'f MerkleTree \<Rightarrow> db \<Rightarrow> bool" where
  "persisted C t d \<longleftrightarrow>
     tree_ok C t \<and>
     (\<exists>t0. new_tree C (depth t) = Inr t0 \<and> insert_all C (leaves t) t0 = Inr t) \<and>
     vrp_leaves d = leaf_rows C (leaves t) \<and>
     map rt_root_hex (filter rt_active (vrp_roots d)) = (if leaves t = [] then [] else [root_hex C t])"

lemma insert_all_append:
  "insert_all C (vs @ ws) t = and_then (insert_all C vs t) (insert_all C ws)"
proof (induction vs arbitrary: t)
  case (Cons v vs)
  then show ?case by (cases "tree_insert C t v") auto
qed simp

lemma leaf_rows_snoc:
  "leaf_rows C (L @ [v]) = leaf_rows C L @ [\<lparr>lf_index = length L, lf_commitment = hex_encode C (fr_to_bytes C v)\<rparr>]"
  by (auto simp: leaf_rows_def nth_append)

lemma persist_leaf_and_root_Inr:
  "persist_leaf_and_root C now flt b d index leaf rt = Inr d' \<longleftrightarrow>
     \<not> flt b \<and> \<not> flt (b + 1) \<and> \<not> flt (b + 2) \<and> index \<notin> lf_index ` set (vrp_leaves d) \<and>
     d' = d\<lparr>vrp_leaves := vrp_leaves d @ [\<lparr>lf_index = index, lf_commitment = hex_encode C (fr_to_bytes C leaf)\<rparr>],
            vrp_roots := update_where rt_active (\<lambda>r. r\<lparr>rt_active := False\<rparr>) (vrp_roots d)
              @ [\<lparr>rt_root_hex = hex_encode C (fr_to_bytes C rt), rt_active = True, rt_created = now\<rparr>]\<rparr>"
  by (simp add: persist_leaf_and_root_def Let_def and_then_Inr map_err_Inr guard_fault_Inr
      exists_where_iff image_iff) (metis)

lemma filter_deactivated: "filter rt_active (update_where rt_active (\<lambda>r. r\<lparr>rt_active := False\<rparr>) rs) = []"
  by (auto simp: filter_empty_conv update_where_def)

text \<open>The step shared by every operation that commits a previewed leaf.\<close>

lemma persisted_step:
  assumes P: "persisted C t d" and p: "preview_insert C t leaf = Inr (index, r, ups)"
    and q: "persist_leaf_and_root C now flt b d index leaf r = Inr d'"
  shows "persisted C (apply_updates (index + 1) ups t) d'"
proof -
  let ?t = "apply_updates (index + 1) ups t"
  have ok: "tree_ok C t" using P by (simp add: persisted_def)
  have ins: "tree_ok C ?t" "index = next_index t" "leaves ?t = leaves t @ [leaf]" "tree_root ?t = r"
    using preview_insert_ok [OF ok p] by auto
  obtain t0 where t0: "new_tree C (depth t) = Inr t0" "insert_all C (leaves t) t0 = Inr t"
    using P by (auto simp: persisted_def)
  have "tree_insert C t leaf = Inr (index, ?t)" using p by (simp add: tree_insert_def)
  then have "insert_all C (leaves ?t) t0 = Inr ?t"
    unfolding ins(3) insert_all_append t0(2) by simp
  moreover have "vrp_leaves d' = leaf_rows C (leaves t @ [leaf])"
    "map rt_root_hex (filter rt_active (vrp_roots d')) = [hex_encode C (fr_to_bytes C r)]"
    using P q ins(2) by (simp_all add: persisted_def persist_leaf_and_root_Inr leaf_rows_snoc filter_deactivated)
  ultimately show ?thesis
    using t0(1) ins(1) unfolding persisted_def root_hex_def ins(3,4) by simp
qed

lemma persist_total:
  assumes "persisted C t d"
  shows "\<exists>d'. persist_leaf_and_root C now no_faults b d (next_index t) leaf r = Inr d'"
  using assms by (auto simp: persist_leaf_and_root_Inr persisted_def leaf_rows_def no_faults_def)

lemma insert_and_persist_cases:
  "insert_and_persist C now flt t d leaf = (res, t', d') \<Longrightarrow>
   (\<exists>e. res = Inl e \<and> t' = t \<and> d' = d) \<or>
   (\<exists>index r ups. res = Inr index \<and> preview_insert C t leaf = Inr (index, r, ups) \<and>
      t' = apply_updates (index + 1) ups t \<and> persist_leaf_and_root C now flt 1 d index leaf r = Inr d')"
  unfolding insert_and_persist_def
  by (cases "preview_insert C t leaf") (auto simp: res_simps split: sum.splits)

lemma insert_and_persist_persisted:
  "persisted C t d \<Longrightarrow> persisted C (fst (snd (insert_and_persist C now flt t d leaf)))
     (snd (snd (insert_and_persist C now flt t d leaf)))"
  by (cases "insert_and_persist C now flt t d leaf")
     (auto dest!: insert_and_persist_cases intro: persisted_step)

text \<open>Any sequence of persisted insertions, with any faults, keeps tree and database together.\<close>

definition persist_step ::
  "'f crypto \<Rightarrow> time \<times> faults \<times> 'f \<Rightarrow> 'f MerkleTree \<times> db \<Rightarrow> 'f MerkleTree \<times> db" where
  "persist_step C op s =
     (case op of (now, flt, leaf) \<Rightarrow> snd (insert_and_persist C now flt (fst s) (snd s) leaf))"

lemma insert_and_persist_depth [simp]:
  "depth (fst (snd (insert_and_persist C now flt t d leaf))) = depth t"
  by (cases "insert_and_persist C now flt t d leaf") (auto dest!: insert_and_persist_cases)

interpretation persist_machine: invariant_machine "persist_step C"
  "\<lambda>s. persisted C (fst s) (snd s) \<and> depth (fst s) = n" for C :: "'f crypto" and n
  by standard (auto simp: persist_step_def insert_and_persist_persisted split: prod.splits)

lemma persisted_new:
  "new_tree C n = Inr t \<Longrightarrow> vrp_leaves d = [] \<Longrightarrow> vrp_roots d = [] \<Longrightarrow> persisted C t d"
  using new_tree_ok [of C n t] by (auto simp: persisted_def leaf_rows_def)

lemma restore_loop_insert_all:
  assumes "hex_laws C" and "field_laws C"
  shows "restore_loop C (map (\<lambda>v. hex_encode C (fr_to_bytes C v)) vs) t = insert_all C vs t"
  using assms
proof (induction vs arbitrary: t)
  case (Cons v vs)
  have h: "hex_decode C (hex_encode C (fr_to_bytes C v)) = Some (fr_to_bytes C v)"
    "fr_of_bytes C (fr_to_bytes C v) = v"
    using assms by (simp_all add: hex_laws_def field_laws_def)
  show ?case using Cons by (cases "tree_insert C t v") (auto simp: h)
qed simp

lemma order_leaf_rows: "order_by lf_index (leaf_rows C L) = leaf_rows C L"
proof -
  have "map lf_index (leaf_rows C L) = [0..<length L]"
    by (simp add: leaf_rows_def comp_def)
  then show ?thesis unfolding order_by_def by (intro sort_key_id_if_sorted) simp
qed

lemma leaf_rows_commitments:
  "map lf_commitment (leaf_rows C L) = map (\<lambda>v. hex_encode C (fr_to_bytes C v)) L"
  by (rule nth_equalityI) (simp_all add: leaf_rows_def)

lemma restore_persisted:
  assumes "hex_laws C" and "field_laws C" and P: "persisted C t d"
  shows "restore C d (depth t) = Inr t"
proof -
  obtain t0 where t0: "new_tree C (depth t) = Inr t0" "insert_all C (leaves t) t0 = Inr t"
    using P by (auto simp: persisted_def)
  let ?act = "filter rt_active (vrp_roots d)"
  have act: "map rt_root_hex ?act = (if leaves t = [] then [] else [root_hex C t])"
    using P by (simp add: persisted_def)
  have "order_by_desc rt_created ?act = ?act"
    using act by (cases ?act) (auto simp: order_by_desc_def split: if_splits)
  then show ?thesis
    using act t0 P restore_loop_insert_all [OF assms(1,2), of "leaves t" t0]
    by (cases ?act) (auto simp: restore_def persisted_def order_leaf_rows leaf_rows_commitments split: if_splits)
qed

section \<open>Properties\<close>

lemma demo_poseidon2_total: "poseidon2_total demo_crypto"
  by (simp add: poseidon2_total_def hash_inputs_def demo_crypto_def)

text \<open>
  C3. The sparse tree refines the recursive Merkle specification: in a well-formed tree the
  root is the specified root of its leaves, and a successful insertion returns the next
  index, appends exactly that leaf, keeps the tree well formed, and its root is the specified
  root of the extended list of leaves.
\<close>

theorem merkle_insert_refines_spec:
  assumes "tree_ok C t"
  shows "spec_node C (leaves t) (depth t) 0 = Inr (tree_root t)
    \<and> (\<forall>i t'. tree_insert C t v = Inr (i, t') \<longrightarrow>
         tree_ok C t' \<and> i = length (leaves t) \<and> leaves t' = leaves t @ [v]
         \<and> spec_node C (leaves t @ [v]) (depth t) 0 = Inr (tree_root t'))"
proof (intro conjI allI impI, goal_cases)
  case 1
  show ?case using spec_node_ok [OF assms, of "depth t" 0] by (simp add: tree_root_def)
next
  case (2 i t') then show ?case using tree_insert_ok [OF assms] by blast
next
  case (3 i t') then show ?case using tree_insert_ok [OF assms] by blast
next
  case (4 i t') then show ?case using tree_insert_ok [OF assms] by blast
next
  case (5 i t')
  then have t': "tree_ok C t'" "leaves t' = leaves t @ [v]" "depth t' = depth t"
    using tree_insert_ok [OF assms] by auto
  show ?case using spec_node_ok [OF t'(1), of "depth t'" 0] t'(2,3) by (simp add: tree_root_def)
qed

theorem merkle_insert_refines_spec_witness:
  "\<exists>t. new_tree demo_crypto 3 = Inr t \<and> tree_ok demo_crypto t
     \<and> spec_node demo_crypto (leaves t) 3 0 = Inr (tree_root t)"
proof -
  obtain t where t: "new_tree demo_crypto 3 = Inr t"
    using new_tree_total [OF demo_poseidon2_total] by blast
  have ok: "tree_ok demo_crypto t" "depth t = 3" using new_tree_ok [OF t] by auto
  show ?thesis using merkle_insert_refines_spec [OF ok(1)] t ok by auto
qed

text \<open>
  C40. Insertion is total up to capacity: when Poseidon accepts two inputs, inserting into a
  well-formed tree succeeds exactly while fewer leaves than the capacity are stored and
  returns \<open>TreeFull\<close> otherwise, and the capacity never exceeds \<open>2^depth\<close> nor \<open>usize::MAX\<close>.
\<close>

theorem merkle_insert_total:
  assumes "tree_ok C t" and "poseidon2_total C"
  shows "(if length (leaves t) < capacity (depth t)
          then \<exists>t'. tree_insert C t v = Inr (length (leaves t), t')
          else tree_insert C t v = Inl TreeFull)
    \<and> capacity (depth t) \<le> 2 ^ depth t \<and> capacity (depth t) \<le> 2 ^ 64 - 1"
proof -
  have "(2 :: nat) ^ n \<le> 2 ^ 64 - 1" if "n < 64" for n
    using power_increasing [of n 63 "2 :: nat"] that by simp
  then have "capacity (depth t) \<le> 2 ^ 64 - 1" by (simp add: capacity_def)
  moreover have "\<exists>t'. tree_insert C t v = Inr (next_index t, t')" if "next_index t < capacity (depth t)"
    using preview_insert_total [OF assms(2) that, of v] by (auto simp: tree_insert_def)
  ultimately show ?thesis
    using capacity_le by (auto simp: tree_insert_def preview_insert_def)
qed

theorem merkle_insert_total_witness:
  "\<exists>t t'. new_tree demo_crypto 0 = Inr t \<and> tree_insert demo_crypto t 9 = Inr (0, t')
     \<and> tree_insert demo_crypto t' 10 = Inl TreeFull"
proof -
  obtain t where t: "new_tree demo_crypto 0 = Inr t"
    using new_tree_total [OF demo_poseidon2_total] by blast
  have ok: "tree_ok demo_crypto t" "depth t = 0" "leaves t = []" using new_tree_ok [OF t] by auto
  have cap: "capacity 0 = 1" by (simp add: capacity_def)
  obtain t' where t': "tree_insert demo_crypto t 9 = Inr (0, t')"
    using merkle_insert_total [OF ok(1) demo_poseidon2_total, of 9] ok(2,3) cap by auto
  have ok': "tree_ok demo_crypto t'" "depth t' = 0" "leaves t' = [9]"
    using tree_insert_ok [OF ok(1) t'] ok(2,3) by auto
  have "tree_insert demo_crypto t' 10 = Inl TreeFull"
    using merkle_insert_total [OF ok'(1) demo_poseidon2_total, of 10] ok'(2,3) cap by simp
  with t t' show ?thesis by blast
qed

text \<open>
  Membership proofs verify: for every stored leaf \<open>get_proof\<close> returns one sibling and one
  direction bit per level, and folding them from that leaf gives the current root; for every
  other index it returns \<open>InvalidIndex\<close>.
\<close>

theorem merkle_proofs_verify:
  assumes "tree_ok C t"
  shows "if i < length (leaves t)
         then \<exists>els bits. get_proof t i = Inr (els, bits) \<and> length els = depth t \<and> length bits = depth t
           \<and> fold_path C (leaves t ! i) (zip els bits) = Inr (tree_root t)
         else get_proof t i = Inl (InvalidIndex i)"
  using get_proof_ok [OF assms, of i] by (auto simp: get_proof_def)

theorem merkle_proofs_verify_witness:
  "\<exists>t t' els bits. new_tree demo_crypto 3 = Inr t \<and> tree_insert demo_crypto t 123 = Inr (0, t')
     \<and> get_proof t' 0 = Inr (els, bits) \<and> fold_path demo_crypto 123 (zip els bits) = Inr (tree_root t')
     \<and> get_proof t' 1 = Inl (InvalidIndex 1)"
proof -
  obtain t where t: "new_tree demo_crypto 3 = Inr t"
    using new_tree_total [OF demo_poseidon2_total] by blast
  have ok: "tree_ok demo_crypto t" "depth t = 3" "leaves t = []" using new_tree_ok [OF t] by auto
  have "next_index t < capacity (depth t)"
    using ok(2,3) leaves_length [of t] by (simp add: capacity_def)
  then obtain t' where t': "tree_insert demo_crypto t 123 = Inr (0, t')"
    using preview_insert_total [OF demo_poseidon2_total, of t 123] ok(3) leaves_length [of t]
    by (auto simp: tree_insert_def)
  have ok': "tree_ok demo_crypto t'" "leaves t' = [123]"
    using tree_insert_ok [OF ok(1) t'] ok(3) by auto
  show ?thesis
    using merkle_proofs_verify [OF ok'(1), of 0] merkle_proofs_verify [OF ok'(1), of 1] ok'(2) t t' by auto
qed

text \<open>
  Inserting with persistence is atomic for every fault schedule: an error leaves both the
  in-memory tree and the database exactly as they were, and success moves both together, so
  that the database still holds the tree (leaves in order, one active root, the tree's own).
\<close>

theorem insert_and_persist_atomic:
  assumes "persisted C t d"
  shows "case insert_and_persist C now flt t d leaf of
      (Inl e, t', d') \<Rightarrow> t' = t \<and> d' = d
    | (Inr i, t', d') \<Rightarrow> persisted C t' d' \<and> i = length (leaves t) \<and> leaves t' = leaves t @ [leaf]
        \<and> map rt_root_hex (filter rt_active (vrp_roots d')) = [root_hex C t']"
proof (cases "insert_and_persist C now flt t d leaf")
  case (fields res t' d')
  show ?thesis
  proof (cases res)
    case (Inl e)
    with fields show ?thesis by (auto dest: insert_and_persist_cases)
  next
    case (Inr i)
    obtain r ups where p: "preview_insert C t leaf = Inr (i, r, ups)" "t' = apply_updates (i + 1) ups t"
      using insert_and_persist_cases [OF fields] Inr by auto
    have ok: "tree_ok C t" using assms by (simp add: persisted_def)
    have "persisted C t' d'" using insert_and_persist_persisted [OF assms, of now flt leaf] fields by simp
    then show ?thesis
      using preview_insert_ok [OF ok p(1)] p(2) fields Inr by (auto simp: persisted_def)
  qed
qed

theorem insert_and_persist_atomic_witness:
  "\<exists>t. new_tree demo_crypto 3 = Inr t \<and>
     insert_and_persist demo_crypto 5 (\<lambda>n. n = 4) t (migrated_db 0) 7 =
       (Inl (DatabaseError (SqliteFailure EngineFailure)), t, migrated_db 0)"
proof -
  obtain t where t: "new_tree demo_crypto 3 = Inr t"
    using new_tree_total [OF demo_poseidon2_total] by blast
  have ok: "depth t = 3" "leaves t = []" using new_tree_ok [OF t] by auto
  have p: "persisted demo_crypto t (migrated_db 0)"
    using persisted_new [OF t] by (simp add: migrated_db_def)
  have "next_index t < capacity (depth t)"
    using ok leaves_length [of t] by (simp add: capacity_def)
  then obtain r ups where "preview_insert demo_crypto t 7 = Inr (next_index t, r, ups)"
    using preview_insert_total [OF demo_poseidon2_total] by blast
  then have "fst (insert_and_persist demo_crypto 5 (\<lambda>n. n = 4) t (migrated_db 0) 7) =
      Inl (DatabaseError (SqliteFailure EngineFailure))"
    by (simp add: insert_and_persist_def persist_leaf_and_root_def guard_fault_def migrated_db_def
        Let_def exists_where_def)
  with t insert_and_persist_atomic [OF p, where now = 5 and flt = "\<lambda>n. n = 4" and leaf = 7] show ?thesis
    by (auto split: prod.splits)
qed

text \<open>
  C26. A restart loses nothing: after any sequence of persisted insertions into a new tree over
  empty leaf and root tables, with any faults on the way, \<open>restore\<close> rebuilds exactly the
  in-memory tree from the database and its root check passes.
\<close>

theorem restore_after_inserts:
  assumes "hex_laws C" and "field_laws C"
    and "new_tree C n = Inr t0" and "vrp_leaves d0 = []" and "vrp_roots d0 = []"
    and "fold (persist_step C) ops (t0, d0) = (t, d)"
  shows "restore C d n = Inr t"
proof -
  have "depth t0 = n" using new_tree_ok [OF assms(3)] by simp
  then have "persisted C t d \<and> depth t = n"
    using persist_machine.run_inv [of C "(t0, d0)" n ops] persisted_new [OF assms(3-5)] assms(6) by simp
  then show ?thesis using restore_persisted [OF assms(1,2), of t d] by auto
qed

theorem restore_after_inserts_witness:
  "\<exists>t0 t d. new_tree demo_crypto 3 = Inr t0 \<and>
     fold (persist_step demo_crypto) [(1, no_faults, 7), (2, \<lambda>n. n = 2, 8), (3, no_faults, 9)]
       (t0, migrated_db 0) = (t, d) \<and> restore demo_crypto d 3 = Inr t"
proof -
  obtain t0 where t0: "new_tree demo_crypto 3 = Inr t0"
    using new_tree_total [OF demo_poseidon2_total] by blast
  obtain t d where r: "fold (persist_step demo_crypto)
      [(1, no_faults, 7), (2, \<lambda>n. n = 2, 8), (3, no_faults, 9)] (t0, migrated_db 0) = (t, d)"
    by (metis surj_pair)
  have "vrp_leaves (migrated_db 0) = []" "vrp_roots (migrated_db 0) = []"
    by (simp_all add: migrated_db_def)
  from restore_after_inserts [OF demo_hex_laws demo_field_laws t0 this r] t0 r show ?thesis by blast
qed

end
