(* ===== verification/Annex_Registry.thy ===== *)
theory Annex_Registry
  imports Annex_Merkle
begin

text \<open>
  Crate \<open>annex-identity\<close>, files \<open>registry.rs\<close> and \<open>nullifier.rs\<close>: the registration of an
  identity commitment (database transaction and in-memory tree together), the lookup of
  Merkle paths, the lists of topics and roles, and the nullifiers that prevent a second use
  of an identity under one topic.

  The fault schedule of \<open>register_identity\<close> numbers its database calls: begin (0), the
  insertion into \<open>vrp_identities\<close> (1), the three statements of \<open>persist_leaf_and_root\<close>
  (2 to 4), commit (5).
\<close>

section \<open>Registration (registry.rs)\<close>

record RegistrationResult =
  identity_id :: int
  leaf_index :: nat
  rr_root_hex :: string
  path_elements :: "string list"
  path_indices :: "u8 list"

definition next_rowid :: "vrp_identity_row list \<Rightarrow> int" where
  "next_rowid rs = (if rs = [] then 1 else Max (set (map vi_rowid rs)) + 1)"

text \<open>
  \<open>INSERT INTO vrp_identities\<close>: the commitment is the primary key and the role code a
  foreign key. The result is the new rowid.
\<close>

definition insert_vrp_identity ::
  "db \<Rightarrow> string \<Rightarrow> u8 \<Rightarrow> int \<Rightarrow> rusqlite_error + (int \<times> db)" where
  "insert_vrp_identity d c role node =
     (if exists_where (\<lambda>r. vi_commitment r = c) (vrp_identities d)
      then Inl (SqliteFailure ConstraintPrimaryKey)
      else if \<not> exists_where (\<lambda>r. ro_code r = role) (vrp_roles d)
      then Inl (SqliteFailure ConstraintForeignKey)
      else let rid = next_rowid (vrp_identities d)
           in Inr (rid, d\<lparr>vrp_identities := vrp_identities d @
                [\<lparr>vi_rowid = rid, vi_commitment = c, vi_role = role, vi_node = node\<rparr>]\<rparr>))"

fun register_error :: "string \<Rightarrow> rusqlite_error \<Rightarrow> IdentityError" where
  "register_error c (SqliteFailure code) =
     (if constraint_violation code
      then DuplicateCommitment (''commitment '' @ [CHR 0x27] @ c @ [CHR 0x27] @ '' already registered'')
      else DatabaseError (SqliteFailure code))"
| "register_error c e = DatabaseError e"

definition register_identity ::
  "'f crypto \<Rightarrow> time \<Rightarrow> faults \<Rightarrow> 'f MerkleTree \<Rightarrow> db \<Rightarrow> string \<Rightarrow> RoleCode \<Rightarrow> int
     \<Rightarrow> (IdentityError + RegistrationResult) \<times> 'f MerkleTree \<times> db" where
  "register_identity C now flt t d commitment_hex0 role node =
     (if length commitment_hex0 \<noteq> 64 \<or> \<not> list_all is_ascii_hexdigit commitment_hex0
      then (Inl InvalidCommitmentFormat, t, d)
      else
        let commitment_hex = to_ascii_lowercase commitment_hex0 in
        case and_then (ok_or (hex_decode C commitment_hex) InvalidHex) (\<lambda>leaf_bytes.
               let leaf = fr_of_bytes C leaf_bytes in
               and_then (preview_insert C t leaf) (\<lambda>(index, new_root, ups).
                 and_then (map_err DatabaseError (guard_fault flt 0)) (\<lambda>_.
                   and_then (map_err (register_error commitment_hex)
                              (and_then (guard_fault flt 1)
                                 (\<lambda>_. insert_vrp_identity d commitment_hex (as_u8 role) node)))
                     (\<lambda>(rid, d1).
                       and_then (persist_leaf_and_root C now flt 2 d1 index leaf new_root) (\<lambda>d2.
                         and_then (map_err DatabaseError (guard_fault flt 5)) (\<lambda>_.
                           Inr (rid, index, new_root, ups, d2)))))))
        of Inl e \<Rightarrow> (Inl e, t, d)
         | Inr (rid, index, new_root, ups, d2) \<Rightarrow>
             let t' = apply_updates (index + 1) ups t
             in case get_proof t' index of
                  Inl e \<Rightarrow> (Inl e, t', d2)
                | Inr (els, bits) \<Rightarrow>
                    (Inr \<lparr>identity_id = rid, leaf_index = index,
                       rr_root_hex = hex_encode C (fr_to_bytes C new_root),
                       path_elements = map (\<lambda>fr. hex_encode C (fr_to_bytes C fr)) els,
                       path_indices = bits\<rparr>, t', d2))"

definition get_path_for_commitment ::
  "'f crypto \<Rightarrow> 'f MerkleTree \<Rightarrow> db \<Rightarrow> string
     \<Rightarrow> IdentityError + (nat \<times> string \<times> string list \<times> u8 list)" where
  "get_path_for_commitment C t d commitment_hex =
     (case first_where (\<lambda>r. lf_commitment r = commitment_hex) (vrp_leaves d) of
        None \<Rightarrow> Inl (CommitmentNotFound commitment_hex)
      | Some row \<Rightarrow>
          and_then (get_proof t (lf_index row)) (\<lambda>(els, bits).
            Inr (lf_index row, hex_encode C (fr_to_bytes C (tree_root t)),
                 map (\<lambda>fr. hex_encode C (fr_to_bytes C fr)) els, bits)))"

record VrpTopic =
  vt_topic :: string
  vt_description :: string

record VrpRoleEntry =
  vr_role_code :: u8
  vr_label :: string

definition get_all_topics :: "db \<Rightarrow> VrpTopic list" where
  "get_all_topics d =
     map (\<lambda>r. \<lparr>vt_topic = tp_topic r, vt_description = tp_description r\<rparr>) (order_by tp_created (vrp_topics d))"

definition get_all_roles :: "db \<Rightarrow> VrpRoleEntry list" where
  "get_all_roles d =
     map (\<lambda>r. \<lparr>vr_role_code = ro_code r, vr_label = ro_label r\<rparr>) (order_by ro_code (vrp_roles d))"

section \<open>Nullifiers (nullifier.rs)\<close>

definition check_nullifier_exists :: "db \<Rightarrow> string \<Rightarrow> string \<Rightarrow> bool" where
  "check_nullifier_exists d topic nullifier_hex =
     (0 < count_where (\<lambda>r. nf_topic r = topic \<and> nf_nullifier r = nullifier_hex) (zk_nullifiers d))"

definition insert_nullifier_sql ::
  "db \<Rightarrow> nullifier_row \<Rightarrow> rusqlite_error + db" where
  "insert_nullifier_sql d row =
     (if exists_where (\<lambda>r. nf_topic r = nf_topic row \<and> nf_nullifier r = nf_nullifier row) (zk_nullifiers d)
      then Inl (SqliteFailure ConstraintUnique)
      else Inr (d\<lparr>zk_nullifiers := zk_nullifiers d @ [row]\<rparr>))"

fun nullifier_error :: "string \<Rightarrow> rusqlite_error \<Rightarrow> IdentityError" where
  "nullifier_error topic (SqliteFailure code) =
     (if constraint_violation code then DuplicateNullifier topic else DatabaseError (SqliteFailure code))"
| "nullifier_error topic e = DatabaseError e"

definition insert_nullifier ::
  "db \<Rightarrow> string \<Rightarrow> string \<Rightarrow> string option \<Rightarrow> string option \<Rightarrow> IdentityError + db" where
  "insert_nullifier d topic nullifier_hex pseudonym_id commitment_hex =
     map_err (nullifier_error topic)
       (insert_nullifier_sql d \<lparr>nf_topic = topic, nf_nullifier = nullifier_hex,
          nf_pseudonym = pseudonym_id, nf_commitment = commitment_hex\<rparr>)"

section \<open>Lowercase hex\<close>

lemma lower_hexdigit: "is_ascii_hexdigit c \<Longrightarrow> is_lower_hex (ascii_lower_char c)"
  by (auto simp: is_ascii_hexdigit_def is_lower_hex_def is_ascii_digit_def less_eq_char_def
      ascii_lower_char_def)

lemma lower_idem_char: "is_lower_hex c \<Longrightarrow> ascii_lower_char c = c"
  by (auto simp: is_lower_hex_def is_ascii_digit_def less_eq_char_def ascii_lower_char_def)

lemma to_ascii_lowercase_hex:
  "length s = 64 \<Longrightarrow> list_all is_ascii_hexdigit s \<Longrightarrow> is_lower_hex_64 (to_ascii_lowercase s)"
  by (auto simp: is_lower_hex_64_def to_ascii_lowercase_def list_all_iff lower_hexdigit)

lemma to_ascii_lowercase_id: "is_lower_hex_64 s \<Longrightarrow> to_ascii_lowercase s = s"
  by (auto simp: to_ascii_lowercase_def is_lower_hex_64_def list_all_iff lower_idem_char intro: map_idI)

lemma lower_hex_is_hexdigit: "is_lower_hex_64 s \<Longrightarrow> length s = 64 \<and> list_all is_ascii_hexdigit s"
  by (auto simp: is_lower_hex_64_def is_ascii_hexdigit_def list_all_iff)

lemma decode_lower_hex:
  assumes "hex_laws C" and "is_lower_hex_64 s"
  obtains bs where "hex_decode C s = Some bs"
proof -
  have "even (length s)" "list_all is_ascii_hexdigit s" using lower_hex_is_hexdigit [OF assms(2)] by auto
  with assms(1) that show thesis by (auto simp: hex_laws_def)
qed

section \<open>Registration keeps database, tree and identities together\<close>

definition commitment_leaf :: "'f crypto \<Rightarrow> string \<Rightarrow> 'f" where
  "commitment_leaf C c = fr_of_bytes C (case hex_decode C c of Some bs \<Rightarrow> bs | None \<Rightarrow> [])"

definition registry_ok :: "'f crypto \<Rightarrow> 'f MerkleTree \<Rightarrow> db \<Rightarrow> bool" where
  "registry_ok C t d \<longleftrightarrow>
     persisted C t d \<and>
     distinct (map vi_commitment (vrp_identities d)) \<and>
     (\<forall>r \<in> set (vrp_identities d). is_lower_hex_64 (vi_commitment r)) \<and>
     map (\<lambda>r. commitment_leaf C (vi_commitment r)) (vrp_identities d) = leaves t"

lemma persisted_cong:
  "vrp_leaves d = vrp_leaves d' \<Longrightarrow> vrp_roots d = vrp_roots d' \<Longrightarrow> persisted C t d = persisted C t d'"
  by (simp add: persisted_def)

lemma insert_vrp_identity_Inr:
  "insert_vrp_identity d c role node = Inr (rid, d') \<longleftrightarrow>
     c \<notin> vi_commitment ` set (vrp_identities d) \<and> role \<in> ro_code ` set (vrp_roles d) \<and>
     rid = next_rowid (vrp_identities d) \<and>
     d' = d\<lparr>vrp_identities := vrp_identities d @
       [\<lparr>vi_rowid = rid, vi_commitment = c, vi_role = role, vi_node = node\<rparr>]\<rparr>"
  by (simp add: insert_vrp_identity_def Let_def exists_where_iff image_iff) metis

text \<open>A successful registration, taken apart.\<close>

lemma register_identity_success:
  assumes "register_identity C now flt t d c0 role node = (Inr res, t', d')"
  defines "c \<equiv> to_ascii_lowercase c0"
  shows "length c0 = 64 \<and> list_all is_ascii_hexdigit c0 \<and>
    (\<exists>bs r ups d1. hex_decode C c = Some bs \<and>
       preview_insert C t (fr_of_bytes C bs) = Inr (leaf_index res, r, ups) \<and>
       insert_vrp_identity d c (as_u8 role) node = Inr (identity_id res, d1) \<and>
       persist_leaf_and_root C now flt 2 d1 (leaf_index res) (fr_of_bytes C bs) r = Inr d' \<and>
       t' = apply_updates (leaf_index res + 1) ups t \<and>
       rr_root_hex res = hex_encode C (fr_to_bytes C r) \<and>
       (\<exists>els. get_proof t' (leaf_index res) = Inr (els, path_indices res) \<and>
          path_elements res = map (\<lambda>fr. hex_encode C (fr_to_bytes C fr)) els))"
  using assms(1)
  by (auto simp: register_identity_def Let_def c_def [symmetric] and_then_Inr map_err_Inr ok_or_Inr
      guard_fault_Inr split: if_splits sum.splits)

lemma register_identity_failure:
  assumes "tree_ok C t" and "register_identity C now flt t d c0 role node = (Inl e, t', d')"
  shows "t' = t \<and> d' = d"
proof -
  have nofail: "get_proof (apply_updates (index + 1) ups t) index \<noteq> Inl e'"
    if "preview_insert C t v = Inr (index, r, ups)" for index r ups v e'
    using mt.inserted_proof [OF assms(1) that] by auto
  show ?thesis
    using assms(2) nofail
    by (fastforce simp: register_identity_def Let_def and_then_Inr map_err_Inr ok_or_Inr
      guard_fault_Inr split: if_splits sum.splits)
qed

lemma register_identity_ok:
  assumes R: "registry_ok C t d" and "register_identity C now flt t d c0 role node = (Inr res, t', d')"
  defines "c \<equiv> to_ascii_lowercase c0"
  shows "registry_ok C t' d' \<and> leaf_index res = length (leaves t)
    \<and> leaves t' = leaves t @ [commitment_leaf C c] \<and> rr_root_hex res = root_hex C t'
    \<and> vrp_identities d' = vrp_identities d @
        [\<lparr>vi_rowid = identity_id res, vi_commitment = c, vi_role = as_u8 role, vi_node = node\<rparr>]
    \<and> vrp_leaves d' = vrp_leaves d @
        [\<lparr>lf_index = leaf_index res, lf_commitment = hex_encode C (fr_to_bytes C (commitment_leaf C c))\<rparr>]"
proof -
  obtain bs r ups d1 where c0: "length c0 = 64" "list_all is_ascii_hexdigit c0"
    and bs: "hex_decode C c = Some bs"
    and p: "preview_insert C t (fr_of_bytes C bs) = Inr (leaf_index res, r, ups)"
    and i: "insert_vrp_identity d c (as_u8 role) node = Inr (identity_id res, d1)"
    and q: "persist_leaf_and_root C now flt 2 d1 (leaf_index res) (fr_of_bytes C bs) r = Inr d'"
    and t': "t' = apply_updates (leaf_index res + 1) ups t"
    and rh: "rr_root_hex res = hex_encode C (fr_to_bytes C r)"
    using register_identity_success [OF assms(2)] unfolding c_def [symmetric] by blast
  have leaf: "commitment_leaf C c = fr_of_bytes C bs" by (simp add: commitment_leaf_def bs)
  have ok: "tree_ok C t" using R by (simp add: registry_ok_def persisted_def)
  have d1: "vrp_leaves d1 = vrp_leaves d" "vrp_roots d1 = vrp_roots d"
    "c \<notin> vi_commitment ` set (vrp_identities d)"
    "vrp_identities d1 = vrp_identities d @
       [\<lparr>vi_rowid = identity_id res, vi_commitment = c, vi_role = as_u8 role, vi_node = node\<rparr>]"
    using i by (auto simp: insert_vrp_identity_Inr)
  have "persisted C t d1"
    using R persisted_cong [OF d1(1,2), of C t] by (simp add: registry_ok_def)
  then have P: "persisted C t' d'" unfolding t' using persisted_step [OF _ p q] by blast
  have d': "vrp_identities d' = vrp_identities d1"
    "vrp_leaves d' = vrp_leaves d1 @
       [\<lparr>lf_index = leaf_index res, lf_commitment = hex_encode C (fr_to_bytes C (fr_of_bytes C bs))\<rparr>]"
    using q by (auto simp: persist_leaf_and_root_Inr)
  have ins: "leaf_index res = next_index t" "leaves t' = leaves t @ [fr_of_bytes C bs]" "tree_root t' = r"
    using preview_insert_ok [OF ok p] unfolding t' by auto
  have "is_lower_hex_64 c" unfolding c_def using c0 by (rule to_ascii_lowercase_hex)
  then have "registry_ok C t' d'"
    using R P d1(3,4) d'(1) ins(2) leaf by (simp add: registry_ok_def)
  then show ?thesis using ins d' d1 leaf rh by (simp add: root_hex_def)
qed

lemma register_identity_frame:
  assumes "register_identity C now flt t d c0 role node = (Inr res, t', d')"
  shows "vrp_roles d' = vrp_roles d \<and> depth t' = depth t"
proof -
  obtain d1 leaf r ups where "insert_vrp_identity d (to_ascii_lowercase c0) (as_u8 role) node = Inr (identity_id res, d1)"
    "persist_leaf_and_root C now flt 2 d1 (leaf_index res) leaf r = Inr d'"
    "t' = apply_updates (leaf_index res + 1) ups t"
    using register_identity_success [OF assms] by blast
  then show ?thesis by (simp add: insert_vrp_identity_Inr persist_leaf_and_root_Inr)
qed

text \<open>A fault in any of the six database calls makes registration fail.\<close>

lemma register_identity_fault:
  assumes "flt n" and "n \<le> 5"
  shows "\<exists>e t' d'. register_identity C now flt t d c0 role node = (Inl e, t', d')"
proof (cases "register_identity C now flt t d c0 role node")
  case (fields a t' d')
  have "n \<in> {0, 1, 2, 3, 4, 5}" using assms(2) by auto
  then have "a \<noteq> Inr res" for res
    using fields assms(1)
    by (auto simp: register_identity_def Let_def and_then_Inr map_err_Inr guard_fault_Inr
        persist_leaf_and_root_Inr numeral_2_eq_2 numeral_3_eq_3 eval_nat_numeral split: if_splits sum.splits)
  then show ?thesis using fields by (cases a) auto
qed

lemma register_identity_succeeds:
  assumes "hex_laws C" and "poseidon2_total C" and R: "registry_ok C t d"
    and "as_u8 role \<in> ro_code ` set (vrp_roles d)"
    and "length (leaves t) < capacity (depth t)"
    and c0: "length c0 = 64" "list_all is_ascii_hexdigit c0"
    and new: "to_ascii_lowercase c0 \<notin> vi_commitment ` set (vrp_identities d)"
  obtains res t' d' where "register_identity C now no_faults t d c0 role node = (Inr res, t', d')"
proof -
  let ?c = "to_ascii_lowercase c0"
  have lower: "is_lower_hex_64 ?c" using c0 by (rule to_ascii_lowercase_hex)
  obtain bs where bs: "hex_decode C ?c = Some bs" by (rule decode_lower_hex [OF assms(1) lower])
  obtain r ups where p: "preview_insert C t (fr_of_bytes C bs) = Inr (next_index t, r, ups)"
    using preview_insert_total [OF assms(2)] assms(5) by fastforce
  have P: "persisted C t d" and ok: "tree_ok C t" using R by (auto simp: registry_ok_def persisted_def)
  obtain els bits where g: "get_proof (apply_updates (next_index t + 1) ups t) (next_index t) = Inr (els, bits)"
    using mt.inserted_proof [OF ok p] by blast
  obtain rid d1 where i: "insert_vrp_identity d ?c (as_u8 role) node = Inr (rid, d1)"
    using assms(4) new by (auto simp: insert_vrp_identity_Inr)
  then have P1: "persisted C t d1"
    using P persisted_cong [of d1 d C t] by (simp add: insert_vrp_identity_Inr)
  obtain d2 where q: "persist_leaf_and_root C now no_faults 2 d1 (next_index t) (fr_of_bytes C bs) r = Inr d2"
    using persist_total [OF P1] by blast
  have "\<exists>res t'. register_identity C now no_faults t d c0 role node = (Inr res, t', d2)"
    using c0 bs p i q g by (simp add: register_identity_def Let_def)
  then show thesis using that by blast
qed

section \<open>Nullifiers\<close>

definition nullifiers_ok :: "db \<Rightarrow> bool" where
  "nullifiers_ok d \<longleftrightarrow> distinct (map (\<lambda>r. (nf_topic r, nf_nullifier r)) (zk_nullifiers d))"

lemma insert_nullifier_cases:
  "insert_nullifier d topic n p c =
     (if check_nullifier_exists d topic n then Inl (DuplicateNullifier topic)
      else Inr (d\<lparr>zk_nullifiers := zk_nullifiers d @
        [\<lparr>nf_topic = topic, nf_nullifier = n, nf_pseudonym = p, nf_commitment = c\<rparr>]\<rparr>))"
  by (simp add: insert_nullifier_def insert_nullifier_sql_def check_nullifier_exists_def
      count_where_pos exists_where_iff)

definition nullifier_step ::
  "string \<times> string \<times> string option \<times> string option \<Rightarrow> db \<Rightarrow> db" where
  "nullifier_step op d = (case op of (topic, n, p, c) \<Rightarrow>
     (case insert_nullifier d topic n p c of Inl _ \<Rightarrow> d | Inr d' \<Rightarrow> d'))"

lemma check_nullifier_iff:
  "check_nullifier_exists d topic n \<longleftrightarrow>
     (topic, n) \<in> set (map (\<lambda>r. (nf_topic r, nf_nullifier r)) (zk_nullifiers d))"
  by (simp add: check_nullifier_exists_def count_where_pos image_iff) metis

lemma nullifier_step_keys:
  "map (\<lambda>r. (nf_topic r, nf_nullifier r)) (zk_nullifiers (nullifier_step (topic, n, p, c) d)) =
     (let ks = map (\<lambda>r. (nf_topic r, nf_nullifier r)) (zk_nullifiers d)
      in if (topic, n) \<in> set ks then ks else ks @ [(topic, n)])"
  by (simp add: nullifier_step_def insert_nullifier_cases check_nullifier_iff Let_def)

interpretation nullifier_machine: invariant_machine nullifier_step nullifiers_ok
proof (standard, goal_cases)
  case (1 d op)
  obtain topic n p c where op: "op = (topic, n, p, c)" by (cases op)
  from 1 show ?case by (simp add: op nullifiers_ok_def nullifier_step_keys Let_def)
qed

lemma nullifier_step_keeps:
  "check_nullifier_exists d topic n \<Longrightarrow> check_nullifier_exists (nullifier_step op d) topic n"
proof -
  obtain topic' n' p c where "op = (topic', n', p, c)" by (cases op)
  moreover assume "check_nullifier_exists d topic n"
  ultimately show ?thesis
    unfolding check_nullifier_iff by (simp add: nullifier_step_keys Let_def del: set_map)
qed

lemma nullifier_run_keeps:
  "check_nullifier_exists d topic n \<Longrightarrow> check_nullifier_exists (fold nullifier_step ops d) topic n"
  by (induction ops arbitrary: d) (auto intro: nullifier_step_keeps)

section \<open>Properties\<close>

text \<open>
  C1. Registration is atomic and its answer is right, for every fault schedule: an error
  leaves tree and database unchanged; on success tree, stored leaves, active root and
  identities stay consistent, the commitment (in lowercase) is appended as the next leaf, the
  returned root is the tree's new root and the returned path folds from the commitment's
  field element to it.
\<close>

theorem register_identity_sound:
  assumes "registry_ok C t d" and "register_identity C now flt t d c0 role node = (res, t', d')"
  shows "case res of
      Inl e \<Rightarrow> t' = t \<and> d' = d
    | Inr r \<Rightarrow> registry_ok C t' d' \<and> leaf_index r = length (leaves t)
        \<and> leaves t' = leaves t @ [commitment_leaf C (to_ascii_lowercase c0)]
        \<and> rr_root_hex r = root_hex C t'
        \<and> (\<exists>els. path_elements r = map (\<lambda>fr. hex_encode C (fr_to_bytes C fr)) els
             \<and> fold_path C (commitment_leaf C (to_ascii_lowercase c0)) (zip els (path_indices r))
                 = Inr (tree_root t'))"
proof (cases res)
  case (Inl e)
  have "tree_ok C t" using assms(1) by (simp add: registry_ok_def persisted_def)
  with Inl assms(2) show ?thesis by (auto dest: register_identity_failure)
next
  case (Inr r)
  note reg = assms(2) [unfolded Inr]
  have 1: "registry_ok C t' d'" "leaf_index r = length (leaves t)"
    "leaves t' = leaves t @ [commitment_leaf C (to_ascii_lowercase c0)]" "rr_root_hex r = root_hex C t'"
    using register_identity_ok [OF assms(1) reg] by auto
  obtain els where els: "get_proof t' (leaf_index r) = Inr (els, path_indices r)"
    "path_elements r = map (\<lambda>fr. hex_encode C (fr_to_bytes C fr)) els"
    using register_identity_success [OF reg] by blast
  have "tree_ok C t'" using 1(1) by (simp add: registry_ok_def persisted_def)
  then have "fold_path C (leaves t' ! leaf_index r) (zip els (path_indices r)) = Inr (tree_root t')"
    using get_proof_ok [of C t' "leaf_index r"] els(1) 1(2,3) by auto
  then have "fold_path C (commitment_leaf C (to_ascii_lowercase c0)) (zip els (path_indices r)) = Inr (tree_root t')"
    using 1(2,3) by (simp add: nth_append)
  with 1 els(2) Inr show ?thesis by auto
qed

text \<open>
  Without engine faults registration does exactly what it documents: for a 64-digit hex
  commitment, in any letter case, and a tree that is not full, a commitment that is already
  registered is refused as a duplicate with nothing changed, and any other is registered.
\<close>

theorem register_identity_functional:
  assumes "hex_laws C" and "poseidon2_total C" and "registry_ok C t d"
    and "as_u8 role \<in> ro_code ` set (vrp_roles d)"
    and "length (leaves t) < capacity (depth t)"
    and "length c0 = 64" and "list_all is_ascii_hexdigit c0"
  shows "if to_ascii_lowercase c0 \<in> vi_commitment ` set (vrp_identities d)
         then \<exists>m. register_identity C now no_faults t d c0 role node = (Inl (DuplicateCommitment m), t, d)
         else \<exists>res t' d'. register_identity C now no_faults t d c0 role node = (Inr res, t', d')
           \<and> vrp_identities d' = vrp_identities d @
               [\<lparr>vi_rowid = identity_id res, vi_commitment = to_ascii_lowercase c0, vi_role = as_u8 role, vi_node = node\<rparr>]"
proof (cases "to_ascii_lowercase c0 \<in> vi_commitment ` set (vrp_identities d)")
  case True
  let ?c = "to_ascii_lowercase c0"
  have lower: "is_lower_hex_64 ?c" using assms(6,7) by (rule to_ascii_lowercase_hex)
  obtain bs where bs: "hex_decode C ?c = Some bs" by (rule decode_lower_hex [OF assms(1) lower])
  obtain r ups where p: "preview_insert C t (fr_of_bytes C bs) = Inr (next_index t, r, ups)"
    using preview_insert_total [OF assms(2)] assms(5) by fastforce
  have "insert_vrp_identity d ?c (as_u8 role) node = Inl (SqliteFailure ConstraintPrimaryKey)"
    using True by (auto simp: insert_vrp_identity_def exists_where_iff)
  then show ?thesis using True assms(6,7) bs p by (simp add: register_identity_def Let_def)
next
  case False
  obtain res t' d' where "register_identity C now no_faults t d c0 role node = (Inr res, t', d')"
    by (rule register_identity_succeeds [OF assms False])
  then show ?thesis using False register_identity_ok [OF assms(3)] by auto
qed

text \<open>The starting point of the witnesses: an empty tree of depth 3 over a migrated database.\<close>

lemma demo_registry:
  obtains t where "new_tree demo_crypto 3 = Inr t" and "registry_ok demo_crypto t (migrated_db 0)"
    and "leaves t = []" and "depth t = 3"
proof -
  obtain t where t: "new_tree demo_crypto 3 = Inr t"
    using new_tree_total [OF demo_poseidon2_total] by blast
  have "registry_ok demo_crypto t (migrated_db 0)"
    using persisted_new [OF t] new_tree_ok [OF t] by (simp add: registry_ok_def migrated_db_def)
  with t new_tree_ok [OF t] show thesis by (auto intro: that)
qed

lemma demo_role: "as_u8 RoleCode.Human \<in> ro_code ` set (vrp_roles (migrated_db 0))"
  by (simp add: migrated_db_def)

definition demo_upper :: string where
  "demo_upper = replicate 62 (CHR ''0'') @ ''A7''"

lemma demo_upper_format: "length demo_upper = 64" "list_all is_ascii_hexdigit demo_upper"
  "to_ascii_lowercase demo_upper = demo_commitment"
  by (simp_all add: demo_upper_def demo_commitment_def to_ascii_lowercase_def ascii_lower_char_def
      is_ascii_hexdigit_def is_lower_hex_def is_ascii_digit_def less_eq_char_def list_all_iff, code_simp)

theorem register_identity_functional_witness:
  "\<exists>t res t' d' m. new_tree demo_crypto 3 = Inr t
     \<and> register_identity demo_crypto 1 no_faults t (migrated_db 0) demo_upper RoleCode.Human 42 = (Inr res, t', d')
     \<and> register_identity demo_crypto 2 no_faults t' d' demo_commitment RoleCode.Human 43
         = (Inl (DuplicateCommitment m), t', d')"
proof -
  obtain t where t: "new_tree demo_crypto 3 = Inr t" and ok: "registry_ok demo_crypto t (migrated_db 0)"
    and lv: "leaves t = []" "depth t = 3" by (rule demo_registry)
  have none: "vrp_identities (migrated_db 0) = []" by (simp add: migrated_db_def)
  have cap: "length (leaves t) < capacity (depth t)" using lv by (simp add: capacity_def)
  obtain res t' d' where r: "register_identity demo_crypto 1 no_faults t (migrated_db 0) demo_upper RoleCode.Human 42
      = (Inr res, t', d')" and i: "demo_commitment \<in> vi_commitment ` set (vrp_identities d')"
    using register_identity_functional [OF demo_hex_laws demo_poseidon2_total ok demo_role cap
        demo_upper_format(1,2), of 1 42] none demo_upper_format(3) by auto
  have ok': "registry_ok demo_crypto t' d'" "leaves t' = [commitment_leaf demo_crypto demo_commitment]"
    "vrp_roles d' = vrp_roles (migrated_db 0)" "depth t' = depth t"
    using register_identity_ok [OF ok r] register_identity_frame [OF r] lv demo_upper_format(3) by auto
  have cap': "length (leaves t') < capacity (depth t')" using ok' lv by (simp add: capacity_def)
  have role': "as_u8 RoleCode.Human \<in> ro_code ` set (vrp_roles d')" using demo_role ok'(3) by simp
  show ?thesis
    using register_identity_functional [OF demo_hex_laws demo_poseidon2_total ok'(1) role' cap',
        of demo_commitment 2 43] i t r demo_commitment_format lower_hex_is_hexdigit [of demo_commitment]
      to_ascii_lowercase_id [of demo_commitment] by auto
qed

theorem register_identity_sound_witness:
  "\<exists>t res t' d'. new_tree demo_crypto 3 = Inr t
     \<and> register_identity demo_crypto 1 (\<lambda>n. n = 4) t (migrated_db 0) demo_upper RoleCode.Human 42 = (Inl res, t, migrated_db 0)
     \<and> registry_ok demo_crypto t' d' \<and> leaves t' = [commitment_leaf demo_crypto demo_commitment]"
proof -
  obtain t where t: "new_tree demo_crypto 3 = Inr t" and ok: "registry_ok demo_crypto t (migrated_db 0)"
    and lv: "leaves t = []" "depth t = 3" by (rule demo_registry)
  have none: "vrp_identities (migrated_db 0) = []" by (simp add: migrated_db_def)
  have cap: "length (leaves t) < capacity (depth t)" using lv by (simp add: capacity_def)
  obtain res t' d' where r: "register_identity demo_crypto 1 no_faults t (migrated_db 0) demo_upper RoleCode.Human 42
      = (Inr res, t', d')"
    by (rule register_identity_succeeds [OF demo_hex_laws demo_poseidon2_total ok demo_role cap
          demo_upper_format(1,2), where now = 1 and node = 42]) (auto simp: none)
  have s: "registry_ok demo_crypto t' d' \<and> leaves t' = [commitment_leaf demo_crypto demo_commitment]"
    using register_identity_sound [OF ok r] lv demo_upper_format(3) by simp
  obtain e t2 d2 where f: "register_identity demo_crypto 1 (\<lambda>n. n = 4) t (migrated_db 0) demo_upper RoleCode.Human 42
      = (Inl e, t2, d2)"
    using register_identity_fault [of "\<lambda>n. n = 4" 4] by force
  have "t2 = t \<and> d2 = migrated_db 0" using register_identity_sound [OF ok f] by simp
  with t f s show ?thesis by blast
qed

text \<open>
  Looking a registered commitment up by its own hex string works exactly for canonical
  commitments: if the commitment's bytes are the canonical form of a field element, the
  lookup returns its index, the current root and a path that folds to it; if they are not (the
  value is not below the field order), the leaf is stored under the reduced value and the
  lookup of the commitment that was just registered answers \<open>CommitmentNotFound\<close>.
\<close>

theorem registered_path_lookup:
  assumes "hex_laws C" and "registry_ok C t d"
    and "register_identity C now flt t d c0 role node = (Inr res, t', d')"
    and "c = to_ascii_lowercase c0" and "c \<notin> lf_commitment ` set (vrp_leaves d)"
  shows "if hex_encode C (fr_to_bytes C (commitment_leaf C c)) = c
         then \<exists>els bits. get_path_for_commitment C t' d' c =
             Inr (leaf_index res, root_hex C t', map (\<lambda>fr. hex_encode C (fr_to_bytes C fr)) els, bits)
             \<and> fold_path C (commitment_leaf C c) (zip els bits) = Inr (tree_root t')
         else get_path_for_commitment C t' d' c = Inl (CommitmentNotFound c)"
proof -
  have 1: "registry_ok C t' d'" "leaf_index res = length (leaves t)"
    "leaves t' = leaves t @ [commitment_leaf C c]"
    "vrp_leaves d' = vrp_leaves d @
        [\<lparr>lf_index = leaf_index res, lf_commitment = hex_encode C (fr_to_bytes C (commitment_leaf C c))\<rparr>]"
    using register_identity_ok [OF assms(2,3)] by (auto simp: assms(4))
  have none: "first_where (\<lambda>r. lf_commitment r = c) (vrp_leaves d) = None"
    using assms(5) by (auto simp: first_where_None)
  have "tree_ok C t'" using 1(1) by (simp add: registry_ok_def persisted_def)
  then obtain els bits where "get_proof t' (leaf_index res) = Inr (els, bits)"
    "fold_path C (commitment_leaf C c) (zip els bits) = Inr (tree_root t')"
    using get_proof_ok [of C t' "leaf_index res"] 1(2,3) by (auto simp: nth_append)
  then show ?thesis
    using none by (auto simp: get_path_for_commitment_def 1(4) root_hex_def)
qed

text \<open>A commitment that the demo field reduces: only its last byte survives.\<close>

definition demo_reduced :: string where
  "demo_reduced = ''01'' @ replicate 60 (CHR ''0'') @ ''a7''"

lemma demo_reduced_format: "length demo_reduced = 64" "list_all is_ascii_hexdigit demo_reduced"
  "to_ascii_lowercase demo_reduced = demo_reduced"
  by (simp_all add: demo_reduced_def to_ascii_lowercase_def ascii_lower_char_def
      is_ascii_hexdigit_def is_lower_hex_def is_ascii_digit_def less_eq_char_def list_all_iff)

theorem registered_path_lookup_witness:
  "\<exists>t res t' d' res2 t2 d2. new_tree demo_crypto 3 = Inr t
     \<and> register_identity demo_crypto 1 no_faults t (migrated_db 0) demo_upper RoleCode.Human 42 = (Inr res, t', d')
     \<and> is_ok (get_path_for_commitment demo_crypto t' d' demo_commitment)
     \<and> register_identity demo_crypto 1 no_faults t (migrated_db 0) demo_reduced RoleCode.Human 42 = (Inr res2, t2, d2)
     \<and> get_path_for_commitment demo_crypto t2 d2 demo_reduced = Inl (CommitmentNotFound demo_reduced)"
proof -
  obtain t where t: "new_tree demo_crypto 3 = Inr t" and ok: "registry_ok demo_crypto t (migrated_db 0)"
    and lv: "leaves t = []" "depth t = 3" by (rule demo_registry)
  have none: "vrp_identities (migrated_db 0) = []" "vrp_leaves (migrated_db 0) = []"
    by (simp_all add: migrated_db_def)
  have cap: "length (leaves t) < capacity (depth t)" using lv by (simp add: capacity_def)
  obtain res t' d' where r: "register_identity demo_crypto 1 no_faults t (migrated_db 0) demo_upper RoleCode.Human 42
      = (Inr res, t', d')"
    by (rule register_identity_succeeds [OF demo_hex_laws demo_poseidon2_total ok demo_role cap
          demo_upper_format(1,2), where now = 1 and node = 42]) (auto simp: none)
  obtain res2 t2 d2 where r2: "register_identity demo_crypto 1 no_faults t (migrated_db 0) demo_reduced RoleCode.Human 42
      = (Inr res2, t2, d2)"
    by (rule register_identity_succeeds [OF demo_hex_laws demo_poseidon2_total ok demo_role cap
          demo_reduced_format(1,2), where now = 1 and node = 42]) (auto simp: none)
  have canon: "hex_encode demo_crypto (fr_to_bytes demo_crypto (commitment_leaf demo_crypto demo_commitment)) = demo_commitment"
    "hex_encode demo_crypto (fr_to_bytes demo_crypto (commitment_leaf demo_crypto demo_reduced)) \<noteq> demo_reduced"
    by code_simp+
  have "is_ok (get_path_for_commitment demo_crypto t' d' demo_commitment)"
    using registered_path_lookup [OF demo_hex_laws ok r refl] canon(1) none demo_upper_format(3) by auto
  moreover have "get_path_for_commitment demo_crypto t2 d2 demo_reduced = Inl (CommitmentNotFound demo_reduced)"
    using registered_path_lookup [OF demo_hex_laws ok r2 refl] canon(2) none demo_reduced_format(3) by auto
  ultimately show ?thesis using t r r2 by blast
qed

text \<open>
  A nullifier is spent once: inserting it succeeds exactly when it is not recorded for
  the topic, it is recorded from then on whatever other nullifiers are inserted, every later
  attempt for the same topic is refused as a duplicate, and no pair of topic and nullifier is
  ever stored twice.
\<close>

theorem nullifier_spent_once:
  assumes "nullifiers_ok d"
  shows "is_ok (insert_nullifier d topic n p c) = (\<not> check_nullifier_exists d topic n)
    \<and> insert_nullifier (fold nullifier_step ops (nullifier_step (topic, n, p, c) d)) topic n p' c'
        = Inl (DuplicateNullifier topic)
    \<and> nullifiers_ok (fold nullifier_step ops (nullifier_step (topic, n, p, c) d))"
proof -
  have "check_nullifier_exists (nullifier_step (topic, n, p, c) d) topic n"
    unfolding check_nullifier_iff nullifier_step_keys by (simp add: Let_def)
  then have "check_nullifier_exists (fold nullifier_step ops (nullifier_step (topic, n, p, c) d)) topic n"
    by (rule nullifier_run_keeps)
  moreover have "nullifiers_ok (fold nullifier_step ops (nullifier_step (topic, n, p, c) d))"
    using nullifier_machine.run_inv [OF nullifier_machine.step_inv [OF assms]] .
  ultimately show ?thesis by (simp add: insert_nullifier_cases)
qed

theorem nullifier_spent_once_witness:
  "is_ok (insert_nullifier (migrated_db 0) ''t'' ''n'' None None) \<and>
   insert_nullifier (nullifier_step (''u'', ''n'', None, None) (nullifier_step (''t'', ''n'', None, None) (migrated_db 0)))
     ''t'' ''n'' (Some ''p'') None = Inl (DuplicateNullifier ''t'')"
proof -
  have ok: "nullifiers_ok (migrated_db 0)" and none: "\<not> check_nullifier_exists (migrated_db 0) ''t'' ''n''"
    by (simp_all add: nullifiers_ok_def check_nullifier_exists_def count_where_def migrated_db_def)
  show ?thesis
    using nullifier_spent_once [OF ok, of "''t''" "''n''" None None "[(''u'', ''n'', None, None)]" "Some ''p''" None] none
    by simp
qed

end
