(* ===== verification/Annex_Platform.thy ===== *)
theory Annex_Platform
  imports Annex_Registry
begin

text \<open>
  Crate \<open>annex-identity\<close>, file \<open>platform.rs\<close>: the platform identities of a server, their
  capability flags, the founder rule of \<open>create_platform_identity\<close> and its repair by
  \<open>ensure_founder\<close>. The lookup of the authentication middleware
  (\<open>annex-server/src/middleware.rs\<close>) is here as well.
\<close>

section \<open>Operations\<close>

record PlatformIdentity =
  pf_id :: int
  pf_server_id :: int
  pf_pseudonym_id :: string
  participant_type :: RoleCode
  pf_capabilities :: Capabilities
  pf_active :: bool
  pf_created_at :: time
  pf_updated_at :: time

definition role_from_str :: "string \<Rightarrow> IdentityError + RoleCode" where
  "role_from_str s =
     (if s = ''HUMAN'' then Inr RoleCode.Human
      else if s = ''AI_AGENT'' then Inr RoleCode.AiAgent
      else if s = ''COLLECTIVE'' then Inr RoleCode.Collective
      else if s = ''BRIDGE'' then Inr RoleCode.Bridge
      else if s = ''SERVICE'' then Inr RoleCode.Service
      else Inl (InvalidRoleLabel s))"

definition get_platform_identity :: "db \<Rightarrow> int \<Rightarrow> string \<Rightarrow> IdentityError + PlatformIdentity" where
  "get_platform_identity d server_id pseudonym_id =
     (case first_where (\<lambda>r. pi_server r = server_id \<and> pi_pseudonym r = pseudonym_id)
             (auto_rows (platform_identities d)) of
        None \<Rightarrow> Inl (DatabaseError QueryReturnedNoRows)
      | Some r \<Rightarrow>
          (case role_from_str (pi_type r) of
             Inl _ \<Rightarrow> Inl (DatabaseError (FromSqlConversionFailure 3))
           | Inr role \<Rightarrow> Inr \<lparr>pf_id = pi_id r, pf_server_id = pi_server r, pf_pseudonym_id = pi_pseudonym r,
               participant_type = role, pf_capabilities = pi_caps r, pf_active = pi_active r,
               pf_created_at = pi_created r, pf_updated_at = pi_updated r\<rparr>))"

text \<open>
  The four sub-selects of the insertion count the identities of the server before the new
  row exists; \<open>can_bridge\<close> is left to its default.
\<close>

definition founder_flag :: "db \<Rightarrow> int \<Rightarrow> bool" where
  "founder_flag d server_id =
     (count_where (\<lambda>r. pi_server r = server_id) (auto_rows (platform_identities d)) = 0)"

definition create_platform_identity ::
  "time \<Rightarrow> db \<Rightarrow> int \<Rightarrow> string \<Rightarrow> RoleCode \<Rightarrow> (IdentityError + PlatformIdentity) \<times> db" where
  "create_platform_identity now d server_id pseudonym_id role =
     (if exists_where (\<lambda>r. pi_server r = server_id \<and> pi_pseudonym r = pseudonym_id)
           (auto_rows (platform_identities d))
      then (Inl (DatabaseError (SqliteFailure ConstraintUnique)), d)
      else
        let f = founder_flag d server_id;
            d' = d\<lparr>platform_identities := auto_insert (\<lambda>i.
                   \<lparr>pi_id = i, pi_server = server_id, pi_pseudonym = pseudonym_id, pi_type = label role,
                    pi_caps = \<lparr>can_voice = f, can_moderate = f, can_invite = f, can_federate = f,
                               can_bridge = False\<rparr>,
                    pi_active = True, pi_created = now, pi_updated = now\<rparr>) (platform_identities d)\<rparr>
        in (get_platform_identity d' server_id pseudonym_id, d'))"

definition update_capabilities ::
  "time \<Rightarrow> db \<Rightarrow> int \<Rightarrow> string \<Rightarrow> Capabilities \<Rightarrow> (IdentityError + unit) \<times> db" where
  "update_capabilities now d server_id pseudonym_id caps =
     (let p = (\<lambda>r. pi_server r = server_id \<and> pi_pseudonym r = pseudonym_id);
          changed = count_where p (auto_rows (platform_identities d));
          d' = d\<lparr>platform_identities :=
                 auto_update p (\<lambda>r. r\<lparr>pi_caps := caps, pi_updated := now\<rparr>) (platform_identities d)\<rparr>
      in if changed = 0 then (Inl (DatabaseError QueryReturnedNoRows), d') else (Inr (), d'))"

definition promote :: "Capabilities \<Rightarrow> Capabilities" where
  "promote c = c\<lparr>can_voice := True, can_moderate := True, can_invite := True, can_federate := True\<rparr>"

text \<open>\<open>SELECT MIN(id)\<close> over no rows is NULL, which no id equals.\<close>

definition min_active_id :: "db \<Rightarrow> int \<Rightarrow> int option" where
  "min_active_id d server_id =
     (let ids = map pi_id (filter (\<lambda>r. pi_server r = server_id \<and> pi_active r)
                             (auto_rows (platform_identities d)))
      in if ids = [] then None else Some (Min (set ids)))"

definition ensure_founder :: "time \<Rightarrow> db \<Rightarrow> int \<Rightarrow> bool \<times> db" where
  "ensure_founder now d server_id =
     (if exists_where (\<lambda>r. pi_server r = server_id \<and> can_moderate (pi_caps r) \<and> pi_active r)
           (auto_rows (platform_identities d))
      then (False, d)
      else
        let p = (\<lambda>r. Some (pi_id r) = min_active_id d server_id);
            promoted = count_where p (auto_rows (platform_identities d))
        in (0 < promoted,
            d\<lparr>platform_identities := auto_update p
                (\<lambda>r. r\<lparr>pi_caps := promote (pi_caps r), pi_updated := now\<rparr>) (platform_identities d)\<rparr>))"

definition deactivate_platform_identity ::
  "time \<Rightarrow> db \<Rightarrow> int \<Rightarrow> string \<Rightarrow> (IdentityError + unit) \<times> db" where
  "deactivate_platform_identity now d server_id pseudonym_id =
     (let p = (\<lambda>r. pi_server r = server_id \<and> pi_pseudonym r = pseudonym_id);
          changed = count_where p (auto_rows (platform_identities d));
          d' = d\<lparr>platform_identities :=
                 auto_update p (\<lambda>r. r\<lparr>pi_active := False, pi_updated := now\<rparr>) (platform_identities d)\<rparr>
      in if changed = 0 then (Inl (DatabaseError QueryReturnedNoRows), d') else (Inr (), d'))"

section \<open>Authentication (middleware.rs)\<close>

datatype StatusCode =
    BAD_REQUEST
  | UNAUTHORIZED
  | FORBIDDEN
  | NOT_FOUND
  | CONFLICT
  | UNSUPPORTED_MEDIA_TYPE
  | TOO_MANY_REQUESTS
  | INTERNAL_SERVER_ERROR
  | BAD_GATEWAY
  | SERVICE_UNAVAILABLE

text \<open>
  The headers the middleware reads: absent, present with a value that is no visible ASCII
  (\<open>to_str\<close> fails), or present with a text.
\<close>

datatype header_value = Absent | Opaque | Header string

definition strip_prefix :: "string \<Rightarrow> string \<Rightarrow> string option" where
  "strip_prefix pre s = (if take (length pre) s = pre then Some (drop (length pre) s) else None)"

definition auth_token :: "header_value \<Rightarrow> header_value \<Rightarrow> StatusCode + string" where
  "auth_token pseudonym_header authorization =
     (case pseudonym_header of
        Header v \<Rightarrow> Inr v
      | Opaque \<Rightarrow> Inl UNAUTHORIZED
      | Absent \<Rightarrow>
          (case authorization of
             Header v \<Rightarrow> ok_or (strip_prefix ''Bearer '' v) UNAUTHORIZED
           | _ \<Rightarrow> Inl UNAUTHORIZED))"

text \<open>
  The first call is taking a connection from the pool; any failure of the lookup after it, like an
  unknown pseudonym, is answered as unauthorized.
\<close>

definition auth_middleware ::
  "faults \<Rightarrow> db \<Rightarrow> int \<Rightarrow> header_value \<Rightarrow> header_value \<Rightarrow> StatusCode + PlatformIdentity" where
  "auth_middleware flt d server_id pseudonym_header authorization =
     and_then (auth_token pseudonym_header authorization) (\<lambda>pseudonym.
       if flt 0 then Inl INTERNAL_SERVER_ERROR else
       if flt 1 then Inl UNAUTHORIZED else
       and_then (map_err (\<lambda>_. UNAUTHORIZED) (get_platform_identity d server_id pseudonym)) (\<lambda>identity.
         if pf_active identity then Inr identity else Inl UNAUTHORIZED))"

section \<open>Roles as text\<close>

definition parse_role :: "string \<Rightarrow> RoleCode option" where
  "parse_role s = (case role_from_str s of Inl _ \<Rightarrow> None | Inr r \<Rightarrow> Some r)"

interpretation role_text: codec label parse_role
proof (standard, goal_cases)
  case (1 a)
  show ?case by (cases a) (simp_all add: parse_role_def role_from_str_def)
next
  case (2 b a)
  then show ?case by (auto simp: parse_role_def role_from_str_def split: if_splits)
qed

lemma role_from_label [simp]: "role_from_str (label r) = Inr r"
  using role_text.dec_enc [of r] by (simp add: parse_role_def split: sum.splits)

section \<open>The invariant of the table\<close>

abbreviation platform_rows :: "db \<Rightarrow> platform_row list" where
  "platform_rows d \<equiv> auto_rows (platform_identities d)"

definition platform_ok :: "db \<Rightarrow> bool" where
  "platform_ok d \<longleftrightarrow> auto_wf pi_id (platform_identities d)
     \<and> distinct (map (\<lambda>r. (pi_server r, pi_pseudonym r)) (platform_rows d))
     \<and> (\<forall>t \<in> pi_type ` set (platform_rows d). t \<in> range label)"

datatype platform_op =
    CreateIdentity time int string RoleCode
  | UpdateCapabilities time int string Capabilities
  | EnsureFounder time int
  | Deactivate time int string

fun platform_step :: "platform_op \<Rightarrow> db \<Rightarrow> db" where
  "platform_step (CreateIdentity now s p r) d = snd (create_platform_identity now d s p r)"
| "platform_step (UpdateCapabilities now s p c) d = snd (update_capabilities now d s p c)"
| "platform_step (EnsureFounder now s) d = snd (ensure_founder now d s)"
| "platform_step (Deactivate now s p) d = snd (deactivate_platform_identity now d s p)"

lemma platform_ok_update:
  assumes "platform_ok d"
    and "\<And>r. pi_id (f r) = pi_id r \<and> pi_server (f r) = pi_server r \<and> pi_pseudonym (f r) = pi_pseudonym r
           \<and> pi_type (f r) = pi_type r"
  shows "platform_ok (d\<lparr>platform_identities := auto_update p f (platform_identities d)\<rparr>)"
proof -
  have "map (\<lambda>r. (pi_server r, pi_pseudonym r)) (update_where p f (platform_rows d)) =
      map (\<lambda>r. (pi_server r, pi_pseudonym r)) (platform_rows d)"
    "map pi_type (update_where p f (platform_rows d)) = map pi_type (platform_rows d)"
    using assms(2) by (intro map_update_where; simp)+
  then show ?thesis
    using assms auto_wf_update [of pi_id "platform_identities d" p f]
    unfolding platform_ok_def by (simp flip: set_map)
qed

lemma platform_ok_create:
  assumes "platform_ok d"
  shows "platform_ok (snd (create_platform_identity now d s p r))"
proof (cases "exists_where (\<lambda>r. pi_server r = s \<and> pi_pseudonym r = p) (platform_rows d)")
  case True
  with assms show ?thesis by (simp add: create_platform_identity_def)
next
  case False
  then have "(s, p) \<notin> (\<lambda>r. (pi_server r, pi_pseudonym r)) ` set (platform_rows d)"
    by (simp add: exists_where_iff image_iff) metis
  with False assms show ?thesis
    by (simp add: create_platform_identity_def platform_ok_def Let_def auto_wf_insert)
qed

interpretation platform_machine: invariant_machine platform_step platform_ok
proof (standard, goal_cases)
  case (1 d op)
  then show ?case
    by (cases op) (simp_all add: platform_ok_create update_capabilities_def ensure_founder_def
        deactivate_platform_identity_def Let_def platform_ok_update)
qed

lemma platform_ok_migrated: "platform_ok (migrated_db now)"
  by (simp add: platform_ok_def migrated_db_def)

section \<open>Lookup\<close>

definition identity_of :: "platform_row \<Rightarrow> RoleCode \<Rightarrow> PlatformIdentity" where
  "identity_of r role = \<lparr>pf_id = pi_id r, pf_server_id = pi_server r, pf_pseudonym_id = pi_pseudonym r,
     participant_type = role, pf_capabilities = pi_caps r, pf_active = pi_active r,
     pf_created_at = pi_created r, pf_updated_at = pi_updated r\<rparr>"

lemma identity_of_simps [simp]:
  "pf_active (identity_of r role) = pi_active r" "pf_capabilities (identity_of r role) = pi_caps r"
  by (simp_all add: identity_of_def)

text \<open>In a well-formed table the lookup answers exactly the stored rows.\<close>

lemma get_platform_identity_iff:
  assumes "platform_ok d"
  shows "get_platform_identity d s p = Inr i \<longleftrightarrow>
    (\<exists>r role. r \<in> set (platform_rows d) \<and> pi_server r = s \<and> pi_pseudonym r = p \<and> pi_type r = label role
       \<and> i = identity_of r role)"
proof
  assume "get_platform_identity d s p = Inr i"
  then obtain r role where f: "first_where (\<lambda>r. pi_server r = s \<and> pi_pseudonym r = p) (platform_rows d) = Some r"
    and ro: "role_from_str (pi_type r) = Inr role" and i: "i = identity_of r role"
    by (auto simp: get_platform_identity_def identity_of_def split: option.splits sum.splits)
  have "pi_type r = label role" using ro role_text.enc_dec [of "pi_type r" role] by (simp add: parse_role_def)
  with f i show "\<exists>r role. r \<in> set (platform_rows d) \<and> pi_server r = s \<and> pi_pseudonym r = p \<and> pi_type r = label role
       \<and> i = identity_of r role" by (blast dest: first_where_Some)
next
  assume "\<exists>r role. r \<in> set (platform_rows d) \<and> pi_server r = s \<and> pi_pseudonym r = p \<and> pi_type r = label role
       \<and> i = identity_of r role"
  then obtain r role where r: "r \<in> set (platform_rows d)" "pi_server r = s \<and> pi_pseudonym r = p"
    "pi_type r = label role" "i = identity_of r role" by blast
  have "first_where (\<lambda>r. pi_server r = s \<and> pi_pseudonym r = p) (platform_rows d) = Some r"
    using assms r(1,2) by (intro first_where_unique [where key = "\<lambda>r. (pi_server r, pi_pseudonym r)"])
      (auto simp: platform_ok_def)
  with r show "get_platform_identity d s p = Inr i"
    by (simp add: get_platform_identity_def identity_of_def)
qed

section \<open>Authentication\<close>

lemma strip_prefix_Some: "strip_prefix pre v = Some p \<longleftrightarrow> v = pre @ p"
  by (auto simp: strip_prefix_def) (metis append_take_drop_id)

lemma auth_token_Inr:
  "auth_token h a = Inr p \<longleftrightarrow> h = Header p \<or> h = Absent \<and> a = Header (''Bearer '' @ p)"
  by (auto simp: auth_token_def ok_or_Inr strip_prefix_Some split: header_value.splits)

lemma auth_middleware_Inr:
  "auth_middleware flt d s h a = Inr i \<longleftrightarrow> \<not> flt 0 \<and> \<not> flt 1 \<and>
     (\<exists>p. auth_token h a = Inr p \<and> get_platform_identity d s p = Inr i \<and> pf_active i)"
  by (auto simp: auth_middleware_def and_then_Inr map_err_Inr split: if_splits)

lemma auth_middleware_Inl:
  "auth_middleware flt d s h a = Inl e \<Longrightarrow> e = UNAUTHORIZED \<or> flt 0 \<and> e = INTERNAL_SERVER_ERROR"
  by (auto simp: auth_middleware_def auth_token_def and_then_Inl map_err_Inl ok_or_Inl
      split: header_value.splits if_splits)

section \<open>Founder repair\<close>

lemma min_active_id_Some:
  "min_active_id d s = Some i \<Longrightarrow>
   \<exists>r \<in> set (platform_rows d). pi_server r = s \<and> pi_active r \<and> pi_id r = i
     \<and> (\<forall>r' \<in> set (platform_rows d). pi_server r' = s \<and> pi_active r' \<longrightarrow> i \<le> pi_id r')"
proof -
  let ?ids = "pi_id ` {r \<in> set (platform_rows d). pi_server r = s \<and> pi_active r}"
  assume "min_active_id d s = Some i"
  then have i: "i = Min ?ids" "?ids \<noteq> {}"
    by (auto simp: min_active_id_def Let_def filter_empty_conv split: if_splits)
  have fin: "finite ?ids" by simp
  have "i \<in> ?ids" using Min_in [OF fin i(2)] i(1) by simp
  moreover have "i \<le> j" if "j \<in> ?ids" for j using Min_le [OF fin that] i(1) by simp
  ultimately show ?thesis by auto
qed

lemma min_active_id_None:
  "min_active_id d s = None \<longleftrightarrow> (\<forall>r \<in> set (platform_rows d). \<not> (pi_server r = s \<and> pi_active r))"
  by (auto simp: min_active_id_def Let_def filter_empty_conv)

abbreviation active_moderator :: "int \<Rightarrow> platform_row \<Rightarrow> bool" where
  "active_moderator s r \<equiv> pi_server r = s \<and> can_moderate (pi_caps r) \<and> pi_active r"

lemma promote_moderates [simp]: "can_moderate (promote c)" "can_bridge (promote c) = can_bridge c"
  by (simp_all add: promote_def)

lemma ensure_founder_promotes:
  assumes none: "\<not> exists_where (active_moderator s) (platform_rows d)"
    and act: "r0 \<in> set (platform_rows d)" "pi_server r0 = s" "pi_active r0"
  obtains r where "r \<in> set (platform_rows d)" and "pi_server r = s" and "pi_active r"
    and "\<forall>r' \<in> set (platform_rows d). pi_server r' = s \<and> pi_active r' \<longrightarrow> pi_id r \<le> pi_id r'"
    and "ensure_founder now d s = (True, d\<lparr>platform_identities := auto_update (\<lambda>x. pi_id x = pi_id r)
           (\<lambda>r. r\<lparr>pi_caps := promote (pi_caps r), pi_updated := now\<rparr>) (platform_identities d)\<rparr>)"
proof -
  from act obtain i where i: "min_active_id d s = Some i"
    using min_active_id_None [of d s] by (cases "min_active_id d s") auto
  from min_active_id_Some [OF this] obtain r where r: "r \<in> set (platform_rows d)" "pi_server r = s" "pi_active r"
    "pi_id r = i" "\<forall>r' \<in> set (platform_rows d). pi_server r' = s \<and> pi_active r' \<longrightarrow> pi_id r \<le> pi_id r'"
    by auto
  have "0 < count_where (\<lambda>x. pi_id x = pi_id r) (platform_rows d)" using r(1) by (auto simp: count_where_pos)
  with none i r(4) have "ensure_founder now d s = (True, d\<lparr>platform_identities := auto_update (\<lambda>x. pi_id x = pi_id r)
           (\<lambda>r. r\<lparr>pi_caps := promote (pi_caps r), pi_updated := now\<rparr>) (platform_identities d)\<rparr>)"
    by (simp add: ensure_founder_def Let_def)
  with r that show thesis by blast
qed

section \<open>Properties\<close>

text \<open>
  The founder rule: creating an identity fails only for a pseudonym the server already
  has, and then changes nothing; otherwise the identity is stored active under a fresh id
  and returned with its role, and it gets the four core capabilities exactly when it is the
  first identity of its server. \<open>can_bridge\<close> is never granted.
\<close>

theorem create_platform_identity_founder:
  assumes "platform_ok d" and "create_platform_identity now d s p role = (res, d')"
  shows "if (s, p) \<in> (\<lambda>r. (pi_server r, pi_pseudonym r)) ` set (platform_rows d)
    then res = Inl (DatabaseError (SqliteFailure ConstraintUnique)) \<and> d' = d
    else \<exists>i. res = Inr i \<and> get_platform_identity d' s p = Inr i \<and> platform_ok d'
      \<and> participant_type i = role \<and> pf_active i
      \<and> (\<forall>r \<in> set (platform_rows d). pi_id r < pf_id i)
      \<and> pf_capabilities i = (if s \<in> pi_server ` set (platform_rows d) then default_capabilities
                              else promote default_capabilities)"
proof -
  have ex: "exists_where (\<lambda>r. pi_server r = s \<and> pi_pseudonym r = p) (platform_rows d) \<longleftrightarrow>
      (s, p) \<in> (\<lambda>r. (pi_server r, pi_pseudonym r)) ` set (platform_rows d)"
    by (simp add: exists_where_iff image_iff) metis
  show ?thesis
  proof (cases "exists_where (\<lambda>r. pi_server r = s \<and> pi_pseudonym r = p) (platform_rows d)")
    case True
    with assms(2) ex show ?thesis by (simp add: create_platform_identity_def)
  next
    case False
    then have n: "first_where (\<lambda>r. pi_server r = s \<and> pi_pseudonym r = p) (platform_rows d) = None"
      by (simp add: exists_where_iff first_where_None)
    have ff: "founder_flag d s \<longleftrightarrow> s \<notin> pi_server ` set (platform_rows d)"
      by (auto simp: founder_flag_def count_where_0)
    have lt: "\<forall>r \<in> set (platform_rows d). pi_id r < auto_seq (platform_identities d) + 1"
      using assms(1) by (auto simp: platform_ok_def dest: auto_wf_le)
    have ok: "platform_ok d'" using platform_ok_create [OF assms(1), of now s p role] assms(2) by simp
    define row where "row = \<lparr>pi_id = auto_seq (platform_identities d) + 1, pi_server = s, pi_pseudonym = p,
      pi_type = label role, pi_caps = (if founder_flag d s then promote default_capabilities else default_capabilities),
      pi_active = True, pi_created = now, pi_updated = now\<rparr>"
    have r: "res = get_platform_identity d' s p" "platform_rows d' = platform_rows d @ [row]"
      using False assms(2)
      by (auto simp: create_platform_identity_def Let_def row_def promote_def default_capabilities_def)
    have g: "get_platform_identity d' s p = Inr (identity_of row role)"
      using n by (simp add: get_platform_identity_def r(2) identity_of_def) (simp add: row_def)
    show ?thesis
      using False ok lt r(1) g unfolding ex by (simp add: identity_of_def row_def ff)
  qed
qed

theorem create_platform_identity_founder_witness:
  "\<exists>i d' j d''. create_platform_identity 5 (migrated_db 0) 1 ''alice'' RoleCode.Human = (Inr i, d')
     \<and> pf_capabilities i = promote default_capabilities
     \<and> create_platform_identity 6 d' 1 ''bob'' RoleCode.AiAgent = (Inr j, d'')
     \<and> pf_capabilities j = default_capabilities"
proof -
  have none: "platform_rows (migrated_db 0) = []" by (simp add: migrated_db_def)
  obtain res0 d' where c0: "create_platform_identity 5 (migrated_db 0) 1 ''alice'' RoleCode.Human = (res0, d')"
    by (cases "create_platform_identity 5 (migrated_db 0) 1 ''alice'' RoleCode.Human")
  obtain i where "res0 = Inr i" "platform_ok d'" "pf_capabilities i = promote default_capabilities"
    using create_platform_identity_founder [OF platform_ok_migrated c0] none by (simp, blast)
  then have i: "create_platform_identity 5 (migrated_db 0) 1 ''alice'' RoleCode.Human = (Inr i, d')"
    "platform_ok d'" "pf_capabilities i = promote default_capabilities" using c0 by auto
  have rows: "map pi_server (platform_rows d') = [1]" "map pi_pseudonym (platform_rows d') = [''alice'']"
    using i(1) by (auto simp: create_platform_identity_def none exists_where_def Let_def)
  then obtain r where r: "platform_rows d' = [r]" "pi_server r = 1" "pi_pseudonym r = ''alice''" by auto
  obtain res d'' where c: "create_platform_identity 6 d' 1 ''bob'' RoleCode.AiAgent = (res, d'')"
    by (cases "create_platform_identity 6 d' 1 ''bob'' RoleCode.AiAgent")
  obtain j where "res = Inr j" "pf_capabilities j = default_capabilities"
    using create_platform_identity_founder [OF i(2) c] r by (simp, blast)
  with i c show ?thesis by blast
qed

text \<open>
  Founder repair: whatever operations came before, after \<open>ensure_founder\<close> the server has
  an active moderator if it has any active identity. It answers true exactly when it
  promoted one, it promotes only the active identity with the smallest id, leaving its
  \<open>can_bridge\<close> flag and every other row alone, and calling it again changes nothing.
\<close>

theorem ensure_founder_heals:
  assumes "d = fold platform_step ops (migrated_db t0)" and "ensure_founder now d s = (b, d')"
  shows "(\<exists>r \<in> set (platform_rows d). pi_server r = s \<and> pi_active r) =
      exists_where (active_moderator s) (platform_rows d')
    \<and> (b \<longleftrightarrow> \<not> exists_where (active_moderator s) (platform_rows d)
              \<and> (\<exists>r \<in> set (platform_rows d). pi_server r = s \<and> pi_active r))
    \<and> (if b then \<exists>r \<in> set (platform_rows d). pi_server r = s \<and> pi_active r
          \<and> (\<forall>r' \<in> set (platform_rows d). pi_server r' = s \<and> pi_active r' \<longrightarrow> pi_id r \<le> pi_id r')
          \<and> platform_rows d' = map (\<lambda>x. if x = r then r\<lparr>pi_caps := promote (pi_caps r), pi_updated := now\<rparr> else x)
              (platform_rows d)
       else d' = d)
    \<and> ensure_founder now' d' s = (False, d')"
proof -
  have ok: "platform_ok d"
    unfolding assms(1) by (rule platform_machine.run_inv [OF platform_ok_migrated])
  have stable: "ensure_founder now' d' s = (False, d')"
    if "exists_where (active_moderator s) (platform_rows d')"
    using that by (simp add: ensure_founder_def)
  show ?thesis
  proof (cases "exists_where (active_moderator s) (platform_rows d)")
    case True
    then have "b = False" "d' = d" using assms(2) by (simp_all add: ensure_founder_def)
    with True stable show ?thesis by (auto simp: exists_where_iff)
  next
    case none: False
    show ?thesis
    proof (cases "min_active_id d s")
      case None
      then have "b = False" "d' = d"
        using assms(2) none by (simp_all add: ensure_founder_def count_where_def update_where_def
            auto_update_def)
      moreover have "ensure_founder now' d s = (False, d)"
        using None none by (simp add: ensure_founder_def count_where_def update_where_def auto_update_def)
      ultimately show ?thesis using None none min_active_id_None [of d s] by (auto simp: exists_where_iff)
    next
      case (Some i)
      then obtain r0 where r0: "r0 \<in> set (platform_rows d)" "pi_server r0 = s" "pi_active r0"
        using min_active_id_Some by blast
      obtain r where r: "r \<in> set (platform_rows d)" "pi_server r = s" "pi_active r"
        and least: "\<forall>r' \<in> set (platform_rows d). pi_server r' = s \<and> pi_active r' \<longrightarrow> pi_id r \<le> pi_id r'"
        and e: "ensure_founder now d s = (True, d\<lparr>platform_identities := auto_update (\<lambda>x. pi_id x = pi_id r)
           (\<lambda>r. r\<lparr>pi_caps := promote (pi_caps r), pi_updated := now\<rparr>) (platform_identities d)\<rparr>)"
        by (rule ensure_founder_promotes [OF none r0, where now = now])
      let ?f = "\<lambda>x. if x = r then r\<lparr>pi_caps := promote (pi_caps r), pi_updated := now\<rparr> else x"
      have b: b using e assms(2) by simp
      have "distinct (map pi_id (platform_rows d))"
        using ok by (simp add: platform_ok_def auto_wf_distinct)
      then have uniq: "pi_id x = pi_id r \<longleftrightarrow> x = r" if "x \<in> set (platform_rows d)" for x
        using that r(1) by (auto simp: distinct_map dest: inj_onD)
      have rows: "platform_rows d' = map ?f (platform_rows d)"
        using e assms(2) uniq by (auto simp: update_where_def)
      have "?f r \<in> set (platform_rows d')" unfolding rows set_map using r(1) by (rule imageI)
      moreover have "active_moderator s (?f r)" using r(2,3) by simp
      ultimately have mod: "exists_where (active_moderator s) (platform_rows d')"
        unfolding exists_where_iff by (rule rev_bexI)
      show ?thesis using b mod stable [OF mod] none r0 r least rows by auto
    qed
  qed
qed

theorem ensure_founder_heals_witness:
  "\<exists>d d'. d = fold platform_step [CreateIdentity 1 7 ''a'' RoleCode.Human, CreateIdentity 2 7 ''b'' RoleCode.Human,
        Deactivate 3 7 ''a''] (migrated_db 0)
     \<and> \<not> exists_where (active_moderator 7) (platform_rows d)
     \<and> ensure_founder 4 d 7 = (True, d') \<and> exists_where (active_moderator 7) (platform_rows d')"
proof -
  define d where "d = fold platform_step [CreateIdentity 1 7 ''a'' RoleCode.Human,
    CreateIdentity 2 7 ''b'' RoleCode.Human, Deactivate 3 7 ''a''] (migrated_db 0)"
  have none: "\<not> exists_where (active_moderator 7) (platform_rows d)"
    and act: "\<exists>r \<in> set (platform_rows d). pi_server r = 7 \<and> pi_active r"
    by (simp_all add: d_def create_platform_identity_def deactivate_platform_identity_def migrated_db_def
        exists_where_def Let_def founder_flag_def count_where_def update_where_def)
  obtain b d' where e: "ensure_founder 4 d 7 = (b, d')" by (cases "ensure_founder 4 d 7")
  have "b \<and> exists_where (active_moderator 7) (platform_rows d')"
    using ensure_founder_heals [OF d_def e] none act by blast
  with e none d_def show ?thesis by auto
qed

text \<open>
  Authentication: a request passes exactly when the \<open>X-Annex-Pseudonym\<close> header, or in its
  absence the bearer token of the \<open>Authorization\<close> header, is the pseudonym of an active
  identity of this server, and the database calls succeed; the identity passed on is that row.
  Every refusal is \<open>UNAUTHORIZED\<close>, save a failing connection pool, and deactivating an identity locks it out.
\<close>

theorem auth_middleware_spec:
  assumes "platform_ok d"
  shows "(auth_middleware flt d s h a = Inr i \<longleftrightarrow> \<not> flt 0 \<and> \<not> flt 1 \<and>
      (\<exists>p r role. (h = Header p \<or> h = Absent \<and> a = Header (''Bearer '' @ p))
         \<and> r \<in> set (platform_rows d) \<and> pi_server r = s \<and> pi_pseudonym r = p \<and> pi_active r
         \<and> pi_type r = label role \<and> i = identity_of r role))
    \<and> (auth_middleware flt d s h a = Inl e \<longrightarrow> e = UNAUTHORIZED \<or> flt 0 \<and> e = INTERNAL_SERVER_ERROR)
    \<and> (\<not> is_ok (auth_middleware flt (snd (deactivate_platform_identity now d s p)) s (Header p) a))"
proof (intro conjI)
  show "auth_middleware flt d s h a = Inr i \<longleftrightarrow> \<not> flt 0 \<and> \<not> flt 1 \<and>
      (\<exists>p r role. (h = Header p \<or> h = Absent \<and> a = Header (''Bearer '' @ p))
         \<and> r \<in> set (platform_rows d) \<and> pi_server r = s \<and> pi_pseudonym r = p \<and> pi_active r
         \<and> pi_type r = label role \<and> i = identity_of r role)"
    unfolding auth_middleware_Inr auth_token_Inr get_platform_identity_iff [OF assms]
    by (intro iffI; elim exE conjE; intro exI conjI; simp)
  show "auth_middleware flt d s h a = Inl e \<longrightarrow> e = UNAUTHORIZED \<or> flt 0 \<and> e = INTERNAL_SERVER_ERROR" by (simp add: auth_middleware_Inl)
  let ?d = "snd (deactivate_platform_identity now d s p)"
  have ok': "platform_ok ?d"
    using platform_machine.step_inv [OF assms, of "Deactivate now s p"] by simp
  have rows: "platform_rows ?d = update_where (\<lambda>r. pi_server r = s \<and> pi_pseudonym r = p)
      (\<lambda>r. r\<lparr>pi_active := False, pi_updated := now\<rparr>) (platform_rows d)"
    by (simp add: deactivate_platform_identity_def Let_def)
  have off: "\<not> pi_active r" if "r \<in> set (platform_rows ?d)" "pi_server r = s" "pi_pseudonym r = p" for r
  proof -
    have "\<exists>r0 \<in> set (platform_rows d). (pi_server r0 = s \<and> pi_pseudonym r0 = p)
        \<and> r = r0\<lparr>pi_active := False, pi_updated := now\<rparr>"
      by (rule update_where_hit [OF that(1) [unfolded rows]]) (simp add: that(2,3))
    then show ?thesis by (elim bexE conjE) simp
  qed
  show "\<not> is_ok (auth_middleware flt ?d s (Header p) a)"
  proof
    assume "is_ok (auth_middleware flt ?d s (Header p) a)"
    then obtain i where "get_platform_identity ?d s p = Inr i" "pf_active i"
      unfolding is_ok_def auth_middleware_Inr auth_token_Inr by blast
    with off show False unfolding get_platform_identity_iff [OF ok'] by (elim exE conjE) simp
  qed
qed

theorem auth_middleware_spec_witness:
  "\<exists>i. auth_middleware no_faults (snd (create_platform_identity 5 (migrated_db 0) 1 ''alice'' RoleCode.Human)) 1
      Absent (Header ''Bearer alice'') = Inr i
    \<and> can_moderate (pf_capabilities i)
    \<and> auth_middleware no_faults (snd (create_platform_identity 5 (migrated_db 0) 1 ''alice'' RoleCode.Human)) 1
        Absent (Header ''Basic alice'') = Inl UNAUTHORIZED"
proof -
  let ?d = "snd (create_platform_identity 5 (migrated_db 0) 1 ''alice'' RoleCode.Human)"
  have ok: "platform_ok ?d" by (rule platform_ok_create [OF platform_ok_migrated])
  let ?r = "hd (platform_rows ?d)"
  have r: "platform_rows ?d = [?r]" "pi_server ?r = 1" "pi_pseudonym ?r = ''alice''" "pi_active ?r"
    "pi_type ?r = label RoleCode.Human" "can_moderate (pi_caps ?r)"
    by (simp_all add: create_platform_identity_def migrated_db_def exists_where_def Let_def
        founder_flag_def count_where_def)
  have "?r \<in> set (platform_rows ?d)" by (subst r(1)) simp
  then have a: "auth_middleware no_faults ?d 1 Absent (Header ''Bearer alice'') = Inr (identity_of ?r RoleCode.Human)"
    using auth_middleware_spec [OF ok, of no_faults 1 Absent "Header ''Bearer alice''" "identity_of ?r RoleCode.Human"] r(2-5)
    by (simp add: no_faults_def, blast)
  have b: "auth_middleware no_faults ?d 1 Absent (Header ''Basic alice'') = Inl UNAUTHORIZED"
    by (simp add: auth_middleware_def auth_token_def strip_prefix_def)
  from a b r(6) show ?thesis by (intro exI [of _ "identity_of ?r RoleCode.Human"]) (simp add: identity_of_def)
qed

end
