(* ===== verification/Annex_Semantic.thy ===== *)
theory Annex_Semantic
  imports Annex_Platform
begin

text \<open>
  Crate \<open>annex-vrp\<close>, file \<open>semantic.rs\<close>: the bag-of-words embedder and the similarity of two
  lists of principles, computed in single precision with the order of operations of the
  source (every arithmetic result is rounded by \<^const>\<open>f32\<close>; see \<open>Rust_Float\<close>).

  Lowercasing and the split at non-alphanumeric characters depend on the Unicode tables and
  are the fields of the record \<open>unicode\<close>. An embedder (the trait \<open>SemanticEmbedder\<close>) is a
  function from texts to vectors or an error message. The vocabulary, a hash map from words
  to indices, is the association list in the order in which \<open>build_vocab\<close> fills it.
\<close>

section \<open>Tokens and vocabulary\<close>

record unicode =
  to_lowercase :: "string \<Rightarrow> string"
  split_words :: "string \<Rightarrow> string list"

definition tokenize :: "unicode \<Rightarrow> string \<Rightarrow> string list" where
  "tokenize U text = filter (\<lambda>w. 2 \<le> length w) (split_words U (to_lowercase U text))"

type_synonym vocab = "(string \<times> nat) list"

text \<open>The words pass through a \<open>BTreeSet\<close>: sorted, each once.\<close>

definition build_vocab :: "unicode \<Rightarrow> string list \<Rightarrow> vocab" where
  "build_vocab U texts =
     (let sorted_words = sort (remdups (concat (map (tokenize U) texts)))
      in zip sorted_words [0..<length sorted_words])"

section \<open>Embedding\<close>

type_synonym embedder = "string \<Rightarrow> string + rat list"

text \<open>\<open>iter().sum::<f32>()\<close> adds from the left.\<close>

definition f32_sum :: "rat list \<Rightarrow> rat" where
  "f32_sum xs = foldl (\<lambda>a x. f32 (a + x)) 0 xs"

definition f32_norm :: "rat list \<Rightarrow> rat" where
  "f32_norm xs = f32_sqrt (f32_sum (map (\<lambda>v. f32 (v * v)) xs))"

fun count_words :: "vocab \<Rightarrow> string list \<Rightarrow> rat list \<Rightarrow> rat list" where
  "count_words vocab [] vec = vec"
| "count_words vocab (w # ws) vec =
     count_words vocab ws
       (case map_of vocab w of None \<Rightarrow> vec | Some idx \<Rightarrow> vec[idx := f32 (vec ! idx + 1)])"

definition embed :: "unicode \<Rightarrow> vocab \<Rightarrow> embedder" where
  "embed U vocab text =
     (if vocab = [] then Inl ''Vocabulary not built - call build_vocab first''
      else
        let vec = count_words vocab (tokenize U text) (replicate (length vocab) 0);
            norm = f32_norm vec
        in Inr (if 0 < norm then map (\<lambda>v. f32 (v / norm)) vec else vec))"

text \<open>The mock embedder: a table from texts to vectors, a later entry replacing an earlier one.\<close>

definition mock_insert :: "(string \<times> rat list) list \<Rightarrow> string \<Rightarrow> rat list \<Rightarrow> (string \<times> rat list) list" where
  "mock_insert es text vector = (text, vector) # es"

definition mock_embed :: "(string \<times> rat list) list \<Rightarrow> embedder" where
  "mock_embed es text = ok_or (map_of es text) (''No embedding found for: '' @ text)"

section \<open>Similarity\<close>

definition cosine_similarity :: "rat list \<Rightarrow> rat list \<Rightarrow> rat" where
  "cosine_similarity a b =
     (if length a \<noteq> length b \<or> a = [] then 0
      else
        let dot_product = f32_sum (map (\<lambda>(x, y). f32 (x * y)) (zip a b));
            norm_a = f32_norm a;
            norm_b = f32_norm b
        in if norm_a = 0 \<or> norm_b = 0 then 0
           else f32 (dot_product / f32 (norm_a * norm_b)))"

fun centroid_loop :: "embedder \<Rightarrow> string list \<Rightarrow> rat list \<Rightarrow> nat \<Rightarrow> string + (rat list \<times> nat)" where
  "centroid_loop e [] sum_vec n = Inr (sum_vec, n)"
| "centroid_loop e (p # ps) sum_vec n =
     and_then (e p) (\<lambda>embedding.
       if sum_vec = [] then centroid_loop e ps embedding (n + 1)
       else if length sum_vec \<noteq> length embedding then Inl ''Embedding dimension mismatch''
       else centroid_loop e ps (map2 (\<lambda>a b. f32 (a + b)) sum_vec embedding) (n + 1))"

definition compute_centroid :: "string list \<Rightarrow> embedder \<Rightarrow> string + rat list" where
  "compute_centroid texts e =
     (if texts = [] then Inr []
      else and_then (centroid_loop e texts [] 0) (\<lambda>(sum_vec, n).
        if n = 0 then Inr []
        else Inr (map (\<lambda>val. f32 (val / f32 (of_nat n))) sum_vec)))"

definition calculate_semantic_alignment :: "string list \<Rightarrow> string list \<Rightarrow> embedder \<Rightarrow> string + rat" where
  "calculate_semantic_alignment local_principles remote_principles e =
     (if local_principles = [] \<and> remote_principles = [] then Inr 1
      else if local_principles = [] \<or> remote_principles = [] then Inr 0
      else and_then (compute_centroid local_principles e) (\<lambda>local_centroid.
        and_then (compute_centroid remote_principles e) (\<lambda>remote_centroid.
          if local_centroid = [] \<or> remote_centroid = [] then Inr 0
          else Inr (cosine_similarity local_centroid remote_centroid))))"

section \<open>Vocabulary\<close>

lemma build_vocab_words: "map fst (build_vocab U texts) = sorted_list_of_set (\<Union>t \<in> set texts. set (tokenize U t))"
  by (simp add: build_vocab_def Let_def sorted_list_of_set_sort_remdups [symmetric])

text \<open>The vocabulary depends on the set of texts only, so both sides of a comparison build the same.\<close>

lemma build_vocab_cong: "set ts = set ts' \<Longrightarrow> build_vocab U ts = build_vocab U ts'"
proof -
  assume "set ts = set ts'"
  then have "sort (remdups (concat (map (tokenize U) ts))) = sort (remdups (concat (map (tokenize U) ts')))"
    unfolding sorted_list_of_set_sort_remdups [symmetric] by simp
  then show ?thesis by (simp add: build_vocab_def)
qed

lemma build_vocab_index:
  "map_of (build_vocab U ts) w = Some i \<Longrightarrow> i < length (build_vocab U ts)"
  by (auto simp: build_vocab_def Let_def dest!: map_of_SomeD set_zip_rightD)

lemma build_vocab_known:
  assumes "t \<in> set ts" and "w \<in> set (tokenize U t)"
  shows "\<exists>i. map_of (build_vocab U ts) w = Some i"
proof -
  have "w \<in> set (map fst (build_vocab U ts))"
    unfolding build_vocab_words using assms by auto
  then show ?thesis by (auto simp: weak_map_of_SomeI)
qed

section \<open>Vectors\<close>

lemma zip_both: "(x, y) \<in> set (zip xs ys) \<Longrightarrow> x \<in> set xs \<and> y \<in> set ys"
  by (auto dest: set_zip_leftD set_zip_rightD)

lemma f32_sum_nonneg: "\<forall>x \<in> set xs. 0 \<le> x \<Longrightarrow> 0 \<le> f32_sum xs"
proof -
  have "\<forall>x \<in> set xs. 0 \<le> x \<Longrightarrow> 0 \<le> a \<Longrightarrow> 0 \<le> foldl (\<lambda>a x. f32 (a + x)) a xs" for a
  proof (induction xs arbitrary: a)
    case (Cons x xs)
    then have "0 \<le> f32 (a + x)" by (intro f32_nonneg add_nonneg_nonneg) auto
    with Cons show ?case by simp
  qed simp
  then show "\<forall>x \<in> set xs. 0 \<le> x \<Longrightarrow> 0 \<le> f32_sum xs" by (simp add: f32_sum_def)
qed

lemma f32_norm_nonneg: "0 \<le> f32_norm xs"
  by (simp add: f32_norm_def f32_sqrt_nonneg)

lemma count_words_length [simp]: "length (count_words v ws vec) = length vec"
  by (induction ws arbitrary: vec) (auto split: option.split)

lemma count_words_nonneg: "\<forall>x \<in> set vec. 0 \<le> x \<Longrightarrow> \<forall>x \<in> set (count_words v ws vec). 0 \<le> x"
proof (induction ws arbitrary: vec)
  case (Cons w ws)
  have upd: "\<forall>x \<in> set (vec[i := f32 (vec ! i + 1)]). 0 \<le> x" for i
  proof (cases "i < length vec")
    case True
    then have "0 \<le> f32 (vec ! i + 1)" using Cons.prems by (intro f32_nonneg add_nonneg_nonneg) auto
    then show ?thesis using Cons.prems set_update_subset_insert [of vec i] by blast
  next
    case False
    then show ?thesis using Cons.prems by (simp add: list_update_beyond)
  qed
  then have "\<forall>x \<in> set (case map_of v w of None \<Rightarrow> vec | Some idx \<Rightarrow> vec[idx := f32 (vec ! idx + 1)]). 0 \<le> x"
    using Cons.prems by (simp split: option.split)
  from Cons.IH [OF this] show ?case by simp
qed simp

lemma embed_nonneg: "embed U v t = Inr xs \<Longrightarrow> length xs = length v \<and> (\<forall>x \<in> set xs. 0 \<le> x)"
  using count_words_nonneg [of "replicate (length v) 0" v "tokenize U t"]
  by (auto simp: embed_def Let_def f32_nonneg split: if_splits intro!: f32_nonneg divide_nonneg_pos)

section \<open>Symmetry\<close>

lemma cosine_similarity_commute: "cosine_similarity a b = cosine_similarity b a"
proof (cases "length a = length b \<and> a \<noteq> [] \<and> b \<noteq> []")
  case True
  have "map (\<lambda>(x, y). f32 (x * y)) (zip a b) = map (\<lambda>(x, y). f32 (x * y)) (zip b a)"
    by (rule nth_equalityI) (simp_all add: mult.commute)
  moreover have "f32_norm a * f32_norm b = f32_norm b * f32_norm a" by (rule mult.commute)
  ultimately show ?thesis
    using True by (simp only: cosine_similarity_def Let_def simp_thms if_False disj_commute)
next
  case False
  then have "length a \<noteq> length b \<or> a = []" "length b \<noteq> length a \<or> b = []" by auto
  then show ?thesis by (simp only: cosine_similarity_def if_True)
qed

lemma calculate_semantic_alignment_commute:
  assumes "calculate_semantic_alignment ps qs e = Inr x"
  shows "calculate_semantic_alignment qs ps e = Inr x"
proof (cases "ps = [] \<or> qs = []")
  case True
  with assms show ?thesis by (auto simp: calculate_semantic_alignment_def split: if_splits)
next
  case False
  with assms obtain a b where c: "compute_centroid ps e = Inr a" "compute_centroid qs e = Inr b"
    and x: "(if a = [] \<or> b = [] then Inr 0 else Inr (cosine_similarity a b)) = (Inr x :: string + rat)"
    by (auto simp: calculate_semantic_alignment_def and_then_Inr)
  have "cosine_similarity b a = cosine_similarity a b" by (rule cosine_similarity_commute)
  with x have "(if b = [] \<or> a = [] then Inr 0 else Inr (cosine_similarity b a)) = (Inr x :: string + rat)"
    by (auto split: if_splits)
  with False c show ?thesis by (simp add: calculate_semantic_alignment_def)
qed

lemma cosine_similarity_nonneg:
  assumes "\<forall>x \<in> set a. 0 \<le> x" and "\<forall>x \<in> set b. 0 \<le> x"
  shows "0 \<le> cosine_similarity a b"
proof -
  have "0 \<le> f32_sum (map (\<lambda>(x, y). f32 (x * y)) (zip a b))"
    using assms by (intro f32_sum_nonneg) (auto dest!: zip_both intro!: f32_nonneg mult_nonneg_nonneg)
  then show ?thesis
    by (auto simp: cosine_similarity_def Let_def f32_norm_nonneg intro!: f32_nonneg divide_nonneg_nonneg)
qed

lemma centroid_loop_nonneg:
  assumes e: "\<And>p xs. e p = Inr xs \<Longrightarrow> \<forall>x \<in> set xs. 0 \<le> x"
  shows "centroid_loop e ps acc k = Inr (s, n) \<Longrightarrow> \<forall>x \<in> set acc. 0 \<le> x \<Longrightarrow> \<forall>x \<in> set s. 0 \<le> x"
proof (induction ps arbitrary: acc k)
  case (Cons p ps)
  from Cons.prems(1) obtain em where em: "e p = Inr em" by (auto simp: and_then_Inr)
  let ?acc = "if acc = [] then em else map2 (\<lambda>a b. f32 (a + b)) acc em"
  have "\<forall>x \<in> set ?acc. 0 \<le> x"
    using e [OF em] Cons.prems(2) by (auto dest!: zip_both intro!: f32_nonneg add_nonneg_nonneg)
  moreover have "centroid_loop e ps ?acc (k + 1) = Inr (s, n)"
    using Cons.prems(1) em by (auto split: if_splits)
  ultimately show ?case using Cons.IH by blast
qed auto

lemma compute_centroid_nonneg:
  assumes "\<And>p xs. e p = Inr xs \<Longrightarrow> \<forall>x \<in> set xs. 0 \<le> x" and "compute_centroid ps e = Inr c"
  shows "\<forall>x \<in> set c. 0 \<le> x"
proof (cases "ps = []")
  case False
  with assms(2) obtain s n where s: "centroid_loop e ps [] 0 = Inr (s, n)"
    "c = (if n = 0 then [] else map (\<lambda>val. f32 (val / f32 (of_nat n))) s)"
    by (auto simp: compute_centroid_def and_then_Inr split: if_splits)
  have "\<forall>x \<in> set s. 0 \<le> x" using centroid_loop_nonneg [OF assms(1) s(1)] by simp
  then show ?thesis using s(2) by (auto intro!: f32_nonneg divide_nonneg_nonneg)
qed (use assms(2) in \<open>simp add: compute_centroid_def\<close>)

text \<open>A centroid of words that were all counted is never refused.\<close>

lemma centroid_loop_total:
  assumes "\<And>p. \<exists>xs. e p = Inr xs \<and> length xs = k" and "acc = [] \<or> length acc = k"
  shows "\<exists>s. centroid_loop e ps acc n = Inr (s, n + length ps) \<and> (ps \<noteq> [] \<longrightarrow> length s = k) \<and> (ps = [] \<longrightarrow> s = acc)"
  using assms(2)
proof (induction ps arbitrary: acc n)
  case (Cons p ps)
  obtain xs where xs: "e p = Inr xs" "length xs = k" using assms(1) by blast
  let ?acc = "if acc = [] then xs else map2 (\<lambda>a b. f32 (a + b)) acc xs"
  have "?acc = [] \<or> length ?acc = k" using xs(2) Cons.prems by auto
  from Cons.IH [OF this, of "n + 1"] obtain s where s: "centroid_loop e ps ?acc (n + 1) = Inr (s, n + 1 + length ps)"
    "ps \<noteq> [] \<longrightarrow> length s = k" "ps = [] \<longrightarrow> s = ?acc" by blast
  have "length s = k" using s(2,3) xs(2) Cons.prems by (cases "ps = []") auto
  then show ?case using s(1) xs Cons.prems by auto
qed simp

section \<open>Texts without a common word\<close>

text \<open>A vector whose non-zero entries are counts of the words of \<open>W\<close>.\<close>

definition counts_only :: "vocab \<Rightarrow> string set \<Rightarrow> rat list \<Rightarrow> bool" where
  "counts_only v W xs \<longleftrightarrow> length xs = length v \<and> (\<forall>i < length v. xs ! i \<noteq> 0 \<longrightarrow> fst (v ! i) \<in> W)"

lemma build_vocab_nth: "map_of (build_vocab U ts) w = Some i \<Longrightarrow> fst (build_vocab U ts ! i) = w"
  by (auto simp: build_vocab_def Let_def in_set_zip dest!: map_of_SomeD)

lemma counts_only_map: "counts_only v W xs \<Longrightarrow> f 0 = 0 \<Longrightarrow> counts_only v W (map f xs)"
  by (auto simp: counts_only_def)

lemma count_words_counts:
  "(\<And>w i. map_of v w = Some i \<Longrightarrow> fst (v ! i) = w) \<Longrightarrow> set ws \<subseteq> W \<Longrightarrow> counts_only v W xs \<Longrightarrow>
   counts_only v W (count_words v ws xs)"
proof (induction ws arbitrary: xs)
  case (Cons w ws)
  have "counts_only v W (case map_of v w of None \<Rightarrow> xs | Some i \<Rightarrow> xs[i := f32 (xs ! i + 1)])"
  proof (cases "map_of v w")
    case (Some i)
    have "fst (v ! i) \<in> W" using Cons.prems(1) [OF Some] Cons.prems(2) by simp
    then have "xs[i := f32 (xs ! i + 1)] ! j \<noteq> 0 \<longrightarrow> fst (v ! j) \<in> W" if "j < length v" for j
      using Cons.prems(3) that by (cases "i = j") (simp_all add: counts_only_def)
    then show ?thesis using Cons.prems(3) by (simp add: Some counts_only_def)
  qed (use Cons.prems(3) in simp)
  with Cons show ?case by simp
qed simp

lemma embed_counts:
  assumes "embed U (build_vocab U ts) t = Inr xs" and "set (tokenize U t) \<subseteq> W"
  shows "counts_only (build_vocab U ts) W xs"
proof -
  let ?v = "build_vocab U ts"
  have c: "counts_only ?v W (count_words ?v (tokenize U t) (replicate (length ?v) 0))"
    by (rule count_words_counts [OF build_vocab_nth assms(2)]) (auto simp: counts_only_def)
  then show ?thesis
    using assms(1) counts_only_map [OF c] by (auto simp: embed_def Let_def split: if_splits)
qed

lemma centroid_loop_counts:
  assumes "\<And>p xs. p \<in> set ps \<Longrightarrow> e p = Inr xs \<Longrightarrow> counts_only v W xs"
  shows "centroid_loop e ps acc k = Inr (s, n) \<Longrightarrow> acc = [] \<or> counts_only v W acc \<Longrightarrow> s = [] \<or> counts_only v W s"
  using assms
proof (induction ps arbitrary: acc k)
  case (Cons p ps)
  from Cons.prems(1) obtain em where em: "e p = Inr em" by (auto simp: and_then_Inr)
  have c: "counts_only v W em" by (rule Cons.prems(3) [OF _ em]) simp
  let ?acc = "if acc = [] then em else map2 (\<lambda>a b. f32 (a + b)) acc em"
  have "counts_only v W ?acc"
  proof (cases "acc = []")
    case False
    with c Cons.prems(2) have l: "length acc = length v" "length em = length v"
      and z: "i < length v \<Longrightarrow> fst (v ! i) \<notin> W \<Longrightarrow> acc ! i = 0 \<and> em ! i = 0" for i
      by (auto simp: counts_only_def)
    have "fst (v ! i) \<in> W" if "i < length v" "f32 (acc ! i + em ! i) \<noteq> 0" for i
      using z [OF that(1)] that(2) by (cases "fst (v ! i) \<in> W") simp_all
    with l False show ?thesis by (simp add: counts_only_def)
  qed (use c in simp)
  moreover have "centroid_loop e ps ?acc (k + 1) = Inr (s, n)"
    using Cons.prems(1) em by (auto split: if_splits)
  ultimately show ?case using Cons.IH Cons.prems(3) by auto
qed auto

lemma compute_centroid_counts:
  assumes "compute_centroid ps (embed U (build_vocab U ts)) = Inr c" and "\<forall>p \<in> set ps. set (tokenize U p) \<subseteq> W"
  shows "c = [] \<or> counts_only (build_vocab U ts) W c"
proof (cases "ps = []")
  case False
  with assms(1) obtain s n where s: "centroid_loop (embed U (build_vocab U ts)) ps [] 0 = Inr (s, n)"
    "c = (if n = 0 then [] else map (\<lambda>val. f32 (val / f32 (of_nat n))) s)"
    by (auto simp: compute_centroid_def and_then_Inr split: if_splits)
  have "s = [] \<or> counts_only (build_vocab U ts) W s"
    by (rule centroid_loop_counts [OF _ s(1)]) (use embed_counts assms(2) in blast, simp)
  then show ?thesis using s(2) counts_only_map by auto
qed (use assms(1) in \<open>simp add: compute_centroid_def\<close>)

lemma f32_sum_zeros: "\<forall>x \<in> set xs. x = 0 \<Longrightarrow> f32_sum xs = 0"
  unfolding f32_sum_def by (induction xs) simp_all

lemma cosine_disjoint:
  assumes "counts_only v W a" and "counts_only v W' b" and "W \<inter> W' = {}"
  shows "cosine_similarity a b = 0"
proof -
  have l: "length a = length v" "length b = length v" using assms(1,2) by (simp_all add: counts_only_def)
  have "f32 (a ! i * b ! i) = 0" if "i < length v" for i
  proof -
    have "a ! i = 0 \<or> b ! i = 0" using assms that by (auto simp: counts_only_def)
    then show ?thesis by auto
  qed
  then have "\<forall>x \<in> set (map (\<lambda>(x, y). f32 (x * y)) (zip a b)). x = 0"
    using l by (auto simp: set_zip)
  from f32_sum_zeros [OF this] show ?thesis by (simp add: cosine_similarity_def Let_def)
qed

text \<open>Two lists of principles that have no word in common score zero.\<close>

lemma disjoint_score:
  assumes "calculate_semantic_alignment ps qs (embed U (build_vocab U (ps @ qs))) = Inr score"
    and "ps \<noteq> []" and "qs \<noteq> []" and "\<forall>p \<in> set ps. \<forall>q \<in> set qs. set (tokenize U p) \<inter> set (tokenize U q) = {}"
  shows "score = 0"
proof -
  obtain a b where c: "compute_centroid ps (embed U (build_vocab U (ps @ qs))) = Inr a"
    "compute_centroid qs (embed U (build_vocab U (ps @ qs))) = Inr b"
    and x: "a = [] \<or> b = [] \<longrightarrow> score = 0" "\<not> (a = [] \<or> b = []) \<longrightarrow> score = cosine_similarity a b"
    using assms(1-3) by (auto simp: calculate_semantic_alignment_def and_then_Inr split: if_splits)
  have "a = [] \<or> counts_only (build_vocab U (ps @ qs)) (\<Union>p \<in> set ps. set (tokenize U p)) a"
    "b = [] \<or> counts_only (build_vocab U (ps @ qs)) (\<Union>q \<in> set qs. set (tokenize U q)) b"
    by (rule compute_centroid_counts [OF c(1)], blast) (rule compute_centroid_counts [OF c(2)], blast)
  with x cosine_disjoint assms(4) show ?thesis by (cases "a = [] \<or> b = []") (blast | fastforce)+
qed

text \<open>The vocabulary is empty when no text has a word of two or more bytes.\<close>

lemma build_vocab_Nil: "build_vocab U ts = [] \<longleftrightarrow> (\<forall>t \<in> set ts. tokenize U t = [])"
proof -
  have "length (build_vocab U ts) = length (sort (remdups (concat (map (tokenize U) ts))))"
    by (simp only: build_vocab_def Let_def length_zip length_upt minus_nat.diff_0 min.idem)
  then have "build_vocab U ts = [] \<longleftrightarrow> sort (remdups (concat (map (tokenize U) ts))) = []"
    by (metis length_0_conv)
  also have "\<dots> \<longleftrightarrow> concat (map (tokenize U) ts) = []"
    by (metis length_0_conv length_sort remdups_eq_nil_iff)
  also have "\<dots> \<longleftrightarrow> (\<forall>t \<in> set ts. tokenize U t = [])" by auto
  finally show ?thesis .
qed

end
