(* ===== verification/Annex_Vrp.thy ===== *)
theory Annex_Vrp
  imports Annex_Semantic "HOL-Library.Multiset"
begin

text \<open>
  Crate \<open>annex-vrp\<close>, files \<open>types.rs\<close>, \<open>lib.rs\<close> and \<open>server_root.rs\<close>: the anchors of two
  servers, their comparison, the capability contracts, the negotiated transfer scope and the
  gate that later transfers pass.

  The system clock is an argument, \<open>None\<close> when it is before the epoch. Scores are the
  rationals that single-precision floats denote, so a configured minimum score is a number.
\<close>

section \<open>Types (types.rs)\<close>

datatype VrpAlignmentStatus = Aligned | Partial | Conflict

fun status_to_string :: "VrpAlignmentStatus \<Rightarrow> string" where
  "status_to_string VrpAlignmentStatus.Aligned = ''ALIGNED''"
| "status_to_string VrpAlignmentStatus.Partial = ''PARTIAL''"
| "status_to_string VrpAlignmentStatus.Conflict = ''CONFLICT''"

definition status_from_str :: "string \<Rightarrow> string + VrpAlignmentStatus" where
  "status_from_str s =
     (if s = ''ALIGNED'' then Inr VrpAlignmentStatus.Aligned
      else if s = ''PARTIAL'' then Inr VrpAlignmentStatus.Partial
      else if s = ''CONFLICT'' then Inr VrpAlignmentStatus.Conflict
      else Inl (''unknown alignment status: '' @ s))"

datatype VrpTransferScope = NoTransfer | ReflectionSummariesOnly | FullKnowledgeBundle

text \<open>The derived \<open>Ord\<close> is the order of the constructors.\<close>

fun scope_rank :: "VrpTransferScope \<Rightarrow> nat" where
  "scope_rank VrpTransferScope.NoTransfer = 0"
| "scope_rank VrpTransferScope.ReflectionSummariesOnly = 1"
| "scope_rank VrpTransferScope.FullKnowledgeBundle = 2"

lemma scope_rank_inj: "scope_rank a = scope_rank b \<longleftrightarrow> a = b"
  by (cases a; cases b) simp_all

instantiation VrpTransferScope :: linorder
begin

definition less_eq_VrpTransferScope :: "VrpTransferScope \<Rightarrow> VrpTransferScope \<Rightarrow> bool" where
  "less_eq_VrpTransferScope a b = (scope_rank a \<le> scope_rank b)"

definition less_VrpTransferScope :: "VrpTransferScope \<Rightarrow> VrpTransferScope \<Rightarrow> bool" where
  "less_VrpTransferScope a b = (scope_rank a < scope_rank b)"

instance
  by standard (auto simp: less_eq_VrpTransferScope_def less_VrpTransferScope_def scope_rank_inj)

end

fun scope_to_string :: "VrpTransferScope \<Rightarrow> string" where
  "scope_to_string VrpTransferScope.NoTransfer = ''NO_TRANSFER''"
| "scope_to_string VrpTransferScope.ReflectionSummariesOnly = ''REFLECTION_SUMMARIES_ONLY''"
| "scope_to_string VrpTransferScope.FullKnowledgeBundle = ''FULL_KNOWLEDGE_BUNDLE''"

definition scope_from_str :: "string \<Rightarrow> string + VrpTransferScope" where
  "scope_from_str s =
     (if s = ''NO_TRANSFER'' then Inr VrpTransferScope.NoTransfer
      else if s = ''REFLECTION_SUMMARIES_ONLY'' then Inr VrpTransferScope.ReflectionSummariesOnly
      else if s = ''FULL_KNOWLEDGE_BUNDLE'' then Inr VrpTransferScope.FullKnowledgeBundle
      else Inl (''unknown transfer scope: '' @ s))"

record VrpAnchorSnapshot =
  principles_hash :: string
  prohibited_actions_hash :: string
  an_timestamp :: u64
  an_principles :: "string list"
  an_prohibited_actions :: "string list"

record VrpCapabilitySharingContract =
  required_capabilities :: "string list"
  offered_capabilities :: "string list"
  redacted_topics :: "string list"

record VrpFederationHandshake =
  anchor_snapshot :: VrpAnchorSnapshot
  capability_contract :: VrpCapabilitySharingContract

record VrpAlignmentConfig =
  semantic_alignment_required :: bool
  min_alignment_score :: rat

record VrpTransferAcceptanceConfig =
  allow_reflection_summaries :: bool
  allow_full_knowledge :: bool

record VrpValidationReport =
  alignment_status :: VrpAlignmentStatus
  transfer_scope :: VrpTransferScope
  alignment_score :: rat
  negotiation_notes :: "string list"

datatype VrpError = SystemClockInvalid

datatype VrpTransferAcceptanceError = Rejected string | Conflict

section \<open>Anchors (lib.rs, server\_root.rs)\<close>

text \<open>\<open>u64::to_be_bytes\<close>, for \<open>k\<close> bytes.\<close>

fun be_bytes :: "nat \<Rightarrow> nat \<Rightarrow> bytes" where
  "be_bytes 0 n = []"
| "be_bytes (Suc k) n = be_bytes k (n div 256) @ [char_of (n mod 256)]"

definition list_preimage :: "string list \<Rightarrow> bytes" where
  "list_preimage items = concat (map (\<lambda>item. be_bytes 8 (length item mod 2 ^ 64) @ item) (sort items))"

definition hash_list :: "'f crypto \<Rightarrow> string list \<Rightarrow> string" where
  "hash_list C items = hex_encode C (sha256 C (list_preimage items))"

definition new_snapshot ::
  "'f crypto \<Rightarrow> u64 option \<Rightarrow> string list \<Rightarrow> string list \<Rightarrow> VrpError + VrpAnchorSnapshot" where
  "new_snapshot C clock ps prohibited =
     and_then (ok_or clock SystemClockInvalid) (\<lambda>timestamp.
       Inr \<lparr>principles_hash = hash_list C ps,
            prohibited_actions_hash = hash_list C prohibited,
            an_timestamp = timestamp,
            an_principles = ps,
            an_prohibited_actions = prohibited\<rparr>)"

record ServerPolicyRoot =
  root_principles :: "string list"
  root_prohibited_actions :: "string list"

definition from_policy :: "ServerPolicy \<Rightarrow> ServerPolicyRoot" where
  "from_policy p = \<lparr>root_principles = principles p, root_prohibited_actions = prohibited_actions p\<rparr>"

definition to_anchor_snapshot :: "'f crypto \<Rightarrow> u64 option \<Rightarrow> ServerPolicyRoot \<Rightarrow> VrpError + VrpAnchorSnapshot" where
  "to_anchor_snapshot C clock r = new_snapshot C clock (root_principles r) (root_prohibited_actions r)"

definition compare_peer_anchor ::
  "unicode \<Rightarrow> VrpAnchorSnapshot \<Rightarrow> VrpAnchorSnapshot \<Rightarrow> VrpAlignmentConfig \<Rightarrow> VrpAlignmentStatus" where
  "compare_peer_anchor U l r config =
     (if principles_hash l = principles_hash r \<and> prohibited_actions_hash l = prohibited_actions_hash r
      then VrpAlignmentStatus.Aligned
      else if prohibited_actions_hash l \<noteq> prohibited_actions_hash r
      then VrpAlignmentStatus.Conflict
      else if semantic_alignment_required config \<and> an_principles l \<noteq> [] \<and> an_principles r \<noteq> []
      then (case calculate_semantic_alignment (an_principles l) (an_principles r)
                   (embed U (build_vocab U (an_principles l @ an_principles r))) of
              Inr score \<Rightarrow>
                (if min_alignment_score config \<le> score then VrpAlignmentStatus.Partial
                 else VrpAlignmentStatus.Conflict)
            | Inl _ \<Rightarrow> VrpAlignmentStatus.Conflict)
      else VrpAlignmentStatus.Conflict)"

section \<open>Contracts, scope and report\<close>

definition contracts_mutually_accepted ::
  "VrpCapabilitySharingContract \<Rightarrow> VrpCapabilitySharingContract \<Rightarrow> bool" where
  "contracts_mutually_accepted l r \<longleftrightarrow>
     list_all (\<lambda>req. req \<in> set (offered_capabilities l)) (required_capabilities r) \<and>
     list_all (\<lambda>req. req \<in> set (offered_capabilities r)) (required_capabilities l)"

fun resolve_transfer_scope :: "VrpAlignmentStatus \<Rightarrow> VrpTransferAcceptanceConfig \<Rightarrow> VrpTransferScope" where
  "resolve_transfer_scope VrpAlignmentStatus.Aligned config =
     (if allow_full_knowledge config then VrpTransferScope.FullKnowledgeBundle
      else if allow_reflection_summaries config then VrpTransferScope.ReflectionSummariesOnly
      else VrpTransferScope.NoTransfer)"
| "resolve_transfer_scope VrpAlignmentStatus.Partial config =
     (if allow_reflection_summaries config then VrpTransferScope.ReflectionSummariesOnly
      else VrpTransferScope.NoTransfer)"
| "resolve_transfer_scope VrpAlignmentStatus.Conflict config = VrpTransferScope.NoTransfer"

definition validate_federation_handshake ::
  "unicode \<Rightarrow> VrpAnchorSnapshot \<Rightarrow> VrpCapabilitySharingContract \<Rightarrow> VrpFederationHandshake
     \<Rightarrow> VrpAlignmentConfig \<Rightarrow> VrpTransferAcceptanceConfig \<Rightarrow> VrpValidationReport" where
  "validate_federation_handshake U local_anchor local_contract handshake alignment_config transfer_config =
     (let status = compare_peer_anchor U local_anchor (anchor_snapshot handshake) alignment_config;
          contracts_ok = contracts_mutually_accepted local_contract (capability_contract handshake);
          notes = (if \<not> contracts_ok then [''Capability contracts incompatible''] else []);
          final_status = (if \<not> contracts_ok then VrpAlignmentStatus.Conflict else status)
      in \<lparr>alignment_status = final_status,
          transfer_scope = resolve_transfer_scope final_status transfer_config,
          alignment_score = (case final_status of
              VrpAlignmentStatus.Aligned \<Rightarrow> 1
            | VrpAlignmentStatus.Partial \<Rightarrow> 1 / 2
            | VrpAlignmentStatus.Conflict \<Rightarrow> 0),
          negotiation_notes = notes\<rparr>)"

definition check_transfer_acceptance ::
  "VrpValidationReport \<Rightarrow> VrpTransferScope \<Rightarrow> VrpTransferAcceptanceError + unit" where
  "check_transfer_acceptance report required_scope =
     (if alignment_status report = VrpAlignmentStatus.Conflict then Inl VrpTransferAcceptanceError.Conflict
      else if transfer_scope report < required_scope
      then Inl (Rejected (''Insufficient transfer scope: negotiated '' @ scope_to_string (transfer_scope report)
             @ '', required '' @ scope_to_string required_scope))
      else Inr ())"

section \<open>Status and scope as text\<close>

definition parse_status :: "string \<Rightarrow> VrpAlignmentStatus option" where
  "parse_status s = (case status_from_str s of Inl _ \<Rightarrow> None | Inr a \<Rightarrow> Some a)"

definition parse_scope :: "string \<Rightarrow> VrpTransferScope option" where
  "parse_scope s = (case scope_from_str s of Inl _ \<Rightarrow> None | Inr a \<Rightarrow> Some a)"

interpretation status_text: codec status_to_string parse_status
proof (standard, goal_cases)
  case (1 a)
  show ?case by (cases a) (simp_all add: parse_status_def status_from_str_def)
next
  case (2 b a)
  then show ?case by (auto simp: parse_status_def status_from_str_def split: if_splits)
qed

interpretation scope_text: codec scope_to_string parse_scope
proof (standard, goal_cases)
  case (1 a)
  show ?case by (cases a) (simp_all add: parse_scope_def scope_from_str_def)
next
  case (2 b a)
  then show ?case by (auto simp: parse_scope_def scope_from_str_def split: if_splits)
qed

lemma status_round [simp]: "status_from_str (status_to_string a) = Inr a"
  by (cases a) (simp_all add: status_from_str_def)

lemma scope_round [simp]: "scope_from_str (scope_to_string a) = Inr a"
  by (cases a) (simp_all add: scope_from_str_def)

lemma status_from_str_Inr: "status_from_str s = Inr a \<longleftrightarrow> s = status_to_string a"
  using status_text.dec_iff [of s a] by (auto simp: parse_status_def)

lemma scope_from_str_Inr: "scope_from_str s = Inr a \<longleftrightarrow> s = scope_to_string a"
  using scope_text.dec_iff [of s a] by (auto simp: parse_scope_def)

section \<open>The preimage of a list determines the list up to order\<close>

lemma be_bytes_length [simp]: "length (be_bytes k n) = k"
  by (induction k arbitrary: n) simp_all

lemma be_bytes_inj: "be_bytes k n = be_bytes k m \<Longrightarrow> n < 256 ^ k \<Longrightarrow> m < 256 ^ k \<Longrightarrow> n = m"
proof (induction k arbitrary: n m)
  case (Suc k)
  have c: "char_of (n mod 256) = (char_of (m mod 256) :: char)" and h: "be_bytes k (n div 256) = be_bytes k (m div 256)"
    using Suc.prems(1) by auto
  have "n div 256 = m div 256"
    by (rule Suc.IH [OF h]) (use Suc.prems(2,3) in \<open>simp_all add: less_mult_imp_div_less mult.commute\<close>)
  moreover have "of_char (char_of (n mod 256) :: char) = (of_char (char_of (m mod 256) :: char) :: nat)"
    using c by simp
  then have "n mod 256 = m mod 256" by simp
  ultimately show ?case by (metis div_mod_decomp)
qed simp

lemma preimage_inj:
  assumes "concat (map (\<lambda>s. be_bytes 8 (length s mod 2 ^ 64) @ s) xs) =
      concat (map (\<lambda>s. be_bytes 8 (length s mod 2 ^ 64) @ s) ys)"
    and "\<forall>s \<in> set xs \<union> set ys. length s < 2 ^ 63"
  shows "xs = ys"
  using assms
proof (induction xs arbitrary: ys)
  case Nil
  then show ?case by (cases ys) (auto dest: arg_cong [where f = length])
next
  case (Cons x xs)
  from Cons.prems(1) obtain y ys' where ys: "ys = y # ys'"
    by (cases ys) (auto dest: arg_cong [where f = length])
  have b: "length x < 2 ^ 64" "length y < 2 ^ 64" using Cons.prems(2) ys by force+
  have e: "be_bytes 8 (length x) @ x @ concat (map (\<lambda>s. be_bytes 8 (length s mod 2 ^ 64) @ s) xs) =
      be_bytes 8 (length y) @ y @ concat (map (\<lambda>s. be_bytes 8 (length s mod 2 ^ 64) @ s) ys')"
    using Cons.prems(1) b unfolding ys by simp
  then have "be_bytes 8 (length x) = be_bytes 8 (length y)" by simp
  then have l: "length x = length y" using b by (intro be_bytes_inj [of 8]) simp_all
  with e have "x = y" "concat (map (\<lambda>s. be_bytes 8 (length s mod 2 ^ 64) @ s) xs) =
      concat (map (\<lambda>s. be_bytes 8 (length s mod 2 ^ 64) @ s) ys')" by auto
  with Cons.IH [of ys'] Cons.prems(2) ys show ?case by auto
qed

text \<open>The lengths are those a Rust string can have: an allocation has fewer than \<open>2^63\<close> bytes.\<close>

lemma list_preimage_inj:
  assumes "list_preimage xs = list_preimage ys" and "\<forall>s \<in> set xs \<union> set ys. length s < 2 ^ 63"
  shows "mset xs = mset ys"
proof -
  have "sort xs = sort ys" using assms by (intro preimage_inj) (simp_all add: list_preimage_def)
  then show ?thesis by (metis mset_sort)
qed

lemma list_preimage_perm: "mset xs = mset ys \<Longrightarrow> list_preimage xs = list_preimage ys"
proof -
  assume "mset xs = mset ys"
  then have "sort xs = sort ys" by (metis properties_for_sort sorted_sort mset_sort)
  then show ?thesis by (simp add: list_preimage_def)
qed

section \<open>Comparison\<close>

lemma compare_Aligned:
  "compare_peer_anchor U l r c = VrpAlignmentStatus.Aligned \<longleftrightarrow>
     principles_hash l = principles_hash r \<and> prohibited_actions_hash l = prohibited_actions_hash r"
  by (simp add: compare_peer_anchor_def split: sum.split)

lemma compare_Partial:
  "compare_peer_anchor U l r c = VrpAlignmentStatus.Partial \<longleftrightarrow>
     prohibited_actions_hash l = prohibited_actions_hash r \<and> principles_hash l \<noteq> principles_hash r
     \<and> semantic_alignment_required c \<and> an_principles l \<noteq> [] \<and> an_principles r \<noteq> []
     \<and> (\<exists>x. calculate_semantic_alignment (an_principles l) (an_principles r)
              (embed U (build_vocab U (an_principles l @ an_principles r))) = Inr x \<and> min_alignment_score c \<le> x)"
  by (auto simp: compare_peer_anchor_def split: sum.split)

lemma compare_not_Conflict:
  "compare_peer_anchor U l r c \<noteq> VrpAlignmentStatus.Conflict \<Longrightarrow>
     prohibited_actions_hash l = prohibited_actions_hash r"
  by (rule ccontr) (simp add: compare_peer_anchor_def)

lemma compare_commute: "compare_peer_anchor U l r c = compare_peer_anchor U r l c"
proof -
  let ?e = "embed U (build_vocab U (an_principles l @ an_principles r))"
  have v: "build_vocab U (an_principles r @ an_principles l) = build_vocab U (an_principles l @ an_principles r)"
    by (rule build_vocab_cong) auto
  have s: "(case calculate_semantic_alignment (an_principles l) (an_principles r) ?e of
          Inr score \<Rightarrow> if min_alignment_score c \<le> score then VrpAlignmentStatus.Partial else VrpAlignmentStatus.Conflict
        | Inl _ \<Rightarrow> VrpAlignmentStatus.Conflict)
      = (case calculate_semantic_alignment (an_principles r) (an_principles l) ?e of
          Inr score \<Rightarrow> if min_alignment_score c \<le> score then VrpAlignmentStatus.Partial else VrpAlignmentStatus.Conflict
        | Inl _ \<Rightarrow> VrpAlignmentStatus.Conflict)"
    by (cases "calculate_semantic_alignment (an_principles l) (an_principles r) ?e";
        cases "calculate_semantic_alignment (an_principles r) (an_principles l) ?e")
      (auto dest: calculate_semantic_alignment_commute)
  show ?thesis unfolding compare_peer_anchor_def v s by auto
qed

lemma contracts_commute: "contracts_mutually_accepted l r = contracts_mutually_accepted r l"
  by (auto simp: contracts_mutually_accepted_def)

lemma validate_fields:
  fixes U a c h ac tc
  defines "s \<equiv> (if contracts_mutually_accepted c (capability_contract h)
                then compare_peer_anchor U a (anchor_snapshot h) ac else VrpAlignmentStatus.Conflict)"
  shows "alignment_status (validate_federation_handshake U a c h ac tc) = s"
    and "transfer_scope (validate_federation_handshake U a c h ac tc) = resolve_transfer_scope s tc"
  by (simp_all add: validate_federation_handshake_def Let_def s_def)

text \<open>The score of two non-empty lists of principles under their shared vocabulary.\<close>

lemma semantic_score_cases:
  assumes "ps \<noteq> []" and "qs \<noteq> []"
  shows "case calculate_semantic_alignment ps qs (embed U (build_vocab U (ps @ qs))) of
      Inl _ \<Rightarrow> build_vocab U (ps @ qs) = []
    | Inr score \<Rightarrow> build_vocab U (ps @ qs) \<noteq> [] \<and> 0 \<le> score"
proof (cases "build_vocab U (ps @ qs) = []")
  case True
  then have "embed U (build_vocab U (ps @ qs)) p = Inl ''Vocabulary not built - call build_vocab first''" for p
    by (simp add: embed_def)
  then have "\<exists>m. compute_centroid ps (embed U (build_vocab U (ps @ qs))) = Inl m"
    using assms(1) by (cases ps) (simp_all add: compute_centroid_def)
  with True assms show ?thesis by (auto simp: calculate_semantic_alignment_def)
next
  case False
  let ?v = "build_vocab U (ps @ qs)"
  let ?e = "embed U ?v"
  have tot: "\<exists>xs. ?e p = Inr xs \<and> length xs = length ?v" for p
    using False by (simp add: embed_def Let_def)
  have nn: "\<forall>x \<in> set xs. 0 \<le> x" if "?e p = Inr xs" for p xs using embed_nonneg [OF that] by blast
  have cen: "\<exists>c. compute_centroid zs ?e = Inr c \<and> (\<forall>x \<in> set c. 0 \<le> x)" if zs: "zs \<noteq> []" for zs
  proof -
    obtain s where "centroid_loop ?e zs [] 0 = Inr (s, 0 + length zs)"
      using centroid_loop_total [where e = ?e and acc = "[]" and ps = zs and n = 0 and k = "length ?v", OF tot] by auto
    then obtain c where c: "compute_centroid zs ?e = Inr c" using zs by (auto simp: compute_centroid_def)
    have "\<forall>x \<in> set c. 0 \<le> x" by (rule compute_centroid_nonneg [OF _ c]) (rule nn)
    with c show ?thesis by blast
  qed
  obtain a b where ab: "compute_centroid ps ?e = Inr a" "compute_centroid qs ?e = Inr b"
    "\<forall>x \<in> set a. 0 \<le> x" "\<forall>x \<in> set b. 0 \<le> x"
    using cen [OF assms(1)] cen [OF assms(2)] by blast
  have "0 \<le> cosine_similarity a b" by (rule cosine_similarity_nonneg [OF ab(3,4)])
  with False assms ab show ?thesis by (simp add: calculate_semantic_alignment_def)
qed

section \<open>Properties\<close>

text \<open>
  C23. The verdict on two anchors is exactly the one that the digests, the semantic score and the
  configuration call for. They are aligned exactly when the SHA-256 digests of the encodings of
  their principles and of their prohibited actions agree, and the encodings agree exactly when
  the lists are equal up to order (so an alignment of different lists is a collision of SHA-256 on
  these two encodings). They are partially aligned exactly when the prohibited actions agree and
  the principles do not, the semantic comparison is on, both sides give principles, and the
  similarity of the principles under their shared vocabulary exists and is at least the
  configured minimum. It exists exactly when some principle has a word of two or more bytes, is
  never negative, and is zero when the two sides have no word in common. Everything else,
  every difference of the prohibited actions in particular, is a conflict.
\<close>

theorem anchor_alignment_exact:
  fixes U :: unicode
  assumes "hex_laws C" and "new_snapshot C (Some t) ps qs = Inr a" and "new_snapshot C (Some t') ps' qs' = Inr b"
    and "\<forall>s \<in> set (ps @ ps' @ qs @ qs'). length s < 2 ^ 63"
  defines "same \<equiv> \<lambda>xs ys. sha256 C (list_preimage xs) = sha256 C (list_preimage ys)"
    and "score \<equiv> calculate_semantic_alignment ps ps' (embed U (build_vocab U (ps @ ps')))"
  shows "(compare_peer_anchor U a b c = VrpAlignmentStatus.Aligned \<longleftrightarrow> same ps ps' \<and> same qs qs')
    \<and> (list_preimage ps = list_preimage ps' \<longleftrightarrow> mset ps = mset ps')
    \<and> (list_preimage qs = list_preimage qs' \<longleftrightarrow> mset qs = mset qs')
    \<and> (compare_peer_anchor U a b c = VrpAlignmentStatus.Partial \<longleftrightarrow>
         same qs qs' \<and> \<not> same ps ps' \<and> semantic_alignment_required c \<and> ps \<noteq> [] \<and> ps' \<noteq> []
         \<and> (\<exists>x. score = Inr x \<and> min_alignment_score c \<le> x))
    \<and> (\<not> same qs qs' \<longrightarrow> compare_peer_anchor U a b c = VrpAlignmentStatus.Conflict)
    \<and> (ps \<noteq> [] \<and> ps' \<noteq> [] \<longrightarrow>
         (is_ok score \<longleftrightarrow> (\<exists>p \<in> set (ps @ ps'). tokenize U p \<noteq> []))
         \<and> (\<forall>x. score = Inr x \<longrightarrow> 0 \<le> x
              \<and> ((\<forall>p \<in> set ps. \<forall>p' \<in> set ps'. set (tokenize U p) \<inter> set (tokenize U p') = {}) \<longrightarrow> x = 0)))"
proof -
  have inj: "hex_encode C x = hex_encode C y \<longleftrightarrow> x = y" for x y
    using assms(1) by (metis hex_laws_def option.inject)
  have a: "principles_hash a = hash_list C ps" "prohibited_actions_hash a = hash_list C qs"
    "principles_hash b = hash_list C ps'" "prohibited_actions_hash b = hash_list C qs'"
    "an_principles a = ps" "an_principles b = ps'"
    using assms(2,3) by (auto simp: new_snapshot_def)
  have perm: "list_preimage ps = list_preimage ps' \<longleftrightarrow> mset ps = mset ps'"
    "list_preimage qs = list_preimage qs' \<longleftrightarrow> mset qs = mset qs'"
    using assms(4) list_preimage_perm [of ps ps'] list_preimage_perm [of qs qs']
    by (auto intro!: list_preimage_inj [of ps ps'] list_preimage_inj [of qs qs'])
  have partial: "compare_peer_anchor U a b c = VrpAlignmentStatus.Partial \<longleftrightarrow>
         same qs qs' \<and> \<not> same ps ps' \<and> semantic_alignment_required c \<and> ps \<noteq> [] \<and> ps' \<noteq> []
         \<and> (\<exists>x. score = Inr x \<and> min_alignment_score c \<le> x)"
    unfolding compare_Partial a hash_list_def inj same_def score_def by blast
  have "compare_peer_anchor U a b c = VrpAlignmentStatus.Aligned \<longleftrightarrow> same ps ps' \<and> same qs qs'"
    "\<not> same qs qs' \<longrightarrow> compare_peer_anchor U a b c = VrpAlignmentStatus.Conflict"
    using compare_not_Conflict [of U a b c] unfolding same_def compare_Aligned a hash_list_def inj by blast+
  moreover have "ps \<noteq> [] \<and> ps' \<noteq> [] \<longrightarrow>
         (is_ok score \<longleftrightarrow> (\<exists>p \<in> set (ps @ ps'). tokenize U p \<noteq> []))
         \<and> (\<forall>x. score = Inr x \<longrightarrow> 0 \<le> x
              \<and> ((\<forall>p \<in> set ps. \<forall>p' \<in> set ps'. set (tokenize U p) \<inter> set (tokenize U p') = {}) \<longrightarrow> x = 0))"
    using semantic_score_cases [of ps ps' U] disjoint_score [of ps ps' U] build_vocab_Nil [of U "ps @ ps'"]
    unfolding score_def is_ok_def by (auto split: sum.splits)
  ultimately show ?thesis using perm partial by blast
qed

text \<open>
  The verdict of a handshake is the same on both sides: when two servers validate each
  other's handshake under the same configurations, they produce the same report (status,
  scope, score and notes), although each compares from its own point of view.
\<close>

theorem handshake_symmetric:
  "validate_federation_handshake U a ca \<lparr>anchor_snapshot = b, capability_contract = cb\<rparr> ac tc =
   validate_federation_handshake U b cb \<lparr>anchor_snapshot = a, capability_contract = ca\<rparr> ac tc"
  by (simp add: validate_federation_handshake_def compare_commute [of U a b] contracts_commute [of ca cb])

lemma transfer_gate_iff:
  assumes "st = compare_peer_anchor U a (anchor_snapshot h) ac"
  shows "is_ok (check_transfer_acceptance (validate_federation_handshake U a ca h ac tc) req) \<longleftrightarrow>
      contracts_mutually_accepted ca (capability_contract h) \<and> st \<noteq> VrpAlignmentStatus.Conflict \<and>
      (case req of
         VrpTransferScope.NoTransfer \<Rightarrow> True
       | VrpTransferScope.ReflectionSummariesOnly \<Rightarrow>
           allow_reflection_summaries tc \<or> st = VrpAlignmentStatus.Aligned \<and> allow_full_knowledge tc
       | VrpTransferScope.FullKnowledgeBundle \<Rightarrow> st = VrpAlignmentStatus.Aligned \<and> allow_full_knowledge tc)"
  unfolding check_transfer_acceptance_def validate_fields assms(1) [symmetric]
  by (cases req; cases st) (simp_all add: less_VrpTransferScope_def)

text \<open>
  The transfer gate lets through exactly what was negotiated: a report produced by
  validation passes for a required scope exactly when the contracts are mutually accepted, the
  comparison is no conflict, and the configuration allows the scope at that alignment. In
  particular full knowledge flows only between servers with equal hashes that allow it, and
  nothing passes when the prohibited actions differ.
\<close>

theorem transfer_gate_exact:
  assumes "rep = validate_federation_handshake U a ca h ac tc"
    and "st = compare_peer_anchor U a (anchor_snapshot h) ac"
  shows "(is_ok (check_transfer_acceptance rep req) \<longleftrightarrow>
      contracts_mutually_accepted ca (capability_contract h) \<and> st \<noteq> VrpAlignmentStatus.Conflict \<and>
      (case req of
         VrpTransferScope.NoTransfer \<Rightarrow> True
       | VrpTransferScope.ReflectionSummariesOnly \<Rightarrow>
           allow_reflection_summaries tc \<or> st = VrpAlignmentStatus.Aligned \<and> allow_full_knowledge tc
       | VrpTransferScope.FullKnowledgeBundle \<Rightarrow> st = VrpAlignmentStatus.Aligned \<and> allow_full_knowledge tc))
    \<and> (is_ok (check_transfer_acceptance rep VrpTransferScope.FullKnowledgeBundle) \<longrightarrow>
         principles_hash a = principles_hash (anchor_snapshot h))
    \<and> (is_ok (check_transfer_acceptance rep req) \<longrightarrow>
         prohibited_actions_hash a = prohibited_actions_hash (anchor_snapshot h))"
  using compare_not_Conflict [of U a "anchor_snapshot h" ac] compare_Aligned [of U a "anchor_snapshot h" ac]
  unfolding assms(1) transfer_gate_iff [OF assms(2)] assms(2) [symmetric] by simp

text \<open>
  The semantic comparison never fails halfway: for two non-empty lists of principles the
  score over their shared vocabulary is an error exactly when no principle has a word of two
  or more bytes, and otherwise a non-negative number; so with matching prohibitions and a
  minimum score of at most zero the comparison answers \<open>Conflict\<close> only for lack of words.
\<close>

theorem semantic_score_total:
  assumes "an_principles l \<noteq> []" and "an_principles r \<noteq> []"
  shows "(is_ok (calculate_semantic_alignment (an_principles l) (an_principles r)
           (embed U (build_vocab U (an_principles l @ an_principles r)))) \<longleftrightarrow>
         (\<exists>t \<in> set (an_principles l @ an_principles r). tokenize U t \<noteq> []))
    \<and> (semantic_alignment_required c \<and> min_alignment_score c \<le> 0 \<and>
       prohibited_actions_hash l = prohibited_actions_hash r \<longrightarrow>
       (compare_peer_anchor U l r c = VrpAlignmentStatus.Conflict \<longleftrightarrow>
          principles_hash l \<noteq> principles_hash r \<and>
          (\<forall>t \<in> set (an_principles l @ an_principles r). tokenize U t = [])))"
proof -
  let ?ts = "an_principles l @ an_principles r"
  note e = build_vocab_Nil [of U ?ts]
  show ?thesis
  proof (cases "calculate_semantic_alignment (an_principles l) (an_principles r) (embed U (build_vocab U ?ts))")
    case (Inl m)
    then have "build_vocab U ?ts = []" using semantic_score_cases [OF assms, of U] by simp
    with Inl e show ?thesis by (auto simp: compare_peer_anchor_def)
  next
    case (Inr x)
    then have "build_vocab U ?ts \<noteq> []" "0 \<le> x" using semantic_score_cases [OF assms, of U] by auto
    with Inr e assms show ?thesis by (auto simp: compare_peer_anchor_def)
  qed
qed

section \<open>Witnesses\<close>

text \<open>A concrete lowercasing and splitting: ASCII case, words between spaces.\<close>

fun split_spaces :: "string \<Rightarrow> string \<Rightarrow> string list" where
  "split_spaces w [] = [rev w]"
| "split_spaces w (c # cs) = (if c = CHR '' '' then rev w # split_spaces [] cs else split_spaces (c # w) cs)"

definition demo_unicode :: unicode where
  "demo_unicode = \<lparr>to_lowercase = to_ascii_lowercase, split_words = split_spaces []\<rparr>"

definition demo_anchor :: "string list \<Rightarrow> string list \<Rightarrow> VrpAnchorSnapshot" where
  "demo_anchor ps qs = \<lparr>principles_hash = hash_list demo_crypto ps, prohibited_actions_hash = hash_list demo_crypto qs,
     an_timestamp = 7, an_principles = ps, an_prohibited_actions = qs\<rparr>"

lemma demo_anchor: "new_snapshot demo_crypto (Some 7) ps qs = Inr (demo_anchor ps qs)"
  by (simp add: new_snapshot_def demo_anchor_def)

definition demo_alignment :: "rat \<Rightarrow> VrpAlignmentConfig" where
  "demo_alignment m = \<lparr>semantic_alignment_required = True, min_alignment_score = m\<rparr>"

text \<open>
  The same principles in another order; and principles without a common word, on both sides of
  the configured minimum.
\<close>

theorem anchor_alignment_exact_witness:
  "(\<forall>c. compare_peer_anchor demo_unicode (demo_anchor [''b'', ''a''] []) (demo_anchor [''a'', ''b''] []) c
     = VrpAlignmentStatus.Aligned)
   \<and> compare_peer_anchor demo_unicode (demo_anchor [''do no harm''] []) (demo_anchor [''be kind''] []) (demo_alignment 0)
     = VrpAlignmentStatus.Partial
   \<and> compare_peer_anchor demo_unicode (demo_anchor [''do no harm''] []) (demo_anchor [''be kind''] []) (demo_alignment (1/2))
     \<noteq> VrpAlignmentStatus.Partial
   \<and> list_preimage [''a'', ''b''] \<noteq> list_preimage [''ab'', []]"
proof -
  have "list_preimage [''b'', ''a''] = list_preimage [''a'', ''b'']" by (rule list_preimage_perm) simp
  then have 1: "compare_peer_anchor demo_unicode (demo_anchor [''b'', ''a''] []) (demo_anchor [''a'', ''b''] []) c
     = VrpAlignmentStatus.Aligned" for c
    using anchor_alignment_exact [OF demo_hex_laws demo_anchor demo_anchor, of "[''b'', ''a'']" "[''a'', ''b'']" "[]" "[]"
        demo_unicode c] by simp
  let ?score = "calculate_semantic_alignment [''do no harm''] [''be kind'']
      (embed demo_unicode (build_vocab demo_unicode ([''do no harm''] @ [''be kind''])))"
  have d: "sha256 demo_crypto (list_preimage [''do no harm'']) \<noteq> sha256 demo_crypto (list_preimage [''be kind''])"
    by (simp add: demo_crypto_def list_preimage_def)
  have "tokenize demo_unicode ''do no harm'' = [''do'', ''no'', ''harm'']" "tokenize demo_unicode ''be kind'' = [''be'', ''kind'']"
    by (simp_all add: tokenize_def demo_unicode_def to_ascii_lowercase_def ascii_lower_char_def less_eq_char_def)
  then have w: "set (tokenize demo_unicode ''do no harm'') \<inter> set (tokenize demo_unicode ''be kind'') = {}"
    "tokenize demo_unicode ''do no harm'' \<noteq> []" by simp_all
  note spec = anchor_alignment_exact [OF demo_hex_laws demo_anchor demo_anchor, of "[''do no harm'']" "[''be kind'']" "[]" "[]"
      demo_unicode]
  have "?score = Inr 0" using spec d w by (cases ?score) auto
  then have "compare_peer_anchor demo_unicode (demo_anchor [''do no harm''] []) (demo_anchor [''be kind''] []) c
      = VrpAlignmentStatus.Partial \<longleftrightarrow> semantic_alignment_required c \<and> min_alignment_score c \<le> 0" for c
    using spec [of c] d by simp
  then have 2: "compare_peer_anchor demo_unicode (demo_anchor [''do no harm''] []) (demo_anchor [''be kind''] []) (demo_alignment 0)
     = VrpAlignmentStatus.Partial"
    "compare_peer_anchor demo_unicode (demo_anchor [''do no harm''] []) (demo_anchor [''be kind''] []) (demo_alignment (1/2))
     \<noteq> VrpAlignmentStatus.Partial" by (simp_all add: demo_alignment_def)
  have "list_preimage [''a'', ''b''] \<noteq> list_preimage [''ab'', []]"
  proof
    assume "list_preimage [''a'', ''b''] = list_preimage [''ab'', []]"
    then have "mset [''a'', ''b''] = mset [''ab'', []]" by (rule list_preimage_inj) simp
    then show False by (simp add: add_eq_conv_ex)
  qed
  with 1 2 show ?thesis by blast
qed

definition demo_contract :: "string list \<Rightarrow> string list \<Rightarrow> VrpCapabilitySharingContract" where
  "demo_contract need offer = \<lparr>required_capabilities = need, offered_capabilities = offer, redacted_topics = []\<rparr>"

theorem transfer_gate_exact_witness:
  "is_ok (check_transfer_acceptance
     (validate_federation_handshake demo_unicode (demo_anchor [''a''] []) (demo_contract [''x''] [''y''])
        \<lparr>anchor_snapshot = demo_anchor [''a''] [], capability_contract = demo_contract [''y''] [''x'']\<rparr>
        \<lparr>semantic_alignment_required = False, min_alignment_score = 1/2\<rparr>
        \<lparr>allow_reflection_summaries = False, allow_full_knowledge = True\<rparr>) VrpTransferScope.FullKnowledgeBundle)
   \<and> \<not> is_ok (check_transfer_acceptance
     (validate_federation_handshake demo_unicode (demo_anchor [''a''] []) (demo_contract [''x''] [])
        \<lparr>anchor_snapshot = demo_anchor [''a''] [], capability_contract = demo_contract [''y''] [''x'']\<rparr>
        \<lparr>semantic_alignment_required = False, min_alignment_score = 1/2\<rparr>
        \<lparr>allow_reflection_summaries = False, allow_full_knowledge = True\<rparr>) VrpTransferScope.NoTransfer)"
proof -
  have s: "compare_peer_anchor demo_unicode (demo_anchor [''a''] []) (demo_anchor [''a''] []) ac = VrpAlignmentStatus.Aligned"
    for ac by (simp add: compare_Aligned)
  show ?thesis
    by (simp add: transfer_gate_exact [THEN conjunct1, OF refl refl] s contracts_mutually_accepted_def demo_contract_def)
qed

theorem semantic_score_total_witness:
  "is_ok (calculate_semantic_alignment [''Do no harm''] [''Be kind'']
      (embed demo_unicode (build_vocab demo_unicode [''Do no harm'', ''Be kind''])))
   \<and> compare_peer_anchor demo_unicode (demo_anchor [''Do no harm''] []) (demo_anchor [''Be kind''] [])
       \<lparr>semantic_alignment_required = True, min_alignment_score = 0\<rparr> \<noteq> VrpAlignmentStatus.Conflict"
proof -
  have t: "tokenize demo_unicode ''Do no harm'' \<noteq> []"
    by (simp add: tokenize_def demo_unicode_def to_ascii_lowercase_def ascii_lower_char_def less_eq_char_def)
  have "is_ok (calculate_semantic_alignment (an_principles (demo_anchor [''Do no harm''] []))
      (an_principles (demo_anchor [''Be kind''] []))
      (embed demo_unicode (build_vocab demo_unicode (an_principles (demo_anchor [''Do no harm''] []) @
          an_principles (demo_anchor [''Be kind''] [])))))
    \<and> compare_peer_anchor demo_unicode (demo_anchor [''Do no harm''] []) (demo_anchor [''Be kind''] [])
       \<lparr>semantic_alignment_required = True, min_alignment_score = 0\<rparr> \<noteq> VrpAlignmentStatus.Conflict"
    using semantic_score_total [of "demo_anchor [''Do no harm''] []" "demo_anchor [''Be kind''] []" demo_unicode
        "\<lparr>semantic_alignment_required = True, min_alignment_score = 0\<rparr>"] t
    by (simp add: demo_anchor_def)
  then show ?thesis by (simp add: demo_anchor_def)
qed

end
