(* ===== verification/Annex_Reputation.thy ===== *)
theory Annex_Reputation
  imports Annex_Vrp
begin

text \<open>
  Crate \<open>annex-vrp\<close>, file \<open>reputation.rs\<close>: the handshake log and the reputation score of a
  peer, computed in single precision over its most recent outcomes. The JSON text of a
  report (\<open>serde_json::to_string\<close>) is an argument.
\<close>

section \<open>Operations\<close>

datatype ReputationError = RepDatabase rusqlite_error

definition record_vrp_outcome ::
  "(VrpValidationReport \<Rightarrow> string) \<Rightarrow> time \<Rightarrow> db \<Rightarrow> int \<Rightarrow> string \<Rightarrow> string \<Rightarrow> VrpValidationReport
     \<Rightarrow> (ReputationError + unit) \<times> db" where
  "record_vrp_outcome to_json now d server_id peer_pseudonym peer_type report =
     (let report_json = to_json report;
          status_str = status_to_string (alignment_status report)
      in if \<not> exists_where (\<lambda>s. sv_id s = server_id) (servers d)
         then (Inl (RepDatabase (SqliteFailure ConstraintForeignKey)), d)
         else (Inr (), d\<lparr>vrp_handshake_log := auto_insert (\<lambda>i.
                \<lparr>hl_id = i, hl_server = server_id, hl_peer = peer_pseudonym, hl_peer_type = peer_type,
                 hl_status = status_str, hl_report = report_json, hl_created = now\<rparr>) (vrp_handshake_log d)\<rparr>))"

definition score_step :: "rat \<Rightarrow> string \<Rightarrow> rat" where
  "score_step score status =
     (if status = ''ALIGNED'' then f32 (score + f32 (f32 (1/10) * f32 (1 - score)))
      else if status = ''PARTIAL'' then f32 (score - f32 (f32 (1/20) * score))
      else if status = ''CONFLICT'' then f32 (score - f32 (f32 (1/5) * score))
      else score)"

definition clamp :: "rat \<Rightarrow> rat \<Rightarrow> rat \<Rightarrow> rat" where
  "clamp x lo hi = (if x < lo then lo else if hi < x then hi else x)"

text \<open>The thousand most recent outcomes of the peer, oldest first.\<close>

definition recent_history :: "db \<Rightarrow> int \<Rightarrow> string \<Rightarrow> handshake_row list" where
  "recent_history d server_id peer_pseudonym =
     order_by hl_created (take 1000 (order_by_desc hl_created
       (filter (\<lambda>r. hl_server r = server_id \<and> hl_peer r = peer_pseudonym) (auto_rows (vrp_handshake_log d)))))"

definition check_reputation_score :: "db \<Rightarrow> int \<Rightarrow> string \<Rightarrow> rat" where
  "check_reputation_score d server_id peer_pseudonym =
     clamp (foldl score_step (1/2) (map hl_status (recent_history d server_id peer_pseudonym))) 0 1"

section \<open>The step stays within the unit interval\<close>

lemma f32_fraction:
  assumes "0 \<le> c" and "c \<le> 1/4" and "0 \<le> x"
  shows "0 \<le> f32 (f32 c * f32 x)" and "f32 (f32 c * f32 x) \<le> 8 * c * x"
proof -
  have c: "0 \<le> f32 c" "f32 c \<le> 2 * c" using assms by (auto intro: f32_nonneg f32_double)
  have x: "0 \<le> f32 x" "f32 x \<le> 2 * x" using assms by (auto intro: f32_nonneg f32_double)
  have p: "0 \<le> f32 c * f32 x" "f32 c * f32 x \<le> (2 * c) * (2 * x)"
    using c x assms mult_mono [of "f32 c" "2 * c" "f32 x" "2 * x"] by simp_all
  show "0 \<le> f32 (f32 c * f32 x)" using p(1) by (rule f32_nonneg)
  show "f32 (f32 c * f32 x) \<le> 8 * c * x" using f32_double [OF p(1)] p(2) by simp
qed

lemma f32_penalty:
  assumes "0 \<le> c" and "c \<le> 1/4" and "0 \<le> x"
  shows "0 \<le> f32 (f32 c * x)" and "f32 (f32 c * x) \<le> 4 * c * x"
proof -
  have c: "0 \<le> f32 c" "f32 c \<le> 2 * c" using assms by (auto intro: f32_nonneg f32_double)
  have p: "0 \<le> f32 c * x" "f32 c * x \<le> (2 * c) * x"
    using c assms mult_right_mono [of "f32 c" "2 * c" x] by simp_all
  show "0 \<le> f32 (f32 c * x)" using p(1) by (rule f32_nonneg)
  show "f32 (f32 c * x) \<le> 4 * c * x" using f32_double [OF p(1)] p(2) by simp
qed

text \<open>A value that is a result of rounding is not changed by rounding again.\<close>

lemma aligned_bounds:
  assumes "0 \<le> s" and "s \<le> 1"
  shows "0 \<le> s + f32 (f32 (1/10) * f32 (1 - s))" and "s + f32 (f32 (1/10) * f32 (1 - s)) \<le> 1"
  using f32_fraction [of "1/10" "1 - s"] assms by simp_all

lemma penalty_bounds:
  assumes "0 \<le> s" and "s \<le> 1" and "0 \<le> c" and "c \<le> 1/5"
  shows "0 \<le> s - f32 (f32 c * s)" and "s - f32 (f32 c * s) \<le> s"
proof -
  have "4 * c * s \<le> s" using assms mult_right_mono [of "4 * c" 1 s] by simp
  then show "0 \<le> s - f32 (f32 c * s)" "s - f32 (f32 c * s) \<le> s"
    using f32_penalty [of c s] assms by auto
qed

lemma score_step_bounds: "0 \<le> s \<Longrightarrow> s \<le> 1 \<Longrightarrow> 0 \<le> score_step s st \<and> score_step s st \<le> 1"
  using aligned_bounds [of s] penalty_bounds [of s "1/20"] penalty_bounds [of s "1/5"]
  by (auto simp: score_step_def intro: f32_nonneg f32_le_1)

lemma score_fold_bounds: "0 \<le> s \<Longrightarrow> s \<le> 1 \<Longrightarrow> 0 \<le> foldl score_step s sts \<and> foldl score_step s sts \<le> 1"
proof (induction sts arbitrary: s)
  case (Cons st sts)
  then show ?case using score_step_bounds [of s st] by auto
qed simp

section \<open>The trend\<close>

text \<open>Scores are single-precision numbers, so rounding them again changes nothing.\<close>

definition score_of :: "string list \<Rightarrow> rat" where
  "score_of sts = foldl score_step (1/2) sts"

lemma score_of_bounds: "0 \<le> score_of sts \<and> score_of sts \<le> 1"
  unfolding score_of_def by (rule score_fold_bounds) simp_all

lemma f32_score_of: "f32 (score_of sts) = score_of sts"
proof (induction sts rule: rev_induct)
  case (snoc st sts)
  then show ?case by (simp add: score_of_def score_step_def)
qed (simp add: score_of_def)

lemma score_trend:
  fixes sts
  defines "s \<equiv> score_of sts"
  shows "s \<le> score_step s ''ALIGNED''" and "score_step s ''PARTIAL'' \<le> s"
    and "score_step s ''CONFLICT'' \<le> score_step s ''PARTIAL''"
proof -
  have b: "0 \<le> s" "s \<le> 1" and e: "f32 s = s"
    using score_of_bounds [of sts] f32_score_of [of sts] by (simp_all add: s_def)
  have "s \<le> s + f32 (f32 (1/10) * f32 (1 - s))"
    using f32_fraction(1) [of "1/10" "1 - s"] b by simp
  from f32_mono [OF this] show "s \<le> score_step s ''ALIGNED''" by (simp add: score_step_def e)
  have "s - f32 (f32 (1/20) * s) \<le> s" using penalty_bounds(2) [of s "1/20"] b by simp
  from f32_mono [OF this] show "score_step s ''PARTIAL'' \<le> s" by (simp add: score_step_def e)
  have "f32 (f32 (1/20) * s) \<le> f32 (f32 (1/5) * s)"
    using b by (intro f32_mono mult_right_mono) simp_all
  then have "s - f32 (f32 (1/5) * s) \<le> s - f32 (f32 (1/20) * s)" by simp
  from f32_mono [OF this] show "score_step s ''CONFLICT'' \<le> score_step s ''PARTIAL''"
    by (simp add: score_step_def)
qed

section \<open>Recording an outcome\<close>

lemma sort_desc_asc: "order_by k (order_by_desc k xs) = order_by k xs"
  unfolding order_by_def
proof (rule properties_for_sort_key)
  show "mset (sort_key k xs) = mset (order_by_desc k xs)" by (simp add: order_by_desc_def)
  show "sorted (map k (sort_key k xs))" by simp
  fix x assume "x \<in> set (sort_key k xs)"
  show "filter (\<lambda>y. k x = k y) (sort_key k xs) = filter (\<lambda>y. k x = k y) (order_by_desc k xs)"
    using sort_key_stable [of k "k x" xs] sort_key_stable [of "\<lambda>r. - k r" "- k x" xs]
    by (simp add: order_by_desc_def eq_commute [of "k x"])
qed

lemma order_by_snoc:
  assumes "\<forall>x \<in> set xs. k x \<le> k y"
  shows "order_by k (xs @ [y]) = order_by k xs @ [y]"
  unfolding order_by_def
proof (rule properties_for_sort_key)
  show "mset (sort_key k xs @ [y]) = mset (xs @ [y])" by simp
  show "sorted (map k (sort_key k xs @ [y]))" using assms by (auto simp: sorted_append)
  fix x assume "x \<in> set (sort_key k xs @ [y])"
  show "filter (\<lambda>z. k x = k z) (sort_key k xs @ [y]) = filter (\<lambda>z. k x = k z) (xs @ [y])"
    using sort_key_stable [of k "k x" xs] by (simp add: eq_commute [of "k x"])
qed

abbreviation peer_rows :: "db \<Rightarrow> int \<Rightarrow> string \<Rightarrow> handshake_row list" where
  "peer_rows d s p \<equiv> filter (\<lambda>r. hl_server r = s \<and> hl_peer r = p) (auto_rows (vrp_handshake_log d))"

lemma recent_history_short:
  "length (peer_rows d s p) \<le> 1000 \<Longrightarrow> recent_history d s p = order_by hl_created (peer_rows d s p)"
  by (simp add: recent_history_def sort_desc_asc)

section \<open>Properties\<close>

text \<open>
  The reputation score stays within the unit interval for every history: the single
  precision steps never leave it, so the final \<open>clamp\<close> changes nothing; a peer with no
  recorded outcome has the neutral score one half, and unknown outcomes are ignored.
\<close>

theorem reputation_unit_interval:
  "check_reputation_score d s p = score_of (map hl_status (recent_history d s p))
   \<and> 0 \<le> check_reputation_score d s p \<and> check_reputation_score d s p \<le> 1
   \<and> (peer_rows d s p = [] \<longrightarrow> check_reputation_score d s p = 1/2)
   \<and> (st \<notin> range status_to_string \<longrightarrow> score_step x st = x)"
proof -
  have c: "check_reputation_score d s p = score_of (map hl_status (recent_history d s p))"
    using score_of_bounds [of "map hl_status (recent_history d s p)"]
    by (simp add: check_reputation_score_def clamp_def score_of_def)
  moreover have "score_step x st = x" if "st \<notin> range status_to_string"
    using that range_eqI [of st status_to_string VrpAlignmentStatus.Aligned]
      range_eqI [of st status_to_string VrpAlignmentStatus.Partial]
      range_eqI [of st status_to_string VrpAlignmentStatus.Conflict]
    by (auto simp: score_step_def)
  moreover have "check_reputation_score d s p = 1/2" if "peer_rows d s p = []"
    using that recent_history_short [where d = d and s = s and p = p] by (simp add: c order_by_def score_of_def)
  ultimately show ?thesis using score_of_bounds by simp
qed

theorem reputation_unit_interval_witness:
  "check_reputation_score (migrated_db 0) 1 ''peer'' = 1/2"
  using reputation_unit_interval [where d = "migrated_db 0" and s = 1 and p = "''peer''", THEN conjunct2,
      THEN conjunct2, THEN conjunct2, THEN conjunct1] by simp

text \<open>
  Recording an outcome moves the score the right way: for a server in the database, a peer
  with fewer than a thousand outcomes and a clock that has not gone backwards, the new score
  is the old one after one step; an aligned outcome never lowers it, a partial one never
  raises it, and a conflict costs at least as much as a partial outcome. Every other peer
  keeps its score. A server that is not in the database records nothing.
\<close>

theorem reputation_after_outcome:
  assumes "record_vrp_outcome to_json now d s p ty rep = (res, d')"
    and "length (peer_rows d s p) < 1000" and "\<forall>r \<in> set (peer_rows d s p). hl_created r \<le> now"
  shows "if s \<in> sv_id ` set (servers d)
    then res = Inr ()
      \<and> check_reputation_score d' s p
          = score_step (check_reputation_score d s p) (status_to_string (alignment_status rep))
      \<and> (case alignment_status rep of
           VrpAlignmentStatus.Aligned \<Rightarrow> check_reputation_score d s p \<le> check_reputation_score d' s p
         | VrpAlignmentStatus.Partial \<Rightarrow> check_reputation_score d' s p \<le> check_reputation_score d s p
         | VrpAlignmentStatus.Conflict \<Rightarrow> check_reputation_score d' s p \<le>
             score_step (check_reputation_score d s p) ''PARTIAL'')
      \<and> ((s', p') \<noteq> (s, p) \<longrightarrow> check_reputation_score d' s' p' = check_reputation_score d s' p')
    else res = Inl (RepDatabase (SqliteFailure ConstraintForeignKey)) \<and> d' = d"
proof (cases "s \<in> sv_id ` set (servers d)")
  case False
  then have "\<not> exists_where (\<lambda>x. sv_id x = s) (servers d)" by (auto simp: exists_where_iff)
  then show ?thesis using False assms(1) by (simp add: record_vrp_outcome_def Let_def)
next
  case True
  then have "exists_where (\<lambda>x. sv_id x = s) (servers d)" by (auto simp: exists_where_iff)
  then have r: "res = Inr ()" and d': "d' = d\<lparr>vrp_handshake_log := auto_insert (\<lambda>i.
      \<lparr>hl_id = i, hl_server = s, hl_peer = p, hl_peer_type = ty, hl_status = status_to_string (alignment_status rep),
       hl_report = to_json rep, hl_created = now\<rparr>) (vrp_handshake_log d)\<rparr>"
    using assms(1) by (simp_all add: record_vrp_outcome_def Let_def)
  define row where "row = \<lparr>hl_id = auto_seq (vrp_handshake_log d) + 1, hl_server = s, hl_peer = p, hl_peer_type = ty,
    hl_status = status_to_string (alignment_status rep), hl_report = to_json rep, hl_created = now\<rparr>"
  have rows: "auto_rows (vrp_handshake_log d') = auto_rows (vrp_handshake_log d) @ [row]"
    by (simp add: d' row_def)
  have row: "hl_server row = s" "hl_peer row = p" "hl_created row = now"
    "hl_status row = status_to_string (alignment_status rep)" by (simp_all add: row_def)
  have "peer_rows d' s p = peer_rows d s p @ [row]" by (simp add: rows row)
  then have h: "recent_history d' s p = recent_history d s p @ [row]"
    using assms(2,3) order_by_snoc [of "peer_rows d s p" hl_created row] row(3)
    by (simp add: recent_history_short)
  have sc: "check_reputation_score d2 s2 p2 = score_of (map hl_status (recent_history d2 s2 p2))" for d2 s2 p2
    using score_of_bounds [of "map hl_status (recent_history d2 s2 p2)"]
    by (simp add: check_reputation_score_def clamp_def score_of_def)
  have step: "check_reputation_score d' s p
      = score_step (check_reputation_score d s p) (status_to_string (alignment_status rep))"
    by (simp add: sc h row(4)) (simp add: score_of_def)
  have "recent_history d' s' p' = recent_history d s' p'" if "(s', p') \<noteq> (s, p)"
  proof -
    have "peer_rows d' s' p' = peer_rows d s' p'" using that by (auto simp: rows row)
    then show ?thesis by (simp only: recent_history_def)
  qed
  then have other: "(s', p') \<noteq> (s, p) \<longrightarrow> check_reputation_score d' s' p' = check_reputation_score d s' p'"
    by (simp add: sc)
  show ?thesis
    using True r step other score_trend [of "map hl_status (recent_history d s p)"]
    by (cases "alignment_status rep") (simp_all add: sc [symmetric])
qed

theorem reputation_after_outcome_witness:
  "\<exists>d d'. servers d = [\<lparr>sv_id = 1, sv_slug = ''s'', sv_label = ''S'', sv_policy_json = []\<rparr>] \<and>
     record_vrp_outcome (\<lambda>_. []) 5 d 1 ''peer'' ''SERVER''
       \<lparr>alignment_status = VrpAlignmentStatus.Aligned, transfer_scope = VrpTransferScope.NoTransfer,
        alignment_score = 1, negotiation_notes = []\<rparr> = (Inr (), d') \<and>
     1/2 \<le> check_reputation_score d' 1 ''peer''"
proof -
  define d where "d = (migrated_db 0)\<lparr>servers := [\<lparr>sv_id = 1, sv_slug = ''s'', sv_label = ''S'', sv_policy_json = []\<rparr>]\<rparr>"
  have sv: "servers d = [\<lparr>sv_id = 1, sv_slug = ''s'', sv_label = ''S'', sv_policy_json = []\<rparr>]"
    and none: "auto_rows (vrp_handshake_log d) = []" by (simp_all add: d_def)
  let ?rep = "\<lparr>alignment_status = VrpAlignmentStatus.Aligned, transfer_scope = VrpTransferScope.NoTransfer,
        alignment_score = 1, negotiation_notes = []\<rparr>"
  obtain res d' where r: "record_vrp_outcome (\<lambda>_. []) 5 d 1 ''peer'' ''SERVER'' ?rep = (res, d')"
    by (cases "record_vrp_outcome (\<lambda>_. []) 5 d 1 ''peer'' ''SERVER'' ?rep")
  have h: "check_reputation_score d 1 ''peer'' = 1/2"
    using none by (simp add: check_reputation_score_def recent_history_def order_by_def order_by_desc_def clamp_def)
  have "res = Inr () \<and> check_reputation_score d 1 ''peer'' \<le> check_reputation_score d' 1 ''peer''"
    using reputation_after_outcome [OF r, of 1 "''peer''"] none sv by simp
  with r sv h show ?thesis by auto
qed

end
