(* ===== verification/Annex_Bfs.thy ===== *)
theory Annex_Bfs
  imports Annex_Db
begin

text \<open>
  The breadth-first search of crate \<open>annex-graph\<close> (\<open>find_path_bfs\<close> in \<open>lib.rs\<close>), over the
  neighbour lists that its two queries return. The visited set is a list without duplicates
  (the code inserts a node only after testing that it is absent), the queue a list of nodes
  with their paths. The search stops when \<open>MAX_BFS_VISITED_NODES\<close> nodes were visited, which is
  also why it terminates on every neighbour function.

  The contract of the search is proved in the locale \<open>symmetric_graph\<close>, whose only law is that
  the neighbour relation is symmetric.
\<close>

section \<open>The search\<close>

definition MAX_BFS_VISITED_NODES :: nat where
  "MAX_BFS_VISITED_NODES = 10000"

type_synonym bfs_queue = "(string \<times> string list) list"

text \<open>The loop over the neighbours of one node: \<open>Inl\<close> is the early return with the path found.\<close>

fun expand ::
  "string \<Rightarrow> string list \<Rightarrow> string list \<Rightarrow> bfs_queue \<Rightarrow> string list \<Rightarrow> string list + (bfs_queue \<times> string list)" where
  "expand target path [] queue visited = Inr (queue, visited)"
| "expand target path (n # ns) queue visited =
     (if n = target then Inl (path @ [n])
      else if n \<in> set visited then expand target path ns queue visited
      else expand target path ns (queue @ [(n, path @ [n])]) (n # visited))"

lemma expand_visited_length:
  "expand target path ns queue visited = Inr (queue', visited') \<Longrightarrow>
   length visited \<le> length visited' \<and> (length visited' = length visited \<longrightarrow> queue' = queue)"
  by (induction ns arbitrary: queue visited) (fastforce split: if_splits)+

function bfs_loop ::
  "(string \<Rightarrow> string list) \<Rightarrow> string \<Rightarrow> nat \<Rightarrow> bfs_queue \<Rightarrow> string list \<Rightarrow> string list option" where
  "bfs_loop nb target max_depth [] visited = None"
| "bfs_loop nb target max_depth ((current, path) # queue) visited =
     (if length path > max_depth then bfs_loop nb target max_depth queue visited
      else if length visited \<ge> MAX_BFS_VISITED_NODES then None
      else case expand target path (nb current) queue visited of
             Inl p \<Rightarrow> Some p
           | Inr (queue', visited') \<Rightarrow> bfs_loop nb target max_depth queue' visited')"
  by pat_completeness auto

termination
proof (relation "measures [\<lambda>(nb, target, max_depth, queue, visited). MAX_BFS_VISITED_NODES - length visited,
    \<lambda>(nb, target, max_depth, queue, visited). length queue]", goal_cases)
  case (3 nb target max_depth current path queue visited z queue' visited')
  then have "expand target path (nb current) queue visited = Inr (queue', visited')" by simp
  from expand_visited_length [OF this] 3 show ?case
    by (cases "length visited' = length visited") auto
qed auto

definition bfs :: "(string \<Rightarrow> string list) \<Rightarrow> string \<Rightarrow> string \<Rightarrow> nat \<Rightarrow> string list option" where
  "bfs nb from_node to_node max_depth =
     (if from_node = to_node then Some [from_node]
      else bfs_loop nb to_node max_depth [(from_node, [from_node])] [from_node])"

text \<open>A direct neighbour is found at once, whatever the cap.\<close>

lemma expand_target: "target \<in> set ns \<Longrightarrow> expand target path ns queue visited = Inl (path @ [target])"
  by (induction ns arbitrary: queue visited) auto

lemma bfs_neighbor: "v \<in> set (nb u) \<Longrightarrow> u \<noteq> v \<Longrightarrow> 0 < k \<Longrightarrow> bfs nb u v k = Some [u, v]"
  by (simp add: bfs_def expand_target MAX_BFS_VISITED_NODES_def)

section \<open>Paths\<close>

text \<open>\<open>path_to nb u xs v\<close>: the node list \<open>xs\<close> leads from \<open>u\<close> to \<open>v\<close> along neighbours.\<close>

definition path_to :: "(string \<Rightarrow> string list) \<Rightarrow> string \<Rightarrow> string list \<Rightarrow> string \<Rightarrow> bool" where
  "path_to nb u xs v \<longleftrightarrow> xs \<noteq> [] \<and> hd xs = u \<and> last xs = v \<and> successively (\<lambda>a b. b \<in> set (nb a)) xs"

lemma path_to_single: "path_to nb u [v] w \<longleftrightarrow> u = v \<and> w = v"
  by (auto simp: path_to_def)

lemma path_to_snoc:
  "xs \<noteq> [] \<Longrightarrow> path_to nb u (xs @ [w]) v \<longleftrightarrow> w = v \<and> path_to nb u xs (last xs) \<and> v \<in> set (nb (last xs))"
  by (auto simp: path_to_def successively_append_iff)

lemma path_to_extend: "path_to nb u xs v \<Longrightarrow> w \<in> set (nb v) \<Longrightarrow> path_to nb u (xs @ [w]) w"
  by (auto simp: path_to_def successively_append_iff)

text \<open>A path out of a set crosses its border.\<close>

lemma path_crosses:
  "path_to nb u xs v \<Longrightarrow> u \<in> V \<Longrightarrow> v \<notin> V \<Longrightarrow>
   \<exists>a b ys. a \<in> V \<and> b \<notin> V \<and> b \<in> set (nb a) \<and> path_to nb u ys a \<and> length ys < length xs"
proof (induction xs arbitrary: v rule: rev_induct)
  case Nil
  then show ?case by (simp add: path_to_def)
next
  case (snoc w xs)
  show ?case
  proof (cases "xs = []")
    case True
    then show ?thesis using snoc.prems by (auto simp: path_to_single)
  next
    case False
    then have p: "path_to nb u xs (last xs)" "w = v" "v \<in> set (nb (last xs))"
      using snoc.prems(1) by (auto simp: path_to_snoc)
    show ?thesis
    proof (cases "last xs \<in> V")
      case True
      with p snoc.prems(3) show ?thesis by (intro exI [of _ "last xs"] exI [of _ v] exI [of _ xs]) simp
    next
      case False
      from snoc.IH [OF p(1) snoc.prems(2) False] show ?thesis by (auto intro: less_SucI)
    qed
  qed
qed

section \<open>The invariant of the loop\<close>

text \<open>
  Every queued node carries a shortest path; queued paths are ordered by length and differ by
  at most one; every visited node that left the queue had all its neighbours visited; the
  target is not visited.
\<close>

definition bfs_inv :: "(string \<Rightarrow> string list) \<Rightarrow> string \<Rightarrow> string \<Rightarrow> bfs_queue \<Rightarrow> string list \<Rightarrow> bool" where
  "bfs_inv nb from target Q V \<longleftrightarrow>
     from \<in> set V \<and> target \<notin> set V \<and> distinct V \<and>
     (\<forall>(n, p) \<in> set Q. n \<in> set V \<and> path_to nb from p n \<and> (\<forall>q. path_to nb from q n \<longrightarrow> length p \<le> length q)) \<and>
     sorted (map (length \<circ> snd) Q) \<and>
     (\<forall>(n, p) \<in> set Q. \<forall>(m, q) \<in> set Q. length q \<le> Suc (length p)) \<and>
     (\<forall>v \<in> set V. v \<notin> fst ` set Q \<longrightarrow> set (nb v) \<subseteq> set V)"

lemma bfs_inv_start: "from \<noteq> target \<Longrightarrow> bfs_inv nb from target [(from, [from])] [from]"
  by (auto simp: bfs_inv_def path_to_single Suc_le_eq) (simp add: path_to_def)

text \<open>What is not visited is farther away than the head of the queue.\<close>

lemma unvisited_far:
  assumes inv: "bfs_inv nb from target ((n, p) # Q) V" and v: "v \<notin> set V" and q: "path_to nb from q v"
  shows "length p < length q"
proof -
  have "from \<in> set V" using inv by (simp add: bfs_inv_def)
  then obtain a b ys where a: "a \<in> set V" "b \<notin> set V" "b \<in> set (nb a)" "path_to nb from ys a" "length ys < length q"
    using path_crosses [OF q _ v] by blast
  then have "a \<in> fst ` set ((n, p) # Q)" using inv unfolding bfs_inv_def by blast
  then obtain x where "a = fst x" "x \<in> set ((n, p) # Q)" by (rule imageE)
  then obtain r where r: "(a, r) \<in> set ((n, p) # Q)" by (cases x) simp
  then have "length r \<le> length ys" using inv a(4) unfolding bfs_inv_def by blast
  moreover have "length p \<le> length r" using inv r by (auto simp: bfs_inv_def)
  ultimately show ?thesis using a(5) by simp
qed

lemma closed_unreachable:
  assumes inv: "bfs_inv nb from target [] V" and q: "path_to nb from q target"
  shows False
proof -
  have "from \<in> set V" "target \<notin> set V" using inv by (simp_all add: bfs_inv_def)
  then obtain a b ys where "a \<in> set V" "b \<notin> set V" "b \<in> set (nb a)"
    using path_crosses [OF q] by blast
  with inv show False by (auto simp: bfs_inv_def)
qed

text \<open>Expanding a node whose neighbours do not include the target.\<close>

lemma expand_Inr:
  "expand target path ns Q V = Inr (Q', V') \<Longrightarrow>
   target \<notin> set ns \<and>
   (\<exists>new. distinct new \<and> set new = set ns - set V \<and> Q' = Q @ map (\<lambda>n. (n, path @ [n])) new \<and> V' = rev new @ V)"
proof (induction ns arbitrary: Q V)
  case (Cons n ns)
  show ?case
  proof (cases "n \<in> set V")
    case True
    with Cons.prems have n: "n \<noteq> target" and r: "expand target path ns Q V = Inr (Q', V')"
      by (auto split: if_splits)
    from Cons.IH [OF r] n True show ?thesis by (auto simp: insert_Diff_if)
  next
    case False
    with Cons.prems have n: "n \<noteq> target"
      and r: "expand target path ns (Q @ [(n, path @ [n])]) (n # V) = Inr (Q', V')"
      by (auto split: if_splits)
    from Cons.IH [OF r] obtain new where new: "target \<notin> set ns" "distinct new" "set new = set ns - set (n # V)"
      "Q' = (Q @ [(n, path @ [n])]) @ map (\<lambda>n. (n, path @ [n])) new" "V' = rev new @ n # V" by blast
    have "distinct (n # new)" "set (n # new) = set (n # ns) - set V"
      "Q' = Q @ map (\<lambda>n. (n, path @ [n])) (n # new)" "V' = rev (n # new) @ V"
      using new False by auto
    with new(1) n show ?thesis by (intro conjI exI [of _ "n # new"]) auto
  qed
qed simp

lemma expand_Inl:
  "expand target path ns Q V = Inl p \<longleftrightarrow> target \<in> set ns \<and> p = path @ [target]"
  by (induction ns arbitrary: Q V) auto

lemma bfs_inv_step:
  assumes inv: "bfs_inv nb from target ((n, p) # Q) V"
    and e: "expand target p (nb n) Q V = Inr (Q', V')"
  shows "bfs_inv nb from target Q' V'"
proof -
  obtain new where t: "target \<notin> set (nb n)" and new: "distinct new" "set new = set (nb n) - set V"
    and Q': "Q' = Q @ map (\<lambda>n. (n, p @ [n])) new" and V': "V' = rev new @ V"
    using expand_Inr [OF e] by blast
  have p: "n \<in> set V" "path_to nb from p n" using inv by (simp_all add: bfs_inv_def)
  have queued: "m \<in> set V \<and> path_to nb from q m \<and> (\<forall>r. path_to nb from r m \<longrightarrow> length q \<le> length r)"
    if "(m, q) \<in> set Q" for m q
    using inv that unfolding bfs_inv_def by auto
  have head: "length p \<le> length q" "length q \<le> Suc (length p)" if "(m, q) \<in> set Q" for m q
    using inv that unfolding bfs_inv_def by auto
  have near: "length q' \<le> Suc (length q)" if "(m, q) \<in> set Q" "(m', q') \<in> set Q" for m q m' q'
    using inv that unfolding bfs_inv_def by auto
  have closed: "set (nb v) \<subseteq> set V" if "v \<in> set V" "v \<noteq> n" "v \<notin> fst ` set Q" for v
    using inv that unfolding bfs_inv_def by simp
  have srt: "sorted (map (length \<circ> snd) Q)" using inv by (simp add: bfs_inv_def)
  have fresh: "path_to nb from (p @ [m]) m \<and> (\<forall>q. path_to nb from q m \<longrightarrow> length (p @ [m]) \<le> length q)"
    if "m \<in> set new" for m
    using that new(2) path_to_extend [OF p(2)] unvisited_far [OF inv] by (auto simp: Suc_le_eq)
  have mem: "(m, q) \<in> set Q' \<longleftrightarrow> (m, q) \<in> set Q \<or> m \<in> set new \<and> q = p @ [m]" for m q
    by (auto simp: Q')
  show ?thesis
    unfolding bfs_inv_def
  proof (intro conjI)
    show "from \<in> set V'" "target \<notin> set V'" "distinct V'"
      using inv new t by (auto simp: bfs_inv_def V')
    show "\<forall>(m, q) \<in> set Q'. m \<in> set V' \<and> path_to nb from q m \<and> (\<forall>r. path_to nb from r m \<longrightarrow> length q \<le> length r)"
    proof (clarify)
      fix m q assume "(m, q) \<in> set Q'"
      then consider "(m, q) \<in> set Q" | "m \<in> set new" "q = p @ [m]" unfolding mem by blast
      then show "m \<in> set V' \<and> path_to nb from q m \<and> (\<forall>r. path_to nb from r m \<longrightarrow> length q \<le> length r)"
      proof cases
        case 1
        with queued [OF 1] show ?thesis by (simp add: V')
      next
        case 2
        with fresh [OF 2(1)] show ?thesis by (simp add: V')
      qed
    qed
    have "length (snd x) \<le> Suc (length p)" if "x \<in> set Q" for x using head(2) [of "fst x" "snd x"] that by simp
    then show "sorted (map (length \<circ> snd) Q')"
      using srt by (auto simp: Q' sorted_append comp_def sorted_map)
    show "\<forall>(m, q) \<in> set Q'. \<forall>(m', q') \<in> set Q'. length q' \<le> Suc (length q)"
    proof (clarify)
      fix m q m' q' assume "(m, q) \<in> set Q'" "(m', q') \<in> set Q'"
      then have "length p \<le> length q" "length q' \<le> Suc (length p) \<or> (m', q') \<in> set Q"
        "(m, q) \<in> set Q \<or> length q = Suc (length p)" "length q' \<le> Suc (length p)"
        unfolding mem using head by auto
      then show "length q' \<le> Suc (length q)" by linarith
    qed
    show "\<forall>v \<in> set V'. v \<notin> fst ` set Q' \<longrightarrow> set (nb v) \<subseteq> set V'"
    proof (intro ballI impI)
      fix v assume v: "v \<in> set V'" "v \<notin> fst ` set Q'"
      have "fst ` set Q' = fst ` set Q \<union> set new" by (simp add: Q' image_Un image_image)
      with v have w: "v \<in> set V" "v \<notin> fst ` set Q" by (auto simp: V')
      show "set (nb v) \<subseteq> set V'"
      proof (cases "v = n")
        case True
        then show ?thesis using new(2) by (auto simp: V')
      next
        case False
        then show ?thesis using closed [OF w(1) False w(2)] by (auto simp: V')
      qed
    qed
  qed
qed

section \<open>Correctness of the loop\<close>

lemma bfs_loop_too_deep:
  "\<forall>(n, p) \<in> set Q. max_depth < length p \<Longrightarrow> bfs_loop nb target max_depth Q V = None"
  by (induction Q) auto

lemma bfs_loop_sound:
  "bfs_inv nb from target Q V \<Longrightarrow> bfs_loop nb target max_depth Q V = Some xs \<Longrightarrow>
   path_to nb from xs target \<and> length xs \<le> Suc max_depth \<and> (\<forall>q. path_to nb from q target \<longrightarrow> length xs \<le> length q)"
proof (induction nb target max_depth Q V rule: bfs_loop.induct)
  case (2 nb target max_depth n p Q V)
  show ?case
  proof (cases "length p > max_depth")
    case True
    have "\<forall>(m, q) \<in> set ((n, p) # Q). max_depth < length q"
      using "2.prems"(1) True by (fastforce simp: bfs_inv_def)
    with "2.prems"(2) show ?thesis by (simp add: bfs_loop_too_deep)
  next
    case False
    with "2.prems"(2) have cap: "\<not> length V \<ge> MAX_BFS_VISITED_NODES" by (auto split: if_splits)
    show ?thesis
    proof (cases "expand target p (nb n) Q V")
      case (Inl r)
      then have r: "target \<in> set (nb n)" "r = p @ [target]" by (auto simp: expand_Inl)
      have xs: "xs = r" using "2.prems"(2) False cap Inl by simp
      have "path_to nb from p n" "target \<notin> set V" using "2.prems"(1) by (auto simp: bfs_inv_def)
      with r xs False show ?thesis
        using path_to_extend [of nb "from" p n target] unvisited_far [OF "2.prems"(1)] by (auto simp: Suc_le_eq)
    next
      case (Inr x)
      obtain Q' V' where x: "x = (Q', V')" by (cases x)
      have "bfs_inv nb from target Q' V'" using bfs_inv_step [OF "2.prems"(1)] Inr x by simp
      moreover have "bfs_loop nb target max_depth Q' V' = Some xs" using "2.prems"(2) False cap Inr x by simp
      ultimately show ?thesis using "2.IH"(2) [OF False cap Inr x [symmetric]] by blast
    qed
  qed
qed simp

lemma bfs_loop_complete:
  "bfs_inv nb from target Q V \<Longrightarrow> bfs_loop nb target max_depth Q V = None \<Longrightarrow>
   set V \<subseteq> N \<Longrightarrow> (\<forall>n. set (nb n) \<subseteq> N) \<Longrightarrow> finite N \<Longrightarrow> card N < MAX_BFS_VISITED_NODES \<Longrightarrow>
   path_to nb from q target \<Longrightarrow> Suc max_depth < length q"
proof (induction nb target max_depth Q V rule: bfs_loop.induct)
  case (1 nb target max_depth V)
  show ?case using closed_unreachable [OF "1.prems"(1,7)] ..
next
  case (2 nb target max_depth n p Q V)
  have t: "target \<notin> set V" using "2.prems"(1) by (simp add: bfs_inv_def)
  show ?case
  proof (cases "length p > max_depth")
    case True
    then show ?thesis using unvisited_far [OF "2.prems"(1) t "2.prems"(7)] by simp
  next
    case False
    have "distinct V" using "2.prems"(1) by (simp add: bfs_inv_def)
    then have "length V = card (set V)" by (simp add: distinct_card)
    also have "\<dots> \<le> card N" by (rule card_mono [OF "2.prems"(5,3)])
    finally have cap: "\<not> length V \<ge> MAX_BFS_VISITED_NODES" using "2.prems"(6) by linarith
    have "expand target p (nb n) Q V \<noteq> Inl r" for r
      using "2.prems"(2) False cap by (intro notI) simp
    then obtain x where x: "expand target p (nb n) Q V = Inr x"
      by (metis sum.exhaust)
    obtain Q' V' where x': "x = (Q', V')" by (cases x)
    have e: "expand target p (nb n) Q V = Inr (Q', V')" using x x' by simp
    have i: "bfs_inv nb from target Q' V'" by (rule bfs_inv_step [OF "2.prems"(1) e])
    have l: "bfs_loop nb target max_depth Q' V' = None" using "2.prems"(2) False cap e by simp
    have "set V' \<subseteq> set (nb n) \<union> set V" using expand_Inr [OF e] by (elim conjE exE) simp
    moreover have "set (nb n) \<subseteq> N" using "2.prems"(4) by simp
    ultimately have v: "set V' \<subseteq> N" using "2.prems"(3) by blast
    show ?thesis by (rule "2.IH"(2) [OF False cap x x' [symmetric] i l v "2.prems"(4-7)])
  qed
qed

section \<open>The contract of the search\<close>

text \<open>
  A symmetric neighbour relation over finitely many nodes: the undirected graph that a client
  of the search sees. The degree of separation is the length of a shortest path.
\<close>

definition reaches :: "(string \<Rightarrow> string list) \<Rightarrow> string \<Rightarrow> string \<Rightarrow> nat \<Rightarrow> bool" where
  "reaches nb u v k \<longleftrightarrow> (\<exists>xs. path_to nb u xs v \<and> length xs \<le> Suc k)"

lemma bfs_sound:
  assumes "bfs nb u v k = Some xs"
  shows "path_to nb u xs v \<and> length xs \<le> Suc k \<and> (\<forall>q. path_to nb u q v \<longrightarrow> length xs \<le> length q)"
proof (cases "u = v")
  case True
  have "Suc 0 \<le> length q" if "path_to nb u q v" for q
    using that by (cases q) (auto simp: path_to_def)
  with True assms show ?thesis by (auto simp: bfs_def path_to_single)
next
  case False
  then show ?thesis
    using assms bfs_loop_sound [OF bfs_inv_start [OF False, of nb], of k xs] by (simp add: bfs_def)
qed

lemma bfs_complete:
  assumes "bfs nb u v k = None" and "u \<in> N" and "\<And>n. set (nb n) \<subseteq> N" and "finite N"
    and "card N < MAX_BFS_VISITED_NODES"
  shows "\<not> reaches nb u v k"
proof -
  have ne: "u \<noteq> v" using assms(1) by (auto simp: bfs_def)
  have "bfs_loop nb v k [(u, [u])] [u] = None" using assms(1) ne by (simp add: bfs_def)
  have "Suc k < length q" if "path_to nb u q v" for q
    by (rule bfs_loop_complete [OF bfs_inv_start [OF ne] _ _ _ assms(4,5) that])
      (use assms(2,3) \<open>bfs_loop nb v k [(u, [u])] [u] = None\<close> in auto)
  then show ?thesis by (fastforce simp: reaches_def)
qed

locale symmetric_graph =
  fixes nb :: "string \<Rightarrow> string list"
    and nodes :: "string set"
  assumes sym: "v \<in> set (nb u) \<longleftrightarrow> u \<in> set (nb v)"
    and nodes: "set (nb u) \<subseteq> nodes"
    and fin: "finite nodes"
begin

lemma path_rev: "path_to nb u xs v \<Longrightarrow> path_to nb v (rev xs) u"
  using sym by (auto simp: path_to_def hd_rev last_rev successively_rev)

lemma reaches_sym: "reaches nb u v k \<longleftrightarrow> reaches nb v u k"
  unfolding reaches_def by (metis path_rev length_rev)

text \<open>Below the cap the search decides reachability within the depth.\<close>

lemma bfs_decides:
  assumes "card (insert u nodes) < MAX_BFS_VISITED_NODES"
  shows "(\<exists>xs. bfs nb u v k = Some xs) \<longleftrightarrow> reaches nb u v k"
proof (cases "bfs nb u v k")
  case None
  have "\<not> reaches nb u v k"
    by (rule bfs_complete [OF None, of "insert u nodes"]) (use nodes fin assms in auto)
  with None show ?thesis by simp
next
  case (Some xs)
  then show ?thesis using bfs_sound [OF Some] by (auto simp: reaches_def)
qed

lemma bfs_length:
  assumes "card (insert u nodes) < MAX_BFS_VISITED_NODES" and "bfs nb u v k = Some xs"
  shows "reaches nb u v j \<longleftrightarrow> length xs \<le> Suc j"
  using bfs_sound [OF assms(2)] unfolding reaches_def by (meson le_trans)

lemma bfs_symmetric:
  assumes "card (insert u (insert v nodes)) < MAX_BFS_VISITED_NODES"
  shows "map_option length (bfs nb u v k) = map_option length (bfs nb v u k)"
proof -
  have c: "card (insert u nodes) < MAX_BFS_VISITED_NODES" "card (insert v nodes) < MAX_BFS_VISITED_NODES"
    using assms card_mono [of "insert u (insert v nodes)" "insert u nodes"]
      card_mono [of "insert u (insert v nodes)" "insert v nodes"] fin by (auto simp: subset_iff)
  show ?thesis
  proof (cases "bfs nb u v k")
    case None
    then have "bfs nb v u k = None"
      using bfs_decides [OF c(1), of v k] bfs_decides [OF c(2), of u k] reaches_sym by auto
    with None show ?thesis by simp
  next
    case (Some xs)
    then obtain ys where ys: "bfs nb v u k = Some ys"
      using bfs_decides [OF c(1), of v k] bfs_decides [OF c(2), of u k] reaches_sym by auto
    have "length xs \<le> length ys" "length ys \<le> length xs"
      using bfs_sound [OF Some] bfs_sound [OF ys] path_rev by (metis length_rev)+
    with Some ys show ?thesis by simp
  qed
qed

end

end
