(* ===== verification/Annex_Graph.thy ===== *)
theory Annex_Graph
  imports Annex_Bfs Annex_Platform
begin

text \<open>
  Crate \<open>annex-graph\<close> (\<open>lib.rs\<close>): the nodes and edges of the presence graph, activity and
  pruning, and what a viewer sees of another participant by degree of separation. The search
  itself is in \<open>Annex_Bfs\<close>; here it runs on the edges of the database, taken in both
  directions, and the locale \<open>symmetric_graph\<close> is interpreted on them.

  The order in which SQLite returns the neighbours is the order of the rows; another order
  only selects another shortest path.
\<close>

section \<open>Types\<close>

datatype GraphError =
    GraphDatabaseError rusqlite_error
  | SerializationError string
  | NodeAlreadyExists string
  | NodeNotFound string

record GraphNode =
  gr_id :: int
  gr_server_id :: int
  gr_pseudonym_id :: string
  gr_node_type :: NodeType
  gr_active :: bool
  gr_last_seen_at :: "time option"
  gr_metadata_json :: "string option"
  gr_created_at :: time

record GraphEdge =
  gx_id :: int
  gx_server_id :: int
  gx_from_node :: string
  gx_to_node :: string
  gx_kind :: EdgeKind
  gx_weight :: rat
  gx_created_at :: time

record GraphProfile =
  pr_pseudonym_id :: string
  pr_node_type :: NodeType
  pr_active :: bool
  pr_created_at :: time
  pr_last_seen_at :: "time option"
  pr_metadata_json :: "string option"
  pr_visibility :: VisibilityLevel

record BfsPath =
  found :: bool
  path :: "string list"
  path_length :: nat

fun role_code_to_node_type :: "RoleCode \<Rightarrow> NodeType" where
  "role_code_to_node_type RoleCode.Human = NodeType.Human"
| "role_code_to_node_type RoleCode.AiAgent = NodeType.AiAgent"
| "role_code_to_node_type RoleCode.Collective = NodeType.Collective"
| "role_code_to_node_type RoleCode.Bridge = NodeType.Bridge"
| "role_code_to_node_type RoleCode.Service = NodeType.Service"

fun edge_kind_to_str :: "EdgeKind \<Rightarrow> string" where
  "edge_kind_to_str MemberOf = ''MEMBER_OF''"
| "edge_kind_to_str Connected = ''CONNECTED''"
| "edge_kind_to_str AgentServing = ''AGENT_SERVING''"
| "edge_kind_to_str FederatedWith = ''FEDERATED_WITH''"
| "edge_kind_to_str Moderates = ''MODERATES''"

definition str_to_edge_kind :: "string \<Rightarrow> GraphError + EdgeKind" where
  "str_to_edge_kind s =
     (if s = ''MEMBER_OF'' then Inr MemberOf
      else if s = ''CONNECTED'' then Inr Connected
      else if s = ''AGENT_SERVING'' then Inr AgentServing
      else if s = ''FEDERATED_WITH'' then Inr FederatedWith
      else if s = ''MODERATES'' then Inr Moderates
      else Inl (GraphDatabaseError (FromSqlConversionFailure 0)))"

fun node_type_str :: "NodeType \<Rightarrow> string" where
  "node_type_str NodeType.Human = ''HUMAN''"
| "node_type_str NodeType.AiAgent = ''AI_AGENT''"
| "node_type_str NodeType.Collective = ''COLLECTIVE''"
| "node_type_str NodeType.Bridge = ''BRIDGE''"
| "node_type_str NodeType.Service = ''SERVICE''"

definition str_to_node_type :: "string \<Rightarrow> GraphError + NodeType" where
  "str_to_node_type s =
     (if s = ''HUMAN'' then Inr NodeType.Human
      else if s = ''AI_AGENT'' then Inr NodeType.AiAgent
      else if s = ''COLLECTIVE'' then Inr NodeType.Collective
      else if s = ''BRIDGE'' then Inr NodeType.Bridge
      else if s = ''SERVICE'' then Inr NodeType.Service
      else Inl (GraphDatabaseError (FromSqlConversionFailure 0)))"

section \<open>Nodes\<close>

abbreviation node_rows :: "db \<Rightarrow> node_row list" where
  "node_rows d \<equiv> auto_rows (graph_nodes d)"

abbreviation edge_rows :: "db \<Rightarrow> edge_row list" where
  "edge_rows d \<equiv> auto_rows (graph_edges d)"

definition is_node :: "int \<Rightarrow> string \<Rightarrow> node_row \<Rightarrow> bool" where
  "is_node server_id pseudonym_id r \<longleftrightarrow> gn_server r = server_id \<and> gn_pseudonym r = pseudonym_id"

definition update_node_activity :: "time \<Rightarrow> db \<Rightarrow> int \<Rightarrow> string \<Rightarrow> bool \<times> db" where
  "update_node_activity now d server_id pseudonym_id =
     (let p1 = (\<lambda>r. is_node server_id pseudonym_id r \<and> gn_active r);
          c1 = count_where p1 (node_rows d);
          d1 = d\<lparr>graph_nodes := auto_update p1 (\<lambda>r. r\<lparr>gn_last_seen := Some now\<rparr>) (graph_nodes d)\<rparr>
      in if 0 < c1 then (False, d1)
      else
        let p2 = (\<lambda>r. is_node server_id pseudonym_id r \<and> \<not> gn_active r);
            c2 = count_where p2 (node_rows d1);
            d2 = d1\<lparr>graph_nodes :=
                   auto_update p2 (\<lambda>r. r\<lparr>gn_active := True, gn_last_seen := Some now\<rparr>) (graph_nodes d1)\<rparr>
        in if 0 < c2 then (True, d2) else (False, d2))"

text \<open>
  \<open>u64\<close> parameters above \<open>i64::MAX\<close> cannot be bound; the threshold is subtracted by SQLite's
  \<open>datetime\<close>, whose NULL makes the comparison false for every row.
\<close>

definition prune_inactive_nodes :: "time \<Rightarrow> db \<Rightarrow> int \<Rightarrow> u64 \<Rightarrow> (GraphError + string list) \<times> db" where
  "prune_inactive_nodes now d server_id threshold_seconds =
     (if unat threshold_seconds \<ge> 2 ^ 63 then (Inl (GraphDatabaseError ToSqlConversionFailure), d)
      else
        let cutoff = sqlite_datetime now (- int (unat threshold_seconds));
            p = (\<lambda>r. gn_server r = server_id \<and> gn_active r \<and> null_less (gn_last_seen r) cutoff)
        in (Inr (map gn_pseudonym (filter p (node_rows d))),
            d\<lparr>graph_nodes := auto_update p (\<lambda>r. r\<lparr>gn_active := False\<rparr>) (graph_nodes d)\<rparr>))"

definition graph_node_of :: "node_row \<Rightarrow> GraphError + GraphNode" where
  "graph_node_of r = and_then (str_to_node_type (gn_type r)) (\<lambda>ty.
     Inr \<lparr>gr_id = gn_id r, gr_server_id = gn_server r, gr_pseudonym_id = gn_pseudonym r, gr_node_type = ty,
       gr_active = gn_active r, gr_last_seen_at = gn_last_seen r, gr_metadata_json = gn_metadata r,
       gr_created_at = gn_created r\<rparr>)"

definition refreshed :: "time \<Rightarrow> string option \<Rightarrow> node_row \<Rightarrow> node_row" where
  "refreshed now metadata r = r\<lparr>gn_active := True, gn_last_seen := Some now,
     gn_metadata := (case metadata of Some m \<Rightarrow> Some m | None \<Rightarrow> gn_metadata r)\<rparr>"

definition ensure_graph_node ::
  "time \<Rightarrow> db \<Rightarrow> int \<Rightarrow> string \<Rightarrow> NodeType \<Rightarrow> string option \<Rightarrow> (GraphError + GraphNode) \<times> db" where
  "ensure_graph_node now d server_id pseudonym_id node_type metadata_json =
     (case first_where (is_node server_id pseudonym_id) (node_rows d) of
        Some r \<Rightarrow>
          (graph_node_of (refreshed now metadata_json r),
           d\<lparr>graph_nodes := auto_update (is_node server_id pseudonym_id) (refreshed now metadata_json) (graph_nodes d)\<rparr>)
      | None \<Rightarrow>
          let mk = (\<lambda>i. \<lparr>gn_id = i, gn_server = server_id, gn_pseudonym = pseudonym_id,
                gn_type = node_type_str node_type, gn_active = True, gn_last_seen = Some now,
                gn_metadata = metadata_json, gn_created = now\<rparr>)
          in (graph_node_of (mk (auto_next (graph_nodes d))), d\<lparr>graph_nodes := auto_insert mk (graph_nodes d)\<rparr>))"

definition get_graph_node :: "db \<Rightarrow> int \<Rightarrow> string \<Rightarrow> GraphError + GraphNode option" where
  "get_graph_node d server_id pseudonym_id =
     (case first_where (is_node server_id pseudonym_id) (node_rows d) of
        None \<Rightarrow> Inr None
      | Some r \<Rightarrow> and_then (graph_node_of r) (\<lambda>n. Inr (Some n)))"

section \<open>Edges\<close>

definition is_edge :: "int \<Rightarrow> string \<Rightarrow> string \<Rightarrow> string \<Rightarrow> edge_row \<Rightarrow> bool" where
  "is_edge server_id from_node to_node kind e \<longleftrightarrow>
     ge_server e = server_id \<and> ge_from e = from_node \<and> ge_to e = to_node \<and> ge_kind e = kind"

definition graph_edge_of :: "edge_row \<Rightarrow> GraphError + GraphEdge" where
  "graph_edge_of e = and_then (str_to_edge_kind (ge_kind e)) (\<lambda>k.
     Inr \<lparr>gx_id = ge_id e, gx_server_id = ge_server e, gx_from_node = ge_from e, gx_to_node = ge_to e,
       gx_kind = k, gx_weight = ge_weight e, gx_created_at = ge_created e\<rparr>)"

definition create_edge ::
  "time \<Rightarrow> db \<Rightarrow> int \<Rightarrow> string \<Rightarrow> string \<Rightarrow> EdgeKind \<Rightarrow> rat \<Rightarrow> (GraphError + GraphEdge) \<times> db" where
  "create_edge now d server_id from_node to_node kind weight =
     (if exists_where (is_edge server_id from_node to_node (edge_kind_to_str kind)) (edge_rows d)
      then (Inl (GraphDatabaseError (SqliteFailure ConstraintUnique)), d)
      else
        let mk = (\<lambda>i. \<lparr>ge_id = i, ge_server = server_id, ge_from = from_node, ge_to = to_node,
              ge_kind = edge_kind_to_str kind, ge_weight = weight, ge_created = now\<rparr>)
        in (graph_edge_of (mk (auto_next (graph_edges d))), d\<lparr>graph_edges := auto_insert mk (graph_edges d)\<rparr>))"

definition delete_edge :: "db \<Rightarrow> int \<Rightarrow> string \<Rightarrow> string \<Rightarrow> EdgeKind \<Rightarrow> nat \<times> db" where
  "delete_edge d server_id from_node to_node kind =
     (let p = is_edge server_id from_node to_node (edge_kind_to_str kind)
      in (count_where p (edge_rows d), d\<lparr>graph_edges := auto_delete p (graph_edges d)\<rparr>))"

definition get_edges :: "db \<Rightarrow> int \<Rightarrow> string \<Rightarrow> GraphError + GraphEdge list" where
  "get_edges d server_id from_node =
     collect_res (map graph_edge_of (filter (\<lambda>e. ge_server e = server_id \<and> ge_from e = from_node) (edge_rows d)))"

section \<open>Degrees of separation\<close>

definition neighbors :: "db \<Rightarrow> int \<Rightarrow> string \<Rightarrow> string list" where
  "neighbors d server_id current_node =
     map ge_to (filter (\<lambda>e. ge_server e = server_id \<and> ge_from e = current_node) (edge_rows d)) @
     map ge_from (filter (\<lambda>e. ge_server e = server_id \<and> ge_to e = current_node) (edge_rows d))"

definition find_path_bfs :: "db \<Rightarrow> int \<Rightarrow> string \<Rightarrow> string \<Rightarrow> u32 \<Rightarrow> BfsPath" where
  "find_path_bfs d server_id from_node to_node max_depth =
     (case bfs (neighbors d server_id) from_node to_node (unat max_depth) of
        Some p \<Rightarrow> \<lparr>found = True, path = p, path_length = length p - 1\<rparr>
      | None \<Rightarrow> \<lparr>found = False, path = [], path_length = 0\<rparr>)"

definition get_node_visibility :: "db \<Rightarrow> int \<Rightarrow> string \<Rightarrow> string \<Rightarrow> VisibilityLevel" where
  "get_node_visibility d server_id viewer target =
     (if viewer = target then VisSelf
      else
        let p = find_path_bfs d server_id viewer target 3
        in if \<not> found p then VisNone
           else if path_length p = 0 then VisSelf
           else if path_length p = 1 then Degree1
           else if path_length p = 2 then Degree2
           else if path_length p = 3 then Degree3
           else VisNone)"

fun visible_fields ::
  "VisibilityLevel \<Rightarrow> time option \<Rightarrow> string option \<Rightarrow> time option \<times> string option" where
  "visible_fields VisSelf last_seen metadata = (last_seen, metadata)"
| "visible_fields Degree1 last_seen metadata = (last_seen, None)"
| "visible_fields Degree2 last_seen metadata = (None, None)"
| "visible_fields Degree3 last_seen metadata = (None, None)"
| "visible_fields AggregateOnly last_seen metadata = (None, None)"
| "visible_fields VisNone last_seen metadata = (None, None)"

definition get_visible_profile :: "db \<Rightarrow> int \<Rightarrow> string \<Rightarrow> string \<Rightarrow> GraphError + GraphProfile" where
  "get_visible_profile d server_id viewer target =
     and_then (get_graph_node d server_id target) (\<lambda>found_node.
       and_then (ok_or found_node (NodeNotFound target)) (\<lambda>node.
         let visibility = get_node_visibility d server_id viewer target;
             (last_seen_at, metadata_json) =
               visible_fields visibility (gr_last_seen_at node) (gr_metadata_json node)
         in Inr \<lparr>pr_pseudonym_id = gr_pseudonym_id node, pr_node_type = gr_node_type node,
              pr_active = gr_active node, pr_created_at = gr_created_at node,
              pr_last_seen_at = last_seen_at, pr_metadata_json = metadata_json, pr_visibility = visibility\<rparr>))"

section \<open>Kinds and types as text\<close>

definition parse_edge_kind :: "string \<Rightarrow> EdgeKind option" where
  "parse_edge_kind s = (case str_to_edge_kind s of Inl _ \<Rightarrow> None | Inr k \<Rightarrow> Some k)"

definition parse_node_type :: "string \<Rightarrow> NodeType option" where
  "parse_node_type s = (case str_to_node_type s of Inl _ \<Rightarrow> None | Inr t \<Rightarrow> Some t)"

interpretation edge_kind_text: codec edge_kind_to_str parse_edge_kind
proof (standard, goal_cases)
  case (1 a)
  show ?case by (cases a) (simp_all add: parse_edge_kind_def str_to_edge_kind_def)
next
  case (2 b a)
  then show ?case by (auto simp: parse_edge_kind_def str_to_edge_kind_def split: if_splits)
qed

interpretation node_type_text: codec node_type_str parse_node_type
proof (standard, goal_cases)
  case (1 a)
  show ?case by (cases a) (simp_all add: parse_node_type_def str_to_node_type_def)
next
  case (2 b a)
  then show ?case by (auto simp: parse_node_type_def str_to_node_type_def split: if_splits)
qed

lemma node_type_round [simp]: "str_to_node_type (node_type_str t) = Inr t"
  by (cases t) (simp_all add: str_to_node_type_def)

lemma edge_kind_round [simp]: "str_to_edge_kind (edge_kind_to_str k) = Inr k"
  by (cases k) (simp_all add: str_to_edge_kind_def)

text \<open>A role and the node type it becomes have the same text.\<close>

lemma node_type_label: "node_type_str (role_code_to_node_type r) = label r"
  by (cases r) simp_all

section \<open>The neighbour relation is symmetric\<close>

definition adjacent :: "db \<Rightarrow> int \<Rightarrow> string \<Rightarrow> string \<Rightarrow> bool" where
  "adjacent d s u v \<longleftrightarrow>
     exists_where (\<lambda>e. ge_server e = s \<and> (ge_from e = u \<and> ge_to e = v \<or> ge_from e = v \<and> ge_to e = u)) (edge_rows d)"

lemma neighbors_adjacent: "v \<in> set (neighbors d s u) \<longleftrightarrow> adjacent d s u v"
  by (auto simp: neighbors_def adjacent_def exists_where_iff image_iff)

definition graph_names :: "db \<Rightarrow> string set" where
  "graph_names d = ge_from ` set (edge_rows d) \<union> ge_to ` set (edge_rows d)"

interpretation graph: symmetric_graph "neighbors d s" "graph_names d" for d s
proof (standard, goal_cases)
  case (1 v u)
  have "adjacent d s u v = adjacent d s v u"
    unfolding adjacent_def by (rule arg_cong [where f = "\<lambda>p. exists_where p (edge_rows d)"]) blast
  then show ?case by (simp add: neighbors_adjacent)
next
  case (2 u)
  show ?case by (auto simp: neighbors_def graph_names_def)
next
  case 3
  show ?case by (simp add: graph_names_def)
qed

section \<open>The invariant of the tables\<close>

definition graph_ok :: "db \<Rightarrow> bool" where
  "graph_ok d \<longleftrightarrow> auto_wf gn_id (graph_nodes d) \<and> auto_wf ge_id (graph_edges d)
     \<and> distinct (map (\<lambda>r. (gn_server r, gn_pseudonym r)) (node_rows d))
     \<and> distinct (map (\<lambda>e. (ge_server e, ge_from e, ge_to e, ge_kind e)) (edge_rows d))
     \<and> gn_type ` set (node_rows d) \<subseteq> range node_type_str
     \<and> ge_kind ` set (edge_rows d) \<subseteq> range edge_kind_to_str"

datatype graph_op =
    EnsureNode time int string NodeType "string option"
  | TouchNode time int string
  | Prune time int u64
  | CreateEdge time int string string EdgeKind rat
  | DeleteEdge int string string EdgeKind

fun graph_step :: "graph_op \<Rightarrow> db \<Rightarrow> db" where
  "graph_step (EnsureNode now s p ty md) d = snd (ensure_graph_node now d s p ty md)"
| "graph_step (TouchNode now s p) d = snd (update_node_activity now d s p)"
| "graph_step (Prune now s t) d = snd (prune_inactive_nodes now d s t)"
| "graph_step (CreateEdge now s u v k w) d = snd (create_edge now d s u v k w)"
| "graph_step (DeleteEdge s u v k) d = snd (delete_edge d s u v k)"

lemma graph_ok_migrated [simp]: "graph_ok (migrated_db t)"
  by (simp add: graph_ok_def)

lemma graph_ok_update:
  assumes "graph_ok d"
    and "\<And>r. gn_id (f r) = gn_id r \<and> gn_server (f r) = gn_server r \<and> gn_pseudonym (f r) = gn_pseudonym r
           \<and> gn_type (f r) = gn_type r"
  shows "graph_ok (d\<lparr>graph_nodes := auto_update p f (graph_nodes d)\<rparr>)"
proof -
  have m: "map (\<lambda>r. (gn_server r, gn_pseudonym r)) (update_where p f (node_rows d)) =
      map (\<lambda>r. (gn_server r, gn_pseudonym r)) (node_rows d)"
    "map gn_type (update_where p f (node_rows d)) = map gn_type (node_rows d)"
    using assms(2) by (intro map_update_where; simp)+
  have "gn_type ` set (update_where p f (node_rows d)) = gn_type ` set (node_rows d)"
    using m(2) by (metis set_map)
  then show ?thesis
    using assms auto_wf_update [of gn_id "graph_nodes d" p f] m(1) unfolding graph_ok_def by simp
qed

lemma is_node_key: "is_node s p r \<longleftrightarrow> (gn_server r, gn_pseudonym r) = (s, p)"
  by (auto simp: is_node_def)

lemma graph_ok_insert:
  assumes "graph_ok d" and "first_where (is_node s p) (node_rows d) = None"
    and "\<And>i. gn_id (mk i) = i" and "\<And>i. gn_server (mk i) = s" and "\<And>i. gn_pseudonym (mk i) = p"
    and "\<And>i. gn_type (mk i) = node_type_str ty"
  shows "graph_ok (d\<lparr>graph_nodes := auto_insert mk (graph_nodes d)\<rparr>)"
proof -
  have "(s, p) \<notin> (\<lambda>r. (gn_server r, gn_pseudonym r)) ` set (node_rows d)"
    by (rule key_not_image) (use assms(2) in \<open>simp only: first_where_None is_node_key\<close>)
  moreover have "auto_wf gn_id (auto_insert mk (graph_nodes d))"
    using assms(1,3) by (intro auto_wf_insert) (simp_all add: graph_ok_def)
  ultimately show ?thesis
    using assms(1) by (simp add: graph_ok_def assms(4-6))
qed

lemma graph_ok_edge:
  assumes "graph_ok d" and "\<not> exists_where (is_edge s u v (edge_kind_to_str k)) (edge_rows d)"
    and "\<And>i. ge_id (mk i) = i" and "\<And>i. (ge_server (mk i), ge_from (mk i), ge_to (mk i), ge_kind (mk i)) = (s, u, v, edge_kind_to_str k)"
  shows "graph_ok (d\<lparr>graph_edges := auto_insert mk (graph_edges d)\<rparr>)"
proof -
  have "(s, u, v, edge_kind_to_str k) \<notin> (\<lambda>e. (ge_server e, ge_from e, ge_to e, ge_kind e)) ` set (edge_rows d)"
    by (rule key_not_image) (use assms(2) in \<open>simp add: exists_where_iff is_edge_def\<close>)
  moreover have "auto_wf ge_id (auto_insert mk (graph_edges d))"
    using assms(1,3) by (intro auto_wf_insert) (simp_all add: graph_ok_def)
  ultimately show ?thesis
    using assms(1) assms(4) [of "auto_seq (graph_edges d) + 1"] by (simp add: graph_ok_def)
qed

lemma graph_ok_delete_edge:
  assumes "graph_ok d"
  shows "graph_ok (d\<lparr>graph_edges := auto_delete p (graph_edges d)\<rparr>)"
proof -
  have "ge_kind ` set (delete_where p (edge_rows d)) \<subseteq> range edge_kind_to_str"
    using assms unfolding graph_ok_def set_delete_where by blast
  then show ?thesis
    using assms auto_wf_delete [of ge_id "graph_edges d" p]
      distinct_map_delete_where [of "\<lambda>e. (ge_server e, ge_from e, ge_to e, ge_kind e)" "edge_rows d" p]
    unfolding graph_ok_def by simp
qed

interpretation graph_machine: invariant_machine graph_step graph_ok
proof (standard, goal_cases)
  case (1 d op)
  show ?case
  proof (cases op)
    case (EnsureNode now s p ty md)
    show ?thesis
    proof (cases "first_where (is_node s p) (node_rows d)")
      case None
      then show ?thesis
        using graph_ok_insert [OF 1 None] by (simp add: EnsureNode ensure_graph_node_def Let_def)
    next
      case (Some r)
      then show ?thesis
        using graph_ok_update [OF 1] by (simp add: EnsureNode ensure_graph_node_def Let_def refreshed_def)
    qed
  next
    case (TouchNode now s p)
    then show ?thesis using graph_ok_update [OF graph_ok_update [OF 1]] graph_ok_update [OF 1]
      by (simp add: update_node_activity_def Let_def)
  next
    case (Prune now s t)
    then show ?thesis using 1 graph_ok_update [OF 1] by (simp add: prune_inactive_nodes_def Let_def)
  next
    case (CreateEdge now s u v k w)
    then show ?thesis using 1 graph_ok_edge [OF 1, of s u v k] by (simp add: create_edge_def Let_def)
  next
    case (DeleteEdge s u v k)
    then show ?thesis using graph_ok_delete_edge [OF 1] by (simp add: delete_edge_def Let_def)
  qed
qed

text \<open>In a well-formed table a key selects its row, and every row is readable.\<close>

lemma node_lookup:
  assumes "graph_ok d" and "r \<in> set (node_rows d)" and "is_node s p r"
  shows "first_where (is_node s p) (node_rows d) = Some r"
  using assms by (intro first_where_unique [where key = "\<lambda>r. (gn_server r, gn_pseudonym r)"])
    (simp_all add: graph_ok_def is_node_key)

lemma node_readable:
  assumes "graph_ok d" and "r \<in> set (node_rows d)"
  obtains ty where "gn_type r = node_type_str ty" and
    "graph_node_of r = Inr \<lparr>gr_id = gn_id r, gr_server_id = gn_server r, gr_pseudonym_id = gn_pseudonym r,
       gr_node_type = ty, gr_active = gn_active r, gr_last_seen_at = gn_last_seen r,
       gr_metadata_json = gn_metadata r, gr_created_at = gn_created r\<rparr>"
proof -
  have "gn_type r \<in> range node_type_str" using assms unfolding graph_ok_def by blast
  then obtain ty where "gn_type r = node_type_str ty" by blast
  then show thesis by (intro that [of ty]) (simp_all add: graph_node_of_def)
qed

section \<open>Degrees\<close>

text \<open>\<open>degree d s u v k\<close>: a shortest path between the two participants has \<open>k\<close> edges.\<close>

definition degree :: "db \<Rightarrow> int \<Rightarrow> string \<Rightarrow> string \<Rightarrow> nat \<Rightarrow> bool" where
  "degree d s u v k \<longleftrightarrow> reaches (neighbors d s) u v k \<and> (\<forall>j < k. \<not> reaches (neighbors d s) u v j)"

definition below_cap :: "db \<Rightarrow> string \<Rightarrow> string \<Rightarrow> bool" where
  "below_cap d u v \<longleftrightarrow> card (insert u (insert v (graph_names d))) < MAX_BFS_VISITED_NODES"

lemma below_cap_left: "below_cap d u v \<Longrightarrow> card (insert u (graph_names d)) < MAX_BFS_VISITED_NODES"
  using card_mono [of "insert u (insert v (graph_names d))" "insert u (graph_names d)"] graph.fin
  by (auto simp: below_cap_def subset_iff)

lemma degree_unique: "degree d s u v j \<Longrightarrow> degree d s u v k \<Longrightarrow> j = k"
  unfolding degree_def by (metis linorder_neqE_nat)

lemma degree_sym: "degree d s u v k \<longleftrightarrow> degree d s v u k"
  unfolding degree_def using graph.reaches_sym by blast

lemma degree_0: "degree d s u v 0 \<longleftrightarrow> u = v"
proof
  assume "degree d s u v 0"
  then obtain xs where "path_to (neighbors d s) u xs v" "length xs \<le> 1" by (auto simp: degree_def reaches_def)
  then show "u = v" by (cases xs) (auto simp: path_to_def)
next
  assume "u = v"
  then have "path_to (neighbors d s) u [v] v" by (simp add: path_to_single)
  then show "degree d s u v 0" unfolding degree_def reaches_def by auto
qed

lemma degree_1: "degree d s u v 1 \<Longrightarrow> adjacent d s u v"
proof -
  assume *: "degree d s u v 1"
  then obtain xs where xs: "path_to (neighbors d s) u xs v" "length xs \<le> 2"
    by (auto simp: degree_def reaches_def)
  have "u \<noteq> v" using * degree_0 degree_unique by (metis zero_neq_one)
  with xs obtain a where "xs = [u, a]" by (cases xs; cases "tl xs") (auto simp: path_to_def)
  with xs(1) show ?thesis by (auto simp: path_to_def neighbors_adjacent)
qed

lemma bfs_degree:
  assumes "bfs (neighbors d s) u v k = Some xs"
  shows "degree d s u v (length xs - 1)"
proof -
  note b = bfs_sound [OF assms]
  have l: "length xs = Suc (length xs - 1)" using b by (cases xs) (auto simp: path_to_def)
  have "reaches (neighbors d s) u v (length xs - 1)" using b l unfolding reaches_def by auto
  moreover have "\<not> reaches (neighbors d s) u v j" if "j < length xs - 1" for j
    using b l that unfolding reaches_def by (metis le_trans not_less_eq_eq not_le)
  ultimately show ?thesis by (simp add: degree_def)
qed

section \<open>Properties\<close>

text \<open>
  C30. The path search is correct: a path it reports starts at the first participant, ends at the
  second, follows edges of the server in either direction, has the reported number of edges,
  which is at most the depth asked for, and is a shortest path; while fewer than the cap of
  10000 participants are involved, it reports one exactly when the two are connected within
  that depth, and the answer has the same length in the other direction.
\<close>

theorem find_path_correct:
  assumes "b = find_path_bfs d s u v k"
  shows "(found b \<longrightarrow>
        path b \<noteq> [] \<and> hd (path b) = u \<and> last (path b) = v
        \<and> successively (adjacent d s) (path b)
        \<and> length (path b) = Suc (path_length b) \<and> path_length b \<le> unat k
        \<and> degree d s u v (path_length b))
    \<and> (\<not> found b \<longrightarrow> path b = [] \<and> path_length b = 0)
    \<and> (below_cap d u v \<longrightarrow>
        (found b \<longleftrightarrow> reaches (neighbors d s) u v (unat k))
        \<and> found b = found (find_path_bfs d s v u k) \<and> path_length b = path_length (find_path_bfs d s v u k))"
proof -
  have sym: "map_option length (bfs (neighbors d s) u v (unat k)) = map_option length (bfs (neighbors d s) v u (unat k))"
    if "below_cap d u v"
    using graph.bfs_symmetric that by (simp add: below_cap_def)
  have dec: "(\<exists>xs. bfs (neighbors d s) u v (unat k) = Some xs) \<longleftrightarrow> reaches (neighbors d s) u v (unat k)"
    if "below_cap d u v"
    using graph.bfs_decides [OF below_cap_left [OF that]] .
  show ?thesis
  proof (cases "bfs (neighbors d s) u v (unat k)")
    case None
    then show ?thesis using sym dec by (auto simp: assms find_path_bfs_def split: option.splits)
  next
    case (Some xs)
    note b = bfs_sound [OF Some] and deg = bfs_degree [OF Some]
    have "(\<lambda>a b. b \<in> set (neighbors d s a)) = adjacent d s" by (simp add: neighbors_adjacent fun_eq_iff)
    then have "successively (adjacent d s) xs" using b [unfolded path_to_def] by metis
    with b have xs: "xs \<noteq> []" "hd xs = u" "last xs = v" "successively (adjacent d s) xs" "length xs \<le> Suc (unat k)"
      by (simp_all add: path_to_def)
    then have l: "length xs = Suc (length xs - 1)" by (cases xs) auto
    have "found (find_path_bfs d s v u k) \<and> path_length (find_path_bfs d s v u k) = length xs - 1"
      if cap: "below_cap d u v"
    proof -
      obtain ys where "bfs (neighbors d s) v u (unat k) = Some ys" "length ys = length xs"
        using sym [OF cap] Some by (cases "bfs (neighbors d s) v u (unat k)") auto
      then show ?thesis by (simp add: find_path_bfs_def)
    qed
    then show ?thesis using Some dec xs l deg by (auto simp: assms find_path_bfs_def)
  qed
qed

lemma visibility_self: "get_node_visibility d s u v = VisSelf \<longleftrightarrow> u = v"
proof
  assume self: "get_node_visibility d s u v = VisSelf"
  show "u = v"
  proof (rule ccontr)
    assume ne: "u \<noteq> v"
    with self obtain xs where xs: "bfs (neighbors d s) u v 3 = Some xs" "length xs - 1 = 0"
      by (auto simp: get_node_visibility_def find_path_bfs_def Let_def split: option.splits if_splits)
    with bfs_degree [OF xs(1)] ne show False by (simp add: degree_0)
  qed
qed (simp add: get_node_visibility_def)

lemma visibility_degree1: "get_node_visibility d s u v = Degree1 \<longleftrightarrow> u \<noteq> v \<and> adjacent d s u v"
proof
  assume deg: "get_node_visibility d s u v = Degree1"
  then obtain xs where xs: "u \<noteq> v" "bfs (neighbors d s) u v 3 = Some xs" "length xs - 1 = 1"
    by (auto simp: get_node_visibility_def find_path_bfs_def Let_def split: option.splits if_splits)
  with bfs_degree [OF xs(2)] show "u \<noteq> v \<and> adjacent d s u v" by (simp add: degree_1)
next
  assume "u \<noteq> v \<and> adjacent d s u v"
  then have "bfs (neighbors d s) u v 3 = Some [u, v]" by (intro bfs_neighbor) (simp_all add: neighbors_adjacent)
  with \<open>u \<noteq> v \<and> adjacent d s u v\<close> show "get_node_visibility d s u v = Degree1"
    by (simp add: get_node_visibility_def find_path_bfs_def)
qed

lemma visibility_unreached: "\<not> reaches (neighbors d s) u v 3 \<Longrightarrow> get_node_visibility d s u v = VisNone"
proof -
  assume n: "\<not> reaches (neighbors d s) u v 3"
  have "bfs (neighbors d s) u v 3 = None"
    using n bfs_sound [of "neighbors d s" u v 3] by (cases "bfs (neighbors d s) u v 3") (auto simp: reaches_def path_to_def)
  moreover have "reaches (neighbors d s) v v 3" unfolding reaches_def by (rule exI [of _ "[v]"]) (simp add: path_to_single)
  then have "u \<noteq> v" using n by blast
  ultimately show ?thesis by (simp add: get_node_visibility_def find_path_bfs_def)
qed

text \<open>
  Visibility is the degree of separation: while the graph is below the search cap, a
  participant sees itself as such, others at distance one to three at that degree, and anyone
  farther away or unconnected not at all; visibility is mutual, and the aggregate level of the
  type is never assigned.
\<close>

theorem visibility_is_degree:
  assumes "below_cap d u v"
  shows "(get_node_visibility d s u v = VisSelf \<longleftrightarrow> u = v)
    \<and> (get_node_visibility d s u v = Degree1 \<longleftrightarrow> degree d s u v 1)
    \<and> (get_node_visibility d s u v = Degree2 \<longleftrightarrow> degree d s u v 2)
    \<and> (get_node_visibility d s u v = Degree3 \<longleftrightarrow> degree d s u v 3)
    \<and> (get_node_visibility d s u v = VisNone \<longleftrightarrow> \<not> reaches (neighbors d s) u v 3)
    \<and> get_node_visibility d s u v = get_node_visibility d s v u
    \<and> get_node_visibility d s u v \<noteq> AggregateOnly"
proof -
  have dec: "(\<exists>xs. bfs (neighbors d s) u v 3 = Some xs) \<longleftrightarrow> reaches (neighbors d s) u v 3"
    by (rule graph.bfs_decides [OF below_cap_left [OF assms]])
  have sym: "map_option length (bfs (neighbors d s) u v 3) = map_option length (bfs (neighbors d s) v u 3)"
    using graph.bfs_symmetric assms by (simp add: below_cap_def)
  have none: "degree d s u v j \<Longrightarrow> j \<le> 3 \<Longrightarrow> reaches (neighbors d s) u v 3" for j
    unfolding degree_def reaches_def by fastforce
  show ?thesis
  proof (cases "u = v")
    case True
    then have "degree d s u v 0" by (simp add: degree_0)
    then show ?thesis
      using True none [of 0] degree_unique [of d s u v 0 1] degree_unique [of d s u v 0 2]
        degree_unique [of d s u v 0 3] by (auto simp: get_node_visibility_def)
  next
    case False
    then have d0: "\<not> degree d s u v 0" by (simp add: degree_0)
    show ?thesis
    proof (cases "bfs (neighbors d s) u v 3")
      case None
      then have "get_node_visibility d s u v = VisNone" "get_node_visibility d s v u = VisNone"
        "\<not> reaches (neighbors d s) u v 3"
        using False sym dec by (auto simp: get_node_visibility_def find_path_bfs_def)
      then show ?thesis using False none [of 1] none [of 2] none [of 3] by auto
    next
      case (Some xs)
      define k where "k = length xs - 1"
      have deg: "degree d s u v k" using bfs_degree [OF Some] by (simp add: k_def)
      have k: "k \<le> 3" using bfs_sound [OF Some, THEN conjunct2, THEN conjunct1] by (simp add: k_def)
      have "k \<noteq> 0" using deg d0 by metis
      with k have "k = 1 \<or> k = 2 \<or> k = 3" by linarith
      moreover have "get_node_visibility d s u v = (if k = 1 then Degree1 else if k = 2 then Degree2 else Degree3)"
        using False Some calculation by (auto simp: get_node_visibility_def find_path_bfs_def k_def Let_def)
      moreover obtain ys where "bfs (neighbors d s) v u 3 = Some ys" "length ys = length xs"
        using sym Some by (cases "bfs (neighbors d s) v u 3") auto
      then have "get_node_visibility d s v u = (if k = 1 then Degree1 else if k = 2 then Degree2 else Degree3)"
        using False calculation(1) by (auto simp: get_node_visibility_def find_path_bfs_def k_def Let_def)
      moreover have "degree d s u v j \<longleftrightarrow> j = k" for j using deg degree_unique by blast
      moreover have "reaches (neighbors d s) u v 3" using none [OF deg k] .
      ultimately show ?thesis using False by auto
    qed
  qed
qed

text \<open>
  C31. What a profile discloses, exactly, and whether or not the search cap is reached. It is given
  for every stored participant, to every viewer: the type, the activity and the time of creation
  always, also when the visibility is \<open>None\<close> for want of a path of at most three edges; the time
  last seen to the participant itself and its direct neighbours; the metadata to the
  participant alone. So say the comments of \<open>GraphProfile\<close> and \<open>get_visible_profile\<close>. The
  promise of \<open>HUMANS.md\<close> is another one: there the first degree gets full information, and
  beyond the third there are aggregates only.
\<close>

theorem profile_disclosure:
  assumes "graph_ok d"
  shows "case get_visible_profile d s viewer target of
      Inl e \<Rightarrow> e = NodeNotFound target \<and> first_where (is_node s target) (node_rows d) = None
    | Inr p \<Rightarrow> \<exists>r. first_where (is_node s target) (node_rows d) = Some r
        \<and> pr_pseudonym_id p = target \<and> node_type_str (pr_node_type p) = gn_type r
        \<and> pr_active p = gn_active r \<and> pr_created_at p = gn_created r
        \<and> pr_last_seen_at p = (if viewer = target \<or> adjacent d s viewer target then gn_last_seen r else None)
        \<and> pr_metadata_json p = (if viewer = target then gn_metadata r else None)
        \<and> pr_visibility p = get_node_visibility d s viewer target
        \<and> (\<not> reaches (neighbors d s) viewer target 3 \<longrightarrow> pr_visibility p = VisNone)"
proof (cases "first_where (is_node s target) (node_rows d)")
  case None
  then show ?thesis by (simp add: get_visible_profile_def get_graph_node_def)
next
  case (Some r)
  then have r: "r \<in> set (node_rows d)" "gn_pseudonym r = target"
    by (auto dest!: first_where_Some simp: is_node_def)
  obtain ty where ty: "gn_type r = node_type_str ty" and
    g: "graph_node_of r = Inr \<lparr>gr_id = gn_id r, gr_server_id = gn_server r, gr_pseudonym_id = gn_pseudonym r,
       gr_node_type = ty, gr_active = gn_active r, gr_last_seen_at = gn_last_seen r,
       gr_metadata_json = gn_metadata r, gr_created_at = gn_created r\<rparr>"
    by (rule node_readable [OF assms r(1)])
  let ?vis = "get_node_visibility d s viewer target"
  have "?vis = VisNone" if "\<not> reaches (neighbors d s) viewer target 3"
    by (rule visibility_unreached [OF that])
  then show ?thesis
    using Some g ty r(2) visibility_self [of d s viewer target] visibility_degree1 [of d s viewer target]
    by (cases ?vis) (auto simp: get_visible_profile_def get_graph_node_def Let_def)
qed

section \<open>Node lifecycle\<close>

lemma other_node_kept:
  assumes "(s', p') \<noteq> (s, p)" and "\<And>r. gn_server (f r) = gn_server r \<and> gn_pseudonym (f r) = gn_pseudonym r"
  shows "first_where (is_node s' p') (update_where (is_node s p) f rs) = first_where (is_node s' p') rs"
proof -
  have "first_where (is_node s' p') (update_where (is_node s p) f rs) =
      map_option (\<lambda>r. if is_node s p r then f r else r) (first_where (is_node s' p') rs)"
    by (rule first_where_update_where) (simp add: is_node_def assms(2))
  moreover have "\<not> is_node s p r" if "first_where (is_node s' p') rs = Some r" for r
    using first_where_Some [OF that] assms(1) by (simp add: is_node_key)
  ultimately show ?thesis by (cases "first_where (is_node s' p') rs") simp_all
qed

lemma same_node_updated:
  assumes "\<And>r. gn_server (f r) = gn_server r \<and> gn_pseudonym (f r) = gn_pseudonym r"
    and "first_where (is_node s p) rs = Some r"
  shows "first_where (is_node s p) (update_where (is_node s p) f rs) = Some (f r)"
proof -
  have "first_where (is_node s p) (update_where (is_node s p) f rs) =
      map_option (\<lambda>r. if is_node s p r then f r else r) (first_where (is_node s p) rs)"
    by (rule first_where_update_where) (simp add: is_node_def assms(1))
  then show ?thesis using assms(2) first_where_Some [OF assms(2)] by simp
qed

lemma refreshed_simps [simp]:
  "gn_id (refreshed now md r) = gn_id r" "gn_server (refreshed now md r) = gn_server r"
  "gn_pseudonym (refreshed now md r) = gn_pseudonym r" "gn_type (refreshed now md r) = gn_type r"
  "gn_created (refreshed now md r) = gn_created r" "gn_active (refreshed now md r)"
  "gn_last_seen (refreshed now md r) = Some now"
  "gn_metadata (refreshed now md r) = (case md of Some m \<Rightarrow> Some m | None \<Rightarrow> gn_metadata r)"
  "refreshed now md (refreshed now md r) = refreshed now md r"
  by (simp_all add: refreshed_def split: option.split)

lemma update_where_idem:
  "(\<And>r. p r \<Longrightarrow> f (f r) = f r) \<Longrightarrow> (\<And>r. p (f r) = p r) \<Longrightarrow>
   update_where p f (update_where p f rs) = update_where p f rs"
  by (simp add: update_where_def)

text \<open>The row that \<open>ensure_graph_node\<close> leaves behind.\<close>

lemma ensure_row:
  fixes now d s p ty md
  defines "d' \<equiv> snd (ensure_graph_node now d s p ty md)"
  obtains r where "first_where (is_node s p) (node_rows d') = Some r"
    and "fst (ensure_graph_node now d s p ty md) = graph_node_of r"
    and "gn_active r" and "gn_last_seen r = Some now"
    and "case first_where (is_node s p) (node_rows d) of
           None \<Rightarrow> gn_type r = node_type_str ty \<and> gn_metadata r = md
         | Some r0 \<Rightarrow> r = refreshed now md r0"
    and "refreshed now md r = r"
proof (cases "first_where (is_node s p) (node_rows d)")
  case (Some r0)
  have "first_where (is_node s p) (node_rows d') = Some (refreshed now md r0)"
    using same_node_updated [of "refreshed now md" s p "node_rows d" r0] Some
    by (simp add: d'_def ensure_graph_node_def)
  then show thesis using Some by (intro that [of "refreshed now md r0"]) (simp_all add: ensure_graph_node_def)
next
  case None
  define r where "r = \<lparr>gn_id = auto_next (graph_nodes d), gn_server = s, gn_pseudonym = p, gn_type = node_type_str ty,
    gn_active = True, gn_last_seen = Some now, gn_metadata = md, gn_created = now\<rparr>"
  have "refreshed now md r = r" by (simp add: refreshed_def r_def split: option.split)
  moreover have "first_where (is_node s p) (node_rows d') = Some r"
    using None by (simp add: d'_def ensure_graph_node_def Let_def r_def is_node_def)
  moreover have "fst (ensure_graph_node now d s p ty md) = graph_node_of r"
    using None by (simp add: ensure_graph_node_def Let_def r_def)
  moreover have "gn_active r" "gn_last_seen r = Some now" "gn_type r = node_type_str ty" "gn_metadata r = md"
    by (simp_all add: r_def)
  ultimately show thesis using None by (intro that [of r]) simp_all
qed

lemma ensure_others:
  assumes "(s', p') \<noteq> (s, p)"
  shows "first_where (is_node s' p') (node_rows (snd (ensure_graph_node now d s p ty md))) =
    first_where (is_node s' p') (node_rows d)"
proof (cases "first_where (is_node s p) (node_rows d)")
  case None
  have "\<not> (s = s' \<and> p = p')" using assms by auto
  with None show ?thesis
    by (auto simp: ensure_graph_node_def Let_def first_where_append is_node_def split: option.split)
next
  case (Some r)
  then show ?thesis by (simp add: ensure_graph_node_def other_node_kept [OF assms])
qed

lemma ensure_idem:
  "ensure_graph_node now (snd (ensure_graph_node now d s p ty md)) s p ty md = ensure_graph_node now d s p ty md"
proof -
  let ?d = "snd (ensure_graph_node now d s p ty md)"
  obtain r where r: "first_where (is_node s p) (node_rows ?d) = Some r"
    "fst (ensure_graph_node now d s p ty md) = graph_node_of r" "refreshed now md r = r"
    by (rule ensure_row [of s p now d ty md])
  have u: "update_where (is_node s p) (refreshed now md) (node_rows ?d) = node_rows ?d"
  proof (cases "first_where (is_node s p) (node_rows d)")
    case (Some r0)
    then show ?thesis
      by (simp add: ensure_graph_node_def) (rule update_where_idem, simp_all add: is_node_def)
  next
    case None
    then have "update_where (is_node s p) (refreshed now md) (node_rows d) = node_rows d"
      unfolding update_where_def first_where_None by (intro map_idI) simp
    then show ?thesis using None
      by (simp add: ensure_graph_node_def Let_def update_where_def refreshed_def split: option.split)
  qed
  have "?d\<lparr>graph_nodes := auto_update (is_node s p) (refreshed now md) (graph_nodes ?d)\<rparr> = ?d"
    by (simp add: auto_update_def u)
  then have "ensure_graph_node now ?d s p ty md = (graph_node_of r, ?d)"
    using r by (simp add: ensure_graph_node_def [of now ?d])
  then show ?thesis using r(2) by (metis prod.collapse)
qed

text \<open>
  \<open>ensure_graph_node\<close> is an idempotent upsert: it always succeeds, the node returned is the
  one stored, active and seen now; a node that existed keeps its id, type and creation time,
  and its metadata unless new metadata is given; a new one has the type and metadata given;
  no other node changes, and repeating the call changes nothing.
\<close>

theorem ensure_graph_node_upsert:
  assumes "graph_ok d" and "ensure_graph_node now d s p ty md = (res, d')"
  shows "graph_ok d' \<and>
    (\<exists>n. res = Inr n \<and> get_graph_node d' s p = Inr (Some n) \<and> gr_active n \<and> gr_last_seen_at n = Some now
      \<and> (case first_where (is_node s p) (node_rows d) of
           None \<Rightarrow> gr_node_type n = ty \<and> gr_metadata_json n = md
         | Some r0 \<Rightarrow> gr_id n = gn_id r0 \<and> node_type_str (gr_node_type n) = gn_type r0
             \<and> gr_created_at n = gn_created r0
             \<and> gr_metadata_json n = (case md of Some m \<Rightarrow> Some m | None \<Rightarrow> gn_metadata r0)))
    \<and> ((s', p') \<noteq> (s, p) \<longrightarrow> get_graph_node d' s' p' = get_graph_node d s' p')
    \<and> ensure_graph_node now d' s p ty md = (res, d')"
proof -
  have d': "d' = snd (ensure_graph_node now d s p ty md)" "res = fst (ensure_graph_node now d s p ty md)"
    using assms(2) by simp_all
  have ok: "graph_ok d'" using graph_machine.step_inv [OF assms(1), of "EnsureNode now s p ty md"] d'(1) by simp
  obtain r where r: "first_where (is_node s p) (node_rows d') = Some r" "res = graph_node_of r"
    "gn_active r" "gn_last_seen r = Some now"
    and old: "case first_where (is_node s p) (node_rows d) of
           None \<Rightarrow> gn_type r = node_type_str ty \<and> gn_metadata r = md
         | Some r0 \<Rightarrow> r = refreshed now md r0"
    using ensure_row [of s p now d ty md] unfolding d' by blast
  have "r \<in> set (node_rows d')" using first_where_Some [OF r(1)] by simp
  then obtain ty' where ty': "gn_type r = node_type_str ty'" and
    g: "graph_node_of r = Inr \<lparr>gr_id = gn_id r, gr_server_id = gn_server r, gr_pseudonym_id = gn_pseudonym r,
       gr_node_type = ty', gr_active = gn_active r, gr_last_seen_at = gn_last_seen r,
       gr_metadata_json = gn_metadata r, gr_created_at = gn_created r\<rparr>"
    by (rule node_readable [OF ok])
  have "get_graph_node d' s' p' = get_graph_node d s' p'" if "(s', p') \<noteq> (s, p)"
    using ensure_others [OF that] by (simp add: get_graph_node_def d'(1))
  moreover have "ensure_graph_node now d' s p ty md = (res, d')"
    using ensure_idem [of now d s p ty md] assms(2) by simp
  moreover have "get_graph_node d' s p = and_then (graph_node_of r) (\<lambda>n. Inr (Some n))"
    using r(1) by (simp add: get_graph_node_def)
  ultimately show ?thesis
    using ok old ty' r(2-4) g node_type_text.enc_inj [of ty' ty]
    by (cases "first_where (is_node s p) (node_rows d)") simp_all
qed

text \<open>
  Pruning and activity: pruning answers the names of exactly the active nodes of the server
  that were last seen before the cutoff, deactivates exactly those and deletes nothing; a node
  never seen, and every node when the threshold leaves SQLite's date range, is kept; a
  threshold above \<open>i64::MAX\<close> is refused. The next activity of a pruned node reports its
  reactivation, a further one does not.
\<close>

theorem prune_and_reactivate:
  assumes "graph_ok d" and "prune_inactive_nodes now d s t = (Inr names, d')"
  shows "(p \<in> set names \<longleftrightarrow>
      (\<exists>r c. first_where (is_node s p) (node_rows d) = Some r \<and> gn_active r
         \<and> gn_last_seen r = Some c \<and> c < now - int (unat t)
         \<and> sqlite_datetime now (- int (unat t)) \<noteq> None))
    \<and> length (node_rows d') = length (node_rows d)
    \<and> map_option gn_active (first_where (is_node s p) (node_rows d')) =
        map_option (\<lambda>r. gn_active r \<and> p \<notin> set names) (first_where (is_node s p) (node_rows d))
    \<and> (p \<in> set names \<longrightarrow>
        fst (update_node_activity later d' s p) \<and>
        \<not> fst (update_node_activity later' (snd (update_node_activity later d' s p)) s p))"
proof -
  let ?cut = "sqlite_datetime now (- int (unat t))"
  let ?q = "\<lambda>r. gn_server r = s \<and> gn_active r \<and> null_less (gn_last_seen r) ?cut"
  have "\<not> 2 ^ 63 \<le> unat t" using assms(2) by (intro notI) (simp add: prune_inactive_nodes_def)
  note e = assms(2) [unfolded prune_inactive_nodes_def Let_def if_not_P [OF this] prod.inject sum.inject]
  have n: "names = map gn_pseudonym (filter ?q (node_rows d))"
    and dd: "d' = d\<lparr>graph_nodes := auto_update ?q (\<lambda>r. r\<lparr>gn_active := False\<rparr>) (graph_nodes d)\<rparr>"
    using e by (simp_all only:)
  have d': "node_rows d' = update_where ?q (\<lambda>r. r\<lparr>gn_active := False\<rparr>) (node_rows d)"
    by (simp add: dd)
  have in_names: "p \<in> set names \<longleftrightarrow> (\<exists>r. first_where (is_node s p) (node_rows d) = Some r \<and> ?q r)" for p
  proof
    assume "p \<in> set names"
    then obtain r where r: "r \<in> set (node_rows d)" "?q r" "gn_pseudonym r = p"
      unfolding n set_map set_filter by (elim imageE CollectE conjE) simp
    then have "is_node s p r" by (simp add: is_node_def)
    from node_lookup [OF assms(1) r(1) this] r(2)
    show "\<exists>r. first_where (is_node s p) (node_rows d) = Some r \<and> ?q r" by (intro exI [of _ r]) simp
  next
    assume "\<exists>r. first_where (is_node s p) (node_rows d) = Some r \<and> ?q r"
    then obtain r where f: "first_where (is_node s p) (node_rows d) = Some r" and q: "?q r" by blast
    from first_where_Some [OF f] have "r \<in> set (filter ?q (node_rows d))" "gn_pseudonym r = p"
      using q by (simp_all add: is_node_def)
    then show "p \<in> set names" unfolding n set_map by (intro image_eqI) simp_all
  qed
  have cut: "null_less ls ?cut \<longleftrightarrow> (\<exists>c. ls = Some c \<and> c < now - int (unat t) \<and> ?cut \<noteq> None)" for ls
    by (cases ls) (auto simp: sqlite_datetime_def)
  have look: "first_where (is_node s p) (node_rows d') =
      map_option (\<lambda>r. if ?q r then r\<lparr>gn_active := False\<rparr> else r) (first_where (is_node s p) (node_rows d))"
    unfolding d' by (rule first_where_update_where) (simp add: is_node_def)
  have act: "map_option gn_active (first_where (is_node s p) (node_rows d')) =
        map_option (\<lambda>r. gn_active r \<and> p \<notin> set names) (first_where (is_node s p) (node_rows d))"
    unfolding look in_names by (cases "first_where (is_node s p) (node_rows d)") simp_all
  have ok': "graph_ok d'" using graph_machine.step_inv [OF assms(1), of "Prune now s t"] assms(2) by simp
  have re: "fst (update_node_activity later d' s p) \<and>
        \<not> fst (update_node_activity later' (snd (update_node_activity later d' s p)) s p)" if "p \<in> set names"
  proof -
    have "\<exists>r. first_where (is_node s p) (node_rows d') = Some r \<and> \<not> gn_active r"
    proof (cases "first_where (is_node s p) (node_rows d')")
      case None
      then have "first_where (is_node s p) (node_rows d) = None" using act by simp
      with that in_names [of p] show ?thesis by simp
    next
      case (Some r)
      then obtain r0 where "first_where (is_node s p) (node_rows d) = Some r0"
        using act by (cases "first_where (is_node s p) (node_rows d)") simp_all
      with act Some that have "\<not> gn_active r" by simp
      with Some show ?thesis by simp
    qed
    then obtain r where r: "first_where (is_node s p) (node_rows d') = Some r" "\<not> gn_active r"
      by (elim exE conjE)
    have m: "r \<in> set (node_rows d')" "is_node s p r" using first_where_Some [OF r(1)] by auto
    have none: "count_where (\<lambda>r. is_node s p r \<and> gn_active r) (node_rows d') = 0"
      unfolding count_where_0
    proof (intro ballI notI)
      fix x assume "x \<in> set (node_rows d')" "is_node s p x \<and> gn_active x"
      with node_lookup [OF ok'] r(1) have "x = r" "gn_active x" by simp_all
      with r(2) show False by simp
    qed
    then have same: "update_where (\<lambda>r. is_node s p r \<and> gn_active r) f (node_rows d') = node_rows d'" for f
      unfolding update_where_def count_where_0 by (intro map_idI if_not_P) (drule (1) bspec)
    have some: "0 < count_where (\<lambda>r. is_node s p r \<and> \<not> gn_active r) (node_rows d')"
      unfolding count_where_pos using m r(2) by (intro bexI [of _ r]) simp_all
    let ?g = "\<lambda>r. r\<lparr>gn_active := True, gn_last_seen := Some later\<rparr>"
    have u: "fst (update_node_activity later d' s p)"
      "node_rows (snd (update_node_activity later d' s p)) =
        update_where (\<lambda>r. is_node s p r \<and> \<not> gn_active r) ?g (node_rows d')"
      using none some same by (simp_all add: update_node_activity_def Let_def)
    have "?g r \<in> set (node_rows (snd (update_node_activity later d' s p)))"
      unfolding u(2) set_update_where using m r(2) by (intro UnI1 CollectI exI [of _ r] conjI refl) simp_all
    moreover have "is_node s p (?g r) \<and> gn_active (?g r)" using m(2) by (simp add: is_node_def)
    ultimately have "0 < count_where (\<lambda>r. is_node s p r \<and> gn_active r) (node_rows (snd (update_node_activity later d' s p)))"
      unfolding count_where_pos by (rule rev_bexI)
    then have "\<not> fst (update_node_activity later' (snd (update_node_activity later d' s p)) s p)"
      by (simp add: update_node_activity_def [of later'] Let_def)
    with u(1) show ?thesis by simp
  qed
  have "p \<in> set names \<longleftrightarrow>
      (\<exists>r c. first_where (is_node s p) (node_rows d) = Some r \<and> gn_active r
         \<and> gn_last_seen r = Some c \<and> c < now - int (unat t) \<and> ?cut \<noteq> None)"
  proof -
    have "gn_server r = s" if "first_where (is_node s p) (node_rows d) = Some r" for r
      using first_where_Some [OF that] by (simp add: is_node_def)
    then show ?thesis unfolding in_names cut by (intro iffI; elim exE conjE; intro exI conjI; assumption?) simp_all
  qed
  with act re show ?thesis by (simp add: d')
qed

definition new_edge :: "time \<Rightarrow> db \<Rightarrow> int \<Rightarrow> string \<Rightarrow> string \<Rightarrow> EdgeKind \<Rightarrow> rat \<Rightarrow> edge_row" where
  "new_edge now d s u v k w = \<lparr>ge_id = auto_next (graph_edges d), ge_server = s, ge_from = u, ge_to = v,
     ge_kind = edge_kind_to_str k, ge_weight = w, ge_created = now\<rparr>"

lemma new_edge_simps [simp]:
  "is_edge s u v (edge_kind_to_str k) (new_edge now d s u v k w)"
  "graph_edge_of (new_edge now d s u v k w) = Inr \<lparr>gx_id = auto_next (graph_edges d), gx_server_id = s,
     gx_from_node = u, gx_to_node = v, gx_kind = k, gx_weight = w, gx_created_at = now\<rparr>"
  by (simp_all add: new_edge_def is_edge_def graph_edge_of_def)

lemma create_edge_new:
  assumes "\<not> exists_where (is_edge s u v (edge_kind_to_str k)) (edge_rows d)"
  shows "fst (create_edge now d s u v k w) = graph_edge_of (new_edge now d s u v k w)"
    and "edge_rows (snd (create_edge now d s u v k w)) = edge_rows d @ [new_edge now d s u v k w]"
  using assms by (simp_all add: create_edge_def Let_def new_edge_def)

lemma edge_count_le_1:
  assumes "graph_ok d" and "exists_where (is_edge s u v k) (edge_rows d)"
  shows "count_where (is_edge s u v k) (edge_rows d) = 1"
proof -
  let ?key = "\<lambda>e. (ge_server e, ge_from e, ge_to e, ge_kind e)"
  have "distinct (map ?key (filter (is_edge s u v k) (edge_rows d)))"
    using assms(1) by (simp add: graph_ok_def distinct_map_filter)
  then have "length (filter (is_edge s u v k) (edge_rows d)) = card (set (map ?key (filter (is_edge s u v k) (edge_rows d))))"
    by (simp only: distinct_card length_map)
  also have "set (map ?key (filter (is_edge s u v k) (edge_rows d))) = {(s, u, v, k)}"
  proof -
    have "?key ` {e \<in> set (edge_rows d). is_edge s u v k e} \<subseteq> {(s, u, v, k)}"
      by (rule image_subsetI) (simp add: is_edge_def)
    moreover obtain e where e: "e \<in> set (edge_rows d)" "is_edge s u v k e"
      using assms(2) unfolding exists_where_iff by (elim bexE)
    then have "?key e \<in> ?key ` {e \<in> set (edge_rows d). is_edge s u v k e}" by (intro imageI CollectI conjI)
    moreover have "?key e = (s, u, v, k)" using e(2) by (simp add: is_edge_def)
    ultimately show ?thesis unfolding set_map set_filter by (simp only: singleton_insert_inj_eq' subset_antisym insert_subset empty_subsetI simp_thms set_eq_subset)
  qed
  finally show ?thesis by (simp add: count_where_def)
qed

text \<open>
  Edges are a set keyed by server, ends and kind: creating one succeeds exactly when it is
  absent and returns it with the kind and weight given, a second creation is refused as a
  duplicate, and deleting it removes that edge and no other, reporting how many rows it was.
\<close>

theorem edges_as_set:
  assumes "graph_ok d" and "create_edge now d s u v k w = (res, d')"
  shows "(if exists_where (is_edge s u v (edge_kind_to_str k)) (edge_rows d)
          then res = Inl (GraphDatabaseError (SqliteFailure ConstraintUnique)) \<and> d' = d
          else \<exists>e. res = Inr e \<and> gx_kind e = k \<and> gx_weight e = w \<and> gx_from_node e = u \<and> gx_to_node e = v
            \<and> edge_rows (snd (delete_edge d' s u v k)) = edge_rows d)
    \<and> fst (create_edge later d' s u v k w') = Inl (GraphDatabaseError (SqliteFailure ConstraintUnique))
    \<and> fst (delete_edge d' s u v k) = 1
    \<and> fst (delete_edge (snd (delete_edge d' s u v k)) s u v k) = 0"
proof -
  let ?p = "is_edge s u v (edge_kind_to_str k)"
  have d': "d' = snd (create_edge now d s u v k w)" "res = fst (create_edge now d s u v k w)"
    using assms(2) by simp_all
  have ok': "graph_ok d'" using graph_machine.step_inv [OF assms(1), of "CreateEdge now s u v k w"] d'(1) by simp
  have old: "snd (create_edge now d s u v k w) = d" if "exists_where ?p (edge_rows d)"
    using that by (simp add: create_edge_def)
  have ex: "exists_where ?p (edge_rows d')"
    unfolding d'(1) using old create_edge_new(2) [of s u v k d now w]
    by (cases "exists_where ?p (edge_rows d)") (simp_all add: exists_where_def)
  have zero: "count_where ?p (delete_where ?p (edge_rows d')) = 0"
    by (simp add: count_where_0 set_delete_where)
  have dup: "fst (create_edge later d' s u v k w') = Inl (GraphDatabaseError (SqliteFailure ConstraintUnique))"
    using ex by (simp add: create_edge_def)
  have del: "fst (delete_edge d' s u v k) = 1" "fst (delete_edge (snd (delete_edge d' s u v k)) s u v k) = 0"
    using edge_count_le_1 [OF ok' ex] zero by (simp_all add: delete_edge_def Let_def)
  show ?thesis
  proof (cases "exists_where ?p (edge_rows d)")
    case True
    then show ?thesis using assms(2) dup del by (simp add: create_edge_def)
  next
    case False
    have "delete_where ?p (edge_rows d) = edge_rows d"
      unfolding delete_where_def using False by (intro filter_True) (simp add: exists_where_iff)
    then have "edge_rows (snd (delete_edge d' s u v k)) = edge_rows d"
      using create_edge_new(2) [OF False, of now w]
      by (simp add: delete_edge_def Let_def d'(1)) (simp add: delete_where_def)
    with False dup del show ?thesis
      using create_edge_new(1) [OF False, of now w] by (simp add: d'(2))
  qed
qed

section \<open>Witnesses\<close>

text \<open>Four participants of server 1; \<open>a\<close> to \<open>c\<close> are a chain, \<open>x\<close> is alone.\<close>

definition demo_graph :: db where
  "demo_graph = fold graph_step
     [EnsureNode 10 1 ''a'' NodeType.Human (Some ''meta''), EnsureNode 20 1 ''b'' NodeType.AiAgent None,
      CreateEdge 20 1 ''a'' ''b'' Connected 1, CreateEdge 20 1 ''c'' ''b'' MemberOf 1] (migrated_db 0)"

lemma demo_graph_ok: "graph_ok demo_graph"
  unfolding demo_graph_def by (rule graph_machine.run_inv) simp

lemma demo_graph_edges:
  "edge_rows demo_graph =
     [\<lparr>ge_id = 1, ge_server = 1, ge_from = ''a'', ge_to = ''b'', ge_kind = ''CONNECTED'', ge_weight = 1, ge_created = 20\<rparr>,
      \<lparr>ge_id = 2, ge_server = 1, ge_from = ''c'', ge_to = ''b'', ge_kind = ''MEMBER_OF'', ge_weight = 1, ge_created = 20\<rparr>]"
  by (simp add: demo_graph_def ensure_graph_node_def create_edge_def Let_def is_node_def is_edge_def exists_where_def)

lemma demo_graph_nodes:
  "node_rows demo_graph =
     [\<lparr>gn_id = 1, gn_server = 1, gn_pseudonym = ''a'', gn_type = ''HUMAN'', gn_active = True, gn_last_seen = Some 10,
       gn_metadata = Some ''meta'', gn_created = 10\<rparr>,
      \<lparr>gn_id = 2, gn_server = 1, gn_pseudonym = ''b'', gn_type = ''AI_AGENT'', gn_active = True, gn_last_seen = Some 20,
       gn_metadata = None, gn_created = 20\<rparr>]"
  by (simp add: demo_graph_def ensure_graph_node_def create_edge_def Let_def is_node_def is_edge_def exists_where_def)

lemma demo_below_cap: "below_cap demo_graph ''a'' ''c''" "below_cap demo_graph ''a'' ''x''"
  by (simp_all add: below_cap_def graph_names_def demo_graph_edges card_insert_if MAX_BFS_VISITED_NODES_def)

lemma demo_chain: "reaches (neighbors demo_graph 1) ''a'' ''c'' 2"
  unfolding reaches_def path_to_def
  by (rule exI [of _ "[''a'', ''b'', ''c'']"]) (simp add: neighbors_def demo_graph_edges)

theorem find_path_correct_witness:
  "found (find_path_bfs demo_graph 1 ''a'' ''c'' 2) \<and> hd (path (find_path_bfs demo_graph 1 ''a'' ''c'' 2)) = ''a''
   \<and> path_length (find_path_bfs demo_graph 1 ''a'' ''c'' 2) = path_length (find_path_bfs demo_graph 1 ''c'' ''a'' 2)"
  using find_path_correct [OF refl, of demo_graph 1 "''a''" "''c''" 2] demo_below_cap(1) demo_chain by simp

theorem visibility_is_degree_witness:
  "get_node_visibility demo_graph 1 ''a'' ''x'' = VisNone \<and> get_node_visibility demo_graph 1 ''x'' ''a'' = VisNone"
proof -
  have "\<not> reaches (neighbors demo_graph 1) ''a'' ''x'' 3"
  proof
    assume "reaches (neighbors demo_graph 1) ''a'' ''x'' 3"
    then have "reaches (neighbors demo_graph 1) ''x'' ''a'' 3" using graph.reaches_sym by blast
    then obtain xs where xs: "path_to (neighbors demo_graph 1) ''x'' xs ''a''" by (auto simp: reaches_def)
    have "neighbors demo_graph 1 ''x'' = []" by (simp add: neighbors_def demo_graph_edges)
    with xs show False by (cases xs; cases "tl xs") (auto simp: path_to_def)
  qed
  then show ?thesis using visibility_is_degree [OF demo_below_cap(2), of 1] by (simp, elim conjE) metis
qed

text \<open>A direct neighbour learns the time last seen but not the metadata, a stranger gets a profile as well.\<close>

theorem profile_disclosure_witness:
  "(\<exists>p. get_visible_profile demo_graph 1 ''b'' ''a'' = Inr p \<and> pr_last_seen_at p = Some 10 \<and> pr_metadata_json p = None)
   \<and> (\<exists>p. get_visible_profile demo_graph 1 ''x'' ''a'' = Inr p \<and> pr_visibility p = VisNone \<and> pr_active p)"
proof -
  obtain r where f: "first_where (is_node 1 ''a'') (node_rows demo_graph) = Some r" "gn_active r" "gn_last_seen r = Some 10"
    by (simp add: demo_graph_nodes is_node_def)
  have a: "adjacent demo_graph 1 ''b'' ''a''" by (simp add: neighbors_adjacent [symmetric] neighbors_def demo_graph_edges)
  obtain p where "get_visible_profile demo_graph 1 ''b'' ''a'' = Inr p"
    using profile_disclosure [OF demo_graph_ok, where s = 1 and viewer = "''b''" and target = "''a''"] f(1)
    by (cases "get_visible_profile demo_graph 1 ''b'' ''a''") simp_all
  then have 1: "\<exists>p. get_visible_profile demo_graph 1 ''b'' ''a'' = Inr p \<and> pr_last_seen_at p = Some 10 \<and> pr_metadata_json p = None"
    using profile_disclosure [OF demo_graph_ok, where s = 1 and viewer = "''b''" and target = "''a''"] f a by simp
  have n: "\<not> reaches (neighbors demo_graph 1) ''x'' ''a'' 3"
  proof
    assume "reaches (neighbors demo_graph 1) ''x'' ''a'' 3"
    then obtain xs where xs: "path_to (neighbors demo_graph 1) ''x'' xs ''a''" by (auto simp: reaches_def)
    have "neighbors demo_graph 1 ''x'' = []" by (simp add: neighbors_def demo_graph_edges)
    with xs show False by (cases xs; cases "tl xs") (auto simp: path_to_def)
  qed
  obtain p where "get_visible_profile demo_graph 1 ''x'' ''a'' = Inr p"
    using profile_disclosure [OF demo_graph_ok, where s = 1 and viewer = "''x''" and target = "''a''"] f(1)
    by (cases "get_visible_profile demo_graph 1 ''x'' ''a''") simp_all
  then have "\<exists>p. get_visible_profile demo_graph 1 ''x'' ''a'' = Inr p \<and> pr_visibility p = VisNone \<and> pr_active p"
    using profile_disclosure [OF demo_graph_ok, where s = 1 and viewer = "''x''" and target = "''a''"] f n
    by (simp, metis)
  with 1 show ?thesis ..
qed

theorem ensure_graph_node_upsert_witness:
  "\<exists>n d'. ensure_graph_node 99 demo_graph 1 ''a'' NodeType.Service None = (Inr n, d')
     \<and> gr_id n = 1 \<and> gr_node_type n = NodeType.Human \<and> gr_metadata_json n = Some ''meta''
     \<and> gr_last_seen_at n = Some 99"
proof -
  obtain res d' where r: "ensure_graph_node 99 demo_graph 1 ''a'' NodeType.Service None = (res, d')"
    by (cases "ensure_graph_node 99 demo_graph 1 ''a'' NodeType.Service None")
  have h: "node_type_str t = ''HUMAN'' \<longleftrightarrow> t = NodeType.Human" for t by (cases t) simp_all
  show ?thesis
    using ensure_graph_node_upsert [OF demo_graph_ok r] r by (auto simp: demo_graph_nodes is_node_def h)
qed

theorem prune_and_reactivate_witness:
  "\<exists>d'. prune_inactive_nodes 100 demo_graph 1 85 = (Inr [''a''], d') \<and> fst (update_node_activity 101 d' 1 ''a'')"
proof -
  obtain d' where p: "prune_inactive_nodes 100 demo_graph 1 85 = (Inr [''a''], d')"
    by (simp add: prune_inactive_nodes_def demo_graph_nodes sqlite_datetime_def Let_def)
  with prune_and_reactivate [OF demo_graph_ok p, of "''a''" 101] show ?thesis by simp
qed

theorem edges_as_set_witness:
  "\<exists>e d'. create_edge 30 demo_graph 1 ''a'' ''c'' Moderates 2 = (Inr e, d')
     \<and> edge_rows (snd (delete_edge d' 1 ''a'' ''c'' Moderates)) = edge_rows demo_graph"
proof -
  obtain res d' where r: "create_edge 30 demo_graph 1 ''a'' ''c'' Moderates 2 = (res, d')"
    by (cases "create_edge 30 demo_graph 1 ''a'' ''c'' Moderates 2")
  have "\<not> exists_where (is_edge 1 ''a'' ''c'' (edge_kind_to_str Moderates)) (edge_rows demo_graph)"
    by (simp add: demo_graph_edges exists_where_def is_edge_def)
  with edges_as_set [OF demo_graph_ok r] r show ?thesis by auto
qed

end
