(* ===== verification/Annex_Channels.thy ===== *)
theory Annex_Channels
  imports Annex_Platform
begin

text \<open>
  Crate \<open>annex-channels\<close> (\<open>lib.rs\<close>): channels, members, messages with their edit history,
  and retention; and the loop of \<open>annex-server/src/retention.rs\<close> that runs it.

  The JSON texts of the enumerations and of the server policy (\<open>serde_json\<close>) are the fields
  of the record \<open>serde\<close>; what the code relies on is \<open>serde_laws\<close>: a value that was written
  is read back. The text of a timestamp, which \<open>list_messages\<close> compares with the text of
  the request, is the argument \<open>fmt\<close>. Foreign keys are enforced per statement: a statement
  that would leave a dangling reference fails and changes nothing.
\<close>

section \<open>Types\<close>

record serde =
  channel_type_to_json :: "ChannelType \<Rightarrow> string"
  channel_type_from_json :: "string \<Rightarrow> ChannelType option"
  scope_to_json :: "FederationScope \<Rightarrow> string"
  scope_from_json :: "string \<Rightarrow> FederationScope option"
  alignment_to_json :: "AlignmentStatus \<Rightarrow> string"
  alignment_from_json :: "string \<Rightarrow> AlignmentStatus option"
  policy_from_json :: "string \<Rightarrow> ServerPolicy option"

definition serde_laws :: "serde \<Rightarrow> bool" where
  "serde_laws S \<longleftrightarrow>
     (\<forall>t. channel_type_from_json S (channel_type_to_json S t) = Some t) \<and>
     (\<forall>t. scope_from_json S (scope_to_json S t) = Some t) \<and>
     (\<forall>t. alignment_from_json S (alignment_to_json S t) = Some t)"

datatype ChannelError = ChDatabase rusqlite_error | ChNotFound string | ChJson

record Channel =
  cn_id :: int
  cn_server_id :: int
  cn_channel_id :: string
  cn_name :: string
  cn_channel_type :: ChannelType
  cn_topic :: "string option"
  cn_vrp_topic_binding :: "string option"
  cn_required_capabilities_json :: "string option"
  cn_agent_min_alignment :: "AlignmentStatus option"
  cn_retention_days :: "u32 option"
  cn_federation_scope :: FederationScope
  cn_created_at :: time

record CreateChannelParams =
  cc_server_id :: int
  cc_channel_id :: string
  cc_name :: string
  cc_channel_type :: ChannelType
  cc_topic :: "string option"
  cc_vrp_topic_binding :: "string option"
  cc_required_capabilities_json :: "string option"
  cc_agent_min_alignment :: "AlignmentStatus option"
  cc_retention_days :: "u32 option"
  cc_federation_scope :: FederationScope

record UpdateChannelParams =
  uc_name :: "string option"
  uc_topic :: "string option"
  uc_vrp_topic_binding :: "string option"
  uc_required_capabilities_json :: "string option"
  uc_agent_min_alignment :: "AlignmentStatus option"
  uc_retention_days :: "u32 option"
  uc_federation_scope :: "FederationScope option"

record Message =
  mg_id :: int
  mg_server_id :: int
  mg_channel_id :: string
  mg_message_id :: string
  mg_sender_pseudonym :: string
  mg_content :: string
  mg_reply_to_message_id :: "string option"
  mg_created_at :: time
  mg_expires_at :: "time option"
  mg_edited_at :: "time option"
  mg_deleted_at :: "time option"

record MessageEdit =
  me_id :: int
  me_message_id :: string
  me_old_content :: string
  me_edited_at :: time

record ChannelMember =
  cm_id :: int
  cm_server_id :: int
  cm_channel_id :: string
  cm_pseudonym_id :: string
  cm_role :: string
  cm_joined_at :: time

record CreateMessageParams =
  mp_channel_id :: string
  mp_message_id :: string
  mp_sender_pseudonym :: string
  mp_content :: string
  mp_reply_to_message_id :: "string option"

abbreviation channel_rows :: "db \<Rightarrow> channel_row list" where
  "channel_rows d \<equiv> auto_rows (channels d)"

abbreviation message_rows :: "db \<Rightarrow> message_row list" where
  "message_rows d \<equiv> auto_rows (messages d)"

abbreviation edit_rows :: "db \<Rightarrow> edit_row list" where
  "edit_rows d \<equiv> auto_rows (message_edits d)"

abbreviation member_rows :: "db \<Rightarrow> member_row list" where
  "member_rows d \<equiv> auto_rows (channel_members d)"

section \<open>Channels\<close>

definition map_row_to_channel :: "serde \<Rightarrow> channel_row \<Rightarrow> rusqlite_error + Channel" where
  "map_row_to_channel S r =
     and_then (ok_or (channel_type_from_json S (ch_type r)) (FromSqlConversionFailure 4)) (\<lambda>ty.
       and_then (case ch_min_alignment r of
                   Some s \<Rightarrow> and_then (ok_or (alignment_from_json S s) (FromSqlConversionFailure 8)) (\<lambda>a. Inr (Some a))
                 | None \<Rightarrow> Inr None) (\<lambda>align.
         and_then (ok_or (scope_from_json S (ch_scope r)) (FromSqlConversionFailure 10)) (\<lambda>sc.
           Inr \<lparr>cn_id = ch_id r, cn_server_id = ch_server r, cn_channel_id = ch_channel r, cn_name = ch_name r,
             cn_channel_type = ty, cn_topic = ch_topic r, cn_vrp_topic_binding = ch_binding r,
             cn_required_capabilities_json = ch_required r, cn_agent_min_alignment = align,
             cn_retention_days = ch_retention r, cn_federation_scope = sc, cn_created_at = ch_created r\<rparr>)))"

definition server_exists :: "db \<Rightarrow> int \<Rightarrow> bool" where
  "server_exists d s = exists_where (\<lambda>r. sv_id r = s) (servers d)"

definition channel_exists :: "db \<Rightarrow> string \<Rightarrow> bool" where
  "channel_exists d c = exists_where (\<lambda>r. ch_channel r = c) (channel_rows d)"

definition create_channel ::
  "serde \<Rightarrow> time \<Rightarrow> db \<Rightarrow> CreateChannelParams \<Rightarrow> (ChannelError + unit) \<times> db" where
  "create_channel S now d p =
     (if channel_exists d (cc_channel_id p) then (Inl (ChDatabase (SqliteFailure ConstraintUnique)), d)
      else if \<not> server_exists d (cc_server_id p) then (Inl (ChDatabase (SqliteFailure ConstraintForeignKey)), d)
      else (Inr (), d\<lparr>channels := auto_insert (\<lambda>i.
             \<lparr>ch_id = i, ch_server = cc_server_id p, ch_channel = cc_channel_id p, ch_name = cc_name p,
              ch_type = channel_type_to_json S (cc_channel_type p), ch_topic = cc_topic p,
              ch_binding = cc_vrp_topic_binding p, ch_required = cc_required_capabilities_json p,
              ch_min_alignment = map_option (alignment_to_json S) (cc_agent_min_alignment p),
              ch_retention = cc_retention_days p, ch_scope = scope_to_json S (cc_federation_scope p),
              ch_created = now\<rparr>) (channels d)\<rparr>))"

definition get_channel :: "serde \<Rightarrow> db \<Rightarrow> string \<Rightarrow> ChannelError + Channel" where
  "get_channel S d c =
     (case first_where (\<lambda>r. ch_channel r = c) (channel_rows d) of
        None \<Rightarrow> Inl (ChNotFound c)
      | Some r \<Rightarrow> map_err ChDatabase (map_row_to_channel S r))"

definition list_channels :: "serde \<Rightarrow> db \<Rightarrow> int \<Rightarrow> ChannelError + Channel list" where
  "list_channels S d s =
     map_err ChDatabase (collect_res (map (map_row_to_channel S)
       (take 1000 (order_by ch_name (filter (\<lambda>r. ch_server r = s) (channel_rows d))))))"

definition list_federated_channels :: "serde \<Rightarrow> db \<Rightarrow> int \<Rightarrow> ChannelError + Channel list" where
  "list_federated_channels S d s =
     map_err ChDatabase (collect_res (map (map_row_to_channel S)
       (order_by ch_name (filter (\<lambda>r. ch_server r = s \<and> ch_scope r = scope_to_json S Federated) (channel_rows d)))))"

text \<open>The \<open>SET\<close> clause: only the fields that are given.\<close>

definition apply_updates_to :: "serde \<Rightarrow> UpdateChannelParams \<Rightarrow> channel_row \<Rightarrow> channel_row" where
  "apply_updates_to S u r = r\<lparr>
     ch_name := (case uc_name u of Some x \<Rightarrow> x | None \<Rightarrow> ch_name r),
     ch_topic := (case uc_topic u of Some x \<Rightarrow> Some x | None \<Rightarrow> ch_topic r),
     ch_binding := (case uc_vrp_topic_binding u of Some x \<Rightarrow> Some x | None \<Rightarrow> ch_binding r),
     ch_required := (case uc_required_capabilities_json u of Some x \<Rightarrow> Some x | None \<Rightarrow> ch_required r),
     ch_min_alignment := (case uc_agent_min_alignment u of
        Some a \<Rightarrow> Some (alignment_to_json S a) | None \<Rightarrow> ch_min_alignment r),
     ch_retention := (case uc_retention_days u of Some x \<Rightarrow> Some x | None \<Rightarrow> ch_retention r),
     ch_scope := (case uc_federation_scope u of Some x \<Rightarrow> scope_to_json S x | None \<Rightarrow> ch_scope r)\<rparr>"

definition no_updates :: "UpdateChannelParams \<Rightarrow> bool" where
  "no_updates u \<longleftrightarrow> uc_name u = None \<and> uc_topic u = None \<and> uc_vrp_topic_binding u = None \<and>
     uc_required_capabilities_json u = None \<and> uc_agent_min_alignment u = None \<and>
     uc_retention_days u = None \<and> uc_federation_scope u = None"

definition update_channel ::
  "serde \<Rightarrow> db \<Rightarrow> string \<Rightarrow> UpdateChannelParams \<Rightarrow> (ChannelError + unit) \<times> db" where
  "update_channel S d c u =
     (if no_updates u then (and_then (get_channel S d c) (\<lambda>_. Inr ()), d)
      else
        let p = (\<lambda>r. ch_channel r = c);
            n = count_where p (channel_rows d);
            d' = d\<lparr>channels := auto_update p (apply_updates_to S u) (channels d)\<rparr>
        in if n = 0 then (Inl (ChNotFound c), d') else (Inr (), d'))"

section \<open>Foreign keys of messages\<close>

definition has_edits :: "db \<Rightarrow> string \<Rightarrow> bool" where
  "has_edits d m = exists_where (\<lambda>e. ed_message e = m) (edit_rows d)"

text \<open>\<open>DELETE FROM messages WHERE p\<close> fails as a whole when an edit refers to a deleted row.\<close>

definition delete_messages_sql :: "(message_row \<Rightarrow> bool) \<Rightarrow> db \<Rightarrow> rusqlite_error + (nat \<times> db)" where
  "delete_messages_sql p d =
     (if exists_where (\<lambda>r. p r \<and> has_edits d (ms_message r)) (message_rows d)
      then Inl (SqliteFailure ConstraintForeignKey)
      else Inr (count_where p (message_rows d), d\<lparr>messages := auto_delete p (messages d)\<rparr>))"

text \<open>The three statements of \<open>delete_channel\<close> run one after the other; a failure keeps what was done.\<close>

definition delete_channel :: "faults \<Rightarrow> db \<Rightarrow> string \<Rightarrow> (ChannelError + unit) \<times> db" where
  "delete_channel flt d c =
     (case and_then (guard_fault flt 0) (\<lambda>_. delete_messages_sql (\<lambda>r. ms_channel r = c) d) of
        Inl e \<Rightarrow> (Inl (ChDatabase e), d)
      | Inr (_, d1) \<Rightarrow>
          (case guard_fault flt 1 of
             Inl e \<Rightarrow> (Inl (ChDatabase e), d1)
           | Inr _ \<Rightarrow>
               let d2 = d1\<lparr>channel_members := auto_delete (\<lambda>r. mb_channel r = c) (channel_members d1)\<rparr>
               in case guard_fault flt 2 of
                    Inl e \<Rightarrow> (Inl (ChDatabase e), d2)
                  | Inr _ \<Rightarrow>
                      if count_where (\<lambda>r. ch_channel r = c) (channel_rows d2) = 0
                      then (Inl (ChNotFound c), d2)
                      else (Inr (), d2\<lparr>channels := auto_delete (\<lambda>r. ch_channel r = c) (channels d2)\<rparr>)))"

section \<open>Members\<close>

definition insert_member_sql :: "time \<Rightarrow> db \<Rightarrow> int \<Rightarrow> string \<Rightarrow> string \<Rightarrow> rusqlite_error + db" where
  "insert_member_sql now d s c p =
     (if exists_where (\<lambda>r. mb_channel r = c \<and> mb_pseudonym r = p) (member_rows d)
      then Inl (SqliteFailure ConstraintUnique)
      else if \<not> server_exists d s \<or> \<not> channel_exists d c \<or>
         \<not> exists_where (\<lambda>r. pi_server r = s \<and> pi_pseudonym r = p) (platform_rows d)
      then Inl (SqliteFailure ConstraintForeignKey)
      else Inr (d\<lparr>channel_members := auto_insert (\<lambda>i.
             \<lparr>mb_id = i, mb_server = s, mb_channel = c, mb_pseudonym = p, mb_role = ''MEMBER'', mb_joined = now\<rparr>)
             (channel_members d)\<rparr>))"

definition add_member :: "serde \<Rightarrow> time \<Rightarrow> db \<Rightarrow> int \<Rightarrow> string \<Rightarrow> string \<Rightarrow> (ChannelError + unit) \<times> db" where
  "add_member S now d s c p =
     (case get_channel S d c of
        Inl e \<Rightarrow> (Inl e, d)
      | Inr _ \<Rightarrow>
          (case insert_member_sql now d s c p of
             Inr d' \<Rightarrow> (Inr (), d')
           | Inl e \<Rightarrow>
               if e = SqliteFailure ConstraintUnique \<or> e = SqliteFailure ConstraintPrimaryKey
               then (Inr (), d) else (Inl (ChDatabase e), d)))"

definition is_member_row :: "int \<Rightarrow> string \<Rightarrow> string \<Rightarrow> member_row \<Rightarrow> bool" where
  "is_member_row s c p r \<longleftrightarrow> mb_server r = s \<and> mb_channel r = c \<and> mb_pseudonym r = p"

definition remove_member :: "db \<Rightarrow> int \<Rightarrow> string \<Rightarrow> string \<Rightarrow> (ChannelError + unit) \<times> db" where
  "remove_member d s c p =
     (let n = count_where (is_member_row s c p) (member_rows d);
          d' = d\<lparr>channel_members := auto_delete (is_member_row s c p) (channel_members d)\<rparr>
      in if n = 0 then (Inr (), d') else (Inr (), d'))"

definition is_member :: "db \<Rightarrow> int \<Rightarrow> string \<Rightarrow> string \<Rightarrow> bool" where
  "is_member d s c p = exists_where (is_member_row s c p) (member_rows d)"

definition map_row_to_member :: "member_row \<Rightarrow> ChannelMember" where
  "map_row_to_member r = \<lparr>cm_id = mb_id r, cm_server_id = mb_server r, cm_channel_id = mb_channel r,
     cm_pseudonym_id = mb_pseudonym r, cm_role = mb_role r, cm_joined_at = mb_joined r\<rparr>"

text \<open>The rows come from the unique index on channel and pseudonym, so equal times are ordered by pseudonym.\<close>

definition list_members :: "db \<Rightarrow> string \<Rightarrow> ChannelMember list" where
  "list_members d c =
     map map_row_to_member (take 10000 (order_by mb_joined (order_by mb_pseudonym
       (filter (\<lambda>r. mb_channel r = c) (member_rows d)))))"

section \<open>Messages\<close>

definition map_row_to_message :: "message_row \<Rightarrow> Message" where
  "map_row_to_message r = \<lparr>mg_id = ms_id r, mg_server_id = ms_server r, mg_channel_id = ms_channel r,
     mg_message_id = ms_message r, mg_sender_pseudonym = ms_sender r, mg_content = ms_content r,
     mg_reply_to_message_id = ms_reply_to r, mg_created_at = ms_created r, mg_expires_at = ms_expires r,
     mg_edited_at = ms_edited r, mg_deleted_at = ms_deleted r\<rparr>"

definition resolve_retention_days :: "serde \<Rightarrow> db \<Rightarrow> string \<Rightarrow> ChannelError + (int \<times> u32 option)" where
  "resolve_retention_days S d c =
     (case first_where (\<lambda>r. ch_channel r = c) (channel_rows d) of
        None \<Rightarrow> Inl (ChNotFound c)
      | Some r \<Rightarrow>
          (case ch_retention r of
             Some days \<Rightarrow> Inr (ch_server r, Some days)
           | None \<Rightarrow>
               (case first_where (\<lambda>s. sv_id s = ch_server r) (servers d) of
                  None \<Rightarrow> Inl (ChDatabase QueryReturnedNoRows)
                | Some s \<Rightarrow>
                    let policy = (case policy_from_json S (sv_policy_json s) of Some p \<Rightarrow> p | None \<Rightarrow> default_policy)
                    in Inr (ch_server r, Some (default_retention_days policy)))))"

definition create_message ::
  "serde \<Rightarrow> time \<Rightarrow> db \<Rightarrow> CreateMessageParams \<Rightarrow> (ChannelError + Message) \<times> db" where
  "create_message S now d p =
     (case resolve_retention_days S d (mp_channel_id p) of
        Inl e \<Rightarrow> (Inl e, d)
      | Inr (server_id, retention_days) \<Rightarrow>
          if exists_where (\<lambda>r. ms_message r = mp_message_id p) (message_rows d)
          then (Inl (ChDatabase (SqliteFailure ConstraintUnique)), d)
          else if \<not> channel_exists d (mp_channel_id p) \<or> \<not> server_exists d server_id
          then (Inl (ChDatabase (SqliteFailure ConstraintForeignKey)), d)
          else
            let mk = (\<lambda>i. \<lparr>ms_id = i, ms_server = server_id, ms_channel = mp_channel_id p,
                  ms_message = mp_message_id p, ms_sender = mp_sender_pseudonym p, ms_content = mp_content p,
                  ms_reply_to = mp_reply_to_message_id p, ms_created = now,
                  ms_expires = (case retention_days of
                     Some days \<Rightarrow> sqlite_datetime now (int (unat days) * 86400) | None \<Rightarrow> None),
                  ms_edited = None, ms_deleted = None\<rparr>)
            in (Inr (map_row_to_message (mk (auto_next (messages d)))), d\<lparr>messages := auto_insert mk (messages d)\<rparr>))"

definition get_message :: "db \<Rightarrow> string \<Rightarrow> ChannelError + Message" where
  "get_message d m =
     (case first_where (\<lambda>r. ms_message r = m) (message_rows d) of
        None \<Rightarrow> Inl (ChNotFound m)
      | Some r \<Rightarrow> Inr (map_row_to_message r))"

text \<open>
  The index on channel and creation time is scanned backwards, so among messages of one
  second the later row comes first.
\<close>

definition list_messages ::
  "(time \<Rightarrow> string) \<Rightarrow> db \<Rightarrow> int \<Rightarrow> string \<Rightarrow> string option \<Rightarrow> u32 option \<Rightarrow> Message list" where
  "list_messages fmt d s c before limit =
     (let n = min (unat (case limit of Some l \<Rightarrow> l | None \<Rightarrow> 50)) 100;
          rows = filter (\<lambda>r. ms_server r = s \<and> ms_channel r = c \<and>
                    (case before of Some b \<Rightarrow> fmt (ms_created r) < b | None \<Rightarrow> True)) (message_rows d)
      in map map_row_to_message (take n (order_by_desc ms_created (rev rows))))"

definition EDIT_WINDOW_SECONDS :: int where
  "EDIT_WINDOW_SECONDS = 60"

text \<open>The checks that editing and deleting share; the messages differ in one word.\<close>

definition check_editable ::
  "time \<Rightarrow> Message \<Rightarrow> string \<Rightarrow> string \<Rightarrow> string \<Rightarrow> string \<Rightarrow> ChannelError + unit" where
  "check_editable now msg m sender deleted_text expired_text =
     (if mg_sender_pseudonym msg \<noteq> sender
      then Inl (ChNotFound (''message '' @ m @ '' not owned by '' @ sender))
      else if mg_deleted_at msg \<noteq> None then Inl (ChNotFound (''message '' @ m @ deleted_text))
      else if now - mg_created_at msg > EDIT_WINDOW_SECONDS then Inl (ChNotFound expired_text)
      else Inr ())"

definition edit_message ::
  "faults \<Rightarrow> time \<Rightarrow> db \<Rightarrow> string \<Rightarrow> string \<Rightarrow> string \<Rightarrow> (ChannelError + Message) \<times> db" where
  "edit_message flt now d m sender new_content =
     (case and_then (get_message d m) (\<lambda>msg.
             and_then (check_editable now msg m sender '' has been deleted'' ''edit window has expired'')
               (\<lambda>_. Inr msg)) of
        Inl e \<Rightarrow> (Inl e, d)
      | Inr msg \<Rightarrow>
          (case guard_fault flt 0 of
             Inl e \<Rightarrow> (Inl (ChDatabase e), d)
           | Inr _ \<Rightarrow>
               let d1 = d\<lparr>message_edits := auto_insert (\<lambda>i.
                     \<lparr>ed_id = i, ed_message = m, ed_old_content = mg_content msg, ed_edited = now\<rparr>) (message_edits d)\<rparr>
               in case guard_fault flt 1 of
                    Inl e \<Rightarrow> (Inl (ChDatabase e), d1)
                  | Inr _ \<Rightarrow>
                      let d2 = d1\<lparr>messages := auto_update (\<lambda>r. ms_message r = m)
                            (\<lambda>r. r\<lparr>ms_content := new_content, ms_edited := Some now\<rparr>) (messages d1)\<rparr>
                      in (get_message d2 m, d2)))"

definition delete_message ::
  "time \<Rightarrow> db \<Rightarrow> string \<Rightarrow> string \<Rightarrow> (ChannelError + Message) \<times> db" where
  "delete_message now d m sender =
     (case and_then (get_message d m) (\<lambda>msg.
             and_then (check_editable now msg m sender '' already deleted'' ''delete window has expired'')
               (\<lambda>_. Inr msg)) of
        Inl e \<Rightarrow> (Inl e, d)
      | Inr msg \<Rightarrow>
          let d1 = d\<lparr>messages := auto_update (\<lambda>r. ms_message r = m)
                (\<lambda>r. r\<lparr>ms_content := [], ms_deleted := Some now\<rparr>) (messages d)\<rparr>
          in (get_message d1 m, d1))"

definition get_edit_history :: "db \<Rightarrow> string \<Rightarrow> MessageEdit list" where
  "get_edit_history d m =
     map (\<lambda>e. \<lparr>me_id = ed_id e, me_message_id = ed_message e, me_old_content = ed_old_content e,
            me_edited_at = ed_edited e\<rparr>)
       (order_by ed_edited (filter (\<lambda>e. ed_message e = m) (edit_rows d)))"

section \<open>Retention\<close>

definition RETENTION_BATCH_LIMIT :: nat where
  "RETENTION_BATCH_LIMIT = 5000"

definition expired :: "time \<Rightarrow> message_row \<Rightarrow> bool" where
  "expired now r \<longleftrightarrow> null_less (ms_expires r) (Some now)"

text \<open>The batch is selected through the index on the expiry time, earliest first.\<close>

definition retention_batch :: "time \<Rightarrow> db \<Rightarrow> int set" where
  "retention_batch now d =
     set (map ms_id (take RETENTION_BATCH_LIMIT
       (order_by (\<lambda>r. case ms_expires r of Some t \<Rightarrow> t | None \<Rightarrow> 0) (filter (expired now) (message_rows d)))))"

definition delete_expired_messages :: "time \<Rightarrow> db \<Rightarrow> (ChannelError + nat) \<times> db" where
  "delete_expired_messages now d =
     (case delete_messages_sql (\<lambda>r. ms_id r \<in> retention_batch now d) d of
        Inl e \<Rightarrow> (Inl (ChDatabase e), d)
      | Inr (n, d') \<Rightarrow> (Inr n, d'))"

text \<open>The inner loop of the retention task; call number \<open>k\<close> reads the clock as \<open>clock k\<close>.\<close>

lemma delete_expired_shrinks:
  "delete_expired_messages now d = (Inr n, d') \<Longrightarrow> length (message_rows d') + n = length (message_rows d)"
  using count_where_delete_where [of "\<lambda>r. ms_id r \<in> retention_batch now d" "message_rows d"]
  by (auto simp: delete_expired_messages_def delete_messages_sql_def split: if_splits)

function retention_loop :: "(nat \<Rightarrow> time) \<Rightarrow> nat \<Rightarrow> db \<Rightarrow> nat \<Rightarrow> (ChannelError + nat) \<times> db" where
  "retention_loop clock k d deleted_total =
     (case delete_expired_messages (clock k) d of
        (Inl e, d') \<Rightarrow> (Inl e, d')
      | (Inr deleted, d') \<Rightarrow>
          if deleted < 5000 then (Inr (deleted_total + deleted), d')
          else retention_loop clock (k + 1) d' (deleted_total + deleted))"
  by pat_completeness auto

termination
  by (relation "measure (\<lambda>(clock, k, d, deleted_total). length (message_rows d))")
    (auto dest!: sym [THEN delete_expired_shrinks])

declare retention_loop.simps [simp del]

definition retention_run :: "bool \<Rightarrow> (nat \<Rightarrow> time) \<Rightarrow> db \<Rightarrow> (ChannelError + nat) \<times> db" where
  "retention_run pool_ok clock d =
     (if \<not> pool_ok then (Inl (ChDatabase (SqliteFailure EngineFailure)), d) else retention_loop clock 0 d 0)"

section \<open>Keys of updated and deleted rows\<close>

lemma image_update_where: "(\<And>r. p r \<Longrightarrow> g (f r) = g r) \<Longrightarrow> g ` set (update_where p f rs) = g ` set rs"
  using map_update_where [of p g f rs] by (metis set_map)

lemma image_delete_where [simp]: "g ` set rs \<subseteq> A \<Longrightarrow> g ` set (delete_where p rs) \<subseteq> A"
  unfolding set_delete_where by blast

section \<open>Referential integrity\<close>

abbreviation chan_ids :: "db \<Rightarrow> string set" where "chan_ids d \<equiv> ch_channel ` set (channel_rows d)"
abbreviation msg_ids :: "db \<Rightarrow> string set" where "msg_ids d \<equiv> ms_message ` set (message_rows d)"
abbreviation server_ids :: "db \<Rightarrow> int set" where "server_ids d \<equiv> sv_id ` set (servers d)"

definition tables_wf :: "db \<Rightarrow> bool" where
  "tables_wf d \<longleftrightarrow> auto_wf ch_id (channels d) \<and> auto_wf ms_id (messages d) \<and> auto_wf ed_id (message_edits d)
     \<and> auto_wf mb_id (channel_members d)
     \<and> distinct (map ch_channel (channel_rows d)) \<and> distinct (map ms_message (message_rows d))
     \<and> distinct (map (\<lambda>r. (mb_channel r, mb_pseudonym r)) (member_rows d))"

definition references_ok :: "db \<Rightarrow> bool" where
  "references_ok d \<longleftrightarrow> ch_server ` set (channel_rows d) \<subseteq> server_ids d
     \<and> ms_channel ` set (message_rows d) \<subseteq> chan_ids d \<and> ms_server ` set (message_rows d) \<subseteq> server_ids d
     \<and> ed_message ` set (edit_rows d) \<subseteq> msg_ids d
     \<and> mb_channel ` set (member_rows d) \<subseteq> chan_ids d \<and> mb_server ` set (member_rows d) \<subseteq> server_ids d"

definition channels_readable :: "serde \<Rightarrow> db \<Rightarrow> bool" where
  "channels_readable S d \<longleftrightarrow> ch_type ` set (channel_rows d) \<subseteq> range (channel_type_to_json S)
     \<and> ch_scope ` set (channel_rows d) \<subseteq> range (scope_to_json S)
     \<and> ch_min_alignment ` set (channel_rows d) \<subseteq> insert None (range (Some \<circ> alignment_to_json S))"

definition channels_ok :: "serde \<Rightarrow> db \<Rightarrow> bool" where
  "channels_ok S d \<longleftrightarrow> tables_wf d \<and> references_ok d \<and> channels_readable S d"

datatype channel_op =
    CreateChannel time CreateChannelParams
  | UpdateChannel string UpdateChannelParams
  | DeleteChannel faults string
  | AddMember time int string string
  | RemoveMember int string string
  | CreateMessage time CreateMessageParams
  | EditMessage faults time string string string
  | DeleteMessage time string string
  | DeleteExpired time
  | Identities platform_op

text \<open>The identities, which memberships refer to, change by the operations of \<open>annex-identity\<close>.\<close>

fun channel_step :: "serde \<Rightarrow> channel_op \<Rightarrow> db \<Rightarrow> db" where
  "channel_step S (CreateChannel now p) d = snd (create_channel S now d p)"
| "channel_step S (UpdateChannel c u) d = snd (update_channel S d c u)"
| "channel_step S (DeleteChannel flt c) d = snd (delete_channel flt d c)"
| "channel_step S (AddMember now s c p) d = snd (add_member S now d s c p)"
| "channel_step S (RemoveMember s c p) d = snd (remove_member d s c p)"
| "channel_step S (CreateMessage now p) d = snd (create_message S now d p)"
| "channel_step S (EditMessage flt now m sender new) d = snd (edit_message flt now d m sender new)"
| "channel_step S (DeleteMessage now m sender) d = snd (delete_message now d m sender)"
| "channel_step S (DeleteExpired now) d = snd (delete_expired_messages now d)"
| "channel_step S (Identities op) d = platform_step op d"

lemma exists_iff [simp]:
  "server_exists d s \<longleftrightarrow> s \<in> server_ids d" "channel_exists d c \<longleftrightarrow> c \<in> chan_ids d"
  "has_edits d m \<longleftrightarrow> m \<in> ed_message ` set (edit_rows d)"
  by (auto simp: server_exists_def channel_exists_def has_edits_def exists_where_iff image_iff)

lemma ok_create_channel:
  assumes "channels_ok S d" shows "channels_ok S (snd (create_channel S now d p))"
proof (cases "cc_channel_id p \<in> chan_ids d \<or> cc_server_id p \<notin> server_ids d")
  case True
  then show ?thesis using assms by (elim disjE) (simp_all add: create_channel_def)
next
  case False
  have "map_option (alignment_to_json S) x \<in> insert None (range (Some \<circ> alignment_to_json S))" for x
    by (cases x) simp_all
  then show ?thesis
    using assms False auto_wf_insert [of ch_id "channels d"]
    by (simp add: create_channel_def channels_ok_def tables_wf_def references_ok_def channels_readable_def subset_insertI2)
qed

lemma apply_updates_to_simps [simp]:
  "ch_id (apply_updates_to S u r) = ch_id r" "ch_channel (apply_updates_to S u r) = ch_channel r"
  "ch_server (apply_updates_to S u r) = ch_server r" "ch_type (apply_updates_to S u r) = ch_type r"
  by (simp_all add: apply_updates_to_def)

lemma ok_update_channel:
  assumes "channels_ok S d" shows "channels_ok S (snd (update_channel S d c u))"
proof (cases "no_updates u")
  case True
  then show ?thesis using assms by (simp add: update_channel_def)
next
  case False
  let ?rs = "update_where (\<lambda>r. ch_channel r = c) (apply_updates_to S u) (channel_rows d)"
  have im: "ch_channel ` set ?rs = chan_ids d" "ch_server ` set ?rs = ch_server ` set (channel_rows d)"
    "ch_type ` set ?rs = ch_type ` set (channel_rows d)"
    by (rule image_update_where, simp)+
  have "distinct (map ch_channel ?rs)"
    using assms map_update_where [of "\<lambda>r. ch_channel r = c" ch_channel "apply_updates_to S u" "channel_rows d"]
    by (simp add: channels_ok_def tables_wf_def)
  moreover have "auto_wf ch_id (auto_update (\<lambda>r. ch_channel r = c) (apply_updates_to S u) (channels d))"
    using assms by (intro auto_wf_update) (simp_all add: channels_ok_def tables_wf_def)
  moreover have readable: "ch_scope x \<in> range (scope_to_json S) \<and>
      ch_min_alignment x \<in> insert None (range (Some \<circ> alignment_to_json S))" if x: "x \<in> set ?rs" for x
  proof -
    have old: "ch_scope r \<in> range (scope_to_json S)" "ch_min_alignment r \<in> insert None (range (Some \<circ> alignment_to_json S))"
      if "r \<in> set (channel_rows d)" for r
      using assms that unfolding channels_ok_def channels_readable_def by blast+
    from x consider r where "r \<in> set (channel_rows d)" "x = apply_updates_to S u r" | "x \<in> set (channel_rows d)"
      unfolding set_update_where by blast
    then show ?thesis
    proof cases
      case 1
      then show ?thesis using old [OF 1(1)] unfolding apply_updates_to_def
        by (cases "uc_federation_scope u"; cases "uc_agent_min_alignment u") simp_all
    next
      case 2
      then show ?thesis using old by blast
    qed
  qed
  have "ch_scope ` set ?rs \<subseteq> range (scope_to_json S)"
    by (intro image_subsetI readable [THEN conjunct1])
  moreover have "ch_min_alignment ` set ?rs \<subseteq> insert None (range (Some \<circ> alignment_to_json S))"
    by (intro image_subsetI readable [THEN conjunct2])
  ultimately show ?thesis
    using assms False im
    by (simp add: update_channel_def Let_def channels_ok_def tables_wf_def references_ok_def channels_readable_def)
qed

text \<open>Deleting messages that no edit refers to.\<close>

lemma delete_messages_sql_Inr:
  "delete_messages_sql p d = Inr (n, d') \<longleftrightarrow>
     (\<forall>r \<in> set (message_rows d). p r \<longrightarrow> ms_message r \<notin> ed_message ` set (edit_rows d)) \<and>
     n = count_where p (message_rows d) \<and> d' = d\<lparr>messages := auto_delete p (messages d)\<rparr>"
  by (simp add: delete_messages_sql_def exists_where_iff) metis

lemma ok_delete_messages:
  assumes "channels_ok S d" and "delete_messages_sql p d = Inr (n, d')"
  shows "channels_ok S d'"
proof -
  have d': "d' = d\<lparr>messages := auto_delete p (messages d)\<rparr>"
    and no: "\<And>r. r \<in> set (message_rows d) \<Longrightarrow> p r \<Longrightarrow> ms_message r \<notin> ed_message ` set (edit_rows d)"
    using assms(2) unfolding delete_messages_sql_Inr by blast+
  let ?rs = "delete_where p (message_rows d)"
  have "ed_message ` set (edit_rows d) \<subseteq> ms_message ` set ?rs"
  proof
    fix m assume m: "m \<in> ed_message ` set (edit_rows d)"
    then have "m \<in> msg_ids d" using assms(1) unfolding channels_ok_def references_ok_def by blast
    then obtain r where r: "m = ms_message r" "r \<in> set (message_rows d)" by (rule imageE)
    then have "\<not> p r" using no m by blast
    with r show "m \<in> ms_message ` set ?rs" unfolding set_delete_where by blast
  qed
  moreover have "distinct (map ms_message ?rs)" "auto_wf ms_id (auto_delete p (messages d))"
    using assms(1) by (simp_all add: channels_ok_def tables_wf_def distinct_map_delete_where auto_wf_delete)
  ultimately show ?thesis
    using assms(1) unfolding d' channels_ok_def tables_wf_def references_ok_def channels_readable_def by simp
qed

lemma ok_delete_members:
  assumes "channels_ok S d"
  shows "channels_ok S (d\<lparr>channel_members := auto_delete p (channel_members d)\<rparr>)"
proof -
  let ?rs = "delete_where p (member_rows d)"
  have "distinct (map (\<lambda>r. (mb_channel r, mb_pseudonym r)) ?rs)" "auto_wf mb_id (auto_delete p (channel_members d))"
    using assms(1) by (simp_all add: channels_ok_def tables_wf_def distinct_map_delete_where auto_wf_delete)
  then show ?thesis
    using assms(1) unfolding channels_ok_def tables_wf_def references_ok_def channels_readable_def by simp
qed

lemma ok_delete_channel_row:
  assumes "channels_ok S d" and "c \<notin> ms_channel ` set (message_rows d)" and "c \<notin> mb_channel ` set (member_rows d)"
  shows "channels_ok S (d\<lparr>channels := auto_delete (\<lambda>r. ch_channel r = c) (channels d)\<rparr>)"
proof -
  let ?rs = "delete_where (\<lambda>r. ch_channel r = c) (channel_rows d)"
  have keep: "A \<subseteq> ch_channel ` set ?rs" if "A \<subseteq> chan_ids d" "c \<notin> A" for A
  proof
    fix x assume x: "x \<in> A"
    then have "x \<in> chan_ids d" "x \<noteq> c" using that by auto
    then obtain r where "x = ch_channel r" "r \<in> set (channel_rows d)" by (elim imageE)
    with \<open>x \<noteq> c\<close> show "x \<in> ch_channel ` set ?rs" unfolding set_delete_where by (intro image_eqI) simp_all
  qed
  have "ms_channel ` set (message_rows d) \<subseteq> chan_ids d" "mb_channel ` set (member_rows d) \<subseteq> chan_ids d"
    using assms(1) by (simp_all add: channels_ok_def references_ok_def)
  then have "ms_channel ` set (message_rows d) \<subseteq> ch_channel ` set ?rs" "mb_channel ` set (member_rows d) \<subseteq> ch_channel ` set ?rs"
    using assms(2,3) by (simp_all only: keep not_False_eq_True)
  moreover have "distinct (map ch_channel ?rs)" "auto_wf ch_id (auto_delete (\<lambda>r. ch_channel r = c) (channels d))"
    using assms(1) by (simp_all add: channels_ok_def tables_wf_def distinct_map_delete_where auto_wf_delete)
  ultimately show ?thesis
    using assms(1) unfolding channels_ok_def tables_wf_def references_ok_def channels_readable_def by simp
qed

lemma gone_after_delete: "k \<notin> g ` set (delete_where (\<lambda>r. g r = k) rs)"
  unfolding set_delete_where by blast

lemma ok_delete_channel:
  assumes "channels_ok S d" shows "channels_ok S (snd (delete_channel flt d c))"
proof (cases "and_then (guard_fault flt 0) (\<lambda>_. delete_messages_sql (\<lambda>r. ms_channel r = c) d)")
  case (Inl e)
  then show ?thesis using assms by (simp add: delete_channel_def)
next
  case (Inr x)
  obtain n d1 where x: "x = (n, d1)" by (cases x)
  have del: "delete_messages_sql (\<lambda>r. ms_channel r = c) d = Inr (n, d1)"
    using Inr x by (cases "guard_fault flt 0") simp_all
  have ok1: "channels_ok S d1" by (rule ok_delete_messages [OF assms del])
  let ?d2 = "d1\<lparr>channel_members := auto_delete (\<lambda>r. mb_channel r = c) (channel_members d1)\<rparr>"
  have ok2: "channels_ok S ?d2" by (rule ok_delete_members [OF ok1])
  have "c \<notin> ms_channel ` set (message_rows ?d2)" "c \<notin> mb_channel ` set (member_rows ?d2)"
    using del gone_after_delete [of c ms_channel] gone_after_delete [of c mb_channel]
    by (simp_all add: delete_messages_sql_Inr)
  then have "channels_ok S (?d2\<lparr>channels := auto_delete (\<lambda>r. ch_channel r = c) (channels ?d2)\<rparr>)"
    by (rule ok_delete_channel_row [OF ok2])
  then show ?thesis
    using Inr x ok1 ok2 by (simp add: delete_channel_def Let_def split: sum.split)
qed

lemma ok_insert_member:
  assumes "channels_ok S d" and "insert_member_sql now d s c p = Inr d'"
  shows "channels_ok S d'"
proof -
  have new: "\<not> exists_where (\<lambda>r. mb_channel r = c \<and> mb_pseudonym r = p) (member_rows d)"
    "s \<in> server_ids d" "c \<in> chan_ids d" and d': "d' = d\<lparr>channel_members := auto_insert (\<lambda>i.
             \<lparr>mb_id = i, mb_server = s, mb_channel = c, mb_pseudonym = p, mb_role = ''MEMBER'', mb_joined = now\<rparr>)
             (channel_members d)\<rparr>"
    using assms(2) unfolding insert_member_sql_def by (simp_all split: if_splits)
  have "(c, p) \<notin> (\<lambda>r. (mb_channel r, mb_pseudonym r)) ` set (member_rows d)"
    by (rule key_not_image) (use new(1) in \<open>simp add: exists_where_iff\<close>)
  then show ?thesis
    using assms(1) new(2,3) auto_wf_insert [of mb_id "channel_members d"]
    unfolding d' channels_ok_def tables_wf_def references_ok_def channels_readable_def by simp
qed

lemma ok_add_member:
  assumes "channels_ok S d" shows "channels_ok S (snd (add_member S now d s c p))"
  using assms ok_insert_member [OF assms, of now s c p]
  by (auto simp: add_member_def split: sum.split)

lemma ok_remove_member:
  assumes "channels_ok S d" shows "channels_ok S (snd (remove_member d s c p))"
  using ok_delete_members [OF assms] by (simp add: remove_member_def Let_def)

lemma resolve_Inr:
  "resolve_retention_days S d c = Inr (s, r) \<Longrightarrow> \<exists>row \<in> set (channel_rows d). ch_channel row = c \<and> ch_server row = s"
  by (auto simp: resolve_retention_days_def Let_def dest!: first_where_Some split: option.splits)

lemma ok_create_message:
  assumes "channels_ok S d" shows "channels_ok S (snd (create_message S now d p))"
proof (cases "resolve_retention_days S d (mp_channel_id p)")
  case (Inl e)
  then show ?thesis using assms by (simp add: create_message_def)
next
  case (Inr x)
  obtain s r where x: "x = (s, r)" by (cases x)
  show ?thesis
  proof (cases "exists_where (\<lambda>r. ms_message r = mp_message_id p) (message_rows d)
      \<or> mp_channel_id p \<notin> chan_ids d \<or> s \<notin> server_ids d")
    case True
    then show ?thesis using assms Inr x by (elim disjE) (simp_all add: create_message_def)
  next
    case False
    then have "mp_message_id p \<notin> msg_ids d" by (intro key_not_image) (simp add: exists_where_iff)
    with False assms show ?thesis
      using auto_wf_insert [of ms_id "messages d"]
      by (simp add: create_message_def Inr x Let_def channels_ok_def tables_wf_def references_ok_def
          channels_readable_def subset_insertI2)
  qed
qed

lemma ok_update_message:
  assumes "channels_ok S d"
    and "\<And>r. ms_id (f r) = ms_id r \<and> ms_message (f r) = ms_message r \<and> ms_channel (f r) = ms_channel r
           \<and> ms_server (f r) = ms_server r"
  shows "channels_ok S (d\<lparr>messages := auto_update p f (messages d)\<rparr>)"
proof -
  let ?rs = "update_where p f (message_rows d)"
  have im: "ms_channel ` set ?rs = ms_channel ` set (message_rows d)" "ms_server ` set ?rs = ms_server ` set (message_rows d)"
    "ms_message ` set ?rs = msg_ids d"
    by (rule image_update_where, simp add: assms(2))+
  have "map ms_message ?rs = map ms_message (message_rows d)" by (rule map_update_where) (simp add: assms(2))
  moreover have "auto_wf ms_id (auto_update p f (messages d))"
    using assms by (intro auto_wf_update) (simp_all add: channels_ok_def tables_wf_def)
  ultimately show ?thesis
    using assms(1) im unfolding channels_ok_def tables_wf_def references_ok_def channels_readable_def by simp
qed

lemma ok_insert_edit:
  assumes "channels_ok S d" and "m \<in> msg_ids d" and "\<And>i. ed_id (mk i) = i" and "\<And>i. ed_message (mk i) = m"
  shows "channels_ok S (d\<lparr>message_edits := auto_insert mk (message_edits d)\<rparr>)"
  using assms auto_wf_insert [of ed_id "message_edits d" mk]
  unfolding channels_ok_def tables_wf_def references_ok_def channels_readable_def by simp

lemma get_message_Inr:
  "get_message d m = Inr msg \<longleftrightarrow>
     (\<exists>r. first_where (\<lambda>r. ms_message r = m) (message_rows d) = Some r \<and> msg = map_row_to_message r)"
  by (auto simp: get_message_def split: option.splits)

lemma get_message_known: "get_message d m = Inr msg \<Longrightarrow> m \<in> msg_ids d"
  unfolding get_message_Inr by (auto dest!: first_where_Some)

lemma ok_edit_message:
  assumes "channels_ok S d" shows "channels_ok S (snd (edit_message flt now d m sender new))"
proof (cases "and_then (get_message d m) (\<lambda>msg.
    and_then (check_editable now msg m sender '' has been deleted'' ''edit window has expired'') (\<lambda>_. Inr msg))")
  case (Inl e)
  then show ?thesis using assms by (simp add: edit_message_def)
next
  case (Inr msg)
  then have "m \<in> msg_ids d" by (auto simp: and_then_Inr dest: get_message_known)
  then have e: "channels_ok S (d\<lparr>message_edits := auto_insert (\<lambda>i.
      \<lparr>ed_id = i, ed_message = m, ed_old_content = mg_content msg, ed_edited = now\<rparr>) (message_edits d)\<rparr>)"
    by (intro ok_insert_edit [OF assms]) simp_all
  then show ?thesis
    using assms ok_update_message [OF e] Inr by (simp add: edit_message_def Let_def split: sum.split)
qed

lemma ok_delete_message:
  assumes "channels_ok S d" shows "channels_ok S (snd (delete_message now d m sender))"
  using assms ok_update_message [OF assms] by (simp add: delete_message_def Let_def split: sum.split)

lemma ok_delete_expired:
  assumes "channels_ok S d" shows "channels_ok S (snd (delete_expired_messages now d))"
  using assms ok_delete_messages [OF assms]
  by (auto simp: delete_expired_messages_def split: sum.split)

text \<open>The operations on identities change nothing else and remove none.\<close>

abbreviation identity_keys :: "db \<Rightarrow> (int \<times> string) set" where
  "identity_keys d \<equiv> (\<lambda>r. (pi_server r, pi_pseudonym r)) ` set (platform_rows d)"

lemma platform_step_identities:
  "\<exists>x. platform_step op d = d\<lparr>platform_identities := x\<rparr> \<and> identity_keys d \<subseteq> (\<lambda>r. (pi_server r, pi_pseudonym r)) ` set (auto_rows x)"
proof (cases "platform_step op d = d")
  case True
  then show ?thesis by (intro exI [of _ "platform_identities d"]) simp
next
  case False
  then show ?thesis
    by (cases op) (auto simp: create_platform_identity_def update_capabilities_def ensure_founder_def
        deactivate_platform_identity_def Let_def image_update_where)
qed

lemma ok_identities:
  assumes "channels_ok S d" shows "channels_ok S (platform_step op d)"
proof -
  obtain x where x: "platform_step op d = d\<lparr>platform_identities := x\<rparr>" using platform_step_identities by blast
  show ?thesis using assms unfolding x channels_ok_def tables_wf_def references_ok_def channels_readable_def by simp
qed

interpretation channel_machine: invariant_machine "channel_step S" "channels_ok S" for S
proof (standard, goal_cases)
  case (1 d op)
  then show ?case
    by (cases op) (simp_all add: ok_create_channel ok_update_channel ok_delete_channel ok_add_member
        ok_remove_member ok_create_message ok_edit_message ok_delete_message ok_delete_expired ok_identities)
qed

section \<open>Members are identities\<close>

definition members_registered :: "db \<Rightarrow> bool" where
  "members_registered d \<longleftrightarrow> (\<lambda>r. (mb_server r, mb_pseudonym r)) ` set (member_rows d) \<subseteq> identity_keys d"

lemma members_kept:
  assumes "members_registered d" and "platform_identities d' = platform_identities d"
    and "set (member_rows d') \<subseteq> set (member_rows d)"
  shows "members_registered d'"
  using assms unfolding members_registered_def by auto

lemma delete_messages_members:
  "delete_messages_sql p d = Inr (n, d') \<Longrightarrow>
   platform_identities d' = platform_identities d \<and> channel_members d' = channel_members d"
  by (simp add: delete_messages_sql_Inr)

lemma delete_channel_members:
  "platform_identities (snd (delete_channel flt d c)) = platform_identities d
   \<and> set (member_rows (snd (delete_channel flt d c))) \<subseteq> set (member_rows d)"
proof (cases "and_then (guard_fault flt 0) (\<lambda>_. delete_messages_sql (\<lambda>r. ms_channel r = c) d)")
  case (Inl e)
  then show ?thesis by (simp add: delete_channel_def)
next
  case (Inr x)
  obtain n d1 where x: "x = (n, d1)" by (cases x)
  have "delete_messages_sql (\<lambda>r. ms_channel r = c) d = Inr (n, d1)"
    using Inr x by (cases "guard_fault flt 0") simp_all
  from delete_messages_members [OF this] show ?thesis
    using Inr x by (auto simp: delete_channel_def Let_def set_delete_where split: sum.split)
qed

lemma add_member_registered:
  assumes "members_registered d" shows "members_registered (snd (add_member S now d s c p))"
proof (cases "snd (add_member S now d s c p) = d")
  case False
  then obtain d' where d': "snd (add_member S now d s c p) = d'" and ins: "insert_member_sql now d s c p = Inr d'"
    by (auto simp: add_member_def split: sum.splits if_splits)
  then have id: "exists_where (\<lambda>r. pi_server r = s \<and> pi_pseudonym r = p) (platform_rows d)"
    and rows: "d' = d\<lparr>channel_members := auto_insert (\<lambda>i.
             \<lparr>mb_id = i, mb_server = s, mb_channel = c, mb_pseudonym = p, mb_role = ''MEMBER'', mb_joined = now\<rparr>)
             (channel_members d)\<rparr>"
    by (simp_all add: insert_member_sql_def split: if_splits)
  from id have "(s, p) \<in> identity_keys d" by (auto simp: exists_where_iff image_iff)
  then show ?thesis using assms unfolding d' by (subst rows) (simp add: members_registered_def)
qed (use assms in simp)

interpretation member_machine: invariant_machine "channel_step S" members_registered for S
proof (standard, goal_cases)
  case (1 d op)
  show ?case
  proof (cases op)
    case (AddMember now s c p)
    then show ?thesis using add_member_registered [OF 1] by simp
  next
    case (Identities x)
    obtain y where y: "platform_step x d = d\<lparr>platform_identities := y\<rparr>"
      "identity_keys d \<subseteq> (\<lambda>r. (pi_server r, pi_pseudonym r)) ` set (auto_rows y)"
      using platform_step_identities by blast
    then show ?thesis using 1 by (auto simp: Identities members_registered_def)
  next
    case (DeleteChannel flt c)
    then show ?thesis using members_kept [OF 1] delete_channel_members [of flt d c] by simp
  next
    case (EditMessage flt now m sender new)
    then show ?thesis by (intro members_kept [OF 1]) (simp_all add: edit_message_def Let_def split: sum.split)
  next
    case (DeleteExpired now)
    then show ?thesis
      using members_kept [OF 1] delete_messages_members
      by (auto simp: delete_expired_messages_def split: sum.split)
  qed (rule members_kept [OF 1]; simp add: create_channel_def update_channel_def remove_member_def create_message_def
      delete_message_def set_delete_where Let_def split: sum.split prod.split)+
qed

end
