(* ===== verification/Annex_Messages.thy ===== *)
theory Annex_Messages
  imports Annex_Channels "HOL-Library.Multiset"
begin

text \<open>
  What the operations of \<open>annex-channels\<close> guarantee: readable rows and intact references
  under every sequence of operations, the editing and deletion window, the expiry that a new
  message gets, the completeness of the retention task, and the cascade of a channel's
  deletion. The last two fail when a message was edited: the edit history refers to the
  message and the statement that deletes it is refused as a whole.
\<close>

section \<open>Keys\<close>

lemma distinct_ids:
  assumes "channels_ok S d"
  shows "distinct (map ms_message (message_rows d))" and "distinct (map ch_channel (channel_rows d))"
    and "distinct (map ms_id (message_rows d))"
  using assms by (simp_all add: channels_ok_def tables_wf_def auto_wf_distinct)

section \<open>Integrity\<close>

lemma channel_readable:
  assumes "serde_laws S" and "channels_ok S d" and "r \<in> set (channel_rows d)"
  shows "\<exists>c. map_row_to_channel S r = Inr c"
proof -
  have m: "ch_type r \<in> range (channel_type_to_json S)" "ch_scope r \<in> range (scope_to_json S)"
    "ch_min_alignment r \<in> insert None (range (Some \<circ> alignment_to_json S))"
    using assms(2,3) unfolding channels_ok_def channels_readable_def by blast+
  obtain ty where ty: "ch_type r = channel_type_to_json S ty" using m(1) by (elim rangeE)
  obtain sc where sc: "ch_scope r = scope_to_json S sc" using m(2) by (elim rangeE)
  consider "ch_min_alignment r = None" | a where "ch_min_alignment r = Some (alignment_to_json S a)"
    using m(3) by (elim insertE rangeE) (simp_all add: comp_def)
  then show ?thesis
    using assms(1) by cases (simp_all add: map_row_to_channel_def serde_laws_def ty sc)
qed

lemma collect_res_ok: "(\<And>x. x \<in> set xs \<Longrightarrow> \<exists>y. g x = Inr y) \<Longrightarrow> \<exists>ys. collect_res (map g xs) = Inr ys"
proof (induction xs)
  case (Cons x xs)
  obtain y where "g x = Inr y" using Cons.prems [of x] by auto
  moreover obtain ys where "collect_res (map g xs) = Inr ys" using Cons.IH Cons.prems by auto
  ultimately show ?case by simp
qed simp

text \<open>
  C4. Integrity of channels, members and messages: after any sequence of the crate's operations
  (failed and half-executed ones included) and of operations on identities, on a freshly migrated
  database with any servers, every message, member and edit refers to a channel, message and
  server that exist, every member is an identity of its server, ids are unique, and every
  channel can be read: a lookup fails only for a channel that does not exist, and the list of a
  server's channels never fails.
\<close>

theorem channels_integrity:
  assumes "serde_laws S" and "d = fold (channel_step S) ops ((migrated_db t)\<lparr>servers := svs\<rparr>)"
  shows "channels_ok S d \<and> members_registered d
    \<and> (get_channel S d c = Inl e \<longrightarrow> e = ChNotFound c \<and> c \<notin> chan_ids d)
    \<and> (\<exists>cs. list_channels S d s = Inr cs)
    \<and> (m \<in> set (message_rows d) \<longrightarrow> (\<exists>ch. get_channel S d (ms_channel m) = Inr ch))
    \<and> (mb \<in> set (member_rows d) \<longrightarrow> (\<exists>ch. get_channel S d (mb_channel mb) = Inr ch)
         \<and> (mb_server mb, mb_pseudonym mb) \<in> identity_keys d)"
proof (intro conjI impI)
  have "channels_ok S ((migrated_db t)\<lparr>servers := svs\<rparr>)"
    by (simp add: channels_ok_def tables_wf_def references_ok_def channels_readable_def)
  then show ok: "channels_ok S d" unfolding assms(2) by (rule channel_machine.run_inv)
  have "members_registered ((migrated_db t)\<lparr>servers := svs\<rparr>)" by (simp add: members_registered_def)
  then show reg: "members_registered d" unfolding assms(2) by (rule member_machine.run_inv)
  note readable = channel_readable [OF assms(1) ok]
  have found: "\<exists>ch. get_channel S d x = Inr ch" if "x \<in> chan_ids d" for x
  proof -
    obtain r where "r \<in> set (channel_rows d)" "ch_channel r = x" using \<open>x \<in> chan_ids d\<close> by (elim imageE) simp
    then have "first_where (\<lambda>r. ch_channel r = x) (channel_rows d) = Some r"
      using first_where_key [OF distinct_ids(2) [OF ok], of r] by simp
    moreover obtain ch where "map_row_to_channel S r = Inr ch" using readable [OF \<open>r \<in> _\<close>] by (elim exE)
    ultimately show ?thesis by (simp add: get_channel_def)
  qed
  show "c \<notin> chan_ids d" if "get_channel S d c = Inl e" using found [of c] that by auto
  show "e = ChNotFound c" if h: "get_channel S d c = Inl e"
  proof -
    have "c \<notin> chan_ids d" using found [of c] h by auto
    then have "first_where (\<lambda>r. ch_channel r = c) (channel_rows d) = None" by (rule first_where_no_key)
    then show ?thesis using h by (simp add: get_channel_def)
  qed
  show "\<exists>ch. get_channel S d (ms_channel m) = Inr ch" if h: "m \<in> set (message_rows d)"
  proof (rule found)
    have "ms_channel ` set (message_rows d) \<subseteq> chan_ids d" using ok by (simp add: channels_ok_def references_ok_def)
    then show "ms_channel m \<in> chan_ids d" using h by (simp add: subset_iff)
  qed
  show "\<exists>ch. get_channel S d (mb_channel mb) = Inr ch" "(mb_server mb, mb_pseudonym mb) \<in> identity_keys d"
    if h: "mb \<in> set (member_rows d)"
  proof -
    have "mb_channel ` set (member_rows d) \<subseteq> chan_ids d" using ok by (simp add: channels_ok_def references_ok_def)
    then have "mb_channel mb \<in> chan_ids d" using h by (simp add: subset_iff)
    then show "\<exists>ch. get_channel S d (mb_channel mb) = Inr ch" by (rule found)
    show "(mb_server mb, mb_pseudonym mb) \<in> identity_keys d"
      using reg h unfolding members_registered_def by (rule subsetD [OF _ image_eqI [OF refl]])
  qed
  let ?rows = "take 1000 (order_by ch_name (filter (\<lambda>r. ch_server r = s) (channel_rows d)))"
  have "\<exists>cs. collect_res (map (map_row_to_channel S) ?rows) = Inr cs"
  proof (rule collect_res_ok)
    fix r assume "r \<in> set ?rows"
    then have "r \<in> set (order_by ch_name (filter (\<lambda>r. ch_server r = s) (channel_rows d)))" by (rule in_set_takeD)
    then show "\<exists>y. map_row_to_channel S r = Inr y" using readable [of r] by simp
  qed
  then show "\<exists>cs. list_channels S d s = Inr cs" by (elim exE) (simp add: list_channels_def)
qed

section \<open>Editing and deleting messages\<close>

lemma get_message_update:
  assumes "\<And>r. ms_message (f r) = ms_message r"
  shows "get_message (d\<lparr>messages := auto_update (\<lambda>r. ms_message r = m) f (messages d)\<rparr>) m' =
    (case first_where (\<lambda>r. ms_message r = m') (message_rows d) of
       None \<Rightarrow> Inl (ChNotFound m') | Some r \<Rightarrow> Inr (map_row_to_message (if m' = m then f r else r)))"
proof -
  have "first_where (\<lambda>r. ms_message r = m') (update_where (\<lambda>r. ms_message r = m) f (message_rows d)) =
      map_option (\<lambda>r. if ms_message r = m then f r else r) (first_where (\<lambda>r. ms_message r = m') (message_rows d))"
    by (rule first_where_update_where) (simp add: assms)
  then show ?thesis
    by (cases "first_where (\<lambda>r. ms_message r = m') (message_rows d)")
      (auto simp: get_message_def elim: first_where_keyE)
qed

lemma get_message_edits [simp]: "get_message (d\<lparr>message_edits := e\<rparr>) m = get_message d m"
  by (simp add: get_message_def)

text \<open>Who may change a message, and until when.\<close>

definition may_change :: "time \<Rightarrow> string \<Rightarrow> message_row \<Rightarrow> bool" where
  "may_change now sender r \<longleftrightarrow> ms_sender r = sender \<and> ms_deleted r = None \<and> now - ms_created r \<le> 60"

lemma check_editable_iff:
  "check_editable now (map_row_to_message r) m sender t1 t2 = Inr u \<longleftrightarrow> may_change now sender r"
  by (simp add: check_editable_def may_change_def map_row_to_message_def EDIT_WINDOW_SECONDS_def)

lemma check_editable_refuses:
  assumes "\<not> may_change now sender r"
  shows "\<exists>reason. check_editable now (map_row_to_message r) m sender t1 t2 = Inl (ChNotFound reason)"
  using assms by (auto simp: check_editable_def may_change_def map_row_to_message_def EDIT_WINDOW_SECONDS_def)

lemma history_insert:
  assumes "\<And>i. ed_message (mk i) = m" and "\<And>i. ed_old_content (mk i) = old"
  shows "mset (map me_old_content (get_edit_history (d\<lparr>message_edits := auto_insert mk (message_edits d), messages := t\<rparr>) m')) =
    (if m' = m then {#old#} else {#}) + mset (map me_old_content (get_edit_history d m'))"
  using assms by (simp add: get_edit_history_def order_by_def comp_def)

text \<open>
  C27. Editing: an edit succeeds exactly for the author of a message that is not deleted and was
  created at most sixty seconds ago. It then replaces the content, stamps the time, adds the
  old content to the history and changes no other message or history; every refused edit
  changes nothing. Without engine faults these are the only outcomes.
\<close>

theorem edit_message_spec:
  assumes "edit_message no_faults now d m sender new = (res, d')"
  shows "case first_where (\<lambda>r. ms_message r = m) (message_rows d) of
      None \<Rightarrow> res = Inl (ChNotFound m) \<and> d' = d
    | Some r \<Rightarrow>
        if may_change now sender r
        then (\<exists>msg. res = Inr msg \<and> get_message d' m = Inr msg
               \<and> msg = (map_row_to_message r)\<lparr>mg_content := new, mg_edited_at := Some now\<rparr>)
          \<and> mset (map me_old_content (get_edit_history d' m)) =
              {#ms_content r#} + mset (map me_old_content (get_edit_history d m))
          \<and> (m' \<noteq> m \<longrightarrow> get_message d' m' = get_message d m'
              \<and> mset (map me_old_content (get_edit_history d' m')) = mset (map me_old_content (get_edit_history d m')))
        else (\<exists>reason. res = Inl (ChNotFound reason)) \<and> d' = d"
proof (cases "first_where (\<lambda>r. ms_message r = m) (message_rows d)")
  case None
  then show ?thesis using assms by (simp add: edit_message_def get_message_def)
next
  case (Some r)
  then have get: "get_message d m = Inr (map_row_to_message r)" by (simp add: get_message_def)
  let ?chk = "check_editable now (map_row_to_message r) m sender"
  show ?thesis
  proof (cases "may_change now sender r")
    case False
    obtain reason where reason: "?chk '' has been deleted'' ''edit window has expired'' = Inl (ChNotFound reason)"
      using check_editable_refuses [OF False] by blast
    then have "res = Inl (ChNotFound reason)" and "d' = d" using assms by (simp_all add: edit_message_def get)
    then show ?thesis using Some False by simp
  next
    case True
    let ?f = "\<lambda>r. r\<lparr>ms_content := new, ms_edited := Some now\<rparr>"
    let ?mk = "\<lambda>i. \<lparr>ed_id = i, ed_message = m, ed_old_content = ms_content r, ed_edited = now\<rparr>"
    have chk: "?chk '' has been deleted'' ''edit window has expired'' = Inr ()"
      using True by (simp add: check_editable_iff)
    have c: "mg_content (map_row_to_message r) = ms_content r" by (simp add: map_row_to_message_def)
    let ?d1 = "d\<lparr>message_edits := auto_insert ?mk (message_edits d)\<rparr>"
    let ?d2 = "?d1\<lparr>messages := auto_update (\<lambda>r. ms_message r = m) ?f (messages ?d1)\<rparr>"
    have e: "(res, d') = (get_message ?d2 m, ?d2)"
      unfolding assms [symmetric] by (simp add: edit_message_def get chk c Let_def)
    then have d': "d' = ?d2" and res: "res = get_message ?d2 m" by (simp_all only: prod.inject)
    have g: "get_message ?d2 x = (case first_where (\<lambda>r. ms_message r = x) (message_rows d) of
        None \<Rightarrow> Inl (ChNotFound x) | Some r \<Rightarrow> Inr (map_row_to_message (if x = m then ?f r else r)))" for x
      using get_message_update [where f = ?f and d = ?d1 and m = m and m' = x] by simp
    have h: "mset (map me_old_content (get_edit_history ?d2 x)) =
        (if x = m then {#ms_content r#} else {#}) + mset (map me_old_content (get_edit_history d x))" for x
      using history_insert [where mk = ?mk and m = m and old = "ms_content r" and d = d and m' = x] by simp
    have upd: "map_row_to_message (?f r) = (map_row_to_message r)\<lparr>mg_content := new, mg_edited_at := Some now\<rparr>"
      by (simp add: map_row_to_message_def)
    have own: "get_message ?d2 m = Inr ((map_row_to_message r)\<lparr>mg_content := new, mg_edited_at := Some now\<rparr>)"
      unfolding g Some by (simp add: upd)
    have other: "get_message ?d2 x = get_message d x" if "x \<noteq> m" for x
      unfolding g if_not_P [OF that] unfolding get_message_def by (rule refl)
    show ?thesis
      unfolding Some d' res own h using True other [of m'] by simp
  qed
qed

lemma deleted_is_final:
  assumes "get_message d m = Inr msg" and "mg_deleted_at msg \<noteq> None"
  shows "snd (edit_message flt now d m sender new) = d \<and> \<not> is_ok (fst (edit_message flt now d m sender new))
    \<and> snd (delete_message now d m sender) = d \<and> \<not> is_ok (fst (delete_message now d m sender))"
  using assms by (simp add: edit_message_def delete_message_def check_editable_def)

text \<open>
  Deleting: a deletion succeeds exactly when an edit would. It empties the content and stamps
  the time, leaves every other message and the whole edit history as they are, and is final:
  afterwards nobody can edit or delete the message again, at any time.
\<close>

theorem delete_message_spec:
  assumes "delete_message now d m sender = (res, d')"
  shows "case first_where (\<lambda>r. ms_message r = m) (message_rows d) of
      None \<Rightarrow> res = Inl (ChNotFound m) \<and> d' = d
    | Some r \<Rightarrow>
        if may_change now sender r
        then (\<exists>msg. res = Inr msg \<and> get_message d' m = Inr msg
               \<and> msg = (map_row_to_message r)\<lparr>mg_content := [], mg_deleted_at := Some now\<rparr>)
          \<and> message_edits d' = message_edits d
          \<and> (m' \<noteq> m \<longrightarrow> get_message d' m' = get_message d m')
          \<and> snd (edit_message flt later d' m anyone new) = d' \<and> \<not> is_ok (fst (edit_message flt later d' m anyone new))
          \<and> snd (delete_message later d' m anyone) = d' \<and> \<not> is_ok (fst (delete_message later d' m anyone))
        else (\<exists>reason. res = Inl (ChNotFound reason)) \<and> d' = d"
proof (cases "first_where (\<lambda>r. ms_message r = m) (message_rows d)")
  case None
  then show ?thesis using assms by (simp add: delete_message_def get_message_def)
next
  case (Some r)
  then have get: "get_message d m = Inr (map_row_to_message r)" by (simp add: get_message_def)
  let ?chk = "check_editable now (map_row_to_message r) m sender"
  show ?thesis
  proof (cases "may_change now sender r")
    case False
    obtain reason where "?chk '' already deleted'' ''delete window has expired'' = Inl (ChNotFound reason)"
      using check_editable_refuses [OF False] by blast
    then have "res = Inl (ChNotFound reason)" and "d' = d" using assms by (simp_all add: delete_message_def get)
    then show ?thesis using Some False by simp
  next
    case True
    let ?f = "\<lambda>r. r\<lparr>ms_content := [], ms_deleted := Some now\<rparr>"
    let ?msg = "(map_row_to_message r)\<lparr>mg_content := [], mg_deleted_at := Some now\<rparr>"
    let ?d2 = "d\<lparr>messages := auto_update (\<lambda>r. ms_message r = m) ?f (messages d)\<rparr>"
    have chk: "?chk '' already deleted'' ''delete window has expired'' = Inr ()"
      using True by (simp add: check_editable_iff)
    have "(res, d') = (get_message ?d2 m, ?d2)"
      unfolding assms [symmetric] by (simp add: delete_message_def get chk Let_def)
    then have d': "d' = ?d2" and res: "res = get_message ?d2 m" by (simp_all only: prod.inject)
    have g: "get_message ?d2 x = (case first_where (\<lambda>r. ms_message r = x) (message_rows d) of
        None \<Rightarrow> Inl (ChNotFound x) | Some r \<Rightarrow> Inr (map_row_to_message (if x = m then ?f r else r)))" for x
      by (rule get_message_update) simp
    have "map_row_to_message (?f r) = ?msg" by (simp add: map_row_to_message_def)
    then have own: "get_message ?d2 m = Inr ?msg" unfolding g Some by simp
    have other: "get_message ?d2 x = get_message d x" if "x \<noteq> m" for x
      unfolding g if_not_P [OF that] unfolding get_message_def by (rule refl)
    show ?thesis
      unfolding Some d' res own using True other [of m'] deleted_is_final [OF own] by simp
  qed
qed

section \<open>New messages\<close>

definition day :: int where "day = 86400"

text \<open>
  Expiry of a new message: with a fresh id it is stored at the end of the channel's server
  and expires after the channel's own retention, or without one after the default of the
  server's policy (\<open>ServerPolicy::default\<close> when its text cannot be read); a retention that
  leaves SQLite's dates makes a message that never expires. A used id or an unknown channel is
  refused and nothing is stored.
\<close>

theorem create_message_expiry:
  assumes "channels_ok S d" and "create_message S now d p = (res, d')"
    and "policy = (\<lambda>s. case policy_from_json S (sv_policy_json s) of Some q \<Rightarrow> q | None \<Rightarrow> default_policy)"
  shows "case first_where (\<lambda>r. ch_channel r = mp_channel_id p) (channel_rows d) of
      None \<Rightarrow> res = Inl (ChNotFound (mp_channel_id p)) \<and> d' = d
    | Some ch \<Rightarrow> (\<exists>sv days. first_where (\<lambda>s. sv_id s = ch_server ch) (servers d) = Some sv
        \<and> days = (case ch_retention ch of Some n \<Rightarrow> n | None \<Rightarrow> default_retention_days (policy sv))
        \<and> (if mp_message_id p \<in> msg_ids d
            then res = Inl (ChDatabase (SqliteFailure ConstraintUnique)) \<and> d' = d
            else \<exists>msg. res = Inr msg \<and> get_message d' (mp_message_id p) = Inr msg
              \<and> mg_expires_at msg = sqlite_datetime now (int (unat days) * day)
              \<and> mg_created_at msg = now \<and> mg_content msg = mp_content p \<and> mg_sender_pseudonym msg = mp_sender_pseudonym p
              \<and> mg_server_id msg = ch_server ch \<and> mg_edited_at msg = None \<and> mg_deleted_at msg = None
              \<and> length (message_rows d') = Suc (length (message_rows d))))"
proof (cases "first_where (\<lambda>r. ch_channel r = mp_channel_id p) (channel_rows d)")
  case None
  then have "resolve_retention_days S d (mp_channel_id p) = Inl (ChNotFound (mp_channel_id p))"
    by (simp add: resolve_retention_days_def)
  then show ?thesis using assms(2) None by (simp add: create_message_def)
next
  case (Some ch)
  have ch: "ch \<in> set (channel_rows d)" "ch_channel ch = mp_channel_id p" using first_where_Some [OF Some] by simp_all
  then have exists: "mp_channel_id p \<in> chan_ids d" by (intro image_eqI [of _ _ ch]) simp_all
  have "ch_server ` set (channel_rows d) \<subseteq> server_ids d" using assms(1) by (simp add: channels_ok_def references_ok_def)
  then have sid: "ch_server ch \<in> server_ids d" by (rule subsetD) (rule imageI [OF ch(1)])
  obtain sv where sv: "first_where (\<lambda>s. sv_id s = ch_server ch) (servers d) = Some sv"
  proof (cases "first_where (\<lambda>s. sv_id s = ch_server ch) (servers d)")
    case None
    then have "\<forall>r \<in> set (servers d). sv_id r \<noteq> ch_server ch" by (simp only: first_where_None)
    then show thesis using sid key_not_image [of "servers d" sv_id] by simp
  qed (rule that)
  define days where "days = (case ch_retention ch of Some n \<Rightarrow> n | None \<Rightarrow> default_retention_days (policy sv))"
  have ret: "resolve_retention_days S d (mp_channel_id p) = Inr (ch_server ch, Some days)"
    by (cases "ch_retention ch") (simp_all add: resolve_retention_days_def Some sv days_def assms(3))
  have ex: "exists_where (\<lambda>r. ms_message r = mp_message_id p) (message_rows d) \<longleftrightarrow> mp_message_id p \<in> msg_ids d"
    by (rule exists_where_key)
  show ?thesis
  proof (cases "mp_message_id p \<in> msg_ids d")
    case True
    then have "res = Inl (ChDatabase (SqliteFailure ConstraintUnique))" "d' = d"
      using assms(2) by (simp_all add: create_message_def ret ex)
    then show ?thesis using True Some sv days_def by simp
  next
    case False
    let ?mk = "\<lambda>i. \<lparr>ms_id = i, ms_server = ch_server ch, ms_channel = mp_channel_id p,
                  ms_message = mp_message_id p, ms_sender = mp_sender_pseudonym p, ms_content = mp_content p,
                  ms_reply_to = mp_reply_to_message_id p, ms_created = now,
                  ms_expires = sqlite_datetime now (int (unat days) * day), ms_edited = None, ms_deleted = None\<rparr>"
    let ?row = "?mk (auto_next (messages d))"
    have "(res, d') = (Inr (map_row_to_message ?row), d\<lparr>messages := auto_insert ?mk (messages d)\<rparr>)"
      unfolding assms(2) [symmetric] using False exists sid by (simp add: create_message_def ret ex Let_def day_def)
    then have res: "res = Inr (map_row_to_message ?row)" and d': "d' = d\<lparr>messages := auto_insert ?mk (messages d)\<rparr>"
      by (simp_all only: prod.inject)
    have "first_where (\<lambda>r. ms_message r = mp_message_id p) (message_rows d) = None"
      using False by (rule first_where_no_key)
    then have get: "get_message d' (mp_message_id p) = Inr (map_row_to_message ?row)"
      by (simp add: get_message_def d')
    have fields: "mg_expires_at (map_row_to_message ?row) = sqlite_datetime now (int (unat days) * day)"
      "length (message_rows d') = Suc (length (message_rows d))"
      by (simp_all add: map_row_to_message_def d')
    show ?thesis
      using False Some sv days_def fields res get by (simp add: map_row_to_message_def)
  qed
qed

section \<open>Retention\<close>

abbreviation batch_rows :: "time \<Rightarrow> db \<Rightarrow> message_row list" where
  "batch_rows now d \<equiv> take RETENTION_BATCH_LIMIT
     (order_by (\<lambda>r. case ms_expires r of Some t \<Rightarrow> t | None \<Rightarrow> 0) (filter (expired now) (message_rows d)))"

lemma take_subset_order: "set (take n (order_by key (filter q rs))) \<subseteq> {r \<in> set rs. q r}"
  using set_take_subset [of n "order_by key (filter q rs)"] by simp

text \<open>Selecting by the ids of some rows selects those rows.\<close>

lemma selected_by_id:
  assumes "distinct (map key rs)" and "set xs \<subseteq> set rs" and "r \<in> set rs"
  shows "key r \<in> set (map key xs) \<longleftrightarrow> r \<in> set xs"
proof -
  have "inj_on key (set rs)" using assms(1) by (simp add: distinct_map)
  from inj_on_image_mem_iff [OF this assms(3,2)] show ?thesis by simp
qed

lemma count_selected:
  assumes "distinct (map key rs)" and "set xs \<subseteq> set rs" and "distinct xs"
  shows "count_where (\<lambda>r. key r \<in> set (map key xs)) rs = length xs"
proof -
  have "distinct rs" using assms(1) by (simp add: distinct_map)
  have "filter (\<lambda>r. key r \<in> set (map key xs)) rs = filter (\<lambda>r. r \<in> set xs) rs"
    by (rule filter_cong [OF refl]) (rule selected_by_id [OF assms(1,2)])
  then have "count_where (\<lambda>r. key r \<in> set (map key xs)) rs = card (set (filter (\<lambda>r. r \<in> set xs) rs))"
    using \<open>distinct rs\<close> by (simp only: count_where_def distinct_card distinct_filter)
  also have "set (filter (\<lambda>r. r \<in> set xs) rs) = set xs" using assms(2) by auto
  finally show ?thesis using assms(3) by (simp only: distinct_card)
qed

lemma in_batch:
  assumes "channels_ok S d" and "r \<in> set (message_rows d)"
  shows "ms_id r \<in> retention_batch now d \<longleftrightarrow> r \<in> set (batch_rows now d)"
  unfolding retention_batch_def
proof (rule selected_by_id [OF distinct_ids(3) [OF assms(1)] _ assms(2)])
  show "set (batch_rows now d) \<subseteq> set (message_rows d)"
    by (rule subset_trans [OF take_subset_order]) simp
qed

lemma batch_is_expired:
  assumes "channels_ok S d" and "r \<in> set (message_rows d)" and "ms_id r \<in> retention_batch now d"
  shows "expired now r"
  using subsetD [OF take_subset_order iffD1 [OF in_batch [OF assms(1,2)] assms(3)]] by simp

lemma batch_count:
  assumes "channels_ok S d"
  shows "count_where (\<lambda>r. ms_id r \<in> retention_batch now d) (message_rows d) =
    min 5000 (count_where (expired now) (message_rows d))"
proof -
  have "distinct (message_rows d)" using distinct_ids(3) [OF assms] by (simp add: distinct_map)
  then have "distinct (batch_rows now d)" by (simp add: order_by_def)
  moreover have "set (batch_rows now d) \<subseteq> set (message_rows d)"
    by (rule subset_trans [OF take_subset_order]) simp
  ultimately have "count_where (\<lambda>r. ms_id r \<in> retention_batch now d) (message_rows d) = length (batch_rows now d)"
    unfolding retention_batch_def using distinct_ids(3) [OF assms] by (intro count_selected)
  then show ?thesis by (simp add: RETENTION_BATCH_LIMIT_def count_where_def)
qed

text \<open>A batch that is not full holds every expired message.\<close>

lemma small_batch:
  assumes "channels_ok S d" and "count_where (expired now) (message_rows d) \<le> 5000" and "r \<in> set (message_rows d)"
  shows "ms_id r \<in> retention_batch now d \<longleftrightarrow> expired now r"
proof -
  have "batch_rows now d = order_by (\<lambda>r. case ms_expires r of Some t \<Rightarrow> t | None \<Rightarrow> 0) (filter (expired now) (message_rows d))"
    using assms(2) by (intro take_all) (simp add: RETENTION_BATCH_LIMIT_def count_where_def)
  then have "set (batch_rows now d) = {r \<in> set (message_rows d). expired now r}" by simp
  with in_batch [OF assms(1,3)] assms(3) show ?thesis by simp
qed

definition unreferenced :: "db \<Rightarrow> bool" where
  "unreferenced d \<longleftrightarrow> (\<forall>r \<in> set (message_rows d). ms_expires r \<noteq> None \<longrightarrow> ms_message r \<notin> ed_message ` set (edit_rows d))"

lemma delete_expired_done:
  assumes "channels_ok S d" and "unreferenced d"
  shows "delete_expired_messages now d = (Inr (min 5000 (count_where (expired now) (message_rows d))),
    d\<lparr>messages := auto_delete (\<lambda>r. ms_id r \<in> retention_batch now d) (messages d)\<rparr>)"
proof -
  have "\<forall>r \<in> set (message_rows d). ms_id r \<in> retention_batch now d \<longrightarrow> ms_message r \<notin> ed_message ` set (edit_rows d)"
  proof (intro ballI impI)
    fix r assume r: "r \<in> set (message_rows d)" "ms_id r \<in> retention_batch now d"
    have "expired now r" by (rule batch_is_expired [OF assms(1) r])
    then have "ms_expires r \<noteq> None" by (cases "ms_expires r") (simp_all add: expired_def)
    with r(1) assms(2) show "ms_message r \<notin> ed_message ` set (edit_rows d)" unfolding unreferenced_def by blast
  qed
  then have "delete_messages_sql (\<lambda>r. ms_id r \<in> retention_batch now d) d =
      Inr (min 5000 (count_where (expired now) (message_rows d)),
        d\<lparr>messages := auto_delete (\<lambda>r. ms_id r \<in> retention_batch now d) (messages d)\<rparr>)"
    unfolding delete_messages_sql_Inr batch_count [OF assms(1)] by simp
  then show ?thesis by (simp add: delete_expired_messages_def)
qed

lemma unreferenced_delete:
  assumes "unreferenced d" shows "unreferenced (d\<lparr>messages := auto_delete p (messages d)\<rparr>)"
  using assms by (simp add: unreferenced_def set_delete_where)

definition purged :: "(nat \<Rightarrow> time) \<Rightarrow> nat \<Rightarrow> db \<Rightarrow> db \<Rightarrow> bool" where
  "purged clock k d d' \<longleftrightarrow> set (message_rows d') \<subseteq> set (message_rows d)
     \<and> d' = d\<lparr>messages := messages d'\<rparr>
     \<and> (\<forall>r \<in> set (message_rows d). r \<in> set (message_rows d') \<or> (\<exists>i \<ge> k. expired (clock i) r))
     \<and> (\<exists>i \<ge> k. \<forall>r \<in> set (message_rows d'). \<not> expired (clock i) r)"

lemma purged_step:
  assumes "channels_ok S d" and "purged clock (Suc k) (d\<lparr>messages := auto_delete (\<lambda>r. ms_id r \<in> retention_batch (clock k) d) (messages d)\<rparr>) d'"
  shows "purged clock k d d'"
proof -
  let ?p = "\<lambda>r. ms_id r \<in> retention_batch (clock k) d"
  have sub: "set (message_rows d') \<subseteq> set (delete_where ?p (message_rows d))"
    and same: "d' = d\<lparr>messages := messages d'\<rparr>"
    and gone: "\<forall>r \<in> set (delete_where ?p (message_rows d)). r \<in> set (message_rows d') \<or> (\<exists>i \<ge> Suc k. expired (clock i) r)"
    and none: "\<exists>i \<ge> Suc k. \<forall>r \<in> set (message_rows d'). \<not> expired (clock i) r"
    using assms(2) by (simp_all add: purged_def)
  have "\<forall>r \<in> set (message_rows d). r \<in> set (message_rows d') \<or> (\<exists>i \<ge> k. expired (clock i) r)"
  proof
    fix r assume r: "r \<in> set (message_rows d)"
    show "r \<in> set (message_rows d') \<or> (\<exists>i \<ge> k. expired (clock i) r)"
    proof (cases "?p r")
      case True
      then have "expired (clock k) r" by (rule batch_is_expired [OF assms(1) r])
      then show ?thesis by (intro disjI2 exI [of _ k]) simp
    next
      case False
      then have "r \<in> set (delete_where ?p (message_rows d))" using r unfolding set_delete_where by simp
      then have "r \<in> set (message_rows d') \<or> (\<exists>i \<ge> Suc k. expired (clock i) r)" using gone by (rule bspec [rotated])
      then show ?thesis by (elim disjE exE conjE) (auto dest: Suc_leD)
    qed
  qed
  moreover have "set (message_rows d') \<subseteq> set (message_rows d)"
    by (rule subset_trans [OF sub]) (simp add: set_delete_where)
  moreover have "\<exists>i \<ge> k. \<forall>r \<in> set (message_rows d'). \<not> expired (clock i) r"
    using none by (meson Suc_leD)
  ultimately show ?thesis using same unfolding purged_def by (intro conjI)
qed

lemma purged_last:
  assumes "channels_ok S d" and "count_where (expired (clock k)) (message_rows d) \<le> 5000"
  shows "purged clock k d (d\<lparr>messages := auto_delete (\<lambda>r. ms_id r \<in> retention_batch (clock k) d) (messages d)\<rparr>)"
proof -
  let ?p = "\<lambda>r. ms_id r \<in> retention_batch (clock k) d"
  have "r \<in> set (delete_where ?p (message_rows d)) \<longleftrightarrow> \<not> expired (clock k) r" if "r \<in> set (message_rows d)" for r
    unfolding set_delete_where using that small_batch [OF assms that] by simp
  moreover have "set (delete_where ?p (message_rows d)) \<subseteq> set (message_rows d)" by (simp add: set_delete_where)
  ultimately show ?thesis unfolding purged_def by (simp, blast)
qed

lemma retention_loop_complete:
  "channels_ok S d \<Longrightarrow> unreferenced d \<Longrightarrow>
   \<exists>n d'. retention_loop clock k d t = (Inr (t + n), d') \<and> purged clock k d d'
      \<and> length (message_rows d') + n = length (message_rows d)"
proof (induction clock k d t rule: retention_loop.induct)
  case (1 clock k d t)
  let ?n = "min 5000 (count_where (expired (clock k)) (message_rows d))"
  let ?d = "d\<lparr>messages := auto_delete (\<lambda>r. ms_id r \<in> retention_batch (clock k) d) (messages d)\<rparr>"
  have del: "delete_expired_messages (clock k) d = (Inr ?n, ?d)" by (rule delete_expired_done [OF "1.prems"])
  note len = delete_expired_shrinks [OF del]
  show ?case
  proof (cases "?n < 5000")
    case True
    then have "purged clock k d ?d" using purged_last [OF "1.prems"(1)] by simp
    moreover have "retention_loop clock k d t = (Inr (t + ?n), ?d)"
      using True by (subst retention_loop.simps) (simp only: del prod.case sum.case if_True)
    ultimately show ?thesis using len by blast
  next
    case False
    have ok: "channels_ok S ?d" using ok_delete_expired [OF "1.prems"(1), of "clock k"] by (simp only: del snd_conv)
    have loop: "retention_loop clock k d t = retention_loop clock (k + 1) ?d (t + ?n)"
      using False by (subst retention_loop.simps) (simp only: del prod.case sum.case if_False)
    obtain n d' where r: "retention_loop clock (k + 1) ?d (t + ?n) = (Inr (t + ?n + n), d')"
      and p: "purged clock (k + 1) ?d d'" and l: "length (message_rows d') + n = length (message_rows ?d)"
      using "1.IH" [OF del [symmetric] refl False ok unreferenced_delete [OF "1.prems"(2)]] by blast
    have "purged clock k d d'" using purged_step [OF "1.prems"(1)] p by simp
    moreover have "length (message_rows d') + (?n + n) = length (message_rows d)" using l len by linarith
    ultimately show ?thesis
      using r unfolding loop by (intro exI [of _ "?n + n"] exI [of _ d'] conjI) (simp_all only: add.assoc)
  qed
qed

text \<open>
  C28. Retention ends and is complete: when no message with an expiry time was ever edited, a run
  of the task ends without an error after finitely many batches, reports as many messages as
  it deleted, deletes only expired ones and touches no other table; if the clock does not go
  back during the run, no message that had expired when it began is left.
\<close>

theorem retention_complete:
  assumes "channels_ok S d" and "unreferenced d" and "\<forall>i. clock 0 \<le> clock i"
  shows "\<exists>n d'. retention_run True clock d = (Inr n, d')
    \<and> length (message_rows d') + n = length (message_rows d)
    \<and> d' = d\<lparr>messages := messages d'\<rparr>
    \<and> (\<forall>r \<in> set (message_rows d'). r \<in> set (message_rows d) \<and> \<not> expired (clock 0) r)
    \<and> (\<forall>r \<in> set (message_rows d). r \<in> set (message_rows d') \<or> (\<exists>i. expired (clock i) r))"
proof -
  obtain n d' where run: "retention_run True clock d = (Inr n, d')" and p: "purged clock 0 d d'"
    and l: "length (message_rows d') + n = length (message_rows d)"
    using retention_loop_complete [OF assms(1,2), of clock 0 0] by (auto simp: retention_run_def)
  obtain i where i: "\<forall>r \<in> set (message_rows d'). \<not> expired (clock i) r" using p unfolding purged_def by blast
  have mono: "expired (clock i) r" if "expired (clock 0) r" for r
    using that assms(3) [THEN spec, of i] by (cases "ms_expires r") (simp_all add: expired_def)
  have "\<forall>r \<in> set (message_rows d'). r \<in> set (message_rows d) \<and> \<not> expired (clock 0) r"
    using i p mono unfolding purged_def by blast
  moreover have "\<forall>r \<in> set (message_rows d). r \<in> set (message_rows d') \<or> (\<exists>i. expired (clock i) r)"
    using p unfolding purged_def by blast
  moreover have "d' = d\<lparr>messages := messages d'\<rparr>" using p by (simp only: purged_def)
  ultimately show ?thesis using run l by blast
qed

text \<open>A batch with an edited message is refused as a whole.\<close>

lemma delete_expired_refused:
  assumes "x \<in> set (message_rows d)" and "ms_id x \<in> retention_batch now d" and "has_edits d (ms_message x)"
  shows "delete_expired_messages now d = (Inl (ChDatabase (SqliteFailure ConstraintForeignKey)), d)"
proof -
  have "exists_where (\<lambda>x. ms_id x \<in> retention_batch now d \<and> has_edits d (ms_message x)) (message_rows d)"
    using assms unfolding exists_where_iff by (intro bexI [of _ x] conjI)
  then show ?thesis by (simp add: delete_expired_messages_def delete_messages_sql_def del: exists_iff)
qed

lemma delete_expired_unedited:
  assumes "channels_ok S d"
    and "\<And>x. x \<in> set (message_rows d) \<Longrightarrow> ms_id x \<in> retention_batch now d \<Longrightarrow> \<not> has_edits d (ms_message x)"
  shows "delete_expired_messages now d = (Inr (min 5000 (count_where (expired now) (message_rows d))),
    d\<lparr>messages := auto_delete (\<lambda>r. ms_id r \<in> retention_batch now d) (messages d)\<rparr>)"
proof -
  have "delete_messages_sql (\<lambda>r. ms_id r \<in> retention_batch now d) d =
      Inr (min 5000 (count_where (expired now) (message_rows d)),
        d\<lparr>messages := auto_delete (\<lambda>r. ms_id r \<in> retention_batch now d) (messages d)\<rparr>)"
    using assms(2) unfolding delete_messages_sql_Inr batch_count [OF assms(1)] by simp
  then show ?thesis by (simp add: delete_expired_messages_def)
qed

definition edited_kept :: "db \<Rightarrow> db \<Rightarrow> bool" where
  "edited_kept d d' \<longleftrightarrow> d' = d\<lparr>messages := messages d'\<rparr> \<and> set (message_rows d') \<subseteq> set (message_rows d)
     \<and> (\<forall>x \<in> set (message_rows d). has_edits d (ms_message x) \<longrightarrow> x \<in> set (message_rows d'))"

lemma edited_kept_refl: "edited_kept d d"
  by (simp add: edited_kept_def)

lemma edited_kept_delete:
  assumes "\<And>x. x \<in> set (message_rows d) \<Longrightarrow> p x \<Longrightarrow> \<not> has_edits d (ms_message x)"
    and "edited_kept (d\<lparr>messages := auto_delete p (messages d)\<rparr>) d'"
  shows "edited_kept d d'"
proof -
  let ?d = "d\<lparr>messages := auto_delete p (messages d)\<rparr>"
  have e: "edit_rows ?d = edit_rows d" "message_rows ?d = delete_where p (message_rows d)" by simp_all
  have k: "d' = d\<lparr>messages := messages d'\<rparr>" "set (message_rows d') \<subseteq> set (delete_where p (message_rows d))"
    "\<And>x. x \<in> set (delete_where p (message_rows d)) \<Longrightarrow> has_edits d (ms_message x) \<Longrightarrow> x \<in> set (message_rows d')"
    using assms(2) by (simp_all add: edited_kept_def)
  have "x \<in> set (message_rows d')" if "x \<in> set (message_rows d)" "has_edits d (ms_message x)" for x
    using k(3) [of x] that assms(1) [OF that(1)] unfolding set_delete_where by blast
  moreover have "set (message_rows d') \<subseteq> set (message_rows d)" using k(2) unfolding set_delete_where by blast
  ultimately show ?thesis using k(1) unfolding edited_kept_def by (intro conjI ballI impI)
qed

lemma retention_loop_blocked:
  "channels_ok S d \<Longrightarrow> r \<in> set (message_rows d) \<Longrightarrow> has_edits d (ms_message r) \<Longrightarrow> \<forall>i. expired (clock i) r \<Longrightarrow>
   \<exists>d'. retention_loop clock k d t = (Inl (ChDatabase (SqliteFailure ConstraintForeignKey)), d') \<and> edited_kept d d'"
proof (induction clock k d t rule: retention_loop.induct)
  case (1 clock k d t)
  let ?p = "\<lambda>r. ms_id r \<in> retention_batch (clock k) d"
  show ?case
  proof (cases "\<exists>x \<in> set (message_rows d). ?p x \<and> has_edits d (ms_message x)")
    case True
    then have del: "delete_expired_messages (clock k) d = (Inl (ChDatabase (SqliteFailure ConstraintForeignKey)), d)"
      using delete_expired_refused by (elim bexE conjE)
    have "retention_loop clock k d t = (Inl (ChDatabase (SqliteFailure ConstraintForeignKey)), d)"
      by (subst retention_loop.simps) (simp only: del prod.case sum.case)
    then show ?thesis using edited_kept_refl by blast
  next
    case False
    let ?d = "d\<lparr>messages := auto_delete ?p (messages d)\<rparr>"
    have free: "\<not> has_edits d (ms_message x)" if "x \<in> set (message_rows d)" "?p x" for x
      using False that by blast
    have "\<not> ?p r" using free [OF "1.prems"(2)] "1.prems"(3) by blast
    then have many: "\<not> count_where (expired (clock k)) (message_rows d) \<le> 5000"
      using small_batch [OF "1.prems"(1) _ "1.prems"(2)] "1.prems"(4) by blast
    then have del: "delete_expired_messages (clock k) d = (Inr 5000, ?d)"
      using delete_expired_unedited [OF "1.prems"(1) free] by simp
    have ok: "channels_ok S ?d" using ok_delete_expired [OF "1.prems"(1), of "clock k"] by (simp only: del snd_conv)
    have r: "r \<in> set (message_rows ?d)" using "1.prems"(2) \<open>\<not> ?p r\<close> by (simp add: set_delete_where)
    have e: "has_edits ?d (ms_message r)" using "1.prems"(3) by simp
    have loop: "retention_loop clock k d t = retention_loop clock (k + 1) ?d (t + 5000)"
      by (subst retention_loop.simps) (simp only: del prod.case sum.case less_irrefl if_False)
    have "\<exists>d'. retention_loop clock (k + 1) ?d (t + 5000) = (Inl (ChDatabase (SqliteFailure ConstraintForeignKey)), d')
        \<and> edited_kept ?d d'"
      by (rule "1.IH" [OF del [symmetric] refl less_irrefl ok r e "1.prems"(4)])
    then show ?thesis unfolding loop by (elim exE conjE) (intro exI conjI, assumption, rule edited_kept_delete [OF free])
  qed
qed

text \<open>
  C29. An edited message blocks retention: as soon as a message that was edited has expired, every run
  of the task ends with an error and never with success, and the message stays, as does every
  other edited one. The batch that contains an edited message is refused as a whole; when no more
  than the 5000 messages of one batch have expired, this is the first batch, and the run
  deletes nothing at all.
\<close>

theorem edited_message_blocks_retention:
  assumes "channels_ok S d" and "r \<in> set (message_rows d)" and "has_edits d (ms_message r)"
    and "\<forall>i. expired (clock i) r"
  shows "\<exists>d'. retention_run pool_ok clock d = (Inl (ChDatabase (SqliteFailure
        (if pool_ok then ConstraintForeignKey else EngineFailure))), d')
    \<and> d' = d\<lparr>messages := messages d'\<rparr> \<and> set (message_rows d') \<subseteq> set (message_rows d)
    \<and> (\<forall>x \<in> set (message_rows d). has_edits d (ms_message x) \<longrightarrow> x \<in> set (message_rows d'))
    \<and> (count_where (expired (clock 0)) (message_rows d) \<le> 5000 \<longrightarrow> d' = d)"
proof (cases pool_ok)
  case True
  obtain d' where run: "retention_loop clock 0 d 0 = (Inl (ChDatabase (SqliteFailure ConstraintForeignKey)), d')"
    and kept: "edited_kept d d'"
    using retention_loop_blocked [OF assms] by blast
  have "d' = d" if "count_where (expired (clock 0)) (message_rows d) \<le> 5000"
  proof -
    have "ms_id r \<in> retention_batch (clock 0) d"
      using small_batch [OF assms(1) that assms(2)] assms(4) by blast
    note del = delete_expired_refused [OF assms(2) this assms(3)]
    have "retention_loop clock 0 d 0 = (Inl (ChDatabase (SqliteFailure ConstraintForeignKey)), d)"
      by (subst retention_loop.simps) (simp only: del prod.case sum.case)
    with run show ?thesis by (simp only: prod.inject)
  qed
  then have small: "count_where (expired (clock 0)) (message_rows d) \<le> 5000 \<longrightarrow> d' = d" by (intro impI)
  have "retention_run pool_ok clock d = (Inl (ChDatabase (SqliteFailure
        (if pool_ok then ConstraintForeignKey else EngineFailure))), d')"
    using run True by (simp add: retention_run_def)
  with kept small show ?thesis unfolding edited_kept_def by blast
qed (simp add: retention_run_def)

section \<open>Deleting a channel\<close>

lemma delete_where_none: "(\<And>r. r \<in> set rs \<Longrightarrow> \<not> p r) \<Longrightarrow> delete_where p rs = rs"
  by (simp add: delete_where_def)

text \<open>
  Deleting a channel: without engine faults the channel goes together with its messages and
  members, everything of other channels stays and the references stay intact; an unknown
  channel is reported. But if any message of the channel was ever edited the deletion is
  refused and nothing changes, since the edit history refers to the message.
\<close>

theorem delete_channel_cascade:
  assumes "channels_ok S d" and "delete_channel no_faults d c = (res, d')"
  shows "if \<exists>m \<in> set (message_rows d). ms_channel m = c \<and> has_edits d (ms_message m)
    then res = Inl (ChDatabase (SqliteFailure ConstraintForeignKey)) \<and> d' = d
    else res = (if channel_exists d c then Inr () else Inl (ChNotFound c)) \<and> channels_ok S d'
      \<and> message_rows d' = filter (\<lambda>m. ms_channel m \<noteq> c) (message_rows d)
      \<and> member_rows d' = filter (\<lambda>m. mb_channel m \<noteq> c) (member_rows d)
      \<and> channel_rows d' = filter (\<lambda>r. ch_channel r \<noteq> c) (channel_rows d)
      \<and> message_edits d' = message_edits d"
proof (cases "\<exists>m \<in> set (message_rows d). ms_channel m = c \<and> has_edits d (ms_message m)")
  case True
  then have "delete_messages_sql (\<lambda>r. ms_channel r = c) d = Inl (SqliteFailure ConstraintForeignKey)"
    by (simp add: delete_messages_sql_def exists_where_iff del: exists_iff)
  then show ?thesis using assms(2) True by (simp add: delete_channel_def del: exists_iff)
next
  case False
  have ok: "channels_ok S d'" using ok_delete_channel [OF assms(1), of no_faults c] by (simp only: assms(2) snd_conv)
  let ?d1 = "d\<lparr>messages := auto_delete (\<lambda>r. ms_channel r = c) (messages d)\<rparr>"
  let ?d2 = "?d1\<lparr>channel_members := auto_delete (\<lambda>r. mb_channel r = c) (channel_members ?d1)\<rparr>"
  have "delete_messages_sql (\<lambda>r. ms_channel r = c) d = Inr (count_where (\<lambda>r. ms_channel r = c) (message_rows d), ?d1)"
    using False by (simp add: delete_messages_sql_def exists_where_iff del: exists_iff)
  then have e: "delete_channel no_faults d c =
      (if count_where (\<lambda>r. ch_channel r = c) (channel_rows ?d2) = 0 then (Inl (ChNotFound c), ?d2)
       else (Inr (), ?d2\<lparr>channels := auto_delete (\<lambda>r. ch_channel r = c) (channels ?d2)\<rparr>))"
    by (simp add: delete_channel_def Let_def del: exists_iff)
  have zero: "count_where (\<lambda>r. ch_channel r = c) (channel_rows d) = 0 \<longleftrightarrow> \<not> channel_exists d c"
    by (simp add: count_where_0 channel_exists_def exists_where_def list_ex_iff del: exists_iff)
  show ?thesis
  proof (cases "channel_exists d c")
    case True
    then have n: "count_where (\<lambda>r. ch_channel r = c) (channel_rows d) \<noteq> 0" using zero by simp
    have "(res, d') = (Inr (), ?d2\<lparr>channels := auto_delete (\<lambda>r. ch_channel r = c) (channels ?d2)\<rparr>)"
      unfolding assms(2) [symmetric] e using n by simp
    then have r: "res = Inr ()" and d': "d' = ?d2\<lparr>channels := auto_delete (\<lambda>r. ch_channel r = c) (channels ?d2)\<rparr>"
      by (simp_all only: prod.inject)
    have "message_rows d' = filter (\<lambda>m. ms_channel m \<noteq> c) (message_rows d)"
      "member_rows d' = filter (\<lambda>m. mb_channel m \<noteq> c) (member_rows d)"
      "channel_rows d' = filter (\<lambda>r. ch_channel r \<noteq> c) (channel_rows d)" "message_edits d' = message_edits d"
      unfolding d' by (simp_all add: delete_where_def)
    then show ?thesis using False True r ok by (simp only: if_False if_True)
  next
    case no: False
    then have n: "count_where (\<lambda>r. ch_channel r = c) (channel_rows d) = 0" using zero by simp
    have "(res, d') = (Inl (ChNotFound c), ?d2)" unfolding assms(2) [symmetric] e using n by simp
    then have r: "res = Inl (ChNotFound c)" and d': "d' = ?d2" by (simp_all only: prod.inject)
    have "channel_rows d = filter (\<lambda>r. ch_channel r \<noteq> c) (channel_rows d)"
      using n unfolding count_where_0 by (simp add: filter_id_conv)
    then have "channel_rows d' = filter (\<lambda>r. ch_channel r \<noteq> c) (channel_rows d)" unfolding d' by simp
    moreover have "message_rows d' = filter (\<lambda>m. ms_channel m \<noteq> c) (message_rows d)"
      "member_rows d' = filter (\<lambda>m. mb_channel m \<noteq> c) (member_rows d)" "message_edits d' = message_edits d"
      unfolding d' by (simp_all add: delete_where_def)
    ultimately show ?thesis using False no r ok by (simp only: if_False)
  qed
qed

section \<open>A concrete server\<close>

definition demo_serde :: serde where
  "demo_serde = \<lparr>
     channel_type_to_json = (\<lambda>t. case t of Text \<Rightarrow> ''T'' | Voice \<Rightarrow> ''V'' | Hybrid \<Rightarrow> ''H'' | Agent \<Rightarrow> ''A'' | Broadcast \<Rightarrow> ''B''),
     channel_type_from_json = (\<lambda>s. map_of [(''T'', Text), (''V'', Voice), (''H'', Hybrid), (''A'', Agent), (''B'', Broadcast)] s),
     scope_to_json = (\<lambda>s. case s of Local \<Rightarrow> ''L'' | Federated \<Rightarrow> ''F''),
     scope_from_json = (\<lambda>s. map_of [(''L'', Local), (''F'', Federated)] s),
     alignment_to_json = (\<lambda>a. case a of Aligned \<Rightarrow> ''A'' | Partial \<Rightarrow> ''P'' | Conflict \<Rightarrow> ''C''),
     alignment_from_json = (\<lambda>s. map_of [(''A'', Aligned), (''P'', Partial), (''C'', Conflict)] s),
     policy_from_json = (\<lambda>s. None)\<rparr>"

lemma demo_serde_laws: "serde_laws demo_serde"
  by (simp add: serde_laws_def demo_serde_def split: ChannelType.split FederationScope.split AlignmentStatus.split)

definition demo_message :: "int \<Rightarrow> string \<Rightarrow> string \<Rightarrow> message_row" where
  "demo_message i c m = \<lparr>ms_id = i, ms_server = 1, ms_channel = c, ms_message = m, ms_sender = ''alice'',
     ms_content = ''hi'', ms_reply_to = None, ms_created = 100, ms_expires = Some 200, ms_edited = None, ms_deleted = None\<rparr>"

definition demo_channel :: "int \<Rightarrow> string \<Rightarrow> channel_row" where
  "demo_channel i c = \<lparr>ch_id = i, ch_server = 1, ch_channel = c, ch_name = c, ch_type = ''T'', ch_topic = None,
     ch_binding = None, ch_required = None, ch_min_alignment = None, ch_retention = None, ch_scope = ''L'', ch_created = 0\<rparr>"

text \<open>Two channels; the message of the second one was edited.\<close>

definition demo_chat :: db where
  "demo_chat = (migrated_db 0)\<lparr>
     servers := [\<lparr>sv_id = 1, sv_slug = ''s'', sv_label = ''S'', sv_policy_json = []\<rparr>],
     channels := \<lparr>auto_rows = [demo_channel 1 ''c'', demo_channel 2 ''e''], auto_seq = 2\<rparr>,
     messages := \<lparr>auto_rows = [demo_message 1 ''c'' ''m'', demo_message 2 ''e'' ''n''], auto_seq = 2\<rparr>,
     message_edits := \<lparr>auto_rows = [\<lparr>ed_id = 1, ed_message = ''n'', ed_old_content = ''ho'', ed_edited = 110\<rparr>], auto_seq = 1\<rparr>\<rparr>"

lemma demo_chat_rows [simp]:
  "message_rows demo_chat = [demo_message 1 ''c'' ''m'', demo_message 2 ''e'' ''n'']"
  "channel_rows demo_chat = [demo_channel 1 ''c'', demo_channel 2 ''e'']"
  "edit_rows demo_chat = [\<lparr>ed_id = 1, ed_message = ''n'', ed_old_content = ''ho'', ed_edited = 110\<rparr>]"
  "member_rows demo_chat = []"
  "servers demo_chat = [\<lparr>sv_id = 1, sv_slug = ''s'', sv_label = ''S'', sv_policy_json = []\<rparr>]"
  by (simp_all add: demo_chat_def)

lemma demo_rows_simps [simp]:
  "ms_id (demo_message i c m) = i" "ms_channel (demo_message i c m) = c" "ms_message (demo_message i c m) = m"
  "ms_server (demo_message i c m) = 1" "ms_expires (demo_message i c m) = Some 200"
  "ms_sender (demo_message i c m) = ''alice''" "ms_created (demo_message i c m) = 100" "ms_deleted (demo_message i c m) = None"
  "ch_id (demo_channel i c) = i" "ch_channel (demo_channel i c) = c" "ch_server (demo_channel i c) = 1"
  "ch_type (demo_channel i c) = ''T''" "ch_scope (demo_channel i c) = ''L''" "ch_min_alignment (demo_channel i c) = None"
  "ch_retention (demo_channel i c) = None"
  by (simp_all add: demo_message_def demo_channel_def)

lemma demo_chat_ok: "channels_ok demo_serde demo_chat"
proof -
  have "''T'' \<in> range (channel_type_to_json demo_serde)" "''L'' \<in> range (scope_to_json demo_serde)"
    by (rule image_eqI [of _ _ Text], simp_all add: demo_serde_def) (rule image_eqI [of _ _ Local], simp_all)
  then show ?thesis
    by (simp add: channels_ok_def tables_wf_def references_ok_def channels_readable_def auto_wf_def demo_chat_def)
qed

definition demo_params :: CreateChannelParams where
  "demo_params = \<lparr>cc_server_id = 1, cc_channel_id = ''c'', cc_name = ''general'', cc_channel_type = Text, cc_topic = None,
     cc_vrp_topic_binding = None, cc_required_capabilities_json = None, cc_agent_min_alignment = Some Partial,
     cc_retention_days = Some 7, cc_federation_scope = Federated\<rparr>"

definition demo_history :: "channel_op list" where
  "demo_history =
     [Identities (CreateIdentity 1 1 ''alice'' RoleCode.Human), CreateChannel 5 demo_params,
      AddMember 6 1 ''c'' ''alice'', AddMember 6 1 ''c'' ''nobody'',
      CreateMessage 7 \<lparr>mp_channel_id = ''c'', mp_message_id = ''m'', mp_sender_pseudonym = ''alice'', mp_content = ''hi'',
        mp_reply_to_message_id = None\<rparr>,
      EditMessage no_faults 20 ''m'' ''alice'' ''hello'', Identities (Deactivate 30 1 ''alice'')]"

text \<open>A channel with a member, a message and an edit; who is no identity is not made a member.\<close>

theorem channels_integrity_witness:
  "\<exists>d ch cs. d = fold (channel_step demo_serde) demo_history ((migrated_db 0)\<lparr>servers := servers demo_chat\<rparr>)
     \<and> channels_ok demo_serde d \<and> members_registered d \<and> list_channels demo_serde d 1 = Inr cs
     \<and> map mb_pseudonym (member_rows d) = [''alice''] \<and> map ms_content (message_rows d) = [''hello'']
     \<and> map ed_old_content (edit_rows d) = [''hi''] \<and> get_channel demo_serde d ''c'' = Inr ch"
proof -
  define d where "d = fold (channel_step demo_serde) demo_history ((migrated_db 0)\<lparr>servers := servers demo_chat\<rparr>)"
  note spec = channels_integrity [OF demo_serde_laws d_def]
  have rows: "map mb_pseudonym (member_rows d) = [''alice'']" "map mb_channel (member_rows d) = [''c'']"
    "map ms_content (message_rows d) = [''hello'']" "map ed_old_content (edit_rows d) = [''hi'']"
    unfolding d_def demo_history_def
    by (simp_all add: create_platform_identity_def create_channel_def demo_params_def add_member_def insert_member_sql_def
        get_channel_def map_row_to_channel_def create_message_def resolve_retention_days_def edit_message_def get_message_def
        check_editable_def map_row_to_message_def deactivate_platform_identity_def
        exists_where_def count_where_def founder_flag_def
        update_where_def EDIT_WINDOW_SECONDS_def demo_serde_def Let_def sqlite_datetime_def day_def)
  obtain mb where mb: "mb \<in> set (member_rows d)" "mb_channel mb = ''c''" using rows(2) by (cases "member_rows d") auto
  note ok = spec [THEN conjunct1] spec [THEN conjunct2, THEN conjunct1]
  obtain cs where cs: "list_channels demo_serde d 1 = Inr cs"
    by (rule exE [OF spec [THEN conjunct2, THEN conjunct2, THEN conjunct2, THEN conjunct1]])
  have "\<exists>ch. get_channel demo_serde d (mb_channel mb) = Inr ch"
    by (rule conjunct1 [OF mp [OF spec [THEN conjunct2, THEN conjunct2, THEN conjunct2, THEN conjunct2, THEN conjunct2] mb(1)]])
  then obtain ch where ch: "get_channel demo_serde d ''c'' = Inr ch" unfolding mb(2) by (elim exE)
  show ?thesis by (intro exI [of _ d] exI [of _ ch] exI [of _ cs] conjI d_def ok cs ch rows(1,3,4))
qed

theorem create_message_expiry_witness:
  "\<exists>d' msg. create_message demo_serde 1000 demo_chat \<lparr>mp_channel_id = ''c'', mp_message_id = ''x'', mp_sender_pseudonym = ''bob'',
       mp_content = ''yo'', mp_reply_to_message_id = None\<rparr> = (Inr msg, d')
     \<and> mg_expires_at msg = Some (1000 + 30 * day)"
proof -
  let ?p = "\<lparr>mp_channel_id = ''c'', mp_message_id = ''x'', mp_sender_pseudonym = ''bob'',
       mp_content = ''yo'', mp_reply_to_message_id = None\<rparr>"
  obtain res d' where c: "create_message demo_serde 1000 demo_chat ?p = (res, d')"
    by (cases "create_message demo_serde 1000 demo_chat ?p")
  have r: "default_retention_days default_policy = 30" by (simp add: default_policy_def)
  have "\<exists>msg. res = Inr msg \<and> mg_expires_at msg = sqlite_datetime 1000 (int (unat (30 :: u32)) * day)"
    using create_message_expiry [OF demo_chat_ok c refl] by (simp add: demo_serde_def r) blast
  then show ?thesis using c by (auto simp: sqlite_datetime_def day_def)
qed

theorem retention_complete_witness:
  "\<exists>n d'. retention_run True (\<lambda>i. 300 + int i) (demo_chat\<lparr>message_edits := empty_auto\<rparr>) = (Inr n, d') \<and> message_rows d' = []"
proof -
  let ?d = "demo_chat\<lparr>message_edits := empty_auto\<rparr>"
  have "channels_ok demo_serde ?d"
    using demo_chat_ok by (simp add: channels_ok_def tables_wf_def references_ok_def channels_readable_def)
  moreover have "unreferenced ?d" by (simp add: unreferenced_def)
  ultimately obtain n d' where r: "retention_run True (\<lambda>i. 300 + int i) ?d = (Inr n, d')"
    and none: "\<forall>r \<in> set (message_rows d'). r \<in> set (message_rows ?d) \<and> \<not> expired 300 r"
    using retention_complete [of demo_serde ?d "\<lambda>i. 300 + int i"] by auto
  have "message_rows d' = []"
  proof (cases "message_rows d'")
    case (Cons r rs)
    with none have "r = demo_message 1 ''c'' ''m'' \<or> r = demo_message 2 ''e'' ''n''" "\<not> expired 300 r" by simp_all
    then show ?thesis by (elim disjE) (simp_all add: expired_def)
  qed
  with r show ?thesis by blast
qed

theorem edited_message_blocks_retention_witness:
  "retention_run True (\<lambda>_. 300) demo_chat = (Inl (ChDatabase (SqliteFailure ConstraintForeignKey)), demo_chat)"
proof -
  have small: "count_where (expired 300) (message_rows demo_chat) \<le> 5000"
    and n: "demo_message 2 ''e'' ''n'' \<in> set (message_rows demo_chat)" "has_edits demo_chat (ms_message (demo_message 2 ''e'' ''n''))"
      "\<forall>i :: nat. expired 300 (demo_message 2 ''e'' ''n'')"
    by (simp_all add: expired_def count_where_def)
  obtain d' where run: "retention_run True (\<lambda>_. 300) demo_chat = (Inl (ChDatabase (SqliteFailure
        (if True then ConstraintForeignKey else EngineFailure))), d')"
    and same: "count_where (expired 300) (message_rows demo_chat) \<le> 5000 \<longrightarrow> d' = demo_chat"
    using edited_message_blocks_retention [OF demo_chat_ok n, of True] by (elim exE conjE) (rule that)
  show ?thesis using run unfolding mp [OF same small] if_True .
qed

theorem delete_channel_cascade_witness:
  "\<exists>d'. delete_channel no_faults demo_chat ''c'' = (Inr (), d') \<and> message_rows d' = [demo_message 2 ''e'' ''n'']
    \<and> delete_channel no_faults demo_chat ''e'' = (Inl (ChDatabase (SqliteFailure ConstraintForeignKey)), demo_chat)"
proof -
  obtain r1 d1 where 1: "delete_channel no_faults demo_chat ''c'' = (r1, d1)" by (cases "delete_channel no_faults demo_chat ''c''")
  obtain r2 d2 where 2: "delete_channel no_faults demo_chat ''e'' = (r2, d2)" by (cases "delete_channel no_faults demo_chat ''e''")
  have "r1 = Inr () \<and> message_rows d1 = [demo_message 2 ''e'' ''n'']"
    using delete_channel_cascade [OF demo_chat_ok 1] by simp
  moreover have "r2 = Inl (ChDatabase (SqliteFailure ConstraintForeignKey)) \<and> d2 = demo_chat"
    using delete_channel_cascade [OF demo_chat_ok 2] by simp
  ultimately show ?thesis using 1 2 by simp
qed

theorem edit_message_spec_witness:
  "\<exists>msg d'. edit_message no_faults 160 demo_chat ''m'' ''alice'' ''bye'' = (Inr msg, d') \<and> mg_content msg = ''bye''
    \<and> snd (edit_message no_faults 161 demo_chat ''m'' ''alice'' ''bye'') = demo_chat"
proof -
  obtain r1 d1 where 1: "edit_message no_faults 160 demo_chat ''m'' ''alice'' ''bye'' = (r1, d1)"
    by (cases "edit_message no_faults 160 demo_chat ''m'' ''alice'' ''bye''")
  obtain r2 d2 where 2: "edit_message no_faults 161 demo_chat ''m'' ''alice'' ''bye'' = (r2, d2)"
    by (cases "edit_message no_faults 161 demo_chat ''m'' ''alice'' ''bye''")
  have "\<exists>msg. r1 = Inr msg \<and> mg_content msg = ''bye''"
    using edit_message_spec [OF 1] by (simp add: may_change_def)
  moreover have "d2 = demo_chat" using edit_message_spec [OF 2] by (simp add: may_change_def)
  ultimately show ?thesis using 1 2 by auto
qed

theorem delete_message_spec_witness:
  "\<exists>msg d'. delete_message 160 demo_chat ''m'' ''alice'' = (Inr msg, d') \<and> mg_content msg = []
    \<and> snd (edit_message no_faults 161 d' ''m'' ''alice'' ''bye'') = d'"
proof -
  obtain r1 d1 where 1: "delete_message 160 demo_chat ''m'' ''alice'' = (r1, d1)"
    by (cases "delete_message 160 demo_chat ''m'' ''alice''")
  show ?thesis
    using delete_message_spec [OF 1, of _ no_faults 161 "''alice''" "''bye''"] 1 by (auto simp: may_change_def)
qed

end
