(* ===== verification/Annex_Observe.thy ===== *)
theory Annex_Observe
  imports Annex_Db
begin

text \<open>
  Crate \<open>annex-observe\<close> (\<open>event.rs\<close>, \<open>store.rs\<close>) and \<open>emit_and_broadcast\<close> of
  \<open>annex-server/src/lib.rs\<close>: the append-only log of public events with a sequence number per
  server. The JSON text of a payload (\<open>serde_json\<close>) is the argument \<open>to_json\<close>; the text of a
  timestamp, which a query compares with the text of the request, is the argument \<open>fmt\<close>.
\<close>

section \<open>Domains and payloads (event.rs)\<close>

datatype EventDomain = Identity | Presence | Federation | Agent | Moderation

fun as_str :: "EventDomain \<Rightarrow> string" where
  "as_str Identity = ''IDENTITY''"
| "as_str Presence = ''PRESENCE''"
| "as_str Federation = ''FEDERATION''"
| "as_str Agent = ''AGENT''"
| "as_str Moderation = ''MODERATION''"

definition domain_from_str :: "string \<Rightarrow> string + EventDomain" where
  "domain_from_str s =
     (if s = ''IDENTITY'' then Inr Identity
      else if s = ''PRESENCE'' then Inr Presence
      else if s = ''FEDERATION'' then Inr Federation
      else if s = ''AGENT'' then Inr Agent
      else if s = ''MODERATION'' then Inr Moderation
      else Inl s)"

definition parse_error_text :: "string \<Rightarrow> string" where
  "parse_error_text s = ''unknown event domain: '' @ s"

definition parse_domain :: "string \<Rightarrow> EventDomain option" where
  "parse_domain s = (case domain_from_str s of Inl _ \<Rightarrow> None | Inr d \<Rightarrow> Some d)"

interpretation domain_text: codec as_str parse_domain
proof
  fix d :: EventDomain and s
  show "parse_domain (as_str d) = Some d" by (cases d) (simp_all add: parse_domain_def domain_from_str_def)
  show "parse_domain s = Some d \<Longrightarrow> as_str d = s"
    by (auto simp: parse_domain_def domain_from_str_def split: if_splits)
qed

datatype EventPayload =
    IdentityRegistered (commitment_hex: string) (role_code: u8)
  | IdentityVerified string string
  | PseudonymDerived string string
  | NodeAdded string string
  | NodePruned string
  | NodeReactivated string
  | FederationEstablished string string
  | FederationRealigned string string string
  | FederationSevered string string
  | AgentConnected string string
  | AgentRealigned string string string
  | AgentDisconnected string string
  | ModerationAction string string "string option" string

fun event_type :: "EventPayload \<Rightarrow> string" where
  "event_type (IdentityRegistered _ _) = ''IDENTITY_REGISTERED''"
| "event_type (IdentityVerified _ _) = ''IDENTITY_VERIFIED''"
| "event_type (PseudonymDerived _ _) = ''PSEUDONYM_DERIVED''"
| "event_type (NodeAdded _ _) = ''NODE_ADDED''"
| "event_type (NodePruned _) = ''NODE_PRUNED''"
| "event_type (NodeReactivated _) = ''NODE_REACTIVATED''"
| "event_type (FederationEstablished _ _) = ''FEDERATION_ESTABLISHED''"
| "event_type (FederationRealigned _ _ _) = ''FEDERATION_REALIGNED''"
| "event_type (FederationSevered _ _) = ''FEDERATION_SEVERED''"
| "event_type (AgentConnected _ _) = ''AGENT_CONNECTED''"
| "event_type (AgentRealigned _ _ _) = ''AGENT_REALIGNED''"
| "event_type (AgentDisconnected _ _) = ''AGENT_DISCONNECTED''"
| "event_type (ModerationAction _ _ _ _) = ''MODERATION_ACTION''"

fun entity_type :: "EventPayload \<Rightarrow> string" where
  "entity_type (IdentityRegistered _ _) = ''identity''"
| "entity_type (IdentityVerified _ _) = ''identity''"
| "entity_type (PseudonymDerived _ _) = ''identity''"
| "entity_type (NodeAdded _ _) = ''node''"
| "entity_type (NodePruned _) = ''node''"
| "entity_type (NodeReactivated _) = ''node''"
| "entity_type (FederationEstablished _ _) = ''federation''"
| "entity_type (FederationRealigned _ _ _) = ''federation''"
| "entity_type (FederationSevered _ _) = ''federation''"
| "entity_type (AgentConnected _ _) = ''agent''"
| "entity_type (AgentRealigned _ _ _) = ''agent''"
| "entity_type (AgentDisconnected _ _) = ''agent''"
| "entity_type (ModerationAction _ _ _ _) = ''moderation''"

fun domain :: "EventPayload \<Rightarrow> EventDomain" where
  "domain (IdentityRegistered _ _) = Identity"
| "domain (IdentityVerified _ _) = Identity"
| "domain (PseudonymDerived _ _) = Identity"
| "domain (NodeAdded _ _) = Presence"
| "domain (NodePruned _) = Presence"
| "domain (NodeReactivated _) = Presence"
| "domain (FederationEstablished _ _) = Federation"
| "domain (FederationRealigned _ _ _) = Federation"
| "domain (FederationSevered _ _) = Federation"
| "domain (AgentConnected _ _) = Agent"
| "domain (AgentRealigned _ _ _) = Agent"
| "domain (AgentDisconnected _ _) = Agent"
| "domain (ModerationAction _ _ _ _) = Moderation"

record PublicEvent =
  pe_id :: int
  pe_server_id :: int
  pe_domain :: string
  pe_event_type :: string
  pe_entity_type :: string
  pe_entity_id :: string
  pe_seq :: int
  pe_payload_json :: string
  pe_occurred_at :: time

section \<open>The log (store.rs)\<close>

datatype ObserveError = ObsDatabase rusqlite_error | ObsSerialization

abbreviation event_rows :: "db \<Rightarrow> event_row list" where
  "event_rows d \<equiv> auto_rows (public_event_log d)"

definition server_seqs :: "db \<Rightarrow> int \<Rightarrow> int list" where
  "server_seqs d s = map ev_seq (filter (\<lambda>r. ev_server r = s) (event_rows d))"

text \<open>\<open>SELECT MAX(seq)\<close>: \<open>NULL\<close> when the server has no event.\<close>

definition max_seq :: "db \<Rightarrow> int \<Rightarrow> int option" where
  "max_seq d s = (if server_seqs d s = [] then None else Some (Max (set (server_seqs d s))))"

definition next_seq :: "db \<Rightarrow> int \<Rightarrow> int" where
  "next_seq d s = (case max_seq d s of Some m \<Rightarrow> m | None \<Rightarrow> 0) + 1"

definition public_event :: "event_row \<Rightarrow> PublicEvent" where
  "public_event r = \<lparr>pe_id = ev_id r, pe_server_id = ev_server r, pe_domain = ev_domain r,
     pe_event_type = ev_type r, pe_entity_type = ev_entity_type r, pe_entity_id = ev_entity r,
     pe_seq = ev_seq r, pe_payload_json = ev_payload r, pe_occurred_at = ev_occurred r\<rparr>"

definition emit_event ::
  "(EventPayload \<Rightarrow> string option) \<Rightarrow> faults \<Rightarrow> time \<Rightarrow> db \<Rightarrow> int \<Rightarrow> EventDomain \<Rightarrow> string \<Rightarrow> string \<Rightarrow> string
     \<Rightarrow> EventPayload \<Rightarrow> (ObserveError + PublicEvent) \<times> db" where
  "emit_event to_json flt now d s dmn ty ety eid payload =
     (case to_json payload of
        None \<Rightarrow> (Inl ObsSerialization, d)
      | Some json \<Rightarrow>
          (case guard_fault flt 0 of
             Inl e \<Rightarrow> (Inl (ObsDatabase e), d)
           | Inr _ \<Rightarrow>
               let mk = (\<lambda>i. \<lparr>ev_id = i, ev_server = s, ev_domain = as_str dmn, ev_type = ty,
                     ev_entity_type = ety, ev_entity = eid,
                     ev_seq = (case max_seq d s of Some m \<Rightarrow> m | None \<Rightarrow> 0) + 1,
                     ev_payload = json, ev_occurred = now\<rparr>)
               in (Inr (public_event (mk (auto_next (public_event_log d)))),
                   d\<lparr>public_event_log := auto_insert mk (public_event_log d)\<rparr>)))"

record EventFilter =
  ef_domain :: "EventDomain option"
  ef_event_type :: "string option"
  ef_entity_type :: "string option"
  ef_entity_id :: "string option"
  ef_since :: "string option"
  ef_limit :: "int option"

definition empty_filter :: EventFilter where
  "empty_filter = \<lparr>ef_domain = None, ef_event_type = None, ef_entity_type = None, ef_entity_id = None,
     ef_since = None, ef_limit = None\<rparr>"

text \<open>One conjunct of the \<open>WHERE\<close> clause per field that is given.\<close>

definition event_matches :: "(time \<Rightarrow> string) \<Rightarrow> int \<Rightarrow> EventFilter \<Rightarrow> event_row \<Rightarrow> bool" where
  "event_matches fmt s f r \<longleftrightarrow> ev_server r = s
     \<and> (case ef_domain f of Some x \<Rightarrow> ev_domain r = as_str x | None \<Rightarrow> True)
     \<and> (case ef_event_type f of Some x \<Rightarrow> ev_type r = x | None \<Rightarrow> True)
     \<and> (case ef_entity_type f of Some x \<Rightarrow> ev_entity_type r = x | None \<Rightarrow> True)
     \<and> (case ef_entity_id f of Some x \<Rightarrow> ev_entity r = x | None \<Rightarrow> True)
     \<and> (case ef_since f of Some x \<Rightarrow> x \<le> fmt (ev_occurred r) | None \<Rightarrow> True)"

text \<open>SQLite reads a negative \<open>LIMIT\<close> as no limit.\<close>

definition sql_limit :: "int \<Rightarrow> 'r list \<Rightarrow> 'r list" where
  "sql_limit n rs = (if n < 0 then rs else take (nat n) rs)"

definition query_events :: "(time \<Rightarrow> string) \<Rightarrow> db \<Rightarrow> int \<Rightarrow> EventFilter \<Rightarrow> PublicEvent list" where
  "query_events fmt d s f =
     (let limit = (case ef_limit f of Some n \<Rightarrow> n | None \<Rightarrow> 100)
      in map public_event (sql_limit limit (order_by ev_seq (filter (event_matches fmt s f) (event_rows d)))))"

text \<open>
  The wrapper that the handlers use; a failure is only logged. The second component is the
  event handed to the broadcast channel of the live stream.
\<close>

definition emit_and_broadcast ::
  "(EventPayload \<Rightarrow> string option) \<Rightarrow> faults \<Rightarrow> time \<Rightarrow> db \<Rightarrow> int \<Rightarrow> string \<Rightarrow> EventPayload
     \<Rightarrow> db \<times> PublicEvent option" where
  "emit_and_broadcast to_json flt now d s eid payload =
     (case emit_event to_json flt now d s (domain payload) (event_type payload) (entity_type payload) eid payload of
        (Inr event, d') \<Rightarrow> (d', Some event)
      | (Inl e, d') \<Rightarrow> (d', None))"

section \<open>Sequence numbers\<close>

text \<open>The events of every server are numbered from one, without gaps, in the order of insertion.\<close>

definition log_ok :: "db \<Rightarrow> bool" where
  "log_ok d \<longleftrightarrow> auto_wf ev_id (public_event_log d)
     \<and> (\<forall>s. server_seqs d s = map int [1..<Suc (length (server_seqs d s))])"

lemma max_seq_numbered:
  assumes "server_seqs d s = map int [1..<Suc n]"
  shows "(case max_seq d s of Some m \<Rightarrow> m | None \<Rightarrow> 0) = int n"
proof (cases n)
  case 0
  then show ?thesis using assms by (simp add: max_seq_def)
next
  case (Suc k)
  have "set (server_seqs d s) = int ` {1..n}" unfolding assms by (simp add: atLeastLessThanSuc_atLeastAtMost del: upt_Suc)
  moreover have "server_seqs d s \<noteq> []" using assms Suc by simp
  moreover have "Max (int ` {1..n}) = int n"
    using Suc by (intro Max_eqI image_eqI [of _ _ n]) auto
  ultimately show ?thesis by (simp add: max_seq_def)
qed

lemma log_ok_next: "log_ok d \<Longrightarrow> next_seq d s = int (length (server_seqs d s)) + 1"
  unfolding next_seq_def log_ok_def using max_seq_numbered by simp

text \<open>Emitting: refused with nothing written, or the next number of its server.\<close>

lemma emit_event_cases:
  obtains e where "emit_event to_json flt now d s dmn ty ety eid payload = (Inl e, d)"
    "to_json payload = None \<or> flt 0"
  | json r where "to_json payload = Some json" "\<not> flt 0"
    "emit_event to_json flt now d s dmn ty ety eid payload =
       (Inr (public_event (r (auto_seq (public_event_log d) + 1))), d\<lparr>public_event_log := auto_insert r (public_event_log d)\<rparr>)"
    "\<And>i. ev_id (r i) = i" "\<And>i. ev_server (r i) = s" "\<And>i. ev_seq (r i) = next_seq d s"
    "\<And>i. ev_payload (r i) = json" "\<And>i. ev_domain (r i) = as_str dmn" "\<And>i. ev_type (r i) = ty"
    "\<And>i. ev_entity_type (r i) = ety" "\<And>i. ev_entity (r i) = eid" "\<And>i. ev_occurred (r i) = now"
proof (cases "to_json payload")
  case None
  then show ?thesis using that(1) [of ObsSerialization] by (simp add: emit_event_def)
next
  case (Some json)
  show ?thesis
  proof (cases "flt 0")
    case True
    then show ?thesis using that(1) [of "ObsDatabase (SqliteFailure EngineFailure)"] Some
      by (simp add: emit_event_def guard_fault_def)
  next
    case False
    let ?r = "\<lambda>i. \<lparr>ev_id = i, ev_server = s, ev_domain = as_str dmn, ev_type = ty, ev_entity_type = ety,
        ev_entity = eid, ev_seq = next_seq d s, ev_payload = json, ev_occurred = now\<rparr>"
    show ?thesis
      by (rule that(2) [of json ?r])
        (use Some False in \<open>simp_all add: emit_event_def guard_fault_def Let_def next_seq_def\<close>)
  qed
qed

lemma server_seqs_insert:
  assumes "\<And>i. ev_server (r i) = s"
  shows "server_seqs (d\<lparr>public_event_log := auto_insert r (public_event_log d)\<rparr>) s' =
    server_seqs d s' @ (if s' = s then [ev_seq (r (auto_seq (public_event_log d) + 1))] else [])"
  using assms by (simp add: server_seqs_def)

lemma log_ok_emit:
  assumes "log_ok d"
  shows "log_ok (snd (emit_event to_json flt now d s dmn ty ety eid payload))"
proof (rule emit_event_cases [of to_json flt now d s dmn ty ety eid payload])
  fix e assume "emit_event to_json flt now d s dmn ty ety eid payload = (Inl e, d)"
  then show ?thesis using assms by simp
next
  fix json r
  assume e: "emit_event to_json flt now d s dmn ty ety eid payload =
      (Inr (public_event (r (auto_seq (public_event_log d) + 1))), d\<lparr>public_event_log := auto_insert r (public_event_log d)\<rparr>)"
    and r: "\<And>i. ev_id (r i) = i" "\<And>i. ev_server (r i) = s" "\<And>i. ev_seq (r i) = next_seq d s"
  let ?d = "d\<lparr>public_event_log := auto_insert r (public_event_log d)\<rparr>"
  have num: "server_seqs d t = map int [1..<Suc (length (server_seqs d t))]" for t
    using assms by (simp add: log_ok_def)
  have "server_seqs ?d t = map int [1..<Suc (length (server_seqs ?d t))]" for t
  proof (cases "t = s")
    case True
    have "server_seqs ?d t = server_seqs d s @ [int (Suc (length (server_seqs d s)))]"
      using True r(3) log_ok_next [OF assms, of s] server_seqs_insert [OF r(2), where d = d and s' = t] by simp
    also have "\<dots> = map int [1..<Suc (Suc (length (server_seqs d s)))]"
      by (subst num) simp
    finally show ?thesis using True server_seqs_insert [OF r(2), where d = d and s' = t] by simp
  next
    case False
    then show ?thesis using num [of t] server_seqs_insert [OF r(2), where d = d and s' = t] by simp
  qed
  moreover have "auto_wf ev_id (public_event_log ?d)"
    using assms r(1) by (simp add: log_ok_def auto_wf_insert)
  ultimately show ?thesis using e by (simp add: log_ok_def)
qed

text \<open>An emission, as the handlers make it.\<close>

datatype event_op = Emit faults time int string EventPayload

fun event_step :: "(EventPayload \<Rightarrow> string option) \<Rightarrow> event_op \<Rightarrow> db \<Rightarrow> db" where
  "event_step to_json (Emit flt now s eid payload) d = fst (emit_and_broadcast to_json flt now d s eid payload)"

lemma emit_and_broadcast_fst:
  "fst (emit_and_broadcast to_json flt now d s eid payload) =
     snd (emit_event to_json flt now d s (domain payload) (event_type payload) (entity_type payload) eid payload)"
  by (simp add: emit_and_broadcast_def split: prod.split sum.split)

interpretation event_log: invariant_machine "event_step to_json" log_ok for to_json
  by standard (case_tac op, simp add: emit_and_broadcast_fst log_ok_emit)

lemma log_ok_migrated: "log_ok (migrated_db t)"
  by (simp add: log_ok_def server_seqs_def)

section \<open>What the log promises\<close>

definition all_events :: EventFilter where
  "all_events = empty_filter\<lparr>ef_limit := Some (- 1)\<rparr>"

lemma matches_all: "event_matches fmt s all_events r \<longleftrightarrow> ev_server r = s"
  by (simp add: event_matches_def all_events_def empty_filter_def)

lemma order_by_sorted: "sorted (map key rs) \<Longrightarrow> order_by key rs = rs"
  by (simp add: order_by_def sort_key_id_if_sorted)

lemma all_events_rows:
  assumes "log_ok d"
  shows "query_events fmt d s all_events = map public_event (filter (\<lambda>r. ev_server r = s) (event_rows d))"
proof -
  have "map ev_seq (filter (\<lambda>r. ev_server r = s) (event_rows d)) = map int [1..<Suc (length (server_seqs d s))]"
    using assms unfolding log_ok_def server_seqs_def by blast
  moreover have "sorted (map int [a..<b])" for a b by (induction b) (auto simp: sorted_append)
  ultimately have "sorted (map ev_seq (filter (\<lambda>r. ev_server r = s) (event_rows d)))" by (simp only:)
  moreover have "filter (event_matches fmt s all_events) (event_rows d) = filter (\<lambda>r. ev_server r = s) (event_rows d)"
    by (rule filter_cong [OF refl]) (rule matches_all)
  moreover have "ef_limit all_events = Some (- 1)" by (simp add: all_events_def)
  ultimately show ?thesis by (simp add: query_events_def order_by_sorted sql_limit_def)
qed

text \<open>
  C25. The event log is append-only and gapless: after any sequence of emissions, failed ones
  included, the events of every server carry the numbers one, two, three and so on in the
  order of emission. A new emission either changes nothing, or appends to its server's stream
  exactly the event that the live stream gets, numbered next and filed under the payload's
  type, entity type and domain, and leaves the streams of all other servers alone.
\<close>

theorem event_log_gapless:
  assumes "d = fold (event_step to_json) ops (migrated_db t)"
    and "emit_and_broadcast to_json flt now d s eid payload = (d', out)"
  shows "map pe_seq (query_events fmt d s all_events) = map int [1..<Suc (length (query_events fmt d s all_events))]
    \<and> (case out of
         None \<Rightarrow> d' = d \<and> (to_json payload = None \<or> flt 0)
       | Some e \<Rightarrow> query_events fmt d' s all_events = query_events fmt d s all_events @ [e]
           \<and> pe_seq e = next_seq d s \<and> pe_domain e = as_str (domain payload)
           \<and> pe_event_type e = event_type payload \<and> pe_entity_id e = eid \<and> Some (pe_payload_json e) = to_json payload)
    \<and> (s' \<noteq> s \<longrightarrow> query_events fmt d' s' all_events = query_events fmt d s' all_events)"
proof -
  have ok: "log_ok d" unfolding assms(1) by (rule event_log.run_inv [OF log_ok_migrated])
  have "d' = fst (emit_and_broadcast to_json flt now d s eid payload)" using assms(2) by simp
  then have ok': "log_ok d'" using log_ok_emit [OF ok] by (simp add: emit_and_broadcast_fst)
  have seqs: "map pe_seq (query_events fmt d s all_events) = map int [1..<Suc (length (query_events fmt d s all_events))]"
  proof -
    have "map pe_seq (query_events fmt d s all_events) = server_seqs d s"
      by (simp add: all_events_rows [OF ok] server_seqs_def public_event_def comp_def)
    moreover have "length (query_events fmt d s all_events) = length (server_seqs d s)"
      by (simp add: all_events_rows [OF ok] server_seqs_def)
    ultimately show ?thesis using ok unfolding log_ok_def by simp
  qed
  show ?thesis
  proof (rule emit_event_cases [of to_json flt now d s "domain payload" "event_type payload" "entity_type payload" eid payload])
    fix e
    assume "emit_event to_json flt now d s (domain payload) (event_type payload) (entity_type payload) eid payload = (Inl e, d)"
      "to_json payload = None \<or> flt 0"
    then show ?thesis using seqs assms(2) by (simp add: emit_and_broadcast_def)
  next
    fix json r
    let ?e = "public_event (r (auto_seq (public_event_log d) + 1))"
    assume json: "to_json payload = Some json"
      and e: "emit_event to_json flt now d s (domain payload) (event_type payload) (entity_type payload) eid payload =
          (Inr ?e, d\<lparr>public_event_log := auto_insert r (public_event_log d)\<rparr>)"
      and r: "\<And>i. ev_id (r i) = i" "\<And>i. ev_server (r i) = s" "\<And>i. ev_seq (r i) = next_seq d s"
        "\<And>i. ev_payload (r i) = json" "\<And>i. ev_domain (r i) = as_str (domain payload)"
        "\<And>i. ev_type (r i) = event_type payload" "\<And>i. ev_entity (r i) = eid"
    have d': "d' = d\<lparr>public_event_log := auto_insert r (public_event_log d)\<rparr>" and out: "out = Some ?e"
      using assms(2) e by (simp_all add: emit_and_broadcast_def)
    have rows: "event_rows d' = event_rows d @ [r (auto_seq (public_event_log d) + 1)]" by (simp add: d')
    have q: "query_events fmt d' x all_events = query_events fmt d x all_events @ (if x = s then [?e] else [])" for x
      unfolding all_events_rows [OF ok'] all_events_rows [OF ok] rows using r(2) by simp
    show ?thesis
      unfolding out q using seqs r json by (simp add: public_event_def)
  qed
qed

lemma take_drop_less:
  assumes "sorted_wrt (<) (map key xs)" and "x \<in> set (drop n xs)" and "y \<in> set (take n xs)"
  shows "(key y :: int) < key x"
proof -
  have "sorted_wrt (<) (map key (take n xs) @ map key (drop n xs))"
    using assms(1) by (simp flip: map_append)
  then show ?thesis using assms(2,3) by (auto simp: sorted_wrt_append)
qed

text \<open>
  Queries are faithful pages: the result is in strictly increasing sequence order, contains
  only events of the server that satisfy every given condition, and an event that satisfies
  them is missing only when the limit is reached and every returned event precedes it.
\<close>

theorem query_events_page:
  assumes "log_ok d" and "es = query_events fmt d s f" and "n = (case ef_limit f of Some n \<Rightarrow> n | None \<Rightarrow> 100)"
  shows "sorted_wrt (<) (map pe_seq es)
    \<and> (\<forall>e \<in> set es. \<exists>r \<in> set (event_rows d). e = public_event r \<and> event_matches fmt s f r)
    \<and> (\<forall>r \<in> set (event_rows d). event_matches fmt s f r \<longrightarrow>
         public_event r \<in> set es
         \<or> 0 \<le> n \<and> length es = nat n \<and> (\<forall>e \<in> set es. pe_seq e < ev_seq r))"
proof -
  define xs where "xs = order_by ev_seq (filter (event_matches fmt s f) (event_rows d))"
  have set_xs: "set xs = {r \<in> set (event_rows d). event_matches fmt s f r}" by (simp add: xs_def)
  have es: "es = map public_event (sql_limit n xs)" by (simp add: assms(2,3) query_events_def xs_def)
  have seq: "pe_seq (public_event r) = ev_seq r" for r by (simp add: public_event_def)
  have "distinct (map ev_seq (filter (\<lambda>r. ev_server r = s) (event_rows d)))"
    using assms(1) unfolding log_ok_def server_seqs_def
    by (metis distinct_map distinct_upt inj_on_of_nat)
  then have "distinct (map ev_seq (filter (event_matches fmt s f) (filter (\<lambda>r. ev_server r = s) (event_rows d))))"
    by (rule distinct_map_filter)
  moreover have "filter (event_matches fmt s f) (filter (\<lambda>r. ev_server r = s) (event_rows d)) =
      filter (event_matches fmt s f) (event_rows d)"
    unfolding filter_filter by (rule filter_cong [OF refl]) (simp add: event_matches_def)
  ultimately have "distinct (map ev_seq (filter (event_matches fmt s f) (event_rows d)))" by (simp only:)
  then have "distinct (map ev_seq xs)"
    unfolding xs_def order_by_def distinct_map by simp
  then have strict: "sorted_wrt (<) (map ev_seq xs)"
    using sorted_order_by [of ev_seq "filter (event_matches fmt s f) (event_rows d)"]
    by (simp add: xs_def strict_sorted_iff)
  have pages: "sorted_wrt (<) (map ev_seq (sql_limit n xs))" "set (sql_limit n xs) \<subseteq> set xs"
    using strict by (simp_all add: sql_limit_def take_map sorted_wrt_take set_take_subset flip: take_map)
  have "public_event r \<in> set es \<or> 0 \<le> n \<and> length es = nat n \<and> (\<forall>e \<in> set es. pe_seq e < ev_seq r)"
    if "r \<in> set xs" for r
  proof (cases "r \<in> set (sql_limit n xs)")
    case True
    then show ?thesis by (simp add: es)
  next
    case False
    then have n: "0 \<le> n" "sql_limit n xs = take (nat n) xs" using that by (auto simp: sql_limit_def split: if_splits)
    then have "r \<notin> set (take (nat n) xs)" using False by simp
    moreover have "set xs = set (take (nat n) xs) \<union> set (drop (nat n) xs)" by (simp flip: set_append)
    ultimately have drop: "r \<in> set (drop (nat n) xs)" using that by blast
    then have "nat n < length xs" by (cases "nat n < length xs") simp_all
    then have "length es = nat n" by (simp add: es n)
    moreover have "\<forall>e \<in> set es. pe_seq e < ev_seq r"
      using take_drop_less [OF strict drop] by (simp add: es n seq)
    ultimately show ?thesis using n by simp
  qed
  then show ?thesis
    using pages set_xs by (auto simp: es seq comp_def)
qed

section \<open>A concrete log\<close>

definition demo_log :: db where
  "demo_log = fold (event_step (\<lambda>_. Some ''{}'')) [Emit no_faults 5 1 ''a'' (NodePruned ''a''), Emit no_faults 6 2 ''b'' (NodePruned ''b''),
     Emit no_faults 6 1 ''c'' (NodeReactivated ''c'')] (migrated_db 0)"

lemma demo_log_ok: "log_ok demo_log"
  unfolding demo_log_def by (rule event_log.run_inv [OF log_ok_migrated])

theorem event_log_gapless_witness:
  "\<exists>d' e. emit_and_broadcast (\<lambda>_. Some ''{}'') no_faults 9 demo_log 1 ''x'' (NodePruned ''x'') = (d', Some e)
     \<and> map pe_seq (query_events (\<lambda>_. []) demo_log 1 all_events) = [1, 2]"
proof -
  obtain d' out where e: "emit_and_broadcast (\<lambda>_. Some ''{}'') no_faults 9 demo_log 1 ''x'' (NodePruned ''x'') = (d', out)"
    by (cases "emit_and_broadcast (\<lambda>_. Some ''{}'') no_faults 9 demo_log 1 ''x'' (NodePruned ''x'')")
  note spec = event_log_gapless [OF demo_log_def e, where fmt = "\<lambda>_. []"]
  have "length (query_events (\<lambda>_. []) demo_log 1 all_events) = 2"
    by (simp add: all_events_rows [OF demo_log_ok]) (simp add: demo_log_def emit_and_broadcast_def emit_event_def Let_def)
  then have "map pe_seq (query_events (\<lambda>_. []) demo_log 1 all_events) = [1, 2]"
    using spec by (simp add: upt_conv_Cons)
  moreover obtain x where "out = Some x" using spec by (cases out) (simp_all add: no_faults_def)
  ultimately show ?thesis using e by (intro exI [of _ d'] exI [of _ x]) simp
qed

theorem query_events_page_witness:
  "sorted_wrt (<) (map pe_seq (query_events (\<lambda>_. []) demo_log 1 (empty_filter\<lparr>ef_limit := Some 1\<rparr>)))"
  using query_events_page [OF demo_log_ok refl refl, where fmt = "\<lambda>_. []" and s = 1
      and f = "empty_filter\<lparr>ef_limit := Some 1\<rparr>"] by (rule conjunct1)

end
