(* ===== verification/Annex_Netstring.thy ===== *)
theory Annex_Netstring
  imports Annex_Vrp
begin

text \<open>
  A concrete text format with the round-trip laws that the code expects of \<open>serde_json\<close>: a list
  of strings is written as length-prefixed items. The witnesses of the federation and
  knowledge-exchange theories instantiate their JSON parameters with it.
\<close>

section \<open>Lists of strings\<close>

definition net :: "string \<Rightarrow> string" where
  "net s = replicate (length s) (CHR ''|'') @ CHR '','' # s"

fun enc :: "string list \<Rightarrow> string" where
  "enc [] = []"
| "enc (s # ss) = net s @ enc ss"

fun split_net :: "nat \<Rightarrow> string \<Rightarrow> (string \<times> string) option" where
  "split_net n [] = None"
| "split_net n (c # cs) =
     (if c = CHR ''|'' then split_net (Suc n) cs
      else if length cs < n then None else Some (take n cs, drop n cs))"

lemma split_net_shrinks: "split_net n s = Some (a, r) \<Longrightarrow> length r < length s"
  by (induction n s rule: split_net.induct) (auto split: if_splits)

function dec :: "string \<Rightarrow> string list option" where
  "dec s = (if s = [] then Some []
     else case split_net 0 s of None \<Rightarrow> None | Some (a, r) \<Rightarrow> map_option (\<lambda>as. a # as) (dec r))"
  by pat_completeness auto
termination by (relation "measure length") (auto dest: split_net_shrinks)

declare dec.simps [simp del]

lemma split_net_bars: "split_net n (replicate k (CHR ''|'') @ s) = split_net (n + k) s"
  by (induction k arbitrary: n) simp_all

lemma split_net_net: "split_net 0 (net s @ rest) = Some (s, rest)"
  by (simp add: net_def split_net_bars)

lemma net_nonempty [simp]: "net s \<noteq> []"
  by (simp add: net_def)

lemma dec_enc [simp]: "dec (enc ss) = Some ss"
proof (induction ss)
  case Nil
  then show ?case by (simp add: dec.simps)
next
  case (Cons s ss)
  have "dec (net s @ enc ss) = map_option (\<lambda>as. s # as) (dec (enc ss))"
    by (subst dec.simps) (simp add: split_net_net)
  with Cons show ?case by simp
qed

section \<open>Numbers\<close>

definition enc_nat :: "nat \<Rightarrow> string" where
  "enc_nat n = replicate n (CHR ''1'')"

definition enc_int :: "int \<Rightarrow> string" where
  "enc_int i = (if i < 0 then CHR ''-'' else CHR ''+'') # enc_nat (nat \<bar>i\<bar>)"

definition dec_int :: "string \<Rightarrow> int" where
  "dec_int s = (if hd s = CHR ''-'' then - int (length (tl s)) else int (length (tl s)))"

lemma enc_nat_length [simp]: "length (enc_nat n) = n"
  by (simp add: enc_nat_def)

lemma dec_enc_int [simp]: "dec_int (enc_int i) = i"
  by (simp add: dec_int_def enc_int_def)

definition enc_rat :: "rat \<Rightarrow> string" where
  "enc_rat x = enc [enc_int (fst (quotient_of x)), enc_int (snd (quotient_of x))]"

definition dec_rat :: "string \<Rightarrow> rat" where
  "dec_rat s = (case dec s of Some [a, b] \<Rightarrow> Fract (dec_int a) (dec_int b) | _ \<Rightarrow> 0)"

lemma dec_enc_rat [simp]: "dec_rat (enc_rat x) = x"
proof -
  obtain a b where q: "quotient_of x = (a, b)" by (cases "quotient_of x")
  then have "x = Fract a b" using quotient_of_div [OF q] by (simp add: Fract_of_int_quotient)
  then show ?thesis by (simp add: dec_rat_def enc_rat_def q del: enc.simps)
qed

section \<open>Anchors, contracts, handshakes and reports\<close>

definition enc_report :: "VrpValidationReport \<Rightarrow> string" where
  "enc_report r = enc (status_to_string (alignment_status r) # scope_to_string (transfer_scope r)
     # enc_rat (alignment_score r) # negotiation_notes r)"

definition dec_report :: "string \<Rightarrow> VrpValidationReport option" where
  "dec_report s = (case dec s of
     Some (st # sc # x # notes) \<Rightarrow>
       (case (parse_status st, parse_scope sc) of
          (Some a, Some b) \<Rightarrow> Some \<lparr>alignment_status = a, transfer_scope = b, alignment_score = dec_rat x, negotiation_notes = notes\<rparr>
        | _ \<Rightarrow> None)
   | _ \<Rightarrow> None)"

lemma dec_enc_report [simp]: "dec_report (enc_report r) = Some r"
  by (simp add: dec_report_def enc_report_def status_text.dec_enc scope_text.dec_enc del: enc.simps)

definition enc_contract :: "VrpCapabilitySharingContract \<Rightarrow> string" where
  "enc_contract c = enc [enc (required_capabilities c), enc (offered_capabilities c), enc (redacted_topics c)]"

definition dec_contract :: "string \<Rightarrow> VrpCapabilitySharingContract option" where
  "dec_contract s = (case dec s of
     Some [a, b, c] \<Rightarrow>
       (case (dec a, dec b, dec c) of
          (Some x, Some y, Some z) \<Rightarrow> Some \<lparr>required_capabilities = x, offered_capabilities = y, redacted_topics = z\<rparr>
        | _ \<Rightarrow> None)
   | _ \<Rightarrow> None)"

lemma dec_enc_contract [simp]: "dec_contract (enc_contract c) = Some c"
  by (simp add: dec_contract_def enc_contract_def del: enc.simps)

definition enc_anchor :: "VrpAnchorSnapshot \<Rightarrow> string" where
  "enc_anchor a = enc [principles_hash a, prohibited_actions_hash a, enc_nat (unat (an_timestamp a)),
     enc (an_principles a), enc (an_prohibited_actions a)]"

definition dec_anchor :: "string \<Rightarrow> VrpAnchorSnapshot option" where
  "dec_anchor s = (case dec s of
     Some [p, q, t, ps, qs] \<Rightarrow>
       (case (dec ps, dec qs) of
          (Some x, Some y) \<Rightarrow> Some \<lparr>principles_hash = p, prohibited_actions_hash = q,
             an_timestamp = of_nat (length t), an_principles = x, an_prohibited_actions = y\<rparr>
        | _ \<Rightarrow> None)
   | _ \<Rightarrow> None)"

lemma dec_enc_anchor [simp]: "dec_anchor (enc_anchor a) = Some a"
  by (simp add: dec_anchor_def enc_anchor_def del: enc.simps)

definition enc_handshake :: "VrpFederationHandshake \<Rightarrow> string" where
  "enc_handshake h = enc [enc_anchor (anchor_snapshot h), enc_contract (capability_contract h)]"

definition dec_handshake :: "string \<Rightarrow> VrpFederationHandshake option" where
  "dec_handshake s = (case dec s of
     Some [a, c] \<Rightarrow>
       (case (dec_anchor a, dec_contract c) of
          (Some x, Some y) \<Rightarrow> Some \<lparr>anchor_snapshot = x, capability_contract = y\<rparr>
        | _ \<Rightarrow> None)
   | _ \<Rightarrow> None)"

lemma dec_enc_handshake [simp]: "dec_handshake (enc_handshake h) = Some h"
  by (simp add: dec_handshake_def enc_handshake_def del: enc.simps)

end
