(* ===== verification/Annex_Federation.thy ===== *)
theory Annex_Federation
  imports Annex_Netstring
begin

text \<open>
  Crate \<open>annex-federation\<close>: agreements with remote instances (\<open>db.rs\<close>), incoming handshakes
  (\<open>handshake.rs\<close>) and the payload types (\<open>types.rs\<close>; the two that carry bundles are in
  \<open>Annex_Rtx\<close>). The JSON texts of reports and handshakes (\<open>serde_json\<close>) are the fields of
  \<open>fed_json\<close>, of which the code relies on \<open>fed_json_laws\<close>. SQLite's \<open>julianday\<close> is
  modelled with its 64-bit floating-point rounding, and \<open>now\<close> in milliseconds where it is used.
\<close>

section \<open>Types\<close>

record fed_json =
  report_to_json :: "VrpValidationReport \<Rightarrow> string"
  report_from_json :: "string \<Rightarrow> VrpValidationReport option"
  handshake_to_json :: "VrpFederationHandshake \<Rightarrow> string"
  handshake_from_json :: "string \<Rightarrow> VrpFederationHandshake option"

definition fed_json_laws :: "fed_json \<Rightarrow> bool" where
  "fed_json_laws J \<longleftrightarrow> (\<forall>r. report_from_json J (report_to_json J r) = Some r)
     \<and> (\<forall>h. handshake_from_json J (handshake_to_json J h) = Some h)"

record FederationAgreement =
  fa_id :: int
  fa_local_server_id :: int
  fa_remote_instance_id :: int
  fa_alignment_status :: VrpAlignmentStatus
  fa_transfer_scope :: VrpTransferScope
  fa_agreement_json :: VrpValidationReport
  fa_remote_handshake_json :: "VrpFederationHandshake option"
  fa_active :: bool
  fa_created_at :: time
  fa_updated_at :: time

abbreviation agreement_rows :: "db \<Rightarrow> agreement_row list" where
  "agreement_rows d \<equiv> auto_rows (federation_agreements d)"

section \<open>Agreements (db.rs)\<close>

definition active_for :: "int \<Rightarrow> int \<Rightarrow> agreement_row \<Rightarrow> bool" where
  "active_for l r a \<longleftrightarrow> ag_server a = l \<and> ag_remote a = r \<and> ag_active a"

definition retire :: "time \<Rightarrow> agreement_row \<Rightarrow> agreement_row" where
  "retire now a = a\<lparr>ag_active := False, ag_updated := now\<rparr>"

definition instance_exists :: "db \<Rightarrow> int \<Rightarrow> bool" where
  "instance_exists d i = exists_where (\<lambda>x. in_id x = i) (instances d)"

text \<open>Both statements run in a savepoint that is rolled back unless it is released.\<close>

definition create_agreement ::
  "fed_json \<Rightarrow> faults \<Rightarrow> time \<Rightarrow> db \<Rightarrow> int \<Rightarrow> int \<Rightarrow> VrpValidationReport \<Rightarrow> VrpFederationHandshake option
     \<Rightarrow> (rusqlite_error + int) \<times> db" where
  "create_agreement J flt now d local remote report handshake =
     (let report_json = report_to_json J report;
          handshake_json = map_option (handshake_to_json J) handshake;
          status = status_to_string (alignment_status report);
          scope = scope_to_string (transfer_scope report)
      in case and_then (guard_fault flt 0) (\<lambda>_.
               and_then (guard_fault flt 1) (\<lambda>_.
                 let d1 = d\<lparr>federation_agreements := auto_update (active_for local remote) (retire now) (federation_agreements d)\<rparr>
                 in and_then (guard_fault flt 2) (\<lambda>_.
                   if \<not> instance_exists d1 remote then Inl (SqliteFailure ConstraintForeignKey)
                   else
                     let mk = (\<lambda>i. \<lparr>ag_id = i, ag_server = local, ag_remote = remote, ag_alignment = status,
                           ag_scope = scope, ag_report = report_json, ag_handshake = handshake_json,
                           ag_active = True, ag_created = now, ag_updated = now\<rparr>)
                     in and_then (guard_fault flt 3) (\<lambda>_.
                          Inr (auto_next (federation_agreements d1),
                               d1\<lparr>federation_agreements := auto_insert mk (federation_agreements d1)\<rparr>)))))
         of Inl e \<Rightarrow> (Inl e, d)
          | Inr (i, d') \<Rightarrow> (Inr i, d'))"

definition agreement_of :: "fed_json \<Rightarrow> agreement_row \<Rightarrow> rusqlite_error + FederationAgreement" where
  "agreement_of J a =
     and_then (ok_or (report_from_json J (ag_report a)) (FromSqlConversionFailure 5)) (\<lambda>report.
       and_then (case ag_handshake a of
                   Some s \<Rightarrow> and_then (ok_or (handshake_from_json J s) (FromSqlConversionFailure 6)) (\<lambda>h. Inr (Some h))
                 | None \<Rightarrow> Inr None) (\<lambda>h.
         Inr \<lparr>fa_id = ag_id a, fa_local_server_id = ag_server a, fa_remote_instance_id = ag_remote a,
              fa_alignment_status = alignment_status report, fa_transfer_scope = transfer_scope report,
              fa_agreement_json = report, fa_remote_handshake_json = h, fa_active = ag_active a,
              fa_created_at = ag_created a, fa_updated_at = ag_updated a\<rparr>))"

definition get_agreement :: "fed_json \<Rightarrow> db \<Rightarrow> int \<Rightarrow> rusqlite_error + FederationAgreement option" where
  "get_agreement J d remote =
     (case first_where (\<lambda>a. ag_remote a = remote \<and> ag_active a) (agreement_rows d) of
        None \<Rightarrow> Inr None
      | Some a \<Rightarrow> and_then (agreement_of J a) (\<lambda>x. Inr (Some x)))"

definition revoke_agreement :: "time \<Rightarrow> db \<Rightarrow> int \<Rightarrow> int \<Rightarrow> bool \<times> db" where
  "revoke_agreement now d agreement_id local =
     (let p = (\<lambda>a. ag_id a = agreement_id \<and> ag_server a = local \<and> ag_active a)
      in (0 < count_where p (agreement_rows d),
          d\<lparr>federation_agreements := auto_update p (retire now) (federation_agreements d)\<rparr>))"

definition list_active_agreements :: "db \<Rightarrow> int \<Rightarrow> (int \<times> int \<times> string \<times> string) list" where
  "list_active_agreements d local =
     map (\<lambda>a. (ag_id a, ag_remote a, ag_alignment a, ag_scope a))
       (order_by_desc ag_created (filter (\<lambda>a. ag_server a = local \<and> ag_active a) (agreement_rows d)))"

text \<open>\<open>julianday\<close> of a time in milliseconds since 1970: a 64-bit float.\<close>

definition julianday :: "int \<Rightarrow> rat" where
  "julianday ms = f64 (of_int (ms + 210866760000000) / 86400000)"

definition stale :: "int \<Rightarrow> u32 \<Rightarrow> agreement_row \<Rightarrow> bool" where
  "stale now_ms max_age_days a \<longleftrightarrow>
     f64 (julianday now_ms - julianday (ag_updated a * 1000)) > of_nat (unat max_age_days)"

definition expire_stale_agreements :: "int \<Rightarrow> db \<Rightarrow> int \<Rightarrow> u32 \<Rightarrow> nat \<times> db" where
  "expire_stale_agreements now_ms d local max_age_days =
     (let p = (\<lambda>a. ag_server a = local \<and> ag_active a \<and> stale now_ms max_age_days a)
      in (count_where p (agreement_rows d),
          d\<lparr>federation_agreements := auto_update p (retire (now_ms div 1000)) (federation_agreements d)\<rparr>))"

section \<open>Incoming handshakes (handshake.rs)\<close>

datatype HandshakeError = DbError rusqlite_error | UnknownRemoteInstance | Vrp VrpError

definition offered :: "ServerPolicy \<Rightarrow> string list" where
  "offered policy = (if voice_enabled policy then [''voice''] else [])
     @ (if federation_enabled policy then [''federation''] else [])"

definition local_contract :: "ServerPolicy \<Rightarrow> VrpCapabilitySharingContract" where
  "local_contract policy = \<lparr>required_capabilities = agent_required_capabilities policy,
     offered_capabilities = offered policy, redacted_topics = []\<rparr>"

definition alignment_config_of :: "ServerPolicy \<Rightarrow> VrpAlignmentConfig" where
  "alignment_config_of policy = \<lparr>semantic_alignment_required = True,
     min_alignment_score = agent_min_alignment_score policy\<rparr>"

definition transfer_config_of :: "ServerPolicy \<Rightarrow> VrpTransferAcceptanceConfig" where
  "transfer_config_of policy = \<lparr>allow_reflection_summaries = federation_enabled policy, allow_full_knowledge = False\<rparr>"

definition process_incoming_handshake ::
  "'f crypto \<Rightarrow> unicode \<Rightarrow> fed_json \<Rightarrow> u64 option \<Rightarrow> faults \<Rightarrow> time \<Rightarrow> db \<Rightarrow> int \<Rightarrow> ServerPolicy \<Rightarrow> int
     \<Rightarrow> VrpFederationHandshake \<Rightarrow> (HandshakeError + VrpValidationReport) \<times> db" where
  "process_incoming_handshake C U J clock flt now d local policy remote handshake =
     (case map_err Vrp (to_anchor_snapshot C clock (from_policy policy)) of
        Inl e \<Rightarrow> (Inl e, d)
      | Inr anchor \<Rightarrow>
          let report = validate_federation_handshake U anchor (local_contract policy) handshake
                (alignment_config_of policy) (transfer_config_of policy)
          in case create_agreement J flt now d local remote report (Some handshake) of
               (Inl e, d') \<Rightarrow> (Inl (DbError e), d')
             | (Inr _, d') \<Rightarrow> (Inr report, d'))"

section \<open>Integrity of agreements\<close>

definition agreement_key :: "agreement_row \<Rightarrow> int \<times> int" where
  "agreement_key a = (ag_server a, ag_remote a)"

definition agreement_readable :: "fed_json \<Rightarrow> agreement_row \<Rightarrow> bool" where
  "agreement_readable J a \<longleftrightarrow> (\<exists>r h. ag_report a = report_to_json J r
     \<and> ag_alignment a = status_to_string (alignment_status r) \<and> ag_scope a = scope_to_string (transfer_scope r)
     \<and> ag_handshake a = map_option (handshake_to_json J) h)"

text \<open>
  Ids are unique, agreements refer to known instances and can be read back, and a server has
  at most one active agreement with an instance.
\<close>

definition agreements_ok :: "fed_json \<Rightarrow> db \<Rightarrow> bool" where
  "agreements_ok J d \<longleftrightarrow> auto_wf ag_id (federation_agreements d)
     \<and> ag_remote ` set (agreement_rows d) \<subseteq> in_id ` set (instances d)
     \<and> distinct (map agreement_key (filter ag_active (agreement_rows d)))
     \<and> list_all (agreement_readable J) (agreement_rows d)"

lemma retire_simps [simp]:
  "ag_id (retire now a) = ag_id a" "ag_server (retire now a) = ag_server a" "ag_remote (retire now a) = ag_remote a"
  "ag_active (retire now a) = False" "ag_report (retire now a) = ag_report a"
  "ag_alignment (retire now a) = ag_alignment a" "ag_scope (retire now a) = ag_scope a"
  "ag_handshake (retire now a) = ag_handshake a" "ag_created (retire now a) = ag_created a"
  by (simp_all add: retire_def)

lemma readable_retire [simp]: "agreement_readable J (retire now a) = agreement_readable J a"
  by (simp add: agreement_readable_def)

lemma filter_active_retired:
  "filter ag_active (update_where p (retire now) rs) = filter (\<lambda>a. ag_active a \<and> \<not> p a) rs"
  by (induction rs) (simp_all add: update_where_def)

lemma list_all_update_where: "list_all P rs \<Longrightarrow> (\<And>r. P r \<Longrightarrow> P (f r)) \<Longrightarrow> list_all P (update_where p f rs)"
  by (induction rs) (simp_all add: update_where_def)

lemma ok_retire:
  assumes "agreements_ok J d"
  shows "agreements_ok J (d\<lparr>federation_agreements := auto_update p (retire now) (federation_agreements d)\<rparr>)"
proof -
  let ?rs = "update_where p (retire now) (agreement_rows d)"
  have "auto_wf ag_id (auto_update p (retire now) (federation_agreements d))"
    using assms by (intro auto_wf_update) (simp_all add: agreements_ok_def)
  moreover have "map ag_remote ?rs = map ag_remote (agreement_rows d)" by (rule map_update_where) simp
  then have "ag_remote ` set ?rs = ag_remote ` set (agreement_rows d)" by (metis set_map)
  moreover have "distinct (map agreement_key (filter (\<lambda>a. ag_active a \<and> \<not> p a) (agreement_rows d)))"
    using assms distinct_map_filter [of agreement_key "filter ag_active (agreement_rows d)" "\<lambda>a. \<not> p a"]
    by (simp add: agreements_ok_def conj_commute)
  moreover have "list_all (agreement_readable J) ?rs"
    using assms by (intro list_all_update_where) (simp_all add: agreements_ok_def)
  ultimately show ?thesis
    using assms by (simp add: agreements_ok_def filter_active_retired)
qed

text \<open>Creation: refused with nothing changed, or the old agreement retired and the new one stored.\<close>

lemma create_agreement_cases:
  obtains e where "create_agreement J flt now d l r rep h = (Inl e, d)"
    "\<not> instance_exists d r \<or> flt 0 \<or> flt 1 \<or> flt 2 \<or> flt 3"
  | mk where "instance_exists d r"
    "create_agreement J flt now d l r rep h = (Inr (auto_seq (federation_agreements d) + 1),
       d\<lparr>federation_agreements := auto_insert mk (auto_update (active_for l r) (retire now) (federation_agreements d))\<rparr>)"
    "\<And>i. mk i = \<lparr>ag_id = i, ag_server = l, ag_remote = r, ag_alignment = status_to_string (alignment_status rep),
        ag_scope = scope_to_string (transfer_scope rep), ag_report = report_to_json J rep,
        ag_handshake = map_option (handshake_to_json J) h, ag_active = True, ag_created = now, ag_updated = now\<rparr>"
proof (cases "instance_exists d r \<and> \<not> flt 0 \<and> \<not> flt 1 \<and> \<not> flt 2 \<and> \<not> flt 3")
  case True
  let ?mk = "\<lambda>i. \<lparr>ag_id = i, ag_server = l, ag_remote = r, ag_alignment = status_to_string (alignment_status rep),
        ag_scope = scope_to_string (transfer_scope rep), ag_report = report_to_json J rep,
        ag_handshake = map_option (handshake_to_json J) h, ag_active = True, ag_created = now, ag_updated = now\<rparr>"
  show ?thesis
    by (rule that(2) [of ?mk])
      (use True in \<open>simp_all add: create_agreement_def guard_fault_def Let_def instance_exists_def\<close>)
next
  case False
  then have "\<exists>e. create_agreement J flt now d l r rep h = (Inl e, d)"
    by (cases "flt 0"; cases "flt 1"; cases "flt 2")
      (simp_all add: create_agreement_def guard_fault_def Let_def instance_exists_def)
  then show ?thesis using that(1) False by blast
qed

lemma ok_create:
  assumes "agreements_ok J d"
  shows "agreements_ok J (snd (create_agreement J flt now d l r rep h))"
proof (rule create_agreement_cases [of J flt now d l r rep h])
  fix e assume "create_agreement J flt now d l r rep h = (Inl e, d)"
  then show ?thesis using assms by simp
next
  fix mk
  assume ex: "instance_exists d r"
    and c: "create_agreement J flt now d l r rep h = (Inr (auto_seq (federation_agreements d) + 1),
       d\<lparr>federation_agreements := auto_insert mk (auto_update (active_for l r) (retire now) (federation_agreements d))\<rparr>)"
    and mk: "\<And>i. mk i = \<lparr>ag_id = i, ag_server = l, ag_remote = r, ag_alignment = status_to_string (alignment_status rep),
        ag_scope = scope_to_string (transfer_scope rep), ag_report = report_to_json J rep,
        ag_handshake = map_option (handshake_to_json J) h, ag_active = True, ag_created = now, ag_updated = now\<rparr>"
  let ?t = "auto_update (active_for l r) (retire now) (federation_agreements d)"
  have old: "agreements_ok J (d\<lparr>federation_agreements := ?t\<rparr>)" by (rule ok_retire [OF assms])
  have "auto_wf ag_id (auto_insert mk ?t)"
    using old by (intro auto_wf_insert) (simp_all add: agreements_ok_def mk)
  moreover have "r \<in> in_id ` set (instances d)"
    using ex unfolding instance_exists_def exists_where_key .
  moreover have "(l, r) \<notin> agreement_key ` set (filter (\<lambda>a. ag_active a \<and> \<not> active_for l r a) (agreement_rows d))"
    by (intro key_not_image ballI) (simp add: agreement_key_def active_for_def, blast)
  moreover have "agreement_readable J (mk i)" for i
    unfolding agreement_readable_def mk by (intro exI [of _ rep] exI [of _ h]) simp
  ultimately show ?thesis
    using old unfolding c by (simp add: agreements_ok_def filter_active_retired mk agreement_key_def)
qed

datatype agreement_op =
    CreateAgreement faults time int int VrpValidationReport "VrpFederationHandshake option"
  | RevokeAgreement time int int
  | ExpireStale int int u32

fun agreement_step :: "fed_json \<Rightarrow> agreement_op \<Rightarrow> db \<Rightarrow> db" where
  "agreement_step J (CreateAgreement flt now l r rep h) d = snd (create_agreement J flt now d l r rep h)"
| "agreement_step J (RevokeAgreement now i l) d = snd (revoke_agreement now d i l)"
| "agreement_step J (ExpireStale now_ms l n) d = snd (expire_stale_agreements now_ms d l n)"

interpretation agreement_machine: invariant_machine "agreement_step J" "agreements_ok J" for J
proof (standard, goal_cases)
  case (1 d op)
  then show ?case
    by (cases op) (simp_all add: ok_create revoke_agreement_def expire_stale_agreements_def Let_def ok_retire)
qed

section \<open>What a handshake establishes\<close>

lemma filter_active_for_retired:
  "filter (active_for l' r') (update_where (active_for l r) (retire now) rs) =
     (if l' = l \<and> r' = r then [] else filter (active_for l' r') rs)"
proof -
  have split: "filter (active_for l' r') xs = filter (\<lambda>a. agreement_key a = (l', r')) (filter ag_active xs)" for xs
    unfolding filter_filter by (rule filter_cong [OF refl]) (auto simp: active_for_def agreement_key_def)
  show ?thesis
    unfolding split filter_active_retired
    by (auto simp: active_for_def agreement_key_def filter_empty_conv intro: filter_cong)
qed

lemma scope_of_handshake:
  assumes "rep = validate_federation_handshake U a ca h ac tc"
  shows "transfer_scope rep = resolve_transfer_scope (alignment_status rep) tc"
  by (simp add: assms validate_federation_handshake_def Let_def)

lemma scope_without_full_knowledge:
  "\<not> allow_full_knowledge tc \<Longrightarrow> resolve_transfer_scope st tc \<noteq> VrpTransferScope.FullKnowledgeBundle"
  "\<not> allow_full_knowledge tc \<Longrightarrow> \<not> allow_reflection_summaries tc \<Longrightarrow>
     resolve_transfer_scope st tc = VrpTransferScope.NoTransfer"
  by (cases st; simp)+

lemma agreement_of_new:
  assumes "fed_json_laws J" and "ag_report a = report_to_json J rep" and "ag_handshake a = Some (handshake_to_json J h)"
  shows "agreement_of J a = Inr \<lparr>fa_id = ag_id a, fa_local_server_id = ag_server a, fa_remote_instance_id = ag_remote a,
     fa_alignment_status = alignment_status rep, fa_transfer_scope = transfer_scope rep, fa_agreement_json = rep,
     fa_remote_handshake_json = Some h, fa_active = ag_active a, fa_created_at = ag_created a, fa_updated_at = ag_updated a\<rparr>"
  using assms by (simp add: agreement_of_def fed_json_laws_def)

lemma process_handshake_cases:
  assumes "process_incoming_handshake C U J clock flt now d l policy r h = (res, d')"
  obtains e where "res = Inl e" "d' = d"
  | anchor rep i where "to_anchor_snapshot C clock (from_policy policy) = Inr anchor" "res = Inr rep"
    "rep = validate_federation_handshake U anchor (local_contract policy) h (alignment_config_of policy) (transfer_config_of policy)"
    "create_agreement J flt now d l r rep (Some h) = (Inr i, d')"
proof (cases "to_anchor_snapshot C clock (from_policy policy)")
  case (Inl e)
  then show ?thesis using assms that(1) [of "Vrp e"] by (simp add: process_incoming_handshake_def)
next
  case (Inr anchor)
  let ?rep = "validate_federation_handshake U anchor (local_contract policy) h (alignment_config_of policy) (transfer_config_of policy)"
  obtain x d1 where c: "create_agreement J flt now d l r ?rep (Some h) = (x, d1)"
    by (cases "create_agreement J flt now d l r ?rep (Some h)")
  show ?thesis
  proof (cases x)
    case (Inl e)
    have "d1 = d"
      by (rule create_agreement_cases [of J flt now d l r ?rep "Some h"]) (use c Inl in simp_all)
    then show ?thesis using assms that(1) [of "DbError e"] c Inl \<open>to_anchor_snapshot C clock (from_policy policy) = Inr anchor\<close>
      by (simp add: process_incoming_handshake_def Let_def)
  next
    case i: (Inr i)
    then have "(res, d') = (Inr ?rep, d1)"
      unfolding assms [symmetric] using c Inr by (simp add: process_incoming_handshake_def Let_def)
    then show ?thesis using that(2) [OF Inr _ refl] c i by simp
  qed
qed

text \<open>
  C24. An incoming handshake either fails and changes nothing, or establishes exactly the agreement
  it reports: the server's only active agreement with the instance is the new one and reads
  back as the report and the peer's handshake, every other active agreement is as before, and
  the scope never includes full knowledge, is empty on a conflict and when the policy disables
  federation. The agreements stay well-formed.
\<close>

theorem handshake_establishes_agreement:
  assumes "fed_json_laws J" and "agreements_ok J d"
    and "process_incoming_handshake C U J clock flt now d l policy r h = (res, d')"
  shows "agreements_ok J d' \<and>
    (case res of
       Inl e \<Rightarrow> d' = d
     | Inr rep \<Rightarrow> instance_exists d r
         \<and> (\<exists>a ag. filter (active_for l r) (agreement_rows d') = [a] \<and> agreement_of J a = Inr ag
              \<and> fa_agreement_json ag = rep \<and> fa_remote_handshake_json ag = Some h \<and> fa_created_at ag = now
              \<and> (\<forall>b \<in> set (agreement_rows d). ag_id b < fa_id ag))
         \<and> ((l', r') \<noteq> (l, r) \<longrightarrow> filter (active_for l' r') (agreement_rows d') = filter (active_for l' r') (agreement_rows d))
         \<and> transfer_scope rep \<noteq> VrpTransferScope.FullKnowledgeBundle
         \<and> (alignment_status rep = VrpAlignmentStatus.Conflict \<or> \<not> federation_enabled policy \<longrightarrow>
              transfer_scope rep = VrpTransferScope.NoTransfer))"
proof (rule process_handshake_cases [OF assms(3)])
  fix e assume "res = Inl e" "d' = d"
  then show ?thesis using assms(2) by simp
next
  fix anchor rep i
  assume res: "res = Inr rep"
    and rep: "rep = validate_federation_handshake U anchor (local_contract policy) h (alignment_config_of policy) (transfer_config_of policy)"
    and c: "create_agreement J flt now d l r rep (Some h) = (Inr i, d')"
  have scope: "transfer_scope rep = resolve_transfer_scope (alignment_status rep) (transfer_config_of policy)"
    by (rule scope_of_handshake [OF rep])
  have ok: "agreements_ok J d'" using ok_create [OF assms(2), of flt now l r rep "Some h"] by (simp add: c)
  show ?thesis
  proof (rule create_agreement_cases [of J flt now d l r rep "Some h"])
    fix e assume "create_agreement J flt now d l r rep (Some h) = (Inl e, d)"
    then show ?thesis using c by simp
  next
    fix mk
    assume ex: "instance_exists d r"
      and c': "create_agreement J flt now d l r rep (Some h) = (Inr (auto_seq (federation_agreements d) + 1),
         d\<lparr>federation_agreements := auto_insert mk (auto_update (active_for l r) (retire now) (federation_agreements d))\<rparr>)"
      and mk: "\<And>i. mk i = \<lparr>ag_id = i, ag_server = l, ag_remote = r, ag_alignment = status_to_string (alignment_status rep),
          ag_scope = scope_to_string (transfer_scope rep), ag_report = report_to_json J rep,
          ag_handshake = map_option (handshake_to_json J) (Some h), ag_active = True, ag_created = now, ag_updated = now\<rparr>"
    let ?a = "mk (auto_seq (federation_agreements d) + 1)"
    have d': "d' = d\<lparr>federation_agreements := auto_insert mk (auto_update (active_for l r) (retire now) (federation_agreements d))\<rparr>"
      using trans [OF c [symmetric] c'] by (simp only: prod.inject)
    have rows: "agreement_rows d' = update_where (active_for l r) (retire now) (agreement_rows d) @ [?a]"
      by (simp add: d')
    have "filter (active_for l' r') (agreement_rows d') = (if l' = l \<and> r' = r then [?a] else filter (active_for l' r') (agreement_rows d))" for l' r'
      by (simp add: rows filter_active_for_retired) (auto simp: active_for_def mk)
    note act = this
    have "ag_report ?a = report_to_json J rep" "ag_handshake ?a = Some (handshake_to_json J h)" by (simp_all add: mk)
    then obtain ag where new: "agreement_of J ?a = Inr ag" "fa_agreement_json ag = rep" "fa_remote_handshake_json ag = Some h"
        "fa_created_at ag = ag_created ?a" "fa_id ag = ag_id ?a"
      using agreement_of_new [OF assms(1)] by simp
    have "\<forall>b \<in> set (agreement_rows d). ag_id b < ag_id ?a"
      using assms(2) auto_wf_le [of ag_id "federation_agreements d"] by (simp add: agreements_ok_def mk)
    moreover have "ag_created ?a = now" by (simp add: mk)
    ultimately have "\<exists>a ag. filter (active_for l r) (agreement_rows d') = [a] \<and> agreement_of J a = Inr ag
              \<and> fa_agreement_json ag = rep \<and> fa_remote_handshake_json ag = Some h \<and> fa_created_at ag = now
              \<and> (\<forall>b \<in> set (agreement_rows d). ag_id b < fa_id ag)"
      using act [of l r] new by (intro exI [of _ ?a] exI [of _ ag] conjI) simp_all
    moreover have "(l', r') \<noteq> (l, r) \<longrightarrow>
        filter (active_for l' r') (agreement_rows d') = filter (active_for l' r') (agreement_rows d)"
      using act [of l' r'] by simp
    moreover have "transfer_scope rep \<noteq> VrpTransferScope.FullKnowledgeBundle"
      unfolding scope by (rule scope_without_full_knowledge) (simp add: transfer_config_of_def)
    moreover have "\<not> federation_enabled policy \<Longrightarrow> transfer_scope rep = VrpTransferScope.NoTransfer"
      unfolding scope by (rule scope_without_full_knowledge) (simp_all add: transfer_config_of_def)
    moreover have "alignment_status rep = VrpAlignmentStatus.Conflict \<Longrightarrow> transfer_scope rep = VrpTransferScope.NoTransfer"
      unfolding scope by simp
    ultimately show ?thesis using ex ok unfolding res sum.case by blast
  qed
qed

text \<open>
  Revoking: it answers whether the server has an active agreement of that id, makes exactly
  that one inactive, and revoking again finds nothing; no agreement is deleted and the list of
  active agreements loses exactly that entry.
\<close>

theorem revoke_agreement_spec:
  assumes "agreements_ok J d" and "revoke_agreement now d i l = (b, d')"
  shows "agreements_ok J d' \<and> (b \<longleftrightarrow> (\<exists>a \<in> set (agreement_rows d). ag_id a = i \<and> ag_server a = l \<and> ag_active a))
    \<and> fst (revoke_agreement later d' i l) = False
    \<and> map ag_id (agreement_rows d') = map ag_id (agreement_rows d)
    \<and> filter ag_active (agreement_rows d') = filter (\<lambda>a. ag_active a \<and> \<not> (ag_id a = i \<and> ag_server a = l)) (agreement_rows d)
    \<and> set (list_active_agreements d' l) = {x \<in> set (list_active_agreements d l). fst x \<noteq> i}"
proof -
  let ?p = "\<lambda>a. ag_id a = i \<and> ag_server a = l \<and> ag_active a"
  have "(b, d') = (0 < count_where ?p (agreement_rows d),
      d\<lparr>federation_agreements := auto_update ?p (retire now) (federation_agreements d)\<rparr>)"
    unfolding assms(2) [symmetric] by (simp add: revoke_agreement_def Let_def)
  then have b: "b = (0 < count_where ?p (agreement_rows d))"
    and d': "d' = d\<lparr>federation_agreements := auto_update ?p (retire now) (federation_agreements d)\<rparr>"
    by (simp_all only: prod.inject)
  have act: "filter ag_active (agreement_rows d') =
      filter (\<lambda>a. ag_active a \<and> \<not> (ag_id a = i \<and> ag_server a = l)) (agreement_rows d)"
    unfolding d' by (simp add: filter_active_retired) (rule filter_cong [OF refl], blast)
  have mine: "filter (\<lambda>a. ag_server a = l \<and> ag_active a) rs = filter (\<lambda>a. ag_server a = l) (filter ag_active rs)" for rs
    by (simp add: conj_commute)
  have none: "\<not> (ag_id a = i \<and> ag_server a = l \<and> ag_active a)" if "a \<in> set (agreement_rows d')" for a
  proof
    assume "ag_id a = i \<and> ag_server a = l \<and> ag_active a"
    then have "a \<in> set (filter ag_active (agreement_rows d'))" "ag_id a = i" "ag_server a = l" using that by simp_all
    then show False unfolding act by simp
  qed
  have "fst (revoke_agreement later d' i l) = (0 < count_where ?p (agreement_rows d'))"
    by (simp only: revoke_agreement_def Let_def fst_conv)
  then have again: "fst (revoke_agreement later d' i l) = False" using none by (simp add: count_where_pos)
  have ids: "map ag_id (agreement_rows d') = map ag_id (agreement_rows d)"
    unfolding d' by (simp, rule map_update_where) simp
  have l: "set (list_active_agreements x l) = (\<lambda>a. (ag_id a, ag_remote a, ag_alignment a, ag_scope a)) `
      set (filter (\<lambda>a. ag_server a = l) (filter ag_active (agreement_rows x)))" for x
    unfolding list_active_agreements_def mine by simp
  have "set (list_active_agreements d' l) = {x \<in> set (list_active_agreements d l). fst x \<noteq> i}"
    unfolding l act by (simp add: set_eq_iff image_iff) blast
  moreover have "b \<longleftrightarrow> (\<exists>a \<in> set (agreement_rows d). ag_id a = i \<and> ag_server a = l \<and> ag_active a)"
    by (simp add: b count_where_pos)
  moreover have "agreements_ok J d'" unfolding d' by (rule ok_retire [OF assms(1)])
  ultimately show ?thesis using again ids act by (intro conjI)
qed

section \<open>Expiry\<close>

lemma fl_pos_error:
  assumes "0 < x"
  shows "\<bar>fl_pos p q x - x\<bar> \<le> pow2 (ulp_exp p q x)"
proof -
  let ?u = "pow2 (ulp_exp p q x)"
  have r: "\<bar>of_int (round_half_even (x / ?u)) - x / ?u\<bar> \<le> 1"
    using round_half_even_bounds [of "x / ?u"] floor_correct [of "x / ?u"] by linarith
  have "fl_pos p q x - x = (of_int (round_half_even (x / ?u)) - x / ?u) * ?u"
    by (simp add: fl_pos_def left_diff_distrib)
  then have "\<bar>fl_pos p q x - x\<bar> = \<bar>of_int (round_half_even (x / ?u)) - x / ?u\<bar> * ?u"
    by (simp add: abs_mult abs_of_pos)
  also have "\<dots> \<le> 1 * ?u" by (rule mult_right_mono [OF r]) (simp add: less_imp_le)
  finally show ?thesis by simp
qed

lemma f64_error:
  assumes "\<bar>x\<bar> < pow2 e" and "- 1021 \<le> e"
  shows "\<bar>f64 x - x\<bar> \<le> pow2 (e - 53)"
proof -
  have pos: "\<bar>fl_pos 53 (- 1074) y - y\<bar> \<le> pow2 (e - 53)" if y: "0 < y" "y < pow2 e" for y
  proof -
    have "pow2 (ilog2 y) < pow2 e" using ilog2_bounds(1) [OF y(1)] y(2) by linarith
    then have "ilog2 y < e" by (rule pow2_less_imp)
    then have "ulp_exp 53 (- 1074) y \<le> e - 53" using assms(2) by (simp add: ulp_exp_def)
    then have "pow2 (ulp_exp 53 (- 1074) y) \<le> pow2 (e - 53)" by (rule pow2_mono)
    with fl_pos_error [OF y(1), of 53 "- 1074"] show ?thesis by linarith
  qed
  consider "x = 0" | "0 < x" | "0 < - x" by linarith
  then show ?thesis
  proof cases
    case 1
    then show ?thesis by (simp add: less_imp_le)
  next
    case 2
    then show ?thesis using pos [of x] assms(1) by (simp add: f64_def fl_def)
  next
    case 3
    then have "\<bar>fl_pos 53 (- 1074) (- x) - (- x)\<bar> \<le> pow2 (e - 53)" using pos [of "- x"] assms(1) by simp
    with 3 show ?thesis by (simp add: f64_def fl_def abs_minus_commute)
  qed
qed

text \<open>A time in the range of SQLite's date functions, in milliseconds.\<close>

definition sqlite_ms :: "int \<Rightarrow> bool" where
  "sqlite_ms ms \<longleftrightarrow> - 210866760000000 \<le> ms \<and> ms \<le> 253402300799999"

lemma julianday_error:
  assumes "sqlite_ms ms"
  shows "\<bar>julianday ms - of_int (ms + 210866760000000) / 86400000\<bar> \<le> 1 / 2 ^ 30"
proof -
  have b: "0 \<le> ms + 210866760000000" "ms + 210866760000000 < 2 ^ 23 * 86400000"
    using assms by (simp_all add: sqlite_ms_def)
  have "(of_int (ms + 210866760000000) :: rat) < of_int (2 ^ 23 * 86400000)" using b(2) by (simp only: of_int_less_iff)
  then have "of_int (ms + 210866760000000) / 86400000 < pow2 23" by (simp add: pow2_def divide_less_eq)
  moreover have "(0 :: rat) \<le> of_int (ms + 210866760000000) / 86400000" using b(1) by simp
  ultimately have "\<bar>of_int (ms + 210866760000000) / 86400000\<bar> < pow2 23" by simp
  from f64_error [OF this] show ?thesis by (simp add: julianday_def pow2_def)
qed

lemma diff_error: "\<bar>a - x\<bar> \<le> (e :: rat) \<Longrightarrow> \<bar>b - y\<bar> \<le> e \<Longrightarrow> \<bar>(a - b) - (x - y)\<bar> \<le> 2 * e"
  by linarith

lemma stale_iff_older:
  assumes "sqlite_ms now_ms" and "sqlite_ms (ag_updated a * 1000)"
  shows "int (unat n) * 86400000 < now_ms - ag_updated a * 1000 \<Longrightarrow> stale now_ms n a"
    and "now_ms - ag_updated a * 1000 < int (unat n) * 86400000 \<Longrightarrow> \<not> stale now_ms n a"
proof -
  let ?u = "ag_updated a * 1000"
  let ?x = "of_int (now_ms + 210866760000000) / 86400000 :: rat" and ?y = "of_int (?u + 210866760000000) / 86400000 :: rat"
  let ?d = "julianday now_ms - julianday ?u"
  have diff: "?x - ?y = of_int (now_ms - ?u) / 86400000" by (simp add: field_simps)
  define eps :: rat where "eps = 1 / 2 ^ 30"
  have small: "0 < eps" "3 * eps < 1 / 86400000" "464269060799999 / 86400000 + 2 * eps < pow2 23"
    by (simp_all add: eps_def pow2_def)
  have e: "\<bar>?d - (?x - ?y)\<bar> \<le> 2 * eps"
    unfolding eps_def by (rule diff_error [OF julianday_error [OF assms(1)] julianday_error [OF assms(2)]])
  have range: "\<bar>now_ms - ?u\<bar> \<le> 464269060799999" using assms unfolding sqlite_ms_def by linarith
  have "\<bar>(of_int (now_ms - ?u) :: rat)\<bar> \<le> of_int 464269060799999" using range by (simp only: of_int_le_iff of_int_abs [symmetric])
  then have "\<bar>?x - ?y\<bar> \<le> 464269060799999 / 86400000" unfolding diff by (simp add: divide_le_cancel)
  then have "\<bar>?d\<bar> < pow2 23" using e small(3) by linarith
  from f64_error [OF this] have r: "\<bar>f64 ?d - ?d\<bar> \<le> eps" by (simp add: pow2_def eps_def)
  have n: "(of_nat (unat n) :: rat) = of_int (int (unat n) * 86400000) / 86400000" by simp
  show "stale now_ms n a" if "int (unat n) * 86400000 < now_ms - ?u"
  proof -
    have "int (unat n) * 86400000 + 1 \<le> now_ms - ?u" using that by simp
    then have "(of_int (int (unat n) * 86400000 + 1) :: rat) \<le> of_int (now_ms - ?u)" by (simp only: of_int_le_iff)
    then have "of_nat (unat n) + 1 / 86400000 \<le> ?x - ?y" unfolding diff n by (simp add: add_divide_distrib [symmetric] divide_right_mono)
    then show ?thesis using e r small(1,2) unfolding stale_def by linarith
  qed
  show "\<not> stale now_ms n a" if "now_ms - ?u < int (unat n) * 86400000"
  proof -
    have "now_ms - ?u + 1 \<le> int (unat n) * 86400000" using that by simp
    then have "(of_int (now_ms - ?u + 1) :: rat) \<le> of_int (int (unat n) * 86400000)" by (simp only: of_int_le_iff)
    then have "?x - ?y + 1 / 86400000 \<le> of_nat (unat n)" unfolding diff n by (simp add: add_divide_distrib [symmetric] divide_right_mono)
    then show ?thesis using e r small(1,2) unfolding stale_def by linarith
  qed
qed

text \<open>
  Expiry is exact to the millisecond although SQLite subtracts 64-bit floating-point day
  numbers: for times in SQLite's range, the server's active agreements that were last updated
  more than the given number of days ago are retired, the ones updated less than that ago and
  all others stay as they are, and the number returned is the number retired.
\<close>

theorem expire_stale_exact:
  assumes "agreements_ok J d" and "expire_stale_agreements now_ms d l n = (k, d')"
    and "sqlite_ms now_ms" and "\<forall>a \<in> set (agreement_rows d). sqlite_ms (ag_updated a * 1000)"
  shows "agreements_ok J d'
    \<and> length (filter ag_active (agreement_rows d')) + k = length (filter ag_active (agreement_rows d))
    \<and> (\<forall>a \<in> set (agreement_rows d).
         (if ag_server a = l \<and> ag_active a \<and> int (unat n) * 86400000 < now_ms - ag_updated a * 1000
          then retire (now_ms div 1000) a \<in> set (agreement_rows d')
          else ag_server a = l \<and> ag_active a \<and> now_ms - ag_updated a * 1000 = int (unat n) * 86400000
             \<or> a \<in> set (agreement_rows d')))"
proof -
  let ?p = "\<lambda>a. ag_server a = l \<and> ag_active a \<and> stale now_ms n a"
  have "(k, d') = (count_where ?p (agreement_rows d),
      d\<lparr>federation_agreements := auto_update ?p (retire (now_ms div 1000)) (federation_agreements d)\<rparr>)"
    unfolding assms(2) [symmetric] by (simp add: expire_stale_agreements_def Let_def)
  then have k: "k = count_where ?p (agreement_rows d)"
    and d': "d' = d\<lparr>federation_agreements := auto_update ?p (retire (now_ms div 1000)) (federation_agreements d)\<rparr>"
    by (simp_all only: prod.inject)
  have "filter (\<lambda>a. ag_active a \<and> \<not> ?p a) (agreement_rows d) = filter (\<lambda>a. \<not> ?p a) (filter ag_active (agreement_rows d))"
    "filter ?p (agreement_rows d) = filter ?p (filter ag_active (agreement_rows d))"
    unfolding filter_filter by (rule filter_cong [OF refl], blast)+
  then have "length (filter ag_active (agreement_rows d')) + k = length (filter ag_active (agreement_rows d))"
    using sum_length_filter_compl [of ?p "filter ag_active (agreement_rows d)"]
    unfolding k count_where_def by (simp add: d' filter_active_retired)
  moreover have "if ag_server a = l \<and> ag_active a \<and> int (unat n) * 86400000 < now_ms - ag_updated a * 1000
      then retire (now_ms div 1000) a \<in> set (agreement_rows d')
      else ag_server a = l \<and> ag_active a \<and> now_ms - ag_updated a * 1000 = int (unat n) * 86400000
        \<or> a \<in> set (agreement_rows d')" if a: "a \<in> set (agreement_rows d)" for a
  proof -
    have "sqlite_ms (ag_updated a * 1000)" using assms(4) a by (rule bspec)
    note st = stale_iff_older [OF assms(3) this, of n]
    have hit: "retire (now_ms div 1000) a \<in> set (agreement_rows d')" if "?p a"
      using a that unfolding d' by (simp add: set_update_where) (intro disjI1 exI [of _ a], simp)
    have miss: "a \<in> set (agreement_rows d')" if "\<not> ?p a"
      using a that unfolding d' by (simp add: set_update_where)
    show ?thesis
    proof (cases "ag_server a = l \<and> ag_active a")
      case True
      then show ?thesis using hit miss st
        by (cases "now_ms - ag_updated a * 1000" "int (unat n) * 86400000" rule: linorder_cases) simp_all
    next
      case other: False
      then have "a \<in> set (agreement_rows d')" by (intro miss) blast
      moreover have "\<not> (ag_server a = l \<and> ag_active a \<and> int (unat n) * 86400000 < now_ms - ag_updated a * 1000)"
        using other by blast
      ultimately show ?thesis by (simp only: if_False simp_thms)
    qed
  qed
  ultimately show ?thesis using ok_retire [OF assms(1)] unfolding d' by blast
qed

section \<open>A concrete pair of servers\<close>

definition demo_fed_json :: fed_json where
  "demo_fed_json = \<lparr>report_to_json = enc_report, report_from_json = dec_report,
     handshake_to_json = enc_handshake, handshake_from_json = dec_handshake\<rparr>"

lemma demo_fed_laws: "fed_json_laws demo_fed_json"
  by (simp add: fed_json_laws_def demo_fed_json_def)

definition demo_fed :: db where
  "demo_fed = (migrated_db 0)\<lparr>instances := [\<lparr>in_id = 7, in_base_url = ''http://b'', in_public_key = [], in_label = [], in_status = ''ACTIVE''\<rparr>]\<rparr>"

lemma demo_fed_ok: "agreements_ok J demo_fed"
  by (simp add: agreements_ok_def demo_fed_def)

definition demo_handshake :: VrpFederationHandshake where
  "demo_handshake = \<lparr>anchor_snapshot = demo_anchor [] [], capability_contract = demo_contract [] []\<rparr>"

theorem handshake_establishes_agreement_witness:
  "\<exists>rep d' a. process_incoming_handshake demo_crypto demo_unicode demo_fed_json (Some 7) no_faults 100 demo_fed 1
       default_policy 7 demo_handshake = (Inr rep, d')
     \<and> filter (active_for 1 7) (agreement_rows d') = [a] \<and> transfer_scope rep \<noteq> VrpTransferScope.FullKnowledgeBundle"
proof -
  obtain res d' where p: "process_incoming_handshake demo_crypto demo_unicode demo_fed_json (Some 7) no_faults 100 demo_fed 1
       default_policy 7 demo_handshake = (res, d')"
    by (cases "process_incoming_handshake demo_crypto demo_unicode demo_fed_json (Some 7) no_faults 100 demo_fed 1
       default_policy 7 demo_handshake")
  have "\<exists>rep. res = Inr rep"
    using p by (auto simp: process_incoming_handshake_def to_anchor_snapshot_def new_snapshot_def create_agreement_def
        Let_def instance_exists_def exists_where_def demo_fed_def)
  then obtain rep where "res = Inr rep" by (elim exE)
  with handshake_establishes_agreement [OF demo_fed_laws demo_fed_ok p, of 1 7] p show ?thesis by auto
qed

definition demo_agreement :: "int \<Rightarrow> agreement_row" where
  "demo_agreement t = \<lparr>ag_id = 1, ag_server = 1, ag_remote = 7, ag_alignment = ''CONFLICT'', ag_scope = ''NO_TRANSFER'',
     ag_report = enc_report \<lparr>alignment_status = VrpAlignmentStatus.Conflict, transfer_scope = VrpTransferScope.NoTransfer,
        alignment_score = 0, negotiation_notes = []\<rparr>,
     ag_handshake = None, ag_active = True, ag_created = t, ag_updated = t\<rparr>"

definition demo_agreed :: db where
  "demo_agreed = demo_fed\<lparr>federation_agreements := \<lparr>auto_rows = [demo_agreement 100], auto_seq = 1\<rparr>\<rparr>"

lemma demo_agreed_ok: "agreements_ok demo_fed_json demo_agreed"
proof -
  have "agreement_readable demo_fed_json (demo_agreement 100)"
    unfolding agreement_readable_def
    by (intro exI [of _ "\<lparr>alignment_status = VrpAlignmentStatus.Conflict, transfer_scope = VrpTransferScope.NoTransfer,
        alignment_score = 0, negotiation_notes = []\<rparr>"] exI [of _ None])
      (simp add: demo_agreement_def demo_fed_json_def)
  then show ?thesis
    by (simp add: agreements_ok_def demo_agreed_def demo_fed_def auto_wf_def) (simp add: demo_agreement_def)
qed

theorem revoke_agreement_spec_witness:
  "\<exists>d'. revoke_agreement 200 demo_agreed 1 1 = (True, d') \<and> set (list_active_agreements d' 1) = {}"
proof -
  obtain b d' where r: "revoke_agreement 200 demo_agreed 1 1 = (b, d')" by (cases "revoke_agreement 200 demo_agreed 1 1")
  note spec = revoke_agreement_spec [OF demo_agreed_ok r]
  have "b" using spec by (simp add: demo_agreed_def demo_agreement_def)
  moreover have "filter ag_active (agreement_rows d') = []" using spec by (simp add: demo_agreed_def demo_agreement_def)
  then have "set (list_active_agreements d' 1) = {}"
    by (auto simp: list_active_agreements_def filter_empty_conv)
  ultimately show ?thesis using r by simp
qed

theorem expire_stale_exact_witness:
  "\<exists>d'. expire_stale_agreements (100000 + 7 * 86400000 + 1) demo_agreed 1 7 = (1, d')
     \<and> retire (100 + 7 * 86400) (demo_agreement 100) \<in> set (agreement_rows d')
     \<and> fst (expire_stale_agreements (100000 + 7 * 86400000 - 1) demo_agreed 1 7) = 0"
proof -
  have rows: "agreement_rows demo_agreed = [demo_agreement 100]" by (simp add: demo_agreed_def)
  have a: "ag_server (demo_agreement 100) = 1" "ag_active (demo_agreement 100)" "ag_updated (demo_agreement 100) = 100"
    by (simp_all add: demo_agreement_def)
  have range: "\<forall>a \<in> set (agreement_rows demo_agreed). sqlite_ms (ag_updated a * 1000)" by (simp add: rows a sqlite_ms_def)
  obtain k1 d1 where 1: "expire_stale_agreements (100000 + 7 * 86400000 + 1) demo_agreed 1 7 = (k1, d1)"
    by (cases "expire_stale_agreements (100000 + 7 * 86400000 + 1) demo_agreed 1 7")
  obtain k2 d2 where 2: "expire_stale_agreements (100000 + 7 * 86400000 - 1) demo_agreed 1 7 = (k2, d2)"
    by (cases "expire_stale_agreements (100000 + 7 * 86400000 - 1) demo_agreed 1 7")
  have s1: "retire (100 + 7 * 86400) (demo_agreement 100) \<in> set (agreement_rows d1)"
    "length (filter ag_active (agreement_rows d1)) + k1 = 1"
    using expire_stale_exact [OF demo_agreed_ok 1 _ range] by (simp_all add: rows a sqlite_ms_def)
  have s2: "demo_agreement 100 \<in> set (agreement_rows d2)" "length (filter ag_active (agreement_rows d2)) + k2 = 1"
    using expire_stale_exact [OF demo_agreed_ok 2 _ range] by (simp_all add: rows a sqlite_ms_def)
  have "length (agreement_rows d1) = 1"
    using 1 by (auto simp: expire_stale_agreements_def Let_def rows)
  then have "agreement_rows d1 = [retire (100 + 7 * 86400) (demo_agreement 100)]"
    using s1(1) by (auto simp: length_Suc_conv)
  then have "k1 = 1" using s1(2) by simp
  moreover have "filter ag_active (agreement_rows d2) \<noteq> []" using s2(1) a(2) by (auto simp: filter_empty_conv)
  then have "k2 = 0" using s2(2) by (cases "filter ag_active (agreement_rows d2)") simp_all
  ultimately show ?thesis using 1 2 s1(1) by simp
qed

end
