(* ===== verification/Annex_Rtx.thy ===== *)
theory Annex_Rtx
  imports Annex_Federation
begin

text \<open>
  Crate \<open>annex-rtx\<close> (\<open>types.rs\<close>, \<open>error.rs\<close>, \<open>validation.rs\<close>): reflection bundles, transfer
  scopes, redacted topics, structural validation and the signed text of a bundle; the
  envelope types of \<open>annex-federation/src/types.rs\<close> and the signed text of a relay
  (\<open>rtx_relay_signing_payload\<close> of \<open>annex-server/src/api_rtx.rs\<close>).
\<close>

section \<open>Types\<close>

record ReflectionSummaryBundle =
  bundle_id :: string
  source_pseudonym :: string
  source_server :: string
  domain_tags :: "string list"
  summary :: string
  reasoning_chain :: "string option"
  caveats :: "string list"
  bundle_created_at :: "128 word"
  bundle_signature :: string
  vrp_handshake_ref :: string

record BundleProvenance =
  origin_server :: string
  relay_path :: "string list"
  prov_bundle_id :: string

record RtxSubscription =
  subscriber_pseudonym :: string
  domain_filters :: "string list"
  accept_federated :: bool

datatype RtxError =
    TransferDenied string
  | RedactedTopic string
  | InvalidBundle string
  | InvalidSignature string
  | SenderNotRegistered string
  | FederationNotAuthorized string
  | RtxDatabase string

fun rtx_error_text :: "RtxError \<Rightarrow> string" where
  "rtx_error_text (TransferDenied s) = ''RTX transfer denied: '' @ s"
| "rtx_error_text (RedactedTopic s) = ''RTX redacted topic: '' @ s"
| "rtx_error_text (InvalidBundle s) = ''RTX invalid bundle: '' @ s"
| "rtx_error_text (InvalidSignature s) = ''RTX signature verification failed: '' @ s"
| "rtx_error_text (SenderNotRegistered s) = ''RTX sender not registered: '' @ s"
| "rtx_error_text (FederationNotAuthorized s) = ''RTX federation not authorized: '' @ s"
| "rtx_error_text (RtxDatabase s) = ''RTX database error: '' @ s"

record FederatedRtxEnvelope =
  env_bundle :: ReflectionSummaryBundle
  env_provenance :: BundleProvenance
  env_relaying_server :: string
  env_signature :: string

section \<open>Scope, topics and structure (validation.rs)\<close>

fun enforce_transfer_scope ::
  "ReflectionSummaryBundle \<Rightarrow> VrpTransferScope \<Rightarrow> RtxError + ReflectionSummaryBundle" where
  "enforce_transfer_scope b VrpTransferScope.NoTransfer = Inl (TransferDenied ''transfer scope is NoTransfer'')"
| "enforce_transfer_scope b VrpTransferScope.ReflectionSummariesOnly = Inr (b\<lparr>reasoning_chain := None\<rparr>)"
| "enforce_transfer_scope b VrpTransferScope.FullKnowledgeBundle = Inr b"

definition check_redacted_topics :: "ReflectionSummaryBundle \<Rightarrow> string list \<Rightarrow> RtxError + unit" where
  "check_redacted_topics b redacted =
     (case List.find (\<lambda>tag. tag \<in> set redacted) (domain_tags b) of
        Some tag \<Rightarrow> Inl (RedactedTopic tag)
      | None \<Rightarrow> Inr ())"

definition validate_bundle_structure :: "ReflectionSummaryBundle \<Rightarrow> RtxError + unit" where
  "validate_bundle_structure b =
     (if bundle_id b = [] then Inl (InvalidBundle ''bundle_id is empty'')
      else if source_pseudonym b = [] then Inl (InvalidBundle ''source_pseudonym is empty'')
      else if source_server b = [] then Inl (InvalidBundle ''source_server is empty'')
      else if summary b = [] then Inl (InvalidBundle ''summary is empty'')
      else if bundle_signature b = [] then Inl (InvalidBundle ''signature is empty'')
      else if vrp_handshake_ref b = [] then Inl (InvalidBundle ''vrp_handshake_ref is empty'')
      else if bundle_created_at b = 0 then Inl (InvalidBundle ''created_at must be non-zero'')
      else Inr ())"

section \<open>Signed texts\<close>

abbreviation newline :: string where "newline \<equiv> [CHR 0x0A]"

text \<open>\<open>Display\<close> of an unsigned integer.\<close>

fun decimal :: "nat \<Rightarrow> string" where
  "decimal n = (if n < 10 then [char_of (48 + n)] else decimal (n div 10) @ [char_of (48 + n mod 10)])"

declare decimal.simps [simp del]

definition bundle_signing_payload :: "ReflectionSummaryBundle \<Rightarrow> string" where
  "bundle_signing_payload b = bundle_id b @ newline @ source_pseudonym b @ newline @ source_server b
     @ newline @ summary b @ newline @ decimal (unat (bundle_created_at b))"

text \<open>\<open>[String]::join\<close>.\<close>

fun join :: "string \<Rightarrow> string list \<Rightarrow> string" where
  "join sep [] = []"
| "join sep [s] = s"
| "join sep (s # t # ss) = s @ sep @ join sep (t # ss)"

definition rtx_relay_signing_payload :: "string \<Rightarrow> string \<Rightarrow> string \<Rightarrow> string list \<Rightarrow> string" where
  "rtx_relay_signing_payload bid relaying origin path =
     bid @ newline @ relaying @ newline @ origin @ newline @ join ''|'' path"

section \<open>Scopes\<close>

lemma enforce_scope_Inr:
  "enforce_transfer_scope b s = Inr b' \<longleftrightarrow>
     s \<noteq> VrpTransferScope.NoTransfer
     \<and> b' = (if s = VrpTransferScope.FullKnowledgeBundle then b else b\<lparr>reasoning_chain := None\<rparr>)"
  by (cases s) auto

lemma check_redacted_Inr:
  "check_redacted_topics b ts = Inr u \<longleftrightarrow> set (domain_tags b) \<inter> set ts = {}"
  by (auto simp: check_redacted_topics_def find_None_iff find_Some_iff split: option.splits)
    (meson disjoint_iff nth_mem)

lemma scope_at_least_summaries:
  "VrpTransferScope.ReflectionSummariesOnly \<le> s \<longleftrightarrow> s \<noteq> VrpTransferScope.NoTransfer"
  by (cases s) (simp_all add: less_eq_VrpTransferScope_def)

text \<open>
  Enforcing two scopes one after the other is enforcing the smaller one; the order does not
  matter, and nothing but the reasoning chain ever changes.
\<close>

lemma enforce_twice:
  "and_then (enforce_transfer_scope b s) (\<lambda>b'. enforce_transfer_scope b' t) = enforce_transfer_scope b (min s t)"
  by (cases s; cases t) (simp_all add: min_def less_eq_VrpTransferScope_def)

section \<open>Decimal numbers\<close>

lemma decimal_digits: "set (decimal n) \<subseteq> char_of ` {48..57 :: nat}"
proof (induction n rule: decimal.induct)
  case (1 n)
  show ?case
  proof (cases "n < 10")
    case True
    then have "48 + n \<in> {48..57}" by simp
    then have "char_of (48 + n) \<in> char_of ` {48..57 :: nat}" by (rule imageI)
    then show ?thesis using True by (subst decimal.simps) simp
  next
    case False
    have "n mod 10 < 10" by simp
    then have "48 + n mod 10 \<in> {48..57}" by simp
    then have "char_of (48 + n mod 10) \<in> char_of ` {48..57 :: nat}" by (rule imageI)
    then show ?thesis using 1 False by (subst decimal.simps) simp
  qed
qed

lemma decimal_no_newline: "CHR 0x0A \<notin> set (decimal n)"
proof
  assume "CHR 0x0A \<in> set (decimal n)"
  then obtain k :: nat where k: "k \<in> {48..57}" "CHR 0x0A = char_of k" using decimal_digits by blast
  have "of_char (CHR 0x0A) = (of_char (char_of k) :: nat)" by (simp only: k(2))
  then show False using k(1) by (simp add: of_char_of)
qed

lemma decimal_value: "foldl (\<lambda>a c. 10 * a + (of_char c - 48)) 0 (decimal n) = n"
proof (induction n rule: decimal.induct)
  case (1 n)
  show ?case
  proof (cases "n < 10")
    case True
    then show ?thesis by (subst decimal.simps) (simp add: of_char_of)
  next
    case False
    then show ?thesis using 1 by (subst decimal.simps) (simp add: of_char_of)
  qed
qed

lemma decimal_inj: "decimal n = decimal m \<longleftrightarrow> n = m"
  by (metis decimal_value)

section \<open>Splitting signed texts\<close>

text \<open>The first occurrence of a separator splits a text in one way only; so does the last.\<close>

lemma split_first:
  "c \<notin> set xs \<Longrightarrow> c \<notin> set ys \<Longrightarrow> xs @ c # r = ys @ c # r' \<longleftrightarrow> xs = ys \<and> r = r'"
  by (induction xs arbitrary: ys) (case_tac ys, auto)+

lemma split_last:
  assumes "c \<notin> set r" and "c \<notin> set r'"
  shows "xs @ c # r = ys @ c # r' \<longleftrightarrow> xs = ys \<and> r = r'"
proof -
  have "xs @ c # r = ys @ c # r' \<longleftrightarrow> rev r @ c # rev xs = rev r' @ c # rev ys"
    by (metis append_assoc append_Cons append_Nil rev.simps(2) rev_append rev_is_rev_conv rev_rev_ident)
  then show ?thesis using split_first [of c "rev r" "rev r'"] assms by (simp add: conj_commute)
qed

definition line :: "string \<Rightarrow> bool" where
  "line s \<longleftrightarrow> CHR 0x0A \<notin> set s"

text \<open>
  The signed text of a bundle determines the signed fields, provided the id, the pseudonym
  and the server have no newline; the summary may have any. (A newline in one of the first
  three does make two different bundles sign the same text.)
\<close>

theorem signing_payload_unambiguous:
  assumes "line (bundle_id b)" "line (source_pseudonym b)" "line (source_server b)"
    and "line (bundle_id b')" "line (source_pseudonym b')" "line (source_server b')"
  shows "bundle_signing_payload b = bundle_signing_payload b' \<longleftrightarrow>
    bundle_id b = bundle_id b' \<and> source_pseudonym b = source_pseudonym b' \<and> source_server b = source_server b'
      \<and> summary b = summary b' \<and> bundle_created_at b = bundle_created_at b'"
proof -
  have "bundle_signing_payload b = bundle_signing_payload b' \<longleftrightarrow>
      bundle_id b = bundle_id b' \<and> source_pseudonym b = source_pseudonym b' \<and> source_server b = source_server b'
      \<and> summary b @ newline @ decimal (unat (bundle_created_at b)) = summary b' @ newline @ decimal (unat (bundle_created_at b'))"
    using assms unfolding line_def bundle_signing_payload_def by (simp add: split_first)
  also have "\<dots> \<longleftrightarrow> bundle_id b = bundle_id b' \<and> source_pseudonym b = source_pseudonym b' \<and> source_server b = source_server b'
      \<and> summary b = summary b' \<and> unat (bundle_created_at b) = unat (bundle_created_at b')"
    using split_last [OF decimal_no_newline decimal_no_newline] by (simp add: decimal_inj)
  finally show ?thesis by (simp add: word_unat_eq_iff)
qed

definition demo_bundle :: "string \<Rightarrow> ReflectionSummaryBundle" where
  "demo_bundle i = \<lparr>bundle_id = i, source_pseudonym = ''p'', source_server = ''http://a'', domain_tags = [''rust''],
     summary = ''s'', reasoning_chain = Some ''why'', caveats = [], bundle_created_at = 5, bundle_signature = ''sig'',
     vrp_handshake_ref = ''1''\<rparr>"

theorem signing_payload_unambiguous_witness:
  "bundle_signing_payload (demo_bundle ''x'') \<noteq> bundle_signing_payload (demo_bundle ''y'')
   \<and> bundle_signing_payload (demo_bundle (''x'' @ newline @ ''p'')) =
     bundle_signing_payload ((demo_bundle ''x'')\<lparr>source_server := ''p'', summary := ''http://a'' @ newline @ ''s''\<rparr>)"
proof -
  have "bundle_signing_payload (demo_bundle ''x'') \<noteq> bundle_signing_payload (demo_bundle ''y'')"
    using signing_payload_unambiguous [of "demo_bundle ''x''" "demo_bundle ''y''"] by (simp add: demo_bundle_def line_def)
  then show ?thesis by (simp add: bundle_signing_payload_def demo_bundle_def)
qed

end
