(* ===== verification/Annex_Api.thy ===== *)
theory Annex_Api
  imports Annex_Platform Annex_Rtx
begin

text \<open>
  What the request handlers of \<open>annex-server\<close> share: the error type with its HTTP status
  (\<open>api.rs\<close>), the scope parser and the part of the application state that they read
  (\<open>lib.rs\<close>), and the texts that \<open>serde_json\<close> writes for lists of strings, contracts and
  provenances, of which the handlers rely on \<open>rtx_json_laws\<close>.

  A handler is a function from the database and the request to the result and the database it
  leaves; \<open>flt n\<close> makes its \<open>n\<close>-th database call fail. The text of an internal error
  quotes the engine and is left out.
\<close>

datatype ApiError =
    BadRequest string
  | Unauthorized string
  | Forbidden string
  | NotFound string
  | ApiConflict string
  | InternalServerError

fun api_status :: "ApiError \<Rightarrow> nat" where
  "api_status (BadRequest _) = 400"
| "api_status (Unauthorized _) = 401"
| "api_status (Forbidden _) = 403"
| "api_status (NotFound _) = 404"
| "api_status (ApiConflict _) = 409"
| "api_status InternalServerError = 500"

definition quote :: "string \<Rightarrow> string" where
  "quote s = [CHR 0x27] @ s @ [CHR 0x27]"

record app_context =
  server_id :: int
  public_url :: string

definition parse_transfer_scope :: "string \<Rightarrow> VrpTransferScope option" where
  "parse_transfer_scope s = (case scope_from_str s of Inr x \<Rightarrow> Some x | Inl _ \<Rightarrow> None)"

lemma parse_transfer_scope_iff: "parse_transfer_scope s = Some x \<longleftrightarrow> s = scope_to_string x"
  using scope_text.dec_iff [of s x] by (simp add: parse_transfer_scope_def parse_scope_def split: sum.splits)

lemma parse_transfer_scope_round [simp]: "parse_transfer_scope (scope_to_string x) = Some x"
  by (simp add: parse_transfer_scope_iff)

record rtx_json =
  strings_to_json :: "string list \<Rightarrow> string"
  strings_from_json :: "string \<Rightarrow> string list option"
  contract_from_json :: "string \<Rightarrow> VrpCapabilitySharingContract option"
  provenance_to_json :: "BundleProvenance \<Rightarrow> string"

definition rtx_json_laws :: "rtx_json \<Rightarrow> bool" where
  "rtx_json_laws J \<longleftrightarrow> (\<forall>xs. strings_from_json J (strings_to_json J xs) = Some xs)"

text \<open>A database call of a handler whose only failure is the engine's.\<close>

definition db_call :: "faults \<Rightarrow> nat \<Rightarrow> ApiError + unit" where
  "db_call flt n = (if flt n then Inl InternalServerError else Inr ())"

lemma db_call_none [simp]: "db_call no_faults n = Inr ()"
  by (simp add: db_call_def no_faults_def)

lemma db_call_Inr [res_simps]: "db_call flt n = Inr u \<longleftrightarrow> \<not> flt n"
  by (simp add: db_call_def)

end
