(* ===== verification/Annex_Rtx_Api.thy ===== *)
theory Annex_Rtx_Api
  imports Annex_Api
begin

text \<open>
  The handlers of \<open>annex-server/src/api_rtx.rs\<close>: publishing a bundle, its delivery to local
  subscribers and its relay to federated peers, subscriptions, and the audit queries on the
  transfer log. A delivery is the recipient with the value whose JSON text is sent. The joins
  without \<open>ORDER BY\<close> answer in the order of the table that drives them here; no property
  depends on it. Ed25519 signing is the argument \<open>sign\<close>.
\<close>

section \<open>Tables\<close>

abbreviation bundle_rows :: "db \<Rightarrow> rtx_bundle_row list" where
  "bundle_rows d \<equiv> auto_rows (rtx_bundles d)"

abbreviation subscription_rows :: "db \<Rightarrow> rtx_subscription_row list" where
  "subscription_rows d \<equiv> auto_rows (rtx_subscriptions d)"

abbreviation log_rows :: "db \<Rightarrow> rtx_log_row list" where
  "log_rows d \<equiv> auto_rows (rtx_transfer_log d)"

abbreviation agent_rows :: "db \<Rightarrow> agent_row list" where
  "agent_rows d \<equiv> auto_rows (agent_registrations d)"

definition server_known :: "db \<Rightarrow> int \<Rightarrow> bool" where
  "server_known d s = exists_where (\<lambda>r. sv_id r = s) (servers d)"

definition active_agent :: "db \<Rightarrow> int \<Rightarrow> string \<Rightarrow> agent_row option" where
  "active_agent d s p = first_where (\<lambda>a. ar_server a = s \<and> ar_pseudonym a = p \<and> ar_active a) (agent_rows d)"

section \<open>Publishing\<close>

datatype RtxPayload =
    LocalBundle ReflectionSummaryBundle
  | RelayedBundle ReflectionSummaryBundle BundleProvenance

record PublishResponse =
  pub_ok :: bool
  pub_bundle_id :: string
  delivered_to :: nat

definition extract_redacted_topics :: "rtx_json \<Rightarrow> string \<Rightarrow> string list" where
  "extract_redacted_topics J contract_json =
     (case contract_from_json J contract_json of Some c \<Rightarrow> redacted_topics c | None \<Rightarrow> [])"

definition store_bundle ::
  "rtx_json \<Rightarrow> time \<Rightarrow> int \<Rightarrow> string option \<Rightarrow> ReflectionSummaryBundle \<Rightarrow> db \<Rightarrow> rusqlite_error + db" where
  "store_bundle J now s provenance b d =
     (if exists_where (\<lambda>r. rb_bundle r = bundle_id b) (bundle_rows d) then Inl (SqliteFailure ConstraintUnique)
      else if \<not> server_known d s then Inl (SqliteFailure ConstraintForeignKey)
      else Inr (d\<lparr>rtx_bundles := auto_insert (\<lambda>i.
        \<lparr>rb_id = i, rb_server = s, rb_bundle = bundle_id b, rb_source = source_pseudonym b,
         rb_source_server = source_server b, rb_tags = strings_to_json J (domain_tags b), rb_summary = summary b,
         rb_reasoning = reasoning_chain b, rb_caveats = strings_to_json J (caveats b),
         rb_created_ms = ucast (bundle_created_at b), rb_signature = bundle_signature b,
         rb_handshake = vrp_handshake_ref b, rb_stored = now, rb_provenance = provenance\<rparr>) (rtx_bundles d)\<rparr>))"

definition log_transfer ::
  "time \<Rightarrow> int \<Rightarrow> ReflectionSummaryBundle \<Rightarrow> string option \<Rightarrow> VrpTransferScope \<Rightarrow> string option \<Rightarrow> db
     \<Rightarrow> rusqlite_error + db" where
  "log_transfer now s b destination scope redactions d =
     (if \<not> server_known d s then Inl (SqliteFailure ConstraintForeignKey)
      else Inr (d\<lparr>rtx_transfer_log := auto_insert (\<lambda>i.
        \<lparr>rl_id = i, rl_server = s, rl_bundle = bundle_id b, rl_source = source_pseudonym b,
         rl_destination = destination, rl_scope = scope_to_string scope, rl_redactions = redactions,
         rl_transferred = now\<rparr>) (rtx_transfer_log d)\<rparr>))"

definition redactions_of :: "ReflectionSummaryBundle \<Rightarrow> ReflectionSummaryBundle \<Rightarrow> string option" where
  "redactions_of original scoped =
     (if reasoning_chain scoped = None \<and> reasoning_chain original \<noteq> None
      then Some ''reasoning_chain_stripped'' else None)"

text \<open>
  Whether a subscriber gets a bundle, and under which scope: its filters must be readable and
  empty or share a tag with the bundle, and its own scope must allow a transfer.
\<close>

definition receiver_scope ::
  "rtx_json \<Rightarrow> ReflectionSummaryBundle \<Rightarrow> string \<Rightarrow> string \<Rightarrow> VrpTransferScope option" where
  "receiver_scope J b filters_json scope_str =
     (case strings_from_json J filters_json of
        None \<Rightarrow> None
      | Some filters \<Rightarrow>
          if \<not> (filters = [] \<or> list_ex (\<lambda>tag. tag \<in> set filters) (domain_tags b)) then None
          else (case parse_transfer_scope scope_str of
                  Some s \<Rightarrow> if VrpTransferScope.ReflectionSummariesOnly \<le> s then Some s else None
                | None \<Rightarrow> None))"

text \<open>A failure to log a delivery is only reported.\<close>

definition log_delivery ::
  "faults \<Rightarrow> nat \<Rightarrow> time \<Rightarrow> int \<Rightarrow> ReflectionSummaryBundle \<Rightarrow> string \<Rightarrow> VrpTransferScope \<Rightarrow> db \<Rightarrow> db" where
  "log_delivery flt k now s stored sub scope d =
     (let redactions = (if scope = VrpTransferScope.ReflectionSummariesOnly \<and> reasoning_chain stored \<noteq> None
                        then Some ''reasoning_chain_stripped'' else None)
      in case and_then (guard_fault flt k) (\<lambda>_. log_transfer now s stored (Some sub) scope redactions d) of
           Inr d' \<Rightarrow> d' | Inl _ \<Rightarrow> d)"

text \<open>
  The delivery loop. Each row is a subscriber with the text of its filters and scope; call
  number \<open>k\<close> logs the next delivery.
\<close>

fun deliver ::
  "rtx_json \<Rightarrow> faults \<Rightarrow> nat \<Rightarrow> time \<Rightarrow> int \<Rightarrow> (ReflectionSummaryBundle \<Rightarrow> RtxPayload) \<Rightarrow> ReflectionSummaryBundle
     \<Rightarrow> (string \<times> string \<times> string) list \<Rightarrow> db \<Rightarrow> (string \<times> RtxPayload) list \<times> db" where
  "deliver J flt k now s mk stored [] d = ([], d)"
| "deliver J flt k now s mk stored ((sub, filters_json, scope_str) # rows) d =
     (case receiver_scope J stored filters_json scope_str of
        None \<Rightarrow> deliver J flt k now s mk stored rows d
      | Some scope \<Rightarrow>
          (case enforce_transfer_scope stored scope of
             Inl _ \<Rightarrow> deliver J flt k now s mk stored rows d
           | Inr scoped \<Rightarrow>
               let (rest, d') = deliver J flt (k + 1) now s mk stored rows (log_delivery flt k now s stored sub scope d)
               in ((sub, mk scoped) # rest, d')))"

text \<open>The subscriptions of the server joined with the active registrations of their agents.\<close>

definition subscribers :: "db \<Rightarrow> int \<Rightarrow> (rtx_subscription_row \<Rightarrow> bool) \<Rightarrow> (string \<times> string \<times> string) list" where
  "subscribers d s wanted = concat (map (\<lambda>r.
     map (\<lambda>a. (rs_subscriber r, rs_filters r, ar_scope a))
       (filter (\<lambda>a. ar_server a = rs_server r \<and> ar_pseudonym a = rs_subscriber r \<and> ar_active a) (agent_rows d)))
     (filter (\<lambda>r. rs_server r = s \<and> wanted r) (subscription_rows d)))"

text \<open>
  The blocking part: the checks of the sender with the transaction that stores the bundle and
  logs the publication, then the deliveries.
\<close>

definition publish_transaction ::
  "rtx_json \<Rightarrow> faults \<Rightarrow> time \<Rightarrow> app_context \<Rightarrow> db \<Rightarrow> ReflectionSummaryBundle
     \<Rightarrow> ApiError + ReflectionSummaryBundle \<times> db" where
  "publish_transaction J flt now cx d b =
     (let s = server_id cx in
      and_then (db_call flt 0) (\<lambda>_. and_then (db_call flt 1) (\<lambda>_.
        case active_agent d s (source_pseudonym b) of
          None \<Rightarrow> Inl (Forbidden (''sender '' @ quote (source_pseudonym b) @ '' does not have an active agent registration''))
        | Some a \<Rightarrow>
            and_then (ok_or (parse_transfer_scope (ar_scope a))
              (Forbidden ''sender's transfer scope does not permit RTX publishing'')) (\<lambda>scope.
            if scope < VrpTransferScope.ReflectionSummariesOnly
            then Inl (Forbidden ''sender's transfer scope does not permit RTX publishing'')
            else and_then (map_err (\<lambda>e. Forbidden (rtx_error_text e))
                   (check_redacted_topics b (extract_redacted_topics J (ar_contract a)))) (\<lambda>_.
                 and_then (map_err (\<lambda>e. Forbidden (rtx_error_text e)) (enforce_transfer_scope b scope)) (\<lambda>stored.
                 and_then (db_call flt 2) (\<lambda>_. and_then (db_call flt 3) (\<lambda>_.
                 and_then (map_err (\<lambda>e. ApiConflict (''bundle '' @ quote (bundle_id stored) @ '' already published''))
                   (store_bundle J now s None stored d)) (\<lambda>d1.
                 and_then (db_call flt 4) (\<lambda>_.
                 and_then (map_err (\<lambda>e. InternalServerError) (log_transfer now s stored None scope (redactions_of b stored) d1)) (\<lambda>d2.
                 and_then (db_call flt 5) (\<lambda>_. Inr (stored, d2)))))))))))))"

definition publish_blocking ::
  "rtx_json \<Rightarrow> faults \<Rightarrow> time \<Rightarrow> app_context \<Rightarrow> db \<Rightarrow> ReflectionSummaryBundle
     \<Rightarrow> (ApiError + (string \<times> RtxPayload) list) \<times> db" where
  "publish_blocking J flt now cx d b =
     (case publish_transaction J flt now cx d b of
        Inl e \<Rightarrow> (Inl e, d)
      | Inr (stored, d2) \<Rightarrow>
          (case and_then (db_call flt 6) (\<lambda>_. db_call flt 7) of
             Inl e \<Rightarrow> (Inl e, d2)
           | Inr _ \<Rightarrow>
               let (deliveries, d3) = deliver J flt 8 now (server_id cx) LocalBundle stored
                     (subscribers d2 (server_id cx) (\<lambda>r. rs_subscriber r \<noteq> source_pseudonym b)) d2
               in (Inr deliveries, d3)))"

text \<open>
  The handler: the response, the deliveries handed to the connection manager, and the bundle
  that the background relay starts from, which is the one submitted.
\<close>

definition publish_handler ::
  "rtx_json \<Rightarrow> faults \<Rightarrow> time \<Rightarrow> app_context \<Rightarrow> db \<Rightarrow> PlatformIdentity \<Rightarrow> ReflectionSummaryBundle
     \<Rightarrow> (ApiError + PublishResponse \<times> (string \<times> RtxPayload) list \<times> ReflectionSummaryBundle) \<times> db" where
  "publish_handler J flt now cx d identity b =
     (case validate_bundle_structure b of
        Inl e \<Rightarrow> (Inl (BadRequest (rtx_error_text e)), d)
      | Inr _ \<Rightarrow>
          if pf_pseudonym_id identity \<noteq> source_pseudonym b
          then (Inl (Forbidden ''bundle source_pseudonym does not match authenticated identity''), d)
          else if source_server b \<noteq> public_url cx
          then (Inl (BadRequest (''source_server '' @ quote (source_server b) @ '' does not match this server '' @ quote (public_url cx))), d)
          else (case publish_blocking J flt now cx d b of
                  (Inl e, d') \<Rightarrow> (Inl e, d')
                | (Inr deliveries, d') \<Rightarrow>
                    (Inr (\<lparr>pub_ok = True, pub_bundle_id = bundle_id b, delivered_to = length deliveries\<rparr>, deliveries, b), d')))"

section \<open>Relaying to federated peers\<close>

text \<open>The active agreements of the server joined with their active instances.\<close>

definition relay_peers :: "db \<Rightarrow> int \<Rightarrow> (string \<times> string) list" where
  "relay_peers d s = concat (map (\<lambda>a.
     map (\<lambda>i. (in_base_url i, ag_scope a))
       (filter (\<lambda>i. ag_remote a = in_id i \<and> in_status i = ''ACTIVE'') (instances d)))
     (filter (\<lambda>a. ag_server a = s \<and> ag_active a) (agreement_rows d)))"

definition relay_to ::
  "(string \<Rightarrow> string) \<Rightarrow> app_context \<Rightarrow> ReflectionSummaryBundle \<Rightarrow> string \<times> string \<Rightarrow> (string \<times> FederatedRtxEnvelope) option" where
  "relay_to sign cx b peer =
     (let (base_url, scope_str) = peer; existing_relay_path = [public_url cx] in
      if base_url \<in> set existing_relay_path \<or> source_server b = base_url then None
      else case parse_transfer_scope scope_str of
             None \<Rightarrow> None
           | Some scope \<Rightarrow>
               if \<not> VrpTransferScope.ReflectionSummariesOnly \<le> scope then None
               else (case enforce_transfer_scope b scope of
                       Inl _ \<Rightarrow> None
                     | Inr scoped \<Rightarrow>
                         let provenance = \<lparr>origin_server = source_server b, relay_path = [public_url cx], prov_bundle_id = bundle_id b\<rparr>;
                             payload = rtx_relay_signing_payload (bundle_id b) (public_url cx) (source_server b) (relay_path provenance)
                         in Some (base_url @ ''/api/federation/rtx'',
                              \<lparr>env_bundle = scoped, env_provenance = provenance, env_relaying_server = public_url cx,
                               env_signature = sign payload\<rparr>)))"

definition relay_rtx_bundles ::
  "(string \<Rightarrow> string) \<Rightarrow> faults \<Rightarrow> bool \<Rightarrow> app_context \<Rightarrow> db \<Rightarrow> ReflectionSummaryBundle \<Rightarrow> (string \<times> FederatedRtxEnvelope) list" where
  "relay_rtx_bundles sign flt client_ok cx d b =
     (case and_then (guard_fault flt 0) (\<lambda>_. guard_fault flt 1) of
        Inl _ \<Rightarrow> []
      | Inr _ \<Rightarrow> if \<not> client_ok then [] else List.map_filter (relay_to sign cx b) (relay_peers d (server_id cx)))"

section \<open>Subscriptions\<close>

record SubscriptionInfo =
  si_subscriber_pseudonym :: string
  si_domain_filters :: "string list"
  si_accept_federated :: bool
  si_created_at :: time

record SubscribeResponse =
  sr_ok :: bool
  sr_subscription :: "SubscriptionInfo option"

definition is_subscription :: "int \<Rightarrow> string \<Rightarrow> rtx_subscription_row \<Rightarrow> bool" where
  "is_subscription s p r \<longleftrightarrow> rs_server r = s \<and> rs_subscriber r = p"

text \<open>\<open>INSERT \<dots> ON CONFLICT DO UPDATE\<close> on the key of server and subscriber.\<close>

definition upsert_subscription :: "time \<Rightarrow> int \<Rightarrow> string \<Rightarrow> string \<Rightarrow> bool \<Rightarrow> db \<Rightarrow> rusqlite_error + db" where
  "upsert_subscription now s p filters_json fed d =
     (if exists_where (is_subscription s p) (subscription_rows d)
      then Inr (d\<lparr>rtx_subscriptions := auto_update (is_subscription s p)
             (\<lambda>r. r\<lparr>rs_filters := filters_json, rs_federated := fed\<rparr>) (rtx_subscriptions d)\<rparr>)
      else if \<not> server_known d s then Inl (SqliteFailure ConstraintForeignKey)
      else Inr (d\<lparr>rtx_subscriptions := auto_insert (\<lambda>i. \<lparr>rs_id = i, rs_server = s, rs_subscriber = p,
             rs_filters = filters_json, rs_federated = fed, rs_created = now\<rparr>) (rtx_subscriptions d)\<rparr>))"

definition subscription_info :: "rtx_json \<Rightarrow> string \<Rightarrow> rtx_subscription_row \<Rightarrow> ApiError + SubscriptionInfo" where
  "subscription_info J p r =
     and_then (ok_or (strings_from_json J (rs_filters r)) InternalServerError) (\<lambda>filters.
       Inr \<lparr>si_subscriber_pseudonym = p, si_domain_filters = filters, si_accept_federated = rs_federated r,
            si_created_at = rs_created r\<rparr>)"

definition subscribe_handler ::
  "rtx_json \<Rightarrow> faults \<Rightarrow> time \<Rightarrow> app_context \<Rightarrow> db \<Rightarrow> PlatformIdentity \<Rightarrow> string list \<Rightarrow> bool
     \<Rightarrow> (ApiError + SubscribeResponse) \<times> db" where
  "subscribe_handler J flt now cx d identity filters fed =
     (let s = server_id cx; p = pf_pseudonym_id identity in
      case and_then (db_call flt 0) (\<lambda>_. and_then (db_call flt 1) (\<lambda>_.
             case active_agent d s p of
               None \<Rightarrow> Inl (Forbidden (''agent '' @ quote p @ '' does not have an active registration''))
             | Some a \<Rightarrow>
                 and_then (ok_or (parse_transfer_scope (ar_scope a))
                   (Forbidden ''agent's transfer scope does not permit RTX subscriptions'')) (\<lambda>scope.
                 if scope < VrpTransferScope.ReflectionSummariesOnly
                 then Inl (Forbidden ''agent's transfer scope does not permit RTX subscriptions'')
                 else and_then (db_call flt 2) (\<lambda>_.
                   case upsert_subscription now s p (strings_to_json J filters) fed d of
                     Inl _ \<Rightarrow> Inl InternalServerError
                   | Inr d1 \<Rightarrow> Inr d1)))) of
        Inl e \<Rightarrow> (Inl e, d)
      | Inr d1 \<Rightarrow>
          (case and_then (db_call flt 3) (\<lambda>_.
                 case first_where (is_subscription s p) (subscription_rows d1) of
                   None \<Rightarrow> Inl InternalServerError
                 | Some r \<Rightarrow> subscription_info J p r) of
             Inl e \<Rightarrow> (Inl e, d1)
           | Inr info \<Rightarrow> (Inr \<lparr>sr_ok = True, sr_subscription = Some info\<rparr>, d1)))"

definition unsubscribe_handler ::
  "faults \<Rightarrow> app_context \<Rightarrow> db \<Rightarrow> PlatformIdentity \<Rightarrow> (ApiError + SubscribeResponse) \<times> db" where
  "unsubscribe_handler flt cx d identity =
     (let p = is_subscription (server_id cx) (pf_pseudonym_id identity) in
      case and_then (db_call flt 0) (\<lambda>_. db_call flt 1) of
        Inl e \<Rightarrow> (Inl e, d)
      | Inr _ \<Rightarrow>
          if count_where p (subscription_rows d) = 0 then (Inl (NotFound ''no active RTX subscription''), d)
          else (Inr \<lparr>sr_ok = True, sr_subscription = None\<rparr>,
                d\<lparr>rtx_subscriptions := auto_delete p (rtx_subscriptions d)\<rparr>))"

definition get_subscription_handler ::
  "rtx_json \<Rightarrow> faults \<Rightarrow> app_context \<Rightarrow> db \<Rightarrow> PlatformIdentity \<Rightarrow> ApiError + SubscribeResponse" where
  "get_subscription_handler J flt cx d identity =
     (let p = pf_pseudonym_id identity in
      and_then (db_call flt 0) (\<lambda>_. and_then (db_call flt 1) (\<lambda>_.
        case first_where (is_subscription (server_id cx) p) (subscription_rows d) of
          None \<Rightarrow> Inr \<lparr>sr_ok = True, sr_subscription = None\<rparr>
        | Some r \<Rightarrow> and_then (subscription_info J p r) (\<lambda>info. Inr \<lparr>sr_ok = True, sr_subscription = Some info\<rparr>))))"

section \<open>Governance\<close>

record TransferLogQuery =
  tq_bundle_id :: "string option"
  tq_source :: "string option"
  tq_destination :: "string option"
  tq_since :: "string option"
  tq_until :: "string option"
  tq_limit :: "u32 option"
  tq_offset :: "u32 option"

record TransferLogEntry =
  te_id :: int
  te_bundle_id :: string
  te_source_pseudonym :: string
  te_destination_pseudonym :: "string option"
  te_transfer_scope_applied :: string
  te_redactions_applied :: "string option"
  te_transferred_at :: time

record TransferLogResponse =
  tl_transfers :: "TransferLogEntry list"
  tl_total :: nat
  tl_limit :: u32
  tl_offset :: u32

definition log_entry :: "rtx_log_row \<Rightarrow> TransferLogEntry" where
  "log_entry r = \<lparr>te_id = rl_id r, te_bundle_id = rl_bundle r, te_source_pseudonym = rl_source r,
     te_destination_pseudonym = rl_destination r, te_transfer_scope_applied = rl_scope r,
     te_redactions_applied = rl_redactions r, te_transferred_at = rl_transferred r\<rparr>"

text \<open>A condition on the destination excludes the rows where it is \<open>NULL\<close>.\<close>

definition transfer_matches :: "(time \<Rightarrow> string) \<Rightarrow> int \<Rightarrow> TransferLogQuery \<Rightarrow> rtx_log_row \<Rightarrow> bool" where
  "transfer_matches fmt s q r \<longleftrightarrow> rl_server r = s
     \<and> (case tq_bundle_id q of Some x \<Rightarrow> rl_bundle r = x | None \<Rightarrow> True)
     \<and> (case tq_source q of Some x \<Rightarrow> rl_source r = x | None \<Rightarrow> True)
     \<and> (case tq_destination q of Some x \<Rightarrow> rl_destination r = Some x | None \<Rightarrow> True)
     \<and> (case tq_since q of Some x \<Rightarrow> x \<le> fmt (rl_transferred r) | None \<Rightarrow> True)
     \<and> (case tq_until q of Some x \<Rightarrow> fmt (rl_transferred r) \<le> x | None \<Rightarrow> True)"

definition governance_transfers_handler ::
  "(time \<Rightarrow> string) \<Rightarrow> faults \<Rightarrow> app_context \<Rightarrow> db \<Rightarrow> PlatformIdentity \<Rightarrow> TransferLogQuery
     \<Rightarrow> ApiError + TransferLogResponse" where
  "governance_transfers_handler fmt flt cx d identity q =
     (if \<not> can_moderate (pf_capabilities identity)
      then Inl (Forbidden ''governance endpoints require can_moderate permission'')
      else
        let limit = min (case tq_limit q of Some n \<Rightarrow> n | None \<Rightarrow> 50) 500;
            offset = (case tq_offset q of Some n \<Rightarrow> n | None \<Rightarrow> 0);
            rows = filter (transfer_matches fmt (server_id cx) q) (log_rows d)
        in and_then (db_call flt 0) (\<lambda>_. and_then (db_call flt 1) (\<lambda>_. and_then (db_call flt 2) (\<lambda>_.
             Inr \<lparr>tl_transfers = map log_entry (take (unat limit) (drop (unat offset) (order_by_desc rl_id rows))),
                  tl_total = length rows, tl_limit = limit, tl_offset = offset\<rparr>))))"

record GovernanceSummaryResponse =
  total_transfers :: nat
  unique_bundles :: nat
  unique_sources :: nat
  unique_destinations :: nat
  redacted_transfers :: nat
  by_scope :: "(string \<times> nat) list"

text \<open>\<open>COUNT(DISTINCT column)\<close>, and \<open>GROUP BY\<close>, which sorts by the grouped column.\<close>

definition count_distinct :: "('r \<Rightarrow> string) \<Rightarrow> 'r list \<Rightarrow> nat" where
  "count_distinct column rs = length (remdups (map column rs))"

definition scope_breakdown :: "rtx_log_row list \<Rightarrow> (string \<times> nat) list" where
  "scope_breakdown rs = sort_key (\<lambda>x. - int (snd x))
     (map (\<lambda>s. (s, count_where (\<lambda>r. rl_scope r = s) rs)) (sort (remdups (map rl_scope rs))))"

definition governance_summary_handler ::
  "faults \<Rightarrow> app_context \<Rightarrow> db \<Rightarrow> PlatformIdentity \<Rightarrow> ApiError + GovernanceSummaryResponse" where
  "governance_summary_handler flt cx d identity =
     (if \<not> can_moderate (pf_capabilities identity)
      then Inl (Forbidden ''governance endpoints require can_moderate permission'')
      else
        let rows = filter (\<lambda>r. rl_server r = server_id cx) (log_rows d) in
        and_then (db_call flt 0) (\<lambda>_. and_then (db_call flt 1) (\<lambda>_. and_then (db_call flt 2) (\<lambda>_.
        and_then (db_call flt 3) (\<lambda>_. and_then (db_call flt 4) (\<lambda>_. and_then (db_call flt 5) (\<lambda>_.
        and_then (db_call flt 6) (\<lambda>_.
          Inr \<lparr>total_transfers = length rows,
               unique_bundles = count_distinct rl_bundle rows,
               unique_sources = count_distinct rl_source rows,
               unique_destinations = count_distinct (\<lambda>r. the (rl_destination r)) (filter (\<lambda>r. rl_destination r \<noteq> None) rows),
               redacted_transfers = count_where (\<lambda>r. rl_redactions r \<noteq> None) rows,
               by_scope = scope_breakdown rows\<rparr>))))))))"

end
