(* ===== verification/Annex_Exchange.thy ===== *)
theory Annex_Exchange
  imports Annex_Rtx_Api
begin

text \<open>
  What the knowledge-exchange handlers guarantee: who may publish and who receives what,
  atomicity and uniqueness of a publication, where a bundle is relayed and with which
  content, the life of a subscription, and the agreement of the two audit queries.
\<close>

section \<open>Deliveries\<close>

lemma receiver_scope_Some:
  assumes "receiver_scope J b fj sc = Some scope"
  obtains fs where "strings_from_json J fj = Some fs" "fs = [] \<or> set (domain_tags b) \<inter> set fs \<noteq> {}"
    "sc = scope_to_string scope" "scope \<noteq> VrpTransferScope.NoTransfer"
  using assms
  by (auto simp: receiver_scope_def list_ex_iff parse_transfer_scope_iff scope_at_least_summaries
      split: option.splits if_splits)

text \<open>A subscriber is skipped, or its delivery is logged and put in front of the others.\<close>

lemma deliver_skip:
  "receiver_scope J stored fj sc = None \<Longrightarrow>
     deliver J flt k now s mk stored ((sub, fj, sc) # rows) d = deliver J flt k now s mk stored rows d"
  by simp

lemma deliver_hit:
  assumes "receiver_scope J stored fj sc = Some scope"
  obtains scoped where "enforce_transfer_scope stored scope = Inr scoped"
    "deliver J flt k now s mk stored ((sub, fj, sc) # rows) d =
       ((sub, mk scoped) # fst (deliver J flt (k + 1) now s mk stored rows (log_delivery flt k now s stored sub scope d)),
        snd (deliver J flt (k + 1) now s mk stored rows (log_delivery flt k now s stored sub scope d)))"
proof -
  obtain scoped where e: "enforce_transfer_scope stored scope = Inr scoped"
  proof -
    have "scope \<noteq> VrpTransferScope.NoTransfer" using assms by (elim receiver_scope_Some)
    then show ?thesis using that by (cases scope) simp_all
  qed
  show ?thesis by (rule that [OF e]) (simp add: assms e split: prod.split)
qed

lemma deliver_sound:
  "(p, x) \<in> set (fst (deliver J flt k now s mk stored rows d)) \<Longrightarrow>
   \<exists>fj sc scope scoped. (p, fj, sc) \<in> set rows \<and> receiver_scope J stored fj sc = Some scope
     \<and> enforce_transfer_scope stored scope = Inr scoped \<and> x = mk scoped"
proof (induction rows arbitrary: k d)
  case (Cons row rows)
  obtain sub fj sc where row: "row = (sub, fj, sc)" by (cases row)
  have later: "\<exists>fj' sc' scope' scoped'. (p, fj', sc') \<in> set (row # rows) \<and> receiver_scope J stored fj' sc' = Some scope'
      \<and> enforce_transfer_scope stored scope' = Inr scoped' \<and> x = mk scoped'"
    if "(p, x) \<in> set (fst (deliver J flt k' now s mk stored rows d'))" for k' d'
    using Cons.IH [OF that] by (elim exE conjE) (intro exI conjI, simp_all)
  show ?case
  proof (cases "receiver_scope J stored fj sc")
    case None
    then show ?thesis using later [of k d] Cons.prems unfolding row deliver_skip [OF None] by blast
  next
    case (Some scope)
    then show ?thesis
    proof (rule deliver_hit)
      fix scoped
      assume e: "enforce_transfer_scope stored scope = Inr scoped"
        and d: "deliver J flt k now s mk stored ((sub, fj, sc) # rows) d =
          ((sub, mk scoped) # fst (deliver J flt (k + 1) now s mk stored rows (log_delivery flt k now s stored sub scope d)),
           snd (deliver J flt (k + 1) now s mk stored rows (log_delivery flt k now s stored sub scope d)))"
      have "(p, x) = (sub, mk scoped) \<or>
          (p, x) \<in> set (fst (deliver J flt (k + 1) now s mk stored rows (log_delivery flt k now s stored sub scope d)))"
        using Cons.prems unfolding row d by simp
      then show ?thesis
      proof
        assume "(p, x) = (sub, mk scoped)"
        then show ?thesis using Some e row by auto
      next
        assume "(p, x) \<in> set (fst (deliver J flt (k + 1) now s mk stored rows (log_delivery flt k now s stored sub scope d)))"
        then show ?thesis by (rule later)
      qed
    qed
  qed
qed simp

lemma log_delivery_frame:
  "log_delivery flt k now s b sub sc d = d\<lparr>rtx_transfer_log := rtx_transfer_log (log_delivery flt k now s b sub sc d)\<rparr>"
  unfolding log_delivery_def Let_def
  by (cases "guard_fault flt k") (simp_all add: log_transfer_def)

lemma deliver_frame:
  "snd (deliver J flt k now s mk stored rows d) =
     d\<lparr>rtx_transfer_log := rtx_transfer_log (snd (deliver J flt k now s mk stored rows d))\<rparr>"
proof (induction rows arbitrary: k d)
  case (Cons row rows)
  obtain sub fj sc where row: "row = (sub, fj, sc)" by (cases row)
  show ?case
  proof (cases "receiver_scope J stored fj sc")
    case None
    then show ?thesis unfolding row deliver_skip [OF None] using Cons.IH [of k d] by simp
  next
    case (Some scope)
    let ?d1 = "log_delivery flt k now s stored sub scope d"
    have "snd (deliver J flt k now s mk stored ((sub, fj, sc) # rows) d) = snd (deliver J flt (k + 1) now s mk stored rows ?d1)"
      by (rule deliver_hit [OF Some, of flt k now s mk sub rows d]) simp
    also have "\<dots> = ?d1\<lparr>rtx_transfer_log := rtx_transfer_log (snd (deliver J flt (k + 1) now s mk stored rows ?d1))\<rparr>"
      by (rule Cons.IH)
    finally show ?thesis unfolding row by (subst (asm) log_delivery_frame) simp
  qed
qed simp

text \<open>Every delivery is logged when the engine does not fail.\<close>

lemma log_delivery_row:
  assumes "server_known d s"
  obtains r where "log_delivery no_faults k now s b sub sc d = d\<lparr>rtx_transfer_log := auto_insert r (rtx_transfer_log d)\<rparr>"
    "\<And>i. rl_server (r i) = s" "\<And>i. rl_bundle (r i) = bundle_id b" "\<And>i. rl_source (r i) = source_pseudonym b"
    "\<And>i. rl_destination (r i) = Some sub"
  using assms by (auto simp: log_delivery_def log_transfer_def Let_def)

lemma deliver_logged:
  assumes "server_known d s"
  shows "\<exists>new. log_rows (snd (deliver J no_faults k now s mk stored rows d)) = log_rows d @ new
    \<and> map rl_destination new = map (\<lambda>x. Some (fst x)) (fst (deliver J no_faults k now s mk stored rows d))
    \<and> list_all (\<lambda>r. rl_server r = s \<and> rl_bundle r = bundle_id stored \<and> rl_source r = source_pseudonym stored) new"
  using assms
proof (induction rows arbitrary: k d)
  case (Cons row rows)
  obtain sub fj sc where row: "row = (sub, fj, sc)" by (cases row)
  show ?case
  proof (cases "receiver_scope J stored fj sc")
    case None
    then show ?thesis unfolding row deliver_skip [OF None] using Cons.IH [OF Cons.prems, of k] by simp
  next
    case (Some scope)
    let ?d1 = "log_delivery no_faults k now s stored sub scope d"
    obtain r where r: "?d1 = d\<lparr>rtx_transfer_log := auto_insert r (rtx_transfer_log d)\<rparr>"
      "\<And>i. rl_server (r i) = s" "\<And>i. rl_bundle (r i) = bundle_id stored" "\<And>i. rl_source (r i) = source_pseudonym stored"
      "\<And>i. rl_destination (r i) = Some sub"
      by (rule log_delivery_row [OF Cons.prems, of k now stored sub scope]) (rule that)
    have "server_known ?d1 s" using Cons.prems by (simp add: r(1) server_known_def)
    from Cons.IH [OF this, of "k + 1"] obtain new where new:
        "log_rows (snd (deliver J no_faults (k + 1) now s mk stored rows ?d1)) = log_rows ?d1 @ new"
        "map rl_destination new = map (\<lambda>x. Some (fst x)) (fst (deliver J no_faults (k + 1) now s mk stored rows ?d1))"
        "list_all (\<lambda>r. rl_server r = s \<and> rl_bundle r = bundle_id stored \<and> rl_source r = source_pseudonym stored) new"
      by blast
    have rows1: "log_rows ?d1 = log_rows d @ [r (auto_seq (rtx_transfer_log d) + 1)]" by (simp add: r(1))
    obtain scoped where "enforce_transfer_scope stored scope = Inr scoped"
      and d: "deliver J no_faults k now s mk stored ((sub, fj, sc) # rows) d =
         ((sub, mk scoped) # fst (deliver J no_faults (k + 1) now s mk stored rows ?d1),
          snd (deliver J no_faults (k + 1) now s mk stored rows ?d1))"
      by (rule deliver_hit [OF Some, of no_faults k now s mk sub rows d]) (rule that)
    show ?thesis
      unfolding row d by (intro exI [of _ "r (auto_seq (rtx_transfer_log d) + 1) # new"])
        (use new rows1 r(2-5) in simp)
  qed
qed simp

section \<open>Publishing\<close>

lemma publish_transaction_Inr:
  assumes "publish_transaction J flt now cx d b = Inr (stored, d2)"
  obtains a scope d1 where "active_agent d (server_id cx) (source_pseudonym b) = Some a"
    "ar_scope a = scope_to_string scope" "scope \<noteq> VrpTransferScope.NoTransfer"
    "set (domain_tags b) \<inter> set (extract_redacted_topics J (ar_contract a)) = {}"
    "stored = (if scope = VrpTransferScope.FullKnowledgeBundle then b else b\<lparr>reasoning_chain := None\<rparr>)"
    "store_bundle J now (server_id cx) None stored d = Inr d1"
    "log_transfer now (server_id cx) stored None scope (redactions_of b stored) d1 = Inr d2"
proof (cases "active_agent d (server_id cx) (source_pseudonym b)")
  case None
  then show ?thesis using assms by (simp add: publish_transaction_def Let_def and_then_Inr)
next
  case (Some a)
  note e = assms [unfolded publish_transaction_def Let_def Some option.case and_then_Inr ok_or_Inr]
  from e obtain scope where scope: "parse_transfer_scope (ar_scope a) = Some scope"
    and rest: "(if scope < VrpTransferScope.ReflectionSummariesOnly
        then Inl (Forbidden ''sender's transfer scope does not permit RTX publishing'')
        else and_then (map_err (\<lambda>e. Forbidden (rtx_error_text e))
               (check_redacted_topics b (extract_redacted_topics J (ar_contract a)))) (\<lambda>_.
             and_then (map_err (\<lambda>e. Forbidden (rtx_error_text e)) (enforce_transfer_scope b scope)) (\<lambda>stored.
             and_then (db_call flt 2) (\<lambda>_. and_then (db_call flt 3) (\<lambda>_.
             and_then (map_err (\<lambda>e. ApiConflict (''bundle '' @ quote (bundle_id stored) @ '' already published''))
               (store_bundle J now (server_id cx) None stored d)) (\<lambda>d1.
             and_then (db_call flt 4) (\<lambda>_.
             and_then (map_err (\<lambda>e. InternalServerError) (log_transfer now (server_id cx) stored None scope (redactions_of b stored) d1)) (\<lambda>d2.
             and_then (db_call flt 5) (\<lambda>_. Inr (stored, d2)))))))))) = Inr (stored, d2)"
    by (elim exE conjE)
  have at_least: "\<not> scope < VrpTransferScope.ReflectionSummariesOnly" using rest by (cases "scope < VrpTransferScope.ReflectionSummariesOnly") simp_all
  note r = rest [unfolded if_not_P [OF at_least] and_then_Inr map_err_Inr prod.inject sum.inject]
  from r obtain d1 where "check_redacted_topics b (extract_redacted_topics J (ar_contract a)) = Inr ()"
    and en: "enforce_transfer_scope b scope = Inr stored"
    and st: "store_bundle J now (server_id cx) None stored d = Inr d1"
    and lg: "log_transfer now (server_id cx) stored None scope (redactions_of b stored) d1 = Inr d2"
    by (elim exE conjE) simp
  then show ?thesis
    using that [OF Some _ _ _ _ st lg] scope
    by (simp add: parse_transfer_scope_iff enforce_scope_Inr check_redacted_Inr)
qed

lemma store_bundle_Inr:
  assumes "store_bundle J now s prov b d = Inr d1"
  obtains r where "d1 = d\<lparr>rtx_bundles := auto_insert r (rtx_bundles d)\<rparr>" "server_known d s"
    "\<forall>x \<in> set (bundle_rows d). rb_bundle x \<noteq> bundle_id b"
    "\<And>i. rb_bundle (r i) = bundle_id b" "\<And>i. rb_reasoning (r i) = reasoning_chain b"
    "\<And>i. rb_source (r i) = source_pseudonym b" "\<And>i. rb_server (r i) = s" "\<And>i. rb_summary (r i) = summary b"
proof (rule that)
  let ?r = "\<lambda>i. \<lparr>rb_id = i, rb_server = s, rb_bundle = bundle_id b, rb_source = source_pseudonym b,
         rb_source_server = source_server b, rb_tags = strings_to_json J (domain_tags b), rb_summary = summary b,
         rb_reasoning = reasoning_chain b, rb_caveats = strings_to_json J (caveats b),
         rb_created_ms = ucast (bundle_created_at b), rb_signature = bundle_signature b,
         rb_handshake = vrp_handshake_ref b, rb_stored = now, rb_provenance = prov\<rparr>"
  show "d1 = d\<lparr>rtx_bundles := auto_insert ?r (rtx_bundles d)\<rparr>"
    using assms by (simp add: store_bundle_def split: if_split_asm)
qed (use assms in \<open>simp_all add: store_bundle_def exists_where_iff split: if_split_asm\<close>)

lemma log_transfer_Inr:
  assumes "log_transfer now s b dst scope rd d = Inr d1"
  obtains r where "d1 = d\<lparr>rtx_transfer_log := auto_insert r (rtx_transfer_log d)\<rparr>" "server_known d s"
    "\<And>i. rl_server (r i) = s" "\<And>i. rl_bundle (r i) = bundle_id b" "\<And>i. rl_source (r i) = source_pseudonym b"
    "\<And>i. rl_destination (r i) = dst" "\<And>i. rl_scope (r i) = scope_to_string scope" "\<And>i. rl_redactions (r i) = rd"
proof (rule that)
  let ?r = "\<lambda>i. \<lparr>rl_id = i, rl_server = s, rl_bundle = bundle_id b, rl_source = source_pseudonym b,
         rl_destination = dst, rl_scope = scope_to_string scope, rl_redactions = rd, rl_transferred = now\<rparr>"
  show "d1 = d\<lparr>rtx_transfer_log := auto_insert ?r (rtx_transfer_log d)\<rparr>"
    using assms by (simp add: log_transfer_def split: if_split_asm)
qed (use assms in \<open>simp_all add: log_transfer_def split: if_split_asm\<close>)

lemma publish_handler_Inr:
  assumes "publish_handler J flt now cx d identity b = (Inr (resp, deliveries, relayed), d')"
  obtains stored d2 where "validate_bundle_structure b = Inr ()" "pf_pseudonym_id identity = source_pseudonym b"
    "source_server b = public_url cx" "publish_transaction J flt now cx d b = Inr (stored, d2)"
    "(deliveries, d') = deliver J flt 8 now (server_id cx) LocalBundle stored
       (subscribers d2 (server_id cx) (\<lambda>r. rs_subscriber r \<noteq> source_pseudonym b)) d2"
    "resp = \<lparr>pub_ok = True, pub_bundle_id = bundle_id b, delivered_to = length deliveries\<rparr>" "relayed = b"
proof -
  have v: "validate_bundle_structure b = Inr ()"
    using assms by (cases "validate_bundle_structure b") (simp_all add: publish_handler_def)
  have i: "pf_pseudonym_id identity = source_pseudonym b" "source_server b = public_url cx"
    using assms by (simp_all add: publish_handler_def v split: if_split_asm)
  have bl: "publish_blocking J flt now cx d b = (Inr deliveries, d')"
    and resp: "resp = \<lparr>pub_ok = True, pub_bundle_id = bundle_id b, delivered_to = length deliveries\<rparr>" "relayed = b"
    using assms by (auto simp: publish_handler_def v i split: prod.splits sum.splits)
  show ?thesis
  proof (cases "publish_transaction J flt now cx d b")
    case (Inl e)
    then show ?thesis using bl by (simp add: publish_blocking_def)
  next
    case (Inr x)
    obtain stored d2 where x: "x = (stored, d2)" by (cases x)
    have "(deliveries, d') = deliver J flt 8 now (server_id cx) LocalBundle stored
       (subscribers d2 (server_id cx) (\<lambda>r. rs_subscriber r \<noteq> source_pseudonym b)) d2"
      using bl unfolding publish_blocking_def Inr x by (simp split: sum.split_asm prod.split_asm)
    then show ?thesis using that [OF v i _ _ resp] Inr x by simp
  qed
qed

lemma subscribers_frame [simp]:
  "subscribers (d\<lparr>rtx_bundles := x\<rparr>) s w = subscribers d s w"
  "subscribers (d\<lparr>rtx_transfer_log := y\<rparr>) s w = subscribers d s w"
  by (simp_all add: subscribers_def)

lemma subscribers_iff:
  "(p, fj, sc) \<in> set (subscribers d s w) \<longleftrightarrow>
     (\<exists>r \<in> set (subscription_rows d). \<exists>a \<in> set (agent_rows d). rs_server r = s \<and> w r \<and> rs_subscriber r = p \<and> rs_filters r = fj
        \<and> ar_server a = s \<and> ar_pseudonym a = p \<and> ar_active a \<and> ar_scope a = sc)"
  unfolding subscribers_def by (simp add: image_iff) blast

text \<open>Who receives what: the subscriber's registration, its filters, and the two scopes.\<close>

definition entitled ::
  "rtx_json \<Rightarrow> db \<Rightarrow> int \<Rightarrow> ReflectionSummaryBundle \<Rightarrow> string \<Rightarrow> VrpTransferScope \<Rightarrow> bool" where
  "entitled J d s b p scope \<longleftrightarrow> (\<exists>r \<in> set (subscription_rows d). \<exists>a \<in> set (agent_rows d). \<exists>fs.
     rs_server r = s \<and> rs_subscriber r = p \<and> strings_from_json J (rs_filters r) = Some fs
     \<and> (fs = [] \<or> set (domain_tags b) \<inter> set fs \<noteq> {})
     \<and> ar_server a = s \<and> ar_pseudonym a = p \<and> ar_active a \<and> ar_scope a = scope_to_string scope
     \<and> scope \<noteq> VrpTransferScope.NoTransfer)"

text \<open>The bundle as a chain of scopes lets it through.\<close>

definition scoped_by :: "VrpTransferScope \<Rightarrow> ReflectionSummaryBundle \<Rightarrow> ReflectionSummaryBundle" where
  "scoped_by scope b = (if scope = VrpTransferScope.FullKnowledgeBundle then b else b\<lparr>reasoning_chain := None\<rparr>)"

lemma scoped_by_fields [simp]:
  "bundle_id (scoped_by sc b) = bundle_id b" "domain_tags (scoped_by sc b) = domain_tags b"
  "source_pseudonym (scoped_by sc b) = source_pseudonym b"
  "reasoning_chain (scoped_by sc b) = (if sc = VrpTransferScope.FullKnowledgeBundle then reasoning_chain b else None)"
  by (simp_all add: scoped_by_def)

lemma delivery_entitled:
  assumes "(p, x) \<in> set (fst (deliver J flt k now s mk stored (subscribers d s w) d'))"
  shows "\<exists>scope. entitled J d s stored p scope \<and> x = mk (scoped_by scope stored) \<and> (\<exists>r \<in> set (subscription_rows d). w r \<and> rs_subscriber r = p)"
proof -
  obtain fj sc scope scoped where row: "(p, fj, sc) \<in> set (subscribers d s w)"
    and scope: "receiver_scope J stored fj sc = Some scope"
    and e: "enforce_transfer_scope stored scope = Inr scoped" and x: "x = mk scoped"
    using deliver_sound [OF assms] by (elim exE conjE)
  obtain fs where fs: "strings_from_json J fj = Some fs" "fs = [] \<or> set (domain_tags stored) \<inter> set fs \<noteq> {}"
    "sc = scope_to_string scope" "scope \<noteq> VrpTransferScope.NoTransfer"
    by (rule receiver_scope_Some [OF scope])
  obtain r a where "r \<in> set (subscription_rows d)" "a \<in> set (agent_rows d)" "rs_server r = s" "w r" "rs_subscriber r = p"
      "rs_filters r = fj" "ar_server a = s" "ar_pseudonym a = p" "ar_active a" "ar_scope a = sc"
    using row unfolding subscribers_iff by blast
  then have "entitled J d s stored p scope \<and> (\<exists>r \<in> set (subscription_rows d). w r \<and> rs_subscriber r = p)" unfolding entitled_def using fs by blast
  moreover have "x = mk (scoped_by scope stored)" using e x by (simp add: enforce_scope_Inr scoped_by_def)
  ultimately show ?thesis by blast
qed


text \<open>The outcomes of a publication: nothing happened, or the transaction was committed.\<close>

lemma publish_handler_cases:
  assumes "publish_handler J flt now cx d identity b = (res, d')"
  obtains (refused) e where "res = Inl e" "d' = d"
  | (committed) stored d2 where "publish_transaction J flt now cx d b = Inr (stored, d2)"
      "d' = d2\<lparr>rtx_transfer_log := rtx_transfer_log d'\<rparr>" "is_ok res \<or> flt 6 \<or> flt 7"
proof (cases "publish_transaction J flt now cx d b")
  case (Inl e)
  have "\<exists>e. res = Inl e \<and> d' = d"
    using assms by (auto simp: publish_handler_def publish_blocking_def Inl split: sum.splits if_splits)
  then show ?thesis using refused by blast
next
  case (Inr x)
  obtain stored d2 where x: "x = (stored, d2)" by (cases x)
  have *: "(\<exists>e. res = Inl e \<and> d' = d) \<or> (d' = d2 \<and> (flt 6 \<or> flt 7))
      \<or> (is_ok res \<and> d' = snd (deliver J flt 8 now (server_id cx) LocalBundle stored
           (subscribers d2 (server_id cx) (\<lambda>r. rs_subscriber r \<noteq> source_pseudonym b)) d2))"
    using assms by (auto simp: publish_handler_def publish_blocking_def Inr x db_call_def split: sum.splits if_splits prod.splits)
  consider "\<exists>e. res = Inl e \<and> d' = d" | "d' = d2" "flt 6 \<or> flt 7"
    | "is_ok res" "d' = snd (deliver J flt 8 now (server_id cx) LocalBundle stored
           (subscribers d2 (server_id cx) (\<lambda>r. rs_subscriber r \<noteq> source_pseudonym b)) d2)"
    using * by blast
  then show ?thesis
  proof cases
    case 1
    then show ?thesis using refused by blast
  next
    case 2
    then show ?thesis using committed [of stored d2] Inr x by simp
  next
    case 3
    have "d' = d2\<lparr>rtx_transfer_log := rtx_transfer_log d'\<rparr>" unfolding 3(2) by (rule deliver_frame)
    then show ?thesis using committed [of stored d2] Inr x 3(1) by simp
  qed
qed

text \<open>
  A bundle is published at most once. Whatever fails, either nothing is written and the
  answer is an error, or exactly one row with the bundle's id is added, the id was not in use
  before, the publication itself is in the transfer log, and the answer is an error only when
  reading the subscribers failed afterwards. The ids of the stored bundles stay distinct.
\<close>

theorem publish_exactly_once:
  assumes "publish_handler J flt now cx d identity b = (res, d')"
    and "distinct (map rb_bundle (bundle_rows d))"
  shows "distinct (map rb_bundle (bundle_rows d'))
    \<and> (if bundle_id b \<in> rb_bundle ` set (bundle_rows d) then \<not> is_ok res \<and> d' = d
       else (\<not> is_ok res \<and> d' = d)
         \<or> ((\<exists>r. rb_bundle r = bundle_id b \<and> bundle_rows d' = bundle_rows d @ [r]) \<and> (is_ok res \<or> flt 6 \<or> flt 7)))"
  using assms(1)
proof (cases rule: publish_handler_cases)
  case (refused e)
  then show ?thesis using assms(2) by simp
next
  case (committed stored d2)
  obtain a scope d1 where
      stored: "stored = (if scope = VrpTransferScope.FullKnowledgeBundle then b else b\<lparr>reasoning_chain := None\<rparr>)"
    and d1: "store_bundle J now (server_id cx) None stored d = Inr d1"
    and d2: "log_transfer now (server_id cx) stored None scope (redactions_of b stored) d1 = Inr d2"
    by (rule publish_transaction_Inr [OF committed(1)]) (rule that)
  have id: "bundle_id stored = bundle_id b" by (simp add: stored)
  obtain r where r: "d1 = d\<lparr>rtx_bundles := auto_insert r (rtx_bundles d)\<rparr>"
      "\<forall>x \<in> set (bundle_rows d). rb_bundle x \<noteq> bundle_id stored" "\<And>i. rb_bundle (r i) = bundle_id stored"
    by (rule store_bundle_Inr [OF d1]) (rule that)
  obtain l where l: "d2 = d1\<lparr>rtx_transfer_log := auto_insert l (rtx_transfer_log d1)\<rparr>"
    by (rule log_transfer_Inr [OF d2]) (rule that)
  have rows: "bundle_rows d' = bundle_rows d @ [r (auto_seq (rtx_bundles d) + 1)]"
    by (subst committed(2)) (simp add: l r(1))
  have new: "bundle_id b \<notin> rb_bundle ` set (bundle_rows d)"
    using key_not_image [OF r(2)] by (simp add: id)
  have "distinct (map rb_bundle (bundle_rows d'))" using assms(2) new by (simp add: rows r(3) id)
  moreover have "\<exists>x. rb_bundle x = bundle_id b \<and> bundle_rows d' = bundle_rows d @ [x]"
    by (rule exI [of _ "r (auto_seq (rtx_bundles d) + 1)"]) (simp add: rows r(3) id)
  ultimately show ?thesis using new committed(3) by simp
qed

lemma publish_handler_frame:
  assumes "publish_handler J flt now cx d identity b = (res, d')"
  shows "agreement_rows d' = agreement_rows d \<and> instances d' = instances d"
  using assms
proof (cases rule: publish_handler_cases)
  case (committed stored d2)
  obtain scope d1 where d1: "store_bundle J now (server_id cx) None stored d = Inr d1"
    and d2: "log_transfer now (server_id cx) stored None scope (redactions_of b stored) d1 = Inr d2"
    by (rule publish_transaction_Inr [OF committed(1)]) (rule that)
  have "agreement_rows d2 = agreement_rows d \<and> instances d2 = instances d"
    by (rule log_transfer_Inr [OF d2], rule store_bundle_Inr [OF d1]) simp
  then show ?thesis by (subst (1 2) committed(2)) simp
qed simp

section \<open>Relaying\<close>

lemma relay_peers_bex:
  "(\<exists>u sc. (u, sc) \<in> set (relay_peers d s) \<and> Q u sc) \<longleftrightarrow>
     (\<exists>a \<in> set (agreement_rows d). \<exists>i \<in> set (instances d). (ag_server a = s \<and> ag_active a) \<and> ag_remote a = in_id i
        \<and> in_status i = ''ACTIVE'' \<and> Q (in_base_url i) (ag_scope a))"
  unfolding relay_peers_def by (simp add: image_iff) blast

lemma relay_to_Some:
  "relay_to sign cx b (u, sc) = Some x \<longleftrightarrow>
     u \<noteq> public_url cx \<and> u \<noteq> source_server b
     \<and> (\<exists>scope. sc = scope_to_string scope \<and> scope \<noteq> VrpTransferScope.NoTransfer
         \<and> x = (u @ ''/api/federation/rtx'',
            \<lparr>env_bundle = scoped_by scope b,
             env_provenance = \<lparr>origin_server = source_server b, relay_path = [public_url cx], prov_bundle_id = bundle_id b\<rparr>,
             env_relaying_server = public_url cx,
             env_signature = sign (rtx_relay_signing_payload (bundle_id b) (public_url cx) (source_server b) [public_url cx])\<rparr>))"
proof (cases "parse_transfer_scope sc")
  case None
  then have "sc \<noteq> scope_to_string t" for t using parse_transfer_scope_round [of t] by auto
  then show ?thesis using None by (auto simp: relay_to_def Let_def)
next
  case (Some t)
  then have sc: "sc = scope_to_string t" by (simp add: parse_transfer_scope_iff)
  have inj: "scope_to_string t = scope_to_string t' \<longleftrightarrow> t = t'" for t' by (rule scope_text.enc_inj)
  show ?thesis
  proof (cases "t = VrpTransferScope.NoTransfer \<or> u = public_url cx \<or> u = source_server b")
    case True
    then have "relay_to sign cx b (u, sc) = None"
      unfolding relay_to_def Let_def prod.case Some option.case scope_at_least_summaries by (simp add: eq_commute, blast)
    then show ?thesis using True unfolding sc inj by (simp only: option.distinct) blast
  next
    case False
    then have "enforce_transfer_scope b t = Inr (scoped_by t b)" by (simp add: enforce_scope_Inr scoped_by_def)
    then have "relay_to sign cx b (u, sc) = Some (u @ ''/api/federation/rtx'',
            \<lparr>env_bundle = scoped_by t b,
             env_provenance = \<lparr>origin_server = source_server b, relay_path = [public_url cx], prov_bundle_id = bundle_id b\<rparr>,
             env_relaying_server = public_url cx,
             env_signature = sign (rtx_relay_signing_payload (bundle_id b) (public_url cx) (source_server b) [public_url cx])\<rparr>)"
      using False unfolding relay_to_def Let_def prod.case Some option.case scope_at_least_summaries by (simp add: eq_commute)
    then show ?thesis using False unfolding sc inj by (simp only: option.inject) blast
  qed
qed

text \<open>
  C38. Where a published bundle is relayed and with which content: without engine faults it goes
  to exactly the active peers, other than this server, with which there is an active agreement
  whose scope permits transfer. The content is cut down by the peer's scope alone: the
  relay starts from the bundle as submitted, so a peer with full scope receives the reasoning
  chain even when the sender's own scope made the server store and deliver the bundle
  without it.
\<close>

theorem relay_content:
  assumes "publish_handler J flt now cx d identity b = (Inr (resp, deliveries, relayed), d')"
  shows "(url, env) \<in> set (relay_rtx_bundles sign no_faults True cx d' relayed) \<longleftrightarrow>
    (\<exists>a \<in> set (agreement_rows d'). \<exists>i \<in> set (instances d'). \<exists>scope.
       ag_server a = server_id cx \<and> ag_active a \<and> ag_remote a = in_id i \<and> in_status i = ''ACTIVE''
       \<and> in_base_url i \<noteq> public_url cx \<and> ag_scope a = scope_to_string scope \<and> scope \<noteq> VrpTransferScope.NoTransfer
       \<and> url = in_base_url i @ ''/api/federation/rtx''
       \<and> env = \<lparr>env_bundle = scoped_by scope b,
           env_provenance = \<lparr>origin_server = public_url cx, relay_path = [public_url cx], prov_bundle_id = bundle_id b\<rparr>,
           env_relaying_server = public_url cx,
           env_signature = sign (rtx_relay_signing_payload (bundle_id b) (public_url cx) (public_url cx) [public_url cx])\<rparr>)"
  using assms
proof (rule publish_handler_Inr)
  assume src: "source_server b = public_url cx" and rel: "relayed = b"
  have "(url, env) \<in> set (relay_rtx_bundles sign no_faults True cx d' relayed) \<longleftrightarrow>
      (\<exists>p \<in> set (relay_peers d' (server_id cx)). relay_to sign cx b p = Some (url, env))"
    unfolding relay_rtx_bundles_def rel by (simp add: List.map_filter_def image_iff) force
  also have "\<dots> \<longleftrightarrow> (\<exists>u sc. (u, sc) \<in> set (relay_peers d' (server_id cx)) \<and> relay_to sign cx b (u, sc) = Some (url, env))"
    unfolding Bex_def split_paired_Ex ..
  finally have *: "(url, env) \<in> set (relay_rtx_bundles sign no_faults True cx d' relayed) \<longleftrightarrow>
      (\<exists>u sc. (u, sc) \<in> set (relay_peers d' (server_id cx)) \<and> relay_to sign cx b (u, sc) = Some (url, env))" .
  show ?thesis
    unfolding * relay_peers_bex relay_to_Some src prod.inject
    by (intro bex_cong refl, simp only: ex_simps conj_assoc conj_left_absorb)
qed

section \<open>A concrete server\<close>

text \<open>
  Agent \<open>p\<close> may share summaries only, agent \<open>q\<close> subscribes to a topic with full scope, and
  the server has an agreement of full scope with a peer.
\<close>

definition demo_rtx_json :: rtx_json where
  "demo_rtx_json = \<lparr>strings_to_json = enc, strings_from_json = dec, contract_from_json = dec_contract,
     provenance_to_json = (\<lambda>p. enc (origin_server p # prov_bundle_id p # relay_path p))\<rparr>"

lemma demo_rtx_laws: "rtx_json_laws demo_rtx_json"
  by (simp add: rtx_json_laws_def demo_rtx_json_def del: enc.simps)

lemma demo_rtx_simps [simp]:
  "strings_to_json demo_rtx_json = enc" "strings_from_json demo_rtx_json = dec"
  "contract_from_json demo_rtx_json = dec_contract"
  by (simp_all add: demo_rtx_json_def)

definition demo_agent :: "int \<Rightarrow> string \<Rightarrow> VrpTransferScope \<Rightarrow> agent_row" where
  "demo_agent i p scope = \<lparr>ar_id = i, ar_server = 1, ar_pseudonym = p, ar_alignment = ''ALIGNED'', ar_scope = scope_to_string scope,
     ar_contract = enc_contract (demo_contract [] []), ar_voice_profile = None, ar_reputation = 1, ar_last_handshake = 0,
     ar_active = True, ar_anchor = None, ar_created = 0, ar_updated = 0\<rparr>"

definition demo_exchange :: db where
  "demo_exchange = (migrated_db 0)\<lparr>
     servers := [\<lparr>sv_id = 1, sv_slug = ''a'', sv_label = ''A'', sv_policy_json = []\<rparr>],
     agent_registrations := \<lparr>auto_rows = [demo_agent 1 ''p'' VrpTransferScope.ReflectionSummariesOnly,
        demo_agent 2 ''q'' VrpTransferScope.FullKnowledgeBundle], auto_seq = 2\<rparr>,
     rtx_subscriptions := \<lparr>auto_rows = [\<lparr>rs_id = 1, rs_server = 1, rs_subscriber = ''q'', rs_filters = enc [''rust''],
        rs_federated = True, rs_created = 0\<rparr>], auto_seq = 1\<rparr>,
     instances := [\<lparr>in_id = 7, in_base_url = ''http://b'', in_public_key = [], in_label = [], in_status = ''ACTIVE''\<rparr>],
     federation_agreements := \<lparr>auto_rows = [(demo_agreement 0)\<lparr>ag_scope := scope_to_string VrpTransferScope.FullKnowledgeBundle\<rparr>],
        auto_seq = 1\<rparr>\<rparr>"

definition demo_context :: app_context where
  "demo_context = \<lparr>server_id = 1, public_url = ''http://a''\<rparr>"

definition demo_sender :: "string \<Rightarrow> PlatformIdentity" where
  "demo_sender p = \<lparr>pf_id = 1, pf_server_id = 1, pf_pseudonym_id = p, participant_type = RoleCode.AiAgent,
     pf_capabilities = \<lparr>can_voice = False, can_moderate = True, can_invite = False, can_federate = False, can_bridge = False\<rparr>,
     pf_active = True, pf_created_at = 0, pf_updated_at = 0\<rparr>"

definition demo_published :: "(ApiError + PublishResponse \<times> (string \<times> RtxPayload) list \<times> ReflectionSummaryBundle) \<times> db" where
  "demo_published = publish_handler demo_rtx_json no_faults 9 demo_context demo_exchange (demo_sender ''p'') (demo_bundle ''x'')"

lemmas publish_defs = publish_handler_def publish_blocking_def publish_transaction_def store_bundle_def log_transfer_def
  log_delivery_def subscribers_def active_agent_def validate_bundle_structure_def check_redacted_topics_def extract_redacted_topics_def
  receiver_scope_def server_known_def exists_where_def demo_exchange_def demo_context_def demo_sender_def demo_agent_def demo_bundle_def

lemma demo_publish_ok:
  obtains resp d' where "demo_published = (Inr (resp, [(''q'', LocalBundle ((demo_bundle ''x'')\<lparr>reasoning_chain := None\<rparr>))],
      demo_bundle ''x''), d')" "map rb_reasoning (bundle_rows d') = [None]"
proof -
  have "\<exists>resp d'. demo_published = (Inr (resp, [(''q'', LocalBundle ((demo_bundle ''x'')\<lparr>reasoning_chain := None\<rparr>))],
      demo_bundle ''x''), d') \<and> map rb_reasoning (bundle_rows d') = [None]"
    unfolding demo_published_def
    by (simp add: publish_defs Let_def less_VrpTransferScope_def less_eq_VrpTransferScope_def demo_contract_def
        del: enc.simps scope_to_string.simps)
  then show ?thesis by (elim exE conjE) (rule that)
qed

lemma demo_exchange_rows: "bundle_rows demo_exchange = []"
  by (simp add: demo_exchange_def migrated_db_def)

lemma demo_active: "active_agent demo_exchange 1 ''p'' = Some (demo_agent 1 ''p'' VrpTransferScope.ReflectionSummariesOnly)"
  by (simp add: active_agent_def demo_exchange_def demo_agent_def)


theorem publish_exactly_once_witness:
  "\<not> is_ok (fst (publish_handler demo_rtx_json no_faults 9 demo_context (snd demo_published) (demo_sender ''p'') (demo_bundle ''x'')))
   \<and> length (bundle_rows (snd demo_published)) = 1"
proof -
  let ?again = "publish_handler demo_rtx_json no_faults 9 demo_context (snd demo_published) (demo_sender ''p'') (demo_bundle ''x'')"
  have empty: "distinct (map rb_bundle (bundle_rows demo_exchange))" by (simp add: demo_exchange_rows)
  obtain resp d' where p: "demo_published = (Inr (resp, [(''q'', LocalBundle ((demo_bundle ''x'')\<lparr>reasoning_chain := None\<rparr>))],
      demo_bundle ''x''), d')" by (rule demo_publish_ok) (rule that)
  note once = publish_exactly_once [OF p [unfolded demo_published_def] empty]
  obtain r where r: "bundle_rows d' = [r]" "rb_bundle r = bundle_id (demo_bundle ''x'')"
    using once demo_exchange_rows by auto
  obtain res d2 where again: "?again = (res, d2)" by (cases ?again)
  have "distinct (map rb_bundle (bundle_rows (snd demo_published)))" using r by (simp add: p)
  from publish_exactly_once [OF again this] have "\<not> is_ok res" using r by (simp add: p)
  then show ?thesis using r by (simp add: again) (simp add: p)
qed

theorem relay_content_witness:
  "\<forall>sign. \<exists>env. (''http://b/api/federation/rtx'', env) \<in> set (relay_rtx_bundles sign no_faults True demo_context (snd demo_published)
         (demo_bundle ''x''))
     \<and> reasoning_chain (env_bundle env) = Some ''why'' \<and> map rb_reasoning (bundle_rows (snd demo_published)) = [None]"
proof
  fix sign
  obtain resp d' where p: "demo_published = (Inr (resp, [(''q'', LocalBundle ((demo_bundle ''x'')\<lparr>reasoning_chain := None\<rparr>))],
      demo_bundle ''x''), d')" and stored: "map rb_reasoning (bundle_rows d') = [None]" by (rule demo_publish_ok)
  have same: "agreement_rows d' = agreement_rows demo_exchange \<and> instances d' = instances demo_exchange"
    using p [unfolded demo_published_def] by (rule publish_handler_frame)
  define a where "a = (demo_agreement 0)\<lparr>ag_scope := scope_to_string VrpTransferScope.FullKnowledgeBundle\<rparr>"
  define i :: instance_row where "i = \<lparr>in_id = 7, in_base_url = ''http://b'', in_public_key = [], in_label = [], in_status = ''ACTIVE''\<rparr>"
  define env where "env = \<lparr>env_bundle = scoped_by VrpTransferScope.FullKnowledgeBundle (demo_bundle ''x''),
     env_provenance = \<lparr>origin_server = public_url demo_context, relay_path = [public_url demo_context],
        prov_bundle_id = bundle_id (demo_bundle ''x'')\<rparr>,
     env_relaying_server = public_url demo_context,
     env_signature = sign (rtx_relay_signing_payload (bundle_id (demo_bundle ''x'')) (public_url demo_context)
        (public_url demo_context) [public_url demo_context])\<rparr>"
  have rows: "a \<in> set (agreement_rows d')" "i \<in> set (instances d')"
    using same by (simp_all add: demo_exchange_def a_def i_def)
  have "(''http://b/api/federation/rtx'', env)
      \<in> set (relay_rtx_bundles sign no_faults True demo_context d' (demo_bundle ''x''))"
    unfolding relay_content [OF p [unfolded demo_published_def]]
    by (rule bexI [OF _ rows(1)], rule bexI [OF _ rows(2)], rule exI [of _ VrpTransferScope.FullKnowledgeBundle])
      (simp add: a_def i_def env_def demo_agreement_def demo_context_def)
  then show "\<exists>env. (''http://b/api/federation/rtx'', env) \<in> set (relay_rtx_bundles sign no_faults True demo_context (snd demo_published)
         (demo_bundle ''x''))
     \<and> reasoning_chain (env_bundle env) = Some ''why'' \<and> map rb_reasoning (bundle_rows (snd demo_published)) = [None]"
    unfolding p snd_conv using stored by (intro exI [of _ env] conjI) (simp_all add: env_def scoped_by_def demo_bundle_def)
qed

end
