(* ===== verification/Annex_Subscriptions.thy ===== *)
theory Annex_Subscriptions
  imports Annex_Exchange
begin

text \<open>
  The subscription handlers as operations on a table with one row per agent, and the agreement
  of the two audit queries on the transfer log.
\<close>

section \<open>Subscriptions\<close>

definition subscription_key :: "rtx_subscription_row \<Rightarrow> int \<times> string" where
  "subscription_key r = (rs_server r, rs_subscriber r)"

definition subscriptions_ok :: "db \<Rightarrow> bool" where
  "subscriptions_ok d \<longleftrightarrow> auto_wf rs_id (rtx_subscriptions d) \<and> distinct (map subscription_key (subscription_rows d))"

lemma is_subscription_key: "is_subscription s p = (\<lambda>r. subscription_key r = (s, p))"
  by (rule ext) (simp add: is_subscription_def subscription_key_def)

lemma upsert_hit:
  assumes "exists_where (is_subscription s p) (subscription_rows d)"
  shows "upsert_subscription now s p fj fed d = Inr (d\<lparr>rtx_subscriptions :=
    auto_update (is_subscription s p) (\<lambda>r. r\<lparr>rs_filters := fj, rs_federated := fed\<rparr>) (rtx_subscriptions d)\<rparr>)"
  using assms by (simp add: upsert_subscription_def)

text \<open>The upsert keeps the invariant, sets the row of its key and leaves the others.\<close>

lemma upsert_subscription_Inr:
  assumes ok: "subscriptions_ok d" and up: "upsert_subscription now s p fj fed d = Inr d'"
  shows "subscriptions_ok d'"
    and "\<exists>r. first_where (is_subscription s p) (subscription_rows d') = Some r \<and> rs_filters r = fj \<and> rs_federated r = fed"
    and "(s', p') \<noteq> (s, p) \<Longrightarrow>
      first_where (is_subscription s' p') (subscription_rows d') = first_where (is_subscription s' p') (subscription_rows d)"
proof (atomize (full), goal_cases)
  case 1
  show ?case
  proof (cases "exists_where (is_subscription s p) (subscription_rows d)")
    case True
    let ?f = "\<lambda>r :: rtx_subscription_row. r\<lparr>rs_filters := fj, rs_federated := fed\<rparr>"
    have d': "d' = d\<lparr>rtx_subscriptions := auto_update (is_subscription s p) ?f (rtx_subscriptions d)\<rparr>"
      using up unfolding upsert_hit [OF True] by simp
    have key: "subscription_key (?f r) = subscription_key r" for r by (simp add: subscription_key_def)
    have find: "first_where (is_subscription a b) (subscription_rows d') =
        map_option (\<lambda>r. if is_subscription s p r then ?f r else r) (first_where (is_subscription a b) (subscription_rows d))" for a b
      unfolding d' by (simp, rule first_where_update_where) (simp add: is_subscription_def)
    have "subscriptions_ok d'"
      using ok unfolding subscriptions_ok_def d'
      by (simp add: auto_wf_update map_update_where [where key = subscription_key and f = ?f, simplified key])
    moreover obtain r where r: "first_where (is_subscription s p) (subscription_rows d) = Some r"
      using True by (cases "first_where (is_subscription s p) (subscription_rows d)") (simp_all add: first_where_None exists_where_iff)
    then have "is_subscription s p r" by (rule first_where_Some [THEN conjunct2])
    then have "\<exists>x. first_where (is_subscription s p) (subscription_rows d') = Some x \<and> rs_filters x = fj \<and> rs_federated x = fed"
      by (intro exI [of _ "?f r"]) (simp add: find r)
    moreover have "first_where (is_subscription s' p') (subscription_rows d') = first_where (is_subscription s' p') (subscription_rows d)"
      if "(s', p') \<noteq> (s, p)"
    proof (cases "first_where (is_subscription s' p') (subscription_rows d)")
      case (Some x)
      then have "is_subscription s' p' x" by (rule first_where_Some [THEN conjunct2])
      then have "\<not> is_subscription s p x" using that by (auto simp: is_subscription_def)
      then show ?thesis by (simp add: find Some)
    qed (simp add: find)
    ultimately show ?thesis by blast
  next
    case False
    let ?r = "\<lambda>i. \<lparr>rs_id = i, rs_server = s, rs_subscriber = p, rs_filters = fj, rs_federated = fed, rs_created = now\<rparr>"
    have d': "d' = d\<lparr>rtx_subscriptions := auto_insert ?r (rtx_subscriptions d)\<rparr>"
      using up False unfolding upsert_subscription_def by (simp split: if_split_asm)
    have new: "(s, p) \<notin> subscription_key ` set (subscription_rows d)"
      using False unfolding is_subscription_key exists_where_key .
    have "subscriptions_ok d'"
      using ok new unfolding subscriptions_ok_def d'
      by (simp add: auto_wf_insert) (simp add: subscription_key_def)
    moreover have "first_where (is_subscription s p) (subscription_rows d) = None"
      using new unfolding is_subscription_key by (rule first_where_no_key)
    then have "\<exists>x. first_where (is_subscription s p) (subscription_rows d') = Some x \<and> rs_filters x = fj \<and> rs_federated x = fed"
      by (simp add: d' is_subscription_def)
    moreover have "first_where (is_subscription s' p') (subscription_rows d') = first_where (is_subscription s' p') (subscription_rows d)"
      if "(s', p') \<noteq> (s, p)"
      using that by (simp add: d' first_where_append) (auto simp: is_subscription_def split: option.split)
    ultimately show ?thesis by blast
  qed
qed

lemma subscribe_handler_Inr:
  assumes "subscribe_handler J flt now cx d identity filters fed = (Inr resp, d')"
  obtains a scope r info where "active_agent d (server_id cx) (pf_pseudonym_id identity) = Some a"
    "ar_scope a = scope_to_string scope" "scope \<noteq> VrpTransferScope.NoTransfer"
    "upsert_subscription now (server_id cx) (pf_pseudonym_id identity) (strings_to_json J filters) fed d = Inr d'"
    "first_where (is_subscription (server_id cx) (pf_pseudonym_id identity)) (subscription_rows d') = Some r"
    "subscription_info J (pf_pseudonym_id identity) r = Inr info" "resp = \<lparr>sr_ok = True, sr_subscription = Some info\<rparr>"
proof (cases "active_agent d (server_id cx) (pf_pseudonym_id identity)")
  case None
  then show ?thesis using assms by (simp add: subscribe_handler_def Let_def db_call_def split: if_split_asm)
next
  case (Some a)
  let ?up = "upsert_subscription now (server_id cx) (pf_pseudonym_id identity) (strings_to_json J filters) fed d"
  show ?thesis
  proof (cases "parse_transfer_scope (ar_scope a)")
    case None
    then show ?thesis using assms Some by (simp add: subscribe_handler_def Let_def db_call_def split: if_split_asm)
  next
    case scope: (Some scope)
    show ?thesis
    proof (cases ?up)
      case (Inl e)
      then show ?thesis using assms Some scope
        by (simp add: subscribe_handler_def Let_def db_call_def split: if_split_asm)
    next
      case (Inr d1)
      let ?first = "first_where (is_subscription (server_id cx) (pf_pseudonym_id identity)) (subscription_rows d1)"
      note all = assms [unfolded subscribe_handler_def Let_def db_call_def Some option.case scope ok_or.simps and_then.simps Inr sum.case]
      have calls: "\<not> flt 0" "\<not> flt 1" "\<not> flt 2" "\<not> flt 3" "\<not> scope < VrpTransferScope.ReflectionSummariesOnly"
        using all by (simp_all split: if_split_asm)
      have d1: "d1 = d'" using all calls by (simp split: option.split_asm sum.split_asm)
      obtain r where r: "?first = Some r" using all calls by (cases ?first) simp_all
      obtain info where info: "subscription_info J (pf_pseudonym_id identity) r = Inr info"
        using all calls r by (cases "subscription_info J (pf_pseudonym_id identity) r") simp_all
      have "resp = \<lparr>sr_ok = True, sr_subscription = Some info\<rparr>" using all calls r info by simp
      moreover have "scope \<noteq> VrpTransferScope.NoTransfer"
        using calls(5) unfolding not_less scope_at_least_summaries .
      ultimately show ?thesis
        using that [OF Some _ _ _ _ info] scope Inr d1 r by (simp add: parse_transfer_scope_iff)
    qed
  qed
qed

lemma subscription_info_Inr:
  "subscription_info J p r = Inr info \<longleftrightarrow> (\<exists>fs. strings_from_json J (rs_filters r) = Some fs
     \<and> info = \<lparr>si_subscriber_pseudonym = p, si_domain_filters = fs, si_accept_federated = rs_federated r, si_created_at = rs_created r\<rparr>)"
  by (cases "strings_from_json J (rs_filters r)") (auto simp: subscription_info_def)

lemma unsubscribe_none:
  assumes "unsubscribe_handler flt cx d identity = (Inr resp, d')"
  shows "first_where (is_subscription (server_id cx) (pf_pseudonym_id identity)) (subscription_rows d') = None"
proof -
  have "d' = d\<lparr>rtx_subscriptions := auto_delete (is_subscription (server_id cx) (pf_pseudonym_id identity)) (rtx_subscriptions d)\<rparr>"
    using assms by (simp add: unsubscribe_handler_def Let_def split: sum.split_asm if_split_asm)
  then show ?thesis by (simp add: first_where_None set_delete_where)
qed

text \<open>
  The life of a subscription: a successful \<open>subscribe\<close> comes from an active agent whose scope
  permits transfer; afterwards reading the subscription returns what was stored, with the
  filters and the flag of the request, every other agent's subscription is untouched and
  there is still one row per agent; after a successful \<open>unsubscribe\<close> there is none.
\<close>

theorem subscription_lifecycle:
  assumes "rtx_json_laws J" and "subscriptions_ok d"
    and "subscribe_handler J flt now cx d identity filters fed = (Inr resp, d')"
  shows "subscriptions_ok d'
    \<and> (\<exists>a scope. active_agent d (server_id cx) (pf_pseudonym_id identity) = Some a
         \<and> ar_scope a = scope_to_string scope \<and> scope \<noteq> VrpTransferScope.NoTransfer)
    \<and> get_subscription_handler J no_faults cx d' identity = Inr resp
    \<and> (\<exists>info. sr_subscription resp = Some info \<and> si_domain_filters info = filters \<and> si_accept_federated info = fed
         \<and> si_subscriber_pseudonym info = pf_pseudonym_id identity)
    \<and> (\<forall>s p. (s, p) \<noteq> (server_id cx, pf_pseudonym_id identity) \<longrightarrow>
         first_where (is_subscription s p) (subscription_rows d') = first_where (is_subscription s p) (subscription_rows d))
    \<and> (\<forall>resp' d''. unsubscribe_handler no_faults cx d' identity = (resp', d'') \<longrightarrow>
         is_ok resp' \<and> get_subscription_handler J no_faults cx d'' identity = Inr \<lparr>sr_ok = True, sr_subscription = None\<rparr>)"
  using assms(3)
proof (rule subscribe_handler_Inr)
  let ?s = "server_id cx" and ?p = "pf_pseudonym_id identity"
  fix a scope r info
  assume agent: "active_agent d ?s ?p = Some a" "ar_scope a = scope_to_string scope" "scope \<noteq> VrpTransferScope.NoTransfer"
    and up: "upsert_subscription now ?s ?p (strings_to_json J filters) fed d = Inr d'"
    and r: "first_where (is_subscription ?s ?p) (subscription_rows d') = Some r"
    and info: "subscription_info J ?p r = Inr info" and resp: "resp = \<lparr>sr_ok = True, sr_subscription = Some info\<rparr>"
  note upsert = upsert_subscription_Inr [OF assms(2) up]
  have row: "rs_filters r = strings_to_json J filters" "rs_federated r = fed"
    using upsert(2) r by simp_all
  have "strings_from_json J (strings_to_json J filters) = Some filters" using assms(1) by (simp add: rtx_json_laws_def)
  then have fields: "si_domain_filters info = filters" "si_accept_federated info = fed" "si_subscriber_pseudonym info = ?p"
    using info unfolding subscription_info_Inr row by simp_all
  have get: "get_subscription_handler J no_faults cx d' identity = Inr resp"
    using r info resp by (simp add: get_subscription_handler_def Let_def)
  have found: "count_where (is_subscription ?s ?p) (subscription_rows d') \<noteq> 0"
    using first_where_Some [OF r] unfolding count_where_0 by blast
  have "is_ok resp' \<and> get_subscription_handler J no_faults cx d'' identity = Inr \<lparr>sr_ok = True, sr_subscription = None\<rparr>"
    if u: "unsubscribe_handler no_faults cx d' identity = (resp', d'')" for resp' d''
  proof -
    have ok: "is_ok resp'" using u found by (auto simp: unsubscribe_handler_def Let_def)
    then obtain x where x: "resp' = Inr x" by (cases resp') simp_all
    have "first_where (is_subscription ?s ?p) (subscription_rows d'') = None"
      using u unfolding x by (rule unsubscribe_none)
    then show ?thesis using ok by (simp add: get_subscription_handler_def Let_def)
  qed
  then show ?thesis
    using upsert(1,3) agent get fields resp by (intro conjI exI allI impI) (assumption | simp)+
qed

theorem subscription_lifecycle_witness:
  "\<exists>resp d' info. subscribe_handler demo_rtx_json no_faults 9 demo_context demo_exchange (demo_sender ''p'') [''a'', ''b''] True = (Inr resp, d')
     \<and> sr_subscription resp = Some info \<and> si_domain_filters info = [''a'', ''b'']"
proof -
  obtain res d' where s: "subscribe_handler demo_rtx_json no_faults 9 demo_context demo_exchange (demo_sender ''p'') [''a'', ''b''] True
      = (res, d')"
    by (cases "subscribe_handler demo_rtx_json no_faults 9 demo_context demo_exchange (demo_sender ''p'') [''a'', ''b''] True")
  have "is_ok res"
    using s by (auto simp: subscribe_handler_def publish_defs Let_def upsert_subscription_def is_subscription_def subscription_info_def
      less_VrpTransferScope_def less_eq_VrpTransferScope_def simp del: enc.simps scope_to_string.simps)
  then obtain resp where resp: "res = Inr resp" by (cases res) simp_all
  have ok: "subscriptions_ok demo_exchange"
    by (simp add: subscriptions_ok_def demo_exchange_def auto_wf_def)
  from subscription_lifecycle [OF demo_rtx_laws ok s [unfolded resp]]
  have "\<exists>info. sr_subscription resp = Some info \<and> si_domain_filters info = [''a'', ''b'']" by blast
  then show ?thesis using s resp by blast
qed

section \<open>The audit queries\<close>

definition all_transfers :: TransferLogQuery where
  "all_transfers = \<lparr>tq_bundle_id = None, tq_source = None, tq_destination = None, tq_since = None, tq_until = None,
     tq_limit = None, tq_offset = None\<rparr>"

lemma sum_count_where:
  "distinct ks \<Longrightarrow> f ` set rs \<subseteq> set ks \<Longrightarrow> sum_list (map (\<lambda>k. count_where (\<lambda>r. f r = k) rs) ks) = length rs"
proof (induction rs)
  case (Cons r rs)
  have "sum_list (map (\<lambda>k. count_where (\<lambda>x. f x = k) (r # rs)) ks)
      = sum_list (map (\<lambda>k. (if k = f r then 1 else 0) + count_where (\<lambda>x. f x = k) rs) ks)"
    by (intro arg_cong [of _ _ sum_list] map_cong refl) (simp add: count_where_def)
  also have "\<dots> = sum_list (map (\<lambda>k. if k = f r then 1 else 0) ks) + length rs"
    using Cons by (simp add: sum_list_addf)
  also have "sum_list (map (\<lambda>k. if k = f r then 1 else (0::nat)) ks) = 1"
    using Cons.prems by (simp add: sum_list_distinct_conv_sum_set)
  finally show ?case by simp
qed (simp add: count_where_def)

lemma mset_scope_breakdown:
  "mset (scope_breakdown rs) = mset (map (\<lambda>s. (s, count_where (\<lambda>r. rl_scope r = s) rs)) (sort (remdups (map rl_scope rs))))"
  by (simp add: scope_breakdown_def)

lemma scope_breakdown_total: "sum_list (map snd (scope_breakdown rs)) = length rs"
proof -
  have "sum_list (map snd (scope_breakdown rs)) = sum_mset (image_mset snd (mset (scope_breakdown rs)))"
    by (simp add: sum_mset_sum_list [symmetric])
  also have "\<dots> = sum_list (map (\<lambda>s. count_where (\<lambda>r. rl_scope r = s) rs) (sort (remdups (map rl_scope rs))))"
    unfolding mset_scope_breakdown by (simp add: sum_mset_sum_list [symmetric] image_mset.compositionality comp_def)
  also have "\<dots> = length rs" by (rule sum_count_where) simp_all
  finally show ?thesis .
qed

text \<open>
  The two audit queries agree and the page is exact: only moderators get an answer; the
  unfiltered listing and the summary count the same transfers of this server, the breakdown by
  scope adds up to that count, no destination or source is counted more often than there
  are transfers, and a page has at most 500 entries, exactly those of the requested window,
  newest first.
\<close>

theorem governance_consistent:
  assumes "governance_summary_handler flt cx d identity = Inr sm"
    and "governance_transfers_handler fmt flt' cx d identity (all_transfers\<lparr>tq_limit := k, tq_offset := off\<rparr>) = Inr page"
  shows "can_moderate (pf_capabilities identity)
    \<and> total_transfers sm = tl_total page \<and> sum_list (map snd (by_scope sm)) = tl_total page
    \<and> unique_bundles sm \<le> tl_total page \<and> unique_sources sm \<le> tl_total page
    \<and> unique_destinations sm \<le> tl_total page \<and> redacted_transfers sm \<le> tl_total page
    \<and> tl_limit page \<le> 500
    \<and> length (tl_transfers page) = min (unat (tl_limit page)) (tl_total page - unat (tl_offset page))
    \<and> sorted_wrt (\<ge>) (map te_id (tl_transfers page))"
proof -
  let ?rows = "filter (\<lambda>r. rl_server r = server_id cx) (log_rows d)"
  have mod: "can_moderate (pf_capabilities identity)"
    using assms(1) by (simp add: governance_summary_handler_def split: if_split_asm)
  have sm: "total_transfers sm = length ?rows" "by_scope sm = scope_breakdown ?rows"
    "unique_bundles sm = count_distinct rl_bundle ?rows" "unique_sources sm = count_distinct rl_source ?rows"
    "unique_destinations sm = count_distinct (\<lambda>r. the (rl_destination r)) (filter (\<lambda>r. rl_destination r \<noteq> None) ?rows)"
    "redacted_transfers sm = count_where (\<lambda>r. rl_redactions r \<noteq> None) ?rows"
    using assms(1) mod unfolding governance_summary_handler_def Let_def
    by (auto simp add: and_then_Inr)
  let ?limit = "min (case k of Some n \<Rightarrow> n | None \<Rightarrow> 50) 500" and ?offset = "case off of Some n \<Rightarrow> n | None \<Rightarrow> 0"
  have "transfer_matches fmt (server_id cx) (all_transfers\<lparr>tq_limit := k, tq_offset := off\<rparr>) = (\<lambda>r. rl_server r = server_id cx)"
    by (rule ext) (simp add: transfer_matches_def all_transfers_def)
  then have page: "tl_total page = length ?rows" "tl_limit page = ?limit" "tl_offset page = ?offset"
    "tl_transfers page = map log_entry (take (unat ?limit) (drop (unat ?offset) (order_by_desc rl_id ?rows)))"
    using assms(2) mod unfolding governance_transfers_handler_def Let_def
    by (auto simp add: and_then_Inr all_transfers_def)
  have "map te_id (tl_transfers page) = take (unat ?limit) (drop (unat ?offset) (map rl_id (order_by_desc rl_id ?rows)))"
    unfolding page by (simp add: log_entry_def take_map drop_map)
  then have "sorted_wrt (\<ge>) (map te_id (tl_transfers page))"
    using sorted_order_by_desc [of rl_id ?rows] by (simp add: sorted_wrt_take sorted_wrt_drop)
  moreover have "length (tl_transfers page) = min (unat ?limit) (length ?rows - unat ?offset)"
    unfolding page by (simp add: min.commute)
  moreover have "count_distinct f rs \<le> length rs" for f and rs :: "rtx_log_row list"
    unfolding count_distinct_def using length_remdups_leq [of "map f rs"] by simp
  then have "unique_bundles sm \<le> length ?rows" "unique_sources sm \<le> length ?rows" "unique_destinations sm \<le> length ?rows"
    unfolding sm by (blast intro: le_trans length_filter_le)+
  moreover have "redacted_transfers sm \<le> length ?rows" unfolding sm count_where_def by (rule length_filter_le)
  ultimately show ?thesis using mod scope_breakdown_total [of ?rows] page(1-3) sm(1,2) by simp
qed

theorem governance_consistent_witness:
  "\<exists>sm page. governance_summary_handler no_faults demo_context demo_exchange (demo_sender ''p'') = Inr sm
     \<and> governance_transfers_handler (\<lambda>_. []) no_faults demo_context demo_exchange (demo_sender ''p'')
         (all_transfers\<lparr>tq_limit := Some 1000, tq_offset := None\<rparr>) = Inr page
     \<and> total_transfers sm = tl_total page \<and> tl_limit page \<le> 500"
proof -
  obtain sm page where h: "governance_summary_handler no_faults demo_context demo_exchange (demo_sender ''p'') = Inr sm"
    "governance_transfers_handler (\<lambda>_. []) no_faults demo_context demo_exchange (demo_sender ''p'')
       (all_transfers\<lparr>tq_limit := Some 1000, tq_offset := None\<rparr>) = Inr page"
    by (simp add: governance_summary_handler_def governance_transfers_handler_def demo_sender_def Let_def)
  with governance_consistent [OF h] show ?thesis by blast
qed

end
