(* ===== verification/Annex_Zk.thy ===== *)
theory Annex_Zk
  imports Annex_Identity
begin

text \<open>
  \<open>annex-identity/src/zk.rs\<close>: reading proofs, verifying keys and public signals in SnarkJS's
  JSON, with the checks that keep invalid curve points out. The curve arithmetic and the
  Groth16 verifier (\<open>ark_bn254\<close>, \<open>ark_ec\<close>, \<open>ark_groth16\<close>) and \<open>serde_json\<close> are the fields
  of the record \<open>snark\<close>; a point of the first group has coordinates in the base field, one of
  the second in pairs of it.
\<close>

datatype ZkError =
    JsonError
  | FieldElementError
  | PointError
  | VerificationFailed
  | ArkError
  | SnarkError string

record SnarkJsProof =
  pi_a :: "string list"
  pi_b :: "string list list"
  pi_c :: "string list"

record SnarkJsVKey =
  vk_alpha_1 :: "string list"
  vk_beta_2 :: "string list list"
  vk_gamma_2 :: "string list list"
  vk_delta_2 :: "string list list"
  vk_ic :: "string list list"

record ('g, 'h) Proof =
  proof_a :: 'g
  proof_b :: 'h
  proof_c :: 'g

record ('g, 'h) VerifyingKey =
  alpha_g1 :: 'g
  beta_g2 :: 'h
  gamma_g2 :: 'h
  delta_g2 :: 'h
  gamma_abc_g1 :: "'g list"

record ('f, 'q, 'g, 'h) snark =
  fr_from_str :: "string \<Rightarrow> 'f option"
  fq_from_str :: "string \<Rightarrow> 'q option"
  g1_point :: "'q \<Rightarrow> 'q \<Rightarrow> 'g"
  g1_is_zero :: "'g \<Rightarrow> bool"
  g1_on_curve :: "'g \<Rightarrow> bool"
  g1_in_subgroup :: "'g \<Rightarrow> bool"
  g1_generator :: 'g
  g2_point :: "'q \<times> 'q \<Rightarrow> 'q \<times> 'q \<Rightarrow> 'h"
  g2_is_zero :: "'h \<Rightarrow> bool"
  g2_on_curve :: "'h \<Rightarrow> bool"
  g2_in_subgroup :: "'h \<Rightarrow> bool"
  g2_generator :: 'h
  groth16_verify :: "('g, 'h) VerifyingKey \<Rightarrow> 'f list \<Rightarrow> ('g, 'h) Proof \<Rightarrow> string + bool"
  proof_from_json :: "string \<Rightarrow> SnarkJsProof option"
  vkey_from_json :: "string \<Rightarrow> SnarkJsVKey option"
  signals_from_json :: "string \<Rightarrow> string list option"

section \<open>Field elements\<close>

definition parse_fr :: "('f, 'q, 'g, 'h) snark \<Rightarrow> string \<Rightarrow> ZkError + 'f" where
  "parse_fr Z s = ok_or (fr_from_str Z s) FieldElementError"

definition parse_fr_from_hex :: "'f crypto \<Rightarrow> string \<Rightarrow> ZkError + 'f" where
  "parse_fr_from_hex C hex = and_then (ok_or (hex_decode C hex) FieldElementError) (\<lambda>bytes. Inr (fr_of_bytes C bytes))"

definition parse_fq :: "('f, 'q, 'g, 'h) snark \<Rightarrow> string \<Rightarrow> ZkError + 'q" where
  "parse_fq Z s = ok_or (fq_from_str Z s) FieldElementError"

section \<open>Points\<close>

definition validate_g1 :: "('f, 'q, 'g, 'h) snark \<Rightarrow> 'g \<Rightarrow> ZkError + unit" where
  "validate_g1 Z p =
     (if g1_is_zero Z p then Inr ()
      else if \<not> g1_on_curve Z p then Inl PointError
      else if \<not> g1_in_subgroup Z p then Inl PointError
      else Inr ())"

definition validate_g2 :: "('f, 'q, 'g, 'h) snark \<Rightarrow> 'h \<Rightarrow> ZkError + unit" where
  "validate_g2 Z p =
     (if g2_is_zero Z p then Inr ()
      else if \<not> g2_on_curve Z p then Inl PointError
      else if \<not> g2_in_subgroup Z p then Inl PointError
      else Inr ())"

definition parse_g1 :: "('f, 'q, 'g, 'h) snark \<Rightarrow> string list \<Rightarrow> ZkError + 'g" where
  "parse_g1 Z v =
     (if length v < 2 then Inl PointError
      else and_then (parse_fq Z (v ! 0)) (\<lambda>x. and_then (parse_fq Z (v ! 1)) (\<lambda>y.
        let point = g1_point Z x y in and_then (validate_g1 Z point) (\<lambda>_. Inr point))))"

definition parse_g2 :: "('f, 'q, 'g, 'h) snark \<Rightarrow> string list list \<Rightarrow> ZkError + 'h" where
  "parse_g2 Z v =
     (if length v < 2 then Inl PointError
      else if length (v ! 0) < 2 \<or> length (v ! 1) < 2 then Inl PointError
      else and_then (parse_fq Z (v ! 0 ! 0)) (\<lambda>x_c0. and_then (parse_fq Z (v ! 0 ! 1)) (\<lambda>x_c1.
           and_then (parse_fq Z (v ! 1 ! 0)) (\<lambda>y_c0. and_then (parse_fq Z (v ! 1 ! 1)) (\<lambda>y_c1.
             let point = g2_point Z (x_c0, x_c1) (y_c0, y_c1)
             in and_then (validate_g2 Z point) (\<lambda>_. Inr point))))))"

section \<open>Proofs, keys, signals\<close>

definition parse_proof :: "('f, 'q, 'g, 'h) snark \<Rightarrow> string \<Rightarrow> ZkError + ('g, 'h) Proof" where
  "parse_proof Z json =
     and_then (ok_or (proof_from_json Z json) JsonError) (\<lambda>raw.
     and_then (parse_g1 Z (pi_a raw)) (\<lambda>a.
     and_then (parse_g2 Z (pi_b raw)) (\<lambda>b.
     and_then (parse_g1 Z (pi_c raw)) (\<lambda>c.
       Inr \<lparr>proof_a = a, proof_b = b, proof_c = c\<rparr>))))"

definition parse_verification_key :: "('f, 'q, 'g, 'h) snark \<Rightarrow> string \<Rightarrow> ZkError + ('g, 'h) VerifyingKey" where
  "parse_verification_key Z json =
     and_then (ok_or (vkey_from_json Z json) JsonError) (\<lambda>raw.
     and_then (parse_g1 Z (vk_alpha_1 raw)) (\<lambda>a.
     and_then (parse_g2 Z (vk_beta_2 raw)) (\<lambda>b.
     and_then (parse_g2 Z (vk_gamma_2 raw)) (\<lambda>g.
     and_then (parse_g2 Z (vk_delta_2 raw)) (\<lambda>d.
     and_then (collect_res (map (parse_g1 Z) (vk_ic raw))) (\<lambda>ic.
       Inr \<lparr>alpha_g1 = a, beta_g2 = b, gamma_g2 = g, delta_g2 = d, gamma_abc_g1 = ic\<rparr>))))))"

definition parse_public_signals :: "('f, 'q, 'g, 'h) snark \<Rightarrow> string \<Rightarrow> ZkError + 'f list" where
  "parse_public_signals Z json =
     and_then (ok_or (signals_from_json Z json) JsonError) (\<lambda>raw. collect_res (map (parse_fr Z) raw))"

definition verify_proof ::
  "('f, 'q, 'g, 'h) snark \<Rightarrow> ('g, 'h) VerifyingKey \<Rightarrow> ('g, 'h) Proof \<Rightarrow> 'f list \<Rightarrow> ZkError + bool" where
  "verify_proof Z vk pr public_inputs = map_err SnarkError (groth16_verify Z vk public_inputs pr)"

definition generate_dummy_vkey :: "('f, 'q, 'g, 'h) snark \<Rightarrow> ('g, 'h) VerifyingKey" where
  "generate_dummy_vkey Z = \<lparr>alpha_g1 = g1_generator Z, beta_g2 = g2_generator Z, gamma_g2 = g2_generator Z,
     delta_g2 = g2_generator Z, gamma_abc_g1 = replicate 2 (g1_generator Z)\<rparr>"

section \<open>Only valid points get in\<close>

definition g1_valid :: "('f, 'q, 'g, 'h) snark \<Rightarrow> 'g \<Rightarrow> bool" where
  "g1_valid Z p \<longleftrightarrow> g1_is_zero Z p \<or> g1_on_curve Z p \<and> g1_in_subgroup Z p"

definition g2_valid :: "('f, 'q, 'g, 'h) snark \<Rightarrow> 'h \<Rightarrow> bool" where
  "g2_valid Z p \<longleftrightarrow> g2_is_zero Z p \<or> g2_on_curve Z p \<and> g2_in_subgroup Z p"

lemma validate_Inr:
  "validate_g1 Z p = Inr u \<longleftrightarrow> g1_valid Z p" "validate_g2 Z q = Inr u \<longleftrightarrow> g2_valid Z q"
  by (auto simp: validate_g1_def g1_valid_def validate_g2_def g2_valid_def)

text \<open>The points a list of coordinates denotes: extra coordinates are ignored.\<close>

definition g1_denotes :: "('f, 'q, 'g, 'h) snark \<Rightarrow> string list \<Rightarrow> 'g \<Rightarrow> bool" where
  "g1_denotes Z v p \<longleftrightarrow> (\<exists>xs ys rest x y. v = xs # ys # rest \<and> fq_from_str Z xs = Some x \<and> fq_from_str Z ys = Some y
     \<and> p = g1_point Z x y)"

definition g2_denotes :: "('f, 'q, 'g, 'h) snark \<Rightarrow> string list list \<Rightarrow> 'h \<Rightarrow> bool" where
  "g2_denotes Z v p \<longleftrightarrow> (\<exists>a b r c e s rest x0 x1 y0 y1. v = (a # b # r) # (c # e # s) # rest
     \<and> fq_from_str Z a = Some x0 \<and> fq_from_str Z b = Some x1 \<and> fq_from_str Z c = Some y0 \<and> fq_from_str Z e = Some y1
     \<and> p = g2_point Z (x0, x1) (y0, y1))"

lemma two_or_more: "\<not> length v < 2 \<longleftrightarrow> (\<exists>x y r. v = x # y # r)"
  by (cases v; cases "tl v") auto

lemma parse_g1_Inr: "parse_g1 Z v = Inr p \<longleftrightarrow> g1_denotes Z v p \<and> g1_valid Z p"
proof (cases "length v < 2")
  case True
  then show ?thesis by (auto simp: parse_g1_def g1_denotes_def)
next
  case False
  then obtain x y r where v: "v = x # y # r" unfolding two_or_more by blast
  show ?thesis by (auto simp: parse_g1_def g1_denotes_def v parse_fq_def Let_def res_simps validate_Inr)
qed

lemma parse_g2_Inr: "parse_g2 Z v = Inr p \<longleftrightarrow> g2_denotes Z v p \<and> g2_valid Z p"
proof (cases "length v < 2 \<or> length (v ! 0) < 2 \<or> length (v ! 1) < 2")
  case True
  then show ?thesis by (auto simp: parse_g2_def g2_denotes_def)
next
  case False
  then obtain w z r where v: "v = w # z # r" using two_or_more [of v] by blast
  obtain a b s c e t where wz: "w = a # b # s" "z = c # e # t"
    using False two_or_more [of w] two_or_more [of z] unfolding v by auto
  show ?thesis unfolding v wz by (auto simp: parse_g2_def g2_denotes_def parse_fq_def Let_def res_simps validate_Inr)
qed

lemma collect_res_Inr: "collect_res xs = Inr ys \<longleftrightarrow> list_all2 (\<lambda>x y. x = Inr y) xs ys"
  by (induction xs arbitrary: ys) (auto simp: res_simps list_all2_Cons1)

text \<open>
  C39. No invalid curve point gets into the verifier: a proof is read exactly when its JSON has
  the expected shape and its points are the identity or lie on their curve and in the
  subgroup of prime order, and the same holds for every point of a verifying key; the points
  are the ones the coordinates denote.
\<close>

theorem parsed_points_valid:
  "(parse_proof Z json = Inr pr \<longleftrightarrow>
     (\<exists>raw. proof_from_json Z json = Some raw
        \<and> g1_denotes Z (pi_a raw) (proof_a pr) \<and> g2_denotes Z (pi_b raw) (proof_b pr) \<and> g1_denotes Z (pi_c raw) (proof_c pr)
        \<and> g1_valid Z (proof_a pr) \<and> g2_valid Z (proof_b pr) \<and> g1_valid Z (proof_c pr)))
   \<and> (parse_verification_key Z key = Inr vk \<longleftrightarrow>
     (\<exists>raw. vkey_from_json Z key = Some raw
        \<and> g1_denotes Z (vk_alpha_1 raw) (alpha_g1 vk) \<and> g1_valid Z (alpha_g1 vk)
        \<and> g2_denotes Z (vk_beta_2 raw) (beta_g2 vk) \<and> g2_valid Z (beta_g2 vk)
        \<and> g2_denotes Z (vk_gamma_2 raw) (gamma_g2 vk) \<and> g2_valid Z (gamma_g2 vk)
        \<and> g2_denotes Z (vk_delta_2 raw) (delta_g2 vk) \<and> g2_valid Z (delta_g2 vk)
        \<and> list_all2 (\<lambda>v p. g1_denotes Z v p \<and> g1_valid Z p) (vk_ic raw) (gamma_abc_g1 vk)))"
proof
  show "parse_proof Z json = Inr pr \<longleftrightarrow>
     (\<exists>raw. proof_from_json Z json = Some raw
        \<and> g1_denotes Z (pi_a raw) (proof_a pr) \<and> g2_denotes Z (pi_b raw) (proof_b pr) \<and> g1_denotes Z (pi_c raw) (proof_c pr)
        \<and> g1_valid Z (proof_a pr) \<and> g2_valid Z (proof_b pr) \<and> g1_valid Z (proof_c pr))"
    unfolding parse_proof_def and_then_Inr ok_or_Inr parse_g1_Inr parse_g2_Inr
    by (cases pr) auto
next
  have ic: "collect_res (map (parse_g1 Z) vs) = Inr ps \<longleftrightarrow> list_all2 (\<lambda>v p. g1_denotes Z v p \<and> g1_valid Z p) vs ps" for vs ps
    by (simp add: collect_res_Inr list_all2_map1 parse_g1_Inr)
  show "parse_verification_key Z key = Inr vk \<longleftrightarrow>
     (\<exists>raw. vkey_from_json Z key = Some raw
        \<and> g1_denotes Z (vk_alpha_1 raw) (alpha_g1 vk) \<and> g1_valid Z (alpha_g1 vk)
        \<and> g2_denotes Z (vk_beta_2 raw) (beta_g2 vk) \<and> g2_valid Z (beta_g2 vk)
        \<and> g2_denotes Z (vk_gamma_2 raw) (gamma_g2 vk) \<and> g2_valid Z (gamma_g2 vk)
        \<and> g2_denotes Z (vk_delta_2 raw) (delta_g2 vk) \<and> g2_valid Z (delta_g2 vk)
        \<and> list_all2 (\<lambda>v p. g1_denotes Z v p \<and> g1_valid Z p) (vk_ic raw) (gamma_abc_g1 vk))"
    unfolding parse_verification_key_def and_then_Inr ok_or_Inr parse_g1_Inr parse_g2_Inr ic
    by (cases vk) auto
qed

section \<open>A concrete instance\<close>

text \<open>A concrete library for the witnesses: points are numbers, every one valid, and every proof verifies.\<close>

definition demo_snark :: "(u8, nat, nat, nat) snark" where
  "demo_snark = \<lparr>fr_from_str = (\<lambda>_. Some 0), fq_from_str = (\<lambda>s. Some (length s)),
     g1_point = (+), g1_is_zero = (\<lambda>_. False), g1_on_curve = (\<lambda>_. True), g1_in_subgroup = (\<lambda>_. True), g1_generator = 1,
     g2_point = (\<lambda>a b. fst a + fst b), g2_is_zero = (\<lambda>_. False), g2_on_curve = (\<lambda>_. True), g2_in_subgroup = (\<lambda>_. True),
     g2_generator = 1, groth16_verify = (\<lambda>_ _ _. Inr True),
     proof_from_json = (\<lambda>_. Some \<lparr>pi_a = [[], []], pi_b = [[[], []], [[], []]], pi_c = [[], []]\<rparr>),
     vkey_from_json = (\<lambda>_. None), signals_from_json = (\<lambda>_. None)\<rparr>"

end
