(* ===== verification/Annex_Federation_Api.thy ===== *)
theory Annex_Federation_Api
  imports Annex_Rtx_Api Annex_Zk Annex_Merkle Annex_Observe Annex_Graph Annex_Channels
begin

text \<open>
  The handlers of \<open>annex-server/src/api_federation.rs\<close>: relaying and receiving messages,
  handshakes, attestation of memberships, federated channels and the receiving side of the
  knowledge exchange, with the request types of \<open>annex-federation/src/types.rs\<close>.

  The record \<open>peer_io\<close> holds what is not in the repository: the HTTP client (a request either
  fails or answers with a status and a body), the two ways a body is read as JSON, and
  Ed25519. Texts of errors that quote a library keep the fixed part only; locks are not
  poisoned.
\<close>

section \<open>Errors\<close>

datatype FederationError =
    FeHandshake HandshakeError
  | FeDbError rusqlite_error
  | UnknownRemote string
  | LockPoisoned
  | FeInvalidSignature string
  | FeNetwork
  | RemoteServer nat
  | ZkVerification string
  | IdentityDerivation IdentityError
  | FeChannel ChannelError
  | FeForbidden string
  | FeSerialization

fun federation_status :: "FederationError \<Rightarrow> nat" where
  "federation_status (FeHandshake UnknownRemoteInstance) = 404"
| "federation_status (UnknownRemote _) = 404"
| "federation_status (FeForbidden _) = 403"
| "federation_status (FeInvalidSignature _) = 401"
| "federation_status (ZkVerification _) = 400"
| "federation_status (IdentityDerivation _) = 400"
| "federation_status FeSerialization = 400"
| "federation_status (FeHandshake (Vrp _)) = 500"
| "federation_status (FeHandshake (DbError _)) = 400"
| "federation_status (FeChannel (ChNotFound _)) = 404"
| "federation_status (FeChannel (ChDatabase _)) = 500"
| "federation_status (FeChannel ChJson) = 500"
| "federation_status (FeDbError _) = 500"
| "federation_status LockPoisoned = 500"
| "federation_status FeNetwork = 500"
| "federation_status (RemoteServer _) = 500"

section \<open>Peers\<close>

datatype http_reply = HttpError | HttpReply nat string

datatype json_value = JNull | JNum nat | JStr string

record peer_io =
  http_get :: "string \<Rightarrow> http_reply"
  json_object :: "string \<Rightarrow> (string \<times> json_value) list option"
  key_ok :: "bytes \<Rightarrow> bool"
  ed_verify :: "bytes \<Rightarrow> string \<Rightarrow> bytes \<Rightarrow> bool"

definition is_success :: "nat \<Rightarrow> bool" where
  "is_success status \<longleftrightarrow> 200 \<le> status \<and> status < 300"

definition fed_call :: "faults \<Rightarrow> nat \<Rightarrow> FederationError + unit" where
  "fed_call flt n = map_err FeDbError (guard_fault flt n)"

definition channel_call :: "faults \<Rightarrow> nat \<Rightarrow> FederationError + unit" where
  "channel_call flt n = map_err (\<lambda>e. FeChannel (ChDatabase e)) (guard_fault flt n)"

definition known_instance :: "db \<Rightarrow> string \<Rightarrow> FederationError + instance_row" where
  "known_instance d url = ok_or (first_where (\<lambda>i. in_base_url i = url) (instances d)) (UnknownRemote url)"

definition require_active :: "string \<Rightarrow> instance_row \<Rightarrow> FederationError + unit" where
  "require_active url i =
     (if in_status i \<noteq> ''ACTIVE'' then Inl (FeForbidden (''Instance '' @ url @ '' is not active'')) else Inr ())"

definition require_agreement :: "db \<Rightarrow> string \<Rightarrow> instance_row \<Rightarrow> FederationError + unit" where
  "require_agreement d url i =
     (if exists_where (\<lambda>a. ag_remote a = in_id i \<and> ag_active a) (agreement_rows d) then Inr ()
      else Inl (FeForbidden (''No active federation agreement with '' @ url)))"

text \<open>Decoding of key and signature and the verification, in the order of the code.\<close>

definition verify_signature :: "'f crypto \<Rightarrow> peer_io \<Rightarrow> string \<Rightarrow> string \<Rightarrow> string \<Rightarrow> FederationError + unit" where
  "verify_signature C P public_key_hex payload signature_hex =
     and_then (ok_or (hex_decode C public_key_hex) (FeInvalidSignature ''Invalid public key hex'')) (\<lambda>key.
     and_then (ok_or (hex_decode C signature_hex) (FeInvalidSignature ''Invalid signature hex'')) (\<lambda>sig.
       if length key \<noteq> 32 then Inl (FeInvalidSignature ''Invalid public key length'')
       else if \<not> key_ok P key then Inl (FeInvalidSignature [])
       else if length sig \<noteq> 64 then Inl (FeInvalidSignature ''Invalid signature length'')
       else if \<not> ed_verify P key payload sig then Inl (FeInvalidSignature [])
       else Inr ()))"

section \<open>Attestation references\<close>

text \<open>\<open>str::rsplit_once\<close>.\<close>

definition rsplit_once :: "char \<Rightarrow> string \<Rightarrow> (string \<times> string) option" where
  "rsplit_once c s =
     (case dropWhile (\<lambda>x. x \<noteq> c) (rev s) of
        [] \<Rightarrow> None
      | _ # before \<Rightarrow> Some (rev before, rev (takeWhile (\<lambda>x. x \<noteq> c) (rev s))))"

definition parse_attestation_ref :: "string \<Rightarrow> FederationError + string \<times> string" where
  "parse_attestation_ref r =
     (case rsplit_once (CHR '':'') r of
        Some (topic, commitment) \<Rightarrow>
          if topic \<noteq> [] \<and> commitment \<noteq> [] then Inr (commitment, topic)
          else Inl (FeForbidden ''Invalid attestation ref format'')
      | None \<Rightarrow> Inl (FeForbidden ''Invalid attestation ref format''))"

definition legacy_match :: "'f crypto \<Rightarrow> string list \<Rightarrow> nullifier_row \<Rightarrow> (string \<times> string) option" where
  "legacy_match C commitments n =
     (case List.find (\<lambda>c. derive_nullifier_hex C c (nf_topic n) = Inr (nf_nullifier n)) commitments of
        Some c \<Rightarrow> Some (c, nf_topic n) | None \<Rightarrow> None)"

definition find_commitment_for_pseudonym ::
  "'f crypto \<Rightarrow> faults \<Rightarrow> db \<Rightarrow> string \<Rightarrow> rusqlite_error + (string \<times> string) option" where
  "find_commitment_for_pseudonym C flt d p =
     and_then (guard_fault flt 0) (\<lambda>_.
       case first_where (\<lambda>r. nf_pseudonym r = Some p \<and> nf_commitment r \<noteq> None) (zk_nullifiers d) of
         Some r \<Rightarrow> Inr (Some (the (nf_commitment r), nf_topic r))
       | None \<Rightarrow>
           and_then (guard_fault flt 1) (\<lambda>_.
             let candidates = filter (\<lambda>r. nf_pseudonym r = None \<and> derive_pseudonym_id C (nf_topic r) (nf_nullifier r) = Inr p)
                   (zk_nullifiers d)
             in if candidates = [] then Inr None
                else and_then (guard_fault flt 2) (\<lambda>_.
                  case List.map_filter (legacy_match C (map vi_commitment (vrp_identities d))) candidates of
                    [] \<Rightarrow> Inr None
                  | x # _ \<Rightarrow> Inr (Some x))))"

section \<open>Messages\<close>

record FederatedMessageEnvelope =
  fm_message_id :: string
  fm_channel_id :: string
  fm_content :: string
  fm_sender_pseudonym :: string
  fm_originating_server :: string
  fm_attestation_ref :: string
  fm_signature :: string
  fm_created_at :: string

definition message_payload :: "FederatedMessageEnvelope \<Rightarrow> string" where
  "message_payload e = fm_message_id e @ newline @ fm_channel_id e @ newline @ fm_content e @ newline
     @ fm_sender_pseudonym e @ newline @ fm_originating_server e @ newline @ fm_attestation_ref e @ newline @ fm_created_at e"

definition attestation_of :: "'f crypto \<Rightarrow> faults \<Rightarrow> db \<Rightarrow> string \<Rightarrow> string" where
  "attestation_of C flt d sender =
     (case find_commitment_for_pseudonym C flt d sender of
        Inr (Some (commitment, topic)) \<Rightarrow> topic @ '':'' @ commitment
      | _ \<Rightarrow> ''annex:server:v1:unknown'')"

text \<open>
  The requests that the background task sends; \<open>sign\<close> gives the hex text of the signature and
  \<open>fmt\<close> the text of a time.
\<close>

definition relay_message ::
  "'f crypto \<Rightarrow> (string \<Rightarrow> string) \<Rightarrow> (time \<Rightarrow> string) \<Rightarrow> faults \<Rightarrow> bool \<Rightarrow> app_context \<Rightarrow> db \<Rightarrow> string \<Rightarrow> Message
     \<Rightarrow> (string \<times> FederatedMessageEnvelope) list" where
  "relay_message C sign fmt flt client_ok cx d channel_id msg =
     (case and_then (guard_fault flt 0) (\<lambda>_. guard_fault flt 1) of
        Inl _ \<Rightarrow> []
      | Inr _ \<Rightarrow>
          let peers = relay_peers d (server_id cx);
              unsigned = \<lparr>fm_message_id = mg_message_id msg, fm_channel_id = channel_id, fm_content = mg_content msg,
                fm_sender_pseudonym = mg_sender_pseudonym msg, fm_originating_server = public_url cx,
                fm_attestation_ref = attestation_of C (\<lambda>n. flt (n + 2)) d (mg_sender_pseudonym msg),
                fm_signature = [], fm_created_at = fmt (mg_created_at msg)\<rparr>;
              envelope = unsigned\<lparr>fm_signature := sign (message_payload unsigned)\<rparr>
          in if \<not> client_ok then []
             else map (\<lambda>(base_url, _). (base_url @ ''/api/federation/messages'', envelope))
                    (filter (\<lambda>(_, scope). scope \<noteq> ''NO_TRANSFER'') peers))"

text \<open>
  The root of a server, its JSON object with the member names of the \<open>serde\<close> attributes, and
  how the object is read: as a \<open>GetRootResponse\<close> of which the root is used, or member by member.
\<close>

record GetRootResponse =
  rr_root_hex :: string
  rr_leaf_count :: nat
  rr_updated_at :: "time option"

definition root_to_json :: "(time \<Rightarrow> string) \<Rightarrow> GetRootResponse \<Rightarrow> (string \<times> json_value) list" where
  "root_to_json fmt r = [(''rootHex'', JStr (rr_root_hex r)), (''leafCount'', JNum (rr_leaf_count r)),
     (''updatedAt'', case rr_updated_at r of Some t \<Rightarrow> JStr (fmt t) | None \<Rightarrow> JNull)]"

definition root_response :: "peer_io \<Rightarrow> string \<Rightarrow> string option" where
  "root_response P body =
     (case json_object P body of
        None \<Rightarrow> None
      | Some members \<Rightarrow>
          (case (map_of members ''rootHex'', map_of members ''leafCount'', map_of members ''updatedAt'') of
             (Some (JStr r), Some (JNum _), None) \<Rightarrow> Some r
           | (Some (JStr r), Some (JNum _), Some JNull) \<Rightarrow> Some r
           | (Some (JStr r), Some (JNum _), Some (JStr _)) \<Rightarrow> Some r
           | _ \<Rightarrow> None))"

definition root_field :: "peer_io \<Rightarrow> string \<Rightarrow> string option" where
  "root_field P body =
     (case json_object P body of
        None \<Rightarrow> None
      | Some members \<Rightarrow> (case map_of members ''root_hex'' of Some (JStr s) \<Rightarrow> Some s | _ \<Rightarrow> None))"

text \<open>
  The check for stale attestations: only an answer with another root refuses the message.
\<close>

definition remote_root :: "peer_io \<Rightarrow> string \<Rightarrow> string option" where
  "remote_root P server =
     (case http_get P (server @ ''/api/federation/vrp-root'') of
        HttpError \<Rightarrow> None
      | HttpReply status body \<Rightarrow> if is_success status then root_field P body else None)"

definition check_stale :: "peer_io \<Rightarrow> string \<Rightarrow> string \<Rightarrow> FederationError + unit" where
  "check_stale P server stored =
     (if stored = [] then Inr ()
      else case remote_root P server of
             Some current \<Rightarrow>
               if current \<noteq> stored then Inl (FeForbidden ''attestation stale, re-verification required'') else Inr ()
           | None \<Rightarrow> Inr ())"

definition receive_checks ::
  "'f crypto \<Rightarrow> peer_io \<Rightarrow> serde \<Rightarrow> faults \<Rightarrow> app_context \<Rightarrow> db \<Rightarrow> FederatedMessageEnvelope \<Rightarrow> FederationError + string" where
  "receive_checks C P S flt cx d e =
     (let url = fm_originating_server e in
      and_then (fed_call flt 0) (\<lambda>_. and_then (fed_call flt 1) (\<lambda>_.
      and_then (known_instance d url) (\<lambda>i.
      and_then (require_active url i) (\<lambda>_.
      and_then (fed_call flt 2) (\<lambda>_.
      and_then (require_agreement d url i) (\<lambda>_.
      and_then (verify_signature C P (in_public_key i) (message_payload e) (fm_signature e)) (\<lambda>_.
      and_then (parse_attestation_ref (fm_attestation_ref e)) (\<lambda>(commitment, topic).
      and_then (fed_call flt 3) (\<lambda>_.
      and_then (ok_or (first_where (\<lambda>r. fi_remote r = in_id i \<and> fi_commitment r = commitment) (auto_rows (federated_identities d)))
        (FeForbidden (''Identity with commitment '' @ commitment @ '' not attested''))) (\<lambda>r.
      and_then (check_stale P url (case fi_root r of Some x \<Rightarrow> x | None \<Rightarrow> [])) (\<lambda>_.
      and_then (channel_call flt 4) (\<lambda>_.
      and_then (map_err FeChannel (get_channel S d (fm_channel_id e))) (\<lambda>channel.
      if cn_federation_scope channel \<noteq> Federated
      then Inl (FeForbidden (''Channel '' @ fm_channel_id e @ '' is not federated''))
      else and_then (channel_call flt 5) (\<lambda>_.
        if \<not> is_member d (server_id cx) (fm_channel_id e) (fi_pseudonym r)
        then Inl (FeForbidden (''User '' @ fi_pseudonym r @ '' is not a member of channel '' @ fm_channel_id e))
        else Inr (fi_pseudonym r))))))))))))))))"

text \<open>The messages that are broadcast, with their channel, are part of the result.\<close>

definition receive_federated_message_handler ::
  "'f crypto \<Rightarrow> peer_io \<Rightarrow> serde \<Rightarrow> faults \<Rightarrow> time \<Rightarrow> app_context \<Rightarrow> db \<Rightarrow> FederatedMessageEnvelope
     \<Rightarrow> (FederationError + (string \<times> Message) list) \<times> db" where
  "receive_federated_message_handler C P S flt now cx d e =
     (case and_then (receive_checks C P S flt cx d e) (\<lambda>p. and_then (channel_call flt 6) (\<lambda>_. Inr p)) of
        Inl err \<Rightarrow> (Inl err, d)
      | Inr pseudonym \<Rightarrow>
          (case create_message S now d \<lparr>mp_channel_id = fm_channel_id e, mp_message_id = fm_message_id e,
                  mp_sender_pseudonym = pseudonym, mp_content = fm_content e, mp_reply_to_message_id = None\<rparr> of
             (Inr msg, d') \<Rightarrow> (Inr [(fm_channel_id e, msg)], d')
           | (Inl (ChDatabase (SqliteFailure code)), d') \<Rightarrow>
               if constraint_violation code then (Inr [], d')
               else (Inl (FeChannel (ChDatabase (SqliteFailure code))), d')
           | (Inl err, d') \<Rightarrow> (Inl (FeChannel err), d')))"

section \<open>Handshake and root\<close>

text \<open>The event that the observers receive is part of the result.\<close>

definition federation_handshake_handler ::
  "'f crypto \<Rightarrow> unicode \<Rightarrow> fed_json \<Rightarrow> (EventPayload \<Rightarrow> string option) \<Rightarrow> u64 option \<Rightarrow> faults \<Rightarrow> time \<Rightarrow> app_context
     \<Rightarrow> ServerPolicy \<Rightarrow> db \<Rightarrow> string \<Rightarrow> VrpFederationHandshake
     \<Rightarrow> (FederationError + VrpValidationReport \<times> PublicEvent option) \<times> db" where
  "federation_handshake_handler C U J event_json clock flt now cx policy d base_url handshake =
     (case and_then (fed_call flt 0) (\<lambda>_. and_then (fed_call flt 1) (\<lambda>_. known_instance d base_url)) of
        Inl e \<Rightarrow> (Inl e, d)
      | Inr i \<Rightarrow>
          (case process_incoming_handshake C U J clock (\<lambda>n. flt (n + 2)) now d (server_id cx) policy (in_id i) handshake of
             (Inl e, d') \<Rightarrow> (Inl (FeHandshake e), d')
           | (Inr report, d') \<Rightarrow>
               let (d'', event) = emit_and_broadcast event_json (\<lambda>n. flt (n + 12)) now d' (server_id cx) base_url
                     (FederationEstablished base_url (status_to_string (alignment_status report)))
               in (Inr (report, event), d'')))"

definition get_vrp_root_handler :: "'f crypto \<Rightarrow> faults \<Rightarrow> 'f MerkleTree \<Rightarrow> db \<Rightarrow> FederationError + GetRootResponse" where
  "get_vrp_root_handler C flt tree d =
     and_then (fed_call flt 0) (\<lambda>_. and_then (fed_call flt 1) (\<lambda>_.
       Inr \<lparr>rr_root_hex = root_hex C tree, rr_leaf_count = next_index tree,
            rr_updated_at = map_option rt_created (first_where (\<lambda>r. rt_root_hex r = root_hex C tree) (vrp_roots d))\<rparr>))"

section \<open>Attestation\<close>

record AttestationRequest =
  at_originating_server :: string
  at_topic :: string
  at_commitment :: string
  at_proof :: string
  at_participant_type :: string
  at_signature :: string

definition attestation_payload :: "AttestationRequest \<Rightarrow> string" where
  "attestation_payload q = at_topic q @ newline @ at_commitment q @ newline @ at_participant_type q"

definition fetch_remote_root :: "peer_io \<Rightarrow> string \<Rightarrow> FederationError + string" where
  "fetch_remote_root P server =
     (case http_get P (server @ ''/api/federation/vrp-root'') of
        HttpError \<Rightarrow> Inl FeNetwork
      | HttpReply status body \<Rightarrow>
          if \<not> is_success status then Inl (RemoteServer status)
          else ok_or (root_response P body) FeNetwork)"

definition verify_membership_proof ::
  "'f crypto \<Rightarrow> ('f, 'q, 'g, 'h) snark \<Rightarrow> ('g, 'h) VerifyingKey \<Rightarrow> string \<Rightarrow> string \<Rightarrow> string \<Rightarrow> FederationError + unit" where
  "verify_membership_proof C Z vkey proof_json remote_root_hex commitment =
     and_then (map_err (\<lambda>_. ZkVerification ''Invalid proof format'') (parse_proof Z proof_json)) (\<lambda>pr.
     and_then (map_err (\<lambda>_. ZkVerification ''Invalid root hex'') (parse_fr_from_hex C remote_root_hex)) (\<lambda>root_fr.
     and_then (map_err (\<lambda>_. ZkVerification ''Invalid commitment hex'') (parse_fr_from_hex C commitment)) (\<lambda>commitment_fr.
     and_then (map_err (\<lambda>_. ZkVerification ''Proof verification error'') (verify_proof Z vkey pr [root_fr, commitment_fr])) (\<lambda>valid.
       if \<not> valid then Inl (ZkVerification ''Invalid proof'') else Inr ()))))"

definition attest_checks ::
  "'f crypto \<Rightarrow> ('f, 'q, 'g, 'h) snark \<Rightarrow> peer_io \<Rightarrow> ('g, 'h) VerifyingKey \<Rightarrow> faults \<Rightarrow> db \<Rightarrow> AttestationRequest
     \<Rightarrow> FederationError + int \<times> string" where
  "attest_checks C Z P vkey flt d q =
     and_then (fed_call flt 0) (\<lambda>_. and_then (fed_call flt 1) (\<lambda>_.
     and_then (known_instance d (at_originating_server q)) (\<lambda>i.
     and_then (verify_signature C P (in_public_key i) (attestation_payload q) (at_signature q)) (\<lambda>_.
     and_then (fetch_remote_root P (at_originating_server q)) (\<lambda>remote_hex.
     and_then (verify_membership_proof C Z vkey (at_proof q) remote_hex (at_commitment q)) (\<lambda>_.
       Inr (in_id i, remote_hex)))))))"

definition node_type_of_participant :: "string \<Rightarrow> NodeType option" where
  "node_type_of_participant s =
     (if s = ''HUMAN'' then Some NodeType.Human
      else if s = ''AI_AGENT'' then Some NodeType.AiAgent
      else if s = ''COLLECTIVE'' then Some NodeType.Collective
      else if s = ''BRIDGE'' then Some NodeType.Bridge
      else if s = ''SERVICE'' then Some NodeType.Service
      else None)"

definition is_federated_identity :: "int \<Rightarrow> int \<Rightarrow> string \<Rightarrow> federated_identity_row \<Rightarrow> bool" where
  "is_federated_identity s i p r \<longleftrightarrow> fi_server r = s \<and> fi_remote r = i \<and> fi_pseudonym r = p"

definition upsert_federated_identity ::
  "time \<Rightarrow> int \<Rightarrow> int \<Rightarrow> string \<Rightarrow> string \<Rightarrow> string \<Rightarrow> string \<Rightarrow> db \<Rightarrow> rusqlite_error + db" where
  "upsert_federated_identity now s i commitment p topic remote_hex d =
     (if exists_where (is_federated_identity s i p) (auto_rows (federated_identities d))
      then Inr (d\<lparr>federated_identities := auto_update (is_federated_identity s i p)
             (\<lambda>r. r\<lparr>fi_attested := now, fi_commitment := commitment, fi_topic := topic, fi_root := Some remote_hex,
                  fi_verified := Some now\<rparr>) (federated_identities d)\<rparr>)
      else if \<not> server_known d s \<or> \<not> instance_exists d i then Inl (SqliteFailure ConstraintForeignKey)
      else Inr (d\<lparr>federated_identities := auto_insert (\<lambda>n. \<lparr>fi_id = n, fi_server = s, fi_remote = i,
             fi_commitment = commitment, fi_pseudonym = p, fi_topic = topic, fi_attested = now,
             fi_root = Some remote_hex, fi_verified = Some now\<rparr>) (federated_identities d)\<rparr>))"

definition is_identity :: "int \<Rightarrow> string \<Rightarrow> platform_row \<Rightarrow> bool" where
  "is_identity s p r \<longleftrightarrow> pi_server r = s \<and> pi_pseudonym r = p"

definition upsert_platform_identity :: "time \<Rightarrow> int \<Rightarrow> string \<Rightarrow> string \<Rightarrow> db \<Rightarrow> db" where
  "upsert_platform_identity now s p participant d =
     (if exists_where (is_identity s p) (platform_rows d)
      then d\<lparr>platform_identities := auto_update (is_identity s p) (\<lambda>r. r\<lparr>pi_active := True, pi_type := participant\<rparr>)
             (platform_identities d)\<rparr>
      else d\<lparr>platform_identities := auto_insert (\<lambda>n. \<lparr>pi_id = n, pi_server = s, pi_pseudonym = p, pi_type = participant,
             pi_caps = default_capabilities, pi_active = True, pi_created = now, pi_updated = now\<rparr>) (platform_identities d)\<rparr>)"

fun graph_failure :: "GraphError \<Rightarrow> FederationError" where
  "graph_failure (GraphDatabaseError e) = FeDbError e"
| "graph_failure _ = FeDbError ToSqlConversionFailure"

definition attest_transaction ::
  "'f crypto \<Rightarrow> faults \<Rightarrow> time \<Rightarrow> int \<Rightarrow> db \<Rightarrow> int \<Rightarrow> string \<Rightarrow> AttestationRequest \<Rightarrow> FederationError + string \<times> db" where
  "attest_transaction C flt now s d remote remote_hex q =
     and_then (fed_call flt 2) (\<lambda>_.
     and_then (map_err IdentityDerivation (derive_nullifier_hex C (at_commitment q) (at_topic q))) (\<lambda>nullifier_hex.
     and_then (map_err IdentityDerivation (derive_pseudonym_id C (at_topic q) nullifier_hex)) (\<lambda>p.
     and_then (ok_or (node_type_of_participant (at_participant_type q))
       (ZkVerification (''unknown participant type: '' @ at_participant_type q))) (\<lambda>node_type.
     and_then (fed_call flt 3) (\<lambda>_.
     and_then (fed_call flt 4) (\<lambda>_.
     and_then (map_err FeDbError (upsert_federated_identity now s remote (at_commitment q) p (at_topic q) remote_hex d)) (\<lambda>d1.
     and_then (fed_call flt 5) (\<lambda>_.
     and_then (fed_call flt 6) (\<lambda>_.
       case ensure_graph_node now (upsert_platform_identity now s p (at_participant_type q) d1) s p node_type None of
         (Inl e, _) \<Rightarrow> Inl (graph_failure e)
       | (Inr _, d2) \<Rightarrow> and_then (fed_call flt 7) (\<lambda>_. Inr (p, d2)))))))))))"

definition attest_membership_handler ::
  "'f crypto \<Rightarrow> ('f, 'q, 'g, 'h) snark \<Rightarrow> peer_io \<Rightarrow> ('g, 'h) VerifyingKey \<Rightarrow> faults \<Rightarrow> time \<Rightarrow> app_context \<Rightarrow> db
     \<Rightarrow> AttestationRequest \<Rightarrow> (FederationError + string) \<times> db" where
  "attest_membership_handler C Z P vkey flt now cx d q =
     (case and_then (attest_checks C Z P vkey flt d q) (\<lambda>(remote, remote_hex). attest_transaction C flt now (server_id cx) d remote remote_hex q) of
        Inl e \<Rightarrow> (Inl e, d)
      | Inr (p, d') \<Rightarrow> (Inr p, d'))"

section \<open>Federated channels\<close>

definition get_federated_channels_handler :: "serde \<Rightarrow> faults \<Rightarrow> app_context \<Rightarrow> db \<Rightarrow> FederationError + Channel list" where
  "get_federated_channels_handler S flt cx d =
     and_then (fed_call flt 0) (\<lambda>_. and_then (fed_call flt 1) (\<lambda>_.
       map_err FeChannel (list_federated_channels S d (server_id cx))))"

record JoinFederatedChannelRequest =
  jf_originating_server :: string
  jf_pseudonym_id :: string
  jf_signature :: string

definition join_checks ::
  "'f crypto \<Rightarrow> peer_io \<Rightarrow> faults \<Rightarrow> db \<Rightarrow> string \<Rightarrow> JoinFederatedChannelRequest \<Rightarrow> FederationError + unit" where
  "join_checks C P flt d channel_id q =
     (let url = jf_originating_server q in
      and_then (fed_call flt 0) (\<lambda>_. and_then (fed_call flt 1) (\<lambda>_.
      and_then (known_instance d url) (\<lambda>i.
      and_then (require_active url i) (\<lambda>_.
      and_then (fed_call flt 2) (\<lambda>_.
      and_then (require_agreement d url i) (\<lambda>_.
      and_then (verify_signature C P (in_public_key i) (channel_id @ newline @ jf_pseudonym_id q) (jf_signature q)) (\<lambda>_.
      and_then (fed_call flt 3) (\<lambda>_.
        if \<not> exists_where (\<lambda>r. fi_remote r = in_id i \<and> fi_pseudonym r = jf_pseudonym_id q) (auto_rows (federated_identities d))
        then Inl (FeForbidden (''Identity '' @ jf_pseudonym_id q @ '' not attested for instance '' @ url))
        else channel_call flt 4)))))))))"

definition join_federated_channel_handler ::
  "'f crypto \<Rightarrow> peer_io \<Rightarrow> serde \<Rightarrow> faults \<Rightarrow> time \<Rightarrow> app_context \<Rightarrow> db \<Rightarrow> string \<Rightarrow> JoinFederatedChannelRequest
     \<Rightarrow> (FederationError + unit) \<times> db" where
  "join_federated_channel_handler C P S flt now cx d channel_id q =
     (case join_checks C P flt d channel_id q of
        Inl e \<Rightarrow> (Inl e, d)
      | Inr _ \<Rightarrow>
          (case add_member S now d (server_id cx) channel_id (jf_pseudonym_id q) of
             (Inl e, d') \<Rightarrow> (Inl (FeChannel e), d')
           | (Inr _, d') \<Rightarrow> (Inr (), d')))"

section \<open>Receiving relayed bundles\<close>

definition receive_rtx_checks ::
  "'f crypto \<Rightarrow> peer_io \<Rightarrow> faults \<Rightarrow> app_context \<Rightarrow> db \<Rightarrow> FederatedRtxEnvelope
     \<Rightarrow> FederationError + VrpTransferScope \<times> ReflectionSummaryBundle" where
  "receive_rtx_checks C P flt cx d e =
     (let url = env_relaying_server e; prov = env_provenance e; b = env_bundle e in
      and_then (fed_call flt 0) (\<lambda>_. and_then (fed_call flt 1) (\<lambda>_.
      and_then (known_instance d url) (\<lambda>i.
      and_then (require_active url i) (\<lambda>_.
      if public_url cx \<noteq> [] \<and> public_url cx \<in> set (relay_path prov)
      then Inl (FeForbidden ''circular relay detected: local server already in relay path'')
      else and_then (fed_call flt 2) (\<lambda>_.
      if \<not> exists_where (\<lambda>i. in_base_url i = origin_server prov) (instances d)
      then Inl (UnknownRemote (''origin server '' @ origin_server prov @ '' is not a known instance''))
      else and_then (fed_call flt 3) (\<lambda>_.
      and_then (ok_or (first_where (\<lambda>a. ag_remote a = in_id i \<and> ag_active a) (agreement_rows d))
        (FeForbidden (''No active federation agreement with '' @ url))) (\<lambda>a.
      and_then (ok_or (parse_transfer_scope (ag_scope a))
        (FeForbidden ''Federation agreement has invalid transfer scope'')) (\<lambda>scope.
      if scope < VrpTransferScope.ReflectionSummariesOnly
      then Inl (FeForbidden ''Federation agreement does not permit RTX transfer'')
      else and_then (verify_signature C P (in_public_key i)
             (rtx_relay_signing_payload (bundle_id b) url (origin_server prov) (relay_path prov)) (env_signature e)) (\<lambda>_.
           and_then (map_err (\<lambda>x. FeForbidden (''Invalid bundle structure: '' @ rtx_error_text x)) (validate_bundle_structure b)) (\<lambda>_.
           and_then (map_err (\<lambda>x. FeForbidden (rtx_error_text x)) (enforce_transfer_scope b scope)) (\<lambda>scoped.
             Inr (scope, scoped)))))))))))))"

text \<open>
  The transaction: a constraint violation of the first insertion counts as a duplicate and
  rolls everything back without an error.
\<close>

definition receive_rtx_transaction ::
  "rtx_json \<Rightarrow> faults \<Rightarrow> time \<Rightarrow> app_context \<Rightarrow> db \<Rightarrow> FederatedRtxEnvelope \<Rightarrow> VrpTransferScope \<Rightarrow> ReflectionSummaryBundle
     \<Rightarrow> FederationError + (string \<times> RtxPayload) list \<times> db" where
  "receive_rtx_transaction J flt now cx d e scope scoped =
     (let s = server_id cx; prov = env_provenance e in
      and_then (fed_call flt 4) (\<lambda>_. and_then (fed_call flt 5) (\<lambda>_.
      case store_bundle J now s (Some (provenance_to_json J prov)) scoped d of
        Inl (SqliteFailure code) \<Rightarrow>
          if constraint_violation code then Inr ([], d) else Inl (FeDbError (SqliteFailure code))
      | Inl x \<Rightarrow> Inl (FeDbError x)
      | Inr d1 \<Rightarrow>
          and_then (fed_call flt 6) (\<lambda>_.
          and_then (map_err FeDbError (log_transfer now s scoped None scope (redactions_of (env_bundle e) scoped) d1)) (\<lambda>d2.
          and_then (fed_call flt 7) (\<lambda>_. and_then (fed_call flt 8) (\<lambda>_.
            let (deliveries, d3) = deliver J flt 10 now s (\<lambda>b. RelayedBundle b prov) scoped
                  (subscribers d2 s rs_federated) d2
            in and_then (fed_call flt 9) (\<lambda>_. Inr (deliveries, d3)))))))))"

definition receive_federated_rtx_handler ::
  "'f crypto \<Rightarrow> peer_io \<Rightarrow> rtx_json \<Rightarrow> faults \<Rightarrow> time \<Rightarrow> app_context \<Rightarrow> db \<Rightarrow> FederatedRtxEnvelope
     \<Rightarrow> (FederationError + (string \<times> RtxPayload) list) \<times> db" where
  "receive_federated_rtx_handler C P J flt now cx d e =
     (case and_then (receive_rtx_checks C P flt cx d e)
             (\<lambda>(scope, scoped). receive_rtx_transaction J flt now cx d e scope scoped) of
        Inl err \<Rightarrow> (Inl err, d)
      | Inr (deliveries, d') \<Rightarrow> (Inr deliveries, d'))"

end
