(* ===== verification/Annex_Peers.thy ===== *)
theory Annex_Peers
  imports Annex_Federation_Api Annex_Subscriptions Annex_Messages
begin

text \<open>
  What the federation handlers guarantee towards other servers: which relayed messages and
  bundles are accepted and that accepting is idempotent, that what one server relays the
  other can verify, what an attestation creates, and what joining a channel checks.
\<close>

section \<open>Checks\<close>

text \<open>A signature that the code accepts: both texts decode, to the right lengths, and it verifies.\<close>

definition signed_by :: "'f crypto \<Rightarrow> peer_io \<Rightarrow> string \<Rightarrow> string \<Rightarrow> string \<Rightarrow> bool" where
  "signed_by C P public_key_hex payload signature_hex \<longleftrightarrow>
     (\<exists>key sig. hex_decode C public_key_hex = Some key \<and> hex_decode C signature_hex = Some sig
        \<and> length key = 32 \<and> key_ok P key \<and> length sig = 64 \<and> ed_verify P key payload sig)"

lemma verify_signature_Inr [res_simps]: "verify_signature C P k m sg = Inr u \<longleftrightarrow> signed_by C P k m sg"
  by (auto simp: verify_signature_def signed_by_def res_simps)

text \<open>The first \<open>n\<close> database calls succeed.\<close>

definition calls_ok :: "faults \<Rightarrow> nat \<Rightarrow> bool" where
  "calls_ok flt n \<longleftrightarrow> list_all (\<lambda>k. \<not> flt k) [0..<n]"

lemma calls_ok_none [simp]: "calls_ok no_faults n"
  by (simp add: calls_ok_def no_faults_def list_all_iff)

lemma guard_Inr [res_simps]: "(if c then Inl x else r) = Inr p \<longleftrightarrow> \<not> c \<and> r = Inr p"
  by simp

lemma fed_call_Inr [res_simps]: "fed_call flt n = Inr u \<longleftrightarrow> \<not> flt n" "channel_call flt n = Inr u \<longleftrightarrow> \<not> flt n"
  by (simp_all add: fed_call_def channel_call_def res_simps)

lemma fed_call_none [simp]: "fed_call no_faults n = Inr ()" "channel_call no_faults n = Inr ()"
  by (simp_all add: fed_call_def channel_call_def)

text \<open>The peer that a request comes from, in good standing.\<close>

definition peer_in_standing :: "db \<Rightarrow> string \<Rightarrow> instance_row \<Rightarrow> bool" where
  "peer_in_standing d url i \<longleftrightarrow> first_where (\<lambda>i. in_base_url i = url) (instances d) = Some i \<and> in_status i = ''ACTIVE''
     \<and> (\<exists>a \<in> set (agreement_rows d). ag_remote a = in_id i \<and> ag_active a)"

lemma known_instance_Inr [res_simps]:
  "known_instance d url = Inr i \<longleftrightarrow> first_where (\<lambda>i. in_base_url i = url) (instances d) = Some i"
  by (simp add: known_instance_def res_simps)

lemma require_Inr [res_simps]:
  "require_active url i = Inr u \<longleftrightarrow> in_status i = ''ACTIVE''"
  "require_agreement d url i = Inr u \<longleftrightarrow> (\<exists>a \<in> set (agreement_rows d). ag_remote a = in_id i \<and> ag_active a)"
  by (simp_all add: require_active_def require_agreement_def exists_where_iff)

text \<open>An attestation is fresh unless the remote server answers with another root.\<close>

definition fresh :: "peer_io \<Rightarrow> string \<Rightarrow> federated_identity_row \<Rightarrow> bool" where
  "fresh P url r \<longleftrightarrow> (case fi_root r of None \<Rightarrow> True
     | Some stored \<Rightarrow> stored = [] \<or> remote_root P url = None \<or> remote_root P url = Some stored)"

lemma check_stale_Inr: "check_stale P url (case fi_root r of Some x \<Rightarrow> x | None \<Rightarrow> []) = Inr u \<longleftrightarrow> fresh P url r"
  by (auto simp: check_stale_def fresh_def split: option.split)

definition attested :: "db \<Rightarrow> instance_row \<Rightarrow> string \<Rightarrow> federated_identity_row \<Rightarrow> bool" where
  "attested d i commitment r \<longleftrightarrow>
     first_where (\<lambda>r. fi_remote r = in_id i \<and> fi_commitment r = commitment) (auto_rows (federated_identities d)) = Some r"

definition message_admissible ::
  "'f crypto \<Rightarrow> peer_io \<Rightarrow> serde \<Rightarrow> int \<Rightarrow> db \<Rightarrow> FederatedMessageEnvelope \<Rightarrow> string \<Rightarrow> bool" where
  "message_admissible C P S s d e p \<longleftrightarrow> (\<exists>i commitment topic r ch.
     peer_in_standing d (fm_originating_server e) i
     \<and> signed_by C P (in_public_key i) (message_payload e) (fm_signature e)
     \<and> parse_attestation_ref (fm_attestation_ref e) = Inr (commitment, topic)
     \<and> attested d i commitment r \<and> fi_pseudonym r = p \<and> fresh P (fm_originating_server e) r
     \<and> get_channel S d (fm_channel_id e) = Inr ch \<and> cn_federation_scope ch = Federated
     \<and> is_member d s (fm_channel_id e) p)"

lemma receive_checks_Inr:
  "receive_checks C P S flt cx d e = Inr p \<longleftrightarrow>
     calls_ok flt 6 \<and> message_admissible C P S (server_id cx) d e p"
proof -
  have six: "calls_ok flt 6 \<longleftrightarrow> \<not> flt 0 \<and> \<not> flt 1 \<and> \<not> flt 2 \<and> \<not> flt 3 \<and> \<not> flt 4 \<and> \<not> flt 5"
    by (simp add: calls_ok_def upt_rec numeral_eq_Suc)
  show ?thesis (is "?l = ?r")
  proof
    assume ?l
    then show ?r
      unfolding receive_checks_def Let_def six message_admissible_def peer_in_standing_def attested_def
      by (simp only: res_simps check_stale_Inr split_paired_Ex prod.case not_not sum.inject, elim exE conjE,
          intro exI conjI; (assumption | simp)?)
  next
    assume ?r
    then show ?l
      unfolding receive_checks_def Let_def six message_admissible_def peer_in_standing_def attested_def
      by (simp only: res_simps check_stale_Inr split_paired_Ex prod.case not_not sum.inject, elim exE conjE,
          intro exI conjI; (assumption | simp)?)
  qed
qed

section \<open>Relayed messages\<close>

lemma create_message_outcome:
  assumes "create_message S now d p = (res, d')"
  obtains (refused) err where "res = Inl err" "d' = d"
  | (stored) r where "res = Inr (map_row_to_message r)" "message_rows d' = message_rows d @ [r]"
      "d' = d\<lparr>messages := messages d'\<rparr>" "ms_message r = mp_message_id p" "ms_channel r = mp_channel_id p"
      "ms_sender r = mp_sender_pseudonym p" "ms_content r = mp_content p"
      "mp_message_id p \<notin> ms_message ` set (message_rows d)"
proof (cases res)
  case (Inl err)
  have "d' = d" using assms unfolding Inl create_message_def Let_def
    by (simp split: sum.split_asm prod.split_asm if_split_asm)
  then show ?thesis by (rule refused [OF Inl])
next
  case (Inr msg)
  obtain sid days where res: "resolve_retention_days S d (mp_channel_id p) = Inr (sid, days)"
    using assms unfolding Inr create_message_def by (cases "resolve_retention_days S d (mp_channel_id p)") auto
  let ?mk = "\<lambda>i. \<lparr>ms_id = i, ms_server = sid, ms_channel = mp_channel_id p,
                  ms_message = mp_message_id p, ms_sender = mp_sender_pseudonym p, ms_content = mp_content p,
                  ms_reply_to = mp_reply_to_message_id p, ms_created = now,
                  ms_expires = (case days of
                     Some days \<Rightarrow> sqlite_datetime now (int (unat days) * 86400) | None \<Rightarrow> None),
                  ms_edited = None, ms_deleted = None\<rparr>"
  have new: "\<not> exists_where (\<lambda>r. ms_message r = mp_message_id p) (message_rows d)"
    and eq: "msg = map_row_to_message (?mk (auto_next (messages d)))" "d' = d\<lparr>messages := auto_insert ?mk (messages d)\<rparr>"
    using assms unfolding Inr create_message_def res sum.case prod.case Let_def by (simp_all split: if_split_asm)
  show ?thesis
    by (rule stored [of "?mk (auto_next (messages d))"])
      (use new [unfolded exists_where_key] Inr eq(1) in \<open>simp_all add: eq(2)\<close>)
qed

lemma admissible_frame [simp]:
  "message_admissible C P S s (d\<lparr>messages := m\<rparr>) e p = message_admissible C P S s d e p"
  by (simp add: message_admissible_def peer_in_standing_def attested_def get_channel_def is_member_def)

lemma create_again:
  assumes "mp_message_id p \<in> ms_message ` set (message_rows d)" and "create_message S now d p = (res, d')"
    and "\<exists>x. resolve_retention_days S d (mp_channel_id p) = Inr x"
  shows "res = Inl (ChDatabase (SqliteFailure ConstraintUnique)) \<and> d' = d"
  using assms by (auto simp: create_message_def exists_where_key)

lemma resolve_frame [simp]: "resolve_retention_days S (d\<lparr>messages := m\<rparr>) c = resolve_retention_days S d c"
  by (simp add: resolve_retention_days_def cong: option.case_cong)

lemma create_message_resolved:
  "create_message S now d p = (Inr msg, d') \<Longrightarrow> \<exists>x. resolve_retention_days S d (mp_channel_id p) = Inr x"
  by (cases "resolve_retention_days S d (mp_channel_id p)") (simp_all add: create_message_def)

abbreviation params_of :: "FederatedMessageEnvelope \<Rightarrow> string \<Rightarrow> CreateMessageParams" where
  "params_of e p \<equiv> \<lparr>mp_channel_id = fm_channel_id e, mp_message_id = fm_message_id e, mp_sender_pseudonym = p,
     mp_content = fm_content e, mp_reply_to_message_id = None\<rparr>"

text \<open>The outcomes of receiving: refused, a duplicate, or stored.\<close>

lemma receive_message_outcome:
  assumes "receive_federated_message_handler C P S flt now cx d e = (res, d')"
  obtains (refused) err where "res = Inl err" "d' = d"
  | (duplicate) p code where "res = Inr []" "d' = d" "message_admissible C P S (server_id cx) d e p"
      "create_message S now d (params_of e p) = (Inl (ChDatabase (SqliteFailure code)), d)" "constraint_violation code"
  | (stored) p msg where "res = Inr [(fm_channel_id e, msg)]" "message_admissible C P S (server_id cx) d e p"
      "create_message S now d (params_of e p) = (Inr msg, d')"
proof -
  note outcomes = refused duplicate stored
  show ?thesis
  proof (cases "and_then (receive_checks C P S flt cx d e) (\<lambda>p. and_then (channel_call flt 6) (\<lambda>_. Inr p))")
    case (Inl err)
    have "res = Inl err" "d' = d"
      using assms unfolding receive_federated_message_handler_def Inl by simp_all
    then show ?thesis by (rule outcomes(1))
  next
    case (Inr p)
    then have ok: "message_admissible C P S (server_id cx) d e p"
      by (simp only: res_simps receive_checks_Inr) (elim exE conjE, simp)
    obtain r d1 where c: "create_message S now d (params_of e p) = (r, d1)"
      by (cases "create_message S now d (params_of e p)")
    note run = assms [unfolded receive_federated_message_handler_def Inr sum.case c prod.case]
    show ?thesis using c
    proof (cases rule: create_message_outcome)
      case (stored x)
      have "res = Inr [(fm_channel_id e, map_row_to_message x)]" "d1 = d'"
        using run unfolding stored(1) by simp_all
      then show ?thesis using outcomes(3) [OF _ ok] c stored(1) by simp
    next
      case (refused err)
      show ?thesis
      proof (cases "\<exists>code. err = ChDatabase (SqliteFailure code) \<and> constraint_violation code")
        case True
        then obtain code where "err = ChDatabase (SqliteFailure code)" "constraint_violation code" by blast
        then show ?thesis using outcomes(2) [OF _ _ ok] run c refused by simp
      next
        case False
        then have "\<exists>x. res = Inl x" "d' = d"
          using run refused by (auto split: ChannelError.split_asm rusqlite_error.split_asm if_split_asm)
        then show ?thesis using outcomes(1) by blast
      qed
    qed
  qed
qed

text \<open>
  C8. A relayed message is accepted only from an active instance with an active agreement, with a
  signature of its content by that instance's key, for an identity that this server attested
  for that instance, whose attestation is not known to be stale and who is a member of the
  channel, and only in a federated channel. It is then stored once, under the pseudonym of
  this server's attestation, and broadcast to its channel; a refused or repeated one changes
  nothing, and receiving the same envelope again is always such a repetition.
\<close>

theorem federated_message_accepted:
  assumes "receive_federated_message_handler C P S flt now cx d e = (res, d')"
  shows "(\<not> is_ok res \<longrightarrow> d' = d)
    \<and> (is_ok res \<longrightarrow> (\<exists>p. message_admissible C P S (server_id cx) d e p
         \<and> (res = Inr [] \<and> d' = d
            \<or> (\<exists>r. message_rows d' = message_rows d @ [r] \<and> res = Inr [(fm_channel_id e, map_row_to_message r)]
                 \<and> ms_message r = fm_message_id e \<and> ms_channel r = fm_channel_id e \<and> ms_sender r = p
                 \<and> ms_content r = fm_content e \<and> fm_message_id e \<notin> ms_message ` set (message_rows d)))))
    \<and> (is_ok res \<longrightarrow> receive_federated_message_handler C P S no_faults now' cx d' e = (Inr [], d'))"
  using assms
proof (cases rule: receive_message_outcome)
  case (refused err)
  then show ?thesis by simp
next
  case (duplicate p code)
  have "receive_checks C P S no_faults cx d e = Inr p" using duplicate(3) by (simp add: receive_checks_Inr)
  moreover have "create_message S now' d (params_of e p) = (Inl (ChDatabase (SqliteFailure code)), d)"
    using duplicate(4) by (auto simp: create_message_def Let_def split: sum.splits prod.splits if_splits)
  ultimately have "receive_federated_message_handler C P S no_faults now' cx d e = (Inr [], d)"
    using duplicate(5) by (simp add: receive_federated_message_handler_def)
  then show ?thesis using duplicate by auto
next
  case (stored p msg)
  show ?thesis using stored(3)
  proof (cases rule: create_message_outcome)
    case (stored r)
    note new = this
    have adm: "message_admissible C P S (server_id cx) d' e p"
      by (subst new(3)) (simp add: \<open>message_admissible C P S (server_id cx) d e p\<close>)
    then have checks: "receive_checks C P S no_faults cx d' e = Inr p" by (simp add: receive_checks_Inr)
    have "\<exists>x. resolve_retention_days S d (fm_channel_id e) = Inr x"
      using create_message_resolved [OF \<open>create_message S now d (params_of e p) = (Inr msg, d')\<close>] by simp
    then have res: "\<exists>x. resolve_retention_days S d' (fm_channel_id e) = Inr x" by (subst new(3)) simp
    obtain r' d2 where again: "create_message S now' d' (params_of e p) = (r', d2)"
      by (cases "create_message S now' d' (params_of e p)")
    have "mp_message_id (params_of e p) \<in> ms_message ` set (message_rows d')" using new(2,4) by simp
    then have "r' = Inl (ChDatabase (SqliteFailure ConstraintUnique)) \<and> d2 = d'"
      by (rule create_again [OF _ again]) (use res in simp)
    then have "receive_federated_message_handler C P S no_faults now' cx d' e = (Inr [], d')"
      using again checks by (simp add: receive_federated_message_handler_def)
    moreover have "res = Inr [(fm_channel_id e, map_row_to_message r)]"
      using \<open>res = Inr [(fm_channel_id e, msg)]\<close> new(1) by simp
    ultimately show ?thesis using new \<open>message_admissible C P S (server_id cx) d e p\<close> by auto
  qed simp
qed

section \<open>What is relayed can be verified\<close>

lemma rsplit_once_append: "c \<notin> set suf \<Longrightarrow> rsplit_once c (pre @ c # suf) = Some (pre, suf)"
proof -
  assume "c \<notin> set suf"
  then have "\<forall>x \<in> set (rev suf). x \<noteq> c" by auto
  then have "dropWhile (\<lambda>x. x \<noteq> c) (rev suf @ c # rev pre) = c # rev pre"
    "takeWhile (\<lambda>x. x \<noteq> c) (rev suf @ c # rev pre) = rev suf"
    by (subst dropWhile_append2 takeWhile_append2; simp)+
  then show ?thesis by (simp add: rsplit_once_def)
qed

lemma lower_hex_no_colon: "is_lower_hex_64 c \<Longrightarrow> CHR '':'' \<notin> set c"
  by (auto simp: is_lower_hex_64_def list_all_iff is_lower_hex_def is_ascii_digit_def less_eq_char_def)

lemma parse_attestation_ref_round:
  assumes "is_lower_hex_64 c" "t \<noteq> []"
  shows "parse_attestation_ref (t @ '':'' @ c) = Inr (c, t)"
  using rsplit_once_append [OF lower_hex_no_colon [OF assms(1)], of t] is_lower_hex_64_nonempty [OF assms(1)] assms(2)
  by (simp add: parse_attestation_ref_def)

text \<open>The denormalised columns of a nullifier are those of the derivation.\<close>

definition nullifiers_consistent :: "'f crypto \<Rightarrow> db \<Rightarrow> bool" where
  "nullifiers_consistent C d \<longleftrightarrow> (\<forall>r \<in> set (zk_nullifiers d). \<forall>p c. nf_pseudonym r = Some p \<longrightarrow> nf_commitment r = Some c \<longrightarrow>
     derive_nullifier_hex C c (nf_topic r) = Inr (nf_nullifier r) \<and> derive_pseudonym_id C (nf_topic r) (nf_nullifier r) = Inr p)"

lemma legacy_match_Some:
  "legacy_match C cs n = Some (c, t) \<Longrightarrow> c \<in> set cs \<and> t = nf_topic n \<and> derive_nullifier_hex C c t = Inr (nf_nullifier n)"
  by (auto simp: legacy_match_def find_Some_iff split: option.splits)

lemma in_map_filter: "y \<in> set (List.map_filter f xs) \<Longrightarrow> \<exists>x \<in> set xs. f x = Some y"
  by (induction xs) (auto simp: List.map_filter_simps split: option.splits)

lemma find_commitment_sound:
  assumes "nullifiers_consistent C d" and "find_commitment_for_pseudonym C flt d p = Inr (Some (c, t))"
  shows "derive_topic_scoped_pseudonym C c t = Inr p"
proof (cases "first_where (\<lambda>r. nf_pseudonym r = Some p \<and> nf_commitment r \<noteq> None) (zk_nullifiers d)")
  case (Some r)
  then have r: "r \<in> set (zk_nullifiers d)" "nf_pseudonym r = Some p" "nf_commitment r \<noteq> None"
    using first_where_Some [OF Some] by simp_all
  then obtain c' where c': "nf_commitment r = Some c'" by auto
  have "c = c'" "t = nf_topic r"
    using assms(2) unfolding find_commitment_for_pseudonym_def Some by (simp_all add: res_simps c')
  moreover have "derive_nullifier_hex C c' (nf_topic r) = Inr (nf_nullifier r)"
    "derive_pseudonym_id C (nf_topic r) (nf_nullifier r) = Inr p"
    using assms(1) r(1,2) c' unfolding nullifiers_consistent_def by simp_all
  ultimately show ?thesis by (simp add: derive_topic_scoped_pseudonym_def)
next
  case None
  let ?cand = "filter (\<lambda>r. nf_pseudonym r = None \<and> derive_pseudonym_id C (nf_topic r) (nf_nullifier r) = Inr p) (zk_nullifiers d)"
  let ?hits = "List.map_filter (legacy_match C (map vi_commitment (vrp_identities d))) ?cand"
  have "?hits \<noteq> [] \<and> hd ?hits = (c, t)"
    using assms(2) unfolding find_commitment_for_pseudonym_def None
    by (simp add: res_simps Let_def split: if_split_asm list.split_asm)
  then have "(c, t) \<in> set ?hits" using hd_in_set [of ?hits] by simp
  from in_map_filter [OF this] obtain n where n: "n \<in> set ?cand"
    "legacy_match C (map vi_commitment (vrp_identities d)) n = Some (c, t)" by (rule bexE)
  have "derive_pseudonym_id C (nf_topic n) (nf_nullifier n) = Inr p" using n(1) by simp
  moreover have "t = nf_topic n" "derive_nullifier_hex C c t = Inr (nf_nullifier n)"
    using legacy_match_Some [OF n(2)] by blast+
  ultimately show ?thesis by (simp add: derive_topic_scoped_pseudonym_def)
qed

text \<open>The server signs with the key that its peers have on record.\<close>

definition key_pair :: "'f crypto \<Rightarrow> peer_io \<Rightarrow> (string \<Rightarrow> string) \<Rightarrow> string \<Rightarrow> bool" where
  "key_pair C P sign public_key_hex \<longleftrightarrow> (\<exists>key. hex_decode C public_key_hex = Some key \<and> length key = 32 \<and> key_ok P key
     \<and> (\<forall>m. \<exists>sig. hex_decode C (sign m) = Some sig \<and> length sig = 64 \<and> ed_verify P key m sig))"

lemma key_pair_signs: "key_pair C P sign pk \<Longrightarrow> signed_by C P pk m (sign m)"
  by (auto simp: key_pair_def signed_by_def)

text \<open>
  C37. What one server relays another can verify: every envelope that \<open>relay_message\<close> sends goes
  to an active peer with an active agreement other than \<open>NO_TRANSFER\<close>, carries the message's
  id, channel, content and sender, and has a signature that verifies against the payload the
  receiver rebuilds from it. When the lookup finds the sender's commitment, its attestation
  reference is parsed by the receiver into that commitment and topic, from which the sender's
  pseudonym derives, provided the nullifier rows hold what the verification of membership writes;
  when the lookup fails or finds none, the reference is a placeholder that names nobody.
\<close>

theorem relayed_message_verifies:
  assumes "key_pair C P sign public_key_hex" and "nullifiers_consistent C d"
    and "(url, e) \<in> set (relay_message C sign fmt flt client_ok cx d channel_id msg)"
  shows "signed_by C P public_key_hex (message_payload e) (fm_signature e)
    \<and> fm_originating_server e = public_url cx \<and> fm_channel_id e = channel_id
    \<and> fm_message_id e = mg_message_id msg \<and> fm_content e = mg_content msg \<and> fm_sender_pseudonym e = mg_sender_pseudonym msg
    \<and> (\<exists>base scope. url = base @ ''/api/federation/messages'' \<and> (base, scope) \<in> set (relay_peers d (server_id cx))
         \<and> scope \<noteq> ''NO_TRANSFER'')
    \<and> (case find_commitment_for_pseudonym C (\<lambda>n. flt (n + 2)) d (mg_sender_pseudonym msg) of
         Inr (Some (commitment, topic)) \<Rightarrow> parse_attestation_ref (fm_attestation_ref e) = Inr (commitment, topic)
           \<and> derive_topic_scoped_pseudonym C commitment topic = Inr (fm_sender_pseudonym e)
       | _ \<Rightarrow> fm_attestation_ref e = ''annex:server:v1:unknown'')"
proof -
  let ?att = "attestation_of C (\<lambda>n. flt (n + 2)) d (mg_sender_pseudonym msg)"
  let ?u = "\<lparr>fm_message_id = mg_message_id msg, fm_channel_id = channel_id, fm_content = mg_content msg,
      fm_sender_pseudonym = mg_sender_pseudonym msg, fm_originating_server = public_url cx,
      fm_attestation_ref = ?att, fm_signature = [], fm_created_at = fmt (mg_created_at msg)\<rparr>"
  have e: "e = ?u\<lparr>fm_signature := sign (message_payload ?u)\<rparr>"
    and peer: "\<exists>base scope. url = base @ ''/api/federation/messages'' \<and> (base, scope) \<in> set (relay_peers d (server_id cx))
         \<and> scope \<noteq> ''NO_TRANSFER''"
    using assms(3) by (auto simp: relay_message_def Let_def split: sum.split_asm if_split_asm)
  have payload: "message_payload e = message_payload ?u" by (simp add: e message_payload_def)
  have parts: "fm_attestation_ref e = ?att" "fm_sender_pseudonym e = mg_sender_pseudonym msg" by (simp_all add: e)
  have "signed_by C P public_key_hex (message_payload e) (fm_signature e)"
    unfolding payload using key_pair_signs [OF assms(1), of "message_payload ?u"] by (simp add: e)
  moreover have "fm_originating_server e = public_url cx" "fm_channel_id e = channel_id"
    "fm_message_id e = mg_message_id msg" "fm_content e = mg_content msg" by (simp_all add: e)
  moreover have "case find_commitment_for_pseudonym C (\<lambda>n. flt (n + 2)) d (mg_sender_pseudonym msg) of
         Inr (Some (c, t)) \<Rightarrow> parse_attestation_ref ?att = Inr (c, t)
           \<and> derive_topic_scoped_pseudonym C c t = Inr (mg_sender_pseudonym msg)
       | _ \<Rightarrow> ?att = ''annex:server:v1:unknown''"
  proof (cases "find_commitment_for_pseudonym C (\<lambda>n. flt (n + 2)) d (mg_sender_pseudonym msg)")
    case (Inr found)
    show ?thesis
    proof (cases found)
      case (Some x)
      obtain c t where x: "x = (c, t)" by (cases x)
      have der: "derive_topic_scoped_pseudonym C c t = Inr (mg_sender_pseudonym msg)"
        using find_commitment_sound [OF assms(2)] Inr unfolding Some x by blast
      then have "is_lower_hex_64 c" "t \<noteq> []" by (simp_all add: topic_scoped_Inr)
      then have "parse_attestation_ref ?att = Inr (c, t)"
        unfolding attestation_of_def Inr Some x using parse_attestation_ref_round [of c t] by simp
      then show ?thesis using der unfolding Inr Some x by simp
    next
      case None
      show ?thesis unfolding attestation_of_def Inr None by simp
    qed
  next
    case (Inl err)
    show ?thesis unfolding attestation_of_def Inl by simp
  qed
  ultimately show ?thesis using peer unfolding parts by (intro conjI) (assumption | rule refl)+
qed

text \<open>
  The check for stale attestations never refuses a message from a peer that runs this code:
  when the peer answers with the object that \<open>get_vrp_root_handler\<close> produces, the attestation
  handler reads its root, but the message handler looks for a member of another name, finds
  none and lets every message pass, whatever root was stored.
\<close>

theorem stale_check_ineffective:
  assumes "http_get P (server @ ''/api/federation/vrp-root'') = HttpReply 200 body"
    and "json_object P body = Some (root_to_json fmt current)"
  shows "fetch_remote_root P server = Inr (rr_root_hex current) \<and> check_stale P server stored = Inr ()"
  using assms
  by (simp add: fetch_remote_root_def check_stale_def remote_root_def root_response_def root_field_def root_to_json_def
      is_success_def split: option.split)

section \<open>Joining a channel\<close>

lemma insert_member_Inr:
  "insert_member_sql now d s c p = Inr d' \<longleftrightarrow>
     \<not> (\<exists>r \<in> set (member_rows d). mb_channel r = c \<and> mb_pseudonym r = p)
     \<and> server_exists d s \<and> channel_exists d c \<and> (\<exists>r \<in> set (platform_rows d). pi_server r = s \<and> pi_pseudonym r = p)
     \<and> d' = d\<lparr>channel_members := auto_insert (\<lambda>i.
             \<lparr>mb_id = i, mb_server = s, mb_channel = c, mb_pseudonym = p, mb_role = ''MEMBER'', mb_joined = now\<rparr>)
             (channel_members d)\<rparr>"
  by (auto simp: insert_member_sql_def exists_where_iff)

text \<open>What \<open>add_member\<close> needs: a readable channel, and membership already or the referenced rows.\<close>

definition joinable :: "serde \<Rightarrow> db \<Rightarrow> int \<Rightarrow> string \<Rightarrow> string \<Rightarrow> bool" where
  "joinable S d s c p \<longleftrightarrow> is_ok (get_channel S d c)
     \<and> ((\<exists>r \<in> set (member_rows d). mb_channel r = c \<and> mb_pseudonym r = p)
        \<or> server_exists d s \<and> (\<exists>r \<in> set (platform_rows d). pi_server r = s \<and> pi_pseudonym r = p))"

lemma get_channel_exists: "is_ok (get_channel S d c) \<Longrightarrow> channel_exists d c"
  by (cases "first_where (\<lambda>r. ch_channel r = c) (channel_rows d)")
    (auto simp: get_channel_def channel_exists_def exists_where_iff dest: first_where_Some)

lemma add_member_spec:
  assumes "add_member S now d s c p = (res, d')"
  shows "(is_ok res \<longleftrightarrow> joinable S d s c p) \<and> (\<not> is_ok res \<longrightarrow> d' = d)
    \<and> (is_ok res \<longrightarrow> (\<exists>r \<in> set (member_rows d'). mb_channel r = c \<and> mb_pseudonym r = p))"
proof (cases "get_channel S d c")
  case (Inl e)
  then show ?thesis using assms by (auto simp: add_member_def joinable_def)
next
  case (Inr ch)
  have ex: "channel_exists d c" by (rule get_channel_exists [of S]) (simp add: Inr)
  show ?thesis
  proof (cases "\<exists>r \<in> set (member_rows d). mb_channel r = c \<and> mb_pseudonym r = p")
    case True
    then have "insert_member_sql now d s c p = Inl (SqliteFailure ConstraintUnique)"
      by (simp add: insert_member_sql_def exists_where_iff)
    then have "res = Inr ()" "d' = d" using assms by (simp_all add: add_member_def Inr)
    then show ?thesis using True Inr by (simp add: joinable_def)
  next
    case new: False
    show ?thesis
    proof (cases "server_exists d s \<and> (\<exists>r \<in> set (platform_rows d). pi_server r = s \<and> pi_pseudonym r = p)")
      case True
      let ?d = "d\<lparr>channel_members := auto_insert (\<lambda>i.
             \<lparr>mb_id = i, mb_server = s, mb_channel = c, mb_pseudonym = p, mb_role = ''MEMBER'', mb_joined = now\<rparr>)
             (channel_members d)\<rparr>"
      have "insert_member_sql now d s c p = Inr ?d" using True new ex unfolding insert_member_Inr by blast
      then have "res = Inr ()" "d' = ?d" using assms by (simp_all add: add_member_def Inr)
      then show ?thesis using True Inr by (simp add: joinable_def)
    next
      case False
      then have "insert_member_sql now d s c p = Inl (SqliteFailure ConstraintForeignKey)"
        using new by (auto simp: insert_member_sql_def exists_where_iff)
      then have "res = Inl (ChDatabase (SqliteFailure ConstraintForeignKey))" "d' = d"
        using assms by (simp_all add: add_member_def Inr)
      then show ?thesis using False new Inr by (simp add: joinable_def)
    qed
  qed
qed

definition join_authorised :: "'f crypto \<Rightarrow> peer_io \<Rightarrow> db \<Rightarrow> string \<Rightarrow> JoinFederatedChannelRequest \<Rightarrow> bool" where
  "join_authorised C P d c q \<longleftrightarrow> (\<exists>i. peer_in_standing d (jf_originating_server q) i
     \<and> signed_by C P (in_public_key i) (c @ newline @ jf_pseudonym_id q) (jf_signature q)
     \<and> (\<exists>r \<in> set (auto_rows (federated_identities d)). fi_remote r = in_id i \<and> fi_pseudonym r = jf_pseudonym_id q))"

lemma join_checks_Inr: "join_checks C P no_faults d c q = Inr () \<longleftrightarrow> join_authorised C P d c q"
  unfolding join_checks_def Let_def peer_in_standing_def join_authorised_def
  by (simp only: res_simps not_not fed_call_none exists_where_iff sum.inject simp_thms ex_simps conj_assoc)

text \<open>
  Joining a federated channel: without engine faults a peer's request succeeds exactly when the
  peer is in standing and signed it, the identity is attested for that peer, and the channel
  can be joined at all; then the identity is a member, and otherwise nothing changes. Whether
  the channel is federated, which capabilities it requires and which alignment it asks of agents
  plays no part: a peer can join its identities to a local channel.
\<close>

theorem join_ignores_federation_scope:
  assumes "join_federated_channel_handler C P S no_faults now cx d c q = (res, d')"
  shows "(is_ok res \<longleftrightarrow> join_authorised C P d c q \<and> joinable S d (server_id cx) c (jf_pseudonym_id q))
    \<and> (if is_ok res then \<exists>r \<in> set (member_rows d'). mb_channel r = c \<and> mb_pseudonym r = jf_pseudonym_id q else d' = d)"
proof (cases "join_checks C P no_faults d c q")
  case (Inl e)
  then have "\<not> join_authorised C P d c q" unfolding join_checks_Inr [symmetric] by simp
  moreover have "res = Inl e" "d' = d" using assms unfolding join_federated_channel_handler_def Inl by simp_all
  ultimately show ?thesis by simp
next
  case (Inr u)
  then have auth: "join_authorised C P d c q" unfolding join_checks_Inr [symmetric] by simp
  obtain r d1 where m: "add_member S now d (server_id cx) c (jf_pseudonym_id q) = (r, d1)"
    by (cases "add_member S now d (server_id cx) c (jf_pseudonym_id q)")
  note run = assms [unfolded join_federated_channel_handler_def Inr sum.case m prod.case]
  have out: "is_ok res = is_ok r \<and> d' = d1"
  proof (cases r)
    case (Inl x)
    show ?thesis using run unfolding Inl by (simp only: sum.case prod.inject is_ok_simps) (elim conjE, hypsubst, simp)
  next
    case (Inr x)
    show ?thesis using run unfolding Inr by (simp only: sum.case prod.inject is_ok_simps) (elim conjE, hypsubst, simp)
  qed
  show ?thesis using add_member_spec [OF m] auth out by simp
qed

section \<open>Attestation\<close>

lemma upsert_federated_identity_row:
  assumes "upsert_federated_identity now s i c p t rt d = Inr d'"
  shows "(\<exists>r \<in> set (auto_rows (federated_identities d')). is_federated_identity s i p r \<and> fi_commitment r = c
       \<and> fi_topic r = t \<and> fi_root r = Some rt \<and> fi_verified r = Some now)
    \<and> platform_identities d' = platform_identities d \<and> graph_nodes d' = graph_nodes d"
proof (cases "exists_where (is_federated_identity s i p) (auto_rows (federated_identities d))")
  case True
  let ?f = "\<lambda>r :: federated_identity_row. r\<lparr>fi_attested := now, fi_commitment := c, fi_topic := t, fi_root := Some rt,
     fi_verified := Some now\<rparr>"
  have d': "d' = d\<lparr>federated_identities := auto_update (is_federated_identity s i p) ?f (federated_identities d)\<rparr>"
    using assms True unfolding upsert_federated_identity_def by simp
  obtain r where r: "r \<in> set (auto_rows (federated_identities d))" "is_federated_identity s i p r"
    using True unfolding exists_where_iff by (rule bexE)
  have "?f r \<in> set (auto_rows (federated_identities d'))"
    using r by (simp add: d' set_update_where) (intro disjI1 exI [of _ r], simp)
  moreover have "is_federated_identity s i p (?f r)" using r(2) by (simp add: is_federated_identity_def)
  ultimately have "\<exists>x \<in> set (auto_rows (federated_identities d')). is_federated_identity s i p x \<and> fi_commitment x = c
       \<and> fi_topic x = t \<and> fi_root x = Some rt \<and> fi_verified x = Some now"
    by (intro bexI [of _ "?f r"]) simp_all
  then show ?thesis by (simp add: d')
next
  case False
  then show ?thesis using assms unfolding upsert_federated_identity_def
    by (simp split: if_split_asm) (hypsubst, simp add: is_federated_identity_def)
qed

text \<open>The identity exists, is active and has the given type; no row gains a capability.\<close>

lemma upsert_platform_identity_row:
  fixes now s p ty d
  defines "d' \<equiv> upsert_platform_identity now s p ty d"
  shows "\<exists>r \<in> set (platform_rows d'). is_identity s p r \<and> pi_active r \<and> pi_type r = ty"
    and "\<forall>r \<in> set (platform_rows d'). pi_caps r = default_capabilities
          \<or> (\<exists>r0 \<in> set (platform_rows d). pi_id r0 = pi_id r \<and> pi_caps r0 = pi_caps r)"
proof (atomize (full), cases "exists_where (is_identity s p) (platform_rows d)")
  case True
  let ?f = "\<lambda>r :: platform_row. r\<lparr>pi_active := True, pi_type := ty\<rparr>"
  have rows: "set (platform_rows d') = {?f r |r. r \<in> set (platform_rows d) \<and> is_identity s p r}
      \<union> {r \<in> set (platform_rows d). \<not> is_identity s p r}"
    using True by (simp add: d'_def upsert_platform_identity_def set_update_where)
  obtain r where r: "r \<in> set (platform_rows d)" "is_identity s p r" using True unfolding exists_where_iff by (rule bexE)
  have "?f r \<in> set (platform_rows d')" unfolding rows using r by (intro UnI1 CollectI exI [of _ r] conjI refl)
  moreover have "is_identity s p (?f r)" using r(2) by (simp add: is_identity_def)
  ultimately have "\<exists>x \<in> set (platform_rows d'). is_identity s p x \<and> pi_active x \<and> pi_type x = ty"
    by (intro bexI [of _ "?f r"]) simp_all
  moreover have "\<exists>r0 \<in> set (platform_rows d). pi_id r0 = pi_id x \<and> pi_caps r0 = pi_caps x" if "x \<in> set (platform_rows d')" for x
    using that unfolding rows
  proof (elim UnE CollectE exE conjE)
    fix r assume "x = ?f r" "r \<in> set (platform_rows d)"
    then show ?thesis by (intro bexI [of _ r]) simp_all
  qed (intro bexI [of _ x], simp_all)
  ultimately show "(\<exists>r \<in> set (platform_rows d'). is_identity s p r \<and> pi_active r \<and> pi_type r = ty)
    \<and> (\<forall>r \<in> set (platform_rows d'). pi_caps r = default_capabilities
        \<or> (\<exists>r0 \<in> set (platform_rows d). pi_id r0 = pi_id r \<and> pi_caps r0 = pi_caps r))"
    by simp
next
  case False
  then have rows: "platform_rows d' = platform_rows d @ [\<lparr>pi_id = auto_next (platform_identities d), pi_server = s, pi_pseudonym = p,
      pi_type = ty, pi_caps = default_capabilities, pi_active = True, pi_created = now, pi_updated = now\<rparr>]"
    by (simp add: d'_def upsert_platform_identity_def)
  show "(\<exists>r \<in> set (platform_rows d'). is_identity s p r \<and> pi_active r \<and> pi_type r = ty)
    \<and> (\<forall>r \<in> set (platform_rows d'). pi_caps r = default_capabilities
        \<or> (\<exists>r0 \<in> set (platform_rows d). pi_id r0 = pi_id r \<and> pi_caps r0 = pi_caps r))"
    unfolding rows by (simp add: is_identity_def) (intro ballI disjI2, rule bexI [rotated], assumption, simp)
qed

lemma upsert_platform_frame [simp]:
  "graph_nodes (upsert_platform_identity now s p ty d) = graph_nodes d"
  "federated_identities (upsert_platform_identity now s p ty d) = federated_identities d"
  by (simp_all add: upsert_platform_identity_def)

lemma ensure_graph_node_frame:
  "snd (ensure_graph_node now d s p ty md) = d\<lparr>graph_nodes := graph_nodes (snd (ensure_graph_node now d s p ty md))\<rparr>"
  by (simp add: ensure_graph_node_def Let_def split: option.split)

lemma attest_transaction_Inr:
  assumes "attest_transaction C flt now s d i rt q = Inr (p, d')"
  obtains d1 ty where "derive_topic_scoped_pseudonym C (at_commitment q) (at_topic q) = Inr p"
    "node_type_of_participant (at_participant_type q) = Some ty"
    "upsert_federated_identity now s i (at_commitment q) p (at_topic q) rt d = Inr d1"
    "d' = snd (ensure_graph_node now (upsert_platform_identity now s p (at_participant_type q) d1) s p ty None)"
proof -
  from assms [unfolded attest_transaction_def res_simps]
  obtain n p' ty d1 where n: "derive_nullifier_hex C (at_commitment q) (at_topic q) = Inr n"
    and p': "derive_pseudonym_id C (at_topic q) n = Inr p'"
    and ty: "node_type_of_participant (at_participant_type q) = Some ty"
    and d1: "upsert_federated_identity now s i (at_commitment q) p' (at_topic q) rt d = Inr d1"
    and rest: "(case ensure_graph_node now (upsert_platform_identity now s p' (at_participant_type q) d1) s p' ty None of
         (Inl e, _) \<Rightarrow> Inl (graph_failure e)
       | (Inr _, d2) \<Rightarrow> and_then (fed_call flt 7) (\<lambda>_. Inr (p', d2))) = Inr (p, d')"
    by (elim exE conjE)
  obtain r d2 where g: "ensure_graph_node now (upsert_platform_identity now s p' (at_participant_type q) d1) s p' ty None = (r, d2)"
    by (cases "ensure_graph_node now (upsert_platform_identity now s p' (at_participant_type q) d1) s p' ty None")
  have "p' = p" "d2 = d'" using rest unfolding g by (simp_all add: res_simps split: sum.split_asm)
  then show ?thesis using that [OF _ ty] n p' d1 g by (simp add: derive_topic_scoped_pseudonym_def)
qed

text \<open>
  C10. An attestation is atomic and grants nothing: it succeeds only for a request signed by the
  known instance it names, whose current root could be fetched and whose proof verifies against
  that root and the commitment; then the identity's pseudonym is the one derived from
  commitment and topic, the attestation is recorded with that root, the identity is active with
  the participant type of the request and its node is in the graph, and no identity has a
  capability it did not have. A request that fails changes nothing.
\<close>

theorem attest_membership_spec:
  assumes "attest_membership_handler C Z P vkey flt now cx d q = (res, d')"
  shows "case res of Inl e \<Rightarrow> d' = d
    | Inr p \<Rightarrow>
       (\<exists>i rt. first_where (\<lambda>i. in_base_url i = at_originating_server q) (instances d) = Some i
          \<and> signed_by C P (in_public_key i) (attestation_payload q) (at_signature q)
          \<and> fetch_remote_root P (at_originating_server q) = Inr rt
          \<and> verify_membership_proof C Z vkey (at_proof q) rt (at_commitment q) = Inr ()
          \<and> (\<exists>r \<in> set (auto_rows (federated_identities d')). is_federated_identity (server_id cx) (in_id i) p r
               \<and> fi_commitment r = at_commitment q \<and> fi_topic r = at_topic q \<and> fi_root r = Some rt \<and> fi_verified r = Some now))
       \<and> derive_topic_scoped_pseudonym C (at_commitment q) (at_topic q) = Inr p
       \<and> (\<exists>r \<in> set (platform_rows d'). is_identity (server_id cx) p r \<and> pi_active r \<and> pi_type r = at_participant_type q)
       \<and> (\<forall>r \<in> set (platform_rows d'). pi_caps r = default_capabilities
            \<or> (\<exists>r0 \<in> set (platform_rows d). pi_id r0 = pi_id r \<and> pi_caps r0 = pi_caps r))
       \<and> (\<exists>n. first_where (is_node (server_id cx) p) (node_rows d') = Some n \<and> gn_active n \<and> gn_last_seen n = Some now)"
proof (cases "and_then (attest_checks C Z P vkey flt d q)
    (\<lambda>(i, rt). attest_transaction C flt now (server_id cx) d i rt q)")
  case (Inl e)
  have "(res, d') = (Inl e, d)" unfolding assms [symmetric] attest_membership_handler_def Inl by simp
  then show ?thesis by simp
next
  case (Inr x)
  obtain p d2 where x: "x = (p, d2)" by (cases x)
  have "(res, d') = (Inr p, d2)" unfolding assms [symmetric] attest_membership_handler_def Inr x by simp
  then have res: "res = Inr p" "d' = d2" by simp_all
  obtain y where y: "attest_checks C Z P vkey flt d q = Inr y"
    and tr: "(case y of (i, rt) \<Rightarrow> attest_transaction C flt now (server_id cx) d i rt q) = Inr (p, d2)"
    using Inr unfolding x and_then_Inr by (elim exE conjE)
  obtain iid rt where yy: "y = (iid, rt)" by (cases y)
  from y [unfolded yy attest_checks_def res_simps] obtain i where i:
    "first_where (\<lambda>i. in_base_url i = at_originating_server q) (instances d) = Some i"
    "signed_by C P (in_public_key i) (attestation_payload q) (at_signature q)"
    "fetch_remote_root P (at_originating_server q) = Inr rt"
    "verify_membership_proof C Z vkey (at_proof q) rt (at_commitment q) = Inr ()" "iid = in_id i"
    by (elim exE conjE) (simp only: sum.inject prod.inject, elim conjE, hypsubst, simp)
  from attest_transaction_Inr [OF tr [unfolded yy prod.case]] obtain d1 ty where
      der: "derive_topic_scoped_pseudonym C (at_commitment q) (at_topic q) = Inr p"
    and up: "upsert_federated_identity now (server_id cx) iid (at_commitment q) p (at_topic q) rt d = Inr d1"
    and d2: "d2 = snd (ensure_graph_node now (upsert_platform_identity now (server_id cx) p (at_participant_type q) d1) (server_id cx) p ty None)"
    by blast
  note fed = upsert_federated_identity_row [OF up]
  let ?d = "upsert_platform_identity now (server_id cx) p (at_participant_type q) d1"
  have frame: "federated_identities d2 = federated_identities d1" "platform_identities d2 = platform_identities ?d"
    by (subst d2, subst ensure_graph_node_frame, simp)+
  have node: "\<exists>n. first_where (is_node (server_id cx) p) (node_rows d2) = Some n \<and> gn_active n \<and> gn_last_seen n = Some now"
    unfolding d2 by (rule ensure_row [of "server_id cx" p now ?d ty None]) blast
  show ?thesis
    unfolding res sum.case frame
    using i fed der node upsert_platform_identity_row [where d = d1 and now = now and s = "server_id cx" and p = p and ty = "at_participant_type q"]
    by simp
qed

section \<open>Relayed bundles\<close>

text \<open>What the code checks of an envelope, and the scope it applies.\<close>

definition bundle_admissible ::
  "'f crypto \<Rightarrow> peer_io \<Rightarrow> app_context \<Rightarrow> db \<Rightarrow> FederatedRtxEnvelope \<Rightarrow> VrpTransferScope \<Rightarrow> bool" where
  "bundle_admissible C P cx d e scope \<longleftrightarrow> (\<exists>i a.
     first_where (\<lambda>i. in_base_url i = env_relaying_server e) (instances d) = Some i \<and> in_status i = ''ACTIVE''
     \<and> (public_url cx = [] \<or> public_url cx \<notin> set (relay_path (env_provenance e)))
     \<and> (\<exists>r \<in> set (instances d). in_base_url r = origin_server (env_provenance e))
     \<and> first_where (\<lambda>a. ag_remote a = in_id i \<and> ag_active a) (agreement_rows d) = Some a
     \<and> ag_scope a = scope_to_string scope \<and> scope \<noteq> VrpTransferScope.NoTransfer
     \<and> signed_by C P (in_public_key i) (rtx_relay_signing_payload (bundle_id (env_bundle e)) (env_relaying_server e)
          (origin_server (env_provenance e)) (relay_path (env_provenance e))) (env_signature e)
     \<and> validate_bundle_structure (env_bundle e) = Inr ())"

lemma receive_rtx_checks_Inr:
  assumes "receive_rtx_checks C P flt cx d e = Inr (scope, scoped)"
  shows "bundle_admissible C P cx d e scope \<and> scoped = scoped_by scope (env_bundle e)"
proof -
  note e = assms [unfolded receive_rtx_checks_def Let_def res_simps not_not exists_where_iff]
  from e show ?thesis
  proof (elim exE conjE)
    fix i a sc b u
    assume i: "first_where (\<lambda>i. in_base_url i = env_relaying_server e) (instances d) = Some i" "in_status i = ''ACTIVE''"
      and path: "\<not> (public_url cx \<noteq> [] \<and> public_url cx \<in> set (relay_path (env_provenance e)))"
      and known: "\<exists>r \<in> set (instances d). in_base_url r = origin_server (env_provenance e)"
      and a: "first_where (\<lambda>a. ag_remote a = in_id i \<and> ag_active a) (agreement_rows d) = Some a"
      and sc: "parse_transfer_scope (ag_scope a) = Some sc" "\<not> sc < VrpTransferScope.ReflectionSummariesOnly"
      and sig: "signed_by C P (in_public_key i) (rtx_relay_signing_payload (bundle_id (env_bundle e)) (env_relaying_server e)
          (origin_server (env_provenance e)) (relay_path (env_provenance e))) (env_signature e)"
      and v: "validate_bundle_structure (env_bundle e) = Inr u"
      and en: "enforce_transfer_scope (env_bundle e) sc = Inr b" and r: "(Inr (sc, b) :: FederationError + _) = Inr (scope, scoped)"
    have sc': "ag_scope a = scope_to_string scope" "scope \<noteq> VrpTransferScope.NoTransfer"
      using sc r unfolding not_less scope_at_least_summaries parse_transfer_scope_iff by simp_all
    have "b = scoped" "sc = scope" using r by simp_all
    then have "scoped = scoped_by scope (env_bundle e)" using en unfolding enforce_scope_Inr scoped_by_def by simp
    moreover have "bundle_admissible C P cx d e scope"
      unfolding bundle_admissible_def using i path known a sc' sig v
      by (intro exI [of _ i] exI [of _ a] conjI) simp_all
    ultimately show ?thesis by blast
  qed
qed

lemma receive_rtx_checks_ok:
  assumes "bundle_admissible C P cx d e scope"
  shows "receive_rtx_checks C P no_faults cx d e = Inr (scope, scoped_by scope (env_bundle e))"
  using assms unfolding bundle_admissible_def
proof (elim exE conjE)
  fix i a
  assume i: "first_where (\<lambda>i. in_base_url i = env_relaying_server e) (instances d) = Some i" "in_status i = ''ACTIVE''"
    and path: "public_url cx = [] \<or> public_url cx \<notin> set (relay_path (env_provenance e))"
    and known: "\<exists>r \<in> set (instances d). in_base_url r = origin_server (env_provenance e)"
    and a: "first_where (\<lambda>a. ag_remote a = in_id i \<and> ag_active a) (agreement_rows d) = Some a"
      "ag_scope a = scope_to_string scope" "scope \<noteq> VrpTransferScope.NoTransfer"
    and sig: "signed_by C P (in_public_key i) (rtx_relay_signing_payload (bundle_id (env_bundle e)) (env_relaying_server e)
        (origin_server (env_provenance e)) (relay_path (env_provenance e))) (env_signature e)"
    and v: "validate_bundle_structure (env_bundle e) = Inr ()"
  have "\<not> scope < VrpTransferScope.ReflectionSummariesOnly" using a(3) unfolding not_less scope_at_least_summaries .
  moreover have "enforce_transfer_scope (env_bundle e) scope = Inr (scoped_by scope (env_bundle e))"
    using a(3) by (simp add: enforce_scope_Inr scoped_by_def)
  ultimately show ?thesis
    unfolding receive_rtx_checks_def Let_def res_simps not_not exists_where_iff fed_call_none
    using i path known a sig v
    by (intro conjI exI [of _ i] exI [of _ a] exI [of _ scope] exI [of _ "scoped_by scope (env_bundle e)"] exI [of _ "()"])
      (simp_all add: parse_transfer_scope_iff)
qed

lemma bundle_admissible_frame:
  "instances d' = instances d \<Longrightarrow> agreement_rows d' = agreement_rows d \<Longrightarrow>
   bundle_admissible C P cx d' e scope = bundle_admissible C P cx d e scope"
  by (simp add: bundle_admissible_def)

lemma store_bundle_again:
  "bundle_id b \<in> rb_bundle ` set (bundle_rows d) \<Longrightarrow> store_bundle J now s prov b d = Inl (SqliteFailure ConstraintUnique)"
  by (simp add: store_bundle_def exists_where_key)

lemma store_bundle_Inl: "store_bundle J now s prov b d = Inl x \<Longrightarrow> \<exists>code. x = SqliteFailure code \<and> constraint_violation code"
  by (auto simp: store_bundle_def split: if_splits)

lemma receive_rtx_transaction_Inr:
  assumes "receive_rtx_transaction J flt now cx d e scope scoped = Inr (deliveries, d')"
  obtains (duplicate) code where "store_bundle J now (server_id cx) (Some (provenance_to_json J (env_provenance e))) scoped d
      = Inl (SqliteFailure code)" "constraint_violation code" "deliveries = []" "d' = d"
  | (stored) d1 d2 where "store_bundle J now (server_id cx) (Some (provenance_to_json J (env_provenance e))) scoped d = Inr d1"
      "log_transfer now (server_id cx) scoped None scope (redactions_of (env_bundle e) scoped) d1 = Inr d2"
      "(deliveries, d') = deliver J flt 10 now (server_id cx) (\<lambda>b. RelayedBundle b (env_provenance e)) scoped
         (subscribers d2 (server_id cx) rs_federated) d2"
proof (cases "store_bundle J now (server_id cx) (Some (provenance_to_json J (env_provenance e))) scoped d")
  case (Inl x)
  obtain code where x: "x = SqliteFailure code" "constraint_violation code" using store_bundle_Inl [OF Inl] by blast
  have "deliveries = []" "d' = d"
    using assms x(2) unfolding receive_rtx_transaction_def Let_def Inl x(1) by (simp_all add: res_simps)
  then show ?thesis using duplicate Inl x by simp
next
  case (Inr d1)
  note rest = assms [unfolded receive_rtx_transaction_def Let_def Inr sum.case res_simps]
  from rest obtain d2 where d2: "log_transfer now (server_id cx) scoped None scope (redactions_of (env_bundle e) scoped) d1 = Inr d2"
    and del: "(case deliver J flt 10 now (server_id cx) (\<lambda>b. RelayedBundle b (env_provenance e)) scoped
         (subscribers d2 (server_id cx) rs_federated) d2 of
       (deliveries, d3) \<Rightarrow> and_then (fed_call flt 9) (\<lambda>_. Inr (deliveries, d3))) = Inr (deliveries, d')"
    by (elim exE conjE)
  have "(deliveries, d') = deliver J flt 10 now (server_id cx) (\<lambda>b. RelayedBundle b (env_provenance e)) scoped
         (subscribers d2 (server_id cx) rs_federated) d2"
    using del by (simp add: res_simps split: prod.split_asm)
  then show ?thesis using stored Inr d2 by simp
qed

text \<open>
  C9. A relayed bundle is accepted only from an active instance with an active agreement that permits
  transfer, with an envelope signed by it, from a known origin, never back to a server on its path,
  and well formed. It is stored at most once, cut down by the agreement's scope, and delivered
  only to agents that accept federated bundles, as their own scope lets it through; a refused or
  repeated one changes nothing, and receiving the same envelope again is such a repetition.
\<close>

theorem federated_bundle_accepted:
  assumes "receive_federated_rtx_handler C P J flt now cx d e = (res, d')"
  shows "(\<not> is_ok res \<longrightarrow> d' = d)
    \<and> (\<forall>deliveries. res = Inr deliveries \<longrightarrow> (\<exists>scope. bundle_admissible C P cx d e scope
         \<and> (deliveries = [] \<and> d' = d
            \<or> (\<exists>r. bundle_rows d' = bundle_rows d @ [r] \<and> rb_bundle r = bundle_id (env_bundle e)
                 \<and> rb_reasoning r = reasoning_chain (scoped_by scope (env_bundle e)))
              \<and> bundle_id (env_bundle e) \<notin> rb_bundle ` set (bundle_rows d)
              \<and> (\<forall>(p, x) \<in> set deliveries. (\<exists>r \<in> set (subscription_rows d). rs_federated r \<and> rs_subscriber r = p)
                   \<and> (\<exists>receiver. entitled J d (server_id cx) (env_bundle e) p receiver
                        \<and> x = RelayedBundle (scoped_by receiver (scoped_by scope (env_bundle e))) (env_provenance e))))))
    \<and> (is_ok res \<longrightarrow> receive_federated_rtx_handler C P J no_faults now' cx d' e = (Inr [], d'))"
proof (cases "and_then (receive_rtx_checks C P flt cx d e)
    (\<lambda>(scope, scoped). receive_rtx_transaction J flt now cx d e scope scoped)")
  case (Inl err)
  have "(res, d') = (Inl err, d)" unfolding assms [symmetric] receive_federated_rtx_handler_def Inl by simp
  then show ?thesis by simp
next
  case (Inr y)
  obtain deliveries d2 where y: "y = (deliveries, d2)" by (cases y)
  have "(res, d') = (Inr deliveries, d2)" unfolding assms [symmetric] receive_federated_rtx_handler_def Inr y by simp
  then have res: "res = Inr deliveries" "d2 = d'" by simp_all
  obtain z where z: "receive_rtx_checks C P flt cx d e = Inr z"
    and tr: "(case z of (scope, scoped) \<Rightarrow> receive_rtx_transaction J flt now cx d e scope scoped) = Inr (deliveries, d2)"
    using Inr unfolding y and_then_Inr by (elim exE conjE)
  obtain scope scoped where zz: "z = (scope, scoped)" by (cases z)
  have adm: "bundle_admissible C P cx d e scope" and scoped: "scoped = scoped_by scope (env_bundle e)"
    using receive_rtx_checks_Inr [OF z [unfolded zz]] by simp_all
  let ?s = "server_id cx" and ?mk = "\<lambda>b. RelayedBundle b (env_provenance e)"
  show ?thesis using tr [unfolded zz prod.case res(2)]
  proof (cases rule: receive_rtx_transaction_Inr)
    case (duplicate code)
    have "\<exists>code. store_bundle J now' ?s (Some (provenance_to_json J (env_provenance e))) scoped d = Inl (SqliteFailure code)
        \<and> constraint_violation code"
      using duplicate(1,2) by (auto simp: store_bundle_def split: if_splits)
    then have "receive_federated_rtx_handler C P J no_faults now' cx d e = (Inr [], d)"
      unfolding receive_federated_rtx_handler_def receive_rtx_checks_ok [OF adm]
      by (elim exE conjE) (simp add: receive_rtx_transaction_def Let_def scoped [symmetric])
    then show ?thesis using duplicate(3,4) res(1) adm by auto
  next
    case (stored d1 d3)
    obtain r where r: "d1 = d\<lparr>rtx_bundles := auto_insert r (rtx_bundles d)\<rparr>"
        "\<forall>x \<in> set (bundle_rows d). rb_bundle x \<noteq> bundle_id scoped" "\<And>i. rb_bundle (r i) = bundle_id scoped"
        "\<And>i. rb_reasoning (r i) = reasoning_chain scoped"
      by (rule store_bundle_Inr [OF stored(1)]) (rule that)
    obtain l where l: "d3 = d1\<lparr>rtx_transfer_log := auto_insert l (rtx_transfer_log d1)\<rparr>"
      by (rule log_transfer_Inr [OF stored(2)]) (rule that)
    have subs: "subscribers d3 ?s rs_federated = subscribers d ?s rs_federated" unfolding l r(1) by simp
    have dels: "deliveries = fst (deliver J flt 10 now ?s ?mk scoped (subscribers d ?s rs_federated) d3)"
      and d': "d' = snd (deliver J flt 10 now ?s ?mk scoped (subscribers d ?s rs_federated) d3)"
      unfolding subs [symmetric] stored(3) [symmetric] by simp_all
    have frame: "bundle_rows d' = bundle_rows d3" "instances d' = instances d" "agreement_rows d' = agreement_rows d"
      unfolding d' by (subst deliver_frame, simp add: l r(1))+
    have rows: "bundle_rows d' = bundle_rows d @ [r (auto_seq (rtx_bundles d) + 1)]" unfolding frame(1) by (simp add: l r(1))
    have id: "bundle_id scoped = bundle_id (env_bundle e)" by (simp add: scoped)
    have new: "bundle_id (env_bundle e) \<notin> rb_bundle ` set (bundle_rows d)" using key_not_image [OF r(2)] by (simp add: id)
    have each: "\<forall>(p, x) \<in> set deliveries. (\<exists>r \<in> set (subscription_rows d). rs_federated r \<and> rs_subscriber r = p)
        \<and> (\<exists>receiver. entitled J d ?s (env_bundle e) p receiver
              \<and> x = RelayedBundle (scoped_by receiver (scoped_by scope (env_bundle e))) (env_provenance e))"
    proof (intro ballI, simp only: split_paired_all prod.case)
      fix p x assume "(p, x) \<in> set deliveries"
      then have "\<exists>sc. entitled J d ?s scoped p sc \<and> x = ?mk (scoped_by sc scoped)
          \<and> (\<exists>r \<in> set (subscription_rows d). rs_federated r \<and> rs_subscriber r = p)"
        unfolding dels by (rule delivery_entitled [where w = rs_federated])
      moreover have "entitled J d ?s scoped p sc = entitled J d ?s (env_bundle e) p sc" for sc
        by (simp add: entitled_def scoped)
      ultimately show "(\<exists>r \<in> set (subscription_rows d). rs_federated r \<and> rs_subscriber r = p)
        \<and> (\<exists>receiver. entitled J d ?s (env_bundle e) p receiver
              \<and> x = RelayedBundle (scoped_by receiver (scoped_by scope (env_bundle e))) (env_provenance e))"
        unfolding scoped by blast
    qed
    have "bundle_id scoped \<in> rb_bundle ` set (bundle_rows d')" unfolding rows by (simp add: r(3))
    note again = store_bundle_again [OF this, of J now' ?s "Some (provenance_to_json J (env_provenance e))"]
    have "bundle_admissible C P cx d' e scope" using adm unfolding bundle_admissible_frame [OF frame(2,3)] .
    then have rep: "receive_federated_rtx_handler C P J no_faults now' cx d' e = (Inr [], d')"
      unfolding receive_federated_rtx_handler_def
      by (simp add: receive_rtx_checks_ok receive_rtx_transaction_def Let_def scoped [symmetric] again)
    have row: "\<exists>x. bundle_rows d' = bundle_rows d @ [x] \<and> rb_bundle x = bundle_id (env_bundle e)
        \<and> rb_reasoning x = reasoning_chain (scoped_by scope (env_bundle e))"
      by (rule exI [of _ "r (auto_seq (rtx_bundles d) + 1)"]) (simp add: rows r(3,4) id scoped)
    show ?thesis unfolding res(1)
    proof (intro conjI impI allI)
      fix ds assume "(Inr deliveries :: FederationError + _) = Inr ds"
      then have ds: "ds = deliveries" by simp
      show "\<exists>scope. bundle_admissible C P cx d e scope
         \<and> (ds = [] \<and> d' = d
            \<or> (\<exists>r. bundle_rows d' = bundle_rows d @ [r] \<and> rb_bundle r = bundle_id (env_bundle e)
                 \<and> rb_reasoning r = reasoning_chain (scoped_by scope (env_bundle e)))
              \<and> bundle_id (env_bundle e) \<notin> rb_bundle ` set (bundle_rows d)
              \<and> (\<forall>(p, x) \<in> set ds. (\<exists>r \<in> set (subscription_rows d). rs_federated r \<and> rs_subscriber r = p)
                   \<and> (\<exists>receiver. entitled J d (server_id cx) (env_bundle e) p receiver
                        \<and> x = RelayedBundle (scoped_by receiver (scoped_by scope (env_bundle e))) (env_provenance e))))"
        unfolding ds by (rule exI [of _ scope], intro conjI disjI2) (rule adm row new each)+
    qed (simp_all add: rep)
  qed
qed

end
