(* ===== verification/Annex_Peers_Demo.thy ===== *)
theory Annex_Peers_Demo
  imports Annex_Peers
begin

text \<open>
  A concrete server with one federated peer, on which the properties of the federation
  handlers are applied: signatures are the first 64 characters of the signed text, every
  proof verifies, and the peer answers with one fixed root.
\<close>

definition demo_signature :: "string \<Rightarrow> bytes" where
  "demo_signature m = take 64 (m @ replicate 64 (CHR ''-''))"

definition demo_io :: peer_io where
  "demo_io = \<lparr>http_get = (\<lambda>_. HttpReply 200 demo_commitment), 
     json_object = (\<lambda>body. Some (root_to_json (\<lambda>_. []) \<lparr>rr_root_hex = body, rr_leaf_count = 1, rr_updated_at = None\<rparr>)),
     key_ok = (\<lambda>_. True), ed_verify = (\<lambda>_ m s. s = demo_signature m)\<rparr>"

definition demo_public_key :: string where
  "demo_public_key = hex_enc (replicate 32 (CHR ''k''))"

definition demo_sign :: "string \<Rightarrow> string" where
  "demo_sign m = hex_enc (demo_signature m)"

lemma demo_hex_decode [simp]: "hex_decode demo_crypto = hex_dec"
  by (simp add: demo_crypto_def)

lemma demo_signature_length [simp]: "length (demo_signature m) = 64"
  unfolding demo_signature_def by (cases "length m \<le> 64") auto

lemma demo_key_pair: "key_pair demo_crypto demo_io demo_sign demo_public_key"
  by (simp add: key_pair_def demo_public_key_def demo_sign_def hex_dec_enc demo_io_def)

lemma demo_signed: "signed_by demo_crypto demo_io demo_public_key m (demo_sign m)"
  by (rule key_pair_signs [OF demo_key_pair])

definition demo_instance :: instance_row where
  "demo_instance = \<lparr>in_id = 7, in_base_url = ''http://b'', in_public_key = demo_public_key, in_label = [], in_status = ''ACTIVE''\<rparr>"

definition demo_full_agreement :: agreement_row where
  "demo_full_agreement = (demo_agreement 0)\<lparr>ag_scope := scope_to_string VrpTransferScope.ReflectionSummariesOnly\<rparr>"

definition demo_identity :: platform_row where
  "demo_identity = \<lparr>pi_id = 1, pi_server = 1, pi_pseudonym = ''p7'', pi_type = ''HUMAN'', pi_caps = default_capabilities,
     pi_active = True, pi_created = 0, pi_updated = 0\<rparr>"

definition demo_attested :: federated_identity_row where
  "demo_attested = \<lparr>fi_id = 1, fi_server = 1, fi_remote = 7, fi_commitment = demo_commitment, fi_pseudonym = ''p7'',
     fi_topic = ''t'', fi_attested = 0, fi_root = Some demo_commitment, fi_verified = Some 0\<rparr>"

text \<open>Channel \<open>f\<close> is federated, channel \<open>c\<close> is local; the identity is a member of the first.\<close>

definition demo_peers :: db where
  "demo_peers = demo_exchange\<lparr>
     instances := [demo_instance],
     federation_agreements := \<lparr>auto_rows = [demo_full_agreement], auto_seq = 1\<rparr>,
     federated_identities := \<lparr>auto_rows = [demo_attested], auto_seq = 1\<rparr>,
     platform_identities := \<lparr>auto_rows = [demo_identity], auto_seq = 1\<rparr>,
     channels := \<lparr>auto_rows = [demo_channel 1 ''c'', (demo_channel 2 ''f'')\<lparr>ch_scope := ''F''\<rparr>], auto_seq = 2\<rparr>,
     channel_members := \<lparr>auto_rows = [\<lparr>mb_id = 1, mb_server = 1, mb_channel = ''f'', mb_pseudonym = ''p7'',
        mb_role = ''MEMBER'', mb_joined = 0\<rparr>], auto_seq = 1\<rparr>\<rparr>"

lemma demo_peers_tables [simp]:
  "instances demo_peers = [demo_instance]" "agreement_rows demo_peers = [demo_full_agreement]"
  "auto_rows (federated_identities demo_peers) = [demo_attested]" "platform_rows demo_peers = [demo_identity]"
  "channel_rows demo_peers = [demo_channel 1 ''c'', (demo_channel 2 ''f'')\<lparr>ch_scope := ''F''\<rparr>]"
  "message_rows demo_peers = []" "bundle_rows demo_peers = []"
  "member_rows demo_peers = [\<lparr>mb_id = 1, mb_server = 1, mb_channel = ''f'', mb_pseudonym = ''p7'', mb_role = ''MEMBER'', mb_joined = 0\<rparr>]"
  "servers demo_peers = [\<lparr>sv_id = 1, sv_slug = ''a'', sv_label = ''A'', sv_policy_json = []\<rparr>]"
  by (simp_all add: demo_peers_def demo_exchange_def)

lemma demo_rows [simp]:
  "in_id demo_instance = 7" "in_base_url demo_instance = ''http://b''" "in_public_key demo_instance = demo_public_key"
  "in_status demo_instance = ''ACTIVE''"
  "ag_remote demo_full_agreement = 7" "ag_active demo_full_agreement" "ag_server demo_full_agreement = 1"
  "fi_remote demo_attested = 7" "fi_commitment demo_attested = demo_commitment" "fi_pseudonym demo_attested = ''p7''"
  "fi_root demo_attested = Some demo_commitment"
  by (simp_all add: demo_instance_def demo_full_agreement_def demo_agreement_def demo_attested_def)

lemma demo_standing: "peer_in_standing demo_peers ''http://b'' demo_instance"
  by (simp add: peer_in_standing_def)

lemma demo_fresh: "fresh demo_io url demo_attested"
  by (simp add: fresh_def remote_root_def demo_io_def is_success_def root_field_def root_to_json_def)

section \<open>Messages\<close>

definition demo_envelope :: FederatedMessageEnvelope where
  "demo_envelope = (let unsigned = \<lparr>fm_message_id = ''m'', fm_channel_id = ''f'', fm_content = ''hi'', fm_sender_pseudonym = ''x'',
       fm_originating_server = ''http://b'', fm_attestation_ref = ''t'' @ '':'' @ demo_commitment, fm_signature = [],
       fm_created_at = ''now''\<rparr>
     in unsigned\<lparr>fm_signature := demo_sign (message_payload unsigned)\<rparr>)"

lemma demo_envelope_fields:
  "fm_message_id demo_envelope = ''m''" "fm_channel_id demo_envelope = ''f''"
  "fm_originating_server demo_envelope = ''http://b''" "fm_attestation_ref demo_envelope = ''t'' @ '':'' @ demo_commitment"
  "fm_signature demo_envelope = demo_sign (message_payload demo_envelope)" "fm_content demo_envelope = ''hi''"
  by (simp_all add: demo_envelope_def Let_def message_payload_def)

lemma demo_channels:
  "\<exists>ch. get_channel demo_serde demo_peers ''f'' = Inr ch \<and> cn_federation_scope ch = Federated"
  "\<exists>ch. get_channel demo_serde demo_peers ''c'' = Inr ch \<and> cn_federation_scope ch = Local"
  by (simp_all add: get_channel_def map_row_to_channel_def demo_serde_def)

lemma demo_admissible: "message_admissible demo_crypto demo_io demo_serde 1 demo_peers demo_envelope ''p7''"
proof -
  obtain ch where ch: "get_channel demo_serde demo_peers ''f'' = Inr ch" "cn_federation_scope ch = Federated"
    using demo_channels(1) by blast
  have sig: "signed_by demo_crypto demo_io demo_public_key (message_payload demo_envelope) (fm_signature demo_envelope)"
    unfolding demo_envelope_fields(5) by (rule demo_signed)
  have ref: "parse_attestation_ref (fm_attestation_ref demo_envelope) = Inr (demo_commitment, ''t'')"
    unfolding demo_envelope_fields by (rule parse_attestation_ref_round) (simp_all add: demo_commitment_format)
  show ?thesis
    unfolding message_admissible_def
    by (intro exI [of _ demo_instance] exI [of _ demo_commitment] exI [of _ "''t''"] exI [of _ demo_attested] exI [of _ ch])
      (use demo_standing sig ref ch demo_fresh in \<open>simp add: demo_envelope_fields(2,3) attested_def is_member_def is_member_row_def exists_where_def\<close>)
qed

theorem federated_message_accepted_witness:
  "\<exists>sent d'. receive_federated_message_handler demo_crypto demo_io demo_serde no_faults 5 demo_context demo_peers demo_envelope
       = (Inr sent, d') \<and> sent \<noteq> []
     \<and> receive_federated_message_handler demo_crypto demo_io demo_serde no_faults 6 demo_context d' demo_envelope = (Inr [], d')"
proof -
  obtain res d' where r: "receive_federated_message_handler demo_crypto demo_io demo_serde no_faults 5 demo_context demo_peers demo_envelope
      = (res, d')" by (cases "receive_federated_message_handler demo_crypto demo_io demo_serde no_faults 5 demo_context demo_peers demo_envelope")
  have "receive_checks demo_crypto demo_io demo_serde no_faults demo_context demo_peers demo_envelope = Inr ''p7''"
    using demo_admissible by (simp add: receive_checks_Inr demo_context_def)
  then have "\<exists>sent. res = Inr sent \<and> sent \<noteq> []"
    using r by (auto simp: receive_federated_message_handler_def create_message_def resolve_retention_days_def
        demo_envelope_fields Let_def exists_where_def channel_exists_def server_exists_def)
  then obtain sent where "res = Inr sent" "sent \<noteq> []" by blast
  then show ?thesis using federated_message_accepted [OF r, of 6] r by (intro exI [of _ sent] exI [of _ d']) simp
qed

theorem stale_check_ineffective_witness:
  "fetch_remote_root demo_io ''http://b'' = Inr demo_commitment \<and> check_stale demo_io ''http://b'' ''0123'' = Inr ()"
  using stale_check_ineffective [of demo_io "''http://b''" demo_commitment "\<lambda>_. []"
      "\<lparr>rr_root_hex = demo_commitment, rr_leaf_count = 1, rr_updated_at = None\<rparr>" "''0123''"]
  by (simp add: demo_io_def)

text \<open>A sender whose nullifier row carries the denormalised columns.\<close>

definition demo_nullifier :: string where
  "demo_nullifier = sha256_hex demo_crypto (demo_commitment @ '':'' @ ''t'')"

definition demo_sender_pseudonym :: string where
  "demo_sender_pseudonym = sha256_hex demo_crypto (''t'' @ '':'' @ demo_nullifier)"

definition demo_relaying :: db where
  "demo_relaying = demo_peers\<lparr>zk_nullifiers := [\<lparr>nf_topic = ''t'', nf_nullifier = demo_nullifier,
     nf_pseudonym = Some demo_sender_pseudonym, nf_commitment = Some demo_commitment\<rparr>]\<rparr>"

lemma demo_consistent: "nullifiers_consistent demo_crypto demo_relaying"
  using sha256_hex_format [OF demo_hex_laws demo_sha_laws, of "demo_commitment @ '':'' @ ''t''"]
  by (simp add: nullifiers_consistent_def demo_relaying_def derive_nullifier_hex_Inr derive_pseudonym_id_Inr
      demo_commitment_format demo_nullifier_def demo_sender_pseudonym_def)

definition demo_sent :: Message where
  "demo_sent = (map_row_to_message (demo_message 1 ''f'' ''m''))\<lparr>mg_sender_pseudonym := demo_sender_pseudonym\<rparr>"

definition demo_relayed :: "(string \<times> FederatedMessageEnvelope) list" where
  "demo_relayed = relay_message demo_crypto demo_sign (\<lambda>_. ''now'') no_faults True demo_context demo_relaying ''f'' demo_sent"

theorem relayed_message_verifies_witness:
  "\<exists>url e. (url, e) \<in> set demo_relayed \<and> url = ''http://b/api/federation/messages''
     \<and> signed_by demo_crypto demo_io demo_public_key (message_payload e) (fm_signature e)
     \<and> parse_attestation_ref (fm_attestation_ref e) = Inr (demo_commitment, ''t'')
     \<and> derive_topic_scoped_pseudonym demo_crypto demo_commitment ''t'' = Inr (fm_sender_pseudonym e)"
proof -
  have "\<exists>e. (''http://b/api/federation/messages'', e) \<in> set demo_relayed"
    by (simp add: demo_relayed_def relay_message_def Let_def relay_peers_def demo_context_def demo_relaying_def
        demo_full_agreement_def demo_agreement_def demo_instance_def)
  then obtain e where e: "(''http://b/api/federation/messages'', e) \<in> set demo_relayed" by blast
  have "find_commitment_for_pseudonym demo_crypto (\<lambda>n. no_faults (n + 2)) demo_relaying (mg_sender_pseudonym demo_sent)
      = Inr (Some (demo_commitment, ''t''))"
    by (simp add: find_commitment_for_pseudonym_def guard_fault_def no_faults_def demo_relaying_def demo_sent_def)
  with e show ?thesis
    using relayed_message_verifies [OF demo_key_pair demo_consistent e [unfolded demo_relayed_def]] by auto
qed

section \<open>Channels and attestations\<close>

definition demo_join :: JoinFederatedChannelRequest where
  "demo_join = \<lparr>jf_originating_server = ''http://b'', jf_pseudonym_id = ''p7'', jf_signature = demo_sign (''c'' @ newline @ ''p7'')\<rparr>"

theorem join_ignores_federation_scope_witness:
  "\<exists>ch d'. get_channel demo_serde demo_peers ''c'' = Inr ch \<and> cn_federation_scope ch = Local
     \<and> join_federated_channel_handler demo_crypto demo_io demo_serde no_faults 5 demo_context demo_peers ''c'' demo_join = (Inr (), d')
     \<and> (\<exists>r \<in> set (member_rows d'). mb_channel r = ''c'' \<and> mb_pseudonym r = ''p7'')"
proof -
  let ?run = "join_federated_channel_handler demo_crypto demo_io demo_serde no_faults 5 demo_context demo_peers ''c'' demo_join"
  obtain res d' where r: "?run = (res, d')" by (cases ?run)
  have "join_authorised demo_crypto demo_io demo_peers ''c'' demo_join"
    unfolding join_authorised_def
    by (rule exI [of _ demo_instance]) (use demo_standing demo_signed in \<open>simp add: demo_join_def\<close>)
  moreover obtain ch where ch: "get_channel demo_serde demo_peers ''c'' = Inr ch" "cn_federation_scope ch = Local"
    using demo_channels(2) by blast
  then have "joinable demo_serde demo_peers (server_id demo_context) ''c'' (jf_pseudonym_id demo_join)"
    by (simp add: joinable_def server_exists_def exists_where_def demo_context_def demo_join_def demo_identity_def)
  ultimately have ok: "is_ok res" using join_ignores_federation_scope [OF r] by simp
  have "jf_pseudonym_id demo_join = ''p7''" by (simp add: demo_join_def)
  then have "\<exists>r \<in> set (member_rows d'). mb_channel r = ''c'' \<and> mb_pseudonym r = ''p7''"
    using join_ignores_federation_scope [OF r] ok by simp
  moreover from ok have "res = Inr ()" by (cases res) simp_all
  ultimately show ?thesis using ch r by blast
qed

definition demo_attestation :: AttestationRequest where
  "demo_attestation = (let unsigned = \<lparr>at_originating_server = ''http://b'', at_topic = ''t'', at_commitment = demo_commitment,
       at_proof = [], at_participant_type = ''AI_AGENT'', at_signature = []\<rparr>
     in unsigned\<lparr>at_signature := demo_sign (attestation_payload unsigned)\<rparr>)"

lemma demo_attestation_fields:
  "at_originating_server demo_attestation = ''http://b''" "at_topic demo_attestation = ''t''"
  "at_commitment demo_attestation = demo_commitment" "at_participant_type demo_attestation = ''AI_AGENT''"
  "at_signature demo_attestation = demo_sign (attestation_payload demo_attestation)"
  by (simp_all add: demo_attestation_def Let_def attestation_payload_def)

lemma demo_proof_valid:
  "verify_membership_proof demo_crypto demo_snark (generate_dummy_vkey demo_snark) js demo_commitment demo_commitment = Inr ()"
proof -
  have "\<exists>bs. hex_dec demo_commitment = Some bs"
    by (rule hex_dec_total) (use demo_commitment_format in \<open>auto simp: is_lower_hex_64_def list_all_iff is_ascii_hexdigit_def\<close>)
  then show ?thesis
    by (auto simp: verify_membership_proof_def parse_fr_from_hex_def verify_proof_def parse_proof_def parse_g1_def parse_g2_def
        parse_fq_def validate_g1_def validate_g2_def demo_snark_def)
qed

theorem attest_membership_spec_witness:
  "\<exists>p d'. attest_membership_handler demo_crypto demo_snark demo_io (generate_dummy_vkey demo_snark) no_faults 5 demo_context
       demo_peers demo_attestation = (Inr p, d')
     \<and> (\<exists>r \<in> set (platform_rows d'). is_identity 1 p r \<and> pi_active r \<and> pi_type r = ''AI_AGENT'')"
proof -
  let ?run = "attest_membership_handler demo_crypto demo_snark demo_io (generate_dummy_vkey demo_snark) no_faults 5 demo_context
       demo_peers demo_attestation"
  obtain res d' where r: "?run = (res, d')" by (cases ?run)
  have "verify_signature demo_crypto demo_io demo_public_key (attestation_payload demo_attestation) (at_signature demo_attestation) = Inr ()"
    unfolding demo_attestation_fields(5) verify_signature_Inr by (rule demo_signed)
  then have checks: "attest_checks demo_crypto demo_snark demo_io (generate_dummy_vkey demo_snark) no_faults demo_peers demo_attestation
      = Inr (7, demo_commitment)"
    by (simp add: attest_checks_def demo_attestation_fields known_instance_def fetch_remote_root_def is_success_def demo_proof_valid)
      (simp add: demo_io_def is_success_def root_response_def root_to_json_def demo_proof_valid)
  have n: "is_lower_hex_64 (sha256_hex demo_crypto s)" for s by (rule sha256_hex_format [OF demo_hex_laws demo_sha_laws])
  have nodes: "node_rows demo_peers = []" by (simp add: demo_peers_def demo_exchange_def migrated_db_def)
  have "\<exists>x. attest_transaction demo_crypto no_faults 5 1 demo_peers 7 demo_commitment demo_attestation = Inr x"
    using demo_commitment_format n
    by (auto simp: attest_transaction_def demo_attestation_fields derive_nullifier_hex_def derive_pseudonym_id_def
        is_lower_hex_64_nonempty node_type_of_participant_def upsert_federated_identity_def server_known_def instance_exists_def
        exists_where_def ensure_graph_node_def Let_def graph_node_of_def nodes str_to_node_type_def)
  then have "\<exists>p. res = Inr p"
    using r checks by (auto simp: attest_membership_handler_def demo_context_def)
  then obtain p where p: "res = Inr p" by blast
  show ?thesis
    using attest_membership_spec [OF r] r unfolding p sum.case
    by (intro exI [of _ p] exI [of _ d']) (simp add: demo_attestation_fields demo_context_def)
qed

section \<open>Bundles\<close>

definition demo_relayed_bundle :: FederatedRtxEnvelope where
  "demo_relayed_bundle = \<lparr>env_bundle = (demo_bundle ''x'')\<lparr>source_server := ''http://b''\<rparr>,
     env_provenance = \<lparr>origin_server = ''http://b'', relay_path = [''http://b''], prov_bundle_id = ''x''\<rparr>,
     env_relaying_server = ''http://b'',
     env_signature = demo_sign (rtx_relay_signing_payload ''x'' ''http://b'' ''http://b'' [''http://b''])\<rparr>"

lemma demo_bundle_admissible:
  "bundle_admissible demo_crypto demo_io demo_context demo_peers demo_relayed_bundle VrpTransferScope.ReflectionSummariesOnly"
  unfolding bundle_admissible_def
  by (intro exI [of _ demo_instance] exI [of _ demo_full_agreement])
    (simp add: demo_relayed_bundle_def demo_context_def demo_signed demo_bundle_def validate_bundle_structure_def
      demo_full_agreement_def demo_agreement_def del: scope_to_string.simps)

text \<open>
  The peer's agreement is for summaries only, so the subscriber with full scope gets the bundle
  without its reasoning chain.
\<close>

theorem federated_bundle_accepted_witness:
  "\<exists>deliveries d'. receive_federated_rtx_handler demo_crypto demo_io demo_rtx_json no_faults 5 demo_context demo_peers demo_relayed_bundle
       = (Inr deliveries, d') \<and> map fst deliveries = [''q''] \<and> map rb_reasoning (bundle_rows d') = [None]
     \<and> receive_federated_rtx_handler demo_crypto demo_io demo_rtx_json no_faults 6 demo_context d' demo_relayed_bundle = (Inr [], d')"
proof -
  let ?run = "receive_federated_rtx_handler demo_crypto demo_io demo_rtx_json no_faults 5 demo_context demo_peers demo_relayed_bundle"
  let ?b = "scoped_by VrpTransferScope.ReflectionSummariesOnly (env_bundle demo_relayed_bundle)"
  have checks: "receive_rtx_checks demo_crypto demo_io no_faults demo_context demo_peers demo_relayed_bundle
      = Inr (VrpTransferScope.ReflectionSummariesOnly, ?b)"
    by (rule receive_rtx_checks_ok [OF demo_bundle_admissible])
  have "\<exists>deliveries d'. receive_rtx_transaction demo_rtx_json no_faults 5 demo_context demo_peers demo_relayed_bundle
       VrpTransferScope.ReflectionSummariesOnly ?b = Inr (deliveries, d') \<and> map fst deliveries = [''q'']
     \<and> map rb_reasoning (bundle_rows d') = [None]"
    by (simp add: receive_rtx_transaction_def publish_defs demo_peers_def demo_relayed_bundle_def Let_def scoped_by_def
        less_eq_VrpTransferScope_def migrated_db_def del: enc.simps scope_to_string.simps)
  then obtain deliveries d' where tr: "receive_rtx_transaction demo_rtx_json no_faults 5 demo_context demo_peers demo_relayed_bundle
       VrpTransferScope.ReflectionSummariesOnly ?b = Inr (deliveries, d')"
    and d: "map fst deliveries = [''q'']" "map rb_reasoning (bundle_rows d') = [None]"
    by (elim exE conjE)
  have r: "?run = (Inr deliveries, d')" unfolding receive_federated_rtx_handler_def checks by (simp add: tr)
  show ?thesis using federated_bundle_accepted [OF r, of 6] r d by (intro exI [of _ deliveries] exI [of _ d']) simp
qed

end
