(* ===== verification/Annex_Net.thy ===== *)
theory Annex_Net
  imports Annex_Identity "HOL-Library.Word"
begin

text \<open>
  The part of Rust's \<open>std::net\<close> that the middleware and the link previews rely on: IPv4 and
  IPv6 addresses as 32-bit and 128-bit words, the classification predicates, and the textual
  syntax that \<open>str::parse::<IpAddr>()\<close> accepts. The syntax follows the recursive-descent
  parser of the standard library (\<open>core/src/net/parser.rs\<close>): each reader returns the value
  and the rest of the text, or nothing and consumes nothing.
\<close>

unbundle bit_operations_syntax

section \<open>Addresses\<close>

type_synonym ipv4 = "32 word"
type_synonym ipv6 = "128 word"

datatype IpAddr = V4 ipv4 | V6 ipv6

record SocketAddr =
  sa_ip :: IpAddr
  sa_port :: "16 word"

text \<open>\<open>Ipv4Addr::octets\<close> and \<open>Ipv6Addr::segments\<close>, by index.\<close>

definition octet :: "ipv4 \<Rightarrow> nat \<Rightarrow> 8 word" where
  "octet a i = ucast (drop_bit (8 * (3 - i)) a)"

definition segment :: "ipv6 \<Rightarrow> nat \<Rightarrow> 16 word" where
  "segment a i = ucast (drop_bit (16 * (7 - i)) a)"

definition ipv4_of :: "8 word \<Rightarrow> 8 word \<Rightarrow> 8 word \<Rightarrow> 8 word \<Rightarrow> ipv4" where
  "ipv4_of a b c d = (push_bit 24 (ucast a)) OR (push_bit 16 (ucast b)) OR (push_bit 8 (ucast c)) OR ucast d"

definition v4_is_loopback :: "ipv4 \<Rightarrow> bool" where
  "v4_is_loopback a \<longleftrightarrow> octet a 0 = 127"

definition v4_is_private :: "ipv4 \<Rightarrow> bool" where
  "v4_is_private a \<longleftrightarrow> octet a 0 = 10
     \<or> octet a 0 = 172 \<and> 16 \<le> octet a 1 \<and> octet a 1 \<le> 31
     \<or> octet a 0 = 192 \<and> octet a 1 = 168"

definition v4_is_link_local :: "ipv4 \<Rightarrow> bool" where
  "v4_is_link_local a \<longleftrightarrow> octet a 0 = 169 \<and> octet a 1 = 254"

definition v4_is_broadcast :: "ipv4 \<Rightarrow> bool" where
  "v4_is_broadcast a \<longleftrightarrow> a = 0xFFFFFFFF"

definition v4_is_unspecified :: "ipv4 \<Rightarrow> bool" where
  "v4_is_unspecified a \<longleftrightarrow> a = 0"

definition v6_is_loopback :: "ipv6 \<Rightarrow> bool" where
  "v6_is_loopback a \<longleftrightarrow> a = 1"

definition v6_is_unspecified :: "ipv6 \<Rightarrow> bool" where
  "v6_is_unspecified a \<longleftrightarrow> a = 0"

text \<open>\<open>::ffff:a.b.c.d\<close>\<close>

definition to_ipv4_mapped :: "ipv6 \<Rightarrow> ipv4 option" where
  "to_ipv4_mapped a = (if drop_bit 32 a = 0xFFFF then Some (ucast a) else None)"

text \<open>\<open>fc00::/7\<close> and \<open>fe80::/10\<close>, as both users of the predicates test them.\<close>

definition unique_local :: "ipv6 \<Rightarrow> bool" where
  "unique_local a \<longleftrightarrow> segment a 0 AND 0xfe00 = 0xfc00"

definition v6_link_local :: "ipv6 \<Rightarrow> bool" where
  "v6_link_local a \<longleftrightarrow> segment a 0 AND 0xffc0 = 0xfe80"

section \<open>Text of an address\<close>

definition hex_digit_value :: "char \<Rightarrow> nat option" where
  "hex_digit_value c = (let n = of_char c :: nat in
     if 48 \<le> n \<and> n \<le> 57 then Some (n - 48)
     else if 97 \<le> n \<and> n \<le> 102 then Some (n - 87)
     else if 65 \<le> n \<and> n \<le> 70 then Some (n - 55) else None)"

text \<open>\<open>char::to_digit\<close>\<close>

definition to_digit :: "nat \<Rightarrow> char \<Rightarrow> nat option" where
  "to_digit radix c = (case hex_digit_value c of Some v \<Rightarrow> if v < radix then Some v else None | None \<Rightarrow> None)"

definition digits_value :: "nat \<Rightarrow> string \<Rightarrow> nat" where
  "digits_value radix ds = foldl (\<lambda>v c. radix * v + the (to_digit radix c)) 0 ds"

text \<open>
  A maximal run of digits, refused when it is empty, longer than \<open>max_digits\<close>, above the
  largest value of the target type, or has a redundant leading zero and none is allowed.
\<close>

definition read_number :: "nat \<Rightarrow> nat \<Rightarrow> bool \<Rightarrow> nat \<Rightarrow> string \<Rightarrow> (nat \<times> string) option" where
  "read_number radix max_digits allow_zero_prefix max_value s =
     (let ds = takeWhile (\<lambda>c. to_digit radix c \<noteq> None) s in
      if ds = [] \<or> max_digits < length ds \<or> max_value < digits_value radix ds
         \<or> \<not> allow_zero_prefix \<and> hd ds = CHR ''0'' \<and> 1 < length ds
      then None else Some (digits_value radix ds, drop (length ds) s))"

text \<open>\<open>read_separator\<close>: the separator precedes every element but the first.\<close>

definition read_separator :: "char \<Rightarrow> nat \<Rightarrow> (string \<Rightarrow> ('a \<times> string) option) \<Rightarrow> string \<Rightarrow> ('a \<times> string) option" where
  "read_separator sep i inner s =
     (if i = 0 then inner s else if s \<noteq> [] \<and> hd s = sep then inner (tl s) else None)"

fun read_octets :: "nat \<Rightarrow> nat \<Rightarrow> string \<Rightarrow> (nat list \<times> string) option" where
  "read_octets 0 i s = Some ([], s)"
| "read_octets (Suc n) i s =
     (case read_separator CHR ''.'' i (read_number 10 3 False 255) s of
        None \<Rightarrow> None
      | Some (b, s') \<Rightarrow> map_option (\<lambda>(bs, t). (b # bs, t)) (read_octets n (Suc i) s'))"

definition read_ipv4_addr :: "string \<Rightarrow> (ipv4 \<times> string) option" where
  "read_ipv4_addr s = map_option (\<lambda>(bs, t). (of_nat (foldl (\<lambda>v b. 256 * v + b) 0 bs), t)) (read_octets 4 0 s)"

text \<open>
  \<open>read_groups\<close>: at most \<open>n\<close> further 16-bit groups, the last two of which may be an embedded
  IPv4 address. Returns the groups, whether an IPv4 address ended them, and the rest.
\<close>

fun read_groups :: "nat \<Rightarrow> nat \<Rightarrow> string \<Rightarrow> nat list \<times> bool \<times> string" where
  "read_groups 0 i s = ([], False, s)"
| "read_groups (Suc n) i s =
     (case (if 1 \<le> n then read_separator CHR '':'' i read_ipv4_addr s else None) of
        Some (v4, s') \<Rightarrow> ([unat v4 div 65536, unat v4 mod 65536], True, s')
      | None \<Rightarrow>
          (case read_separator CHR '':'' i (read_number 16 4 True 65535) s of
             None \<Rightarrow> ([], False, s)
           | Some (g, s') \<Rightarrow> let (gs, v4, t) = read_groups n (Suc i) s' in (g # gs, v4, t)))"

definition of_groups :: "nat list \<Rightarrow> ipv6" where
  "of_groups gs = of_nat (foldl (\<lambda>v g. 65536 * v + g) 0 gs)"

definition read_ipv6_addr :: "string \<Rightarrow> (ipv6 \<times> string) option" where
  "read_ipv6_addr s =
     (let (front, v4, s1) = read_groups 8 0 s in
      if length front = 8 then Some (of_groups front, s1)
      else if v4 \<or> take 2 s1 \<noteq> ''::'' then None
      else let (back, _, s2) = read_groups (7 - length front) 0 (drop 2 s1)
           in Some (of_groups (front @ replicate (8 - length front - length back) 0 @ back), s2))"

definition parse_ip_addr :: "string \<Rightarrow> IpAddr option" where
  "parse_ip_addr s =
     (case map_option (map_prod V4 id) (read_ipv4_addr s) of
        Some (a, t) \<Rightarrow> if t = [] then Some a else None
      | None \<Rightarrow>
          (case read_ipv6_addr s of
             Some (a, t) \<Rightarrow> if t = [] then Some (V6 a) else None
           | None \<Rightarrow> None))"


section \<open>Address blocks\<close>

text \<open>The predicates as CIDR blocks: an address is in a block when it agrees with it in the prefix.\<close>

definition in_cidr4 :: "ipv4 \<Rightarrow> nat \<Rightarrow> ipv4 \<Rightarrow> bool" where
  "in_cidr4 net len a \<longleftrightarrow> drop_bit (32 - len) a = drop_bit (32 - len) net"

definition in_cidr6 :: "ipv6 \<Rightarrow> nat \<Rightarrow> ipv6 \<Rightarrow> bool" where
  "in_cidr6 net len a \<longleftrightarrow> drop_bit (128 - len) a = drop_bit (128 - len) net"

lemma unat_drop: "unat (drop_bit n w) = unat w div 2 ^ n"
  unfolding unat_drop_bit_eq by (rule drop_bit_eq_div)

lemma unat_octet: "unat (octet a i) = unat a div 2 ^ (8 * (3 - i)) mod 256"
  by (simp add: octet_def unsigned_ucast_eq take_bit_eq_mod unat_drop)

lemma in_cidr4_unat: "in_cidr4 net len a \<longleftrightarrow> unat a div 2 ^ (32 - len) = unat net div 2 ^ (32 - len)"
  by (simp add: in_cidr4_def word_unat_eq_iff unat_drop)

lemma high_half: "unat (a :: ipv4) div 65536 < 65536"
  using unsigned_less [of a, where ?'a = nat] by simp

lemma octets_high:
  "unat (octet a 0) = unat a div 65536 div 256" "unat (octet a 1) = unat a div 65536 mod 256"
proof -
  have "unat (octet a 0) = unat a div 65536 div 256 mod 256"
    by (subst unat_octet) (simp add: div_mult2_eq [symmetric])
  then show "unat (octet a 0) = unat a div 65536 div 256" using high_half [of a] by simp
  show "unat (octet a 1) = unat a div 65536 mod 256" by (subst unat_octet) simp
qed

lemma div_mod_split:
  fixes m :: nat
  assumes "0 < k"
  shows "m div k = q \<longleftrightarrow> k * q \<le> m \<and> m < k * q + k"
  using assms by (auto simp: div_nat_eqI dividend_less_times_div less_eq_div_iff_mult_less_eq mult.commute add.commute)

lemma octet_eq_iff: "octet a i = b \<longleftrightarrow> unat (octet a i) = unat b"
  by (simp add: word_unat_eq_iff)

lemma v4_blocks:
  "v4_is_loopback a \<longleftrightarrow> in_cidr4 0x7F000000 8 a"
  "v4_is_private a \<longleftrightarrow> in_cidr4 0x0A000000 8 a \<or> in_cidr4 0xAC100000 12 a \<or> in_cidr4 0xC0A80000 16 a"
  "v4_is_link_local a \<longleftrightarrow> in_cidr4 0xA9FE0000 16 a"
  "v4_is_broadcast a \<longleftrightarrow> in_cidr4 0xFFFFFFFF 32 a"
  "v4_is_unspecified a \<longleftrightarrow> in_cidr4 0 32 a"
proof -
  define m where "m = unat a div 65536"
  note o = octets_high [of a, folded m_def]
  have d: "unat a div 2 ^ 24 = m div 256" "unat a div 2 ^ 20 = m div 16" "unat a div 2 ^ 16 = m"
    by (simp_all add: m_def div_mult2_eq [symmetric])
  show "v4_is_loopback a \<longleftrightarrow> in_cidr4 0x7F000000 8 a"
    unfolding v4_is_loopback_def octet_eq_iff o in_cidr4_unat using d by simp
  have e: "m = 256 * (m div 256) + m mod 256" by simp
  have "m div 256 = 172 \<and> 16 \<le> m mod 256 \<and> m mod 256 \<le> 31 \<longleftrightarrow> m div 16 = 2753"
    unfolding div_mod_split [of 16, simplified] using e div_mod_split [of 256 m 172] by linarith
  moreover have "m div 256 = 192 \<and> m mod 256 = 168 \<longleftrightarrow> m = 49320" using e by (intro iffI; linarith?; simp)
  ultimately show "v4_is_private a \<longleftrightarrow> in_cidr4 0x0A000000 8 a \<or> in_cidr4 0xAC100000 12 a \<or> in_cidr4 0xC0A80000 16 a"
    unfolding v4_is_private_def octet_eq_iff word_le_nat_alt o in_cidr4_unat using d by simp
  have "m div 256 = 169 \<and> m mod 256 = 254 \<longleftrightarrow> m = 43518" using e by (intro iffI; linarith?; simp)
  then show "v4_is_link_local a \<longleftrightarrow> in_cidr4 0xA9FE0000 16 a"
    unfolding v4_is_link_local_def octet_eq_iff o in_cidr4_unat using d by simp
  show "v4_is_broadcast a \<longleftrightarrow> in_cidr4 0xFFFFFFFF 32 a" "v4_is_unspecified a \<longleftrightarrow> in_cidr4 0 32 a"
    by (simp_all add: v4_is_broadcast_def v4_is_unspecified_def in_cidr4_def)
qed

text \<open>A mask that keeps the high bits of the first segment tests a prefix.\<close>

lemma unat_and_high: "unat ((s :: 'a :: len word) AND NOT (Bit_Operations.mask n)) = unat s div 2 ^ n * 2 ^ n"
proof -
  have "s AND NOT (Bit_Operations.mask n) = push_bit n (drop_bit n s)"
    by (rule bit_eqI) (auto simp: bit_simps)
  moreover have "unat (push_bit n (drop_bit n s)) = take_bit LENGTH('a) (push_bit n (unat (drop_bit n s)))"
    unfolding unsigned_push_bit_eq by simp
  moreover have "unat s div 2 ^ n * 2 ^ n < 2 ^ LENGTH('a)"
    using unsigned_less [of s, where ?'a = nat] by (meson div_times_less_eq_dividend le_less_trans)
  ultimately show ?thesis
    unfolding unat_drop push_bit_eq_mult by (simp only: take_bit_nat_eq_self)
qed

lemma segment_0: "unat (segment a 0) = unat a div 2 ^ 112"
proof -
  have "unat a < 2 ^ 128" using unsigned_less [of a, where ?'a = nat] by simp
  then show ?thesis by (simp add: segment_def unsigned_ucast_eq take_bit_eq_mod unat_drop)
qed

lemma in_cidr6_unat: "in_cidr6 net len a \<longleftrightarrow> unat a div 2 ^ (128 - len) = unat net div 2 ^ (128 - len)"
  by (simp add: in_cidr6_def word_unat_eq_iff unat_drop)


lemma v4_link_local_octets: "octet a 0 = 169 \<and> octet a 1 = 254 \<longleftrightarrow> in_cidr4 0xA9FE0000 16 a"
  using v4_blocks(3) [of a] by (simp add: v4_is_link_local_def)

lemma v4_shared_block: "octet a 0 = 100 \<and> octet a 1 AND 0xC0 = 64 \<longleftrightarrow> in_cidr4 0x64400000 10 a"
proof -
  define m where "m = unat a div 65536"
  note o = octets_high [of a, folded m_def]
  have k: "(0xC0 :: 8 word) = NOT (Bit_Operations.mask 6)" by (simp add: mask_eq_exp_minus_1)
  have d: "unat a div 2 ^ 22 = m div 64" by (simp add: m_def div_mult2_eq [symmetric])
  have e: "m = 256 * (m div 256) + m mod 256" by simp
  have "m div 256 = 100 \<and> m mod 256 div 64 = 1 \<longleftrightarrow> m div 64 = 401"
    unfolding div_mod_split [of 64, simplified] using e div_mod_split [of 256 m 100] by linarith
  then show ?thesis
    unfolding k octet_eq_iff word_unat_eq_iff [of "octet a 1 AND _"] unat_and_high o in_cidr4_unat using d by simp
qed

lemma v6_blocks:
  "unique_local a \<longleftrightarrow> in_cidr6 0xfc000000000000000000000000000000 7 a"
  "v6_link_local a \<longleftrightarrow> in_cidr6 0xfe800000000000000000000000000000 10 a"
  "v6_is_loopback a \<longleftrightarrow> in_cidr6 1 128 a"
  "v6_is_unspecified a \<longleftrightarrow> in_cidr6 0 128 a"
proof -
  have m: "(0xfe00 :: 16 word) = NOT (Bit_Operations.mask 9)"
    "(0xffc0 :: 16 word) = NOT (Bit_Operations.mask 6)" by (simp_all add: mask_eq_exp_minus_1)
  have d: "unat a div 2 ^ 112 div 2 ^ 9 = unat a div 2 ^ 121" "unat a div 2 ^ 112 div 2 ^ 6 = unat a div 2 ^ 118"
    by (simp_all add: div_mult2_eq [symmetric])
  show "unique_local a \<longleftrightarrow> in_cidr6 0xfc000000000000000000000000000000 7 a"
    unfolding unique_local_def m(1) word_unat_eq_iff [of "segment a 0 AND _"] in_cidr6_unat
    using unat_and_high [of "segment a 0" 9] d(1) by (simp add: segment_0)
  show "v6_link_local a \<longleftrightarrow> in_cidr6 0xfe800000000000000000000000000000 10 a"
    unfolding v6_link_local_def m(2) word_unat_eq_iff [of "segment a 0 AND _"] in_cidr6_unat
    using unat_and_high [of "segment a 0" 6] d(2) by (simp add: segment_0)
  show "v6_is_loopback a \<longleftrightarrow> in_cidr6 1 128 a" "v6_is_unspecified a \<longleftrightarrow> in_cidr6 0 128 a"
    by (simp_all add: v6_is_loopback_def v6_is_unspecified_def in_cidr6_def)
qed

section \<open>Separators in the text of an address\<close>

lemma read_number_rest: "read_number r m z x s = Some (v, t) \<Longrightarrow> set t \<subseteq> set s"
  by (auto simp: read_number_def Let_def split: if_splits dest: in_set_dropD)

lemma read_separator_rest:
  assumes "read_separator c i f s = Some (v, t)" and "\<And>u v t. f u = Some (v, t) \<Longrightarrow> set t \<subseteq> set u"
  shows "set t \<subseteq> set s" and "0 < i \<Longrightarrow> c \<in> set s"
  using assms(1) assms(2) [of s v t] assms(2) [of "tl s" v t]
  by (cases s; force simp: read_separator_def split: if_splits)+

lemma read_octets_rest:
  "read_octets n i s = Some (bs, t) \<Longrightarrow> set t \<subseteq> set s \<and> (0 < n \<longrightarrow> 0 < i \<longrightarrow> CHR ''.'' \<in> set s)"
proof (induction n i s arbitrary: bs t rule: read_octets.induct)
  case (1 i s)
  then show ?case by simp
next
  case (2 n i s)
  then obtain b s' bs' where b: "read_separator CHR ''.'' i (read_number 10 3 False 255) s = Some (b, s')"
    and r: "read_octets n (Suc i) s' = Some (bs', t)"
    by (auto split: option.splits)
  have "set t \<subseteq> set s'" using 2(1) [OF b refl r] by simp
  moreover have "set s' \<subseteq> set s" "0 < i \<Longrightarrow> CHR ''.'' \<in> set s"
    by (rule read_separator_rest [OF b], erule read_number_rest)+
  ultimately show ?case by blast
qed

lemma read_ipv4_dot:
  assumes "read_ipv4_addr s = Some (a, t)"
  shows "CHR ''.'' \<in> set s" and "set t \<subseteq> set s"
proof -
  obtain b s' bs where b: "read_number 10 3 False 255 s = Some (b, s')" and r: "read_octets 3 1 s' = Some (bs, t)"
    using assms by (auto simp: read_ipv4_addr_def numeral_eq_Suc read_separator_def split: option.splits)
  show "CHR ''.'' \<in> set s" "set t \<subseteq> set s"
    using read_number_rest [OF b] read_octets_rest [OF r] by auto
qed

lemma read_groups_no_colon:
  assumes "CHR '':'' \<notin> set s" and "read_groups n i s = (gs, v4, t)"
  shows "set t \<subseteq> set s \<and> (v4 \<or> length gs \<le> 1) \<and> (v4 \<longrightarrow> length gs \<le> 2)"
proof -
  have stop: "read_groups m (Suc j) u = ([], False, u)" if "CHR '':'' \<notin> set u" for m j u
    using that by (cases m) (auto simp: read_separator_def dest: hd_in_set split: option.splits)
  show ?thesis
  proof (cases n)
    case 0
    with assms show ?thesis by simp
  next
    case (Suc m)
    show ?thesis
    proof (cases i)
      case (Suc j)
      with stop [OF assms(1)] assms(2) show ?thesis by auto
    next
      case 0
      have nxt: "read_groups m (Suc 0) u = ([], False, u) \<and> set u \<subseteq> set s"
        if "read_number 16 4 True 65535 s = Some (g, u)" for g u
        using stop [of u m 0] read_number_rest [OF that] assms(1) by blast
      have v: "set u \<subseteq> set s" if "read_ipv4_addr s = Some (a, u)" for a u
        using that by (rule read_ipv4_dot(2))
      show ?thesis
      proof (cases "read_number 16 4 True 65535 s")
        case None
        with assms(2) v show ?thesis
          unfolding Suc 0 by (auto simp: read_separator_def split: option.splits if_splits)
      next
        case (Some gu)
        obtain g u where gu: "gu = (g, u)" by (cases gu)
        from assms(2) Some nxt [OF Some [unfolded gu]] v show ?thesis
          unfolding Suc 0 gu by (auto simp: read_separator_def split: option.splits if_splits)
      qed
    qed
  qed
qed

lemma ip_text_separators:
  assumes "parse_ip_addr s = Some ip"
  shows "case ip of V4 _ \<Rightarrow> CHR ''.'' \<in> set s | V6 _ \<Rightarrow> CHR '':'' \<in> set s"
proof (cases "read_ipv4_addr s")
  case (Some r)
  then obtain a t where r: "read_ipv4_addr s = Some (a, t)" by (cases r) simp
  with assms have "ip = V4 a" by (simp add: parse_ip_addr_def split: if_splits)
  with read_ipv4_dot(1) [OF r] show ?thesis by simp
next
  case None
  then obtain a where r: "read_ipv6_addr s = Some (a, [])" and ip: "ip = V6 a"
    using assms by (auto simp: parse_ip_addr_def split: option.splits if_splits)
  have "CHR '':'' \<in> set s"
  proof (rule ccontr)
    assume n: "CHR '':'' \<notin> set s"
    obtain gs v4 t where g: "read_groups 8 0 s = (gs, v4, t)" by (cases "read_groups 8 0 s")
    from read_groups_no_colon [OF n g] have "length gs \<noteq> 8" "set t \<subseteq> set s" by auto
    moreover have "take 2 t \<noteq> ''::''" using n \<open>set t \<subseteq> set s\<close> by (metis in_mono in_set_takeD list.set_intros(1))
    ultimately show False using r g by (simp add: read_ipv6_addr_def)
  qed
  with ip show ?thesis by simp
qed


lemma no_digit_no_ip:
  assumes "hex_digit_value c = None" and "c \<noteq> CHR '':''"
  shows "parse_ip_addr (c # h) = None"
proof -
  have n: "read_number r m z x (c # h) = None" for r m z x
    using assms(1) by (simp add: read_number_def to_digit_def)
  have "read_octets (Suc 3) 0 (c # h) = None"
    by (subst read_octets.simps) (simp add: read_separator_def n)
  then have v4: "read_ipv4_addr (c # h) = None" by (simp add: read_ipv4_addr_def)
  have "read_groups (Suc 7) 0 (c # h) = ([], False, c # h)"
    by (subst read_groups.simps) (simp add: read_separator_def n v4)
  then have "read_ipv6_addr (c # h) = None" using assms(2) by (simp add: read_ipv6_addr_def)
  with v4 show ?thesis by (simp add: parse_ip_addr_def)
qed

end
