(* ===== verification/Rust_Text.thy ===== *)
theory Rust_Text
  imports Annex_Prelude
begin

text \<open>
  The string operations of Rust's standard library that the handlers use, on the bytes of the
  UTF-8 encoding: prefix and suffix tests, search, and trimming of white space. UTF-8 is
  self-synchronising, so the encodings of the white space characters are recognised as byte
  sequences at either end.
\<close>

definition starts_with :: "string \<Rightarrow> string \<Rightarrow> bool" where
  "starts_with s pre \<longleftrightarrow> take (length pre) s = pre"

definition ends_with :: "string \<Rightarrow> string \<Rightarrow> bool" where
  "ends_with s suf \<longleftrightarrow> length suf \<le> length s \<and> drop (length s - length suf) s = suf"

fun contains :: "string \<Rightarrow> string \<Rightarrow> bool" where
  "contains [] pat \<longleftrightarrow> pat = []"
| "contains (c # s) pat \<longleftrightarrow> starts_with (c # s) pat \<or> contains s pat"

text \<open>The encodings of the characters with the Unicode property \<open>White_Space\<close>.\<close>

definition white_space :: "string list" where
  "white_space =
     [[CHR 0x09], [CHR 0x0A], [CHR 0x0B], [CHR 0x0C], [CHR 0x0D], [CHR 0x20],
      [CHR 0xC2, CHR 0x85], [CHR 0xC2, CHR 0xA0], [CHR 0xE1, CHR 0x9A, CHR 0x80],
      [CHR 0xE2, CHR 0x80, CHR 0x80], [CHR 0xE2, CHR 0x80, CHR 0x81], [CHR 0xE2, CHR 0x80, CHR 0x82],
      [CHR 0xE2, CHR 0x80, CHR 0x83], [CHR 0xE2, CHR 0x80, CHR 0x84], [CHR 0xE2, CHR 0x80, CHR 0x85],
      [CHR 0xE2, CHR 0x80, CHR 0x86], [CHR 0xE2, CHR 0x80, CHR 0x87], [CHR 0xE2, CHR 0x80, CHR 0x88],
      [CHR 0xE2, CHR 0x80, CHR 0x89], [CHR 0xE2, CHR 0x80, CHR 0x8A], [CHR 0xE2, CHR 0x80, CHR 0xA8],
      [CHR 0xE2, CHR 0x80, CHR 0xA9], [CHR 0xE2, CHR 0x80, CHR 0xAF], [CHR 0xE2, CHR 0x81, CHR 0x9F],
      [CHR 0xE3, CHR 0x80, CHR 0x80]]"

text \<open>Strips the given sequences from the front as long as one of them is there.\<close>

function strip_front :: "string list \<Rightarrow> string \<Rightarrow> string" where
  "strip_front ws s =
     (case List.find (\<lambda>w. w \<noteq> [] \<and> starts_with s w) ws of
        None \<Rightarrow> s
      | Some w \<Rightarrow> strip_front ws (drop (length w) s))"
  by pat_completeness auto
termination
  by (relation "measure (\<lambda>(_, s). length s)")
    (auto simp: find_Some_iff starts_with_def, metis append_Nil2 append_take_drop_id length_greater_0_conv length_drop diff_less take_Nil)

declare strip_front.simps [simp del]

lemma strip_front_none: "List.find (\<lambda>w. w \<noteq> [] \<and> starts_with s w) ws = None \<Longrightarrow> strip_front ws s = s"
  by (subst strip_front.simps) simp

definition trim :: "string \<Rightarrow> string" where
  "trim s = rev (strip_front (map rev white_space) (rev (strip_front white_space s)))"

lemma strip_front_suffix: "\<exists>pre. s = pre @ strip_front ws s"
proof (induction ws s rule: strip_front.induct)
  case (1 ws s)
  show ?case
  proof (cases "List.find (\<lambda>w. w \<noteq> [] \<and> starts_with s w) ws")
    case None
    then show ?thesis by (subst strip_front.simps) simp
  next
    case (Some w)
    with 1 obtain pre where "drop (length w) s = pre @ strip_front ws (drop (length w) s)" by blast
    then have "s = (take (length w) s @ pre) @ strip_front ws (drop (length w) s)"
      by (metis append.assoc append_take_drop_id)
    moreover have "strip_front ws s = strip_front ws (drop (length w) s)"
      by (subst strip_front.simps) (simp add: Some)
    ultimately show ?thesis by metis
  qed
qed

text \<open>Trimming takes bytes from the two ends only.\<close>

lemma trim_middle: "\<exists>pre suf. s = pre @ trim s @ suf"
proof -
  obtain pre where "s = pre @ strip_front white_space s" using strip_front_suffix by blast
  moreover obtain suf where "rev (strip_front white_space s) = suf @ strip_front (map rev white_space) (rev (strip_front white_space s))"
    using strip_front_suffix by blast
  then have "strip_front white_space s = trim s @ rev suf"
    by (metis rev_append rev_rev_ident trim_def)
  ultimately show ?thesis by metis
qed

lemma trim_length: "length (trim s) \<le> length s"
proof -
  obtain pre suf where "s = pre @ trim s @ suf" using trim_middle by blast
  then have "length s = length pre + length (trim s) + length suf" by (metis add.assoc length_append)
  then show ?thesis by simp
qed

text \<open>\<open>str::replace\<close> for a pattern that is not empty.\<close>

function replace_all :: "string \<Rightarrow> string \<Rightarrow> string \<Rightarrow> string" where
  "replace_all pat rep s =
     (if s = [] then []
      else if pat \<noteq> [] \<and> starts_with s pat then rep @ replace_all pat rep (drop (length pat) s)
      else hd s # replace_all pat rep (tl s))"
  by pat_completeness auto
termination
  by (relation "measure (\<lambda>(_, _, s). length s)") auto

declare replace_all.simps [simp del]

end
