(* ===== verification/Annex_RateLimit.thy ===== *)
theory Annex_RateLimit
  imports Annex_Platform Annex_Net Annex_Zk Annex_Api Annex_Demo Rust_Text "HOL-Library.AList"
begin

text \<open>
  \<open>annex-server/src/middleware.rs\<close>, beside the authentication of \<open>Annex_Platform\<close>: the sliding
  window rate limiter, the rate-limiting middleware with its detection of the public URL, the
  verification of the membership proof header, and the security headers. An \<open>Instant\<close> is a
  number of nanoseconds, \<open>duration_since\<close> saturates at zero like the subtraction of naturals,
  counters are 32-bit words (\<open>+\<close> wraps, as in a release build), and the estimate is computed
  in \<open>f64\<close>. A poisoned limiter lock is recovered by the code and leaves no trace here.
\<close>

section \<open>The rate limiter\<close>

datatype RateLimitCategory = Registration | Verification | Default

datatype RateLimitKey =
    Ip IpAddr RateLimitCategory
  | Pseudonym string RateLimitCategory

record WindowState =
  prev_count :: u32
  curr_count :: u32
  window_start :: nat

type_synonym rate_limiter = "(RateLimitKey \<times> WindowState) list"

definition rate_limit_window :: nat where
  "rate_limit_window = 60 * 10 ^ 9"

definition cleanup_expired :: "nat \<Rightarrow> rate_limiter \<Rightarrow> rate_limiter" where
  "cleanup_expired now state =
     filter (\<lambda>(_, ws). now - window_start ws \<le> rate_limit_window * 2) state"

text \<open>\<open>Duration::as_secs_f64\<close>\<close>

definition as_secs_f64 :: "nat \<Rightarrow> rat" where
  "as_secs_f64 nanos = f64 (f64 (of_nat (nanos div 10 ^ 9)) + f64 (of_nat (nanos mod 10 ^ 9) / 10 ^ 9))"

definition rotate_window :: "nat \<Rightarrow> WindowState \<Rightarrow> WindowState" where
  "rotate_window now ws =
     (if rate_limit_window < now - window_start ws
      then \<lparr>prev_count = curr_count ws, curr_count = 0, window_start = now\<rparr> else ws)"

definition effective_count :: "nat \<Rightarrow> WindowState \<Rightarrow> rat" where
  "effective_count now ws =
     (let elapsed_frac = f64 (as_secs_f64 (now - window_start ws) / as_secs_f64 rate_limit_window);
          prev_weight = f64 (1 - min elapsed_frac 1)
      in f64 (f64 (of_nat (unat (prev_count ws)) * prev_weight) + of_nat (unat (curr_count ws))))"

definition check :: "nat \<Rightarrow> RateLimitKey \<Rightarrow> u32 \<Rightarrow> rate_limiter \<Rightarrow> bool \<times> rate_limiter" where
  "check now key limit state =
     (let state1 = (if 5000 < length state then cleanup_expired now state else state);
          ws = (case map_of state1 key of
                  None \<Rightarrow> \<lparr>prev_count = 0, curr_count = 0, window_start = now\<rparr> | Some w \<Rightarrow> w);
          ws1 = rotate_window now ws;
          ws2 = ws1\<lparr>curr_count := curr_count ws1 + 1\<rparr>
      in (effective_count now ws2 \<le> of_nat (unat limit), AList.update key ws2 state1))"

section \<open>Public URL detection\<close>

text \<open>
  What the middleware reads of a request: the path, the pseudonym of the \<open>IdentityContext\<close>
  extension, the peer address of the \<open>ConnectInfo\<close> extension and three headers. The router
  installs the application state on every route.
\<close>

record http_request =
  rq_path :: string
  rq_identity :: "string option"
  rq_peer :: "SocketAddr option"
  rq_forwarded_proto :: header_value
  rq_forwarded_host :: header_value
  rq_host :: header_value

fun trusted_ip :: "IpAddr \<Rightarrow> bool" where
  "trusted_ip (V4 v4) \<longleftrightarrow> v4_is_loopback v4 \<or> v4_is_private v4 \<or> v4_is_link_local v4"
| "trusted_ip (V6 v6) \<longleftrightarrow> v6_is_loopback v6 \<or> unique_local v6 \<or> v6_link_local v6"

definition peer_is_trusted :: "http_request \<Rightarrow> bool" where
  "peer_is_trusted req = (case rq_peer req of Some a \<Rightarrow> trusted_ip (sa_ip a) | None \<Rightarrow> False)"

fun header_text :: "header_value \<Rightarrow> string option" where
  "header_text (Header v) = Some v"
| "header_text _ = None"

definition forwarded_proto :: "http_request \<Rightarrow> string" where
  "forwarded_proto req = (case header_text (rq_forwarded_proto req) of Some v \<Rightarrow> v | None \<Rightarrow> ''http'')"

definition forwarded_host :: "http_request \<Rightarrow> string option" where
  "forwarded_host req =
     header_text (if rq_forwarded_host req \<noteq> Absent then rq_forwarded_host req else rq_host req)"

definition host_name :: "string \<Rightarrow> string" where
  "host_name host = takeWhile (\<lambda>c. c \<noteq> CHR '':'') host"

text \<open>\<open>trim_start_matches('[').trim_end_matches(']')\<close>\<close>

definition bare_host :: "string \<Rightarrow> string" where
  "bare_host h = rev (dropWhile (\<lambda>c. c = CHR '']'') (rev (dropWhile (\<lambda>c. c = CHR ''['') h)))"

fun internal_ip :: "IpAddr \<Rightarrow> bool" where
  "internal_ip (V4 v4) \<longleftrightarrow> v4_is_loopback v4 \<or> v4_is_private v4 \<or> v4_is_link_local v4 \<or> v4_is_unspecified v4"
| "internal_ip (V6 v6) \<longleftrightarrow> v6_is_loopback v6 \<or> v6_is_unspecified v6 \<or> unique_local v6 \<or> v6_link_local v6"

definition is_internal :: "string \<Rightarrow> bool" where
  "is_internal h \<longleftrightarrow>
     (h = ''localhost'' \<or> h = ''127.0.0.1'' \<or> h = ''[::1]'' \<or> h = ''0.0.0.0''
        \<or> ends_with h ''.local'' \<or> ends_with h ''.internal'')
     \<or> (case parse_ip_addr (bare_host h) of Some ip \<Rightarrow> internal_ip ip | None \<Rightarrow> False)"

definition looks_plausible :: "string \<Rightarrow> bool" where
  "looks_plausible h \<longleftrightarrow> CHR ''.'' \<in> set h \<or> parse_ip_addr (bare_host h) \<noteq> None"

text \<open>The URL after a request; it is written only while it is empty.\<close>

definition detect_public_url :: "http_request \<Rightarrow> string \<Rightarrow> string" where
  "detect_public_url req current =
     (if current \<noteq> [] \<or> \<not> peer_is_trusted req then current
      else case forwarded_host req of
             None \<Rightarrow> current
           | Some host \<Rightarrow>
               if \<not> is_internal (host_name host) \<and> looks_plausible (host_name host)
               then forwarded_proto req @ ''://'' @ host else current)"

section \<open>The middleware\<close>

definition classify :: "ServerPolicy \<Rightarrow> string \<Rightarrow> RateLimitCategory \<times> u32" where
  "classify policy path =
     (if path = ''/api/registry/register'' then (Registration, registration_limit (rate_limit policy))
      else if path = ''/api/zk/verify-membership'' then (Verification, verification_limit (rate_limit policy))
      else (Default, default_limit (rate_limit policy)))"

definition rate_limit_key :: "http_request \<Rightarrow> RateLimitCategory \<Rightarrow> RateLimitKey option" where
  "rate_limit_key req category =
     (case rq_identity req of
        Some p \<Rightarrow> Some (Pseudonym p category)
      | None \<Rightarrow> map_option (\<lambda>a. Ip (sa_ip a) category) (rq_peer req))"

record limiter_state =
  ls_public_url :: string
  ls_limiter :: rate_limiter

text \<open>The request is passed on, or answered by a status with the \<open>Retry-After\<close> header.\<close>

datatype limited = PassedOn | Answered StatusCode string

text \<open>The policy is absent when its lock is poisoned.\<close>

definition rate_limit_middleware ::
  "nat \<Rightarrow> ServerPolicy option \<Rightarrow> http_request \<Rightarrow> limiter_state \<Rightarrow> (StatusCode + limited) \<times> limiter_state" where
  "rate_limit_middleware now policy req st0 =
     (let st = st0\<lparr>ls_public_url := detect_public_url req (ls_public_url st0)\<rparr> in
      case policy of
        None \<Rightarrow> (Inl INTERNAL_SERVER_ERROR, st)
      | Some pol \<Rightarrow>
          (let (category, limit) = classify pol (rq_path req) in
           case rate_limit_key req category of
             None \<Rightarrow> (Inl INTERNAL_SERVER_ERROR, st)
           | Some key \<Rightarrow>
               (let (allowed, lim) = check now key limit (ls_limiter st); st' = st\<lparr>ls_limiter := lim\<rparr>
                in if \<not> allowed then (Inr (Answered TOO_MANY_REQUESTS ''60''), st')
                   else (Inr PassedOn, st'))))"

section \<open>The membership proof header\<close>

text \<open>\<open>zp_proof\<close> is the JSON value of the member \<open>proof\<close>, written out again.\<close>

record ZkProofPayload =
  zp_proof :: string
  zp_root_hex :: string
  zp_commitment_hex :: string

record proof_header_io =
  base64_decode :: "string \<Rightarrow> string option"
  payload_from_json :: "string \<Rightarrow> ZkProofPayload option"

text \<open>The tree is absent when its lock is poisoned.\<close>

definition verify_zk_membership_header ::
  "'f crypto \<Rightarrow> ('f, 'q, 'g, 'h) snark \<Rightarrow> proof_header_io \<Rightarrow> bool \<Rightarrow> ('g, 'h) VerifyingKey
     \<Rightarrow> 'f MerkleTree option \<Rightarrow> header_value \<Rightarrow> string option \<Rightarrow> StatusCode + unit" where
  "verify_zk_membership_header C Z io enforce_zk_proofs membership_vkey tree header expected =
     (if \<not> enforce_zk_proofs then Inr () else
      and_then (ok_or (header_text header) FORBIDDEN) (\<lambda>header_str.
      and_then (ok_or (base64_decode io header_str) FORBIDDEN) (\<lambda>decoded.
      and_then (ok_or (payload_from_json io decoded) FORBIDDEN) (\<lambda>payload.
      if (case expected of Some e \<Rightarrow> zp_commitment_hex payload \<noteq> e | None \<Rightarrow> False) then Inl FORBIDDEN else
      and_then (map_err (\<lambda>_. FORBIDDEN) (parse_proof Z (zp_proof payload))) (\<lambda>pr.
      and_then (map_err (\<lambda>_. FORBIDDEN) (parse_fr_from_hex C (zp_root_hex payload))) (\<lambda>root_fr.
      and_then (map_err (\<lambda>_. FORBIDDEN) (parse_fr_from_hex C (zp_commitment_hex payload))) (\<lambda>commitment_fr.
      and_then (map_err (\<lambda>_. FORBIDDEN) (verify_proof Z membership_vkey pr [root_fr, commitment_fr])) (\<lambda>valid.
      if \<not> valid then Inl FORBIDDEN else
      and_then (ok_or tree INTERNAL_SERVER_ERROR) (\<lambda>t.
      if root_hex C t \<noteq> zp_root_hex payload then Inl FORBIDDEN else Inr ())))))))))"

section \<open>Security headers\<close>

text \<open>\<open>HeaderMap::insert\<close> replaces every earlier value of the name.\<close>

definition header_insert :: "string \<times> string \<Rightarrow> (string \<times> string) list \<Rightarrow> (string \<times> string) list" where
  "header_insert h headers = filter (\<lambda>(n, _). n \<noteq> fst h) headers @ [h]"

definition security_headers :: "(string \<times> string) list" where
  "security_headers =
     [(''x-content-type-options'', ''nosniff''),
      (''x-frame-options'', ''DENY''),
      (''referrer-policy'', ''no-referrer''),
      (''x-xss-protection'', ''1; mode=block''),
      (''permissions-policy'', ''camera=(), microphone=(), geolocation=()''),
      (''content-security-policy'',
         ''default-src '' @ quote ''self'' @ ''; script-src '' @ quote ''self'' @ '' '' @ quote ''wasm-unsafe-eval''
         @ ''; connect-src '' @ quote ''self'' @ '' ws: wss:; img-src '' @ quote ''self'' @ '' data: blob:; style-src ''
         @ quote ''self'' @ '' '' @ quote ''unsafe-inline'' @ ''; frame-ancestors '' @ quote ''none''
         @ ''; object-src '' @ quote ''none'')]"

definition security_headers_middleware :: "(string \<times> string) list \<Rightarrow> (string \<times> string) list" where
  "security_headers_middleware response_headers = fold header_insert security_headers response_headers"


section \<open>Sequences of calls\<close>

datatype limiter_op = Check nat RateLimitKey u32 | Cleanup nat

fun op_time :: "limiter_op \<Rightarrow> nat" where
  "op_time (Check now k l) = now"
| "op_time (Cleanup now) = now"

fun limiter_step :: "limiter_op \<Rightarrow> rate_limiter \<Rightarrow> rate_limiter" where
  "limiter_step (Check now k l) st = snd (check now k l st)"
| "limiter_step (Cleanup now) st = cleanup_expired now st"

text \<open>The answers that the checks of one key get.\<close>

fun answers :: "RateLimitKey \<Rightarrow> limiter_op list \<Rightarrow> rate_limiter \<Rightarrow> bool list" where
  "answers k [] st = []"
| "answers k (Check now k' l # ops) st =
     (let (b, st') = check now k' l st in if k' = k then b # answers k ops st' else answers k ops st')"
| "answers k (Cleanup now # ops) st = answers k ops (cleanup_expired now st)"

fun limit_of :: "RateLimitKey \<Rightarrow> limiter_op \<Rightarrow> u32 option" where
  "limit_of k (Check now k' l) = (if k' = k then Some l else None)"
| "limit_of k (Cleanup now) = None"

section \<open>One entry\<close>

definition new_window :: "nat \<Rightarrow> WindowState" where
  "new_window now = \<lparr>prev_count = 0, curr_count = 0, window_start = now\<rparr>"

definition count_request :: "nat \<Rightarrow> WindowState \<Rightarrow> WindowState" where
  "count_request now ws = (let w = rotate_window now ws in w\<lparr>curr_count := curr_count w + 1\<rparr>)"

abbreviation live :: "nat \<Rightarrow> WindowState \<Rightarrow> bool" where
  "live now ws \<equiv> now - window_start ws \<le> rate_limit_window * 2"

lemma lookup_cleanup:
  assumes "distinct (map fst st)"
  shows "map_of (cleanup_expired now st) k =
    (case map_of st k of Some w \<Rightarrow> if live now w then Some w else None | None \<Rightarrow> None)"
  using assms
proof (induction st)
  case Nil
  then show ?case by (simp add: cleanup_expired_def)
next
  case (Cons e st)
  obtain k' w where e: "e = (k', w)" by (cases e)
  have "k' \<notin> dom (map_of st)" using Cons.prems by (simp add: e dom_map_of_conv_image_fst)
  then have "map_of st k' = None" by (simp add: domIff)
  with Cons show ?case by (auto simp: cleanup_expired_def e)
qed

lemma distinct_cleanup: "distinct (map fst st) \<Longrightarrow> distinct (map fst (cleanup_expired now st))"
  by (simp add: cleanup_expired_def distinct_map_filter)

lemma distinct_check: "distinct (map fst st) \<Longrightarrow> distinct (map fst (snd (check now k l st)))"
  by (simp add: check_def Let_def distinct_update distinct_cleanup)

interpretation limiter: invariant_machine limiter_step "\<lambda>st. distinct (map fst st)"
proof (standard, goal_cases)
  case (1 st op)
  then show ?case by (cases op) (simp_all add: distinct_check distinct_cleanup)
qed

text \<open>What a check reads and writes, as seen from one key.\<close>

lemma check_cases:
  obtains st1 w where "st1 = st \<or> st1 = cleanup_expired now st"
    and "w = (case map_of st1 k of None \<Rightarrow> new_window now | Some w \<Rightarrow> w)"
    and "check now k l st = (effective_count now (count_request now w) \<le> of_nat (unat l),
                             AList.update k (count_request now w) st1)"
proof (rule that)
  let ?st1 = "if 5000 < length st then cleanup_expired now st else st"
  let ?w = "case map_of ?st1 k of None \<Rightarrow> new_window now | Some w \<Rightarrow> w"
  show "?st1 = st \<or> ?st1 = cleanup_expired now st" by simp
  show "?w = ?w" ..
  show "check now k l st = (effective_count now (count_request now ?w) \<le> of_nat (unat l),
      AList.update k (count_request now ?w) ?st1)"
    by (simp add: check_def count_request_def new_window_def Let_def cong: option.case_cong)
qed

lemma f64_unat: "f64 (of_nat (unat (x :: u32))) = of_nat (unat x)"
proof (rule f64_of_nat)
  show "unat x < 2 ^ 53" using unsigned_less [of x, where ?'a = nat] by simp
qed

lemma f64_unsigned [simp]: "f64 (unsigned (x :: u32)) = unsigned x"
  using f64_unat [of x] by simp

lemma prev_weight_nonneg: "0 \<le> f64 (1 - min e 1)"
  by (rule f64_nonneg) simp

lemma effective_ge: "of_nat (unat (curr_count w)) \<le> effective_count now w"
proof -
  let ?x = "f64 (of_nat (unat (prev_count w))
    * f64 (1 - min (f64 (as_secs_f64 (now - window_start w) / as_secs_f64 rate_limit_window)) 1))"
  have "0 \<le> ?x" by (rule f64_nonneg, rule mult_nonneg_nonneg, rule of_nat_0_le_iff, rule prev_weight_nonneg)
  then have "f64 (of_nat (unat (curr_count w))) \<le> f64 (?x + of_nat (unat (curr_count w)))"
    by (intro f64_mono) simp
  then show ?thesis by (simp add: effective_count_def Let_def f64_unat)
qed

lemma effective_no_prev: "prev_count w = 0 \<Longrightarrow> effective_count now w = of_nat (unat (curr_count w))"
  by (simp add: effective_count_def Let_def f64_unat)

lemma unat_Suc: "unat (c :: u32) + 1 < 2 ^ 32 \<Longrightarrow> unat (c + 1) = unat c + 1"
  by (simp add: unat_word_ariths)

lemma count_in_window:
  "now - window_start w \<le> rate_limit_window \<Longrightarrow> count_request now w = w\<lparr>curr_count := curr_count w + 1\<rparr>"
  by (simp add: count_request_def rotate_window_def)

lemma count_rotates:
  "rate_limit_window < now - window_start w \<Longrightarrow>
   count_request now w = \<lparr>prev_count = curr_count w, curr_count = 1, window_start = now\<rparr>"
  by (simp add: count_request_def rotate_window_def)


section \<open>The sliding estimate\<close>

text \<open>
  A 2048th of the window is a whole number of nanoseconds, and multiples of it are exact in
  every operation of the estimate. Monotonicity of rounding carries the bound to the times
  between them.
\<close>

definition window_unit :: nat where
  "window_unit = rate_limit_window div 2048"

lemma window_unit: "window_unit = 29296875"
  by (simp add: window_unit_def rate_limit_window_def)

lemma f64_dyadic: "n < 2 ^ 53 \<Longrightarrow> m \<le> 1074 \<Longrightarrow> f64 (of_nat n / 2 ^ m) = of_nat n / 2 ^ m"
  using fl_exact [of "int n" 53 "- 1074" "- int m"] by (cases "m = 0") (simp_all add: f64_def pow2_def divide_inverse)

lemma f64_le_dyadic: "x \<le> of_nat n / 2 ^ m \<Longrightarrow> n < 2 ^ 53 \<Longrightarrow> m \<le> 1074 \<Longrightarrow> f64 x \<le> of_nat n / 2 ^ m"
  by (metis f64_mono f64_dyadic)

lemma dyadic_le_f64: "of_nat n / 2 ^ m \<le> x \<Longrightarrow> n < 2 ^ 53 \<Longrightarrow> m \<le> 1074 \<Longrightarrow> of_nat n / 2 ^ m \<le> f64 x"
  by (metis f64_mono f64_dyadic)

lemma as_secs_mono:
  assumes "a \<le> b" and "b \<le> rate_limit_window"
  shows "as_secs_f64 a \<le> as_secs_f64 b"
proof (cases "a div 10 ^ 9 = b div 10 ^ 9")
  case True
  then have "a mod 10 ^ 9 \<le> b mod 10 ^ 9"
    unfolding minus_mult_div_eq_mod [of _ "10 ^ 9", symmetric] by (simp only: diff_le_mono [OF assms(1)])
  then have "f64 (of_nat (a mod 10 ^ 9) / 10 ^ 9) \<le> f64 (of_nat (b mod 10 ^ 9) / 10 ^ 9)"
    by (intro f64_mono divide_right_mono) (simp_all only: of_nat_le_iff, simp)
  with True show ?thesis by (simp add: as_secs_f64_def f64_mono)
next
  case False
  then have lt: "Suc (a div 10 ^ 9) \<le> b div 10 ^ 9" using div_le_mono [OF assms(1), of "10 ^ 9"] by simp
  have sm: "b div 10 ^ 9 < 2 ^ 53" using assms(2) by (simp add: rate_limit_window_def)
  have "f64 (of_nat (a mod 10 ^ 9) / 10 ^ 9) \<le> 1"
  proof (rule f64_le_1)
    have "(of_nat (a mod 10 ^ 9) :: rat) \<le> of_nat (10 ^ 9)" by (simp only: of_nat_le_iff, simp)
    then show "(of_nat (a mod 10 ^ 9) :: rat) / 10 ^ 9 \<le> 1" by simp
  qed
  moreover have "0 \<le> f64 (of_nat (b mod 10 ^ 9) / 10 ^ 9)" by (rule f64_nonneg) simp
  moreover have "f64 (of_nat (a div 10 ^ 9)) = of_nat (a div 10 ^ 9)" "f64 (of_nat (b div 10 ^ 9)) = of_nat (b div 10 ^ 9)"
    using lt sm by (intro f64_of_nat; simp)+
  moreover have "of_nat (a div 10 ^ 9) + 1 \<le> (of_nat (b div 10 ^ 9) :: rat)"
    using of_nat_mono [OF lt, where ?'a = rat] by (simp only: of_nat_Suc add.commute)
  ultimately show ?thesis by (simp only: as_secs_f64_def, intro f64_mono) linarith
qed

lemma as_secs_unit:
  assumes "j \<le> 2048"
  shows "as_secs_f64 (j * window_unit) = of_nat (15 * j) / 2 ^ 9"
proof -
  let ?n = "j * window_unit"
  have n: "?n * 512 = 15 * j * 10 ^ 9" by (simp add: window_unit)
  define q r where "q = ?n div 10 ^ 9" and "r = ?n mod 10 ^ 9"
  have qr: "?n = 10 ^ 9 * q + r" "r < 10 ^ 9" by (simp_all add: q_def r_def)
  have r: "r * 512 = (15 * j - 512 * q) * 10 ^ 9" using n qr(1) by (simp add: diff_mult_distrib)
  have q: "512 * q \<le> 15 * j" using n qr(1) by simp
  have "15 * j - 512 * q < 512" using r qr(2) by simp
  then have small: "15 * j - 512 * q < 2 ^ 53" "q < 2 ^ 53" "15 * j < 2 ^ 53" using q assms by simp_all
  have "of_nat r * 512 = (of_nat (15 * j - 512 * q) :: rat) * 10 ^ 9"
    using arg_cong [OF r, of "of_nat :: nat \<Rightarrow> rat"] by (simp only: of_nat_mult of_nat_power of_nat_numeral)
  then have f: "of_nat r / 10 ^ 9 = (of_nat (15 * j - 512 * q) :: rat) / 2 ^ 9" by (simp add: field_simps)
  have dy: "f64 (of_nat (15 * j - 512 * q) / 2 ^ 9) = of_nat (15 * j - 512 * q) / 2 ^ 9"
    by (rule f64_dyadic [OF small(1)]) simp
  have "as_secs_f64 ?n = f64 (f64 (of_nat q) + f64 (of_nat (15 * j - 512 * q) / 2 ^ 9))"
    unfolding as_secs_f64_def by (simp only: q_def [symmetric] r_def [symmetric] f)
  also have "\<dots> = f64 (of_nat q + of_nat (15 * j - 512 * q) / 2 ^ 9)"
    by (simp only: f64_of_nat [OF small(2)] dy)
  also have "of_nat q + of_nat (15 * j - 512 * q) / 2 ^ 9 = (of_nat (15 * j) :: rat) / 2 ^ 9"
    using q by (simp add: of_nat_diff field_simps)
  finally show ?thesis using f64_dyadic [OF small(3), of 9] by simp
qed

lemma elapsed_frac_le:
  assumes "e \<le> j * window_unit" and "j \<le> 2048"
  shows "f64 (as_secs_f64 e / as_secs_f64 rate_limit_window) \<le> of_nat j / 2 ^ 11"
proof -
  have w: "rate_limit_window = 2048 * window_unit" by (simp add: window_unit rate_limit_window_def)
  have "j * window_unit \<le> rate_limit_window" using assms(2) by (simp add: w)
  from as_secs_mono [OF assms(1) this] have m: "as_secs_f64 e \<le> of_nat (15 * j) / 2 ^ 9"
    by (simp only: as_secs_unit [OF assms(2)])
  have "as_secs_f64 rate_limit_window = 60" unfolding w as_secs_unit [OF order_refl] by simp
  with m have "as_secs_f64 e / as_secs_f64 rate_limit_window \<le> of_nat j / 2 ^ 11" by (simp add: field_simps)
  then show ?thesis by (rule f64_le_dyadic) (use assms(2) in simp_all)
qed

text \<open>
  The estimate counts the last window at least for the part of it that the sliding window still
  covers: an admitted request leaves the weighted sum within the limit.
\<close>

lemma effective_sliding:
  assumes e: "now - window_start w \<le> j * window_unit" and j: "j \<le> 2048"
    and le: "effective_count now w \<le> of_nat l"
  shows "(2048 - j) * unat (prev_count w) + 2048 * unat (curr_count w) \<le> 2048 * l"
proof -
  define p c where "p = unat (prev_count w)" and "c = unat (curr_count w)"
  have pc: "p < 2 ^ 32" "c < 2 ^ 32"
    using unsigned_less [of "prev_count w", where ?'a = nat] unsigned_less [of "curr_count w", where ?'a = nat]
    by (simp_all add: p_def c_def)
  define ef where "ef = f64 (as_secs_f64 (now - window_start w) / as_secs_f64 rate_limit_window)"
  have "ef \<le> of_nat j / 2 ^ 11" unfolding ef_def by (rule elapsed_frac_le [OF e j])
  then have "of_nat (2048 - j) / 2 ^ 11 \<le> 1 - min ef 1" using j by (simp add: of_nat_diff field_simps)
  then have w: "of_nat (2048 - j) / 2 ^ 11 \<le> f64 (1 - min ef 1)" by (rule dyadic_le_f64) simp_all
  have "(2048 - j) * p \<le> 2048 * 2 ^ 32" by (rule mult_le_mono) (use pc in simp_all)
  moreover have "2048 * c \<le> 2048 * 2 ^ 32" using pc by simp
  ultimately have "(2048 - j) * p + 2048 * c \<le> 2048 * 2 ^ 32 + 2048 * 2 ^ 32" by (rule add_mono)
  then have k: "(2048 - j) * p + 2048 * c < 2 ^ 53" by (rule order.strict_trans1) simp
  then have k': "(2048 - j) * p < 2 ^ 53" by (rule order.strict_trans1 [OF le_add1])
  have "of_nat ((2048 - j) * p) / 2 ^ 11 \<le> of_nat p * f64 (1 - min ef 1)"
    using mult_left_mono [OF w, of "of_nat p"] by (simp add: mult.commute)
  then have x: "of_nat ((2048 - j) * p) / 2 ^ 11 \<le> f64 (of_nat p * f64 (1 - min ef 1))"
    by (rule dyadic_le_f64) (use k' in simp_all)
  have "of_nat ((2048 - j) * p + 2048 * c) / 2 ^ 11 \<le> f64 (of_nat p * f64 (1 - min ef 1)) + of_nat c"
    using x by (simp add: field_simps)
  then have "of_nat ((2048 - j) * p + 2048 * c) / 2 ^ 11 \<le> f64 (f64 (of_nat p * f64 (1 - min ef 1)) + of_nat c)"
    by (rule dyadic_le_f64) (use k in simp_all)
  then have "of_nat ((2048 - j) * p + 2048 * c) / 2 ^ 11 \<le> effective_count now w"
    by (simp only: effective_count_def Let_def ef_def p_def c_def)
  with le have "of_nat ((2048 - j) * p + 2048 * c) \<le> (of_nat (2048 * l) :: rat)" by (simp add: field_simps)
  then show ?thesis unfolding of_nat_le_iff p_def c_def .
qed

section \<open>Admissions in an interval\<close>

text \<open>
  How many more requests of a key with limit \<open>l\<close> can be admitted until \<open>T\<close> plus \<open>j\<close> units, in
  2048ths of a request: a window that began in the stretch is charged for the weight its
  predecessor keeps to the end, one that began in the window before \<open>T\<close> may rotate once, and an
  older one is replaced by the first request, by a rotation or after an eviction.
\<close>

fun budget :: "nat \<Rightarrow> nat \<Rightarrow> nat \<Rightarrow> WindowState option \<Rightarrow> nat" where
  "budget T j l None = 2048 * l"
| "budget T j l (Some w) =
     (if T \<le> window_start w then 2048 * l - ((2048 - j) * unat (prev_count w) + 2048 * unat (curr_count w))
      else if window_start w + rate_limit_window < T then 2048 * l
      else 2048 * (l - unat (curr_count w)) + (2048 * l - (2048 - j) * max l (unat (curr_count w))))"

fun used :: "WindowState option \<Rightarrow> nat" where
  "used None = 0"
| "used (Some w) = unat (curr_count w)"

lemma budget_cleanup: "distinct (map fst st) \<Longrightarrow> T \<le> now \<Longrightarrow> now \<le> T + rate_limit_window \<Longrightarrow>
    budget T j l (map_of (cleanup_expired now st) k) \<le> budget T j l (map_of st k)"
  by (auto simp: lookup_cleanup split: option.splits)

lemma used_cleanup: "distinct (map fst st) \<Longrightarrow> used (map_of (cleanup_expired now st) k) \<le> used (map_of st k)"
  by (auto simp: lookup_cleanup split: option.splits)

lemma old_window_budget:
  fixes l c q :: nat
  assumes "q \<le> 2048"
  shows "2048 * l - q * c \<le> 2048 * (l - c) + (2048 * l - q * max l c)"
    and "2048 * (l - Suc c) + (2048 * l - q * max l (Suc c)) + (if Suc c \<le> l then 2048 else 0)
      \<le> 2048 * (l - c) + (2048 * l - q * max l c)"
proof -
  have "q * l \<le> 2048 * l" "q * c \<le> 2048 * c" "q * (l - c) \<le> 2048 * (l - c)"
    using assms by (intro mult_right_mono; simp)+
  then show "2048 * l - q * c \<le> 2048 * (l - c) + (2048 * l - q * max l c)"
    by (cases "c \<le> l") (simp_all add: max_def diff_mult_distrib2)
  show "2048 * (l - Suc c) + (2048 * l - q * max l (Suc c)) + (if Suc c \<le> l then 2048 else 0)
      \<le> 2048 * (l - c) + (2048 * l - q * max l c)"
    by (cases "Suc c \<le> l") (simp_all add: max_def diff_le_mono2)
qed

lemma budget_count:
  assumes t: "T \<le> now" "now \<le> T + j * window_unit" and j: "j \<le> 2048"
    and w: "w = (case x of None \<Rightarrow> new_window now | Some w \<Rightarrow> w)" and u: "used x + 1 < 2 ^ 32"
  shows "budget T j l (Some (count_request now w)) + (if effective_count now (count_request now w) \<le> of_nat l then 2048 else 0)
      \<le> budget T j l x" (is "?b + ?a \<le> _") and "used (Some (count_request now w)) \<le> used x + 1"
proof -
  let ?w = "count_request now w"
  define q where "q = 2048 - j"
  have q: "q \<le> 2048" by (simp add: q_def)
  have W: "j * window_unit \<le> rate_limit_window" using j by (simp add: window_unit rate_limit_window_def)
  have a: "unat (curr_count ?w) \<le> l" if "effective_count now ?w \<le> of_nat l"
    using order_trans [OF effective_ge that] by (simp only: of_nat_le_iff)
  have s: "q * unat (prev_count ?w) + 2048 * unat (curr_count ?w) \<le> 2048 * l"
    if "effective_count now ?w \<le> of_nat l" "T \<le> window_start ?w"
  proof -
    have "now - window_start ?w \<le> j * window_unit" using t(2) that(2) by linarith
    from effective_sliding [OF this j that(1)] show ?thesis by (simp add: q_def)
  qed
  consider (fresh) "x = None" | (same) "x = Some w" "now - window_start w \<le> rate_limit_window"
    | (rot) "x = Some w" "rate_limit_window < now - window_start w"
    using w by (cases x; cases "now - window_start w \<le> rate_limit_window") auto
  then have "?b + ?a \<le> budget T j l x \<and> used (Some ?w) \<le> used x + 1"
  proof cases
    case fresh
    then have "?w = (new_window now)\<lparr>curr_count := 1\<rparr>"
      using w by (simp add: count_in_window new_window_def)
    with a fresh t show ?thesis by (simp add: new_window_def)
  next
    case same
    then have c: "?w = w\<lparr>curr_count := curr_count w + 1\<rparr>" "unat (curr_count w + 1) = Suc (unat (curr_count w))"
      using u unat_Suc [of "curr_count w"] by (simp_all add: count_in_window)
    show ?thesis
    proof (cases "T \<le> window_start w")
      case True
      with s same c show ?thesis by (auto simp: q_def intro: diff_le_mono2)
    next
      case False
      have n: "\<not> window_start w + rate_limit_window < T" using same(2) t(1) by linarith
      have "?a \<le> (if Suc (unat (curr_count w)) \<le> l then 2048 else 0)" using a c by auto
      then have "?b + ?a \<le> 2048 * (l - Suc (unat (curr_count w))) + (2048 * l - q * max l (Suc (unat (curr_count w))))
          + (if Suc (unat (curr_count w)) \<le> l then 2048 else 0)"
        using False n by (simp add: c q_def)
      also have "\<dots> \<le> 2048 * (l - unat (curr_count w)) + (2048 * l - q * max l (unat (curr_count w)))"
        by (rule old_window_budget(2) [OF q])
      also have "\<dots> = budget T j l x" using False n same(1) by (simp add: q_def)
      finally show ?thesis using c same(1) by simp
    qed
  next
    case rot
    then have c: "?w = \<lparr>prev_count = curr_count w, curr_count = 1, window_start = now\<rparr>" "window_start w < T"
      using t W by (simp_all add: count_rotates)
    have "?b + ?a \<le> 2048 * l - q * unat (curr_count w)"
      using s c t by (auto simp: q_def intro: diff_le_mono2)
    moreover have "2048 * l - q * unat (curr_count w) \<le> budget T j l x"
      using c(2) rot(1) old_window_budget(1) [OF q, of l "unat (curr_count w)"] by (simp add: q_def)
    ultimately have "?b + ?a \<le> budget T j l x" by (rule order_trans)
    with rot(1) c show ?thesis by simp
  qed
  then show "?b + ?a \<le> budget T j l x" "used (Some ?w) \<le> used x + 1" by blast+
qed

lemma answers_bound:
  assumes "distinct (map fst st)"
    and "list_all (\<lambda>op. T \<le> op_time op \<and> op_time op \<le> T + j * window_unit) ops" and j: "j \<le> 2048"
    and "list_all (\<lambda>op. limit_of k op \<in> {None, Some l}) ops"
    and "used (map_of st k) + length ops < 2 ^ 32"
  shows "2048 * length (filter (\<lambda>b. b) (answers k ops st)) \<le> budget T j (unat l) (map_of st k)"
  using assms
proof (induction ops arbitrary: st)
  case Nil
  then show ?case by simp
next
  case (Cons op ops)
  have t: "T \<le> op_time op" "op_time op \<le> T + j * window_unit" using Cons.prems(2) by simp_all
  then have t': "op_time op \<le> T + rate_limit_window"
    using j mult_right_mono [OF j, of window_unit] by (simp add: window_unit rate_limit_window_def)
  note IH = Cons.IH [OF limiter.step_inv [OF Cons.prems(1), of op]]
  show ?case
  proof (cases op)
    case (Cleanup now)
    have "2048 * length (filter (\<lambda>b. b) (answers k ops (cleanup_expired now st))) \<le> budget T j (unat l) (map_of (cleanup_expired now st) k)"
      using IH Cons.prems used_cleanup [OF Cons.prems(1), of now k] by (simp add: Cleanup)
    also have "\<dots> \<le> budget T j (unat l) (map_of st k)" using t t' by (intro budget_cleanup Cons.prems(1)) (simp_all add: Cleanup)
    finally show ?thesis by (simp add: Cleanup)
  next
    case (Check now k' l')
    obtain st1 w where st1: "st1 = st \<or> st1 = cleanup_expired now st"
      and w: "w = (case map_of st1 k' of None \<Rightarrow> new_window now | Some w \<Rightarrow> w)"
      and c: "check now k' l' st = (effective_count now (count_request now w) \<le> of_nat (unat l'),
                              AList.update k' (count_request now w) st1)"
      by (rule check_cases)
    have b: "budget T j (unat l) (map_of st1 k) \<le> budget T j (unat l) (map_of st k)" "used (map_of st1 k) \<le> used (map_of st k)"
      using st1 budget_cleanup [OF Cons.prems(1)] used_cleanup [OF Cons.prems(1)] t t' by (auto simp: Check)
    show ?thesis
    proof (cases "k' = k")
      case False
      then have m: "map_of (snd (check now k' l' st)) k = map_of st1 k" by (simp add: c update_conv')
      have "2048 * length (filter (\<lambda>b. b) (answers k ops (snd (check now k' l' st)))) \<le> budget T j (unat l) (map_of st1 k)"
        using IH Cons.prems b(2) by (simp add: Check m)
      with b(1) False show ?thesis by (simp add: Check case_prod_beta)
    next
      case True
      then have l': "l' = l" using Cons.prems(4) by (simp add: Check)
      have m: "map_of (snd (check now k l st)) k = Some (count_request now w)"
        by (simp add: c [unfolded True l'] update_conv')
      have u: "used (map_of st1 k) + 1 < 2 ^ 32" using Cons.prems(5) b(2) by simp
      note bc = budget_count [OF t [unfolded Check op_time.simps] j w [unfolded True] u]
      have "2048 * length (filter (\<lambda>b. b) (answers k ops (snd (check now k' l' st))))
          \<le> budget T j (unat l) (Some (count_request now w))"
        using IH Cons.prems b(2) bc(2) by (simp add: Check m True l')
      with order_trans [OF bc(1) [of "unat l"] b(1)] show ?thesis
        by (simp add: Check True l' c [unfolded True l'] del: budget.simps split: if_splits)
    qed
  qed
qed

lemma budget_le:
  assumes "j \<le> 2048"
  shows "budget T j l x \<le> (2048 + j) * l"
proof (cases x)
  case (Some w)
  have "(2048 - j) * l \<le> (2048 - j) * max l (unat (curr_count w))" by (rule mult_left_mono) simp_all
  then have "2048 * l - (2048 - j) * max l (unat (curr_count w)) \<le> 2048 * l - (2048 - j) * l" by (rule diff_le_mono2)
  also have "\<dots> = j * l" using assms by (simp add: diff_mult_distrib [symmetric])
  finally have "2048 * (l - unat (curr_count w)) + (2048 * l - (2048 - j) * max l (unat (curr_count w))) \<le> (2048 + j) * l"
    by (simp add: add_mult_distrib)
  moreover have "2048 * l - ((2048 - j) * unat (prev_count w) + 2048 * unat (curr_count w)) \<le> (2048 + j) * l"
    unfolding add_mult_distrib by (rule order_trans [OF diff_le_self le_add1])
  ultimately show ?thesis using Some by (simp add: add_mult_distrib)
qed simp

lemma used_run:
  "distinct (map fst st) \<Longrightarrow> used (map_of st k) + length ops < 2 ^ 32 \<Longrightarrow>
   used (map_of (fold limiter_step ops st) k) \<le> used (map_of st k) + length ops"
proof (induction ops arbitrary: st)
  case Nil
  then show ?case by simp
next
  case (Cons op ops)
  have "used (map_of (limiter_step op st) k) \<le> used (map_of st k) + 1"
  proof (cases op)
    case (Cleanup now)
    then show ?thesis using used_cleanup [OF Cons.prems(1), of now k] by simp
  next
    case (Check now k' l')
    obtain st1 w where st1: "st1 = st \<or> st1 = cleanup_expired now st"
      and w: "w = (case map_of st1 k' of None \<Rightarrow> new_window now | Some w \<Rightarrow> w)"
      and c: "check now k' l' st = (effective_count now (count_request now w) \<le> of_nat (unat l'),
                              AList.update k' (count_request now w) st1)"
      by (rule check_cases)
    have b: "used (map_of st1 k) \<le> used (map_of st k)"
      using st1 used_cleanup [OF Cons.prems(1)] by auto
    show ?thesis
    proof (cases "k' = k")
      case True
      have "used (map_of st1 k) + 1 < 2 ^ 32" using Cons.prems(2) b by simp
      from budget_count(2) [OF order_refl le_add1 le0 w [unfolded True] this] b show ?thesis
        by (simp add: Check True c [unfolded True] update_conv')
    next
      case False
      with b show ?thesis by (simp add: Check c update_conv')
    qed
  qed
  with Cons.IH [OF limiter.step_inv [OF Cons.prems(1), of op]] Cons.prems(2) show ?case by simp
qed

text \<open>
  C17. The limiter slides: whatever calls came before, in a stretch of time of \<open>j\<close> 2048ths of the
  window of sixty seconds at most \<open>1 + j/2048\<close> times the limit of requests of a key are
  admitted. A short burst across the boundary of two windows therefore gets hardly more than
  the limit, where a fixed window would admit twice the limit, and a stretch as long as the
  window gets at most twice the limit. Other keys and other categories, clean-ups, evictions,
  clock readings out of order and the rounding of the \<open>f64\<close> estimate make no difference. The
  limit of the key is the same during the stretch, and the limiter has had fewer than \<open>2^32\<close>
  calls, the range of the 32-bit counters.
\<close>

theorem rate_limit_bound:
  assumes "list_all (\<lambda>op. T \<le> op_time op \<and> op_time op \<le> T + j * window_unit) ops" and "j \<le> 2048"
    and "list_all (\<lambda>op. limit_of k op \<in> {None, Some l}) ops"
    and "length before + length ops < 2 ^ 32"
  shows "2048 * length (filter (\<lambda>b. b) (answers k ops (fold limiter_step before []))) \<le> (2048 + j) * unat l"
proof -
  let ?st = "fold limiter_step before []"
  have d: "distinct (map fst ?st)" by (rule limiter.run_inv) simp
  have "used (map_of ?st k) \<le> length before" using used_run [of "[]" k before] assms(4) by simp
  then have "2048 * length (filter (\<lambda>b. b) (answers k ops ?st)) \<le> budget T j (unat l) (map_of ?st k)"
    using assms by (intro answers_bound [OF d]) simp_all
  also have "\<dots> \<le> (2048 + j) * unat l" by (rule budget_le [OF assms(2)])
  finally show ?thesis .
qed


section \<open>A new key and an idle key\<close>

definition clean :: "nat \<Rightarrow> WindowState option \<Rightarrow> bool" where
  "clean T x \<longleftrightarrow> (case x of None \<Rightarrow> True | Some w \<Rightarrow> prev_count w = 0 \<and> T \<le> window_start w)"

lemma clean_cleanup:
  "distinct (map fst st) \<Longrightarrow> now \<le> T + rate_limit_window \<Longrightarrow> clean T (map_of st k) \<Longrightarrow>
   map_of (cleanup_expired now st) k = map_of st k"
  by (cases "map_of st k"; simp add: lookup_cleanup clean_def rate_limit_window_def del: map_of_eq_Some_iff; linarith)

lemma clean_count:
  assumes "T \<le> now" "now \<le> T + rate_limit_window" "clean T x"
    and w: "w = (case x of None \<Rightarrow> new_window now | Some w \<Rightarrow> w)" and u: "used x + 1 < 2 ^ 32"
  shows "clean T (Some (count_request now w))" and "used (Some (count_request now w)) = Suc (used x)"
    and "effective_count now (count_request now w) \<le> of_nat (unat l) \<longleftrightarrow> Suc (used x) \<le> unat (l :: u32)"
proof -
  have i: "now - window_start w \<le> rate_limit_window" "prev_count w = 0" "T \<le> window_start w" "used x = unat (curr_count w)"
  proof -
    have "now - window_start w \<le> rate_limit_window \<and> prev_count w = 0 \<and> T \<le> window_start w \<and> used x = unat (curr_count w)"
    proof (cases x)
      case None
      then have "w = new_window now" using w by simp
      with assms(1) None show ?thesis by (simp add: new_window_def)
    next
      case (Some v)
      then have "w = v" using w by simp
      with assms(1-3) Some show ?thesis by (simp add: clean_def) linarith
    qed
    then show "now - window_start w \<le> rate_limit_window" "prev_count w = 0" "T \<le> window_start w"
      "used x = unat (curr_count w)" by blast+
  qed
  have n: "unat (curr_count w + 1) = Suc (used x)" using u unat_Suc [of "curr_count w"] i(4) by simp
  show "clean T (Some (count_request now w))" "used (Some (count_request now w)) = Suc (used x)"
    using i n by (simp_all add: count_in_window clean_def)
  have "effective_count now (count_request now w) = of_nat (unat (curr_count (count_request now w)))"
    using i by (intro effective_no_prev) (simp add: count_in_window)
  also have "\<dots> = of_nat (Suc (used x))" using i n by (simp add: count_in_window del: of_nat_unat)
  finally show "effective_count now (count_request now w) \<le> of_nat (unat l) \<longleftrightarrow> Suc (used x) \<le> unat l"
    by (simp only: of_nat_le_iff)
qed

lemma clean_answers:
  assumes "distinct (map fst st)"
    and "list_all (\<lambda>op. T \<le> op_time op \<and> op_time op \<le> T + rate_limit_window) ops"
    and "list_all (\<lambda>op. limit_of k op \<in> {None, Some l}) ops"
    and "used (map_of st k) + length ops < 2 ^ 32" and "clean T (map_of st k)"
  shows "answers k ops st = map (\<lambda>i. i \<le> unat l)
    [Suc (used (map_of st k)) ..< Suc (used (map_of st k)) + length (filter (\<lambda>op. limit_of k op \<noteq> None) ops)]"
  using assms
proof (induction ops arbitrary: st)
  case Nil
  then show ?case by simp
next
  case (Cons op ops)
  have t: "T \<le> op_time op" "op_time op \<le> T + rate_limit_window" using Cons.prems(2) by simp_all
  note IH = Cons.IH [OF limiter.step_inv [OF Cons.prems(1), of op]]
  show ?case
  proof (cases op)
    case (Cleanup now)
    have "map_of (cleanup_expired now st) k = map_of st k"
      using Cons.prems(1,5) t by (intro clean_cleanup) (simp_all add: Cleanup)
    with IH Cons.prems show ?thesis by (simp add: Cleanup)
  next
    case (Check now k' l')
    obtain st1 w where st1: "st1 = st \<or> st1 = cleanup_expired now st"
      and w: "w = (case map_of st1 k' of None \<Rightarrow> new_window now | Some w \<Rightarrow> w)"
      and c: "check now k' l' st = (effective_count now (count_request now w) \<le> of_nat (unat l'),
                              AList.update k' (count_request now w) st1)"
      by (rule check_cases)
    have m1: "map_of st1 k = map_of st k"
      using st1 clean_cleanup [OF Cons.prems(1) _ Cons.prems(5)] t by (auto simp: Check)
    show ?thesis
    proof (cases "k' = k")
      case False
      have "map_of (snd (check now k' l' st)) k = map_of st k" by (simp add: c update_conv' False [symmetric] m1)
      with IH Cons.prems False show ?thesis by (simp add: Check case_prod_beta)
    next
      case True
      have l': "l' = l" using Cons.prems(3) True by (simp add: Check)
      note cc = clean_count [OF t [unfolded Check op_time.simps] Cons.prems(5) w [unfolded True m1]]
      have u: "used (map_of st k) + 1 < 2 ^ 32" using Cons.prems(4) by simp
      have m: "map_of (snd (check now k l st)) k = Some (count_request now w)"
        by (simp add: c [unfolded True l'] update_conv')
      have f: "fst (check now k l st) = (Suc (used (map_of st k)) \<le> unat l)"
        unfolding c [unfolded True l'] fst_conv by (rule cc(3) [OF u])
      have "answers k ops (snd (check now k l st)) = map (\<lambda>i. i \<le> unat l)
          [Suc (Suc (used (map_of st k))) ..< Suc (Suc (used (map_of st k))) + length (filter (\<lambda>op. limit_of k op \<noteq> None) ops)]"
        using IH Cons.prems(2,3,4) cc(1,2) [OF u] by (simp add: Check m True l' del: used.simps)
      with f show ?thesis by (simp add: Check True l' case_prod_beta upt_conv_Cons del: upt_Suc)
    qed
  qed
qed

text \<open>
  A key the limiter does not know is admitted exactly \<open>limit\<close> times within one window,
  for the first requests it makes, whatever the other keys do meanwhile: the answers to its
  requests number \<open>1, 2, 3, ...\<close> are whether the number is at most the limit.
\<close>

theorem fresh_key_answers:
  assumes "map_of (fold limiter_step before []) k = None"
    and "list_all (\<lambda>op. T \<le> op_time op \<and> op_time op \<le> T + rate_limit_window) ops"
    and "list_all (\<lambda>op. limit_of k op \<in> {None, Some l}) ops" and "length ops < 2 ^ 32"
  shows "answers k ops (fold limiter_step before []) =
    map (\<lambda>i. i \<le> unat l) [1 ..< Suc (length (filter (\<lambda>op. limit_of k op \<noteq> None) ops))]"
proof -
  have "distinct (map fst (fold limiter_step before []))" by (rule limiter.run_inv) simp
  from clean_answers [OF this assms(2,3)] assms(1,4) show ?thesis by (simp add: clean_def)
qed

lemma effective_rotated:
  assumes "rate_limit_window < now - window_start w"
  shows "effective_count now (count_request now w) = of_nat (Suc (unat (curr_count w)))"
proof -
  have "unat (curr_count w) < 2 ^ 32" using unsigned_less [of "curr_count w", where ?'a = nat] by simp
  then have "f64 (of_nat (Suc (unat (curr_count w)))) = of_nat (Suc (unat (curr_count w)))"
    by (intro f64_of_nat) simp
  then show ?thesis
    using assms by (simp add: count_rotates effective_count_def as_secs_f64_def Let_def add.commute)
qed

text \<open>
  An idle key: once more than a window has passed since a key's window began, however
  much more, and no clean-up has removed its entry, its next request is admitted exactly when
  the last window held fewer requests than the limit, since the rotation restarts the window
  at the request and weighs the old count in full. After a clean-up more than two windows
  later the same request is admitted under every positive limit.
\<close>

theorem idle_key_refused:
  assumes "st = fold limiter_step before []" and "map_of st k = Some w" and "length st \<le> 5000"
    and "rate_limit_window < now - window_start w"
  shows "fst (check now k l st) = (unat (curr_count w) < unat l)
    \<and> (2 * rate_limit_window < now - window_start w \<longrightarrow> fst (check now k l (cleanup_expired now st)) = (0 < unat l))"
proof (intro conjI impI)
  have d: "distinct (map fst st)" unfolding assms(1) by (rule limiter.run_inv) simp
  have "fst (check now k l st) = (effective_count now (count_request now w) \<le> of_nat (unat l))"
    using assms(2,3) by (simp add: check_def count_request_def Let_def)
  then show "fst (check now k l st) = (unat (curr_count w) < unat l)"
    unfolding effective_rotated [OF assms(4)] of_nat_le_iff Suc_le_eq .
  assume "2 * rate_limit_window < now - window_start w"
  then have n: "map_of (cleanup_expired now st) k = None" using assms(2) by (simp add: lookup_cleanup [OF d])
  obtain st1 w' where st1: "st1 = cleanup_expired now st \<or> st1 = cleanup_expired now (cleanup_expired now st)"
    and w': "w' = (case map_of st1 k of None \<Rightarrow> new_window now | Some w \<Rightarrow> w)"
    and c: "check now k l (cleanup_expired now st) = (effective_count now (count_request now w') \<le> of_nat (unat l),
                              AList.update k (count_request now w') st1)"
    by (rule check_cases)
  have x: "map_of st1 k = None" using st1 n lookup_cleanup [OF distinct_cleanup [OF d]] by auto
  have "clean now (None :: WindowState option)" by (simp add: clean_def)
  from clean_count(3) [OF order_refl le_add1 this w' [unfolded x]] c
  show "fst (check now k l (cleanup_expired now st)) = (0 < unat l)" by (simp add: Suc_le_eq)
qed


definition demo_key :: RateLimitKey where
  "demo_key = Pseudonym ''alice'' Default"

definition demo_calls :: "limiter_op list" where
  "demo_calls = [Check 5 demo_key 2, Check 6 (Ip (V4 7) Registration) 1, Check 7 demo_key 2, Cleanup 8, Check 9 demo_key 2]"

lemma demo_calls_facts:
  "list_all (\<lambda>op. 0 \<le> op_time op \<and> op_time op \<le> 0 + rate_limit_window) demo_calls"
  "list_all (\<lambda>op. limit_of demo_key op \<in> {None, Some 2}) demo_calls"
  "length demo_calls < 2 ^ 32" "length (filter (\<lambda>op. limit_of demo_key op \<noteq> None) demo_calls) = 3"
  by (simp_all add: demo_calls_def demo_key_def rate_limit_window_def)

text \<open>
  Two requests just before a window of the key ends, and two just after it, within a 2048th of
  a window: of these four requests at most two are admitted under a limit of two.
\<close>

definition demo_burst :: "limiter_op list" where
  "demo_burst = map (\<lambda>t. Check (10 ^ 6 * t) demo_key 2) [59990, 59995, 60010, 60015]"

theorem rate_limit_bound_witness:
  "2048 * length (filter (\<lambda>b. b) (answers demo_key demo_burst (fold limiter_step [Check 1 (Ip (V4 7) Registration) 1, Check 1 demo_key 2] []))) \<le> (2048 + 1) * 2"
proof -
  have "list_all (\<lambda>op. 10 ^ 6 * 59990 \<le> op_time op \<and> op_time op \<le> 10 ^ 6 * 59990 + 1 * window_unit) demo_burst"
    "list_all (\<lambda>op. limit_of demo_key op \<in> {None, Some 2}) demo_burst" "length demo_burst = 4"
    by (simp_all add: demo_burst_def window_unit)
  from rate_limit_bound [OF this(1) _ this(2), of "[Check 1 (Ip (V4 7) Registration) 1, Check 1 demo_key 2]"] this(3)
  show ?thesis by simp
qed

theorem fresh_key_answers_witness: "answers demo_key demo_calls [] = [True, True, False]"
proof -
  have "answers demo_key demo_calls (fold limiter_step [] []) = map (\<lambda>i. i \<le> unat (2 :: u32)) [1 ..< Suc 3]"
    using fresh_key_answers [of "[]" demo_key, OF _ demo_calls_facts(1-3), unfolded demo_calls_facts(4)] by simp
  also have "[1 ..< Suc 3] = [1, 2, 3]" by (simp add: upt_rec)
  finally show ?thesis by simp
qed

theorem idle_key_refused_witness:
  "\<not> fst (check (10 ^ 14) demo_key 1 (snd (check 5 demo_key 1 [])))
   \<and> fst (check (10 ^ 14) demo_key 1 (cleanup_expired (10 ^ 14) (snd (check 5 demo_key 1 []))))"
proof -
  have "map_of (snd (check 5 demo_key 1 [])) demo_key = Some \<lparr>prev_count = 0, curr_count = 1, window_start = 5\<rparr>"
    "length (snd (check 5 demo_key 1 [])) \<le> 5000"
    by (simp_all add: check_def Let_def rotate_window_def)
  then show ?thesis
    using idle_key_refused [of "snd (check 5 demo_key 1 [])" "[Check 5 demo_key 1]" demo_key _ "10 ^ 14" 1]
    by (simp add: rate_limit_window_def)
qed

section \<open>The public URL\<close>

text \<open>The URL a request offers, if the middleware believes it.\<close>

definition offered_url :: "http_request \<Rightarrow> string option" where
  "offered_url req =
     (if peer_is_trusted req
      then (case forwarded_host req of
              Some host \<Rightarrow> if \<not> is_internal (host_name host) \<and> looks_plausible (host_name host)
                           then Some (forwarded_proto req @ ''://'' @ host) else None
            | None \<Rightarrow> None)
      else None)"

definition serve :: "(nat \<times> ServerPolicy option \<times> http_request) list \<Rightarrow> limiter_state \<Rightarrow> limiter_state" where
  "serve = fold (\<lambda>(now, policy, req) st. snd (rate_limit_middleware now policy req st))"

lemma detect_offered:
  "detect_public_url req current = (if current \<noteq> [] then current else case offered_url req of Some u \<Rightarrow> u | None \<Rightarrow> [])"
  by (simp add: detect_public_url_def offered_url_def split: option.splits)

lemma middleware_url:
  "ls_public_url (snd (rate_limit_middleware now policy req st)) = detect_public_url req (ls_public_url st)"
  by (simp add: rate_limit_middleware_def Let_def case_prod_beta split: option.splits)

lemma serve_url:
  "ls_public_url (serve reqs st) =
    (if ls_public_url st \<noteq> [] then ls_public_url st
     else case filter (\<lambda>u. u \<noteq> None) (map (\<lambda>(_, _, req). offered_url req) reqs) of
       Some u # _ \<Rightarrow> u | _ \<Rightarrow> [])"
proof (induction reqs arbitrary: st)
  case Nil
  then show ?case by (simp add: serve_def)
next
  case (Cons r reqs)
  obtain now policy req where r: "r = (now, policy, req)" by (cases r)
  have ne: "offered_url req \<noteq> Some []" by (simp add: offered_url_def split: option.splits)
  let ?st = "snd (rate_limit_middleware now policy req st)"
  have "serve (r # reqs) st = serve reqs ?st" by (simp add: serve_def r)
  with Cons.IH [of ?st] ne show ?case
    by (cases "offered_url req"; cases "ls_public_url st = []") (simp_all add: r middleware_url detect_offered)
qed

lemma set_bare_host: "set (bare_host h) \<subseteq> set h"
proof
  fix x assume "x \<in> set (bare_host h)"
  then have "x \<in> set (dropWhile (\<lambda>c. c = CHR '']'') (rev (dropWhile (\<lambda>c. c = CHR ''['') h)))"
    by (simp add: bare_host_def)
  from set_dropWhileD [OF this] have "x \<in> set (dropWhile (\<lambda>c. c = CHR ''['') h)" by simp
  from set_dropWhileD [OF this] show "x \<in> set h" by simp
qed

lemma host_name_no_colon: "CHR '':'' \<notin> set (host_name host)"
  by (auto simp: host_name_def dest: set_takeWhileD)

lemma plausible_name:
  assumes "looks_plausible (host_name host)"
  shows "CHR ''.'' \<in> set (host_name host)"
proof (rule ccontr)
  assume n: "CHR ''.'' \<notin> set (host_name host)"
  then obtain ip where ip: "parse_ip_addr (bare_host (host_name host)) = Some ip"
    using assms by (auto simp: looks_plausible_def)
  with n set_bare_host [of "host_name host"] host_name_no_colon [of host] ip_text_separators [OF ip]
  show False by (cases ip) auto
qed

text \<open>
  The public URL is detected at most once: after any requests an earlier URL stands, and
  an empty one is replaced only by the URL of a request whose peer is a loopback, private or
  link-local address and whose forwarded host is no name of the machine itself or its
  network and has a dot in it, the first such request. No IPv6 host is ever detected.
\<close>

theorem public_url_trusted:
  "ls_public_url (serve reqs st) = ls_public_url st
   \<or> ls_public_url st = [] \<and> (\<exists>before now policy req after host.
        reqs = before @ (now, policy, req) # after \<and> ls_public_url (serve before st) = []
        \<and> (\<exists>a. rq_peer req = Some a \<and> trusted_ip (sa_ip a))
        \<and> forwarded_host req = Some host \<and> ls_public_url (serve reqs st) = forwarded_proto req @ ''://'' @ host
        \<and> \<not> is_internal (host_name host) \<and> CHR ''.'' \<in> set (host_name host)
        \<and> (\<nexists>v6. parse_ip_addr (bare_host (host_name host)) = Some (V6 v6)))"
proof (cases "ls_public_url st = [] \<and> ls_public_url (serve reqs st) \<noteq> []")
  case False
  then show ?thesis by (auto simp: serve_url)
next
  case True
  let ?offers = "filter (\<lambda>u. u \<noteq> None) (map (\<lambda>(_, _, req). offered_url req) reqs)"
  obtain u us where u: "?offers = Some u # us" "ls_public_url (serve reqs st) = u"
    using True by (auto simp: serve_url split: list.splits option.splits)
  from filter_eq_Cons_iff [THEN iffD1, OF u(1)] obtain vs ws where
    vs: "map (\<lambda>(_, _, req). offered_url req) reqs = vs @ Some u # ws" "\<forall>v \<in> set vs. v = None" by auto
  from map_eq_append_conv [THEN iffD1, OF vs(1)] obtain before rest where
    b: "reqs = before @ rest" "map (\<lambda>(_, _, req). offered_url req) before = vs"
      "map (\<lambda>(_, _, req). offered_url req) rest = Some u # ws" by auto
  then obtain r after where r: "rest = r # after" "(\<lambda>(_, _, req). offered_url req) r = Some u" by auto
  obtain now policy req where req: "r = (now, policy, req)" by (cases r)
  from r(2) obtain host where h: "peer_is_trusted req" "forwarded_host req = Some host"
    "\<not> is_internal (host_name host)" "looks_plausible (host_name host)" "u = forwarded_proto req @ ''://'' @ host"
    by (auto simp: req offered_url_def split: if_splits option.splits)
  have "ls_public_url (serve before st) = []"
    using vs(2) True by (simp add: serve_url b(2) filter_False)
  moreover have "\<exists>a. rq_peer req = Some a \<and> trusted_ip (sa_ip a)"
    using h(1) by (simp add: peer_is_trusted_def split: option.splits)
  moreover have "\<nexists>v6. parse_ip_addr (bare_host (host_name host)) = Some (V6 v6)"
  proof
    assume "\<exists>v6. parse_ip_addr (bare_host (host_name host)) = Some (V6 v6)"
    then obtain v6 where "parse_ip_addr (bare_host (host_name host)) = Some (V6 v6)" ..
    from ip_text_separators [OF this] show False
      using set_bare_host [of "host_name host"] host_name_no_colon [of host] by auto
  qed
  ultimately show ?thesis
    using True b(1) r(1) req h plausible_name [OF h(4)] u(2) by blast
qed

section \<open>The membership proof\<close>

text \<open>
  With enforcement on, a request passes exactly when its header carries a readable payload
  whose commitment is the authenticated identity's, whose root is the server's current root,
  and whose proof verifies for these two as public inputs; the root that is verified is the
  root of the tree itself. Everything else is forbidden, save a poisoned tree lock.
\<close>

theorem proof_header_binds:
  assumes "field_laws C" and "hex_laws C"
  shows "verify_zk_membership_header C Z io True vkey tree header expected = Inr () \<longleftrightarrow>
    (\<exists>text json p proof c t. header = Header text \<and> base64_decode io text = Some json
       \<and> payload_from_json io json = Some p \<and> parse_proof Z (zp_proof p) = Inr proof
       \<and> (\<forall>e. expected = Some e \<longrightarrow> zp_commitment_hex p = e)
       \<and> parse_fr_from_hex C (zp_commitment_hex p) = Inr c
       \<and> tree = Some t \<and> zp_root_hex p = root_hex C t
       \<and> groth16_verify Z vkey [tree_root t, c] proof = Inr True)"
    (is "?lhs \<longleftrightarrow> ?rhs")
proof -
  have rt: "parse_fr_from_hex C (root_hex C t) = Inr (tree_root t)" for t
    using assms by (simp add: parse_fr_from_hex_def root_hex_def hex_laws_def field_laws_def)
  have ht: "header_text h = Some x \<longleftrightarrow> h = Header x" for h x by (cases h) auto
  show ?thesis
  proof
    assume ?lhs
    then show ?rhs
      using rt by (auto simp: verify_zk_membership_header_def res_simps ht verify_proof_def split: if_splits option.splits)
        (metis sum.inject(2))+
  next
    assume ?rhs
    then show ?lhs
      using rt by (auto simp: verify_zk_membership_header_def verify_proof_def split: option.splits)
  qed
qed

definition demo_header_io :: "u8 MerkleTree \<Rightarrow> proof_header_io" where
  "demo_header_io t = \<lparr>base64_decode = Some,
     payload_from_json = (\<lambda>_. Some \<lparr>zp_proof = [], zp_root_hex = root_hex demo_crypto t, zp_commitment_hex = []\<rparr>)\<rparr>"

theorem proof_header_binds_witness:
  "\<forall>t. verify_zk_membership_header demo_crypto demo_snark (demo_header_io t) True (generate_dummy_vkey demo_snark) (Some t)
      (Header ''e30='') (Some []) = Inr ()
    \<and> verify_zk_membership_header demo_crypto demo_snark (demo_header_io t) True (generate_dummy_vkey demo_snark) (Some t)
      (Header ''e30='') (Some ''00'') \<noteq> Inr ()"
  unfolding proof_header_binds [OF demo_field_laws demo_hex_laws]
  by (simp add: demo_header_io_def demo_snark_def parse_proof_def parse_g1_def parse_g2_def parse_fq_def validate_g1_def
      validate_g2_def parse_fr_from_hex_def demo_crypto_def)

section \<open>Security headers\<close>

lemma header_insert_lookup:
  "filter (\<lambda>(n, _). n = x) (header_insert h hs) =
    (if x = fst h then [h] else filter (\<lambda>(n, _). n = x) hs)"
  by (cases h) (auto simp: header_insert_def filter_empty_conv intro!: filter_cong)

text \<open>Every security header is set once, whatever the handler set, and no other header changes.\<close>

lemma security_headers_set:
  "filter (\<lambda>(n, _). n = x) (security_headers_middleware hs) =
    (case map_of security_headers x of Some v \<Rightarrow> [(x, v)] | None \<Rightarrow> filter (\<lambda>(n, _). n = x) hs)"
  by (simp add: security_headers_middleware_def security_headers_def header_insert_lookup)

end
