(* ===== verification/Annex_LinkPreview.thy ===== *)
theory Annex_LinkPreview
  imports Annex_Net Annex_Platform Annex_Api Annex_RateLimit Rust_Text
begin

text \<open>
  \<open>annex-server/src/api_link_preview.rs\<close>: fetching previews and images on behalf of the users
  without letting them reach the server's own network. The libraries are parameters: the
  \<open>url\<close> crate (\<open>url_lib\<close>), the HTML parser (\<open>html_lib\<close>), and the network (\<open>web_io\<close>), whose
  answers depend on the hop, so a name may resolve differently each time it is asked. A fetch
  also returns the requests it made. Times are nanoseconds, as in \<open>Annex_RateLimit\<close>; the hash
  maps of the caches are association lists, iterated in their order.
\<close>

section \<open>Configuration and types\<close>

definition max_html_bytes :: nat where "max_html_bytes = 512 * 1024"
definition max_image_bytes :: nat where "max_image_bytes = 5 * 1024 * 1024"
definition cache_ttl :: nat where "cache_ttl = 600 * 10 ^ 9"
definition max_cache_entries :: nat where "max_cache_entries = 2000"
definition max_image_cache_entries :: nat where "max_image_cache_entries = 500"
definition image_cache_ttl :: nat where "image_cache_ttl = 300 * 10 ^ 9"
definition max_redirect_hops :: nat where "max_redirect_hops = 5"

record PreviewResponse =
  pv_title :: "string option"
  pv_description :: "string option"
  pv_image_url :: "string option"
  pv_site_name :: "string option"

record CachedPreview =
  cp_data :: PreviewResponse
  cp_fetched_at :: nat

record CachedImage =
  ci_bytes :: bytes
  ci_content_type :: string
  ci_fetched_at :: nat

record PreviewCache =
  previews :: "(string \<times> CachedPreview) list"
  images :: "(string \<times> CachedImage) list"

section \<open>Libraries\<close>

datatype url_host = Ipv4 ipv4 | Ipv6 ipv6 | Domain string

text \<open>A parsed URL with the answers of its accessors; \<open>url_text\<close> is its serialisation.\<close>

record parsed_url =
  url_scheme :: string
  url_host :: "url_host option"
  url_host_str :: "string option"
  url_port :: "16 word option"
  url_path :: string
  url_text :: string

record url_lib =
  url_parse :: "string \<Rightarrow> parsed_url option"
  url_join :: "parsed_url \<Rightarrow> string \<Rightarrow> parsed_url option"

record html_element =
  el_attr :: "string \<Rightarrow> string option"
  el_text :: string

text \<open>The first element of the document that a CSS selector matches.\<close>

record 'doc html_lib =
  parse_document :: "string \<Rightarrow> 'doc"
  select_first :: "'doc \<Rightarrow> string \<Rightarrow> html_element option"
  utf8_lossy :: "bytes \<Rightarrow> string"

text \<open>
  A client either connects to the address it is pinned to or to the literal in the URL. The
  default client of the library, which \<open>build_http_client\<close> falls back to when its own cannot be
  built, connects to the literal too, but it follows redirects by itself; its \<open>http_get\<close> is the
  answer at the end of them.
\<close>

datatype http_client = Pinned string SocketAddr | Unpinned | DefaultClient

definition follows_redirects :: "http_client \<Rightarrow> bool" where
  "follows_redirects client \<longleftrightarrow> client = DefaultClient"

record http_response =
  rs_status :: nat
  rs_location :: header_value
  rs_content_type :: header_value
  rs_content_length :: "nat option"
  rs_chunks :: "bytes list"
  rs_broken :: bool

record web_io =
  lookup_host :: "nat \<Rightarrow> string \<Rightarrow> 16 word \<Rightarrow> SocketAddr list option"
  client_builds :: "string \<Rightarrow> SocketAddr \<Rightarrow> bool"
  plain_client_builds :: "nat \<Rightarrow> bool"
  http_get :: "nat \<Rightarrow> http_client \<Rightarrow> string \<Rightarrow> http_response option"

section \<open>Blocked addresses\<close>

fun is_private_ip :: "IpAddr \<Rightarrow> bool" where
  "is_private_ip (V4 v4) \<longleftrightarrow> v4_is_loopback v4 \<or> v4_is_private v4 \<or> v4_is_link_local v4
     \<or> v4_is_broadcast v4 \<or> v4_is_unspecified v4
     \<or> octet v4 0 = 169 \<and> octet v4 1 = 254
     \<or> octet v4 0 = 100 \<and> octet v4 1 AND 0xC0 = 64"
| "is_private_ip (V6 v6) \<longleftrightarrow>
     (case to_ipv4_mapped v6 of
        Some v4 \<Rightarrow> v4_is_loopback v4 \<or> v4_is_private v4 \<or> v4_is_link_local v4
          \<or> v4_is_broadcast v4 \<or> v4_is_unspecified v4
          \<or> octet v4 0 = 169 \<and> octet v4 1 = 254
          \<or> octet v4 0 = 100 \<and> octet v4 1 AND 0xC0 = 64
      | None \<Rightarrow> v6_is_loopback v6 \<or> v6_is_unspecified v6 \<or> unique_local v6 \<or> v6_link_local v6)"

text \<open>The domains of parsed URLs are ASCII.\<close>

definition is_private_or_reserved :: "url_lib \<Rightarrow> string \<Rightarrow> bool" where
  "is_private_or_reserved U url =
     (case url_parse U url of
        None \<Rightarrow> True
      | Some parsed \<Rightarrow>
          if url_scheme parsed \<noteq> ''http'' \<and> url_scheme parsed \<noteq> ''https'' then True
          else (case url_host parsed of
             Some (Ipv4 v4) \<Rightarrow> is_private_ip (V4 v4)
           | Some (Ipv6 v6) \<Rightarrow> is_private_ip (V6 v6)
           | Some (Domain domain) \<Rightarrow>
               (let lower = to_ascii_lowercase domain in
                lower = ''localhost'' \<or> ends_with lower ''.local'' \<or> ends_with lower ''.internal''
                \<or> lower = ''metadata.google.internal'' \<or> starts_with lower ''169.254.'')
           | None \<Rightarrow> True))"

section \<open>OpenGraph metadata\<close>

text \<open>The attribute of the first match, trimmed, if it is not empty.\<close>

definition attr_text :: "'doc html_lib \<Rightarrow> 'doc \<Rightarrow> string \<Rightarrow> string \<Rightarrow> string option" where
  "attr_text H doc selector attribute =
     (case Option.bind (select_first H doc selector) (\<lambda>el. el_attr el attribute) of
        None \<Rightarrow> None
      | Some content \<Rightarrow> if trim content = [] then None else Some (trim content))"

definition or_else :: "'a option \<Rightarrow> 'a option \<Rightarrow> 'a option" where
  "or_else x y = (case x of Some a \<Rightarrow> Some a | None \<Rightarrow> y)"

definition og :: "'doc html_lib \<Rightarrow> 'doc \<Rightarrow> string \<Rightarrow> string option" where
  "og H doc prop =
     or_else (attr_text H doc (''meta[property=\"og:'' @ prop @ ''\"]'') ''content'')
             (attr_text H doc (''meta[name=\"og:'' @ prop @ ''\"]'') ''content'')"

definition title_text :: "'doc html_lib \<Rightarrow> 'doc \<Rightarrow> string option" where
  "title_text H doc =
     (case select_first H doc ''title'' of
        None \<Rightarrow> None
      | Some el \<Rightarrow> if trim (el_text el) = [] then None else Some (trim (el_text el)))"

definition parse_og_metadata :: "'doc html_lib \<Rightarrow> string \<Rightarrow> PreviewResponse" where
  "parse_og_metadata H html =
     (let doc = parse_document H html in
      \<lparr>pv_title = or_else (og H doc ''title'') (title_text H doc),
       pv_description = or_else (og H doc ''description'') (attr_text H doc ''meta[name=\"description\"]'' ''content''),
       pv_image_url = or_else (or_else (or_else (og H doc ''image'')
           (attr_text H doc ''meta[name=\"twitter:image\"]'' ''content''))
           (attr_text H doc ''link[rel=\"image_src\"]'' ''href''))
           (attr_text H doc ''meta[itemprop=\"image\"]'' ''content''),
       pv_site_name = og H doc ''site_name''\<rparr>)"

section \<open>Fetching\<close>

definition resolve_and_validate :: "web_io \<Rightarrow> nat \<Rightarrow> string \<Rightarrow> 16 word \<Rightarrow> SocketAddr option" where
  "resolve_and_validate io hop host port =
     (case lookup_host io hop host port of
        None \<Rightarrow> None
      | Some addrs \<Rightarrow>
          if addrs = [] then None
          else if list_ex (\<lambda>a. is_private_ip (sa_ip a)) addrs then None
          else Some (hd addrs))"

definition build_http_client :: "web_io \<Rightarrow> nat \<Rightarrow> http_client" where
  "build_http_client io hop = (if plain_client_builds io hop then Unpinned else DefaultClient)"

definition client_for :: "web_io \<Rightarrow> nat \<Rightarrow> string \<Rightarrow> 16 word \<Rightarrow> StatusCode + http_client" where
  "client_for io hop host port =
     (if parse_ip_addr host \<noteq> None then Inr (build_http_client io hop)
      else case resolve_and_validate io hop host port of
             None \<Rightarrow> Inl FORBIDDEN
           | Some pinned_addr \<Rightarrow>
               if client_builds io host pinned_addr then Inr (Pinned host pinned_addr) else Inl INTERNAL_SERVER_ERROR)"

definition is_redirection :: "nat \<Rightarrow> bool" where
  "is_redirection status \<longleftrightarrow> 300 \<le> status \<and> status < 400"

definition redirect_target :: "url_lib \<Rightarrow> parsed_url \<Rightarrow> http_response \<Rightarrow> StatusCode + string" where
  "redirect_target U parsed resp =
     and_then (ok_or (header_text (rs_location resp)) BAD_GATEWAY) (\<lambda>location.
     and_then (ok_or (url_join U parsed location) BAD_GATEWAY) (\<lambda>next_url.
       if url_scheme next_url = ''http'' \<or> url_scheme next_url = ''https'' then Inr (url_text next_url)
       else Inl FORBIDDEN))"

text \<open>One hop: the parsed URL and the client it is asked with.\<close>

definition hop_client :: "url_lib \<Rightarrow> web_io \<Rightarrow> nat \<Rightarrow> string \<Rightarrow> StatusCode + (parsed_url \<times> http_client)" where
  "hop_client U io hop url =
     (if is_private_or_reserved U url then Inl FORBIDDEN else
      and_then (ok_or (url_parse U url) BAD_REQUEST) (\<lambda>parsed.
      and_then (ok_or (url_host_str parsed) BAD_REQUEST) (\<lambda>host.
        let port = (case url_port parsed of Some p \<Rightarrow> p | None \<Rightarrow> 443) in
        and_then (client_for io hop host port) (\<lambda>client. Inr (parsed, client)))))"

fun fetch_from ::
  "url_lib \<Rightarrow> web_io \<Rightarrow> nat \<Rightarrow> nat \<Rightarrow> string \<Rightarrow> (StatusCode + http_response) \<times> (string \<times> http_client) list" where
  "fetch_from U io 0 hop url = (Inl BAD_GATEWAY, [])"
| "fetch_from U io (Suc n) hop url =
     (case hop_client U io hop url of
        Inl e \<Rightarrow> (Inl e, [])
      | Inr (parsed, client) \<Rightarrow>
          (case http_get io hop client url of
             None \<Rightarrow> (Inl BAD_GATEWAY, [(url, client)])
           | Some resp \<Rightarrow>
               if is_redirection (rs_status resp)
               then (case redirect_target U parsed resp of
                       Inl e \<Rightarrow> (Inl e, [(url, client)])
                     | Inr next_url \<Rightarrow>
                         (let (r, reqs) = fetch_from U io n (Suc hop) next_url in (r, (url, client) # reqs)))
               else (Inr resp, [(url, client)])))"

definition fetch_with_redirect_validation ::
  "url_lib \<Rightarrow> web_io \<Rightarrow> string \<Rightarrow> (StatusCode + http_response) \<times> (string \<times> http_client) list" where
  "fetch_with_redirect_validation U io initial_url = fetch_from U io max_redirect_hops 0 initial_url"

fun read_chunks :: "nat \<Rightarrow> bytes \<Rightarrow> bytes list \<Rightarrow> bool \<Rightarrow> StatusCode + bytes" where
  "read_chunks max_bytes body [] broken = (if broken then Inl BAD_GATEWAY else Inr body)"
| "read_chunks max_bytes body (c # cs) broken =
     (if max_bytes < length body + length c then Inl BAD_GATEWAY
      else read_chunks max_bytes (body @ c) cs broken)"

definition read_body_capped :: "http_response \<Rightarrow> nat \<Rightarrow> StatusCode + bytes" where
  "read_body_capped resp max_bytes =
     (if (case rs_content_length resp of Some cl \<Rightarrow> max_bytes < cl | None \<Rightarrow> False) then Inl BAD_GATEWAY
      else read_chunks max_bytes [] (rs_chunks resp) (rs_broken resp))"

section \<open>Caches\<close>

text \<open>
  A full cache loses a tenth of its entries, at least one, the oldest ones; then the new entry
  is put in.
\<close>

definition evict :: "nat \<Rightarrow> ('e \<Rightarrow> nat) \<Rightarrow> (string \<times> 'e) list \<Rightarrow> (string \<times> 'e) list" where
  "evict max_entries fetched_at cache =
     (if max_entries \<le> length cache
      then let entries = sort_key snd (map (\<lambda>(k, e). (k, fetched_at e)) cache);
               to_remove = length entries div 10;
               gone = map fst (take (max to_remove 1) entries)
           in filter (\<lambda>(k, _). k \<notin> set gone) cache
      else cache)"

definition cache_insert :: "nat \<Rightarrow> ('e \<Rightarrow> nat) \<Rightarrow> string \<Rightarrow> 'e \<Rightarrow> (string \<times> 'e) list \<Rightarrow> (string \<times> 'e) list" where
  "cache_insert max_entries fetched_at key entry cache = AList.update key entry (evict max_entries fetched_at cache)"

section \<open>Handlers\<close>

definition resolve_image :: "url_lib \<Rightarrow> string \<Rightarrow> PreviewResponse \<Rightarrow> PreviewResponse" where
  "resolve_image U url preview =
     (case pv_image_url preview of
        None \<Rightarrow> preview
      | Some img \<Rightarrow>
          if \<not> starts_with img ''http://'' \<and> \<not> starts_with img ''https://''
          then (case Option.bind (url_parse U url) (\<lambda>base. url_join U base img) of
                  Some resolved \<Rightarrow> preview\<lparr>pv_image_url := Some (url_text resolved)\<rparr>
                | None \<Rightarrow> preview)
          else preview)"

definition success_status :: "nat \<Rightarrow> bool" where
  "success_status status \<longleftrightarrow> 200 \<le> status \<and> status < 300"

definition empty_preview :: PreviewResponse where
  "empty_preview = \<lparr>pv_title = None, pv_description = None, pv_image_url = None, pv_site_name = None\<rparr>"

definition is_html :: "http_response \<Rightarrow> bool" where
  "is_html resp =
     (let content_type = (case header_text (rs_content_type resp) of Some v \<Rightarrow> v | None \<Rightarrow> [])
      in contains content_type ''text/html'' \<or> contains content_type ''application/xhtml'')"

definition check_url :: "url_lib \<Rightarrow> string \<Rightarrow> StatusCode + string" where
  "check_url U query =
     (let url = trim query in
      if url = [] \<or> 2048 < length url then Inl BAD_REQUEST
      else if is_private_or_reserved U url then Inl FORBIDDEN
      else Inr url)"

text \<open>The live entry of a cache.\<close>

definition cached :: "nat \<Rightarrow> nat \<Rightarrow> ('e \<Rightarrow> nat) \<Rightarrow> (string \<times> 'e) list \<Rightarrow> string \<Rightarrow> 'e option" where
  "cached now ttl fetched_at cache url =
     (case map_of cache url of
        Some entry \<Rightarrow> if now - fetched_at entry < ttl then Some entry else None
      | None \<Rightarrow> None)"

text \<open>What follows a fetch: the preview, and whether it is to be stored.\<close>

definition preview_of ::
  "url_lib \<Rightarrow> 'doc html_lib \<Rightarrow> string \<Rightarrow> http_response \<Rightarrow> StatusCode + (PreviewResponse \<times> bool)" where
  "preview_of U H url resp =
     (if \<not> success_status (rs_status resp) then Inl BAD_GATEWAY
      else if \<not> is_html resp then Inr (empty_preview, False)
      else and_then (read_body_capped resp max_html_bytes) (\<lambda>bytes.
             Inr (resolve_image U url (parse_og_metadata H (utf8_lossy H bytes)), True)))"

text \<open>
  \<open>now\<close> is the time of the lookup, \<open>later\<close> the time at which the result is stored. The result
  comes with the new cache and the requests made.
\<close>

definition link_preview_handler ::
  "url_lib \<Rightarrow> 'doc html_lib \<Rightarrow> web_io \<Rightarrow> nat \<Rightarrow> nat \<Rightarrow> PreviewCache \<Rightarrow> string
     \<Rightarrow> (StatusCode + PreviewResponse) \<times> PreviewCache \<times> (string \<times> http_client) list" where
  "link_preview_handler U H io now later cache query =
     (case check_url U query of
        Inl e \<Rightarrow> (Inl e, cache, [])
      | Inr url \<Rightarrow>
          (case cached now cache_ttl cp_fetched_at (previews cache) url of
             Some entry \<Rightarrow> (Inr (cp_data entry), cache, [])
           | None \<Rightarrow>
               (case fetch_with_redirect_validation U io url of
                  (Inl e, reqs) \<Rightarrow> (Inl e, cache, reqs)
                | (Inr resp, reqs) \<Rightarrow>
                    (case preview_of U H url resp of
                       Inl e \<Rightarrow> (Inl e, cache, reqs)
                     | Inr (preview, store) \<Rightarrow>
                         (Inr preview,
                          if store
                          then cache\<lparr>previews := cache_insert max_cache_entries cp_fetched_at url
                                 \<lparr>cp_data = preview, cp_fetched_at = later\<rparr> (previews cache)\<rparr>
                          else cache,
                          reqs)))))"

definition image_extensions :: "string list" where
  "image_extensions = [''.jpg'', ''.jpeg'', ''.png'', ''.gif'', ''.webp'', ''.svg'', ''.ico'', ''.bmp'', ''.avif'']"

definition lower_path :: "url_lib \<Rightarrow> string \<Rightarrow> string" where
  "lower_path U url = (case url_parse U url of Some u \<Rightarrow> to_ascii_lowercase (url_path u) | None \<Rightarrow> [])"

definition url_has_image_extension :: "url_lib \<Rightarrow> string \<Rightarrow> bool" where
  "url_has_image_extension U url = list_ex (\<lambda>ext. ends_with (lower_path U url) ext) image_extensions"

definition infer_image_content_type :: "url_lib \<Rightarrow> string \<Rightarrow> string" where
  "infer_image_content_type U url =
     (let path = lower_path U url in
      if ends_with path ''.png'' then ''image/png''
      else if ends_with path ''.gif'' then ''image/gif''
      else if ends_with path ''.webp'' then ''image/webp''
      else if ends_with path ''.svg'' then ''image/svg+xml''
      else if ends_with path ''.ico'' then ''image/x-icon''
      else if ends_with path ''.bmp'' then ''image/bmp''
      else if ends_with path ''.avif'' then ''image/avif''
      else ''image/jpeg'')"

record image_response =
  ir_content_type :: string
  ir_cache_control :: string
  ir_body :: bytes

text \<open>The builder fails for no content type that came from a header or from the table above.\<close>

definition build_image_response :: "string \<Rightarrow> bytes \<Rightarrow> image_response" where
  "build_image_response content_type body =
     \<lparr>ir_content_type = content_type, ir_cache_control = ''public, max-age=300'', ir_body = body\<rparr>"

definition image_content_type :: "url_lib \<Rightarrow> string \<Rightarrow> http_response \<Rightarrow> StatusCode + string" where
  "image_content_type U url resp =
     (let content_type = (case header_text (rs_content_type resp) of Some v \<Rightarrow> v | None \<Rightarrow> ''application/octet-stream'');
          is_image_content = starts_with content_type ''image/'';
          is_octet_stream_with_image_ext = (content_type = ''application/octet-stream'' \<and> url_has_image_extension U url)
      in if \<not> is_image_content \<and> \<not> is_octet_stream_with_image_ext then Inl UNSUPPORTED_MEDIA_TYPE
         else Inr (if is_image_content then content_type else infer_image_content_type U url))"

definition image_of :: "url_lib \<Rightarrow> string \<Rightarrow> http_response \<Rightarrow> StatusCode + (string \<times> bytes)" where
  "image_of U url resp =
     (if \<not> success_status (rs_status resp) then Inl BAD_GATEWAY
      else and_then (image_content_type U url resp) (\<lambda>content_type.
           and_then (read_body_capped resp max_image_bytes) (\<lambda>body. Inr (content_type, body))))"

definition image_proxy_handler ::
  "url_lib \<Rightarrow> web_io \<Rightarrow> nat \<Rightarrow> nat \<Rightarrow> PreviewCache \<Rightarrow> string
     \<Rightarrow> (StatusCode + image_response) \<times> PreviewCache \<times> (string \<times> http_client) list" where
  "image_proxy_handler U io now later cache query =
     (case check_url U query of
        Inl e \<Rightarrow> (Inl e, cache, [])
      | Inr url \<Rightarrow>
          (case cached now image_cache_ttl ci_fetched_at (images cache) url of
             Some entry \<Rightarrow> (Inr (build_image_response (ci_content_type entry) (ci_bytes entry)), cache, [])
           | None \<Rightarrow>
               (case fetch_with_redirect_validation U io url of
                  (Inl e, reqs) \<Rightarrow> (Inl e, cache, reqs)
                | (Inr resp, reqs) \<Rightarrow>
                    (case image_of U url resp of
                       Inl e \<Rightarrow> (Inl e, cache, reqs)
                     | Inr (content_type, body) \<Rightarrow>
                         (Inr (build_image_response content_type body),
                          cache\<lparr>images := cache_insert max_image_cache_entries ci_fetched_at url
                            \<lparr>ci_bytes = body, ci_content_type = content_type, ci_fetched_at = later\<rparr> (images cache)\<rparr>,
                          reqs)))))"


section \<open>Blocked addresses as address blocks\<close>

definition private_v4 :: "(ipv4 \<times> nat) list" where
  "private_v4 = [(0x7F000000, 8), (0x0A000000, 8), (0xAC100000, 12), (0xC0A80000, 16), (0xA9FE0000, 16),
     (0x64400000, 10), (0xFFFFFFFF, 32), (0, 32)]"

definition private_v6 :: "(ipv6 \<times> nat) list" where
  "private_v6 = [(1, 128), (0, 128), (0xfc000000000000000000000000000000, 7), (0xfe800000000000000000000000000000, 10)]"

lemma private_ip_v4: "is_private_ip (V4 a) = list_ex (\<lambda>(net, len). in_cidr4 net len a) private_v4"
  unfolding is_private_ip.simps v4_shared_block v4_link_local_octets
  by (simp only: v4_blocks private_v4_def list_ex_Nil_iff list_ex_Cons_iff prod.case) blast

text \<open>
  The addresses that are refused are exactly those of the blocks \<open>127/8\<close>, \<open>10/8\<close>,
  \<open>172.16/12\<close>, \<open>192.168/16\<close>, \<open>169.254/16\<close>, \<open>100.64/10\<close>, the broadcast and the unspecified
  address; for IPv6 the loopback and the unspecified address, \<open>fc00::/7\<close>, \<open>fe80::/10\<close>, and
  the IPv4-mapped forms of the former.
\<close>

theorem private_ip_blocks:
  "is_private_ip (V4 a) = list_ex (\<lambda>(net, len). in_cidr4 net len a) private_v4
   \<and> is_private_ip (V6 b) =
      (if in_cidr6 0xFFFF00000000 96 b then list_ex (\<lambda>(net, len). in_cidr4 net len (ucast b)) private_v4
       else list_ex (\<lambda>(net, len). in_cidr6 net len b) private_v6)"
proof -
  have "to_ipv4_mapped b = (if in_cidr6 0xFFFF00000000 96 b then Some (ucast b) else None)"
    by (simp add: to_ipv4_mapped_def in_cidr6_def)
  moreover have "is_private_ip (V6 b) = (case to_ipv4_mapped b of Some v4 \<Rightarrow> is_private_ip (V4 v4)
      | None \<Rightarrow> list_ex (\<lambda>(net, len). in_cidr6 net len b) private_v6)"
    by (simp only: is_private_ip.simps v6_blocks private_v6_def list_ex_Nil_iff list_ex_Cons_iff prod.case simp_thms)
  ultimately show ?thesis using private_ip_v4 by simp
qed

section \<open>Every request goes to a public address\<close>

text \<open>
  What the \<open>url\<close> crate documents of hosts: an IPv4 host is written as an address, an IPv6 host
  in brackets, and a domain is never an address.
\<close>

definition url_laws :: "url_lib \<Rightarrow> bool" where
  "url_laws U \<longleftrightarrow> (\<forall>s p. url_parse U s = Some p \<longrightarrow>
     (case url_host p of
        Some (Ipv4 a) \<Rightarrow> \<exists>h. url_host_str p = Some h \<and> parse_ip_addr h = Some (V4 a)
      | Some (Ipv6 a) \<Rightarrow> \<exists>h. url_host_str p = Some (CHR ''['' # h)
      | Some (Domain d) \<Rightarrow> url_host_str p = Some d \<and> parse_ip_addr d = None
      | None \<Rightarrow> url_host_str p = None))"

text \<open>The address a request connects to: the pinned one, or the literal in the URL.\<close>

definition contacted :: "url_lib \<Rightarrow> string \<times> http_client \<Rightarrow> IpAddr option" where
  "contacted U r =
     (case snd r of
        Pinned h a \<Rightarrow> Some (sa_ip a)
      | _ \<Rightarrow> Option.bind (url_parse U (fst r)) (\<lambda>p. Option.bind (url_host_str p) parse_ip_addr))"

definition public_request :: "url_lib \<Rightarrow> web_io \<Rightarrow> string \<times> http_client \<Rightarrow> bool" where
  "public_request U io r \<longleftrightarrow> (follows_redirects (snd r) \<longrightarrow> (\<exists>hop. \<not> plain_client_builds io hop)) \<and> (\<exists>ip. contacted U r = Some ip \<and> \<not> is_private_ip ip) \<and> \<not> is_private_or_reserved U (fst r)"

lemma bracket_no_ip: "parse_ip_addr (CHR ''['' # h) = None"
  by (rule no_digit_no_ip) (simp_all add: hex_digit_value_def)

lemma resolve_public:
  "resolve_and_validate io hop host port = Some a \<Longrightarrow> \<not> is_private_ip (sa_ip a)"
  by (auto simp: resolve_and_validate_def list_ex_iff split: option.splits if_splits)

lemma hop_client_public:
  assumes U: "url_laws U" and h: "hop_client U io hop url = Inr (parsed, client)"
  shows "public_request U io (url, client)"
proof -
  from h obtain host where p: "\<not> is_private_or_reserved U url" "url_parse U url = Some parsed"
    "url_host_str parsed = Some host" "client_for io hop host (case url_port parsed of Some p \<Rightarrow> p | None \<Rightarrow> 443) = Inr client"
    by (auto simp: hop_client_def res_simps Let_def split: if_splits)
  have "\<exists>ip. contacted U (url, client) = Some ip \<and> \<not> is_private_ip ip"
  proof -
    consider (pinned) h a where "client = Pinned h a" | (literal) "client = Unpinned \<or> client = DefaultClient"
      by (cases client) auto
    then show ?thesis
    proof cases
      case pinned
      with p(4) resolve_public show ?thesis
        by (auto simp: client_for_def build_http_client_def contacted_def split: option.splits if_splits)
    next
      case literal
      with p(4) obtain ip where ip: "parse_ip_addr host = Some ip"
        by (auto simp: client_for_def split: option.splits if_splits)
      have law: "case url_host parsed of
          Some (Ipv4 a) \<Rightarrow> \<exists>h. url_host_str parsed = Some h \<and> parse_ip_addr h = Some (V4 a)
        | Some (Ipv6 a) \<Rightarrow> \<exists>h. url_host_str parsed = Some (CHR ''['' # h)
        | Some (Domain d) \<Rightarrow> url_host_str parsed = Some d \<and> parse_ip_addr d = None
        | None \<Rightarrow> url_host_str parsed = None"
        using U p(2) unfolding url_laws_def by blast
      obtain a where a: "url_host parsed = Some (Ipv4 a)" "ip = V4 a"
      proof (cases "url_host parsed")
        case None
        with law p(3) show thesis by simp
      next
        case (Some hst)
        show thesis
        proof (cases hst)
          case (Ipv4 a)
          with law p(3) ip Some that show thesis by simp
        next
          case (Ipv6 a)
          with law p(3) ip Some bracket_no_ip show thesis by auto
        next
          case (Domain d)
          with law p(3) ip Some show thesis by simp
        qed
      qed
      have "\<not> is_private_ip ip"
        using p(1) by (simp add: is_private_or_reserved_def p(2) a del: is_private_ip.simps split: if_splits)
      with literal ip p show ?thesis by (auto simp: contacted_def)
    qed
  qed
  moreover have "follows_redirects client \<Longrightarrow> \<not> plain_client_builds io hop"
    using p(4) by (auto simp: client_for_def build_http_client_def follows_redirects_def split: if_splits option.splits)
  ultimately show ?thesis using p(1) by (auto simp: public_request_def)
qed

lemma fetch_public:
  "url_laws U \<Longrightarrow> fetch_from U io n hop url = (r, reqs) \<Longrightarrow>
   list_all (public_request U io) reqs \<and> length reqs \<le> n
   \<and> (\<forall>resp. r = Inr resp \<longrightarrow> \<not> is_redirection (rs_status resp) \<and> reqs \<noteq> [])"
proof (induction U io n hop url arbitrary: r reqs rule: fetch_from.induct)
  case (1 U io hop url)
  then show ?case by auto
next
  case (2 U io n hop url)
  show ?case
  proof (cases "hop_client U io hop url")
    case (Inl e)
    with 2(3) show ?thesis by auto
  next
    case (Inr pc)
    obtain parsed client where pc: "pc = (parsed, client)" by (cases pc)
    note h = Inr [unfolded pc]
    have pub: "public_request U io (url, client)" by (rule hop_client_public [OF 2(2) h])
    show ?thesis
    proof (cases "http_get io hop client url")
      case None
      with 2(3) h pub show ?thesis by auto
    next
      case (Some resp)
      show ?thesis
      proof (cases "is_redirection (rs_status resp)")
        case False
        with 2(3) h pub Some show ?thesis by auto
      next
        case True
        show ?thesis
        proof (cases "redirect_target U parsed resp")
          case (Inl e)
          with 2(3) h pub Some True show ?thesis by auto
        next
          case (Inr next_url)
          obtain r' reqs' where f: "fetch_from U io n (Suc hop) next_url = (r', reqs')"
            by (cases "fetch_from U io n (Suc hop) next_url")
          from 2(3) h Some True Inr f have e: "r = r'" "reqs = (url, client) # reqs'" by simp_all
          from 2(1) [OF h refl Some True Inr 2(2) f] pub show ?thesis unfolding e by simp
        qed
      qed
    qed
  qed
qed

lemma handlers_fetch:
  "snd (snd (link_preview_handler U H io now later cache query)) \<in>
     {[], snd (fetch_with_redirect_validation U io (trim query))}"
  "snd (snd (image_proxy_handler U io now later cache query)) \<in>
     {[], snd (fetch_with_redirect_validation U io (trim query))}"
proof -
  obtain r fetched where f: "fetch_with_redirect_validation U io (trim query) = (r, fetched)"
    by (cases "fetch_with_redirect_validation U io (trim query)")
  have c: "check_url U query = Inr url \<Longrightarrow> url = trim query" for url
    by (auto simp: check_url_def Let_def split: if_splits)
  show "snd (snd (link_preview_handler U H io now later cache query)) \<in>
      {[], snd (fetch_with_redirect_validation U io (trim query))}"
    using c by (cases r) (auto simp: link_preview_handler_def f split: sum.split option.split)
  show "snd (snd (image_proxy_handler U io now later cache query)) \<in>
      {[], snd (fetch_with_redirect_validation U io (trim query))}"
    using c by (cases r) (auto simp: image_proxy_handler_def f split: sum.split option.split)
qed

text \<open>
  C16. Server-side request forgery is prevented: whatever a user asks for, whatever the names
  resolve to and whatever the sites answer, at each hop anew, every request the two handlers
  make connects to an address outside the blocked ranges under a URL that is not reserved,
  and there are at most five of them. The client of a request follows no redirect by itself, as
  long as the library can build the plain client; its default client, the fallback of
  \<open>build_http_client\<close> for a URL with a literal address, would follow the redirects unchecked.
\<close>

theorem previews_reach_public_only:
  assumes "url_laws U"
    and "reqs = snd (snd (link_preview_handler U H io now later cache query))
       \<or> reqs = snd (snd (image_proxy_handler U io now later cache query))"
  shows "length reqs \<le> 5
    \<and> list_all (\<lambda>(url, client). \<not> is_private_or_reserved U url
        \<and> (\<exists>ip. contacted U (url, client) = Some ip \<and> \<not> is_private_ip ip)) reqs
    \<and> ((\<forall>hop. plain_client_builds io hop) \<longrightarrow> list_all (\<lambda>(url, client). \<not> follows_redirects client) reqs)"
proof -
  obtain r fetched where f: "fetch_from U io 5 0 (trim query) = (r, fetched)"
    by (cases "fetch_from U io 5 0 (trim query)")
  then have "reqs = [] \<or> reqs = fetched"
    using assms(2) handlers_fetch(1) [of U H io now later cache query] handlers_fetch(2) [of U io now later cache query]
    by (auto simp: fetch_with_redirect_validation_def max_redirect_hops_def)
  with fetch_public [OF assms(1) f] show ?thesis
    by (auto simp: list_all_iff public_request_def)
qed


definition demo_url_lib :: url_lib where
  "demo_url_lib = \<lparr>url_parse = (\<lambda>s. if s = ''http://x.org'' then Some \<lparr>url_scheme = ''http'', url_host = Some (Domain ''x.org''),
       url_host_str = Some ''x.org'', url_port = Some 80, url_path = ''/'', url_text = s\<rparr> else None),
     url_join = (\<lambda>_ _. None)\<rparr>"

definition demo_html_lib :: "unit html_lib" where
  "demo_html_lib = \<lparr>parse_document = (\<lambda>_. ()), select_first = (\<lambda>_ _. None), utf8_lossy = id\<rparr>"

text \<open>A site that answers directly, and a name that resolves to the server itself.\<close>

definition demo_web :: "ipv4 \<Rightarrow> web_io" where
  "demo_web a = \<lparr>lookup_host = (\<lambda>_ _ _. Some [\<lparr>sa_ip = V4 a, sa_port = 80\<rparr>]), client_builds = (\<lambda>_ _. True),
     plain_client_builds = (\<lambda>_. True),
     http_get = (\<lambda>_ _ _. Some \<lparr>rs_status = 200, rs_location = Absent, rs_content_type = Absent, rs_content_length = None,
       rs_chunks = [], rs_broken = False\<rparr>)\<rparr>"

lemma demo_trim: "trim ''http://x.org'' = ''http://x.org''"
  by (simp add: trim_def strip_front.simps white_space_def starts_with_def)

lemma demo_url_laws: "url_laws demo_url_lib"
  by (simp add: url_laws_def demo_url_lib_def no_digit_no_ip hex_digit_value_def)

lemma demo_fetch:
  "snd (snd (link_preview_handler demo_url_lib demo_html_lib (demo_web a) 0 0 \<lparr>previews = [], images = []\<rparr> ''http://x.org'')) =
    (if is_private_ip (V4 a) then [] else [(''http://x.org'', Pinned ''x.org'' \<lparr>sa_ip = V4 a, sa_port = 80\<rparr>)])"
proof -
  have r: "\<not> is_private_or_reserved demo_url_lib ''http://x.org''"
    by (simp add: is_private_or_reserved_def demo_url_lib_def to_ascii_lowercase_def ascii_lower_char_def ends_with_def
        starts_with_def)
  then have c: "check_url demo_url_lib ''http://x.org'' = Inr ''http://x.org''"
    by (simp add: check_url_def demo_trim)
  have h: "hop_client demo_url_lib (demo_web a) 0 ''http://x.org'' =
      (if is_private_ip (V4 a) then Inl FORBIDDEN
       else Inr (the (url_parse demo_url_lib ''http://x.org''), Pinned ''x.org'' \<lparr>sa_ip = V4 a, sa_port = 80\<rparr>))"
    using r by (simp add: hop_client_def demo_url_lib_def client_for_def no_digit_no_ip hex_digit_value_def
        resolve_and_validate_def demo_web_def del: is_private_ip.simps)
  have g: "http_get (demo_web a) hop client url = Some \<lparr>rs_status = 200, rs_location = Absent, rs_content_type = Absent,
      rs_content_length = None, rs_chunks = [], rs_broken = False\<rparr>" for hop client url
    by (simp add: demo_web_def)
  have "fetch_from demo_url_lib (demo_web a) (Suc 4) 0 ''http://x.org'' =
      (if is_private_ip (V4 a) then (Inl FORBIDDEN, [])
       else (Inr (the (http_get (demo_web a) 0 Unpinned [])), [(''http://x.org'', Pinned ''x.org'' \<lparr>sa_ip = V4 a, sa_port = 80\<rparr>)]))"
    by (subst fetch_from.simps) (simp add: h g is_redirection_def del: is_private_ip.simps)
  then have "fetch_with_redirect_validation demo_url_lib (demo_web a) ''http://x.org'' =
      (if is_private_ip (V4 a) then (Inl FORBIDDEN, [])
       else (Inr (the (http_get (demo_web a) 0 Unpinned [])), [(''http://x.org'', Pinned ''x.org'' \<lparr>sa_ip = V4 a, sa_port = 80\<rparr>)]))"
    by (simp add: fetch_with_redirect_validation_def max_redirect_hops_def del: is_private_ip.simps)
  then show ?thesis
    by (simp add: link_preview_handler_def c cached_def split: sum.split del: is_private_ip.simps)
qed

theorem previews_reach_public_only_witness:
  "\<exists>url client ip. snd (snd (link_preview_handler demo_url_lib demo_html_lib (demo_web 0x08080808) 0 0
        \<lparr>previews = [], images = []\<rparr> ''http://x.org'')) = [(url, client)]
     \<and> contacted demo_url_lib (url, client) = Some ip \<and> \<not> is_private_ip ip \<and> \<not> follows_redirects client"
proof -
  have "\<not> is_private_ip (V4 0x08080808)"
    unfolding private_ip_v4 by (simp add: private_v4_def in_cidr4_def)
  then have e: "snd (snd (link_preview_handler demo_url_lib demo_html_lib (demo_web 0x08080808) 0 0
        \<lparr>previews = [], images = []\<rparr> ''http://x.org'')) = [(''http://x.org'', Pinned ''x.org'' \<lparr>sa_ip = V4 0x08080808, sa_port = 80\<rparr>)]"
    unfolding demo_fetch by (simp del: is_private_ip.simps)
  from previews_reach_public_only [OF demo_url_laws disjI1 [OF e [symmetric]]] e show ?thesis
    by (simp add: demo_web_def del: is_private_ip.simps)
qed

section \<open>Bodies\<close>

lemma read_chunks_eq:
  "length body \<le> max_bytes \<Longrightarrow> read_chunks max_bytes body cs broken =
    (if broken \<or> max_bytes < length body + length (concat cs) then Inl BAD_GATEWAY else Inr (body @ concat cs))"
  by (induction cs arbitrary: body) auto

text \<open>
  A body is read completely or not at all, and never above the limit: the answer is the
  concatenation of the chunks exactly when the stream does not break off, the announced length
  does not exceed the limit and the real one does not either.
\<close>

theorem read_body_capped_exact:
  "read_body_capped resp max_bytes =
    (if \<not> rs_broken resp \<and> length (concat (rs_chunks resp)) \<le> max_bytes
        \<and> (case rs_content_length resp of Some cl \<Rightarrow> cl \<le> max_bytes | None \<Rightarrow> True)
     then Inr (concat (rs_chunks resp)) else Inl BAD_GATEWAY)"
  by (auto simp: read_body_capped_def read_chunks_eq not_less not_le split: option.splits)

section \<open>The caches\<close>

definition gone_keys :: "('e \<Rightarrow> nat) \<Rightarrow> (string \<times> 'e) list \<Rightarrow> string list" where
  "gone_keys fetched_at cache =
     (let entries = sort_key snd (map (\<lambda>(k, e). (k, fetched_at e)) cache)
      in map fst (take (max (length entries div 10) 1) entries))"

lemma evict_gone:
  "evict cap fetched_at cache =
     (if cap \<le> length cache then filter (\<lambda>(k, _). k \<notin> set (gone_keys fetched_at cache)) cache else cache)"
  by (simp add: evict_def gone_keys_def Let_def)

lemma gone_keys_known: "set (gone_keys fetched_at cache) \<subseteq> fst ` set cache"
  by (auto simp: gone_keys_def Let_def image_iff dest!: in_set_takeD) force

lemma gone_keys_nonempty:
  assumes "cache \<noteq> []"
  shows "gone_keys fetched_at cache \<noteq> []"
proof -
  have "length (sort_key snd (map (\<lambda>(k, e). (k, fetched_at e)) cache)) \<noteq> 0" using assms by simp
  then have "sort_key snd (map (\<lambda>(k, e). (k, fetched_at e)) cache) \<noteq> []" unfolding length_0_conv .
  then show ?thesis unfolding gone_keys_def Let_def map_is_Nil_conv take_eq_Nil by simp
qed

lemma evict_length:
  assumes "0 < cap" and "length cache \<le> cap"
  shows "length (evict cap fetched_at cache) < cap"
proof (cases "cap \<le> length cache")
  case False
  with assms show ?thesis by (simp add: evict_gone)
next
  case True
  then have "cache \<noteq> []" using assms by auto
  from gone_keys_nonempty [OF this] obtain k where "k \<in> set (gone_keys fetched_at cache)"
    using hd_in_set by blast
  moreover from this obtain e where "(k, e) \<in> set cache" using gone_keys_known by fastforce
  ultimately have "length (filter (\<lambda>(k, _). k \<notin> set (gone_keys fetched_at cache)) cache) < length cache"
    by (intro length_filter_less) auto
  with True assms show ?thesis by (simp add: evict_gone)
qed

lemma evict_sub: "set (evict cap fetched_at cache) \<subseteq> set cache"
  by (auto simp: evict_gone)

lemma evict_distinct: "distinct (map fst cache) \<Longrightarrow> distinct (map fst (evict cap fetched_at cache))"
  by (simp add: evict_gone distinct_map_filter)

lemma update_length: "length (AList.update k v xs) \<le> Suc (length xs)"
  by (induction xs) auto

text \<open>What an eviction removes is older than what it keeps.\<close>

lemma evict_oldest:
  assumes d: "distinct (map fst cache)" and e: "(k, e) \<in> set cache" "(k, e) \<notin> set (evict cap fetched_at cache)"
    and k: "(k', e') \<in> set (evict cap fetched_at cache)"
  shows "fetched_at e \<le> fetched_at e'"
proof -
  let ?entries = "sort_key snd (map (\<lambda>(k, e). (k, fetched_at e)) cache)"
  let ?n = "max (length ?entries div 10) 1"
  have g: "k \<in> set (gone_keys fetched_at cache)" "k' \<notin> set (gone_keys fetched_at cache)" "(k', e') \<in> set cache"
    using e k by (auto simp: evict_gone split: if_splits)
  have dk: "distinct (map fst ?entries)"
  proof -
    have "map fst (map (\<lambda>(k, e). (k, fetched_at e)) cache) = map fst cache" by (simp add: case_prod_beta)
    moreover have "mset (map fst ?entries) = mset (map fst (map (\<lambda>(k, e). (k, fetched_at e)) cache))"
      unfolding mset_map [of fst] mset_sort ..
    ultimately show ?thesis using d by (metis mset_eq_imp_distinct_iff)
  qed
  have m: "(k, fetched_at e) \<in> set ?entries" "(k', fetched_at e') \<in> set ?entries" using e g(3) by force+
  have "(k, fetched_at e) \<in> set (take ?n ?entries)"
  proof -
    from g(1) obtain t where t: "(k, t) \<in> set (take ?n ?entries)" by (auto simp: gone_keys_def Let_def)
    then have "(k, t) \<in> set ?entries" by (rule in_set_takeD)
    with m(1) dk have "t = fetched_at e" by (metis eq_key_imp_eq_value)
    with t show ?thesis by simp
  qed
  moreover have "(k', fetched_at e') \<in> set (drop ?n ?entries)"
  proof -
    have "(k', fetched_at e') \<notin> set (take ?n ?entries)" using g(2) by (force simp: gone_keys_def Let_def)
    with m(2) show ?thesis by (metis append_take_drop_id set_append UnE)
  qed
  moreover have "sorted (map snd (take ?n ?entries @ drop ?n ?entries))" by simp
  then have "\<forall>x \<in> set (take ?n ?entries). \<forall>y \<in> set (drop ?n ?entries). snd x \<le> snd y"
    unfolding map_append sorted_append by auto
  ultimately show ?thesis by fastforce
qed

definition cache_ok :: "url_lib \<Rightarrow> PreviewCache \<Rightarrow> bool" where
  "cache_ok U c \<longleftrightarrow>
     length (previews c) \<le> max_cache_entries \<and> distinct (map fst (previews c))
     \<and> list_all (\<lambda>(url, e). \<not> is_private_or_reserved U url) (previews c)
     \<and> length (images c) \<le> max_image_cache_entries \<and> distinct (map fst (images c))
     \<and> list_all (\<lambda>(url, e). \<not> is_private_or_reserved U url \<and> length (ci_bytes e) \<le> max_image_bytes) (images c)"

datatype preview_op = PreviewOf web_io nat nat string | ImageOf web_io nat nat string

fun preview_step :: "url_lib \<Rightarrow> 'doc html_lib \<Rightarrow> preview_op \<Rightarrow> PreviewCache \<Rightarrow> PreviewCache" where
  "preview_step U H (PreviewOf io now later query) c = fst (snd (link_preview_handler U H io now later c query))"
| "preview_step U H (ImageOf io now later query) c = fst (snd (image_proxy_handler U io now later c query))"

lemma cache_insert_ok:
  assumes "0 < cap" "length cache \<le> cap" "distinct (map fst cache)" "list_all P cache" "P (key, entry)"
  shows "length (cache_insert cap f key entry cache) \<le> cap" "distinct (map fst (cache_insert cap f key entry cache))"
    "list_all P (cache_insert cap f key entry cache)"
proof -
  show "length (cache_insert cap f key entry cache) \<le> cap"
    using evict_length [OF assms(1,2), of f] update_length [of key entry "evict cap f cache"]
    by (simp add: cache_insert_def)
  show "distinct (map fst (cache_insert cap f key entry cache))"
    by (simp add: cache_insert_def distinct_update evict_distinct assms(3))
  have "set (AList.update key entry xs) \<subseteq> insert (key, entry) (set xs)" for xs
    by (induction xs) auto
  then show "list_all P (cache_insert cap f key entry cache)"
    using assms(4,5) evict_sub [of cap f cache] unfolding cache_insert_def list_all_iff by blast
qed

lemma check_url_Inr: "check_url U query = Inr url \<Longrightarrow> \<not> is_private_or_reserved U url"
  by (auto simp: check_url_def Let_def split: if_splits)

lemma image_of_length: "image_of U url resp = Inr (ct, body) \<Longrightarrow> length body \<le> max_image_bytes"
  by (auto simp: image_of_def res_simps read_body_capped_def read_chunks_eq split: if_splits option.splits)

interpretation preview_cache: invariant_machine "preview_step U H" "cache_ok U" for U H
proof (standard, goal_cases)
  case (1 c op)
  show ?case
  proof (cases op)
    case (PreviewOf io now later query)
    show ?thesis
      using 1 cache_insert_ok [of max_cache_entries "previews c" "\<lambda>(url, e). \<not> is_private_or_reserved U url"]
        check_url_Inr [of U query]
      by (auto simp: PreviewOf link_preview_handler_def cache_ok_def max_cache_entries_def split: sum.splits option.splits prod.splits if_splits)
  next
    case (ImageOf io now later query)
    show ?thesis
      using 1 cache_insert_ok [of max_image_cache_entries "images c" "\<lambda>(url, e). \<not> is_private_or_reserved U url \<and> length (ci_bytes e) \<le> max_image_bytes"]
        check_url_Inr [of U query] image_of_length
      by (auto simp: ImageOf image_proxy_handler_def cache_ok_def max_image_cache_entries_def split: sum.splits option.splits prod.splits)
  qed
qed

definition preview_run :: "url_lib \<Rightarrow> 'doc html_lib \<Rightarrow> preview_op list \<Rightarrow> PreviewCache" where
  "preview_run U H ops = fold (preview_step U H) ops \<lparr>previews = [], images = []\<rparr>"

text \<open>
  The caches stay bounded: after any sequence of requests there are at most 2000 previews
  and 500 images, one per URL, every URL in them passed the check for reserved hosts, and no
  image is larger than five megabytes. So a cached answer is as safe as a fetched one.
\<close>

theorem preview_caches_bounded:
  "length (previews (preview_run U H ops)) \<le> 2000 \<and> distinct (map fst (previews (preview_run U H ops)))
   \<and> list_all (\<lambda>(url, e). \<not> is_private_or_reserved U url) (previews (preview_run U H ops))
   \<and> length (images (preview_run U H ops)) \<le> 500 \<and> distinct (map fst (images (preview_run U H ops)))
   \<and> list_all (\<lambda>(url, e). \<not> is_private_or_reserved U url \<and> length (ci_bytes e) \<le> 5 * 1024 * 1024)
       (images (preview_run U H ops))"
proof -
  have "cache_ok U (preview_run U H ops)"
    unfolding preview_run_def by (rule preview_cache.run_inv) (simp add: cache_ok_def)
  then show ?thesis
    unfolding cache_ok_def max_cache_entries_def max_image_cache_entries_def max_image_bytes_def .
qed

end
