(* ===== verification/Annex_Policy.thy ===== *)
theory Annex_Policy
  imports Annex_Federation Annex_Observe Annex_Api
begin

text \<open>
  \<open>annex-server/src/policy.rs\<close>: what a change of the server policy does to the agents and to
  the federation agreements. Each pass is one transaction, but the presence events and the
  broadcast of the public log leave it at once: a run returns its result, the database it
  leaves, and what it sent, whether it succeeds or not. JSON texts are read and written by
  the record \<open>vrp_json\<close>; a poisoned policy lock is the absence of the policy.
\<close>

section \<open>The server's side of an evaluation\<close>

record vrp_json =
  anchor_to_json :: "VrpAnchorSnapshot \<Rightarrow> string"
  anchor_from_json :: "string \<Rightarrow> VrpAnchorSnapshot option"
  sharing_to_json :: "VrpCapabilitySharingContract \<Rightarrow> string"
  sharing_from_json :: "string \<Rightarrow> VrpCapabilitySharingContract option"

definition policy_offered :: "ServerPolicy \<Rightarrow> string list" where
  "policy_offered policy = (if voice_enabled policy then [''VOICE''] else [])
     @ (if federation_enabled policy then [''FEDERATION''] else []) @ [''TEXT'', ''VRP'']"

definition policy_contract :: "ServerPolicy \<Rightarrow> VrpCapabilitySharingContract" where
  "policy_contract policy = \<lparr>required_capabilities = agent_required_capabilities policy,
     offered_capabilities = policy_offered policy, redacted_topics = []\<rparr>"

definition agent_transfer_config :: VrpTransferAcceptanceConfig where
  "agent_transfer_config = \<lparr>allow_reflection_summaries = True, allow_full_knowledge = False\<rparr>"

definition evaluate_agent ::
  "unicode \<Rightarrow> VrpAnchorSnapshot \<Rightarrow> ServerPolicy \<Rightarrow> VrpFederationHandshake \<Rightarrow> VrpValidationReport" where
  "evaluate_agent U local_anchor policy handshake =
     validate_federation_handshake U local_anchor (policy_contract policy) handshake
       (alignment_config_of policy) agent_transfer_config"

definition evaluate_peer ::
  "unicode \<Rightarrow> VrpAnchorSnapshot \<Rightarrow> ServerPolicy \<Rightarrow> VrpFederationHandshake \<Rightarrow> VrpValidationReport" where
  "evaluate_peer U local_anchor policy handshake =
     validate_federation_handshake U local_anchor (policy_contract policy) handshake
       (alignment_config_of policy) (transfer_config_of policy)"

text \<open>What leaves a run: presence events and public events, in the order they were sent.\<close>

record sent =
  presence_sent :: "PresenceEvent list"
  observe_sent :: "PublicEvent list"

definition nothing_sent :: sent where
  "nothing_sent = \<lparr>presence_sent = [], observe_sent = []\<rparr>"

definition send_both :: "PresenceEvent \<Rightarrow> PublicEvent option \<Rightarrow> sent \<Rightarrow> sent" where
  "send_both pe oe s = \<lparr>presence_sent = presence_sent s @ [pe],
     observe_sent = observe_sent s @ (case oe of Some e \<Rightarrow> [e] | None \<Rightarrow> [])\<rparr>"

section \<open>Agents\<close>

record agent_update =
  au_pseudonym :: string
  au_previous :: string
  au_report :: VrpValidationReport
  au_active :: bool

abbreviation agent_rows :: "db \<Rightarrow> agent_row list" where
  "agent_rows d \<equiv> auto_rows (agent_registrations d)"

definition report_changes :: "VrpValidationReport \<Rightarrow> string \<Rightarrow> string \<Rightarrow> bool" where
  "report_changes report old_alignment old_scope \<longleftrightarrow>
     status_to_string (alignment_status report) \<noteq> old_alignment \<or> scope_to_string (transfer_scope report) \<noteq> old_scope"

definition agent_handshake_of :: "vrp_json \<Rightarrow> agent_row \<Rightarrow> string \<Rightarrow> ApiError + VrpFederationHandshake" where
  "agent_handshake_of V r anchor_json =
     and_then (ok_or (anchor_from_json V anchor_json) InternalServerError) (\<lambda>anchor.
     and_then (ok_or (sharing_from_json V (ar_contract r)) InternalServerError) (\<lambda>contract.
       Inr \<lparr>anchor_snapshot = anchor, capability_contract = contract\<rparr>))"

text \<open>An agent without an anchor is skipped; so is one whose standing does not change.\<close>

definition agent_update_of ::
  "unicode \<Rightarrow> vrp_json \<Rightarrow> VrpAnchorSnapshot \<Rightarrow> ServerPolicy \<Rightarrow> agent_row \<Rightarrow> ApiError + agent_update list" where
  "agent_update_of U V local_anchor policy r =
     (case ar_anchor r of
        None \<Rightarrow> Inr []
      | Some anchor_json \<Rightarrow>
          and_then (agent_handshake_of V r anchor_json) (\<lambda>handshake.
            let report = evaluate_agent U local_anchor policy handshake in
            if report_changes report (ar_alignment r) (ar_scope r)
            then Inr [\<lparr>au_pseudonym = ar_pseudonym r, au_previous = ar_alignment r, au_report = report,
                       au_active = (alignment_status report \<noteq> VrpAlignmentStatus.Conflict)\<rparr>]
            else Inr []))"

definition active_agents :: "db \<Rightarrow> int \<Rightarrow> agent_row list" where
  "active_agents d s = filter (\<lambda>r. ar_active r \<and> ar_server r = s) (agent_rows d)"

definition agent_updates ::
  "unicode \<Rightarrow> vrp_json \<Rightarrow> VrpAnchorSnapshot \<Rightarrow> ServerPolicy \<Rightarrow> db \<Rightarrow> int \<Rightarrow> ApiError + agent_update list" where
  "agent_updates U V local_anchor policy d s =
     and_then (collect_res (map (agent_update_of U V local_anchor policy) (active_agents d s))) (\<lambda>us. Inr (concat us))"

definition write_agent_row :: "time \<Rightarrow> agent_update \<Rightarrow> agent_row \<Rightarrow> agent_row" where
  "write_agent_row now u r = r\<lparr>ar_alignment := status_to_string (alignment_status (au_report u)),
     ar_scope := scope_to_string (transfer_scope (au_report u)), ar_active := au_active u, ar_updated := now\<rparr>"

definition write_agent :: "time \<Rightarrow> int \<Rightarrow> agent_update \<Rightarrow> db \<Rightarrow> db" where
  "write_agent now s u d = d\<lparr>agent_registrations := auto_update
     (\<lambda>r. ar_server r = s \<and> ar_pseudonym r = au_pseudonym u) (write_agent_row now u) (agent_registrations d)\<rparr>"

definition agent_event :: "agent_update \<Rightarrow> EventPayload" where
  "agent_event u =
     (if au_active u
      then AgentRealigned (au_pseudonym u) (status_to_string (alignment_status (au_report u))) (au_previous u)
      else AgentDisconnected (au_pseudonym u) ''policy_conflict'')"

text \<open>The \<open>k\<close>-th update may fail at call \<open>2 * k\<close>, and the insertion of its event at the next.\<close>

fun apply_agent_updates ::
  "(EventPayload \<Rightarrow> string option) \<Rightarrow> faults \<Rightarrow> time \<Rightarrow> int \<Rightarrow> nat \<Rightarrow> agent_update list \<Rightarrow> db \<Rightarrow> sent
     \<Rightarrow> (ApiError + unit) \<times> db \<times> sent" where
  "apply_agent_updates js flt now s k [] d out = (Inr (), d, out)"
| "apply_agent_updates js flt now s k (u # us) d out =
     (case db_call flt (2 * k) of
        Inl e \<Rightarrow> (Inl e, d, out)
      | Inr _ \<Rightarrow>
          let d1 = write_agent now s u d;
              (d2, event) = emit_and_broadcast js (\<lambda>i. flt (2 * k + 1 + i)) now d1 s (au_pseudonym u) (agent_event u)
          in apply_agent_updates js flt now s (Suc k) us d2
               (send_both (NodeUpdated (au_pseudonym u) (au_active u)) event out))"

text \<open>
  The answer of a successful run is the list of the pseudonyms to disconnect. \<open>flt 0\<close> to
  \<open>flt 2\<close> are the connection, the transaction and the query, \<open>flt 3\<close> is the commit.
\<close>

definition recalculate_agent_alignments ::
  "'f crypto \<Rightarrow> unicode \<Rightarrow> vrp_json \<Rightarrow> (EventPayload \<Rightarrow> string option) \<Rightarrow> u64 option \<Rightarrow> faults \<Rightarrow> time
     \<Rightarrow> ServerPolicy option \<Rightarrow> int \<Rightarrow> db \<Rightarrow> (ApiError + string list) \<times> db \<times> sent" where
  "recalculate_agent_alignments C U V js clock flt now policy s d =
     (case and_then (ok_or policy InternalServerError) (\<lambda>pol.
           and_then (map_err (\<lambda>_. InternalServerError) (to_anchor_snapshot C clock (from_policy pol))) (\<lambda>local_anchor.
           and_then (db_call flt 0) (\<lambda>_. and_then (db_call flt 1) (\<lambda>_. and_then (db_call flt 2) (\<lambda>_.
             agent_updates U V local_anchor pol d s))))) of
        Inl e \<Rightarrow> (Inl e, d, nothing_sent)
      | Inr updates \<Rightarrow>
          (case apply_agent_updates js (\<lambda>i. flt (4 + i)) now s 0 updates d nothing_sent of
             (Inl e, _, out) \<Rightarrow> (Inl e, d, out)
           | (Inr _, d', out) \<Rightarrow>
               (case db_call flt 3 of
                  Inl e \<Rightarrow> (Inl e, d, out)
                | Inr _ \<Rightarrow> (Inr (map au_pseudonym (filter (\<lambda>u. \<not> au_active u) updates)), d', out))))"

section \<open>Federation agreements\<close>

record peer_update =
  pu_id :: int
  pu_base_url :: string
  pu_previous :: string
  pu_report :: VrpValidationReport
  pu_remote :: int

text \<open>The join of the active agreements, of whatever server, with their instances.\<close>

definition active_peers :: "db \<Rightarrow> (agreement_row \<times> instance_row) list" where
  "active_peers d = concat (map (\<lambda>a. map (Pair a) (filter (\<lambda>i. in_id i = ag_remote a) (instances d)))
     (filter ag_active (agreement_rows d)))"

definition peer_update_of ::
  "unicode \<Rightarrow> fed_json \<Rightarrow> VrpAnchorSnapshot \<Rightarrow> ServerPolicy \<Rightarrow> agreement_row \<times> instance_row \<Rightarrow> ApiError + peer_update list" where
  "peer_update_of U J local_anchor policy ai =
     (let (a, i) = ai in
      case ag_handshake a of
        None \<Rightarrow> Inr []
      | Some handshake_json \<Rightarrow>
          and_then (ok_or (handshake_from_json J handshake_json) InternalServerError) (\<lambda>handshake.
            let report = evaluate_peer U local_anchor policy handshake in
            if report_changes report (ag_alignment a) (ag_scope a)
            then Inr [\<lparr>pu_id = ag_id a, pu_base_url = in_base_url i, pu_previous = ag_alignment a,
                       pu_report = report, pu_remote = ag_remote a\<rparr>]
            else Inr []))"

definition peer_updates ::
  "unicode \<Rightarrow> fed_json \<Rightarrow> VrpAnchorSnapshot \<Rightarrow> ServerPolicy \<Rightarrow> db \<Rightarrow> ApiError + peer_update list" where
  "peer_updates U J local_anchor policy d =
     and_then (collect_res (map (peer_update_of U J local_anchor policy) (active_peers d))) (\<lambda>us. Inr (concat us))"

definition write_peer_row :: "fed_json \<Rightarrow> time \<Rightarrow> peer_update \<Rightarrow> agreement_row \<Rightarrow> agreement_row" where
  "write_peer_row J now u a = a\<lparr>ag_alignment := status_to_string (alignment_status (pu_report u)),
     ag_scope := scope_to_string (transfer_scope (pu_report u)), ag_report := report_to_json J (pu_report u),
     ag_active := (alignment_status (pu_report u) \<noteq> VrpAlignmentStatus.Conflict), ag_updated := now\<rparr>"

definition write_peer :: "fed_json \<Rightarrow> time \<Rightarrow> peer_update \<Rightarrow> db \<Rightarrow> db" where
  "write_peer J now u d = d\<lparr>federation_agreements := auto_update (\<lambda>a. ag_id a = pu_id u) (write_peer_row J now u)
     (federation_agreements d)\<rparr>"

fun presence_status :: "VrpAlignmentStatus \<Rightarrow> AlignmentStatus" where
  "presence_status VrpAlignmentStatus.Aligned = AlignmentStatus.Aligned"
| "presence_status VrpAlignmentStatus.Partial = AlignmentStatus.Partial"
| "presence_status VrpAlignmentStatus.Conflict = AlignmentStatus.Conflict"

definition peer_presence :: "peer_update \<Rightarrow> PresenceEvent" where
  "peer_presence u =
     (if alignment_status (pu_report u) = VrpAlignmentStatus.Conflict
      then PresenceEvent.FederationSevered (pu_base_url u)
      else PresenceEvent.FederationRealigned (pu_base_url u) (presence_status (alignment_status (pu_report u))))"

definition peer_event :: "peer_update \<Rightarrow> EventPayload" where
  "peer_event u =
     (if alignment_status (pu_report u) = VrpAlignmentStatus.Conflict
      then FederationSevered (pu_base_url u) ''policy_conflict''
      else FederationRealigned (pu_base_url u) (status_to_string (alignment_status (pu_report u))) (pu_previous u))"

fun apply_peer_updates ::
  "fed_json \<Rightarrow> (EventPayload \<Rightarrow> string option) \<Rightarrow> faults \<Rightarrow> time \<Rightarrow> int \<Rightarrow> nat \<Rightarrow> peer_update list \<Rightarrow> db \<Rightarrow> sent
     \<Rightarrow> (ApiError + unit) \<times> db \<times> sent" where
  "apply_peer_updates J js flt now s k [] d out = (Inr (), d, out)"
| "apply_peer_updates J js flt now s k (u # us) d out =
     (case db_call flt (2 * k) of
        Inl e \<Rightarrow> (Inl e, d, out)
      | Inr _ \<Rightarrow>
          let d1 = write_peer J now u d;
              (d2, event) = emit_and_broadcast js (\<lambda>i. flt (2 * k + 1 + i)) now d1 s (pu_base_url u) (peer_event u)
          in apply_peer_updates J js flt now s (Suc k) us d2 (send_both (peer_presence u) event out))"

text \<open>The answer of a successful run is the list of the peers to notify.\<close>

definition recalculate_federation_agreements ::
  "'f crypto \<Rightarrow> unicode \<Rightarrow> fed_json \<Rightarrow> (EventPayload \<Rightarrow> string option) \<Rightarrow> u64 option \<Rightarrow> faults \<Rightarrow> time
     \<Rightarrow> ServerPolicy option \<Rightarrow> int \<Rightarrow> db \<Rightarrow> (ApiError + (string \<times> int) list) \<times> db \<times> sent" where
  "recalculate_federation_agreements C U J js clock flt now policy s d =
     (case and_then (ok_or policy InternalServerError) (\<lambda>pol.
           and_then (map_err (\<lambda>_. InternalServerError) (to_anchor_snapshot C clock (from_policy pol))) (\<lambda>local_anchor.
           and_then (db_call flt 0) (\<lambda>_. and_then (db_call flt 1) (\<lambda>_. and_then (db_call flt 2) (\<lambda>_.
             peer_updates U J local_anchor pol d))))) of
        Inl e \<Rightarrow> (Inl e, d, nothing_sent)
      | Inr updates \<Rightarrow>
          (case apply_peer_updates J js (\<lambda>i. flt (4 + i)) now s 0 updates d nothing_sent of
             (Inl e, _, out) \<Rightarrow> (Inl e, d, out)
           | (Inr _, d', out) \<Rightarrow>
               (case db_call flt 3 of
                  Inl e \<Rightarrow> (Inl e, d, out)
                | Inr _ \<Rightarrow> (Inr (map (\<lambda>u. (pu_base_url u, pu_remote u)) updates), d', out))))"

section \<open>Notifying the peers\<close>

record rehandshake =
  rh_base_url :: string
  rh_handshake :: VrpFederationHandshake

text \<open>The requests posted, in order; their answers are only logged.\<close>

definition notify_federation_peers_of_policy_change ::
  "'f crypto \<Rightarrow> u64 option \<Rightarrow> bool \<Rightarrow> ServerPolicy option \<Rightarrow> string \<Rightarrow> (string \<times> int) list \<Rightarrow> (string \<times> rehandshake) list" where
  "notify_federation_peers_of_policy_change C clock client_ok policy own_url peers =
     (case policy of
        None \<Rightarrow> []
      | Some pol \<Rightarrow>
          (case to_anchor_snapshot C clock (from_policy pol) of
             Inl _ \<Rightarrow> []
           | Inr local_anchor \<Rightarrow>
               if \<not> client_ok then []
               else map (\<lambda>(base_url, _). (base_url @ ''/api/federation/handshake'',
                      \<lparr>rh_base_url = own_url, rh_handshake =
                        \<lparr>anchor_snapshot = local_anchor, capability_contract = policy_contract pol\<rparr>\<rparr>)) peers))"

text \<open>The second pass runs on the database and the faults that the first one leaves.\<close>

definition recalculate_all_alignments ::
  "'f crypto \<Rightarrow> unicode \<Rightarrow> vrp_json \<Rightarrow> fed_json \<Rightarrow> (EventPayload \<Rightarrow> string option) \<Rightarrow> u64 option \<Rightarrow> faults \<Rightarrow> faults \<Rightarrow> time
     \<Rightarrow> ServerPolicy option \<Rightarrow> int \<Rightarrow> db \<Rightarrow> (ApiError + unit) \<times> db \<times> sent list" where
  "recalculate_all_alignments C U V J js clock flt flt' now policy s d =
     (case recalculate_agent_alignments C U V js clock flt now policy s d of
        (Inl e, d', out) \<Rightarrow> (Inl e, d', [out])
      | (Inr _, d', out) \<Rightarrow>
          (case recalculate_federation_agreements C U J js clock flt' now policy s d' of
             (r, d'', out') \<Rightarrow> (and_then r (\<lambda>_. Inr ()), d'', [out, out'])))"


lemma shifted_no_faults:
  "(\<lambda>i. no_faults (k + i)) = no_faults" "(\<lambda>i. no_faults (Suc i)) = no_faults"
  by (simp_all add: no_faults_def fun_eq_iff)

section \<open>Updates by key\<close>

text \<open>
  Both passes collect a verdict for every row, at most one update, and then write the updates
  one after another by the key of the row. The contract: writing keeps the key; then the
  passes amount to rewriting every row by its own verdict.
\<close>

locale row_verdicts =
  fixes key :: "'r \<Rightarrow> 'k" and store :: "'u \<Rightarrow> 'r \<Rightarrow> 'r"
  assumes key_store: "key (store u r) = key r"
begin

lemma fold_writes:
  "distinct (map fst kus) \<Longrightarrow>
   fold (\<lambda>(k, u). update_where (\<lambda>r. key r = k) (store u)) kus rows =
     map (\<lambda>r. case map_of kus (key r) of Some u \<Rightarrow> store u r | None \<Rightarrow> r) rows"
proof (induction kus arbitrary: rows)
  case Nil
  then show ?case by simp
next
  case (Cons ku kus)
  obtain k u where ku: "ku = (k, u)" by (cases ku)
  have "k \<notin> fst ` set kus" using Cons.prems by (simp add: ku)
  then have "map_of kus k = None" by (simp add: map_of_eq_None_iff)
  with Cons show ?case by (simp add: ku update_where_def key_store)
qed

lemma lookup_verdict:
  "distinct (map key rows) \<Longrightarrow> r \<in> set rows \<Longrightarrow>
   map_of (concat (map (\<lambda>r. map (Pair (key r)) (verdict r)) rows)) (key r) =
     (case verdict r of [] \<Rightarrow> None | u # _ \<Rightarrow> Some u)"
proof (induction rows)
  case Nil
  then show ?case by simp
next
  case (Cons x rows)
  have own: "map_of (map (Pair (key x)) us) (key r) = (if r = x \<or> key r = key x then (case us of [] \<Rightarrow> None | u # _ \<Rightarrow> Some u) else None)" for us
    by (induction us) auto
  have none: "map_of (concat (map (\<lambda>r. map (Pair (key r)) (verdict r)) rows)) (key x) = None"
    using Cons.prems(1) by (auto simp: map_of_eq_None_iff image_iff)
  show ?case
  proof (cases "r = x")
    case True
    then show ?thesis using own [of "verdict x"] none by (simp add: map_add_def split: list.splits)
  next
    case False
    with Cons.prems have r: "r \<in> set rows" by simp
    have "key r \<noteq> key x"
    proof
      assume "key r = key x"
      then have "key x \<in> key ` set rows" using r by (metis imageI)
      then show False using Cons.prems(1) by simp
    qed
    with r Cons own [of "verdict x"] False show ?thesis by (simp add: map_add_def split: option.splits list.splits)
  qed
qed

lemma distinct_verdicts:
  assumes "distinct (map key rows)" and "\<And>r. r \<in> set rows \<Longrightarrow> length (verdict r) \<le> 1"
  shows "distinct (map fst (concat (map (\<lambda>r. map (Pair (key r)) (verdict r)) rows)))"
  using assms
proof (induction rows)
  case Nil
  then show ?case by simp
next
  case (Cons x rows)
  have "length (verdict x) \<le> 1" using Cons.prems(2) by simp
  then have "distinct (map (\<lambda>_. key x) (verdict x))" by (cases "verdict x") simp_all
  moreover have "key x \<notin> fst ` set (concat (map (\<lambda>r. map (Pair (key r)) (verdict r)) rows))"
    using Cons.prems(1) by (auto simp: image_iff)
  ultimately show ?case using Cons by (auto simp: comp_def)
qed

lemma run:
  assumes "distinct (map key rows)" and "\<And>r. r \<in> set rows \<Longrightarrow> length (verdict r) \<le> 1"
  shows "fold (\<lambda>(k, u). update_where (\<lambda>r. key r = k) (store u)) (concat (map (\<lambda>r. map (Pair (key r)) (verdict r)) rows)) rows =
    map (\<lambda>r. case verdict r of [] \<Rightarrow> r | u # _ \<Rightarrow> store u r) rows"
proof -
  have "fold (\<lambda>(k, u). update_where (\<lambda>r. key r = k) (store u)) (concat (map (\<lambda>r. map (Pair (key r)) (verdict r)) rows)) rows =
      map (\<lambda>r. case map_of (concat (map (\<lambda>r. map (Pair (key r)) (verdict r)) rows)) (key r) of Some u \<Rightarrow> store u r | None \<Rightarrow> r) rows"
    by (rule fold_writes) (rule distinct_verdicts [OF assms])
  also have "\<dots> = map (\<lambda>r. case verdict r of [] \<Rightarrow> r | u # _ \<Rightarrow> store u r) rows"
  proof (intro map_cong refl)
    fix r assume "r \<in> set rows"
    from lookup_verdict [OF assms(1) this, of verdict]
    show "(case map_of (concat (map (\<lambda>r. map (Pair (key r)) (verdict r)) rows)) (key r) of Some u \<Rightarrow> store u r | None \<Rightarrow> r) =
        (case verdict r of [] \<Rightarrow> r | u # _ \<Rightarrow> store u r)"
      by (cases "verdict r") simp_all
  qed
  finally show ?thesis .
qed

end

definition agent_key :: "agent_row \<Rightarrow> int \<times> string" where
  "agent_key r = (ar_server r, ar_pseudonym r)"

interpretation agents: row_verdicts agent_key "write_agent_row now" for now
  by standard (simp add: agent_key_def write_agent_row_def)

interpretation peers: row_verdicts ag_id "write_peer_row J now" for J now
  by standard (simp add: write_peer_row_def)

section \<open>The writing loops\<close>

lemma emit_frame:
  "agent_registrations (fst (emit_and_broadcast js flt now d s eid payload)) = agent_registrations d"
  "federation_agreements (fst (emit_and_broadcast js flt now d s eid payload)) = federation_agreements d"
  "instances (fst (emit_and_broadcast js flt now d s eid payload)) = instances d"
  by (simp_all add: emit_and_broadcast_def emit_event_def Let_def split: option.split sum.split)

lemma apply_agents_ok:
  "apply_agent_updates js flt now s k us d out = (Inr x, d', out') \<Longrightarrow>
   agent_rows d' = fold (\<lambda>(k, u). update_where (\<lambda>r. agent_key r = k) (write_agent_row now u))
       (map (\<lambda>u. ((s, au_pseudonym u), u)) us) (agent_rows d)
   \<and> federation_agreements d' = federation_agreements d \<and> instances d' = instances d
   \<and> presence_sent out' = presence_sent out @ map (\<lambda>u. NodeUpdated (au_pseudonym u) (au_active u)) us"
proof (induction us arbitrary: k d out)
  case Nil
  then show ?case by simp
next
  case (Cons u us)
  obtain d2 event where e: "emit_and_broadcast js (\<lambda>i. flt (2 * k + 1 + i)) now (write_agent now s u d) s (au_pseudonym u) (agent_event u) = (d2, event)"
    by (cases "emit_and_broadcast js (\<lambda>i. flt (2 * k + 1 + i)) now (write_agent now s u d) s (au_pseudonym u) (agent_event u)")
  note frame = emit_frame [of js "\<lambda>i. flt (2 * k + 1 + i)" now "write_agent now s u d" s "au_pseudonym u" "agent_event u", unfolded e fst_conv]
  have "apply_agent_updates js flt now s (Suc k) us d2 (send_both (NodeUpdated (au_pseudonym u) (au_active u)) event out) = (Inr x, d', out')"
    using Cons.prems e by (simp add: db_call_def split: if_splits)
  from Cons.IH [OF this] show ?case
    by (simp add: frame write_agent_def agent_key_def send_both_def)
qed

lemma apply_peers_ok:
  "apply_peer_updates J js flt now s k us d out = (Inr x, d', out') \<Longrightarrow>
   federation_agreements d' = (federation_agreements d)\<lparr>auto_rows :=
       fold (\<lambda>(k, u). update_where (\<lambda>a. ag_id a = k) (write_peer_row J now u)) (map (\<lambda>u. (pu_id u, u)) us) (agreement_rows d)\<rparr>
   \<and> agent_registrations d' = agent_registrations d \<and> instances d' = instances d
   \<and> presence_sent out' = presence_sent out @ map peer_presence us"
proof (induction us arbitrary: k d out)
  case Nil
  then show ?case by simp
next
  case (Cons u us)
  obtain d2 event where e: "emit_and_broadcast js (\<lambda>i. flt (2 * k + 1 + i)) now (write_peer J now u d) s (pu_base_url u) (peer_event u) = (d2, event)"
    by (cases "emit_and_broadcast js (\<lambda>i. flt (2 * k + 1 + i)) now (write_peer J now u d) s (pu_base_url u) (peer_event u)")
  note frame = emit_frame [of js "\<lambda>i. flt (2 * k + 1 + i)" now "write_peer J now u d" s "pu_base_url u" "peer_event u", unfolded e fst_conv]
  have "apply_peer_updates J js flt now s (Suc k) us d2 (send_both (peer_presence u) event out) = (Inr x, d', out')"
    using Cons.prems e by (simp add: db_call_def split: if_splits)
  from Cons.IH [OF this] show ?case
    by (simp add: frame write_peer_def send_both_def auto_update_def)
qed

lemma collect_res_verdicts:
  "collect_res (map g xs) = Inr ys \<Longrightarrow> ys = map (\<lambda>x. case g x of Inr y \<Rightarrow> y | Inl _ \<Rightarrow> []) xs"
  by (induction xs arbitrary: ys) (auto simp: res_simps)

lemma concat_map_filter: "concat (map f (filter P xs)) = concat (map (\<lambda>x. if P x then f x else []) xs)"
  by (induction xs) simp_all


section \<open>Agents, row by row\<close>

text \<open>
  The specification: an active agent of the server whose anchor and contract can be read is
  judged by itself; if its standing changes it is rewritten, and it stays active unless the
  judgement is a conflict. Every other row stays as it is.
\<close>

definition reevaluated ::
  "unicode \<Rightarrow> vrp_json \<Rightarrow> VrpAnchorSnapshot \<Rightarrow> ServerPolicy \<Rightarrow> time \<Rightarrow> int \<Rightarrow> agent_row \<Rightarrow> agent_row" where
  "reevaluated U V local_anchor policy now s r =
     (if ar_active r \<and> ar_server r = s
      then case Option.bind (ar_anchor r) (anchor_from_json V) of
             None \<Rightarrow> r
           | Some anchor \<Rightarrow>
               (case sharing_from_json V (ar_contract r) of
                  None \<Rightarrow> r
                | Some contract \<Rightarrow>
                    let report = evaluate_agent U local_anchor policy \<lparr>anchor_snapshot = anchor, capability_contract = contract\<rparr>
                    in if status_to_string (alignment_status report) = ar_alignment r
                          \<and> scope_to_string (transfer_scope report) = ar_scope r then r
                       else r\<lparr>ar_alignment := status_to_string (alignment_status report),
                              ar_scope := scope_to_string (transfer_scope report),
                              ar_active := (alignment_status report \<noteq> VrpAlignmentStatus.Conflict), ar_updated := now\<rparr>)
      else r)"

definition agents_unique :: "db \<Rightarrow> bool" where
  "agents_unique d \<longleftrightarrow> distinct (map agent_key (agent_rows d))"

definition agent_verdict ::
  "unicode \<Rightarrow> vrp_json \<Rightarrow> VrpAnchorSnapshot \<Rightarrow> ServerPolicy \<Rightarrow> int \<Rightarrow> agent_row \<Rightarrow> agent_update list" where
  "agent_verdict U V local_anchor policy s r =
     (if ar_active r \<and> ar_server r = s
      then case agent_update_of U V local_anchor policy r of Inr us \<Rightarrow> us | Inl _ \<Rightarrow> [] else [])"

lemma agent_verdict_cases:
  obtains "agent_verdict U V a pol s r = []" "reevaluated U V a pol now s r = r"
  | u where "agent_verdict U V a pol s r = [u]" "reevaluated U V a pol now s r = write_agent_row now u r"
      "reevaluated U V a pol now s r \<noteq> r" "ar_server r = s" "ar_active r" "au_pseudonym u = ar_pseudonym r"
proof -
  have "agent_verdict U V a pol s r = [] \<and> reevaluated U V a pol now s r = r
    \<or> (\<exists>u. agent_verdict U V a pol s r = [u] \<and> reevaluated U V a pol now s r = write_agent_row now u r
        \<and> (status_to_string (alignment_status (au_report u)) \<noteq> ar_alignment r \<or> scope_to_string (transfer_scope (au_report u)) \<noteq> ar_scope r)
        \<and> ar_server r = s \<and> ar_active r \<and> au_pseudonym u = ar_pseudonym r)"
    by (auto simp: agent_verdict_def agent_update_of_def agent_handshake_of_def reevaluated_def report_changes_def Let_def
        write_agent_row_def split: option.split)
  then show thesis
  proof (elim disjE exE conjE)
    fix u
    assume u: "agent_verdict U V a pol s r = [u]" "reevaluated U V a pol now s r = write_agent_row now u r"
      "status_to_string (alignment_status (au_report u)) \<noteq> ar_alignment r" "ar_server r = s" "ar_active r"
      "au_pseudonym u = ar_pseudonym r"
    have "ar_alignment (write_agent_row now u r) \<noteq> ar_alignment r" using u(3) by (simp add: write_agent_row_def)
    then have "write_agent_row now u r \<noteq> r" by metis
    with u that(2) show thesis by metis
  next
    fix u
    assume u: "agent_verdict U V a pol s r = [u]" "reevaluated U V a pol now s r = write_agent_row now u r"
      "scope_to_string (transfer_scope (au_report u)) \<noteq> ar_scope r" "ar_server r = s" "ar_active r"
      "au_pseudonym u = ar_pseudonym r"
    have "ar_scope (write_agent_row now u r) \<noteq> ar_scope r" using u(3) by (simp add: write_agent_row_def)
    then have "write_agent_row now u r \<noteq> r" by metis
    with u that(2) show thesis by metis
  qed (use that(1) in blast)
qed

lemma agent_updates_verdicts:
  assumes "agent_updates U V a pol d s = Inr us"
  shows "us = concat (map (agent_verdict U V a pol s) (agent_rows d))"
proof -
  have "agent_verdict U V a pol s = (\<lambda>r. if ar_active r \<and> ar_server r = s
      then case agent_update_of U V a pol r of Inr us \<Rightarrow> us | Inl _ \<Rightarrow> [] else [])"
    by (rule ext) (simp add: agent_verdict_def)
  with assms show ?thesis
    by (auto simp: agent_updates_def active_agents_def res_simps concat_map_filter dest!: collect_res_verdicts)
qed

lemma recalculate_agents_ok:
  assumes "recalculate_agent_alignments C U V js clock flt now (Some pol) s d = (Inr gone, d', out)"
  obtains a us where "to_anchor_snapshot C clock (from_policy pol) = Inr a" "agent_updates U V a pol d s = Inr us"
    "apply_agent_updates js (\<lambda>i. flt (4 + i)) now s 0 us d nothing_sent = (Inr (), d', out)"
    "gone = map au_pseudonym (filter (\<lambda>u. \<not> au_active u) us)"
  using assms unfolding recalculate_agent_alignments_def
  by (auto simp: res_simps db_call_def split: sum.splits prod.splits if_splits)

lemma agents_run:
  assumes "agents_unique d" and "us = concat (map (agent_verdict U V a pol s) (agent_rows d))"
  shows "fold (\<lambda>(k, u). update_where (\<lambda>r. agent_key r = k) (write_agent_row now u))
      (map (\<lambda>u. ((s, au_pseudonym u), u)) us) (agent_rows d) = map (reevaluated U V a pol now s) (agent_rows d)"
proof -
  have "map (\<lambda>u. ((s, au_pseudonym u), u)) us =
      concat (map (\<lambda>r. map (Pair (agent_key r)) (agent_verdict U V a pol s r)) (agent_rows d))"
    unfolding assms(2) map_concat map_map comp_def
  proof (rule arg_cong [of _ _ concat], rule map_cong [OF refl])
    fix r
    show "map (\<lambda>u. ((s, au_pseudonym u), u)) (agent_verdict U V a pol s r) = map (Pair (agent_key r)) (agent_verdict U V a pol s r)"
      by (rule agent_verdict_cases [of U V a pol s r now]) (simp_all add: agent_key_def)
  qed
  moreover have "length (agent_verdict U V a pol s r) \<le> 1" for r
    by (rule agent_verdict_cases [of U V a pol s r now]) simp_all
  moreover have "(case agent_verdict U V a pol s r of [] \<Rightarrow> r | u # _ \<Rightarrow> write_agent_row now u r) = reevaluated U V a pol now s r" for r
    by (rule agent_verdict_cases [of U V a pol s r now]) simp_all
  ultimately show ?thesis
    using agents.run [of "agent_rows d" "agent_verdict U V a pol s"] assms(1) by (simp add: agents_unique_def)
qed

text \<open>
  C21. After a change of policy every agent stands as its own anchor and contract deserve: a
  successful pass rewrites the table row by row as specified. The agents whose connections are
  closed are exactly those that were active and no longer are, and a presence event was sent
  for exactly the agents whose standing changed, in the order of the table; agreements and
  instances are untouched.
\<close>

theorem agents_reevaluated:
  assumes "agents_unique d"
    and "recalculate_agent_alignments C U V js clock flt now (Some pol) s d = (Inr gone, d', out)"
  shows "\<exists>a. to_anchor_snapshot C clock (from_policy pol) = Inr a
    \<and> agent_rows d' = map (reevaluated U V a pol now s) (agent_rows d)
    \<and> gone = map ar_pseudonym (filter (\<lambda>r. ar_active r \<and> \<not> ar_active (reevaluated U V a pol now s r)) (agent_rows d))
    \<and> presence_sent out = map (\<lambda>r. NodeUpdated (ar_pseudonym r) (ar_active (reevaluated U V a pol now s r)))
        (filter (\<lambda>r. reevaluated U V a pol now s r \<noteq> r) (agent_rows d))
    \<and> federation_agreements d' = federation_agreements d \<and> instances d' = instances d"
proof (rule recalculate_agents_ok [OF assms(2)])
  fix a us
  assume a: "to_anchor_snapshot C clock (from_policy pol) = Inr a" and us: "agent_updates U V a pol d s = Inr us"
    and ap: "apply_agent_updates js (\<lambda>i. flt (4 + i)) now s 0 us d nothing_sent = (Inr (), d', out)"
    and gone: "gone = map au_pseudonym (filter (\<lambda>u. \<not> au_active u) us)"
  note v = agent_updates_verdicts [OF us]
  have g: "map au_pseudonym (filter (\<lambda>u. \<not> au_active u) (concat (map (agent_verdict U V a pol s) rs)))
      = map ar_pseudonym (filter (\<lambda>r. ar_active r \<and> \<not> ar_active (reevaluated U V a pol now s r)) rs)" for rs
  proof (induction rs)
    case Nil
    then show ?case by simp
  next
    case (Cons r rs)
    show ?case
      by (rule agent_verdict_cases [of U V a pol s r now]) (use Cons in \<open>simp_all add: write_agent_row_def\<close>)
  qed
  have p: "map (\<lambda>u. NodeUpdated (au_pseudonym u) (au_active u)) (concat (map (agent_verdict U V a pol s) rs))
      = map (\<lambda>r. NodeUpdated (ar_pseudonym r) (ar_active (reevaluated U V a pol now s r)))
        (filter (\<lambda>r. reevaluated U V a pol now s r \<noteq> r) rs)" for rs
  proof (induction rs)
    case Nil
    then show ?case by simp
  next
    case (Cons r rs)
    show ?case
    proof (rule agent_verdict_cases [of U V a pol s r now])
      assume "agent_verdict U V a pol s r = []" "reevaluated U V a pol now s r = r"
      with Cons show ?thesis by simp
    next
      fix u
      assume u: "agent_verdict U V a pol s r = [u]" "reevaluated U V a pol now s r = write_agent_row now u r"
        "reevaluated U V a pol now s r \<noteq> r" "au_pseudonym u = ar_pseudonym r"
      have "ar_active (reevaluated U V a pol now s r) = au_active u" unfolding u(2) by (simp add: write_agent_row_def)
      with u(1,3,4) Cons show ?thesis by simp
    qed
  qed
  from apply_agents_ok [OF ap] agents_run [OF assms(1) v] g [of "agent_rows d"] p [of "agent_rows d"] a gone v
  show ?thesis by (simp add: nothing_sent_def)
qed


lemma evaluate_same_policy:
  assumes "to_anchor_snapshot C clock (from_policy pol) = Inr a" "to_anchor_snapshot C clock' (from_policy pol) = Inr a'"
  shows "evaluate_agent U a pol h = evaluate_agent U a' pol h" "evaluate_peer U a pol h = evaluate_peer U a' pol h"
proof -
  have "principles_hash a = principles_hash a'" "prohibited_actions_hash a = prohibited_actions_hash a'"
    "an_principles a = an_principles a'"
    using assms by (auto simp: to_anchor_snapshot_def new_snapshot_def res_simps)
  then have "compare_peer_anchor U a r cfg = compare_peer_anchor U a' r cfg" for r cfg
    by (simp add: compare_peer_anchor_def)
  then show "evaluate_agent U a pol h = evaluate_agent U a' pol h" "evaluate_peer U a pol h = evaluate_peer U a' pol h"
    by (simp_all only: evaluate_agent_def evaluate_peer_def validate_federation_handshake_def)
qed

lemma reevaluated_idem:
  assumes "to_anchor_snapshot C clock (from_policy pol) = Inr a" "to_anchor_snapshot C clock' (from_policy pol) = Inr a'"
  shows "reevaluated U V a' pol now' s (reevaluated U V a pol now s r) = reevaluated U V a pol now s r"
proof -
  note e = evaluate_same_policy(1) [OF assms, of U]
  show ?thesis
  proof (cases "ar_active r \<and> ar_server r = s \<and> Option.bind (ar_anchor r) (anchor_from_json V) \<noteq> None \<and> sharing_from_json V (ar_contract r) \<noteq> None")
    case False
    then show ?thesis by (auto simp: reevaluated_def split: option.splits)
  next
    case True
    then obtain anchor contract where x: "Option.bind (ar_anchor r) (anchor_from_json V) = Some anchor"
      "sharing_from_json V (ar_contract r) = Some contract" "ar_active r" "ar_server r = s" by auto
    then show ?thesis by (auto simp: reevaluated_def e Let_def)
  qed
qed

text \<open>
  A pass has nothing left to do after itself: under the same policy a second successful
  pass, at whatever time, disconnects nobody, announces nothing and leaves every row as it is.
\<close>

theorem reevaluation_idempotent:
  assumes "agents_unique d"
    and "recalculate_agent_alignments C U V js clock flt now (Some pol) s d = (Inr gone, d1, out)"
    and "recalculate_agent_alignments C U V js clock' flt' now' (Some pol) s d1 = (Inr gone', d2, out')"
  shows "gone' = [] \<and> agent_rows d2 = agent_rows d1 \<and> presence_sent out' = []"
proof -
  have run: "\<exists>a. to_anchor_snapshot C clock (from_policy pol) = Inr a
      \<and> agent_rows d' = map (reevaluated U V a pol now s) (agent_rows d)
      \<and> (\<forall>us. agent_updates U V a pol d s = Inr us \<longrightarrow> gone = map au_pseudonym (filter (\<lambda>u. \<not> au_active u) us)
          \<and> presence_sent out = map (\<lambda>u. NodeUpdated (au_pseudonym u) (au_active u)) us)
      \<and> agent_updates U V a pol d s = Inr (concat (map (agent_verdict U V a pol s) (agent_rows d)))"
    if u: "agents_unique d" and r: "recalculate_agent_alignments C U V js clock flt now (Some pol) s d = (Inr gone, d', out)"
    for clock flt now d gone d' out
  proof (rule recalculate_agents_ok [OF r])
    fix a us
    assume a: "to_anchor_snapshot C clock (from_policy pol) = Inr a" and us: "agent_updates U V a pol d s = Inr us"
      and ap: "apply_agent_updates js (\<lambda>i. flt (4 + i)) now s 0 us d nothing_sent = (Inr (), d', out)"
      and gone: "gone = map au_pseudonym (filter (\<lambda>u. \<not> au_active u) us)"
    show ?thesis
      using a gone us agent_updates_verdicts [OF us] agents_run [OF u agent_updates_verdicts [OF us]] apply_agents_ok [OF ap]
      by (intro exI [of _ a]) (simp add: nothing_sent_def)
  qed
  from run [OF assms(1,2)] obtain a where a: "to_anchor_snapshot C clock (from_policy pol) = Inr a"
    "agent_rows d1 = map (reevaluated U V a pol now s) (agent_rows d)" by blast
  have "agent_key (reevaluated U V a pol now s r) = agent_key r" for r
    by (rule agent_verdict_cases [of U V a pol s r now]) (simp_all add: agents.key_store)
  then have "agents_unique d1" using assms(1) by (simp add: agents_unique_def a(2) comp_def)
  from run [OF this assms(3)] obtain a' where a': "to_anchor_snapshot C clock' (from_policy pol) = Inr a'"
    "agent_rows d2 = map (reevaluated U V a' pol now' s) (agent_rows d1)"
    "agent_updates U V a' pol d1 s = Inr (concat (map (agent_verdict U V a' pol s) (agent_rows d1)))"
    "\<forall>us. agent_updates U V a' pol d1 s = Inr us \<longrightarrow> gone' = map au_pseudonym (filter (\<lambda>u. \<not> au_active u) us)
          \<and> presence_sent out' = map (\<lambda>u. NodeUpdated (au_pseudonym u) (au_active u)) us" by blast
  have idem: "reevaluated U V a' pol now' s r = r" if "r \<in> set (agent_rows d1)" for r
    using that reevaluated_idem [OF a(1) a'(1)] by (auto simp: a(2))
  have "agent_verdict U V a' pol s r = []" if "r \<in> set (agent_rows d1)" for r
    using idem [OF that] by (metis agent_verdict_cases)
  then have "concat (map (agent_verdict U V a' pol s) (agent_rows d1)) = []" by simp
  moreover have "agent_rows d2 = agent_rows d1" using idem by (simp add: a'(2) map_idI)
  ultimately show ?thesis using a'(3,4) by simp
qed

section \<open>A pass that is rolled back\<close>

lemma apply_agents_total:
  assumes "\<And>i. \<not> flt i" and "\<And>p. js p \<noteq> None"
  shows "\<exists>d' out'. apply_agent_updates js flt now s k us d out = (Inr (), d', out')
    \<and> length (observe_sent out') = length (observe_sent out) + length us"
proof (induction us arbitrary: k d out)
  case Nil
  then show ?case by simp
next
  case (Cons u us)
  obtain d2 event where e: "emit_and_broadcast js (\<lambda>i. flt (2 * k + 1 + i)) now (write_agent now s u d) s (au_pseudonym u) (agent_event u) = (d2, event)"
    by (cases "emit_and_broadcast js (\<lambda>i. flt (2 * k + 1 + i)) now (write_agent now s u d) s (au_pseudonym u) (agent_event u)")
  have "event \<noteq> None"
    using e assms(2) [of "agent_event u"] assms(1)
    by (auto simp: emit_and_broadcast_def emit_event_def guard_fault_def Let_def)
  with Cons.IH [of "Suc k" d2 "send_both (NodeUpdated (au_pseudonym u) (au_active u)) event out"] e
  show ?case by (auto simp: db_call_def assms(1) send_both_def)
qed

text \<open>
  A failed pass leaves the database as it was; but when it is the commit that fails, every
  change of standing it had computed, disconnections included, has already been sent to the
  observers, as presence events and as public events that are in no log.
\<close>

theorem rolled_back_pass_is_announced:
  assumes "to_anchor_snapshot C clock (from_policy pol) = Inr a" and "agent_updates U V a pol d s = Inr us"
    and "\<forall>p. js p \<noteq> None"
  shows "\<exists>out. recalculate_agent_alignments C U V js clock (\<lambda>n. n = 3) now (Some pol) s d = (Inl InternalServerError, d, out)
    \<and> presence_sent out = map (\<lambda>u. NodeUpdated (au_pseudonym u) (au_active u)) us
    \<and> length (observe_sent out) = length us"
proof -
  obtain d' out where r: "apply_agent_updates js (\<lambda>i. 4 + i = 3) now s 0 us d nothing_sent = (Inr (), d', out)"
    "length (observe_sent out) = length us"
    using apply_agents_total [of "\<lambda>i. 4 + i = 3" js now s 0 us d nothing_sent] assms(3) by (auto simp: nothing_sent_def)
  have "recalculate_agent_alignments C U V js clock (\<lambda>n. n = 3) now (Some pol) s d = (Inl InternalServerError, d, out)"
    using r(1) by (simp add: recalculate_agent_alignments_def assms(1,2) db_call_def)
  with r(2) apply_agents_ok [OF r(1)] show ?thesis by (simp add: nothing_sent_def)
qed


section \<open>Agreements, row by row\<close>

definition peer_verdict ::
  "unicode \<Rightarrow> fed_json \<Rightarrow> VrpAnchorSnapshot \<Rightarrow> ServerPolicy \<Rightarrow> db \<Rightarrow> agreement_row \<Rightarrow> peer_update list" where
  "peer_verdict U J local_anchor policy d a =
     (if ag_active a
      then concat (map (\<lambda>i. case peer_update_of U J local_anchor policy (a, i) of Inr us \<Rightarrow> us | Inl _ \<Rightarrow> [])
             (filter (\<lambda>i. in_id i = ag_remote a) (instances d)))
      else [])"

lemma filter_unique:
  assumes "distinct (map key xs)"
  obtains "filter (\<lambda>x. key x = k) xs = []" | x where "filter (\<lambda>x. key x = k) xs = [x]" "x \<in> set xs" "key x = k"
proof -
  have "filter (\<lambda>x. key x = k) xs = [] \<or> (\<exists>x. filter (\<lambda>x. key x = k) xs = [x] \<and> x \<in> set xs \<and> key x = k)"
    using assms
  proof (induction xs)
    case Nil
    then show ?case by simp
  next
    case (Cons y xs)
    then show ?case by (auto simp: filter_empty_conv)
  qed
  then show thesis using that by blast
qed

text \<open>The judgement of one agreement: none, or the update that writes it.\<close>

lemma peer_verdict_cases:
  assumes "distinct (map in_id (instances d))"
  obtains "peer_verdict U J a pol d r = []"
  | u i h where "peer_verdict U J a pol d r = [u]" "ag_active r" "pu_id u = ag_id r" "i \<in> set (instances d)"
      "in_id i = ag_remote r" "pu_base_url u = in_base_url i" "pu_remote u = ag_remote r"
      "Option.bind (ag_handshake r) (handshake_from_json J) = Some h" "pu_report u = evaluate_peer U a pol h"
proof -
  have one: "(case peer_update_of U J a pol (r, i) of Inr us \<Rightarrow> us | Inl _ \<Rightarrow> []) = []
      \<or> (\<exists>u h. (case peer_update_of U J a pol (r, i) of Inr us \<Rightarrow> us | Inl _ \<Rightarrow> []) = [u] \<and> pu_id u = ag_id r
          \<and> pu_base_url u = in_base_url i \<and> pu_remote u = ag_remote r
          \<and> Option.bind (ag_handshake r) (handshake_from_json J) = Some h \<and> pu_report u = evaluate_peer U a pol h)" for i
    by (simp add: peer_update_of_def Let_def split: option.split)
      (cases "ag_handshake r"; simp; cases "handshake_from_json J (the (ag_handshake r))"; simp)
  show thesis
  proof (cases "ag_active r")
    case False
    then show thesis using that(1) by (simp add: peer_verdict_def)
  next
    case True
    show thesis
    proof (rule filter_unique [OF assms, of "ag_remote r"])
      assume "filter (\<lambda>x. in_id x = ag_remote r) (instances d) = []"
      then show thesis using that(1) True by (simp add: peer_verdict_def)
    next
      fix i assume i: "filter (\<lambda>x. in_id x = ag_remote r) (instances d) = [i]" "i \<in> set (instances d)" "in_id i = ag_remote r"
      from one [of i] that(1) that(2) [of _ i] True i show thesis by (auto simp: peer_verdict_def)
    qed
  qed
qed

lemma concat_verdicts: "concat (map f (concat (map g xs))) = concat (map (\<lambda>x. concat (map f (g x))) xs)"
  by (induction xs) simp_all

lemma peer_updates_verdicts:
  assumes "peer_updates U J a pol d = Inr us"
  shows "us = concat (map (peer_verdict U J a pol d) (agreement_rows d))"
proof -
  have "peer_verdict U J a pol d = (\<lambda>r. if ag_active r
      then concat (map (\<lambda>i. case peer_update_of U J a pol (r, i) of Inr us \<Rightarrow> us | Inl _ \<Rightarrow> [])
             (filter (\<lambda>i. in_id i = ag_remote r) (instances d))) else [])"
    by (rule ext) (simp add: peer_verdict_def)
  then have v: "peer_verdict U J a pol d r = concat (map (\<lambda>ai. case peer_update_of U J a pol ai of Inr us \<Rightarrow> us | Inl _ \<Rightarrow> [])
      (if ag_active r then map (Pair r) (filter (\<lambda>i. in_id i = ag_remote r) (instances d)) else []))" for r
    by (simp add: comp_def)
  obtain uss where c: "collect_res (map (peer_update_of U J a pol) (active_peers d)) = Inr uss" "us = concat uss"
    using assms by (auto simp: peer_updates_def res_simps)
  show ?thesis
    unfolding c(2) collect_res_verdicts [OF c(1)] active_peers_def concat_map_filter concat_verdicts v ..
qed

lemma recalculate_peers_ok:
  assumes "recalculate_federation_agreements C U J js clock flt now (Some pol) s d = (Inr affected, d', out)"
  obtains a us where "to_anchor_snapshot C clock (from_policy pol) = Inr a" "peer_updates U J a pol d = Inr us"
    "apply_peer_updates J js (\<lambda>i. flt (4 + i)) now s 0 us d nothing_sent = (Inr (), d', out)"
    "affected = map (\<lambda>u. (pu_base_url u, pu_remote u)) us"
  using assms unfolding recalculate_federation_agreements_def
  by (auto simp: res_simps db_call_def split: sum.splits prod.splits if_splits)

text \<open>The agreement as the pass leaves it.\<close>

definition realigned ::
  "unicode \<Rightarrow> fed_json \<Rightarrow> VrpAnchorSnapshot \<Rightarrow> ServerPolicy \<Rightarrow> time \<Rightarrow> db \<Rightarrow> agreement_row \<Rightarrow> agreement_row" where
  "realigned U J local_anchor policy now d r =
     (case peer_verdict U J local_anchor policy d r of [] \<Rightarrow> r | u # _ \<Rightarrow> write_peer_row J now u r)"

lemma peers_run:
  assumes "distinct (map ag_id (agreement_rows d))" "distinct (map in_id (instances d))"
    and "us = concat (map (peer_verdict U J a pol d) (agreement_rows d))"
  shows "fold (\<lambda>(k, u). update_where (\<lambda>a. ag_id a = k) (write_peer_row J now u)) (map (\<lambda>u. (pu_id u, u)) us) (agreement_rows d)
     = map (realigned U J a pol now d) (agreement_rows d)"
proof -
  have "map (\<lambda>u. (pu_id u, u)) us =
      concat (map (\<lambda>r. map (Pair (ag_id r)) (peer_verdict U J a pol d r)) (agreement_rows d))"
    unfolding assms(3) map_concat map_map comp_def
  proof (rule arg_cong [of _ _ concat], rule map_cong [OF refl])
    fix r
    show "map (\<lambda>u. (pu_id u, u)) (peer_verdict U J a pol d r) = map (Pair (ag_id r)) (peer_verdict U J a pol d r)"
      by (rule peer_verdict_cases [OF assms(2), of U J a pol r]) simp_all
  qed
  moreover have "length (peer_verdict U J a pol d r) \<le> 1" for r
    by (rule peer_verdict_cases [OF assms(2), of U J a pol r]) simp_all
  moreover have "map (realigned U J a pol now d) (agreement_rows d) =
      map (\<lambda>r. case peer_verdict U J a pol d r of [] \<Rightarrow> r | u # _ \<Rightarrow> write_peer_row J now u r) (agreement_rows d)"
    by (simp add: realigned_def)
  ultimately show ?thesis
    using peers.run [of "agreement_rows d" "peer_verdict U J a pol d" J now] assms(1) by simp
qed


lemma realigned_cases:
  assumes "distinct (map in_id (instances d))"
  obtains "peer_verdict U J a pol d r = []" "realigned U J a pol now d r = r"
  | u where "peer_verdict U J a pol d r = [u]" "ag_active r" "realigned U J a pol now d r = write_peer_row J now u r"
  by (rule peer_verdict_cases [OF assms, of U J a pol r]) (simp_all add: that realigned_def)

lemma realigned_frame:
  assumes "distinct (map in_id (instances d))"
  shows "ag_id (realigned U J a pol now d r) = ag_id r" "agreement_key (realigned U J a pol now d r) = agreement_key r"
    "ag_remote (realigned U J a pol now d r) = ag_remote r"
    "ag_active (realigned U J a pol now d r) \<Longrightarrow> ag_active r"
    "agreement_readable J r \<Longrightarrow> agreement_readable J (realigned U J a pol now d r)"
proof -
  show "ag_id (realigned U J a pol now d r) = ag_id r" "agreement_key (realigned U J a pol now d r) = agreement_key r"
    "ag_remote (realigned U J a pol now d r) = ag_remote r"
    by (rule realigned_cases [OF assms, of U J a pol r now]; simp add: write_peer_row_def agreement_key_def)+
  show "ag_active (realigned U J a pol now d r) \<Longrightarrow> ag_active r"
    by (rule realigned_cases [OF assms, of U J a pol r now]) simp_all
  assume re: "agreement_readable J r"
  then obtain h where h: "ag_handshake r = map_option (handshake_to_json J) h"
    unfolding agreement_readable_def by (elim exE conjE)
  show "agreement_readable J (realigned U J a pol now d r)"
  proof (rule realigned_cases [OF assms, of U J a pol r now])
    assume "realigned U J a pol now d r = r"
    with re show ?thesis by simp
  next
    fix u assume w: "realigned U J a pol now d r = write_peer_row J now u r"
    show ?thesis
      unfolding agreement_readable_def w by (intro exI [of _ "pu_report u"] exI [of _ h]) (simp add: write_peer_row_def h)
  qed
qed

lemma realigned_ok:
  assumes ok: "agreements_ok J d" and i: "distinct (map in_id (instances d))"
    and d': "federation_agreements d' = (federation_agreements d)\<lparr>auto_rows := map (realigned U J a pol now d) (agreement_rows d)\<rparr>"
      "instances d' = instances d"
  shows "agreements_ok J d'"
proof -
  note fr = realigned_frame [OF i, where U = U and J = J and a = a and pol = pol and now = now]
  let ?f = "realigned U J a pol now d"
  have "sorted_wrt (\<lambda>x y. ag_id x < ag_id y) (map ?f (agreement_rows d)) = sorted_wrt (\<lambda>x y. ag_id y > ag_id x) (agreement_rows d)"
    by (rule sorted_wrt_key_cong) (simp add: fr(1))
  then have "auto_wf ag_id (federation_agreements d')"
    using ok by (simp add: agreements_ok_def auto_wf_def d' list_all_iff fr(1))
  moreover have "ag_remote ` set (agreement_rows d') \<subseteq> in_id ` set (instances d')"
    using ok by (simp add: agreements_ok_def d' image_image fr(3))
  moreover have "distinct (map agreement_key (filter ag_active (map ?f rs)))"
    if "distinct (map agreement_key (filter ag_active rs))" for rs
    using that
  proof (induction rs)
    case Nil
    then show ?case by simp
  next
    case (Cons r rs)
    have "distinct (map agreement_key (filter ag_active (map ?f rs)))"
      using Cons by (cases "ag_active r") simp_all
    moreover have "agreement_key r \<notin> agreement_key ` set (filter ag_active (map ?f rs))" if "ag_active r"
    proof
      assume "agreement_key r \<in> agreement_key ` set (filter ag_active (map ?f rs))"
      then obtain x where x: "x \<in> set rs" "ag_active (?f x)" "agreement_key r = agreement_key (?f x)" by auto
      then have "agreement_key r \<in> agreement_key ` set (filter ag_active rs)"
        using fr(2) [of x] fr(4) [of x] by (intro image_eqI [of _ _ x]) simp_all
      then show False using Cons.prems that by simp
    qed
    ultimately show ?case using fr(2,4) by simp
  qed
  then have "distinct (map agreement_key (filter ag_active (agreement_rows d')))"
    using ok by (simp add: agreements_ok_def d')
  moreover have "list_all (agreement_readable J) (agreement_rows d')"
    using ok fr(5) by (simp add: agreements_ok_def d' list_all_iff)
  ultimately show ?thesis by (simp add: agreements_ok_def)
qed

lemma peers_pass:
  assumes ok: "agreements_ok J d" and i: "distinct (map in_id (instances d))"
    and r: "recalculate_federation_agreements C U J js clock flt now (Some pol) s d = (Inr affected, d', out)"
  obtains a where "to_anchor_snapshot C clock (from_policy pol) = Inr a" "agreements_ok J d'"
    "agreement_rows d' = map (realigned U J a pol now d) (agreement_rows d)"
    "affected = map (\<lambda>u. (pu_base_url u, pu_remote u)) (concat (map (peer_verdict U J a pol d) (agreement_rows d)))"
    "presence_sent out = map peer_presence (concat (map (peer_verdict U J a pol d) (agreement_rows d)))"
    "peer_updates U J a pol d \<in> range Inr"
proof (rule recalculate_peers_ok [OF r])
  fix a us
  assume a: "to_anchor_snapshot C clock (from_policy pol) = Inr a" and us: "peer_updates U J a pol d = Inr us"
    and ap: "apply_peer_updates J js (\<lambda>i. flt (4 + i)) now s 0 us d nothing_sent = (Inr (), d', out)"
    and af: "affected = map (\<lambda>u. (pu_base_url u, pu_remote u)) us"
  have ids: "distinct (map ag_id (agreement_rows d))"
    using ok auto_wf_distinct by (auto simp: agreements_ok_def)
  note v = peer_updates_verdicts [OF us]
  note p = apply_peers_ok [OF ap, unfolded peers_run [OF ids i v]]
  have "agreements_ok J d'" using p by (intro realigned_ok [OF ok i]) blast+
  then show thesis
    using p v us af by (intro that [OF a]) (simp_all add: nothing_sent_def)
qed

lemma unoffered_requirement_conflicts:
  assumes "c \<in> set (required_capabilities (capability_contract h))" and "c \<notin> set (policy_offered pol)"
  shows "alignment_status (evaluate_peer U a pol h) = VrpAlignmentStatus.Conflict"
    "alignment_status (evaluate_agent U a pol h) = VrpAlignmentStatus.Conflict"
proof -
  have "\<not> contracts_mutually_accepted (policy_contract pol) (capability_contract h)"
    using assms by (auto simp: contracts_mutually_accepted_def policy_contract_def list_all_iff)
  then show "alignment_status (evaluate_peer U a pol h) = VrpAlignmentStatus.Conflict"
    "alignment_status (evaluate_agent U a pol h) = VrpAlignmentStatus.Conflict"
    by (simp_all add: evaluate_peer_def evaluate_agent_def validate_federation_handshake_def Let_def)
qed

text \<open>
  The two halves of the server disagree on the names of the capabilities it offers: a
  handshake may require \<open>voice\<close> or \<open>federation\<close>, which the incoming side offers, but the
  policy pass offers other names; so any policy pass, even under an unchanged policy, severs
  every active agreement with such a requirement, marks it \<open>CONFLICT\<close>, tells the observers
  and lists the peer for a new handshake. The agreements stay well-formed.
\<close>

theorem capability_names_sever:
  assumes "agreements_ok J d" and "distinct (map in_id (instances d))"
    and "recalculate_federation_agreements C U J js clock flt now (Some pol) s d = (Inr affected, d', out)"
    and "r \<in> set (agreement_rows d)" and "ag_active r" and "ag_alignment r \<noteq> ''CONFLICT''"
    and "ag_handshake r = Some hj" and "handshake_from_json J hj = Some h"
    and "c \<in> set (required_capabilities (capability_contract h))" and "c \<in> {''voice'', ''federation''}"
  shows "agreements_ok J d'
    \<and> (voice_enabled pol \<and> federation_enabled pol \<longrightarrow> c \<in> set (offered pol)) \<and> c \<notin> set (policy_offered pol)
    \<and> (\<exists>r' \<in> set (agreement_rows d'). ag_id r' = ag_id r \<and> \<not> ag_active r' \<and> ag_alignment r' = ''CONFLICT'')
    \<and> (\<exists>i \<in> set (instances d). in_id i = ag_remote r \<and> (in_base_url i, ag_remote r) \<in> set affected
          \<and> PresenceEvent.FederationSevered (in_base_url i) \<in> set (presence_sent out))"
proof (rule peers_pass [OF assms(1-3)])
  fix a
  assume rows: "agreement_rows d' = map (realigned U J a pol now d) (agreement_rows d)" and ok: "agreements_ok J d'"
    and af: "affected = map (\<lambda>u. (pu_base_url u, pu_remote u)) (concat (map (peer_verdict U J a pol d) (agreement_rows d)))"
    and pr: "presence_sent out = map peer_presence (concat (map (peer_verdict U J a pol d) (agreement_rows d)))"
    and rd: "peer_updates U J a pol d \<in> range Inr"
  have n: "c \<notin> set (policy_offered pol)" using assms(10) by (auto simp: policy_offered_def)
  have o: "voice_enabled pol \<and> federation_enabled pol \<longrightarrow> c \<in> set (offered pol)"
    using assms(10) by (auto simp: offered_def)
  have cf: "alignment_status (evaluate_peer U a pol h) = VrpAlignmentStatus.Conflict"
    by (rule unoffered_requirement_conflicts(1) [OF assms(9) n])
  have "ag_remote r \<in> in_id ` set (instances d)" using assms(1,4) by (auto simp: agreements_ok_def)
  then have ne: "filter (\<lambda>i. in_id i = ag_remote r) (instances d) \<noteq> []" by (auto simp: filter_empty_conv)
  have nv: "peer_verdict U J a pol d r \<noteq> []"
    using ne assms(5-8) cf by (cases "filter (\<lambda>i. in_id i = ag_remote r) (instances d)")
      (simp_all add: peer_verdict_def peer_update_of_def report_changes_def Let_def)
  obtain u i h' where u: "peer_verdict U J a pol d r = [u]" "i \<in> set (instances d)" "in_id i = ag_remote r"
    "pu_base_url u = in_base_url i" "pu_remote u = ag_remote r"
    "Option.bind (ag_handshake r) (handshake_from_json J) = Some h'" "pu_report u = evaluate_peer U a pol h'"
  proof (rule peer_verdict_cases [OF assms(2), of U J a pol r])
    assume "peer_verdict U J a pol d r = []"
    with nv show thesis by simp
  qed (rule that)
  have st: "alignment_status (pu_report u) = VrpAlignmentStatus.Conflict" using u(6,7) cf assms(7,8) by simp
  have m: "u \<in> set (concat (map (peer_verdict U J a pol d) (agreement_rows d)))"
    using assms(4) u(1) by (auto intro!: bexI [of _ r])
  have "realigned U J a pol now d r \<in> set (agreement_rows d')" using assms(4) by (simp add: rows)
  moreover have "realigned U J a pol now d r = write_peer_row J now u r" by (simp add: realigned_def u(1))
  ultimately have "\<exists>r' \<in> set (agreement_rows d'). ag_id r' = ag_id r \<and> \<not> ag_active r' \<and> ag_alignment r' = ''CONFLICT''"
    using st by (intro bexI [of _ "realigned U J a pol now d r"]) (simp_all add: write_peer_row_def)
  moreover have "(in_base_url i, ag_remote r) \<in> set affected"
    unfolding af set_map using m u(4,5) by (intro image_eqI [of _ _ u]) simp_all
  moreover have "PresenceEvent.FederationSevered (in_base_url i) \<in> set (presence_sent out)"
    unfolding pr set_map using m u(4) st by (intro image_eqI [of _ _ u]) (simp_all add: peer_presence_def)
  ultimately show ?thesis using ok n o u(2,3) by blast
qed


section \<open>A concrete policy change\<close>

definition demo_vrp_json :: vrp_json where
  "demo_vrp_json = \<lparr>anchor_to_json = (\<lambda>_. []), anchor_from_json = (\<lambda>_. Some (demo_anchor [] [])),
     sharing_to_json = (\<lambda>_. []), sharing_from_json = (\<lambda>_. Some (demo_contract [''voice''] []))\<rparr>"

definition demo_fed_json :: fed_json where
  "demo_fed_json = \<lparr>report_to_json = (\<lambda>_. []), report_from_json = (\<lambda>_. None), handshake_to_json = (\<lambda>_. []),
     handshake_from_json = (\<lambda>_. Some \<lparr>anchor_snapshot = demo_anchor [] [], capability_contract = demo_contract [''voice''] []\<rparr>)\<rparr>"

definition demo_agent :: agent_row where
  "demo_agent = \<lparr>ar_id = 1, ar_server = 1, ar_pseudonym = ''bot'', ar_alignment = ''ALIGNED'', ar_scope = ''NO_TRANSFER'',
     ar_contract = [], ar_voice_profile = None, ar_reputation = 1, ar_last_handshake = 0, ar_active = True, ar_anchor = Some [],
     ar_created = 0, ar_updated = 0\<rparr>"

definition demo_peer :: agreement_row where
  "demo_peer = \<lparr>ag_id = 1, ag_server = 1, ag_remote = 7, ag_alignment = ''ALIGNED'', ag_scope = ''NO_TRANSFER'', ag_report = [],
     ag_handshake = Some [], ag_active = True, ag_created = 0, ag_updated = 0\<rparr>"

definition demo_policy_db :: db where
  "demo_policy_db = (migrated_db 0)\<lparr>agent_registrations := \<lparr>auto_rows = [demo_agent], auto_seq = 1\<rparr>,
     federation_agreements := \<lparr>auto_rows = [demo_peer], auto_seq = 1\<rparr>,
     instances := [\<lparr>in_id = 7, in_base_url = ''http://b'', in_public_key = [], in_label = [], in_status = ''ACTIVE''\<rparr>]\<rparr>"

lemma demo_policy_tables [simp]:
  "agent_rows demo_policy_db = [demo_agent]" "agreement_rows demo_policy_db = [demo_peer]"
  "auto_seq (federation_agreements demo_policy_db) = 1"
  "instances demo_policy_db = [\<lparr>in_id = 7, in_base_url = ''http://b'', in_public_key = [], in_label = [], in_status = ''ACTIVE''\<rparr>]"
  by (simp_all add: demo_policy_db_def)

lemma demo_policy_anchor:
  "to_anchor_snapshot demo_crypto (Some 7) (from_policy default_policy) = Inr (demo_anchor [] [])"
  by (simp add: to_anchor_snapshot_def from_policy_def default_policy_def demo_anchor)

lemma voice_not_offered: "''voice'' \<notin> set (policy_offered pol)"
  by (simp add: policy_offered_def)

lemma demo_agent_conflicts:
  "alignment_status (evaluate_agent U a pol \<lparr>anchor_snapshot = b, capability_contract = demo_contract [''voice''] []\<rparr>) = VrpAlignmentStatus.Conflict"
  using voice_not_offered by (rule unoffered_requirement_conflicts(2) [rotated]) (simp add: demo_contract_def)

lemma demo_agent_updates:
  "\<exists>u. agent_updates U demo_vrp_json a pol demo_policy_db 1 = Inr [u] \<and> au_pseudonym u = ''bot'' \<and> \<not> au_active u"
  by (simp add: agent_updates_def active_agents_def demo_agent_def agent_update_of_def agent_handshake_of_def demo_vrp_json_def
      demo_agent_conflicts report_changes_def Let_def)

lemma demo_agents_unique: "agents_unique demo_policy_db"
  by (simp add: agents_unique_def)

abbreviation demo_agents_pass :: "db \<Rightarrow> (ApiError + string list) \<times> db \<times> sent" where
  "demo_agents_pass d \<equiv> recalculate_agent_alignments demo_crypto demo_unicode demo_vrp_json (\<lambda>_. Some []) (Some 7) no_faults 5
     (Some default_policy) 1 d"

lemma agents_pass_total:
  assumes "agent_updates U V a pol d s = Inr us" and "to_anchor_snapshot C clock (from_policy pol) = Inr a"
  shows "\<exists>gone d' out. recalculate_agent_alignments C U V (\<lambda>_. Some []) clock no_faults now (Some pol) s d = (Inr gone, d', out)"
proof -
  obtain d' out where "apply_agent_updates (\<lambda>_. Some []) (\<lambda>i. no_faults (4 + i)) now s 0 us d nothing_sent = (Inr (), d', out)"
    using apply_agents_total [of "\<lambda>i. no_faults (4 + i)" "\<lambda>_. Some []" now s 0 us d nothing_sent]
    by (auto simp: no_faults_def)
  then show ?thesis using assms by (simp add: recalculate_agent_alignments_def db_call_def no_faults_def)
qed

theorem agents_reevaluated_witness:
  "\<exists>d' out. demo_agents_pass demo_policy_db = (Inr [''bot''], d', out) \<and> presence_sent out = [NodeUpdated ''bot'' False]"
proof -
  obtain u where "agent_updates demo_unicode demo_vrp_json (demo_anchor [] []) default_policy demo_policy_db 1 = Inr [u]"
    using demo_agent_updates by blast
  from agents_pass_total [OF this demo_policy_anchor] obtain gone d' out where
    r: "demo_agents_pass demo_policy_db = (Inr gone, d', out)" by blast
  have c: "\<not> ar_active (reevaluated demo_unicode demo_vrp_json a default_policy 5 1 demo_agent)"
    "ar_active demo_agent" "ar_pseudonym demo_agent = ''bot''" for a
    by (simp_all add: reevaluated_def demo_agent_def demo_vrp_json_def demo_agent_conflicts Let_def)
  then have n: "reevaluated demo_unicode demo_vrp_json a default_policy 5 1 demo_agent \<noteq> demo_agent" for a
    by (metis (full_types))
  from agents_reevaluated [OF demo_agents_unique r] have "gone = [''bot''] \<and> presence_sent out = [NodeUpdated ''bot'' False]"
    using c n by auto
  with r show ?thesis by blast
qed

theorem reevaluation_idempotent_witness:
  "\<exists>d1 d2 out out'. demo_agents_pass demo_policy_db = (Inr [''bot''], d1, out) \<and> demo_agents_pass d1 = (Inr [], d2, out')
     \<and> presence_sent out' = []"
proof -
  obtain u where u: "agent_updates demo_unicode demo_vrp_json (demo_anchor [] []) default_policy demo_policy_db 1 = Inr [u]"
    "au_pseudonym u = ''bot''" "\<not> au_active u"
    using demo_agent_updates by blast
  from agents_pass_total [OF u(1) demo_policy_anchor] obtain gone d1 out where
    r: "demo_agents_pass demo_policy_db = (Inr gone, d1, out)" by blast
  have g: "gone = [''bot'']"
    by (rule recalculate_agents_ok [OF r]) (use u demo_policy_anchor in auto)
  have rows: "\<exists>x. agent_rows d1 = [x] \<and> \<not> ar_active x"
    by (rule recalculate_agents_ok [OF r])
      (use u demo_policy_anchor apply_agents_ok in \<open>fastforce simp: update_where_def agent_key_def demo_agent_def write_agent_row_def\<close>)
  then have "agent_updates demo_unicode demo_vrp_json (demo_anchor [] []) default_policy d1 1 = Inr []"
    by (auto simp: agent_updates_def active_agents_def)
  from agents_pass_total [OF this demo_policy_anchor] obtain gone' d2 out' where
    r': "demo_agents_pass d1 = (Inr gone', d2, out')" by blast
  from reevaluation_idempotent [OF demo_agents_unique r r'] g r r' show ?thesis by blast
qed

theorem rolled_back_pass_is_announced_witness:
  "\<exists>out. recalculate_agent_alignments demo_crypto demo_unicode demo_vrp_json (\<lambda>_. Some []) (Some 7) (\<lambda>n. n = 3) 5
       (Some default_policy) 1 demo_policy_db = (Inl InternalServerError, demo_policy_db, out)
     \<and> presence_sent out = [NodeUpdated ''bot'' False] \<and> length (observe_sent out) = 1"
proof -
  obtain u where u: "agent_updates demo_unicode demo_vrp_json (demo_anchor [] []) default_policy demo_policy_db 1 = Inr [u]"
    "au_pseudonym u = ''bot''" "\<not> au_active u"
    using demo_agent_updates by blast
  then show ?thesis
    using rolled_back_pass_is_announced [OF demo_policy_anchor u(1), of "\<lambda>_. Some []" 5] by simp
qed

lemma demo_agreements_ok: "agreements_ok demo_fed_json demo_policy_db"
proof -
  have "agreement_readable demo_fed_json demo_peer"
    unfolding agreement_readable_def
    by (intro exI [of _ "\<lparr>alignment_status = VrpAlignmentStatus.Aligned, transfer_scope = VrpTransferScope.NoTransfer,
        alignment_score = 1, negotiation_notes = []\<rparr>"] exI [of _ "Some undefined"]) (simp add: demo_peer_def demo_fed_json_def)
  then show ?thesis by (simp add: agreements_ok_def auto_wf_def) (simp add: demo_peer_def)
qed

theorem capability_names_sever_witness:
  "\<exists>affected d' out. recalculate_federation_agreements demo_crypto demo_unicode demo_fed_json (\<lambda>_. Some []) (Some 7) no_faults 5
       (Some default_policy) 1 demo_policy_db = (Inr affected, d', out)
     \<and> (''http://b'', 7) \<in> set affected \<and> agreements_ok demo_fed_json d'"
proof -
  let ?run = "recalculate_federation_agreements demo_crypto demo_unicode demo_fed_json (\<lambda>_. Some []) (Some 7) no_faults 5
       (Some default_policy) 1 demo_policy_db"
  have "\<exists>us. peer_updates demo_unicode demo_fed_json (demo_anchor [] []) default_policy demo_policy_db = Inr us \<and> length us \<le> 1"
    by (simp add: peer_updates_def active_peers_def peer_update_of_def demo_peer_def demo_fed_json_def Let_def)
  then obtain us where us: "peer_updates demo_unicode demo_fed_json (demo_anchor [] []) default_policy demo_policy_db = Inr us"
    "length us \<le> 1" by blast
  have "\<exists>affected d' out. ?run = (Inr affected, d', out)"
    using us by (cases us) (auto simp: recalculate_federation_agreements_def demo_policy_anchor db_call_def no_faults_def split: prod.split)
  then obtain affected d' out where r: "?run = (Inr affected, d', out)" by blast
  have i: "distinct (map in_id (instances demo_policy_db))" by simp
  from capability_names_sever [OF demo_agreements_ok i r, of demo_peer "[]" _ "''voice''"] r
  show ?thesis by (simp add: demo_peer_def demo_fed_json_def demo_contract_def)
qed

end
