(* ===== verification/Annex_Agents.thy ===== *)
theory Annex_Agents
  imports Annex_Policy Annex_Reputation Annex_Graph Annex_Platform Annex_Netstring
begin

text \<open>
  \<open>annex-server/src/api_vrp.rs\<close> and \<open>api_agent.rs\<close>: the handshake by which an agent registers
  with the server, the profile it can then be inspected by, and the assignment of a voice
  profile. As in \<open>Annex_Policy\<close>, a handler also returns what it sent to the observers.
\<close>

section \<open>The agent handshake (api\_vrp.rs)\<close>

record AgentHandshakeRequest =
  ah_pseudonym_id :: string
  ah_handshake :: VrpFederationHandshake

definition is_agent :: "int \<Rightarrow> string \<Rightarrow> agent_row \<Rightarrow> bool" where
  "is_agent s p r \<longleftrightarrow> ar_server r = s \<and> ar_pseudonym r = p"

text \<open>The row that the insertion writes, or its update on conflict.\<close>

definition registered_row :: "vrp_json \<Rightarrow> time \<Rightarrow> int \<Rightarrow> AgentHandshakeRequest \<Rightarrow> VrpValidationReport \<Rightarrow> rat \<Rightarrow> int \<Rightarrow> agent_row" where
  "registered_row V now s req report score i = \<lparr>ar_id = i, ar_server = s, ar_pseudonym = ah_pseudonym_id req,
     ar_alignment = status_to_string (alignment_status report), ar_scope = scope_to_string (transfer_scope report),
     ar_contract = sharing_to_json V (capability_contract (ah_handshake req)), ar_voice_profile = None,
     ar_reputation = score, ar_last_handshake = now, ar_active = True,
     ar_anchor = Some (anchor_to_json V (anchor_snapshot (ah_handshake req))), ar_created = now, ar_updated = now\<rparr>"

definition upsert_agent :: "vrp_json \<Rightarrow> time \<Rightarrow> int \<Rightarrow> AgentHandshakeRequest \<Rightarrow> VrpValidationReport \<Rightarrow> rat \<Rightarrow> db \<Rightarrow> db" where
  "upsert_agent V now s req report score d =
     d\<lparr>agent_registrations :=
         (if exists_where (is_agent s (ah_pseudonym_id req)) (agent_rows d)
          then auto_update (is_agent s (ah_pseudonym_id req))
                 (\<lambda>r. (registered_row V now s req report score (ar_id r))
                        \<lparr>ar_voice_profile := ar_voice_profile r, ar_created := ar_created r\<rparr>) (agent_registrations d)
          else auto_insert (registered_row V now s req report score) (agent_registrations d))\<rparr>"

text \<open>A failed activity update is only logged; its presence event is sent inside the transaction.\<close>

definition reactivate_agent_node ::
  "(EventPayload \<Rightarrow> string option) \<Rightarrow> faults \<Rightarrow> time \<Rightarrow> int \<Rightarrow> string \<Rightarrow> db \<Rightarrow> db \<times> sent" where
  "reactivate_agent_node js flt now s p d =
     (if flt 0 then (d, nothing_sent)
      else let (woken, d1) = update_node_activity now d s p in
        if woken
        then let (d2, event) = emit_and_broadcast js (\<lambda>i. flt (1 + i)) now d1 s p (NodeReactivated p)
             in (d2, send_both (NodeUpdated p True) event nothing_sent)
        else (d1, nothing_sent))"

definition observed :: "PublicEvent option \<Rightarrow> sent \<Rightarrow> sent" where
  "observed oe out = out\<lparr>observe_sent := observe_sent out @ (case oe of Some e \<Rightarrow> [e] | None \<Rightarrow> [])\<rparr>"

definition conflict_reason :: string where
  "conflict_reason = ''VRP handshake resulted in Conflict alignment''"

definition accept_agent ::
  "vrp_json \<Rightarrow> (EventPayload \<Rightarrow> string option) \<Rightarrow> faults \<Rightarrow> time \<Rightarrow> int \<Rightarrow> AgentHandshakeRequest \<Rightarrow> VrpValidationReport \<Rightarrow> rat
     \<Rightarrow> db \<Rightarrow> (ApiError + db) \<times> sent" where
  "accept_agent V js flt now s req report score d =
     (let p = ah_pseudonym_id req;
          (d1, out) = reactivate_agent_node js (\<lambda>i. flt (3 + i)) now s p d in
      case and_then (db_call flt 0) (\<lambda>_. db_call flt 1) of
        Inl e \<Rightarrow> (Inl e, out)
      | Inr _ \<Rightarrow>
          let (d2, event) = emit_and_broadcast js (\<lambda>i. flt (5 + i)) now (upsert_agent V now s req report score d1) s p
                              (AgentConnected p (status_to_string (alignment_status report)))
          in (Inr d2, observed event out))"

text \<open>A known agent that is refused is stored with the status text \<open>Conflict\<close>.\<close>

definition refuse_row :: "time \<Rightarrow> agent_row \<Rightarrow> agent_row" where
  "refuse_row now r = r\<lparr>ar_alignment := ''Conflict'', ar_scope := ''NO_TRANSFER'', ar_active := False, ar_updated := now\<rparr>"

definition refuse_agent ::
  "(EventPayload \<Rightarrow> string option) \<Rightarrow> faults \<Rightarrow> time \<Rightarrow> int \<Rightarrow> string \<Rightarrow> db \<Rightarrow> (ApiError + db) \<times> sent" where
  "refuse_agent js flt now s p d =
     (case and_then (db_call flt 0) (\<lambda>_. db_call flt 1) of
        Inl e \<Rightarrow> (Inl e, nothing_sent)
      | Inr _ \<Rightarrow>
          let updated = count_where (is_agent s p) (agent_rows d);
              d1 = d\<lparr>agent_registrations := auto_update (is_agent s p) (refuse_row now) (agent_registrations d)\<rparr>
          in if 0 < updated
             then let (d2, event) = emit_and_broadcast js (\<lambda>i. flt (5 + i)) now d1 s p (AgentDisconnected p conflict_reason)
                  in (Inr d2, observed event nothing_sent)
             else (Inr d1, nothing_sent))"

text \<open>
  \<open>flt 0\<close> to \<open>flt 3\<close>: the connection, the transaction, the log entry and the reputation query.
  An error inside the transaction rolls it back.
\<close>

definition agent_handshake_handler ::
  "'f crypto \<Rightarrow> unicode \<Rightarrow> vrp_json \<Rightarrow> (VrpValidationReport \<Rightarrow> string) \<Rightarrow> (EventPayload \<Rightarrow> string option) \<Rightarrow> u64 option \<Rightarrow> faults
     \<Rightarrow> time \<Rightarrow> ServerPolicy option \<Rightarrow> int \<Rightarrow> db \<Rightarrow> AgentHandshakeRequest \<Rightarrow> (ApiError + VrpValidationReport) \<times> db \<times> sent" where
  "agent_handshake_handler C U V report_json js clock flt now policy s d req =
     (case and_then (db_call flt 0) (\<lambda>_.
           and_then (ok_or policy InternalServerError) (\<lambda>pol.
           and_then (map_err (\<lambda>_. InternalServerError) (to_anchor_snapshot C clock (from_policy pol))) (\<lambda>local_anchor.
             Inr (evaluate_agent U local_anchor pol (ah_handshake req))))) of
        Inl e \<Rightarrow> (Inl e, d, nothing_sent)
      | Inr report \<Rightarrow>
          (case and_then (and_then (db_call flt 1) (\<lambda>_. db_call flt 2)) (\<lambda>_.
                and_then (map_err (\<lambda>_. InternalServerError)
                  (fst (record_vrp_outcome report_json now d s (ah_pseudonym_id req) ''AI_AGENT'' report))) (\<lambda>_.
                and_then (db_call flt 3) (\<lambda>_.
                  Inr (snd (record_vrp_outcome report_json now d s (ah_pseudonym_id req) ''AI_AGENT'' report))))) of
             Inl e \<Rightarrow> (Inl e, d, nothing_sent)
           | Inr d1 \<Rightarrow>
               let score = check_reputation_score d1 s (ah_pseudonym_id req);
                   (res, out) =
                     (if alignment_status report = VrpAlignmentStatus.Aligned \<or> alignment_status report = VrpAlignmentStatus.Partial
                      then accept_agent V js (\<lambda>i. flt (4 + i)) now s req report score d1
                      else refuse_agent js (\<lambda>i. flt (4 + i)) now s (ah_pseudonym_id req) d1)
               in (case res of Inl e \<Rightarrow> (Inl e, d, out) | Inr d2 \<Rightarrow> (Inr report, d2, out))))"

section \<open>Profiles (api\_agent.rs)\<close>

record AgentProfileResponse =
  ap_pseudonym_id :: string
  ap_alignment_status :: VrpAlignmentStatus
  ap_transfer_scope :: VrpTransferScope
  ap_capability_contract :: VrpCapabilitySharingContract
  ap_reputation_score :: rat

definition stored_alignment :: "string \<Rightarrow> ApiError + VrpAlignmentStatus" where
  "stored_alignment t =
     (if t = ''ALIGNED'' then Inr VrpAlignmentStatus.Aligned
      else if t = ''PARTIAL'' then Inr VrpAlignmentStatus.Partial
      else if t = ''CONFLICT'' then Inr VrpAlignmentStatus.Conflict
      else Inl InternalServerError)"

definition stored_scope :: "string \<Rightarrow> ApiError + VrpTransferScope" where
  "stored_scope t =
     (if t = ''NO_TRANSFER'' then Inr VrpTransferScope.NoTransfer
      else if t = ''REFLECTION_SUMMARIES_ONLY'' then Inr VrpTransferScope.ReflectionSummariesOnly
      else if t = ''FULL_KNOWLEDGE_BUNDLE'' then Inr VrpTransferScope.FullKnowledgeBundle
      else Inl InternalServerError)"

definition get_agent_profile_handler ::
  "vrp_json \<Rightarrow> faults \<Rightarrow> int \<Rightarrow> db \<Rightarrow> string \<Rightarrow> ApiError + AgentProfileResponse" where
  "get_agent_profile_handler V flt s d p =
     and_then (db_call flt 0) (\<lambda>_. and_then (db_call flt 1) (\<lambda>_.
       case first_where (is_agent s p) (agent_rows d) of
         None \<Rightarrow> Inl (NotFound (''agent not found: '' @ p))
       | Some r \<Rightarrow>
           and_then (stored_alignment (ar_alignment r)) (\<lambda>alignment.
           and_then (stored_scope (ar_scope r)) (\<lambda>scope.
           and_then (ok_or (sharing_from_json V (ar_contract r)) InternalServerError) (\<lambda>contract.
             Inr \<lparr>ap_pseudonym_id = p, ap_alignment_status = alignment, ap_transfer_scope = scope,
                  ap_capability_contract = contract, ap_reputation_score = ar_reputation r\<rparr>)))))"

text \<open>A row of the table \<open>voice_profiles\<close>, as far as the assignment reads it.\<close>

record voice_profile_row =
  vr_id :: int
  vr_server :: int
  vr_profile :: string

definition resolve_voice_profile :: "voice_profile_row list \<Rightarrow> int \<Rightarrow> string option \<Rightarrow> ApiError + int option" where
  "resolve_voice_profile voices s requested =
     (case requested of
        None \<Rightarrow> Inr None
      | Some profile \<Rightarrow>
          (case first_where (\<lambda>v. vr_server v = s \<and> vr_profile v = profile) voices of
             Some v \<Rightarrow> Inr (Some (vr_id v))
           | None \<Rightarrow> Inl (BadRequest (''voice profile not found: '' @ profile))))"

definition update_agent_voice_profile_handler ::
  "faults \<Rightarrow> voice_profile_row list \<Rightarrow> int \<Rightarrow> PlatformIdentity \<Rightarrow> db \<Rightarrow> string \<Rightarrow> string option \<Rightarrow> (ApiError + unit) \<times> db" where
  "update_agent_voice_profile_handler flt voices s identity d p requested =
     (if \<not> can_moderate (pf_capabilities identity)
      then (Inl (Forbidden ''only operators can assign voice profiles''), d)
      else case and_then (db_call flt 0) (\<lambda>_. and_then (db_call flt 1) (\<lambda>_.
             and_then (resolve_voice_profile voices s requested) (\<lambda>v. and_then (db_call flt 2) (\<lambda>_. Inr v)))) of
        Inl e \<Rightarrow> (Inl e, d)
      | Inr v \<Rightarrow>
          if count_where (is_agent s p) (agent_rows d) = 0 then (Inl (NotFound (''agent not found: '' @ p)), d)
          else (Inr (), d\<lparr>agent_registrations := auto_update (is_agent s p) (\<lambda>r. r\<lparr>ar_voice_profile := v\<rparr>) (agent_registrations d)\<rparr>))"

section \<open>What a handshake leaves behind\<close>

lemma agent_rows_kept [simp]:
  "agent_registrations (snd (update_node_activity now d s p)) = agent_registrations d"
  "agent_registrations (snd (record_vrp_outcome J now d s p ty report)) = agent_registrations d"
  by (simp_all add: update_node_activity_def record_vrp_outcome_def Let_def)

lemma stored_texts:
  "stored_alignment (status_to_string a) = Inr a" "stored_scope (scope_to_string t) = Inr t"
  by (cases a; simp add: stored_alignment_def) (cases t; simp add: stored_scope_def)

lemma emitted_agents:
  "emit_and_broadcast js flt now d s eid payload = (d', e) \<Longrightarrow> agent_registrations d' = agent_registrations d"
  using emit_frame(1) [of js flt now d s eid payload] by simp

lemma agent_rows_reactivate [simp]:
  "agent_registrations (fst (reactivate_agent_node js flt now s p d)) = agent_registrations d"
proof -
  obtain w d1 where u: "update_node_activity now d s p = (w, d1)" by (cases "update_node_activity now d s p")
  then have "agent_registrations d1 = agent_registrations d"
    using agent_rows_kept(1) [of now d s p] by simp
  then show ?thesis by (auto simp: reactivate_agent_node_def u Let_def dest: emitted_agents split: prod.split)
qed

lemma upserted_agent:
  obtains r where "first_where (is_agent s (ah_pseudonym_id req)) (agent_rows (upsert_agent V now s req report score d)) = Some r"
    and "ar_alignment r = status_to_string (alignment_status report)" and "ar_scope r = scope_to_string (transfer_scope report)"
    and "ar_contract r = sharing_to_json V (capability_contract (ah_handshake req))" and "ar_reputation r = score" and "ar_active r"
proof (cases "first_where (is_agent s (ah_pseudonym_id req)) (agent_rows d)")
  case None
  then have "\<not> exists_where (is_agent s (ah_pseudonym_id req)) (agent_rows d)"
    by (simp add: first_where_None exists_where_iff)
  with None have "first_where (is_agent s (ah_pseudonym_id req)) (agent_rows (upsert_agent V now s req report score d))
      = Some (registered_row V now s req report score (auto_seq (agent_registrations d) + 1))"
    by (simp add: upsert_agent_def) (simp add: is_agent_def registered_row_def)
  then show thesis by (rule that) (simp_all add: registered_row_def)
next
  case (Some r)
  then have e: "exists_where (is_agent s (ah_pseudonym_id req)) (agent_rows d)" and i: "is_agent s (ah_pseudonym_id req) r"
    using first_where_Some [OF Some] by (auto simp: exists_where_iff)
  from e have "first_where (is_agent s (ah_pseudonym_id req)) (agent_rows (upsert_agent V now s req report score d))
      = Some ((registered_row V now s req report score (ar_id r))\<lparr>ar_voice_profile := ar_voice_profile r, ar_created := ar_created r\<rparr>)"
    by (simp add: upsert_agent_def) (subst first_where_update_where, simp add: is_agent_def registered_row_def, simp add: Some i)
  then show thesis by (rule that) (simp_all add: registered_row_def)
qed

lemma accepted_agent:
  assumes "accept_agent V js flt now s req report score d = (Inr d', out)"
  obtains d1 where "agent_registrations d' = agent_registrations (upsert_agent V now s req report score d1)"
    and "agent_registrations d1 = agent_registrations d"
proof -
  obtain d1 o1 where r: "reactivate_agent_node js (\<lambda>i. flt (3 + i)) now s (ah_pseudonym_id req) d = (d1, o1)"
    by (cases "reactivate_agent_node js (\<lambda>i. flt (3 + i)) now s (ah_pseudonym_id req) d")
  let ?u = "upsert_agent V now s req report score d1"
  let ?e = "emit_and_broadcast js (\<lambda>i. flt (5 + i)) now ?u s (ah_pseudonym_id req)
      (AgentConnected (ah_pseudonym_id req) (status_to_string (alignment_status report)))"
  have "d' = fst ?e" using assms by (simp add: accept_agent_def r Let_def split: sum.splits prod.splits)
  then have "agent_registrations d' = agent_registrations ?u" by (simp add: emit_frame)
  moreover have "agent_registrations d1 = agent_registrations d"
    using agent_rows_reactivate [of js "\<lambda>i. flt (3 + i)" now s "ah_pseudonym_id req" d] by (simp add: r)
  ultimately show thesis by (rule that)
qed

lemma refused_agent:
  assumes "refuse_agent js flt now s p d = (Inr d', out)"
  shows "agent_rows d' = update_where (is_agent s p) (refuse_row now) (agent_rows d)"
  using assms by (auto simp: refuse_agent_def Let_def dest: emitted_agents split: sum.splits prod.splits if_splits)

lemma agent_handshake_cases:
  assumes "agent_handshake_handler C U V report_json js clock flt now policy s d req = (Inr report, d', out)"
  obtains d1 where "d1 = snd (record_vrp_outcome report_json now d s (ah_pseudonym_id req) ''AI_AGENT'' report)"
    and "alignment_status report \<noteq> VrpAlignmentStatus.Conflict \<Longrightarrow>
      accept_agent V js (\<lambda>i. flt (4 + i)) now s req report (check_reputation_score d1 s (ah_pseudonym_id req)) d1 = (Inr d', out)"
    and "alignment_status report = VrpAlignmentStatus.Conflict \<Longrightarrow>
      refuse_agent js (\<lambda>i. flt (4 + i)) now s (ah_pseudonym_id req) d1 = (Inr d', out)"
proof -
  let ?d1 = "snd (record_vrp_outcome report_json now d s (ah_pseudonym_id req) ''AI_AGENT'' report)"
  let ?res = "if alignment_status report = VrpAlignmentStatus.Aligned \<or> alignment_status report = VrpAlignmentStatus.Partial
      then accept_agent V js (\<lambda>i. flt (4 + i)) now s req report (check_reputation_score ?d1 s (ah_pseudonym_id req)) ?d1
      else refuse_agent js (\<lambda>i. flt (4 + i)) now s (ah_pseudonym_id req) ?d1"
  have "?res = (Inr d', out)"
    using assms unfolding agent_handshake_handler_def Let_def by (auto simp: res_simps split: sum.splits prod.splits)
  then show thesis by (intro that [OF refl]) (cases "alignment_status report"; simp)+
qed

text \<open>
  An accepted handshake is what the profile shows: when the handler answers with a report
  that is not a conflict, the profile of that pseudonym reads back the report's alignment and
  scope, the contract the agent sent, and the reputation over the log that already holds this
  handshake, whether the agent was known before or not (for a JSON text that parses back).
\<close>

theorem accepted_handshake_profile:
  assumes "\<And>c. sharing_from_json V (sharing_to_json V c) = Some c"
    and "agent_handshake_handler C U V report_json js clock flt now policy s d req = (Inr report, d', out)"
    and "alignment_status report \<noteq> VrpAlignmentStatus.Conflict"
  shows "get_agent_profile_handler V no_faults s d' (ah_pseudonym_id req) = Inr
    \<lparr>ap_pseudonym_id = ah_pseudonym_id req, ap_alignment_status = alignment_status report,
     ap_transfer_scope = transfer_scope report, ap_capability_contract = capability_contract (ah_handshake req),
     ap_reputation_score = check_reputation_score
       (snd (record_vrp_outcome report_json now d s (ah_pseudonym_id req) ''AI_AGENT'' report)) s (ah_pseudonym_id req)\<rparr>"
proof -
  obtain d1 where d1: "d1 = snd (record_vrp_outcome report_json now d s (ah_pseudonym_id req) ''AI_AGENT'' report)"
    and a: "accept_agent V js (\<lambda>i. flt (4 + i)) now s req report (check_reputation_score d1 s (ah_pseudonym_id req)) d1 = (Inr d', out)"
    by (rule agent_handshake_cases [OF assms(2)]) (use assms(3) in blast)
  obtain d2 where d2: "agent_registrations d' = agent_registrations
      (upsert_agent V now s req report (check_reputation_score d1 s (ah_pseudonym_id req)) d2)"
    by (rule accepted_agent [OF a])
  obtain r where r: "first_where (is_agent s (ah_pseudonym_id req)) (agent_rows d') = Some r"
    "ar_alignment r = status_to_string (alignment_status report)" "ar_scope r = scope_to_string (transfer_scope report)"
    "ar_contract r = sharing_to_json V (capability_contract (ah_handshake req))"
    "ar_reputation r = check_reputation_score d1 s (ah_pseudonym_id req)"
    unfolding d2 by (rule upserted_agent)
  show ?thesis by (simp add: get_agent_profile_handler_def r stored_texts assms(1) d1)
qed

text \<open>
  A refused handshake leaves a profile that cannot be read: a known agent is stored with an
  alignment text the profile handler does not know, so its profile is a server error from
  then on; an agent that was not known stays unknown.
\<close>

theorem refused_handshake_profile:
  assumes "agent_handshake_handler C U V report_json js clock flt now policy s d req = (Inr report, d', out)"
    and "alignment_status report = VrpAlignmentStatus.Conflict"
  shows "get_agent_profile_handler V no_faults s d' (ah_pseudonym_id req) = Inl
    (if exists_where (is_agent s (ah_pseudonym_id req)) (agent_rows d) then InternalServerError
     else NotFound (''agent not found: '' @ ah_pseudonym_id req))"
proof -
  obtain d1 where d1: "agent_registrations d1 = agent_registrations d"
    and a: "refuse_agent js (\<lambda>i. flt (4 + i)) now s (ah_pseudonym_id req) d1 = (Inr d', out)"
    by (rule agent_handshake_cases [OF assms(1)]) (use assms(2) agent_rows_kept(2) in metis)
  have rows: "agent_rows d' = update_where (is_agent s (ah_pseudonym_id req)) (refuse_row now) (agent_rows d)"
    using refused_agent [OF a] by (simp add: d1)
  have f: "first_where (is_agent s (ah_pseudonym_id req)) (agent_rows d') =
      map_option (\<lambda>r. if is_agent s (ah_pseudonym_id req) r then refuse_row now r else r)
        (first_where (is_agent s (ah_pseudonym_id req)) (agent_rows d))"
    unfolding rows by (rule first_where_update_where) (simp add: is_agent_def refuse_row_def)
  show ?thesis
  proof (cases "first_where (is_agent s (ah_pseudonym_id req)) (agent_rows d)")
    case None
    then show ?thesis by (simp add: get_agent_profile_handler_def f) (simp add: first_where_None exists_where_iff)
  next
    case (Some r)
    then have "is_agent s (ah_pseudonym_id req) r" "exists_where (is_agent s (ah_pseudonym_id req)) (agent_rows d)"
      using first_where_Some [OF Some] by (auto simp: exists_where_iff)
    then show ?thesis by (simp add: get_agent_profile_handler_def f Some refuse_row_def stored_alignment_def)
  qed
qed

section \<open>Concrete handshakes\<close>

lemma accept_agent_answers: "\<exists>d' out. accept_agent V js no_faults now s req report score d = (Inr d', out)"
  unfolding accept_agent_def Let_def by (simp add: shifted_no_faults split: prod.split)

lemma refuse_agent_answers: "\<exists>d' out. refuse_agent js no_faults now s p d = (Inr d', out)"
  unfolding refuse_agent_def Let_def by (simp add: shifted_no_faults split: prod.split)

lemma agent_handshake_answers:
  assumes "to_anchor_snapshot C clock (from_policy pol) = Inr a" and "exists_where (\<lambda>x. sv_id x = s) (servers d)"
  shows "\<exists>d' out. agent_handshake_handler C U V J js clock no_faults now (Some pol) s d req
    = (Inr (evaluate_agent U a pol (ah_handshake req)), d', out)"
proof -
  let ?report = "evaluate_agent U a pol (ah_handshake req)"
  let ?d1 = "snd (record_vrp_outcome J now d s (ah_pseudonym_id req) ''AI_AGENT'' ?report)"
  obtain d2 o2 where acc: "accept_agent V js no_faults now s req ?report (check_reputation_score ?d1 s (ah_pseudonym_id req)) ?d1 = (Inr d2, o2)"
    using accept_agent_answers by blast
  obtain d3 o3 where ref: "refuse_agent js no_faults now s (ah_pseudonym_id req) ?d1 = (Inr d3, o3)"
    using refuse_agent_answers by blast
  have "fst (record_vrp_outcome J now d s (ah_pseudonym_id req) ''AI_AGENT'' ?report) = Inr ()"
    using assms(2) by (simp add: record_vrp_outcome_def Let_def)
  then show ?thesis by (simp add: agent_handshake_handler_def assms(1) acc ref Let_def shifted_no_faults)
qed

definition netstring_vrp_json :: vrp_json where
  "netstring_vrp_json = \<lparr>anchor_to_json = (\<lambda>_. []), anchor_from_json = (\<lambda>_. None),
     sharing_to_json = enc_contract, sharing_from_json = dec_contract\<rparr>"

definition demo_agents_db :: db where
  "demo_agents_db = demo_policy_db\<lparr>servers := [\<lparr>sv_id = 1, sv_slug = ''s'', sv_label = ''S'', sv_policy_json = []\<rparr>]\<rparr>"

abbreviation demo_agent_handshake :: "string list \<Rightarrow> (ApiError + VrpValidationReport) \<times> db \<times> sent" where
  "demo_agent_handshake need \<equiv> agent_handshake_handler demo_crypto demo_unicode netstring_vrp_json (\<lambda>_. []) (\<lambda>_. Some []) (Some 7)
     no_faults 5 (Some default_policy) 1 demo_agents_db
     \<lparr>ah_pseudonym_id = ''bot'', ah_handshake = \<lparr>anchor_snapshot = demo_anchor [] [], capability_contract = demo_contract need [''x'']\<rparr>\<rparr>"

lemma demo_agent_handshake:
  "\<exists>d' out. demo_agent_handshake need = (Inr (evaluate_agent demo_unicode (demo_anchor [] []) default_policy
     \<lparr>anchor_snapshot = demo_anchor [] [], capability_contract = demo_contract need [''x'']\<rparr>), d', out)"
proof -
  have "exists_where (\<lambda>x. sv_id x = 1) (servers demo_agents_db)" by (simp add: demo_agents_db_def exists_where_iff)
  from agent_handshake_answers [OF demo_policy_anchor this, where U = demo_unicode and V = netstring_vrp_json and J = "\<lambda>_. []"
      and js = "\<lambda>_. Some []" and now = 5 and req = "\<lparr>ah_pseudonym_id = ''bot'',
        ah_handshake = \<lparr>anchor_snapshot = demo_anchor [] [], capability_contract = demo_contract need [''x'']\<rparr>\<rparr>"]
  show ?thesis by simp
qed

lemma demo_agent_aligned:
  "alignment_status (evaluate_agent U (demo_anchor [] []) default_policy
     \<lparr>anchor_snapshot = demo_anchor [] [], capability_contract = demo_contract [''TEXT''] [''x'']\<rparr>) = VrpAlignmentStatus.Aligned"
  by (simp add: evaluate_agent_def validate_fields compare_Aligned contracts_mutually_accepted_def policy_contract_def
      policy_offered_def demo_contract_def default_policy_def)

theorem accepted_handshake_profile_witness:
  "\<exists>report d' out prof. demo_agent_handshake [''TEXT''] = (Inr report, d', out) \<and>
     get_agent_profile_handler netstring_vrp_json no_faults 1 d' ''bot'' = Inr prof \<and>
     ap_alignment_status prof = VrpAlignmentStatus.Aligned \<and> ap_capability_contract prof = demo_contract [''TEXT''] [''x'']"
proof -
  obtain report d' out where h: "demo_agent_handshake [''TEXT''] = (Inr report, d', out)"
    and a: "alignment_status report = VrpAlignmentStatus.Aligned"
    using demo_agent_handshake [of "[''TEXT'']"] demo_agent_aligned by blast
  have "\<And>c. sharing_from_json netstring_vrp_json (sharing_to_json netstring_vrp_json c) = Some c"
    by (simp add: netstring_vrp_json_def)
  from accepted_handshake_profile [OF this h] a h show ?thesis by simp
qed

theorem refused_handshake_profile_witness:
  "\<exists>report d' out. demo_agent_handshake [''voice''] = (Inr report, d', out) \<and>
     get_agent_profile_handler netstring_vrp_json no_faults 1 d' ''bot'' = Inl InternalServerError"
proof -
  have c: "alignment_status (evaluate_agent demo_unicode (demo_anchor [] []) default_policy
     \<lparr>anchor_snapshot = demo_anchor [] [], capability_contract = demo_contract [''voice''] [''x'']\<rparr>) = VrpAlignmentStatus.Conflict"
    using voice_not_offered by (rule unoffered_requirement_conflicts(2) [rotated]) (simp add: demo_contract_def)
  obtain report d' out where h: "demo_agent_handshake [''voice''] = (Inr report, d', out)"
    and a: "alignment_status report = VrpAlignmentStatus.Conflict"
    using demo_agent_handshake [of "[''voice'']"] c by blast
  have "exists_where (is_agent 1 ''bot'') (agent_rows demo_agents_db)"
    by (simp add: demo_agents_db_def exists_where_iff is_agent_def demo_agent_def)
  with refused_handshake_profile [OF h a] h show ?thesis by simp
qed

end
