(* ===== verification/Annex_Voice.thy ===== *)
theory Annex_Voice
  imports Annex_Types Rust_Text Rust_Float Annex_Rtx
begin

text \<open>
  Crate \<open>annex-voice\<close>: the configuration of the LiveKit media server and its service, speech
  synthesis and transcription by external programs, and the voice client of an agent. The
  LiveKit client, the processes, the file system and the display of a float are parameters;
  where the text of an error quotes one of them, the quotation is left out.
\<close>

section \<open>Configuration (config.rs, error.rs)\<close>

datatype VoiceError =
    LiveKit
  | RoomService string
  | Config string
  | Tts string
  | Stt string
  | ProfileNotFound string

record IceServer =
  ice_urls :: "string list"
  ice_username :: string
  ice_credential :: string

definition default_token_ttl_seconds :: u64 where
  "default_token_ttl_seconds = 3600"

definition default_stun_servers :: "IceServer list" where
  "default_stun_servers =
     [\<lparr>ice_urls = [''stun:stun.l.google.com:19302'', ''stun:stun1.l.google.com:19302''],
       ice_username = [], ice_credential = []\<rparr>]"

record LiveKitConfig =
  lk_url :: string
  lk_public_url :: string
  lk_api_key :: string
  lk_api_secret :: string
  lk_token_ttl_seconds :: u64
  lk_ice_servers :: "IceServer list"

definition new_livekit_config :: "string \<Rightarrow> string \<Rightarrow> string \<Rightarrow> LiveKitConfig" where
  "new_livekit_config url key secret = \<lparr>lk_url = url, lk_public_url = [], lk_api_key = key, lk_api_secret = secret,
     lk_token_ttl_seconds = default_token_ttl_seconds, lk_ice_servers = default_stun_servers\<rparr>"

definition default_livekit_config :: LiveKitConfig where
  "default_livekit_config = new_livekit_config ''ws://localhost:7880'' ''devkey'' ''secret''"

section \<open>The service (service.rs)\<close>

record token_claims =
  tc_identity :: string
  tc_name :: string
  tc_room :: string
  tc_room_join :: bool
  tc_can_publish :: bool
  tc_can_subscribe :: bool
  tc_can_publish_data :: bool
  tc_ttl :: u64

text \<open>
  The calls of the LiveKit library: each gets the key and the secret; the room calls get the
  server's URL as well. A list of participants is given by its length.
\<close>

record livekit =
  lk_to_jwt :: "string \<Rightarrow> string \<Rightarrow> token_claims \<Rightarrow> string option"
  lk_create_room :: "string \<Rightarrow> string \<Rightarrow> string \<Rightarrow> string \<Rightarrow> bool"
  lk_remove_participant :: "string \<Rightarrow> string \<Rightarrow> string \<Rightarrow> string \<Rightarrow> string \<Rightarrow> bool"
  lk_list_participants :: "string \<Rightarrow> string \<Rightarrow> string \<Rightarrow> string \<Rightarrow> nat option"
  lk_send_data :: "string \<Rightarrow> string \<Rightarrow> string \<Rightarrow> string \<Rightarrow> bytes \<Rightarrow> bool"
  lk_http_client :: bool

definition voice_is_enabled :: "LiveKitConfig \<Rightarrow> bool" where
  "voice_is_enabled cfg \<longleftrightarrow> lk_url cfg \<noteq> []"

definition get_public_url :: "LiveKitConfig \<Rightarrow> string" where
  "get_public_url cfg = (if lk_public_url cfg = [] then lk_url cfg else lk_public_url cfg)"

definition create_room :: "livekit \<Rightarrow> LiveKitConfig \<Rightarrow> string \<Rightarrow> VoiceError + unit" where
  "create_room L cfg name =
     (if lk_create_room L (lk_url cfg) (lk_api_key cfg) (lk_api_secret cfg) name then Inr () else Inl (RoomService []))"

definition generate_join_token :: "livekit \<Rightarrow> LiveKitConfig \<Rightarrow> string \<Rightarrow> string \<Rightarrow> string \<Rightarrow> VoiceError + string" where
  "generate_join_token L cfg room_name participant_identity participant_name =
     ok_or (lk_to_jwt L (lk_api_key cfg) (lk_api_secret cfg)
       \<lparr>tc_identity = participant_identity, tc_name = participant_name, tc_room = room_name, tc_room_join = True,
        tc_can_publish = True, tc_can_subscribe = True, tc_can_publish_data = True,
        tc_ttl = lk_token_ttl_seconds cfg\<rparr>) LiveKit"

definition remove_participant :: "livekit \<Rightarrow> LiveKitConfig \<Rightarrow> string \<Rightarrow> string \<Rightarrow> VoiceError + unit" where
  "remove_participant L cfg room who =
     (if lk_remove_participant L (lk_url cfg) (lk_api_key cfg) (lk_api_secret cfg) room who then Inr () else Inl (RoomService []))"

definition participant_count :: "livekit \<Rightarrow> LiveKitConfig \<Rightarrow> string \<Rightarrow> VoiceError + u32" where
  "participant_count L cfg room_name =
     (case lk_list_participants L (lk_url cfg) (lk_api_key cfg) (lk_api_secret cfg) room_name of
        Some n \<Rightarrow> Inr (of_nat n)
      | None \<Rightarrow> Inr 0)"

section \<open>Processes and paths\<close>

record command =
  cmd_program :: string
  cmd_args :: "string list"
  cmd_stdin :: "bytes option"

datatype process_outcome = SpawnFailed | TimedOut | WaitFailed | Exited bool bytes bytes

record voice_os =
  os_exists :: "string \<Rightarrow> bool"
  os_run :: "command \<Rightarrow> process_outcome"
  os_stdin_written :: "command \<Rightarrow> bool"
  os_utf8_lossy :: "bytes \<Rightarrow> string"
  os_debug_path :: "string \<Rightarrow> string"
  os_show_f32 :: "rat \<Rightarrow> string"

definition is_absolute :: "string \<Rightarrow> bool" where
  "is_absolute p \<longleftrightarrow> starts_with p ''/''"

text \<open>\<open>PathBuf::join\<close> on Unix.\<close>

definition path_join :: "string \<Rightarrow> string \<Rightarrow> string" where
  "path_join dir p =
     (if is_absolute p then p
      else if dir = [] \<or> last dir = CHR ''/'' then dir @ p else dir @ ''/'' @ p)"

section \<open>Speech synthesis (tts.rs)\<close>

definition max_tts_input_bytes :: nat where "max_tts_input_bytes = 64 * 1024"

record TtsService =
  tts_profiles :: "string \<rightharpoonup> VoiceProfile"
  tts_voices_dir :: string
  tts_piper_binary :: string
  tts_bark_binary :: string

definition new_tts :: "string \<Rightarrow> string \<Rightarrow> string \<Rightarrow> TtsService" where
  "new_tts voices_dir piper_binary bark_binary =
     \<lparr>tts_profiles = Map.empty, tts_voices_dir = voices_dir, tts_piper_binary = piper_binary, tts_bark_binary = bark_binary\<rparr>"

definition add_profile :: "VoiceProfile \<Rightarrow> TtsService \<Rightarrow> TtsService" where
  "add_profile profile t = t\<lparr>tts_profiles := (tts_profiles t)(vp_id profile \<mapsto> profile)\<rparr>"

definition get_profile :: "TtsService \<Rightarrow> string \<Rightarrow> VoiceProfile option" where
  "get_profile t i = tts_profiles t i"

definition too_long :: "string \<Rightarrow> VoiceError" where
  "too_long text = Tts (''text exceeds maximum size: '' @ decimal (length text) @ '' bytes (limit: ''
     @ decimal max_tts_input_bytes @ '' bytes)'')"

definition resolve_path :: "TtsService \<Rightarrow> string \<Rightarrow> string" where
  "resolve_path t p = (if is_absolute p then p else path_join (tts_voices_dir t) p)"

definition piper_command :: "voice_os \<Rightarrow> TtsService \<Rightarrow> string \<Rightarrow> VoiceProfile \<Rightarrow> VoiceError + command" where
  "piper_command S t text profile =
     (let model_path = resolve_path t (vp_model_path profile) in
      if length text > max_tts_input_bytes then Inl (too_long text)
      else if \<not> os_exists S model_path then Inl (Tts (''Model file not found: '' @ os_debug_path S model_path))
      else if vp_speed profile < f32 (1/10) \<or> 10 < vp_speed profile
        then Inl (Config ''Speed must be between 0.1 and 10.0'')
      else Inr \<lparr>cmd_program = tts_piper_binary t,
          cmd_args = [''--model'', model_path, ''--output_raw'', ''--length_scale'', os_show_f32 S (f32 (1 / vp_speed profile))]
            @ (case vp_config_path profile of Some c \<Rightarrow> [''--config'', resolve_path t c] | None \<Rightarrow> [])
            @ (case vp_speaker_id profile of Some n \<Rightarrow> [''--speaker'', decimal (unat n)] | None \<Rightarrow> []),
          cmd_stdin = Some text\<rparr>)"

definition bark_command :: "voice_os \<Rightarrow> TtsService \<Rightarrow> string \<Rightarrow> VoiceError + command" where
  "bark_command S t text =
     (if length text > max_tts_input_bytes then Inl (too_long text)
      else if tts_bark_binary t = [] then Inl (Tts (''Bark TTS binary path is not configured. ''
        @ ''Set bark_binary_path in config or ANNEX_BARK_BINARY_PATH environment variable.''))
      else if \<not> os_exists S (tts_bark_binary t)
        then Inl (Tts (''Bark TTS binary not found: '' @ os_debug_path S (tts_bark_binary t)))
      else Inr \<lparr>cmd_program = tts_bark_binary t, cmd_args = [''--text'', text, ''--output_raw''], cmd_stdin = None\<rparr>)"

definition system_command :: "string \<Rightarrow> VoiceError + command" where
  "system_command text =
     (if length text > max_tts_input_bytes then Inl (too_long text)
      else Inr \<lparr>cmd_program = ''espeak-ng'', cmd_args = [''--stdout'', text], cmd_stdin = None\<rparr>)"

text \<open>The standard input is written beside the running process and checked after it has ended.\<close>

definition run_tts :: "voice_os \<Rightarrow> string \<Rightarrow> command \<Rightarrow> VoiceError + bytes" where
  "run_tts S engine c =
     (case os_run S c of
        SpawnFailed \<Rightarrow> Inl (Tts (''Failed to spawn '' @ engine @ '': ''))
      | TimedOut \<Rightarrow> Inl (Tts ''TTS process timed out after 60 seconds'')
      | WaitFailed \<Rightarrow> Inl (Tts (''Failed to wait for '' @ engine @ '': ''))
      | Exited ok out err \<Rightarrow>
          if cmd_stdin c \<noteq> None \<and> \<not> os_stdin_written S c then Inl (Tts (''Failed to write to '' @ engine @ '' stdin: ''))
          else if ok then Inr out
          else Inl (Tts ((if engine = ''piper'' then ''Piper'' else if engine = ''bark'' then ''Bark'' else engine)
                 @ '' failed: '' @ os_utf8_lossy S err)))"

definition synthesize_piper :: "voice_os \<Rightarrow> TtsService \<Rightarrow> string \<Rightarrow> VoiceProfile \<Rightarrow> VoiceError + bytes" where
  "synthesize_piper S t text profile = and_then (piper_command S t text profile) (run_tts S ''piper'')"

definition synthesize_bark :: "voice_os \<Rightarrow> TtsService \<Rightarrow> string \<Rightarrow> VoiceError + bytes" where
  "synthesize_bark S t text = and_then (bark_command S t text) (run_tts S ''bark'')"

text \<open>The 44 bytes of the WAV header are dropped.\<close>

definition synthesize_system :: "voice_os \<Rightarrow> string \<Rightarrow> VoiceError + bytes" where
  "synthesize_system S text =
     and_then (system_command text) (\<lambda>c. and_then (run_tts S ''espeak-ng'' c) (\<lambda>wav_data.
       Inr (if length wav_data > 44 then drop 44 wav_data else wav_data)))"

definition synthesize :: "voice_os \<Rightarrow> TtsService \<Rightarrow> string \<Rightarrow> string \<Rightarrow> VoiceError + bytes" where
  "synthesize S t text profile_id =
     (case get_profile t profile_id of
        None \<Rightarrow> Inl (ProfileNotFound profile_id)
      | Some profile \<Rightarrow>
          (case vp_model profile of
             Piper \<Rightarrow> synthesize_piper S t text profile
           | Bark \<Rightarrow> synthesize_bark S t text
           | System \<Rightarrow> synthesize_system S text))"

section \<open>Transcription (stt.rs)\<close>

definition max_stt_input_bytes :: nat where "max_stt_input_bytes = 10 * 1024 * 1024"

record SttService =
  stt_model_path :: string
  stt_binary_path :: string

definition stt_command :: "SttService \<Rightarrow> bytes \<Rightarrow> VoiceError + command" where
  "stt_command t audio_data =
     (if length audio_data > max_stt_input_bytes
      then Inl (Stt (''audio data exceeds maximum size: '' @ decimal (length audio_data) @ '' bytes (limit: ''
        @ decimal max_stt_input_bytes @ '' bytes)''))
      else Inr \<lparr>cmd_program = stt_binary_path t, cmd_args = [''-m'', stt_model_path t, ''-f'', ''-''], cmd_stdin = Some audio_data\<rparr>)"

text \<open>Here the input is written first, and a failure is returned before the process is waited for.\<close>

definition run_stt :: "voice_os \<Rightarrow> command \<Rightarrow> VoiceError + string" where
  "run_stt S c =
     (case os_run S c of
        SpawnFailed \<Rightarrow> Inl (Stt ''Failed to spawn STT binary: '')
      | r \<Rightarrow>
          if \<not> os_stdin_written S c then Inl (Stt ''Failed to write to stdin: '')
          else (case r of
             SpawnFailed \<Rightarrow> Inl (Stt ''Failed to spawn STT binary: '')
           | TimedOut \<Rightarrow> Inl (Stt ''STT process timed out after 120 seconds'')
           | WaitFailed \<Rightarrow> Inl (Stt ''Failed to read stdout: '')
           | Exited ok out err \<Rightarrow>
               if ok then Inr (trim (os_utf8_lossy S out))
               else Inl (Stt (''STT binary failed: '' @ os_utf8_lossy S err))))"

definition transcribe :: "voice_os \<Rightarrow> SttService \<Rightarrow> bytes \<Rightarrow> VoiceError + string" where
  "transcribe S t audio_data = and_then (stt_command t audio_data) (run_stt S)"

section \<open>The voice client of an agent (agent.rs)\<close>

record TranscriptionEvent =
  te_channel_id :: string
  te_speaker_pseudonym :: string
  te_text :: string

record AgentVoiceClient =
  av_room_url :: string
  av_token :: string
  av_room_name :: string
  av_connected :: bool
  av_stt :: SttService
  av_api_key :: string
  av_api_secret :: string

text \<open>The address of the health check, whose answer is only logged.\<close>

definition health_url :: "string \<Rightarrow> string" where
  "health_url url = replace_all ''wss://'' ''https://'' (replace_all ''ws://'' ''http://'' url)"

definition connect ::
  "livekit \<Rightarrow> string \<Rightarrow> string \<Rightarrow> string \<Rightarrow> SttService \<Rightarrow> string \<Rightarrow> string \<Rightarrow> VoiceError + AgentVoiceClient" where
  "connect L url token room_name stt key secret =
     (if \<not> lk_http_client L then Inl (RoomService ''failed to build HTTP client: '')
      else Inr \<lparr>av_room_url = url, av_token = token, av_room_name = room_name, av_connected = True, av_stt = stt,
             av_api_key = key, av_api_secret = secret\<rparr>)"

definition publish_audio :: "livekit \<Rightarrow> AgentVoiceClient \<Rightarrow> bytes \<Rightarrow> VoiceError + unit" where
  "publish_audio L c pcm_data =
     (if \<not> av_connected c then Inl (RoomService ''Agent is not connected to a room'')
      else if lk_send_data L (av_room_url c) (av_api_key c) (av_api_secret c) (av_room_name c) pcm_data then Inr ()
      else Inl (RoomService ''failed to publish audio data: ''))"

definition disconnect :: "AgentVoiceClient \<Rightarrow> AgentVoiceClient" where
  "disconnect c = (if av_connected c then c\<lparr>av_connected := False\<rparr> else c)"

text \<open>The event that is broadcast to the subscribers.\<close>

definition process_incoming_audio :: "voice_os \<Rightarrow> AgentVoiceClient \<Rightarrow> bytes \<Rightarrow> string \<Rightarrow> VoiceError + TranscriptionEvent" where
  "process_incoming_audio S c audio speaker =
     (if \<not> av_connected c then Inl (RoomService ''Agent is not connected to a room'')
      else and_then (transcribe S (av_stt c) audio) (\<lambda>text.
        Inr \<lparr>te_channel_id = av_room_name c, te_speaker_pseudonym = speaker, te_text = text\<rparr>))"

section \<open>Which process is run\<close>

text \<open>The command that a synthesis runs, if it comes that far.\<close>

definition synthesis_command :: "voice_os \<Rightarrow> TtsService \<Rightarrow> string \<Rightarrow> string \<Rightarrow> command option" where
  "synthesis_command S t text profile_id =
     (case get_profile t profile_id of
        None \<Rightarrow> None
      | Some profile \<Rightarrow>
          (case (case vp_model profile of
                   Piper \<Rightarrow> piper_command S t text profile
                 | Bark \<Rightarrow> bark_command S t text
                 | System \<Rightarrow> system_command text) of
             Inr c \<Rightarrow> Some c
           | Inl _ \<Rightarrow> None))"

lemma run_tts_cong: "os_run S c = os_run S' c \<Longrightarrow> os_stdin_written S c = os_stdin_written S' c \<Longrightarrow>
    os_utf8_lossy S = os_utf8_lossy S' \<Longrightarrow> run_tts S e c = run_tts S' e c"
  by (simp add: run_tts_def split: process_outcome.split)

text \<open>
  What a synthesis asks of the system: the result depends on no process but the one
  command given by \<open>synthesis_command\<close>, and that command carries a text of at most 64 KiB.
  Piper gets the text on its standard input, and an existing model in the voices directory
  or at an absolute path; Bark gets it as the value of an option. The system engine gets it as
  an argument of its own, so a text that begins with a dash is read as an option of
  \<open>espeak-ng\<close>, for example one that names a file to be spoken.
\<close>

theorem speech_process_exact:
  "(synthesis_command S t text i = None \<longrightarrow> synthesize S t text i = synthesize (S\<lparr>os_run := R\<rparr>) t text i)
   \<and> (\<forall>c. synthesis_command S t text i = Some c \<longrightarrow>
        (R c = os_run S c \<longrightarrow> synthesize (S\<lparr>os_run := R\<rparr>) t text i = synthesize S t text i)
        \<and> length text \<le> 65536
        \<and> (\<exists>profile. get_profile t i = Some profile \<and>
             (case vp_model profile of
                Piper \<Rightarrow> cmd_program c = tts_piper_binary t \<and> cmd_stdin c = Some text
                  \<and> take 2 (cmd_args c) = [''--model'', resolve_path t (vp_model_path profile)]
                  \<and> os_exists S (resolve_path t (vp_model_path profile))
              | Bark \<Rightarrow> cmd_program c = tts_bark_binary t \<and> cmd_args c = [''--text'', text, ''--output_raw'']
              | System \<Rightarrow> cmd_program c = ''espeak-ng'' \<and> cmd_args c = [''--stdout'', text])))"
proof -
  let ?S = "S\<lparr>os_run := R\<rparr>"
  have k: "piper_command ?S = piper_command S" "bark_command ?S = bark_command S"
    by (simp_all add: piper_command_def bark_command_def fun_eq_iff Let_def cong: if_cong)
  have r: "R c = os_run S c \<Longrightarrow> run_tts ?S e c = run_tts S e c" for c e by (rule run_tts_cong) simp_all
  show ?thesis
  proof (cases "get_profile t i")
    case None
    then show ?thesis by (simp add: synthesis_command_def synthesize_def)
  next
    case (Some profile)
    show ?thesis
    proof (cases "vp_model profile")
      case Piper
      show ?thesis
        by (cases "piper_command S t text profile")
          (auto simp: synthesis_command_def synthesize_def synthesize_piper_def Some Piper k r,
           auto simp: piper_command_def Let_def max_tts_input_bytes_def split: if_splits)
    next
      case Bark
      show ?thesis
        by (cases "bark_command S t text")
          (auto simp: synthesis_command_def synthesize_def synthesize_bark_def Some Bark k r,
           auto simp: bark_command_def max_tts_input_bytes_def split: if_splits)
    next
      case System
      show ?thesis
        by (cases "system_command text")
          (auto simp: synthesis_command_def synthesize_def synthesize_system_def Some System r,
           auto simp: system_command_def max_tts_input_bytes_def split: if_splits)
    qed
  qed
qed

definition demo_os :: voice_os where
  "demo_os = \<lparr>os_exists = (\<lambda>_. False), os_run = (\<lambda>_. Exited True [] []), os_stdin_written = (\<lambda>_. True),
     os_utf8_lossy = (\<lambda>b. b), os_debug_path = (\<lambda>p. p), os_show_f32 = (\<lambda>_. [])\<rparr>"

theorem speech_process_exact_witness:
  "\<exists>c. synthesis_command demo_os (add_profile (default_voice_profile\<lparr>vp_model := System\<rparr>) (new_tts [] [] []))
         ''-f/etc/passwd'' ''default'' = Some c
     \<and> cmd_args c = [''--stdout'', ''-f/etc/passwd'']"
proof -
  let ?t = "add_profile (default_voice_profile\<lparr>vp_model := System\<rparr>) (new_tts [] [] [])"
  have p: "get_profile ?t ''default'' = Some (default_voice_profile\<lparr>vp_model := System\<rparr>)"
    by (simp add: get_profile_def add_profile_def default_voice_profile_def)
  then obtain c where c: "synthesis_command demo_os ?t ''-f/etc/passwd'' ''default'' = Some c"
    by (simp add: synthesis_command_def system_command_def max_tts_input_bytes_def)
  with speech_process_exact [of demo_os ?t "''-f/etc/passwd''" "''default''" "os_run demo_os"] p show ?thesis by auto
qed

end
