(* ===== verification/Annex_Channels_Api.thy ===== *)
theory Annex_Channels_Api
  imports Annex_Federation_Api Annex_RateLimit Annex_Policy Annex_Voice Annex_Messages
begin

text \<open>
  \<open>annex-server/src/api_channels.rs\<close>: the handlers for channels, their history, membership and
  voice rooms. The proof gate of \<open>Annex_RateLimit\<close> stands before history and joining. A handler
  that calls the media server or the connection manager returns what it asks of them.
\<close>

section \<open>The proof gate\<close>

definition max_channel_id_len :: nat where "max_channel_id_len = 128"
definition max_channel_name_len :: nat where "max_channel_name_len = 256"
definition max_topic_len :: nat where "max_topic_len = 1024"

definition status_call :: "faults \<Rightarrow> nat \<Rightarrow> StatusCode + unit" where
  "status_call flt n = (if flt n then Inl INTERNAL_SERVER_ERROR else Inr ())"

lemma status_call_Inr [res_simps]: "status_call flt n = Inr u \<longleftrightarrow> \<not> flt n"
  by (simp add: status_call_def)

lemma status_call_none [simp]: "status_call no_faults n = Inr ()"
  by (simp add: status_call_def no_faults_def)

text \<open>What the gate reads of the application state; the tree is absent when its lock is poisoned.\<close>

record ('f, 'q, 'g, 'h) proof_gate =
  pg_crypto :: "'f crypto"
  pg_snark :: "('f, 'q, 'g, 'h) snark"
  pg_io :: proof_header_io
  pg_enforce :: bool
  pg_vkey :: "('g, 'h) VerifyingKey"
  pg_tree :: "'f MerkleTree option"

definition lookup_commitment :: "'f crypto \<Rightarrow> faults \<Rightarrow> db \<Rightarrow> string \<Rightarrow> StatusCode + string option" where
  "lookup_commitment C flt d p =
     and_then (status_call flt 0) (\<lambda>_.
     and_then (map_err (\<lambda>_. INTERNAL_SERVER_ERROR) (find_commitment_for_pseudonym C (\<lambda>i. flt (1 + i)) d p)) (\<lambda>found.
       Inr (map_option fst found)))"

definition proof_checked ::
  "('f, 'q, 'g, 'h) proof_gate \<Rightarrow> faults \<Rightarrow> db \<Rightarrow> string \<Rightarrow> header_value \<Rightarrow> StatusCode + unit" where
  "proof_checked E flt d p header =
     and_then (lookup_commitment (pg_crypto E) flt d p) (\<lambda>commitment.
       verify_zk_membership_header (pg_crypto E) (pg_snark E) (pg_io E) (pg_enforce E) (pg_vkey E) (pg_tree E) header commitment)"

definition channel_err_to_status :: "ChannelError \<Rightarrow> StatusCode" where
  "channel_err_to_status e = (case e of ChNotFound _ \<Rightarrow> NOT_FOUND | _ \<Rightarrow> INTERNAL_SERVER_ERROR)"

section \<open>Channels\<close>

record CreateChannelRequest =
  rc_channel_id :: string
  rc_name :: string
  rc_channel_type :: ChannelType
  rc_topic :: "string option"
  rc_vrp_topic_binding :: "string option"
  rc_required_capabilities_json :: "string option"
  rc_agent_min_alignment :: "AlignmentStatus option"
  rc_retention_days :: "u32 option"
  rc_federation_scope :: FederationScope

definition request_well_sized :: "CreateChannelRequest \<Rightarrow> bool" where
  "request_well_sized q \<longleftrightarrow>
     \<not> (length (rc_channel_id q) > max_channel_id_len \<or> rc_channel_id q = []) \<and>
     \<not> (length (rc_name q) > max_channel_name_len \<or> rc_name q = []) \<and>
     (case rc_topic q of Some t \<Rightarrow> \<not> length t > max_topic_len | None \<Rightarrow> True)"

definition create_params :: "int \<Rightarrow> CreateChannelRequest \<Rightarrow> CreateChannelParams" where
  "create_params s q = \<lparr>cc_server_id = s, cc_channel_id = rc_channel_id q, cc_name = rc_name q,
     cc_channel_type = rc_channel_type q, cc_topic = rc_topic q, cc_vrp_topic_binding = rc_vrp_topic_binding q,
     cc_required_capabilities_json = rc_required_capabilities_json q,
     cc_agent_min_alignment = rc_agent_min_alignment q, cc_retention_days = rc_retention_days q,
     cc_federation_scope = rc_federation_scope q\<rparr>"

definition create_status :: "ChannelError \<Rightarrow> StatusCode" where
  "create_status e = (case e of
     ChDatabase (SqliteFailure code) \<Rightarrow> (if constraint_violation code then CONFLICT else INTERNAL_SERVER_ERROR)
   | _ \<Rightarrow> INTERNAL_SERVER_ERROR)"

definition has_voice :: "ChannelType \<Rightarrow> bool" where
  "has_voice t \<longleftrightarrow> t = Voice \<or> t = Hybrid"

text \<open>The third component is the media room that is asked for; a refusal is only logged.\<close>

definition create_channel_handler ::
  "serde \<Rightarrow> LiveKitConfig \<Rightarrow> faults \<Rightarrow> time \<Rightarrow> int \<Rightarrow> PlatformIdentity \<Rightarrow> db \<Rightarrow> CreateChannelRequest
     \<Rightarrow> (StatusCode + unit) \<times> db \<times> string option" where
  "create_channel_handler S cfg flt now s identity d q =
     (if \<not> can_moderate (pf_capabilities identity) then (Inl FORBIDDEN, d, None)
      else if \<not> request_well_sized q then (Inl BAD_REQUEST, d, None)
      else case and_then (status_call flt 0) (\<lambda>_. status_call flt 1) of
        Inl e \<Rightarrow> (Inl e, d, None)
      | Inr _ \<Rightarrow>
          (case create_channel S now d (create_params s q) of
             (Inl e, d') \<Rightarrow> (Inl (create_status e), d', None)
           | (Inr _, d') \<Rightarrow>
               (Inr (), d', if has_voice (rc_channel_type q) \<and> voice_is_enabled cfg then Some (rc_channel_id q) else None)))"

definition list_channels_handler :: "serde \<Rightarrow> faults \<Rightarrow> int \<Rightarrow> db \<Rightarrow> StatusCode + Channel list" where
  "list_channels_handler S flt s d =
     and_then (status_call flt 0) (\<lambda>_. and_then (status_call flt 1) (\<lambda>_.
       map_err channel_err_to_status (list_channels S d s)))"

text \<open>\<open>flt 0\<close> and \<open>flt 1\<close> are the connection and the query of the membership test.\<close>

definition require_member :: "faults \<Rightarrow> int \<Rightarrow> db \<Rightarrow> string \<Rightarrow> string \<Rightarrow> StatusCode + unit" where
  "require_member flt s d c p =
     and_then (status_call flt 0) (\<lambda>_. and_then (status_call flt 1) (\<lambda>_.
       if is_member d s c p then Inr () else Inl FORBIDDEN))"

definition fetch_channel :: "serde \<Rightarrow> faults \<Rightarrow> db \<Rightarrow> string \<Rightarrow> StatusCode + Channel" where
  "fetch_channel S flt d c =
     and_then (status_call flt 0) (\<lambda>_. and_then (status_call flt 1) (\<lambda>_.
       map_err channel_err_to_status (get_channel S d c)))"

definition get_channel_handler :: "serde \<Rightarrow> faults \<Rightarrow> int \<Rightarrow> PlatformIdentity \<Rightarrow> db \<Rightarrow> string \<Rightarrow> StatusCode + Channel" where
  "get_channel_handler S flt s identity d c =
     and_then (status_call flt 0) (\<lambda>_.
     and_then (if can_moderate (pf_capabilities identity) then Inr ()
               else and_then (status_call flt 1) (\<lambda>_.
                 if is_member d s c (pf_pseudonym_id identity) then Inr () else Inl FORBIDDEN)) (\<lambda>_.
     and_then (status_call flt 2) (\<lambda>_. map_err channel_err_to_status (get_channel S d c))))"

definition delete_channel_handler :: "faults \<Rightarrow> PlatformIdentity \<Rightarrow> db \<Rightarrow> string \<Rightarrow> (StatusCode + unit) \<times> db" where
  "delete_channel_handler flt identity d c =
     (if \<not> can_moderate (pf_capabilities identity) then (Inl FORBIDDEN, d)
      else if flt 0 then (Inl INTERNAL_SERVER_ERROR, d)
      else let (res, d') = delete_channel (\<lambda>i. flt (1 + i)) d c in (map_err channel_err_to_status res, d'))"

section \<open>History\<close>

text \<open>The gate uses \<open>flt 0\<close> to \<open>flt 3\<close>.\<close>

definition get_channel_history_handler ::
  "('f, 'q, 'g, 'h) proof_gate \<Rightarrow> (time \<Rightarrow> string) \<Rightarrow> faults \<Rightarrow> int \<Rightarrow> PlatformIdentity \<Rightarrow> header_value \<Rightarrow> db \<Rightarrow> string
     \<Rightarrow> string option \<Rightarrow> u32 option \<Rightarrow> StatusCode + Message list" where
  "get_channel_history_handler E fmt flt s identity header d c before limit =
     and_then (proof_checked E flt d (pf_pseudonym_id identity) header) (\<lambda>_.
     and_then (require_member (\<lambda>i. flt (4 + i)) s d c (pf_pseudonym_id identity)) (\<lambda>_.
     and_then (status_call flt 6) (\<lambda>_. and_then (status_call flt 7) (\<lambda>_.
       Inr (list_messages fmt d s c before (map_option (\<lambda>l. min l 200) limit))))))"

definition get_message_edits_handler ::
  "faults \<Rightarrow> int \<Rightarrow> PlatformIdentity \<Rightarrow> db \<Rightarrow> string \<Rightarrow> string \<Rightarrow> StatusCode + MessageEdit list" where
  "get_message_edits_handler flt s identity d c m =
     and_then (require_member flt s d c (pf_pseudonym_id identity)) (\<lambda>_.
     and_then (status_call flt 2) (\<lambda>_. and_then (status_call flt 3) (\<lambda>_. Inr (get_edit_history d m))))"

section \<open>Joining and leaving\<close>

definition has_capability :: "Capabilities \<Rightarrow> string \<Rightarrow> bool" where
  "has_capability caps req =
     (if req = ''can_voice'' then can_voice caps
      else if req = ''can_moderate'' then can_moderate caps
      else if req = ''can_invite'' then can_invite caps
      else if req = ''can_federate'' then can_federate caps
      else if req = ''can_bridge'' then can_bridge caps
      else False)"

definition check_capabilities :: "rtx_json \<Rightarrow> Capabilities \<Rightarrow> Channel \<Rightarrow> StatusCode + unit" where
  "check_capabilities J caps ch =
     (case cn_required_capabilities_json ch of
        None \<Rightarrow> Inr ()
      | Some caps_json \<Rightarrow>
          and_then (ok_or (strings_from_json J caps_json) INTERNAL_SERVER_ERROR) (\<lambda>required.
            if list_all (has_capability caps) required then Inr () else Inl FORBIDDEN))"

text \<open>The stored text is read as JSON, or else as the content of a JSON string.\<close>

definition parse_stored_alignment :: "serde \<Rightarrow> string \<Rightarrow> AlignmentStatus option" where
  "parse_stored_alignment S t =
     (case alignment_from_json S t of
        Some a \<Rightarrow> Some a
      | None \<Rightarrow> alignment_from_json S ([CHR 0x22] @ t @ [CHR 0x22]))"

definition alignment_admits :: "AlignmentStatus \<Rightarrow> Channel \<Rightarrow> bool" where
  "alignment_admits status ch \<longleftrightarrow>
     status \<noteq> AlignmentStatus.Conflict \<and>
     \<not> (status = AlignmentStatus.Partial \<and> cn_channel_type ch \<noteq> Text) \<and>
     (case cn_agent_min_alignment ch of
        None \<Rightarrow> True
      | Some AlignmentStatus.Conflict \<Rightarrow> True
      | Some AlignmentStatus.Partial \<Rightarrow> status \<noteq> AlignmentStatus.Conflict
      | Some AlignmentStatus.Aligned \<Rightarrow> status = AlignmentStatus.Aligned)"

definition check_agent :: "serde \<Rightarrow> faults \<Rightarrow> int \<Rightarrow> db \<Rightarrow> string \<Rightarrow> Channel \<Rightarrow> StatusCode + unit" where
  "check_agent S flt s d p ch =
     and_then (status_call flt 0) (\<lambda>_. and_then (status_call flt 1) (\<lambda>_.
     and_then (ok_or (first_where (\<lambda>r. ar_server r = s \<and> ar_pseudonym r = p) (agent_rows d)) FORBIDDEN) (\<lambda>r.
     and_then (ok_or (parse_stored_alignment S (ar_alignment r)) INTERNAL_SERVER_ERROR) (\<lambda>status.
       if alignment_admits status ch then Inr () else Inl FORBIDDEN))))"

text \<open>Membership and edge are written one after the other, outside a transaction.\<close>

definition write_membership ::
  "serde \<Rightarrow> faults \<Rightarrow> time \<Rightarrow> int \<Rightarrow> bool \<Rightarrow> db \<Rightarrow> string \<Rightarrow> string \<Rightarrow> (StatusCode + unit) \<times> db" where
  "write_membership S flt now s is_agent d c p =
     (case and_then (status_call flt 0) (\<lambda>_. status_call flt 1) of
        Inl e \<Rightarrow> (Inl e, d)
      | Inr _ \<Rightarrow>
          (case add_member S now d s c p of
             (Inl _, d1) \<Rightarrow> (Inl INTERNAL_SERVER_ERROR, d1)
           | (Inr _, d1) \<Rightarrow>
               if \<not> is_agent then (Inr (), d1)
               else if flt 2 then (Inl INTERNAL_SERVER_ERROR, d1)
               else (case create_edge now d1 s p c AgentServing 1 of
                       (Inl _, d2) \<Rightarrow> (Inl INTERNAL_SERVER_ERROR, d2)
                     | (Inr _, d2) \<Rightarrow> (Inr (), d2))))"

text \<open>
  The media server of the application state, and the voice clients of the agents. The lock of
  the sessions is not poisoned. Between the two looks at the sessions another request may
  have connected the same agent; requests are taken one at a time here.
\<close>

record voice_context =
  vx_livekit :: livekit
  vx_config :: LiveKitConfig
  vx_stt :: SttService

type_synonym voice_sessions = "string \<rightharpoonup> AgentVoiceClient"

definition connect_agent :: "voice_context \<Rightarrow> string \<Rightarrow> string \<Rightarrow> voice_sessions \<Rightarrow> (StatusCode + unit) \<times> voice_sessions" where
  "connect_agent V c p sessions =
     (if sessions p \<noteq> None then (Inr (), sessions)
      else case map_err (\<lambda>_. INTERNAL_SERVER_ERROR)
             (and_then (generate_join_token (vx_livekit V) (vx_config V) c p p) (\<lambda>token.
                connect (vx_livekit V) (lk_url (vx_config V)) token c (vx_stt V)
                  (lk_api_key (vx_config V)) (lk_api_secret (vx_config V)))) of
        Inl e \<Rightarrow> (Inl e, sessions)
      | Inr client \<Rightarrow> (Inr (), sessions(p \<mapsto> client)))"

definition join_checks_passed ::
  "('f, 'q, 'g, 'h) proof_gate \<Rightarrow> serde \<Rightarrow> rtx_json \<Rightarrow> faults \<Rightarrow> int \<Rightarrow> PlatformIdentity \<Rightarrow> header_value \<Rightarrow> db \<Rightarrow> string
     \<Rightarrow> StatusCode + Channel" where
  "join_checks_passed E S J flt s identity header d c =
     and_then (proof_checked E flt d (pf_pseudonym_id identity) header) (\<lambda>_.
     and_then (fetch_channel S (\<lambda>i. flt (4 + i)) d c) (\<lambda>ch.
     and_then (check_capabilities J (pf_capabilities identity) ch) (\<lambda>_.
     and_then (if participant_type identity = RoleCode.AiAgent
               then check_agent S (\<lambda>i. flt (6 + i)) s d (pf_pseudonym_id identity) ch else Inr ()) (\<lambda>_.
       Inr ch))))"

definition join_channel_handler ::
  "('f, 'q, 'g, 'h) proof_gate \<Rightarrow> serde \<Rightarrow> rtx_json \<Rightarrow> voice_context \<Rightarrow> faults \<Rightarrow> time \<Rightarrow> int \<Rightarrow> PlatformIdentity \<Rightarrow> header_value
     \<Rightarrow> db \<Rightarrow> voice_sessions \<Rightarrow> string \<Rightarrow> (StatusCode + unit) \<times> db \<times> voice_sessions" where
  "join_channel_handler E S J V flt now s identity header d sessions c =
     (let p = pf_pseudonym_id identity; agent = (participant_type identity = RoleCode.AiAgent) in
      case join_checks_passed E S J flt s identity header d c of
        Inl e \<Rightarrow> (Inl e, d, sessions)
      | Inr ch \<Rightarrow>
          (case write_membership S (\<lambda>i. flt (8 + i)) now s agent d c p of
             (Inl e, d1) \<Rightarrow> (Inl e, d1, sessions)
           | (Inr _, d1) \<Rightarrow>
               if agent \<and> has_voice (cn_channel_type ch)
               then (let (res, sessions') = connect_agent V c p sessions in (res, d1, sessions'))
               else (Inr (), d1, sessions)))"

text \<open>
  What leaving asks of the connection manager and of the media server: the subscription to
  cancel and the participant to remove. Both are asked for only when the database part succeeded.
\<close>

record leave_effects =
  lv_unsubscribe :: "(string \<times> string) option"
  lv_remove :: "(string \<times> string) option"

definition leave_channel_handler ::
  "serde \<Rightarrow> LiveKitConfig \<Rightarrow> faults \<Rightarrow> int \<Rightarrow> PlatformIdentity \<Rightarrow> db \<Rightarrow> string \<Rightarrow> (StatusCode + unit) \<times> db \<times> leave_effects" where
  "leave_channel_handler S cfg flt s identity d c =
     (let p = pf_pseudonym_id identity; none = \<lparr>lv_unsubscribe = None, lv_remove = None\<rparr> in
      case and_then (fetch_channel S flt d c) (\<lambda>ch.
             and_then (status_call flt 2) (\<lambda>_. and_then (status_call flt 3) (\<lambda>_. Inr ch))) of
        Inl e \<Rightarrow> (Inl e, d, none)
      | Inr ch \<Rightarrow>
          (let d1 = snd (remove_member d s c p) in
           if participant_type identity = RoleCode.AiAgent \<and> flt 4 then (Inl INTERNAL_SERVER_ERROR, d1, none)
           else
             (let d2 = (if participant_type identity = RoleCode.AiAgent then snd (delete_edge d1 s p c AgentServing) else d1)
              in (Inr (), d2, \<lparr>lv_unsubscribe = Some (c, p),
                    lv_remove = (if has_voice (cn_channel_type ch) \<and> voice_is_enabled cfg then Some (c, p) else None)\<rparr>))))"

section \<open>Voice rooms\<close>

record JoinVoiceResponse =
  jv_token :: string
  jv_url :: string
  jv_ice_servers :: "IceServer list"

text \<open>The texts that go with the statuses are left out.\<close>

definition join_voice_channel_handler ::
  "('f, 'q, 'g, 'h) proof_gate \<Rightarrow> serde \<Rightarrow> voice_context \<Rightarrow> faults \<Rightarrow> int \<Rightarrow> PlatformIdentity \<Rightarrow> header_value \<Rightarrow> db \<Rightarrow> string
     \<Rightarrow> StatusCode + JoinVoiceResponse" where
  "join_voice_channel_handler E S V flt s identity header d c =
     (let p = pf_pseudonym_id identity; cfg = vx_config V in
      and_then (proof_checked E flt d p header) (\<lambda>_.
      if \<not> voice_is_enabled cfg \<or> get_public_url cfg = [] then Inl SERVICE_UNAVAILABLE else
      and_then (require_member (\<lambda>i. flt (4 + i)) s d c p) (\<lambda>_.
      and_then (fetch_channel S (\<lambda>i. flt (6 + i)) d c) (\<lambda>ch.
      if \<not> has_voice (cn_channel_type ch) then Inl BAD_REQUEST else
      and_then (map_err (\<lambda>_. INTERNAL_SERVER_ERROR) (generate_join_token (vx_livekit V) cfg c p p)) (\<lambda>token.
        Inr \<lparr>jv_token = token, jv_url = get_public_url cfg, jv_ice_servers = lk_ice_servers cfg\<rparr>)))))"

definition leave_voice_channel_handler ::
  "serde \<Rightarrow> LiveKitConfig \<Rightarrow> faults \<Rightarrow> int \<Rightarrow> PlatformIdentity \<Rightarrow> db \<Rightarrow> string \<Rightarrow> StatusCode + (string \<times> string) option" where
  "leave_voice_channel_handler S cfg flt s identity d c =
     (let p = pf_pseudonym_id identity in
      and_then (require_member flt s d c p) (\<lambda>_.
      and_then (fetch_channel S (\<lambda>i. flt (2 + i)) d c) (\<lambda>ch.
      if \<not> has_voice (cn_channel_type ch) then Inl BAD_REQUEST
      else Inr (if voice_is_enabled cfg then Some (c, p) else None))))"

definition voice_status_handler ::
  "voice_context \<Rightarrow> faults \<Rightarrow> int \<Rightarrow> PlatformIdentity \<Rightarrow> db \<Rightarrow> string \<Rightarrow> StatusCode + (u32 \<times> bool)" where
  "voice_status_handler V flt s identity d c =
     and_then (require_member flt s d c (pf_pseudonym_id identity)) (\<lambda>_.
       let count = (case participant_count (vx_livekit V) (vx_config V) c of Inr n \<Rightarrow> n | Inl _ \<Rightarrow> 0)
       in Inr (count, 0 < count))"

section \<open>What joining writes\<close>

definition membership :: "string \<Rightarrow> string \<Rightarrow> member_row \<Rightarrow> bool" where
  "membership c p r \<longleftrightarrow> mb_channel r = c \<and> mb_pseudonym r = p"

definition serving :: "int \<Rightarrow> string \<Rightarrow> string \<Rightarrow> edge_row \<Rightarrow> bool" where
  "serving s p c = is_edge s p c (edge_kind_to_str AgentServing)"

definition new_member :: "time \<Rightarrow> int \<Rightarrow> string \<Rightarrow> string \<Rightarrow> int \<Rightarrow> member_row" where
  "new_member now s c p i =
     \<lparr>mb_id = i, mb_server = s, mb_channel = c, mb_pseudonym = p, mb_role = ''MEMBER'', mb_joined = now\<rparr>"

definition new_serving :: "time \<Rightarrow> int \<Rightarrow> string \<Rightarrow> string \<Rightarrow> int \<Rightarrow> edge_row" where
  "new_serving now s p c i =
     \<lparr>ge_id = i, ge_server = s, ge_from = p, ge_to = c, ge_kind = edge_kind_to_str AgentServing, ge_weight = 1, ge_created = now\<rparr>"

lemma add_member_Inr:
  assumes "add_member S now d s c p = (Inr (), d1)"
  shows "d1 = (if exists_where (membership c p) (member_rows d) then d
               else d\<lparr>channel_members := auto_insert (new_member now s c p) (channel_members d)\<rparr>)"
proof -
  have m: "membership c p = (\<lambda>r. mb_channel r = c \<and> mb_pseudonym r = p)" by (simp add: membership_def fun_eq_iff)
  have n: "new_member now s c p =
      (\<lambda>i. \<lparr>mb_id = i, mb_server = s, mb_channel = c, mb_pseudonym = p, mb_role = ''MEMBER'', mb_joined = now\<rparr>)"
    by (simp add: new_member_def fun_eq_iff)
  show ?thesis
    using assms unfolding m n by (auto simp: add_member_def insert_member_sql_def split: sum.splits if_splits)
qed

lemma add_member_Inl: "fst (add_member S now d s c p) \<noteq> Inr () \<Longrightarrow> snd (add_member S now d s c p) = d"
  by (auto simp: add_member_def split: sum.splits)

lemma add_member_known:
  assumes "exists_where (membership c p) (member_rows d)" and "get_channel S d c = Inr ch"
  shows "add_member S now d s c p = (Inr (), d)"
proof -
  have "exists_where (\<lambda>r. mb_channel r = c \<and> mb_pseudonym r = p) (member_rows d)"
    using assms(1) by (simp add: exists_where_iff membership_def)
  then show ?thesis by (simp add: add_member_def assms(2) insert_member_sql_def)
qed

lemma create_edge_serving:
  "create_edge now d s p c AgentServing 1 =
     (if exists_where (serving s p c) (edge_rows d) then (Inl (GraphDatabaseError (SqliteFailure ConstraintUnique)), d)
      else (graph_edge_of (new_serving now s p c (auto_seq (graph_edges d) + 1)),
            d\<lparr>graph_edges := auto_insert (new_serving now s p c) (graph_edges d)\<rparr>))"
proof -
  have "new_serving now s p c = (\<lambda>i. \<lparr>ge_id = i, ge_server = s, ge_from = p, ge_to = c,
      ge_kind = edge_kind_to_str AgentServing, ge_weight = 1, ge_created = now\<rparr>)"
    by (simp add: new_serving_def fun_eq_iff)
  then show ?thesis by (simp add: create_edge_def serving_def Let_def)
qed

lemma write_membership_Inr:
  assumes "write_membership S flt now s agent d c p = (Inr (), d')"
  obtains d1 where "add_member S now d s c p = (Inr (), d1)"
    and "agent \<Longrightarrow> \<not> exists_where (serving s p c) (edge_rows d1)"
    and "d' = (if agent then d1\<lparr>graph_edges := auto_insert (new_serving now s p c) (graph_edges d1)\<rparr> else d1)"
proof -
  obtain r d1 where a: "add_member S now d s c p = (r, d1)" by (cases "add_member S now d s c p")
  show thesis
    by (rule that [of d1])
      (use assms a in \<open>auto simp: write_membership_def create_edge_serving split: sum.splits if_splits\<close>)
qed

lemma write_membership_Inl: "fst (write_membership S flt now s agent d c p) \<in> {Inr (), Inl INTERNAL_SERVER_ERROR}"
  by (auto simp: write_membership_def status_call_def split: sum.splits prod.splits if_splits)

lemma connect_agent_results: "fst (connect_agent V c p sessions) \<in> {Inr (), Inl INTERNAL_SERVER_ERROR}"
  by (auto simp: connect_agent_def res_simps split: sum.splits)

lemma join_rules_Inr:
  assumes "join_checks_passed E S J flt s identity header d c = Inr ch"
  shows "get_channel S d c = Inr ch" and "proof_checked E flt d (pf_pseudonym_id identity) header = Inr ()"
    and "check_capabilities J (pf_capabilities identity) ch = Inr ()"
    and "participant_type identity = RoleCode.AiAgent \<Longrightarrow>
      check_agent S (\<lambda>i. flt (6 + i)) s d (pf_pseudonym_id identity) ch = Inr ()"
  using assms unfolding join_checks_passed_def fetch_channel_def
  by (auto simp: res_simps split: if_splits)

lemma check_capabilities_Inr:
  "check_capabilities J caps ch = Inr () \<Longrightarrow> cn_required_capabilities_json ch = Some j \<Longrightarrow>
   \<exists>required. strings_from_json J j = Some required \<and> (\<forall>req \<in> set required. has_capability caps req)"
  by (auto simp: check_capabilities_def res_simps list_all_iff split: if_splits)

lemma check_agent_Inr:
  assumes "check_agent S flt s d p ch = Inr ()"
  obtains r status where "r \<in> set (agent_rows d)" and "ar_server r = s" and "ar_pseudonym r = p"
    and "parse_stored_alignment S (ar_alignment r) = Some status" and "alignment_admits status ch"
proof -
  obtain r status where f: "first_where (\<lambda>r. ar_server r = s \<and> ar_pseudonym r = p) (agent_rows d) = Some r"
    and st: "parse_stored_alignment S (ar_alignment r) = Some status" "alignment_admits status ch"
    using assms by (auto simp: check_agent_def res_simps split: if_splits)
  from first_where_Some [OF f] show thesis by (intro that [OF _ _ _ st]) blast+
qed

lemma alignment_admits_iff:
  "alignment_admits status ch \<longleftrightarrow>
     status = AlignmentStatus.Aligned
     \<or> status = AlignmentStatus.Partial \<and> cn_channel_type ch = Text \<and> cn_agent_min_alignment ch \<noteq> Some AlignmentStatus.Aligned"
  unfolding alignment_admits_def
  by (cases status; cases "cn_agent_min_alignment ch") (auto split: AlignmentStatus.splits)

lemma is_member_insert:
  "is_member (d\<lparr>channel_members := auto_insert (new_member now s c p) (channel_members d)\<rparr>) s' c' p' \<longleftrightarrow>
     is_member d s' c' p' \<or> (s', c', p') = (s, c, p)"
  by (auto simp: is_member_def exists_where_iff is_member_row_def new_member_def)

text \<open>
  C11. Joining a channel admits exactly whom the channel's rules allow. A request that succeeds
  passed the proof gate, is for an existing channel all of whose required capabilities the
  identity holds, and, for an agent, finds a registered alignment that is Aligned, or Partial
  when the channel is a text channel that does not require Aligned; afterwards the identity is
  a member (and an agent serves the channel in the graph), and nobody else's membership has
  changed. A request that is refused, with any status but 500, changes nothing.
\<close>

theorem join_channel_admits:
  assumes "join_channel_handler E S J V flt now s identity header d sessions c = (res, d', sessions')"
  shows "if res = Inr () then
      proof_checked E flt d (pf_pseudonym_id identity) header = Inr () \<and>
      (\<exists>ch. get_channel S d c = Inr ch \<and>
        (\<forall>j. cn_required_capabilities_json ch = Some j \<longrightarrow> (\<exists>required. strings_from_json J j = Some required \<and>
           (\<forall>req \<in> set required. has_capability (pf_capabilities identity) req))) \<and>
        (participant_type identity = RoleCode.AiAgent \<longrightarrow>
           (\<exists>r status. r \<in> set (agent_rows d) \<and> ar_server r = s \<and> ar_pseudonym r = pf_pseudonym_id identity \<and>
             parse_stored_alignment S (ar_alignment r) = Some status \<and>
             (status = AlignmentStatus.Aligned \<or> status = AlignmentStatus.Partial \<and> cn_channel_type ch = Text \<and>
                cn_agent_min_alignment ch \<noteq> Some AlignmentStatus.Aligned)) \<and>
           exists_where (serving s (pf_pseudonym_id identity) c) (edge_rows d'))) \<and>
      exists_where (membership c (pf_pseudonym_id identity)) (member_rows d') \<and>
      (\<forall>s' c' p'. (c', p') \<noteq> (c, pf_pseudonym_id identity) \<longrightarrow> is_member d' s' c' p' = is_member d s' c' p')
    else res = Inl INTERNAL_SERVER_ERROR \<or> d' = d \<and> sessions' = sessions"
proof (cases "join_checks_passed E S J flt s identity header d c")
  case (Inl e)
  then show ?thesis using assms by (auto simp: join_channel_handler_def Let_def)
next
  case (Inr ch)
  let ?p = "pf_pseudonym_id identity" and ?agent = "participant_type identity = RoleCode.AiAgent"
  obtain r d1 where w: "write_membership S (\<lambda>i. flt (8 + i)) now s ?agent d c ?p = (r, d1)"
    by (cases "write_membership S (\<lambda>i. flt (8 + i)) now s ?agent d c ?p")
  note checks = join_rules_Inr [OF Inr]
  have r: "r = Inr () \<or> r = Inl INTERNAL_SERVER_ERROR"
    using write_membership_Inl [of S "\<lambda>i. flt (8 + i)" now s ?agent d c ?p] by (simp add: w)
  have res: "res = Inr () \<or> res = Inl INTERNAL_SERVER_ERROR" and d': "d' = d1" and ok: "res = Inr () \<Longrightarrow> r = Inr ()"
    using assms r connect_agent_results [of V c ?p sessions]
    by (auto simp: join_channel_handler_def Let_def Inr w split: prod.splits if_splits)
  show ?thesis
  proof (cases "res = Inr ()")
    case True
    obtain d2 where a: "add_member S now d s c ?p = (Inr (), d2)"
      and e: "d1 = (if ?agent then d2\<lparr>graph_edges := auto_insert (new_serving now s ?p c) (graph_edges d2)\<rparr> else d2)"
      using write_membership_Inr [OF w [unfolded ok [OF True]]] by metis
    note a = add_member_Inr [OF a]
    have members: "member_rows d1 = member_rows d2" by (simp add: e)
    have m: "exists_where (membership c ?p) (member_rows d1)"
      unfolding members by (auto simp: a exists_where_iff membership_def new_member_def)
    have others: "is_member d1 s' c' p' = is_member d s' c' p'" if "(c', p') \<noteq> (c, ?p)" for s' c' p'
    proof -
      have "is_member d1 s' c' p' = is_member d2 s' c' p'" by (simp add: is_member_def members)
      then show ?thesis using that by (auto simp: a is_member_insert)
    qed
    have edge: "exists_where (serving s ?p c) (edge_rows d1)" if ?agent
      using that by (simp add: e exists_where_iff serving_def is_edge_def new_serving_def)
    have agent: "\<exists>r status. r \<in> set (agent_rows d) \<and> ar_server r = s \<and> ar_pseudonym r = ?p \<and>
        parse_stored_alignment S (ar_alignment r) = Some status \<and>
        (status = AlignmentStatus.Aligned \<or> status = AlignmentStatus.Partial \<and> cn_channel_type ch = Text \<and>
           cn_agent_min_alignment ch \<noteq> Some AlignmentStatus.Aligned)" if ?agent
      by (rule check_agent_Inr [OF checks(4) [OF that]]) (unfold alignment_admits_iff, blast)
    have "proof_checked E flt d ?p header = Inr () \<and> get_channel S d c = Inr ch" using checks by blast
    then show ?thesis
      using True m others edge agent check_capabilities_Inr [OF checks(3)] unfolding d' by simp
  next
    case False
    then show ?thesis using res by simp
  qed
qed

section \<open>Joining twice, and leaving again\<close>

lemma join_state:
  assumes "join_channel_handler E S J V flt now s identity header d sessions c = (Inr (), d', sessions')"
  obtains ch d1 where "join_checks_passed E S J flt s identity header d c = Inr ch"
    and "d1 = (if exists_where (membership c (pf_pseudonym_id identity)) (member_rows d) then d
               else d\<lparr>channel_members := auto_insert (new_member now s c (pf_pseudonym_id identity)) (channel_members d)\<rparr>)"
    and "participant_type identity = RoleCode.AiAgent \<Longrightarrow> \<not> exists_where (serving s (pf_pseudonym_id identity) c) (edge_rows d)"
    and "d' = (if participant_type identity = RoleCode.AiAgent
               then d1\<lparr>graph_edges := auto_insert (new_serving now s (pf_pseudonym_id identity) c) (graph_edges d)\<rparr> else d1)"
proof -
  let ?p = "pf_pseudonym_id identity" and ?agent = "participant_type identity = RoleCode.AiAgent"
  obtain ch where ch: "join_checks_passed E S J flt s identity header d c = Inr ch"
    using assms by (auto simp: join_channel_handler_def Let_def split: sum.splits)
  obtain r d2 where w: "write_membership S (\<lambda>i. flt (8 + i)) now s ?agent d c ?p = (r, d2)"
    by (cases "write_membership S (\<lambda>i. flt (8 + i)) now s ?agent d c ?p")
  have "r = Inr ()" and d': "d' = d2"
    using assms by (auto simp: join_channel_handler_def Let_def ch w split: sum.splits prod.splits if_splits)
  then obtain d1 where a: "add_member S now d s c ?p = (Inr (), d1)"
    and n: "?agent \<Longrightarrow> \<not> exists_where (serving s ?p c) (edge_rows d1)"
    and e: "d2 = (if ?agent then d1\<lparr>graph_edges := auto_insert (new_serving now s ?p c) (graph_edges d1)\<rparr> else d1)"
    using write_membership_Inr [of S "\<lambda>i. flt (8 + i)" now s ?agent d c ?p d2] w by metis
  note d1 = add_member_Inr [OF a]
  have g: "graph_edges d1 = graph_edges d" by (simp add: d1)
  show thesis by (rule that [OF ch d1]) (use n e d' g in auto)
qed

lemma join_checks_frame:
  assumes "zk_nullifiers d' = zk_nullifiers d" and "vrp_identities d' = vrp_identities d"
    and "channels d' = channels d" and "agent_registrations d' = agent_registrations d"
  shows "join_checks_passed E S J flt s identity header d' c = join_checks_passed E S J flt s identity header d c"
  unfolding join_checks_passed_def proof_checked_def lookup_commitment_def find_commitment_for_pseudonym_def
    fetch_channel_def get_channel_def check_agent_def assms ..

lemma write_membership_served:
  assumes "exists_where (membership c p) (member_rows d)" and "exists_where (serving s p c) (edge_rows d)"
  shows "write_membership S flt now s True d c p = (Inl INTERNAL_SERVER_ERROR, d)"
proof -
  obtain r d1 where a: "add_member S now d s c p = (r, d1)" by (cases "add_member S now d s c p")
  have "d1 = d"
  proof (cases "r = Inr ()")
    case True
    then show ?thesis using add_member_Inr [of S now d s c p d1] a assms(1) by simp
  next
    case False
    then show ?thesis using add_member_Inl [of S now d s c p] a by simp
  qed
  then show ?thesis using assms(2) a
    by (auto simp: write_membership_def create_edge_serving status_call_def split: sum.split)
qed

text \<open>
  An agent cannot join a channel twice. Joining is idempotent for everybody else, but once
  an agent is a member its next request fails whatever the circumstances, and with the same
  proof and no engine failure it fails with status 500 after all checks have passed, because
  the edge of the first request violates the unique constraint. In particular an agent whose
  voice client could not be connected after it became a member cannot try again.
\<close>

theorem agent_join_not_repeatable:
  assumes "join_channel_handler E S J V no_faults now s identity header d sessions c = (Inr (), d1, sessions1)"
    and "participant_type identity = RoleCode.AiAgent"
  shows "(\<exists>e. join_channel_handler E S J V flt later s identity header' d1 sessions1 c = (Inl e, d1, sessions1))
    \<and> join_channel_handler E S J V no_faults later s identity header d1 sessions1 c
        = (Inl INTERNAL_SERVER_ERROR, d1, sessions1)"
proof -
  let ?p = "pf_pseudonym_id identity"
  obtain ch d2 where ch: "join_checks_passed E S J no_faults s identity header d c = Inr ch"
    and d2: "d2 = (if exists_where (membership c ?p) (member_rows d) then d
               else d\<lparr>channel_members := auto_insert (new_member now s c ?p) (channel_members d)\<rparr>)"
    and d1: "d1 = d2\<lparr>graph_edges := auto_insert (new_serving now s ?p c) (graph_edges d)\<rparr>"
    by (rule join_state [OF assms(1)]) (use assms(2) in auto)
  have "exists_where (membership c ?p) (member_rows d1)"
    by (auto simp: d1 d2 exists_where_iff membership_def new_member_def)
  moreover have "exists_where (serving s ?p c) (edge_rows d1)"
    by (simp add: d1 exists_where_iff serving_def is_edge_def new_serving_def)
  ultimately have w: "write_membership S f later s True d1 c ?p = (Inl INTERNAL_SERVER_ERROR, d1)" for f
    by (rule write_membership_served)
  have "join_checks_passed E S J f s identity header d1 c = join_checks_passed E S J f s identity header d c" for f
    by (rule join_checks_frame) (simp_all add: d1 d2)
  then have again: "join_checks_passed E S J no_faults s identity header d1 c = Inr ch" by (simp add: ch)
  have "\<exists>e. join_channel_handler E S J V flt later s identity header' d1 sessions1 c = (Inl e, d1, sessions1)"
    by (cases "join_checks_passed E S J flt s identity header' d1 c") (simp_all add: join_channel_handler_def Let_def assms(2) w)
  then show ?thesis by (simp add: join_channel_handler_def Let_def again assms(2) w)
qed

lemma delete_where_new: "\<not> exists_where q rs \<Longrightarrow> q r \<Longrightarrow> (\<And>x. q' x \<Longrightarrow> q x) \<Longrightarrow> q' r \<Longrightarrow> delete_where q' (rs @ [r]) = rs"
  by (auto simp: delete_where_def exists_where_iff filter_id_conv)

text \<open>
  Leaving undoes joining: when somebody who was no member joins and leaves again, the leave
  succeeds, members and graph edges are what they were, no other table has changed, and the
  connection manager is told to drop the subscription.
\<close>

theorem leave_undoes_join:
  assumes "join_channel_handler E S J V flt now s identity header d sessions c = (Inr (), d1, sessions1)"
    and "\<not> exists_where (membership c (pf_pseudonym_id identity)) (member_rows d)"
  shows "\<exists>d2 eff. leave_channel_handler S cfg no_faults s identity d1 c = (Inr (), d2, eff)
    \<and> member_rows d2 = member_rows d \<and> edge_rows d2 = edge_rows d
    \<and> d2\<lparr>channel_members := channel_members d, graph_edges := graph_edges d\<rparr> = d
    \<and> lv_unsubscribe eff = Some (c, pf_pseudonym_id identity)"
proof -
  let ?p = "pf_pseudonym_id identity" and ?agent = "participant_type identity = RoleCode.AiAgent"
  obtain ch where ch: "join_checks_passed E S J flt s identity header d c = Inr ch"
    and n: "?agent \<Longrightarrow> \<not> exists_where (serving s ?p c) (edge_rows d)"
    and d1: "d1 = (if ?agent then d\<lparr>channel_members := auto_insert (new_member now s c ?p) (channel_members d),
          graph_edges := auto_insert (new_serving now s ?p c) (graph_edges d)\<rparr>
        else d\<lparr>channel_members := auto_insert (new_member now s c ?p) (channel_members d)\<rparr>)"
    by (rule join_state [OF assms(1)]) (use assms(2) in simp)
  define d2 where "d2 = d1\<lparr>channel_members := auto_delete (is_member_row s c ?p) (channel_members d1)\<rparr>"
  define d3 where "d3 = (if ?agent then d2\<lparr>graph_edges := auto_delete (serving s ?p c) (graph_edges d2)\<rparr> else d2)"
  have "get_channel S d1 c = get_channel S d c" by (simp add: get_channel_def d1)
  then have g: "get_channel S d1 c = Inr ch" using join_rules_Inr(1) [OF ch] by simp
  have "\<exists>eff. leave_channel_handler S cfg no_faults s identity d1 c = (Inr (), d3, eff) \<and> lv_unsubscribe eff = Some (c, ?p)"
    by (simp add: leave_channel_handler_def fetch_channel_def g remove_member_def delete_edge_def serving_def d2_def d3_def
        Let_def no_faults_def)
  moreover have "member_rows d3 = member_rows d"
  proof -
    have "member_rows d3 = delete_where (is_member_row s c ?p) (member_rows d @ [new_member now s c ?p (auto_seq (channel_members d) + 1)])"
      by (simp add: d3_def d2_def d1)
    also have "\<dots> = member_rows d"
      by (rule delete_where_new [OF assms(2)]) (simp_all add: membership_def is_member_row_def new_member_def)
    finally show ?thesis .
  qed
  moreover have "edge_rows d3 = edge_rows d"
  proof (cases ?agent)
    case True
    then have "edge_rows d3 = delete_where (serving s ?p c) (edge_rows d @ [new_serving now s ?p c (auto_seq (graph_edges d) + 1)])"
      by (simp add: d3_def d2_def d1)
    also have "\<dots> = edge_rows d"
      by (rule delete_where_new [OF n [OF True]]) (simp_all add: serving_def is_edge_def new_serving_def)
    finally show ?thesis .
  qed (simp add: d3_def d2_def d1)
  moreover have "d3\<lparr>channel_members := channel_members d, graph_edges := graph_edges d\<rparr> = d"
    by (simp add: d3_def d2_def d1)
  ultimately show ?thesis by blast
qed

section \<open>Reading\<close>

text \<open>
  The history of a channel is read only by its members: a request that is answered passed
  the proof gate, comes from a member, and gets at most a hundred messages, all of that
  channel and server.
\<close>

theorem history_for_members:
  assumes "get_channel_history_handler E fmt flt s identity header d c before limit = Inr ms"
  shows "proof_checked E flt d (pf_pseudonym_id identity) header = Inr ()
    \<and> is_member d s c (pf_pseudonym_id identity) \<and> length ms \<le> 100
    \<and> (\<forall>m \<in> set ms. mg_channel_id m = c \<and> mg_server_id m = s)"
proof -
  from assms have h: "proof_checked E flt d (pf_pseudonym_id identity) header = Inr ()"
    "is_member d s c (pf_pseudonym_id identity)"
    and ms: "ms = list_messages fmt d s c before (map_option (\<lambda>l. min l 200) limit)"
    unfolding get_channel_history_handler_def require_member_def by (auto simp: res_simps split: if_splits)
  have "length ms \<le> 100" by (simp add: ms list_messages_def Let_def)
  moreover have "\<forall>m \<in> set ms. mg_channel_id m = c \<and> mg_server_id m = s"
    by (auto simp: ms list_messages_def Let_def map_row_to_message_def dest!: in_set_takeD)
  ultimately show ?thesis using h by blast
qed

text \<open>
  The edit history is not protected this way: whoever is a member of some channel can read
  what any message of the server said before it was edited, whatever channel the message
  belongs to, because only the channel named in the path is checked.
\<close>

theorem edits_of_every_channel:
  assumes "edit_message flt now d m sender new_content = (Inr msg, d')" and "get_message d m = Inr old"
    and "is_member d s c (pf_pseudonym_id identity)"
  shows "\<exists>es. get_message_edits_handler no_faults s identity d' c m = Inr es \<and> mg_content old \<in> me_old_content ` set es"
proof -
  have w: "message_edits d' = auto_insert (\<lambda>i.
      \<lparr>ed_id = i, ed_message = m, ed_old_content = mg_content old, ed_edited = now\<rparr>) (message_edits d)"
    and k: "channel_members d' = channel_members d"
    using assms(1,2) by (auto simp: edit_message_def Let_def res_simps split: sum.splits)
  have "mg_content old \<in> me_old_content ` set (get_edit_history d' m)"
    by (simp add: get_edit_history_def w image_image)
  moreover have "is_member d' s c (pf_pseudonym_id identity)" using assms(3) by (simp add: is_member_def k)
  ultimately show ?thesis by (simp add: get_message_edits_handler_def require_member_def)
qed

section \<open>A concrete server\<close>

definition demo_gate :: "(u8, nat, nat, nat) proof_gate" where
  "demo_gate = \<lparr>pg_crypto = demo_crypto, pg_snark = demo_snark,
     pg_io = \<lparr>base64_decode = Some, payload_from_json = (\<lambda>_. None)\<rparr>, pg_enforce = False,
     pg_vkey = generate_dummy_vkey demo_snark, pg_tree = None\<rparr>"

definition demo_person :: "RoleCode \<Rightarrow> string \<Rightarrow> PlatformIdentity" where
  "demo_person ty p = \<lparr>pf_id = 1, pf_server_id = 1, pf_pseudonym_id = p, participant_type = ty,
     pf_capabilities = default_capabilities, pf_active = True, pf_created_at = 0, pf_updated_at = 0\<rparr>"

definition demo_platform_row :: "int \<Rightarrow> string \<Rightarrow> platform_row" where
  "demo_platform_row i p = \<lparr>pi_id = i, pi_server = 1, pi_pseudonym = p, pi_type = ''AI_AGENT'',
     pi_caps = default_capabilities, pi_active = True, pi_created = 0, pi_updated = 0\<rparr>"

text \<open>The bot is registered as an aligned agent; Ann is a member of the channel \<open>c\<close>.\<close>

definition demo_rooms :: db where
  "demo_rooms = demo_chat\<lparr>
     platform_identities := \<lparr>auto_rows = [demo_platform_row 1 ''bot'', demo_platform_row 2 ''ann''], auto_seq = 2\<rparr>,
     agent_registrations := \<lparr>auto_rows = [demo_agent\<lparr>ar_alignment := ''A''\<rparr>], auto_seq = 1\<rparr>,
     channel_members := \<lparr>auto_rows = [new_member 5 1 ''c'' ''ann'' 1], auto_seq = 1\<rparr>\<rparr>"

lemma demo_rooms_rows [simp]:
  "platform_rows demo_rooms = [demo_platform_row 1 ''bot'', demo_platform_row 2 ''ann'']"
  "agent_rows demo_rooms = [demo_agent\<lparr>ar_alignment := ''A''\<rparr>]" "member_rows demo_rooms = [new_member 5 1 ''c'' ''ann'' 1]"
  "channel_rows demo_rooms = channel_rows demo_chat" "message_rows demo_rooms = message_rows demo_chat"
  "servers demo_rooms = servers demo_chat" "edge_rows demo_rooms = []" "zk_nullifiers demo_rooms = []"
  by (simp_all add: demo_rooms_def demo_chat_def)

lemma demo_gate_open [simp]: "proof_checked demo_gate no_faults demo_rooms p header = Inr ()"
  by (simp add: proof_checked_def lookup_commitment_def find_commitment_for_pseudonym_def demo_gate_def
      verify_zk_membership_header_def shifted_no_faults)

lemma demo_room_channel: "\<exists>ch. get_channel demo_serde demo_rooms ''c'' = Inr ch \<and> cn_required_capabilities_json ch = None
    \<and> cn_agent_min_alignment ch = None \<and> cn_channel_type ch = Text"
  by (simp add: get_channel_def map_row_to_channel_def demo_serde_def demo_channel_def)

lemma demo_joins:
  "\<exists>d'. join_channel_handler demo_gate demo_serde J V no_faults 9 1 (demo_person RoleCode.AiAgent ''bot'') header demo_rooms
     sessions ''c'' = (Inr (), d', sessions)"
proof -
  obtain ch where ch: "get_channel demo_serde demo_rooms ''c'' = Inr ch" "cn_required_capabilities_json ch = None"
    "cn_agent_min_alignment ch = None" "cn_channel_type ch = Text"
    using demo_room_channel by blast
  have ag: "check_agent demo_serde no_faults 1 demo_rooms ''bot'' ch = Inr ()"
    by (simp add: check_agent_def demo_agent_def parse_stored_alignment_def alignment_admits_def demo_serde_def ch)
  let ?d1 = "d\<lparr>channel_members := auto_insert (new_member 9 1 ''c'' ''bot'') (channel_members d)\<rparr>"
  have "\<exists>d1. add_member demo_serde 9 demo_rooms 1 ''c'' ''bot'' = (Inr (), d1) \<and> edge_rows d1 = []"
    by (simp add: add_member_def ch insert_member_sql_def new_member_def server_exists_def channel_exists_def exists_where_iff
        demo_platform_row_def)
  then obtain d1 where m: "add_member demo_serde 9 demo_rooms 1 ''c'' ''bot'' = (Inr (), d1)" "edge_rows d1 = []" by blast
  then have "\<exists>d2. write_membership demo_serde no_faults 9 1 True demo_rooms ''c'' ''bot'' = (Inr (), d2)"
    by (simp add: write_membership_def create_edge_serving exists_where_iff graph_edge_of_def new_serving_def
        str_to_edge_kind_def no_faults_def)
  then show ?thesis
    using ag by (auto simp: join_channel_handler_def join_checks_passed_def fetch_channel_def check_capabilities_def
        demo_person_def ch has_voice_def shifted_no_faults Let_def)
qed

theorem join_channel_admits_witness:
  "\<forall>J V. \<exists>d'. join_channel_handler demo_gate demo_serde J V no_faults 9 1 (demo_person RoleCode.AiAgent ''bot'') Absent demo_rooms
       Map.empty ''c'' = (Inr (), d', Map.empty) \<and> exists_where (membership ''c'' ''bot'') (member_rows d')"
proof (intro allI)
  fix J V
  obtain d' where j: "join_channel_handler demo_gate demo_serde J V no_faults 9 1 (demo_person RoleCode.AiAgent ''bot'') Absent
      demo_rooms Map.empty ''c'' = (Inr (), d', Map.empty)"
    using demo_joins by blast
  have "exists_where (membership ''c'' ''bot'') (member_rows d')"
    using join_channel_admits [OF j] by (simp add: demo_person_def)
  with j show "\<exists>d'. join_channel_handler demo_gate demo_serde J V no_faults 9 1 (demo_person RoleCode.AiAgent ''bot'') Absent demo_rooms
       Map.empty ''c'' = (Inr (), d', Map.empty) \<and> exists_where (membership ''c'' ''bot'') (member_rows d')" by blast
qed

theorem agent_join_not_repeatable_witness:
  "\<forall>J V. \<exists>d'. join_channel_handler demo_gate demo_serde J V no_faults 9 1 (demo_person RoleCode.AiAgent ''bot'') Absent demo_rooms
       Map.empty ''c'' = (Inr (), d', Map.empty)
     \<and> join_channel_handler demo_gate demo_serde J V no_faults 10 1 (demo_person RoleCode.AiAgent ''bot'') Absent d'
       Map.empty ''c'' = (Inl INTERNAL_SERVER_ERROR, d', Map.empty)"
proof (intro allI)
  fix J V
  obtain d' where j: "join_channel_handler demo_gate demo_serde J V no_faults 9 1 (demo_person RoleCode.AiAgent ''bot'') Absent
      demo_rooms Map.empty ''c'' = (Inr (), d', Map.empty)"
    using demo_joins by blast
  have "participant_type (demo_person RoleCode.AiAgent ''bot'') = RoleCode.AiAgent" by (simp add: demo_person_def)
  from agent_join_not_repeatable [OF j this, where later = 10 and flt = no_faults and header' = Absent] j
  show "\<exists>d'. join_channel_handler demo_gate demo_serde J V no_faults 9 1 (demo_person RoleCode.AiAgent ''bot'') Absent demo_rooms
       Map.empty ''c'' = (Inr (), d', Map.empty)
     \<and> join_channel_handler demo_gate demo_serde J V no_faults 10 1 (demo_person RoleCode.AiAgent ''bot'') Absent d'
       Map.empty ''c'' = (Inl INTERNAL_SERVER_ERROR, d', Map.empty)" by blast
qed

theorem leave_undoes_join_witness:
  "\<forall>J V cfg. \<exists>d1 d2 eff. join_channel_handler demo_gate demo_serde J V no_faults 9 1 (demo_person RoleCode.AiAgent ''bot'') Absent
       demo_rooms Map.empty ''c'' = (Inr (), d1, Map.empty)
     \<and> leave_channel_handler demo_serde cfg no_faults 1 (demo_person RoleCode.AiAgent ''bot'') d1 ''c'' = (Inr (), d2, eff)
     \<and> member_rows d2 = [new_member 5 1 ''c'' ''ann'' 1]"
proof (intro allI)
  fix J V cfg
  obtain d1 where j: "join_channel_handler demo_gate demo_serde J V no_faults 9 1 (demo_person RoleCode.AiAgent ''bot'') Absent
      demo_rooms Map.empty ''c'' = (Inr (), d1, Map.empty)"
    using demo_joins by blast
  have "\<not> exists_where (membership ''c'' (pf_pseudonym_id (demo_person RoleCode.AiAgent ''bot''))) (member_rows demo_rooms)"
    by (simp add: exists_where_iff membership_def demo_person_def new_member_def)
  from leave_undoes_join [OF j this, of cfg] j
  show "\<exists>d1 d2 eff. join_channel_handler demo_gate demo_serde J V no_faults 9 1 (demo_person RoleCode.AiAgent ''bot'') Absent
       demo_rooms Map.empty ''c'' = (Inr (), d1, Map.empty)
     \<and> leave_channel_handler demo_serde cfg no_faults 1 (demo_person RoleCode.AiAgent ''bot'') d1 ''c'' = (Inr (), d2, eff)
     \<and> member_rows d2 = [new_member 5 1 ''c'' ''ann'' 1]" by auto
qed

lemma demo_ann_member: "is_member demo_rooms 1 ''c'' (pf_pseudonym_id (demo_person RoleCode.Human ''ann''))"
  by (simp add: is_member_def exists_where_iff is_member_row_def demo_person_def new_member_def)

theorem history_for_members_witness:
  "\<forall>fmt. \<exists>ms. get_channel_history_handler demo_gate fmt no_faults 1 (demo_person RoleCode.Human ''ann'') Absent demo_rooms ''c''
     None (Some 500) = Inr ms \<and> length ms \<le> 100"
proof
  fix fmt
  obtain ms where h: "get_channel_history_handler demo_gate fmt no_faults 1 (demo_person RoleCode.Human ''ann'') Absent demo_rooms
      ''c'' None (Some 500) = Inr ms"
    using demo_ann_member by (simp add: get_channel_history_handler_def require_member_def shifted_no_faults)
  with history_for_members [OF h] show "\<exists>ms. get_channel_history_handler demo_gate fmt no_faults 1
      (demo_person RoleCode.Human ''ann'') Absent demo_rooms ''c'' None (Some 500) = Inr ms \<and> length ms \<le> 100" by blast
qed

text \<open>Alice edits her message in channel \<open>e\<close>; Ann, a member of \<open>c\<close> only, reads the old text.\<close>

theorem edits_of_every_channel_witness:
  "\<exists>d' es. \<not> is_member d' 1 ''e'' ''ann''
     \<and> get_message_edits_handler no_faults 1 (demo_person RoleCode.Human ''ann'') d' ''c'' ''n'' = Inr es
     \<and> ''hi'' \<in> me_old_content ` set es"
proof -
  have g: "get_message demo_rooms ''n'' = Inr (map_row_to_message (demo_message 2 ''e'' ''n''))"
    by (simp add: get_message_def)
  obtain msg d' where e: "edit_message no_faults 110 demo_rooms ''n'' ''alice'' ''ho'' = (Inr msg, d')"
    and m: "channel_members d' = channel_members demo_rooms"
    by (simp add: edit_message_def g check_editable_def map_row_to_message_def EDIT_WINDOW_SECONDS_def Let_def get_message_def
        update_where_def)
  have "\<not> is_member d' 1 ''e'' ''ann''"
    by (simp add: is_member_def m exists_where_iff is_member_row_def new_member_def)
  moreover have "mg_content (map_row_to_message (demo_message 2 ''e'' ''n'')) = ''hi''"
    by (simp add: map_row_to_message_def demo_message_def)
  ultimately show ?thesis using edits_of_every_channel [OF e g demo_ann_member] by auto
qed

end
