(* ===== verification/Annex_Connections.thy ===== *)
theory Annex_Connections
  imports Annex_Platform Annex_Rtx Annex_Demo
begin

text \<open>
  \<open>annex-server/src/api_ws.rs\<close>, first part: the session tokens and the connection manager. The
  sending half of a session's queue is identified with the session, and the queues of the
  open connections are a map from sessions to the messages that wait in them. HMAC-SHA256 and
  base64 are parameters. A step of the manager first runs as a whole; the end of the theory
  splits the removal of a session at its locks.
\<close>

section \<open>Session tokens\<close>

definition ws_token_ttl_secs :: u64 where "ws_token_ttl_secs = 60"

record token_io =
  tk_hmac :: "bytes \<Rightarrow> bytes \<Rightarrow> bytes"
  tk_b64_encode :: "bytes \<Rightarrow> string"
  tk_b64_decode :: "string \<Rightarrow> bytes option"
  tk_utf8 :: "bytes \<Rightarrow> bool"

definition derive_ws_token_secret :: "'f crypto \<Rightarrow> bytes \<Rightarrow> bytes" where
  "derive_ws_token_secret C signing_key = sha256 C (''annex-ws-token-v1:'' @ signing_key)"

definition token_payload :: "string \<Rightarrow> string \<Rightarrow> string" where
  "token_payload pseudonym expires = pseudonym @ ''|'' @ expires"

definition generate_ws_token :: "'f crypto \<Rightarrow> token_io \<Rightarrow> u64 \<Rightarrow> string \<Rightarrow> bytes \<Rightarrow> string" where
  "generate_ws_token C io now pseudonym secret =
     (let payload = token_payload pseudonym (decimal (unat (now + ws_token_ttl_secs)))
      in tk_b64_encode io (payload @ ''|'' @ hex_encode C (tk_hmac io secret payload)))"

text \<open>\<open>str::splitn(3, '|')\<close>, when there are three parts.\<close>

definition split3 :: "string \<Rightarrow> (string \<times> string \<times> string) option" where
  "split3 s =
     (case dropWhile (\<lambda>c. c \<noteq> CHR ''|'') s of
        [] \<Rightarrow> None
      | _ # s1 \<Rightarrow>
          (case dropWhile (\<lambda>c. c \<noteq> CHR ''|'') s1 of
             [] \<Rightarrow> None
           | _ # s2 \<Rightarrow> Some (takeWhile (\<lambda>c. c \<noteq> CHR ''|'') s, takeWhile (\<lambda>c. c \<noteq> CHR ''|'') s1, s2)))"

text \<open>\<open>u64::from_str\<close>: an optional plus sign and digits, whose value must fit.\<close>

definition digit_char :: "char \<Rightarrow> bool" where
  "digit_char c \<longleftrightarrow> 48 \<le> (of_char c :: nat) \<and> of_char c \<le> (57 :: nat)"

definition digits_nat :: "string \<Rightarrow> nat" where
  "digits_nat s = foldl (\<lambda>a c. 10 * a + (of_char c - 48)) 0 s"

definition parse_u64 :: "string \<Rightarrow> u64 option" where
  "parse_u64 s =
     (let ds = (if s \<noteq> [] \<and> hd s = CHR ''+'' then tl s else s)
      in if ds = [] \<or> \<not> list_all digit_char ds \<or> 2 ^ 64 \<le> digits_nat ds then None
         else Some (of_nat (digits_nat ds)))"

definition verify_ws_token :: "'f crypto \<Rightarrow> token_io \<Rightarrow> u64 \<Rightarrow> string \<Rightarrow> bytes \<Rightarrow> StatusCode + string" where
  "verify_ws_token C io now token secret =
     and_then (ok_or (tk_b64_decode io token) UNAUTHORIZED) (\<lambda>decoded.
     if \<not> tk_utf8 io decoded then Inl UNAUTHORIZED else
     and_then (ok_or (split3 decoded) UNAUTHORIZED) (\<lambda>(pseudonym, expires_str, sig_hex).
     and_then (ok_or (hex_decode C sig_hex) UNAUTHORIZED) (\<lambda>provided_sig.
     if tk_hmac io secret (token_payload pseudonym expires_str) \<noteq> provided_sig then Inl UNAUTHORIZED else
     and_then (ok_or (parse_u64 expires_str) UNAUTHORIZED) (\<lambda>expires.
     if now > expires then Inl UNAUTHORIZED else Inr pseudonym))))"

text \<open>The answer of the token endpoint: the token and its lifetime.\<close>

definition create_ws_token_handler :: "'f crypto \<Rightarrow> token_io \<Rightarrow> u64 \<Rightarrow> bytes \<Rightarrow> PlatformIdentity \<Rightarrow> string \<times> u64" where
  "create_ws_token_handler C io now secret identity =
     (generate_ws_token C io now (pf_pseudonym_id identity) secret, ws_token_ttl_secs)"

record WsConnectParams =
  wc_pseudonym :: "string option"
  wc_token :: "string option"

text \<open>\<open>flt 0\<close> and \<open>flt 1\<close> are the connection and the query; the result is the identity that is upgraded.\<close>

definition ws_handler ::
  "'f crypto \<Rightarrow> token_io \<Rightarrow> u64 \<Rightarrow> bytes \<Rightarrow> faults \<Rightarrow> int \<Rightarrow> db \<Rightarrow> WsConnectParams \<Rightarrow> StatusCode + PlatformIdentity" where
  "ws_handler C io now secret flt s d params =
     and_then (case wc_token params of
                 Some token \<Rightarrow> verify_ws_token C io now token secret
               | None \<Rightarrow> ok_or (wc_pseudonym params) UNAUTHORIZED) (\<lambda>pseudonym.
     if flt 0 then Inl INTERNAL_SERVER_ERROR
     else if flt 1 then Inl UNAUTHORIZED
     else (case get_platform_identity d s pseudonym of
             Inl _ \<Rightarrow> Inl UNAUTHORIZED
           | Inr identity \<Rightarrow> if pf_active identity then Inr identity else Inl FORBIDDEN))"

section \<open>The connection manager\<close>

type_synonym session_id = string

record ConnectionManager =
  sessions :: "string \<rightharpoonup> session_id"
  channel_subscriptions :: "string \<rightharpoonup> string set"
  user_subscriptions :: "string \<rightharpoonup> string set"

definition new_manager :: ConnectionManager where
  "new_manager = \<lparr>sessions = Map.empty, channel_subscriptions = Map.empty, user_subscriptions = Map.empty\<rparr>"

text \<open>Takes the pseudonym out of the listeners of the given channels; a channel nobody listens to is dropped.\<close>

definition drop_listener :: "string \<Rightarrow> string set \<Rightarrow> (string \<rightharpoonup> string set) \<Rightarrow> (string \<rightharpoonup> string set)" where
  "drop_listener p cs subs = (\<lambda>c. case subs c of
     None \<Rightarrow> None
   | Some listeners \<Rightarrow>
       if c \<in> cs then (if listeners - {p} = {} then None else Some (listeners - {p})) else Some listeners)"

definition drop_subscriptions :: "string \<Rightarrow> string set option \<Rightarrow> ConnectionManager \<Rightarrow> ConnectionManager" where
  "drop_subscriptions p cs m =
     (case cs of
        None \<Rightarrow> m
      | Some held \<Rightarrow> m\<lparr>channel_subscriptions := drop_listener p held (channel_subscriptions m),
                         user_subscriptions := (user_subscriptions m)(p := None)\<rparr>)"

definition add_session :: "string \<Rightarrow> session_id \<Rightarrow> ConnectionManager \<Rightarrow> ConnectionManager" where
  "add_session p sid m =
     (let m1 = (if sessions m p \<noteq> None then drop_subscriptions p (user_subscriptions m p) m else m)
      in m1\<lparr>sessions := (sessions m1)(p \<mapsto> sid)\<rparr>)"

definition remove_session :: "string \<Rightarrow> session_id \<Rightarrow> ConnectionManager \<Rightarrow> ConnectionManager" where
  "remove_session p sid m =
     (if sessions m p \<noteq> Some sid then m
      else let m1 = m\<lparr>sessions := (sessions m)(p := None)\<rparr>
           in drop_subscriptions p (user_subscriptions m1 p) m1)"

definition disconnect_user :: "string \<Rightarrow> ConnectionManager \<Rightarrow> ConnectionManager" where
  "disconnect_user p m = (case sessions m p of Some sid \<Rightarrow> remove_session p sid m | None \<Rightarrow> m)"

definition entry_insert :: "string \<Rightarrow> string \<Rightarrow> (string \<rightharpoonup> string set) \<Rightarrow> (string \<rightharpoonup> string set)" where
  "entry_insert k x subs = subs(k \<mapsto> insert x (case subs k of Some xs \<Rightarrow> xs | None \<Rightarrow> {}))"

definition subscribe :: "string \<Rightarrow> string \<Rightarrow> ConnectionManager \<Rightarrow> ConnectionManager" where
  "subscribe c p m = m\<lparr>channel_subscriptions := entry_insert c p (channel_subscriptions m),
                       user_subscriptions := entry_insert p c (user_subscriptions m)\<rparr>"

definition unsubscribe :: "string \<Rightarrow> string \<Rightarrow> ConnectionManager \<Rightarrow> ConnectionManager" where
  "unsubscribe c p m = m\<lparr>channel_subscriptions := drop_listener p {c} (channel_subscriptions m),
                         user_subscriptions := drop_listener c {p} (user_subscriptions m)\<rparr>"

section \<open>Queues\<close>

text \<open>
  A queue holds at most 256 messages; \<open>try_send\<close> fails on a full queue, and on a session whose
  connection has ended.
\<close>

type_synonym queues = "session_id \<rightharpoonup> string list"

definition queue_capacity :: nat where "queue_capacity = 256"

definition enqueue :: "string \<Rightarrow> string list \<Rightarrow> string list" where
  "enqueue msg waiting = (if length waiting < queue_capacity then waiting @ [msg] else waiting)"

definition try_send :: "session_id \<Rightarrow> string \<Rightarrow> queues \<Rightarrow> queues" where
  "try_send sid msg q = (case q sid of Some waiting \<Rightarrow> q(sid \<mapsto> enqueue msg waiting) | None \<Rightarrow> q)"

text \<open>Every listener with a session is offered the message; the order does not matter, as sessions are distinct.\<close>

definition broadcast :: "string \<Rightarrow> string \<Rightarrow> ConnectionManager \<Rightarrow> queues \<Rightarrow> queues" where
  "broadcast c msg m q =
     (case channel_subscriptions m c of
        None \<Rightarrow> q
      | Some listeners \<Rightarrow> (\<lambda>sid.
          if \<exists>p \<in> listeners. sessions m p = Some sid then map_option (enqueue msg) (q sid) else q sid))"

definition send_to :: "string \<Rightarrow> string \<Rightarrow> ConnectionManager \<Rightarrow> queues \<Rightarrow> queues" where
  "send_to p msg m q = (case sessions m p of Some sid \<Rightarrow> try_send sid msg q | None \<Rightarrow> q)"

section \<open>The two subscription maps mirror each other\<close>

definition in_entry :: "string \<Rightarrow> string \<Rightarrow> (string \<rightharpoonup> string set) \<Rightarrow> bool" where
  "in_entry k x subs \<longleftrightarrow> (\<exists>xs. subs k = Some xs \<and> x \<in> xs)"

definition no_empty :: "(string \<rightharpoonup> string set) \<Rightarrow> bool" where
  "no_empty subs \<longleftrightarrow> (\<forall>k. subs k \<noteq> Some {})"

definition mirrored :: "ConnectionManager \<Rightarrow> bool" where
  "mirrored m \<longleftrightarrow>
     (\<forall>c p. in_entry c p (channel_subscriptions m) \<longleftrightarrow> in_entry p c (user_subscriptions m)) \<and>
     no_empty (channel_subscriptions m) \<and> no_empty (user_subscriptions m)"

datatype manager_op =
    AddSession string session_id
  | RemoveSession string session_id
  | DisconnectUser string
  | Subscribe string string
  | Unsubscribe string string

fun manager_step :: "manager_op \<Rightarrow> ConnectionManager \<Rightarrow> ConnectionManager" where
  "manager_step (AddSession p sid) m = add_session p sid m"
| "manager_step (RemoveSession p sid) m = remove_session p sid m"
| "manager_step (DisconnectUser p) m = disconnect_user p m"
| "manager_step (Subscribe c p) m = subscribe c p m"
| "manager_step (Unsubscribe c p) m = unsubscribe c p m"

lemma in_entry_drop: "in_entry c x (drop_listener p cs subs) \<longleftrightarrow> in_entry c x subs \<and> \<not> (x = p \<and> c \<in> cs)"
  by (auto simp: in_entry_def drop_listener_def split: option.splits)

lemma in_entry_insert: "in_entry k' x' (entry_insert k x subs) \<longleftrightarrow> in_entry k' x' subs \<or> (k' = k \<and> x' = x)"
  by (auto simp: in_entry_def entry_insert_def split: option.splits)

lemma in_entry_delete: "in_entry k x (subs(p := None)) \<longleftrightarrow> in_entry k x subs \<and> k \<noteq> p"
  by (auto simp: in_entry_def)

lemma no_empty_entry [simp]:
  "no_empty subs \<Longrightarrow> no_empty (drop_listener p cs subs)"
  "no_empty subs \<Longrightarrow> no_empty (entry_insert k x subs)"
  "no_empty subs \<Longrightarrow> no_empty (subs(p := None))"
  by (auto simp: no_empty_def drop_listener_def entry_insert_def split: option.splits)

lemma mirrored_drop:
  assumes "mirrored m"
  shows "mirrored (drop_subscriptions p (user_subscriptions m p) m)"
proof (cases "user_subscriptions m p")
  case None
  then show ?thesis using assms by (simp add: drop_subscriptions_def)
next
  case (Some cs)
  then have "in_entry p c (user_subscriptions m) \<longleftrightarrow> c \<in> cs" for c by (simp add: in_entry_def)
  with assms Some show ?thesis
    by (auto simp: mirrored_def drop_subscriptions_def in_entry_drop in_entry_delete)
qed

lemma mirrored_sessions [simp]: "mirrored (m\<lparr>sessions := x\<rparr>) = mirrored m"
  by (simp add: mirrored_def)

lemma mirrored_remove: "mirrored m \<Longrightarrow> mirrored (remove_session p sid m)"
  using mirrored_drop [of "m\<lparr>sessions := (sessions m)(p := None)\<rparr>" p] by (simp add: remove_session_def Let_def)

interpretation manager: invariant_machine manager_step mirrored
proof (standard, goal_cases)
  case (1 m op)
  then show ?case
  proof (cases op)
    case (AddSession p sid)
    then show ?thesis using 1 by (simp add: add_session_def Let_def mirrored_drop)
  next
    case (RemoveSession p sid)
    then show ?thesis using 1 by (simp add: mirrored_remove)
  next
    case (DisconnectUser p)
    then show ?thesis using 1 by (simp add: disconnect_user_def mirrored_remove split: option.split)
  next
    case (Subscribe c p)
    then show ?thesis
      using 1 by (auto simp: mirrored_def subscribe_def in_entry_insert)
  next
    case (Unsubscribe c p)
    then show ?thesis
      using 1 by (auto simp: mirrored_def unsubscribe_def in_entry_drop)
  qed
qed

lemma mirrored_new: "mirrored new_manager"
  by (simp add: mirrored_def new_manager_def in_entry_def no_empty_def)

text \<open>
  C22. Whatever sessions come and go and whatever is subscribed, as long as each operation runs
  as a whole: a pseudonym listens to a channel exactly when the channel is among the
  pseudonym's, no empty set is kept, a broadcast is offered exactly to the sessions of the
  pseudonyms that hold the channel, and a pseudonym whose session has been removed by its own
  connection listens to nothing.
\<close>

theorem broadcast_reaches_subscribers:
  "\<forall>ops m. m = fold manager_step ops new_manager \<longrightarrow> mirrored m
     \<and> (\<forall>c msg q sid. broadcast c msg m q sid =
          (if \<exists>p. in_entry p c (user_subscriptions m) \<and> sessions m p = Some sid
           then map_option (enqueue msg) (q sid) else q sid))
     \<and> (\<forall>p sid c. sessions m p = Some sid \<longrightarrow>
          \<not> in_entry c p (channel_subscriptions (remove_session p sid m)) \<and> user_subscriptions (remove_session p sid m) p = None)"
proof (intro allI impI)
  fix ops m
  assume m: "m = fold manager_step ops new_manager"
  have ok: "mirrored m" unfolding m by (rule manager.run_inv [OF mirrored_new])
  have b: "broadcast c msg m q sid = (if \<exists>p. in_entry p c (user_subscriptions m) \<and> sessions m p = Some sid
      then map_option (enqueue msg) (q sid) else q sid)" for c msg q sid
  proof -
    have "in_entry p c (user_subscriptions m) \<longleftrightarrow> in_entry c p (channel_subscriptions m)" for p
      using ok by (simp add: mirrored_def)
    then show ?thesis by (auto simp: broadcast_def in_entry_def split: option.split)
  qed
  have r: "\<not> in_entry c p (channel_subscriptions (remove_session p sid m)) \<and> user_subscriptions (remove_session p sid m) p = None"
    if s: "sessions m p = Some sid" for p sid c
  proof -
    have u: "user_subscriptions (remove_session p sid m) p = None"
      by (simp add: remove_session_def s Let_def drop_subscriptions_def split: option.split)
    have "mirrored (remove_session p sid m)" using ok by (rule mirrored_remove)
    then have "in_entry c p (channel_subscriptions (remove_session p sid m)) \<longleftrightarrow> in_entry p c (user_subscriptions (remove_session p sid m))"
      by (simp add: mirrored_def)
    with u show ?thesis by (simp add: in_entry_def)
  qed
  show "mirrored m \<and> (\<forall>c msg q sid. broadcast c msg m q sid =
          (if \<exists>p. in_entry p c (user_subscriptions m) \<and> sessions m p = Some sid
           then map_option (enqueue msg) (q sid) else q sid))
     \<and> (\<forall>p sid c. sessions m p = Some sid \<longrightarrow>
          \<not> in_entry c p (channel_subscriptions (remove_session p sid m)) \<and> user_subscriptions (remove_session p sid m) p = None)"
    using ok b r by blast
qed

theorem broadcast_reaches_subscribers_witness:
  "\<exists>m. m = fold manager_step [AddSession ''a'' ''1'', Subscribe ''c'' ''a''] new_manager \<and> mirrored m
     \<and> broadcast ''c'' ''hi'' m [''1'' \<mapsto> []] ''1'' = Some [''hi'']"
proof -
  define m where "m = fold manager_step [AddSession ''a'' ''1'', Subscribe ''c'' ''a''] new_manager"
  have "in_entry ''a'' ''c'' (user_subscriptions m) \<and> sessions m ''a'' = Some ''1''"
    by (simp add: m_def add_session_def subscribe_def new_manager_def in_entry_def entry_insert_def Let_def)
  then have "broadcast ''c'' ''hi'' m [''1'' \<mapsto> []] ''1'' = Some [''hi'']" "mirrored m"
    using broadcast_reaches_subscribers [rule_format, OF m_def] by (auto simp: enqueue_def queue_capacity_def)
  then show ?thesis using m_def by blast
qed

section \<open>The sections that hold a lock\<close>

text \<open>
  An operation of the manager takes its locks one after the other; the sections of different
  tasks can run in any order. A section changes one map, with arguments that its operation has
  read before. (\<open>subscribe\<close> and \<open>unsubscribe\<close> keep their first lock while they take the second, so
  the code has fewer interleavings than all those of the sections.)
\<close>

datatype manager_section =
    PutSession string session_id
  | TakeSession string session_id
  | ClearListener string "string set"
  | ClearUser string
  | AddListener string string
  | AddChannel string string
  | DropChannel string string

fun section_step :: "manager_section \<Rightarrow> ConnectionManager \<Rightarrow> ConnectionManager" where
  "section_step (PutSession p sid) m = m\<lparr>sessions := (sessions m)(p \<mapsto> sid)\<rparr>"
| "section_step (TakeSession p sid) m = (if sessions m p = Some sid then m\<lparr>sessions := (sessions m)(p := None)\<rparr> else m)"
| "section_step (ClearListener p cs) m = m\<lparr>channel_subscriptions := drop_listener p cs (channel_subscriptions m)\<rparr>"
| "section_step (ClearUser p) m = m\<lparr>user_subscriptions := (user_subscriptions m)(p := None)\<rparr>"
| "section_step (AddListener c p) m = m\<lparr>channel_subscriptions := entry_insert c p (channel_subscriptions m)\<rparr>"
| "section_step (AddChannel c p) m = m\<lparr>user_subscriptions := entry_insert p c (user_subscriptions m)\<rparr>"
| "section_step (DropChannel c p) m = m\<lparr>user_subscriptions := drop_listener c {p} (user_subscriptions m)\<rparr>"

text \<open>The sections of an operation that runs without interference.\<close>

definition clear_sections :: "string \<Rightarrow> ConnectionManager \<Rightarrow> manager_section list" where
  "clear_sections p m = (case user_subscriptions m p of Some cs \<Rightarrow> [ClearListener p cs, ClearUser p] | None \<Rightarrow> [])"

fun sections_of :: "manager_op \<Rightarrow> ConnectionManager \<Rightarrow> manager_section list" where
  "sections_of (AddSession p sid) m = (if sessions m p \<noteq> None then clear_sections p m else []) @ [PutSession p sid]"
| "sections_of (RemoveSession p sid) m = TakeSession p sid # (if sessions m p = Some sid then clear_sections p m else [])"
| "sections_of (DisconnectUser p) m =
     (case sessions m p of Some sid \<Rightarrow> TakeSession p sid # clear_sections p m | None \<Rightarrow> [])"
| "sections_of (Subscribe c p) m = [AddListener c p, AddChannel c p]"
| "sections_of (Unsubscribe c p) m = [ClearListener p {c}, DropChannel c p]"

lemma sections_refine: "fold section_step (sections_of op m) m = manager_step op m"
  by (cases op) (simp_all add: clear_sections_def add_session_def remove_session_def disconnect_user_def subscribe_def
      unsubscribe_def drop_subscriptions_def Let_def split: option.split)

definition no_empty_sets :: "ConnectionManager \<Rightarrow> bool" where
  "no_empty_sets m \<longleftrightarrow> no_empty (channel_subscriptions m) \<and> no_empty (user_subscriptions m)"

interpretation manager_sections: invariant_machine section_step no_empty_sets
proof (standard, goal_cases)
  case (1 m x)
  then show ?case by (cases x) (simp_all add: no_empty_sets_def)
qed

lemma no_empty_sets_op: "no_empty_sets m \<Longrightarrow> no_empty_sets (manager_step op m)"
  unfolding sections_refine [symmetric] by (rule manager_sections.run_inv)

section \<open>Removing a session, lock by lock\<close>

text \<open>
  Between the four sections of \<open>remove_session\<close> that hold a lock, other tasks run. A removal
  that has begun is where it stands.
\<close>

datatype removal =
    Start string session_id
  | Collect string
  | DropChannels string "string set"
  | DropUser string
  | Finished

inductive removal_step :: "removal \<times> ConnectionManager \<Rightarrow> removal \<times> ConnectionManager \<Rightarrow> bool" where
  stale: "sessions m p \<noteq> Some sid \<Longrightarrow> removal_step (Start p sid, m) (Finished, m)"
| taken: "sessions m p = Some sid \<Longrightarrow> removal_step (Start p sid, m) (Collect p, m\<lparr>sessions := (sessions m)(p := None)\<rparr>)"
| nothing: "user_subscriptions m p = None \<Longrightarrow> removal_step (Collect p, m) (Finished, m)"
| collected: "user_subscriptions m p = Some cs \<Longrightarrow> removal_step (Collect p, m) (DropChannels p cs, m)"
| dropped: "removal_step (DropChannels p cs, m)
    (DropUser p, m\<lparr>channel_subscriptions := drop_listener p cs (channel_subscriptions m)\<rparr>)"
| removed: "removal_step (DropUser p, m) (Finished, m\<lparr>user_subscriptions := (user_subscriptions m)(p := None)\<rparr>)"

text \<open>Another task may run an operation of its own in between.\<close>

inductive interleaved :: "removal \<times> ConnectionManager \<Rightarrow> removal \<times> ConnectionManager \<Rightarrow> bool" where
  own: "removal_step x y \<Longrightarrow> interleaved x y"
| other: "interleaved (r, m) (r, manager_step op m)"

inductive_cases removal_step_cases:
  "removal_step (Start p sid, m) y"
  "removal_step (Collect p, m) y"
  "removal_step (DropChannels p cs, m) y"
  "removal_step (DropUser p, m) y"
  "removal_step (Finished, m) y"

text \<open>What is left to do, as one operation.\<close>

fun complete :: "removal \<Rightarrow> ConnectionManager \<Rightarrow> ConnectionManager" where
  "complete (Start p sid) m = remove_session p sid m"
| "complete (Collect p) m = drop_subscriptions p (user_subscriptions m p) m"
| "complete (DropChannels p cs) m = drop_subscriptions p (Some cs) m"
| "complete (DropUser p) m = m\<lparr>user_subscriptions := (user_subscriptions m)(p := None)\<rparr>"
| "complete Finished m = m"

lemma removal_step_complete: "removal_step (r, m) (r', m') \<Longrightarrow> complete r' m' = complete r m"
  by (cases r) (auto elim!: removal_step_cases simp: remove_session_def drop_subscriptions_def Let_def)

lemma removal_run_complete: "removal_step\<^sup>*\<^sup>* x y \<Longrightarrow> complete (fst y) (snd y) = complete (fst x) (snd x)"
  by (induction rule: rtranclp_induct) (auto simp: removal_step_complete)

fun removal_measure :: "removal \<Rightarrow> nat" where
  "removal_measure (Start p sid) = 4"
| "removal_measure (Collect p) = 3"
| "removal_measure (DropChannels p cs) = 2"
| "removal_measure (DropUser p) = 1"
| "removal_measure Finished = 0"

lemma removal_progress: "r \<noteq> Finished \<Longrightarrow> \<exists>r' m'. removal_step (r, m) (r', m') \<and> removal_measure r' < removal_measure r"
proof (cases r)
  case (Start p sid)
  then show ?thesis by (cases "sessions m p = Some sid") (fastforce intro: removal_step.intros)+
next
  case (Collect p)
  then show ?thesis by (cases "user_subscriptions m p") (fastforce intro: removal_step.intros)+
qed (fastforce intro: removal_step.intros)+

lemma removal_finishes: "\<exists>m'. removal_step\<^sup>*\<^sup>* (r, m) (Finished, m')"
proof (induction r arbitrary: m rule: measure_induct_rule [of removal_measure])
  case (less r)
  show ?case
  proof (cases "r = Finished")
    case False
    then obtain r' m' where st: "removal_step (r, m) (r', m')" and "removal_measure r' < removal_measure r"
      using removal_progress by blast
    then obtain m'' where "removal_step\<^sup>*\<^sup>* (r', m') (Finished, m'')" using less by blast
    with st show ?thesis by (meson converse_rtranclp_into_rtranclp)
  qed blast
qed

text \<open>
  Without interference the locked sections implement the removal: they run to the end, and
  the only final state is the one \<open>remove_session\<close> computes.
\<close>

theorem removal_refines: "removal_step\<^sup>*\<^sup>* (Start p sid, m) (Finished, m') \<longleftrightarrow> m' = remove_session p sid m"
proof
  show "removal_step\<^sup>*\<^sup>* (Start p sid, m) (Finished, m') \<Longrightarrow> m' = remove_session p sid m"
    using removal_run_complete [of "(Start p sid, m)" "(Finished, m')"] by simp
next
  assume "m' = remove_session p sid m"
  moreover obtain m2 where "removal_step\<^sup>*\<^sup>* (Start p sid, m) (Finished, m2)" using removal_finishes by blast
  moreover from this have "m2 = remove_session p sid m"
    using removal_run_complete [of "(Start p sid, m)" "(Finished, m2)"] by simp
  ultimately show "removal_step\<^sup>*\<^sup>* (Start p sid, m) (Finished, m')" by simp
qed

text \<open>
  With interference the removal can leave a subscription behind. When the connection of a
  pseudonym subscribes to one more channel after the removal has read the pseudonym's channels
  (a policy change disconnects the user while its socket is still served), the pseudonym ends
  with no session and no channels of its own but stays a listener of that channel; no later
  session removes it, and the next session of the pseudonym gets the broadcasts of a channel
  it has not subscribed to.
\<close>

theorem removal_race:
  assumes "sessions m p = Some sid" and "user_subscriptions m p = Some held" and "c \<notin> held"
  shows "\<exists>m'. interleaved\<^sup>*\<^sup>* (Start p sid, m) (Finished, m') \<and> sessions m' p = None \<and> user_subscriptions m' p = None
    \<and> in_entry c p (channel_subscriptions m') \<and> \<not> mirrored m'
    \<and> (\<forall>sid' msg q. broadcast c msg (add_session p sid' m') q sid' = map_option (enqueue msg) (q sid'))"
proof -
  define m1 where "m1 = m\<lparr>sessions := (sessions m)(p := None)\<rparr>"
  define m2 where "m2 = subscribe c p m1"
  define m3 where "m3 = m2\<lparr>channel_subscriptions := drop_listener p held (channel_subscriptions m2)\<rparr>"
  define m4 where "m4 = m3\<lparr>user_subscriptions := (user_subscriptions m3)(p := None)\<rparr>"
  have s1: "interleaved (Start p sid, m) (Collect p, m1)"
    unfolding m1_def by (rule own, rule taken, rule assms(1))
  have s2: "interleaved (Collect p, m1) (DropChannels p held, m1)"
    by (rule own, rule collected) (simp add: m1_def assms(2))
  have s3: "interleaved (DropChannels p held, m1) (DropChannels p held, m2)"
    using other [of "DropChannels p held" m1 "Subscribe c p"] by (simp add: m2_def)
  have s4: "interleaved (DropChannels p held, m2) (DropUser p, m3)"
    unfolding m3_def by (rule own, rule dropped)
  have s5: "interleaved (DropUser p, m3) (Finished, m4)"
    unfolding m4_def by (rule own, rule removed)
  have run: "interleaved\<^sup>*\<^sup>* (Start p sid, m) (Finished, m4)"
    by (rule converse_rtranclp_into_rtranclp [OF s1 converse_rtranclp_into_rtranclp [OF s2
          converse_rtranclp_into_rtranclp [OF s3 converse_rtranclp_into_rtranclp [OF s4 r_into_rtranclp [of interleaved, OF s5]]]]])
  have s: "sessions m4 p = None" by (simp add: m4_def m3_def m2_def m1_def subscribe_def)
  have u: "user_subscriptions m4 p = None" by (simp add: m4_def)
  have l: "in_entry c p (channel_subscriptions m4)"
    using assms(3) by (simp add: m4_def m3_def m2_def subscribe_def in_entry_drop in_entry_insert)
  have "\<not> in_entry p c (user_subscriptions m4)" by (simp add: in_entry_def u)
  with l have n: "\<not> mirrored m4" by (auto simp: mirrored_def)
  have b: "broadcast c msg (add_session p sid' m4) q sid' = map_option (enqueue msg) (q sid')" for sid' msg q
    using l by (auto simp: add_session_def s Let_def broadcast_def in_entry_def split: option.split)
  show ?thesis by (intro exI [of _ m4] conjI allI run s u l n b)
qed

theorem removal_race_witness:
  "\<exists>m m'. m = fold manager_step [AddSession ''a'' ''1'', Subscribe ''c'' ''a''] new_manager
     \<and> interleaved\<^sup>*\<^sup>* (Start ''a'' ''1'', m) (Finished, m') \<and> in_entry ''d'' ''a'' (channel_subscriptions m') \<and> \<not> mirrored m'"
proof -
  define m where "m = fold manager_step [AddSession ''a'' ''1'', Subscribe ''c'' ''a''] new_manager"
  have "sessions m ''a'' = Some ''1''" "user_subscriptions m ''a'' = Some {''c''}"
    by (simp_all add: m_def add_session_def subscribe_def new_manager_def entry_insert_def Let_def)
  from removal_race [OF this, of "''d''"] m_def show ?thesis by auto
qed

section \<open>What a token proves\<close>

definition ascii :: "string \<Rightarrow> bool" where
  "ascii s \<longleftrightarrow> (\<forall>c \<in> set s. of_char c < (128 :: nat))"

definition token_laws :: "token_io \<Rightarrow> bool" where
  "token_laws io \<longleftrightarrow> (\<forall>b. tk_b64_decode io (tk_b64_encode io b) = Some b) \<and> (\<forall>b. ascii b \<longrightarrow> tk_utf8 io b)"

lemma split3_parts: "CHR ''|'' \<notin> set a \<Longrightarrow> CHR ''|'' \<notin> set b \<Longrightarrow> split3 (a @ CHR ''|'' # b @ CHR ''|'' # r) = Some (a, b, r)"
  by (auto simp: split3_def dropWhile_append takeWhile_append split: list.split)

lemma split3_Some: "split3 s = Some (a, b, r) \<Longrightarrow> s = a @ CHR ''|'' # b @ CHR ''|'' # r"
proof -
  assume h: "split3 s = Some (a, b, r)"
  let ?P = "\<lambda>c. c \<noteq> CHR ''|''"
  obtain x s1 where s1: "dropWhile ?P s = x # s1" using h by (auto simp: split3_def split: list.splits)
  obtain y s2 where s2: "dropWhile ?P s1 = y # s2" using h s1 by (auto simp: split3_def split: list.splits)
  have e: "a = takeWhile ?P s" "b = takeWhile ?P s1" "r = s2" using h by (simp_all add: split3_def s1 s2)
  have "x = CHR ''|''" "y = CHR ''|''"
    using hd_dropWhile [of ?P s] hd_dropWhile [of ?P s1] by (simp_all add: s1 s2)
  then show ?thesis using takeWhile_dropWhile_id [of ?P s] takeWhile_dropWhile_id [of ?P s1] by (simp add: s1 s2 e)
qed

lemma decimal_chars: "c \<in> set (decimal n) \<Longrightarrow> digit_char c"
  using decimal_digits [of n] by (auto simp: digit_char_def of_char_of)

lemma parse_u64_decimal: "n < 2 ^ 64 \<Longrightarrow> parse_u64 (decimal n) = Some (of_nat n)"
proof -
  assume n: "n < 2 ^ 64"
  have d: "\<forall>c \<in> set (decimal n). digit_char c" by (simp add: decimal_chars)
  have e: "decimal n \<noteq> []" by (subst decimal.simps) simp
  have "\<not> digit_char (CHR ''+'')" by (simp add: digit_char_def)
  then have "hd (decimal n) \<noteq> CHR ''+''" using d e hd_in_set [OF e] by metis
  moreover have "digits_nat (decimal n) = n" unfolding digits_nat_def by (rule decimal_value)
  ultimately show ?thesis using n d e by (simp add: parse_u64_def Let_def list_all_iff)
qed

text \<open>
  A session token is good for its pseudonym for sixty seconds and no longer: for a pseudonym
  without the separator, what \<open>generate_ws_token\<close> issues is accepted by \<open>verify_ws_token\<close> with
  the same secret exactly up to sixty seconds later, and as often as it is presented. Conversely
  whatever token is accepted carries the HMAC of the pseudonym and an expiry that has not passed.
\<close>

theorem ws_token_lifetime:
  assumes "hex_laws C" and "token_laws io" and "CHR ''|'' \<notin> set p" and "ascii p" and "unat now + 60 < 2 ^ 64"
  shows "verify_ws_token C io later (generate_ws_token C io now p secret) secret
      = (if later \<le> now + 60 then Inr p else Inl UNAUTHORIZED)
    \<and> (\<forall>token q. verify_ws_token C io later token secret = Inr q \<longrightarrow>
        (\<exists>e sig expires. tk_b64_decode io token = Some (token_payload q e @ ''|'' @ sig)
          \<and> hex_decode C sig = Some (tk_hmac io secret (token_payload q e)) \<and> parse_u64 e = Some expires \<and> later \<le> expires))"
proof -
  let ?e = "decimal (unat (now + ws_token_ttl_secs))"
  let ?mac = "tk_hmac io secret (token_payload p ?e)"
  define plain where "plain = token_payload p ?e @ ''|'' @ hex_encode C ?mac"
  have "\<not> digit_char (CHR ''|'')" by (simp add: digit_char_def)
  then have "CHR ''|'' \<notin> set ?e" using decimal_chars by blast
  then have sp: "split3 plain = Some (p, ?e, hex_encode C ?mac)"
    using split3_parts [OF assms(3), of ?e "hex_encode C ?mac"] by (simp add: plain_def token_payload_def)
  have hx: "ascii (hex_encode C ?mac)"
  proof -
    have "is_lower_hex x \<Longrightarrow> of_char x < (128 :: nat)" for x by (auto simp: is_lower_hex_def is_ascii_digit_def less_eq_char_def)
    then show ?thesis using assms(1) by (auto simp: hex_laws_def ascii_def list_all_iff)
  qed
  have "ascii ?e" using decimal_chars by (fastforce simp: ascii_def digit_char_def)
  with hx assms(4) have "ascii plain" by (auto simp: ascii_def plain_def token_payload_def)
  then have u: "tk_utf8 io plain" and b: "tk_b64_decode io (tk_b64_encode io plain) = Some plain"
    using assms(2) by (simp_all add: token_laws_def)
  have "unat (now + ws_token_ttl_secs) < 2 ^ 64" using unsigned_less [of "now + ws_token_ttl_secs", where ?'a = nat] by simp
  then have pe: "parse_u64 ?e = Some (now + 60)" by (simp add: parse_u64_decimal ws_token_ttl_secs_def)
  have gen: "generate_ws_token C io now p secret = tk_b64_encode io plain"
    by (simp add: generate_ws_token_def Let_def plain_def)
  have "verify_ws_token C io later (generate_ws_token C io now p secret) secret
      = (if later \<le> now + 60 then Inr p else Inl UNAUTHORIZED)"
    using assms(1) by (simp add: verify_ws_token_def gen b u sp pe hex_laws_def not_le)
  moreover have "\<exists>e sig expires. tk_b64_decode io token = Some (token_payload q e @ ''|'' @ sig)
          \<and> hex_decode C sig = Some (tk_hmac io secret (token_payload q e)) \<and> parse_u64 e = Some expires \<and> later \<le> expires"
    if h: "verify_ws_token C io later token secret = Inr q" for token q
  proof -
    obtain dec a e sig mac expires where t: "tk_b64_decode io token = Some dec" "split3 dec = Some (a, e, sig)"
      "hex_decode C sig = Some mac" "tk_hmac io secret (token_payload a e) = mac" "parse_u64 e = Some expires"
      "\<not> later > expires" "q = a"
      using h by (auto simp: verify_ws_token_def res_simps split: if_splits prod.splits)
    have "dec = token_payload a e @ ''|'' @ sig" using split3_Some [OF t(2)] by (simp add: token_payload_def)
    with t show ?thesis by (intro exI [of _ e] exI [of _ sig] exI [of _ expires]) (simp add: not_less)
  qed
  ultimately show ?thesis by blast
qed

definition demo_token_io :: token_io where
  "demo_token_io = \<lparr>tk_hmac = (\<lambda>k m. k @ m), tk_b64_encode = (\<lambda>b. b), tk_b64_decode = Some, tk_utf8 = (\<lambda>_. True)\<rparr>"

theorem ws_token_lifetime_witness:
  "verify_ws_token demo_crypto demo_token_io 160 (generate_ws_token demo_crypto demo_token_io 100 ''a'' ''k'') ''k'' = Inr ''a''
   \<and> verify_ws_token demo_crypto demo_token_io 161 (generate_ws_token demo_crypto demo_token_io 100 ''a'' ''k'') ''k'' = Inl UNAUTHORIZED"
proof -
  have "token_laws demo_token_io" by (simp add: token_laws_def demo_token_io_def)
  from ws_token_lifetime [OF demo_hex_laws this, of "''a''" 100 _ "''k''", THEN conjunct1] show ?thesis
    by (simp add: ascii_def)
qed

end
