(* ===== verification/Annex_Ws.thy ===== *)
theory Annex_Ws
  imports Annex_Connections Annex_Channels_Api Annex_Agents
begin

text \<open>
  \<open>annex-server/src/api_ws.rs\<close>, second part: what a WebSocket connection does with the messages it
  receives. The state of the server is the database, the connection manager, the queues of
  the open connections and the voice clients. A function gives what handling a message to its
  end does when nothing comes between; the invariant of the whole is stated for the lock sections
  and table operations of all tasks in any order. The activity updates, which run in tasks of
  their own, are taken where they are spawned. The JSON of the messages and the
  identifiers (\<open>Uuid::new_v4\<close>) are arguments; the texts
  sent for failures end where they would quote a library. The locks are not poisoned.
\<close>

section \<open>Messages\<close>

datatype IncomingMessage =
    SubscribeTo string
  | UnsubscribeFrom string
  | SendMessage string string "string option"
  | EditMessage string string string
  | DeleteMessage string string
  | VoiceIntent string string

record WsMessagePayload =
  wp_channel_id :: string
  wp_message_id :: string
  wp_sender_pseudonym :: string
  wp_content :: string
  wp_reply_to_message_id :: "string option"
  wp_created_at :: time
  wp_edited_at :: "time option"
  wp_deleted_at :: "time option"

definition payload_of :: "Message \<Rightarrow> WsMessagePayload" where
  "payload_of m = \<lparr>wp_channel_id = mg_channel_id m, wp_message_id = mg_message_id m,
     wp_sender_pseudonym = mg_sender_pseudonym m, wp_content = mg_content m,
     wp_reply_to_message_id = mg_reply_to_message_id m, wp_created_at = mg_created_at m,
     wp_edited_at = mg_edited_at m, wp_deleted_at = mg_deleted_at m\<rparr>"

datatype OutgoingMessage =
    OutMessage WsMessagePayload
  | OutEdited WsMessagePayload
  | OutDeleted WsMessagePayload
  | Transcription string string string
  | OutError string

record ws_json =
  incoming_from_json :: "string \<Rightarrow> IncomingMessage option"
  outgoing_to_json :: "OutgoingMessage \<Rightarrow> string option"

record ws_state =
  ws_db :: db
  ws_manager :: ConnectionManager
  ws_queues :: queues
  ws_voices :: voice_sessions

definition max_ws_message_content_len :: nat where "max_ws_message_content_len = 65536"
definition max_voice_intent_text_len :: nat where "max_voice_intent_text_len = 2048"
definition activity_debounce :: nat where "activity_debounce = 30 * 10 ^ 9"

section \<open>Steps that the messages share\<close>

datatype MembershipResult = Allowed | Denied | CheckFailed

definition check_ws_membership :: "faults \<Rightarrow> int \<Rightarrow> db \<Rightarrow> string \<Rightarrow> string \<Rightarrow> MembershipResult" where
  "check_ws_membership flt s d c p =
     (if flt 0 \<or> flt 1 then CheckFailed else if is_member d s c p then Allowed else Denied)"

text \<open>The text sent when the check does not allow the message.\<close>

definition membership_error :: "string \<Rightarrow> MembershipResult \<Rightarrow> string option" where
  "membership_error c r =
     (case r of
        Allowed \<Rightarrow> None
      | Denied \<Rightarrow> Some (''Not a member of channel '' @ c)
      | CheckFailed \<Rightarrow> Some ''Internal error checking channel membership'')"

text \<open>An error goes to the queue of the connection itself.\<close>

definition send_ws_error :: "ws_json \<Rightarrow> session_id \<Rightarrow> string \<Rightarrow> ws_state \<Rightarrow> ws_state" where
  "send_ws_error J sid message st =
     (case outgoing_to_json J (OutError message) of
        Some json \<Rightarrow> st\<lparr>ws_queues := try_send sid json (ws_queues st)\<rparr>
      | None \<Rightarrow> st)"

definition broadcast_out :: "ws_json \<Rightarrow> string \<Rightarrow> OutgoingMessage \<Rightarrow> ws_state \<Rightarrow> ws_state" where
  "broadcast_out J c out st =
     (case outgoing_to_json J out of
        Some json \<Rightarrow> st\<lparr>ws_queues := broadcast c json (ws_manager st) (ws_queues st)\<rparr>
      | None \<Rightarrow> st)"

definition too_long_text :: string where
  "too_long_text = ''Message content exceeds maximum length of '' @ decimal max_ws_message_content_len @ '' bytes''"

definition channel_error_text :: "ChannelError \<Rightarrow> string" where
  "channel_error_text e =
     (case e of
        ChDatabase _ \<Rightarrow> ''database error: ''
      | ChNotFound x \<Rightarrow> ''channel not found: '' @ x
      | ChJson \<Rightarrow> ''json serialization error: '')"

definition voice_error_text :: "VoiceError \<Rightarrow> string" where
  "voice_error_text e =
     (case e of
        LiveKit \<Rightarrow> ''LiveKit API error: ''
      | RoomService x \<Rightarrow> ''Room service error: '' @ x
      | Config x \<Rightarrow> ''Invalid configuration: '' @ x
      | Tts x \<Rightarrow> ''TTS error: '' @ x
      | Stt x \<Rightarrow> ''STT error: '' @ x
      | ProfileNotFound x \<Rightarrow> ''Voice profile not found: '' @ x)"

section \<open>One message\<close>

text \<open>
  The server's side of a connection: what the handler reads of the application state. The
  numbering of the faults starts anew with each message.
\<close>

record ws_server =
  sr_id :: int
  sr_serde :: serde
  sr_json :: ws_json
  sr_voice :: voice_context
  sr_tts :: TtsService
  sr_os :: voice_os
  sr_profiles :: "voice_profile_row list"

definition on_subscribe :: "ws_server \<Rightarrow> faults \<Rightarrow> session_id \<Rightarrow> string \<Rightarrow> string \<Rightarrow> ws_state \<Rightarrow> ws_state" where
  "on_subscribe W flt sid p c st =
     (case membership_error c (check_ws_membership flt (sr_id W) (ws_db st) c p) of
        Some t \<Rightarrow> send_ws_error (sr_json W) sid t st
      | None \<Rightarrow> st\<lparr>ws_manager := subscribe c p (ws_manager st)\<rparr>)"

text \<open>
  The message is stored before the channel is read for its scope; the second component is the
  message to relay.
\<close>

definition persist_message ::
  "serde \<Rightarrow> faults \<Rightarrow> time \<Rightarrow> db \<Rightarrow> CreateMessageParams \<Rightarrow> (unit + (Message \<times> bool)) \<times> db" where
  "persist_message S flt now d params =
     (if flt 2 \<or> flt 3 then (Inl (), d)
      else case create_message S now d params of
        (Inl _, d') \<Rightarrow> (Inl (), d')
      | (Inr msg, d') \<Rightarrow>
          if flt 4 then (Inl (), d')
          else (case get_channel S d' (mp_channel_id params) of
                  Inl _ \<Rightarrow> (Inl (), d')
                | Inr ch \<Rightarrow> (Inr (msg, cn_federation_scope ch = Federated), d')))"

definition on_message ::
  "ws_server \<Rightarrow> faults \<Rightarrow> time \<Rightarrow> string \<Rightarrow> session_id \<Rightarrow> string \<Rightarrow> string \<Rightarrow> string \<Rightarrow> string option \<Rightarrow> ws_state
     \<Rightarrow> ws_state \<times> (string \<times> Message) option" where
  "on_message W flt now uuid sid p c content reply_to st =
     (if length content > max_ws_message_content_len then (send_ws_error (sr_json W) sid too_long_text st, None)
      else case membership_error c (check_ws_membership flt (sr_id W) (ws_db st) c p) of
        Some t \<Rightarrow> (send_ws_error (sr_json W) sid t st, None)
      | None \<Rightarrow>
          (case persist_message (sr_serde W) flt now (ws_db st)
                  \<lparr>mp_channel_id = c, mp_message_id = uuid, mp_sender_pseudonym = p, mp_content = content,
                   mp_reply_to_message_id = reply_to\<rparr> of
             (Inl _, d') \<Rightarrow>
               (send_ws_error (sr_json W) sid ''Failed to send message: internal error'' (st\<lparr>ws_db := d'\<rparr>), None)
           | (Inr (msg, is_federated), d') \<Rightarrow>
               (broadcast_out (sr_json W) (mg_channel_id msg) (OutMessage (payload_of msg)) (st\<lparr>ws_db := d'\<rparr>),
                if is_federated then Some (mg_channel_id msg, msg) else None)))"

text \<open>Editing and deleting broadcast to the channel that the stored message names.\<close>

definition on_edit ::
  "ws_server \<Rightarrow> faults \<Rightarrow> time \<Rightarrow> session_id \<Rightarrow> string \<Rightarrow> string \<Rightarrow> string \<Rightarrow> string \<Rightarrow> ws_state \<Rightarrow> ws_state" where
  "on_edit W flt now sid p c m content st =
     (if length content > max_ws_message_content_len then send_ws_error (sr_json W) sid too_long_text st
      else case membership_error c (check_ws_membership flt (sr_id W) (ws_db st) c p) of
        Some t \<Rightarrow> send_ws_error (sr_json W) sid t st
      | None \<Rightarrow>
          if flt 2 then send_ws_error (sr_json W) sid ''Edit failed: '' st
          else (case edit_message (\<lambda>i. flt (3 + i)) now (ws_db st) m p content of
             (Inl e, d') \<Rightarrow> send_ws_error (sr_json W) sid (''Edit failed: '' @ channel_error_text e) (st\<lparr>ws_db := d'\<rparr>)
           | (Inr msg, d') \<Rightarrow> broadcast_out (sr_json W) (mg_channel_id msg) (OutEdited (payload_of msg)) (st\<lparr>ws_db := d'\<rparr>)))"

definition on_delete ::
  "ws_server \<Rightarrow> faults \<Rightarrow> time \<Rightarrow> session_id \<Rightarrow> string \<Rightarrow> string \<Rightarrow> string \<Rightarrow> ws_state \<Rightarrow> ws_state" where
  "on_delete W flt now sid p c m st =
     (case membership_error c (check_ws_membership flt (sr_id W) (ws_db st) c p) of
        Some t \<Rightarrow> send_ws_error (sr_json W) sid t st
      | None \<Rightarrow>
          if flt 2 then send_ws_error (sr_json W) sid ''Delete failed: '' st
          else (case delete_message now (ws_db st) m p of
             (Inl e, d') \<Rightarrow> send_ws_error (sr_json W) sid (''Delete failed: '' @ channel_error_text e) (st\<lparr>ws_db := d'\<rparr>)
           | (Inr msg, d') \<Rightarrow> broadcast_out (sr_json W) (mg_channel_id msg) (OutDeleted (payload_of msg)) (st\<lparr>ws_db := d'\<rparr>)))"

text \<open>The voice of an agent: the assigned profile, or the default when none is assigned or the lookup fails.\<close>

definition voice_profile_of :: "ws_server \<Rightarrow> faults \<Rightarrow> db \<Rightarrow> string \<Rightarrow> string" where
  "voice_profile_of W flt d p =
     (if flt 2 \<or> flt 3 then ''default''
      else case List.map_filter (\<lambda>r. case ar_voice_profile r of
                  None \<Rightarrow> None
                | Some i \<Rightarrow> first_where (\<lambda>v. vr_id v = i) (sr_profiles W))
                (filter (is_agent (sr_id W) p) (agent_rows d)) of
             v # _ \<Rightarrow> vr_profile v
           | [] \<Rightarrow> ''default'')"

text \<open>The client of the agent's voice session, connected if there is none yet.\<close>

definition voice_client :: "voice_context \<Rightarrow> string \<Rightarrow> string \<Rightarrow> voice_sessions \<Rightarrow> (string + AgentVoiceClient) \<times> voice_sessions" where
  "voice_client V c p voices =
     (case voices p of
        Some client \<Rightarrow> (Inr client, voices)
      | None \<Rightarrow>
          (case generate_join_token (vx_livekit V) (vx_config V) c p p of
             Inl _ \<Rightarrow> (Inl ''Failed to generate voice token'', voices)
           | Inr token \<Rightarrow>
               (case connect (vx_livekit V) (lk_url (vx_config V)) token c (vx_stt V)
                       (lk_api_key (vx_config V)) (lk_api_secret (vx_config V)) of
                  Inl e \<Rightarrow> (Inl (''Failed to connect voice: '' @ voice_error_text e), voices)
                | Inr client \<Rightarrow> (Inr client, voices(p \<mapsto> client)))))"

definition on_voice_intent ::
  "ws_server \<Rightarrow> faults \<Rightarrow> session_id \<Rightarrow> PlatformIdentity \<Rightarrow> string \<Rightarrow> string \<Rightarrow> ws_state \<Rightarrow> ws_state" where
  "on_voice_intent W flt sid identity c txt st =
     (let p = pf_pseudonym_id identity; fail = (\<lambda>t. send_ws_error (sr_json W) sid t) in
      if participant_type identity \<noteq> RoleCode.AiAgent then fail ''Only AI agents can use VoiceIntent'' st
      else if length txt > max_voice_intent_text_len
      then fail (''VoiceIntent text exceeds maximum length of '' @ decimal max_voice_intent_text_len @ '' bytes'') st
      else case membership_error c (check_ws_membership flt (sr_id W) (ws_db st) c p) of
        Some t \<Rightarrow> fail t st
      | None \<Rightarrow>
          (case synthesize (sr_os W) (sr_tts W) txt (voice_profile_of W flt (ws_db st) p) of
             Inl e \<Rightarrow> fail (''TTS failed: '' @ voice_error_text e) st
           | Inr audio \<Rightarrow>
               (case voice_client (sr_voice W) c p (ws_voices st) of
                  (Inl t, voices) \<Rightarrow> fail t (st\<lparr>ws_voices := voices\<rparr>)
                | (Inr client, voices) \<Rightarrow>
                    (case publish_audio (vx_livekit (sr_voice W)) client audio of
                       Inl e \<Rightarrow> fail (''Failed to publish audio: '' @ voice_error_text e) (st\<lparr>ws_voices := voices\<rparr>)
                     | Inr _ \<Rightarrow> st\<lparr>ws_voices := voices\<rparr>))))"

definition handle_incoming ::
  "ws_server \<Rightarrow> faults \<Rightarrow> time \<Rightarrow> string \<Rightarrow> session_id \<Rightarrow> PlatformIdentity \<Rightarrow> IncomingMessage \<Rightarrow> ws_state
     \<Rightarrow> ws_state \<times> (string \<times> Message) option" where
  "handle_incoming W flt now uuid sid identity incoming st =
     (let p = pf_pseudonym_id identity in
      case incoming of
        SubscribeTo c \<Rightarrow> (on_subscribe W flt sid p c st, None)
      | UnsubscribeFrom c \<Rightarrow> (st\<lparr>ws_manager := unsubscribe c p (ws_manager st)\<rparr>, None)
      | SendMessage c content reply_to \<Rightarrow> on_message W flt now uuid sid p c content reply_to st
      | EditMessage c m content \<Rightarrow> (on_edit W flt now sid p c m content st, None)
      | DeleteMessage c m \<Rightarrow> (on_delete W flt now sid p c m st, None)
      | VoiceIntent c txt \<Rightarrow> (on_voice_intent W flt sid identity c txt st, None))"

definition handle_text ::
  "ws_server \<Rightarrow> faults \<Rightarrow> time \<Rightarrow> string \<Rightarrow> session_id \<Rightarrow> PlatformIdentity \<Rightarrow> string \<Rightarrow> ws_state
     \<Rightarrow> ws_state \<times> (string \<times> Message) option" where
  "handle_text W flt now uuid sid identity txt st =
     (case incoming_from_json (sr_json W) txt of
        Some incoming \<Rightarrow> handle_incoming W flt now uuid sid identity incoming st
      | None \<Rightarrow> (send_ws_error (sr_json W) sid ''invalid message format'' st, None))"

section \<open>The life of a connection\<close>

text \<open>A failed activity update is only logged.\<close>

definition touch_activity :: "faults \<Rightarrow> time \<Rightarrow> int \<Rightarrow> string \<Rightarrow> db \<Rightarrow> db \<times> PresenceEvent option" where
  "touch_activity flt now s p d =
     (if flt 0 \<or> flt 1 then (d, None)
      else let (woken, d') = update_node_activity now d s p
           in (d', if woken then Some (NodeUpdated p True) else None))"

text \<open>Whether a frame at \<open>now\<close> touches the activity, and the time of the last touch after it (in nanoseconds).\<close>

definition debounce :: "nat \<Rightarrow> nat \<Rightarrow> bool \<times> nat" where
  "debounce now last_activity =
     (if activity_debounce \<le> now - last_activity then (True, now) else (False, last_activity))"

definition open_socket :: "session_id \<Rightarrow> PlatformIdentity \<Rightarrow> ws_state \<Rightarrow> ws_state" where
  "open_socket sid identity st =
     st\<lparr>ws_manager := add_session (pf_pseudonym_id identity) sid (ws_manager st), ws_queues := (ws_queues st)(sid \<mapsto> [])\<rparr>"

text \<open>When the loop ends, the session is removed, the queue is gone and the voice client is dropped.\<close>

definition close_socket :: "session_id \<Rightarrow> PlatformIdentity \<Rightarrow> ws_state \<Rightarrow> ws_state" where
  "close_socket sid identity st =
     st\<lparr>ws_manager := remove_session (pf_pseudonym_id identity) sid (ws_manager st),
        ws_queues := (ws_queues st)(sid := None),
        ws_voices := (ws_voices st)(pf_pseudonym_id identity := None)\<rparr>"

text \<open>A frame: a text, the request to close, or anything else, which is ignored.\<close>

datatype frame = TextFrame string | CloseFrame | OtherFrame

text \<open>
  A frame comes with the reading of the monotonic clock (in nanoseconds), the time, the faults of
  its handling and of the activity update, and the identifier a new message would get.
\<close>

record received =
  rv_frame :: frame
  rv_instant :: nat
  rv_now :: time
  rv_uuid :: string
  rv_faults :: faults
  rv_touch_faults :: faults

text \<open>
  The activity update runs in a task of its own; it touches the nodes of the presence graph
  only, which nothing else here reads, so it is taken where it is spawned.
\<close>

definition touch :: "ws_server \<Rightarrow> faults \<Rightarrow> time \<Rightarrow> PlatformIdentity \<Rightarrow> ws_state \<Rightarrow> ws_state \<times> PresenceEvent list" where
  "touch W flt now identity st =
     (let (d, event) = touch_activity flt now (sr_id W) (pf_pseudonym_id identity) (ws_db st)
      in (st\<lparr>ws_db := d\<rparr>, case event of Some e \<Rightarrow> [e] | None \<Rightarrow> []))"

text \<open>
  One round of the loop: the new state, whether the loop goes on, the message to relay, the events
  announced and the time of the last activity update.
\<close>

definition serve_frame ::
  "ws_server \<Rightarrow> session_id \<Rightarrow> PlatformIdentity \<Rightarrow> nat \<Rightarrow> received \<Rightarrow> ws_state
     \<Rightarrow> ws_state \<times> bool \<times> (string \<times> Message) option \<times> PresenceEvent list \<times> nat" where
  "serve_frame W sid identity last_activity r st =
     (let (due, last_activity') = debounce (rv_instant r) last_activity;
          (st0, events) = (if due then touch W (rv_touch_faults r) (rv_now r) identity st else (st, []))
      in case rv_frame r of
           CloseFrame \<Rightarrow> (st0, False, None, events, last_activity')
         | OtherFrame \<Rightarrow> (st0, True, None, events, last_activity')
         | TextFrame t \<Rightarrow>
             (let (st1, relay) = handle_text W (rv_faults r) (rv_now r) (rv_uuid r) sid identity t st0
              in (st1, True, relay, events, last_activity')))"

text \<open>
  A connection serves its frames one after the other until it is closed. The relays and the
  events are collected.
\<close>

fun serve_frames ::
  "ws_server \<Rightarrow> session_id \<Rightarrow> PlatformIdentity \<Rightarrow> nat \<Rightarrow> received list \<Rightarrow> ws_state
     \<Rightarrow> ws_state \<times> (string \<times> Message) list \<times> PresenceEvent list" where
  "serve_frames W sid identity last_activity [] st = (close_socket sid identity st, [], [])"
| "serve_frames W sid identity last_activity (r # rs) st =
     (case serve_frame W sid identity last_activity r st of
        (st1, False, relay, events, last_activity') \<Rightarrow> (close_socket sid identity st1, [], events)
      | (st1, True, relay, events, last_activity') \<Rightarrow>
          (let (st2, relays, events2) = serve_frames W sid identity last_activity' rs st1
           in (st2, (case relay of Some x \<Rightarrow> x # relays | None \<Rightarrow> relays), events @ events2)))"

text \<open>\<open>flt\<close> and \<open>now\<close> are of the activity update at the start, \<open>instant\<close> is read when the session is registered.\<close>

definition handle_socket ::
  "ws_server \<Rightarrow> faults \<Rightarrow> time \<Rightarrow> nat \<Rightarrow> session_id \<Rightarrow> PlatformIdentity \<Rightarrow> received list \<Rightarrow> ws_state
     \<Rightarrow> ws_state \<times> (string \<times> Message) list \<times> PresenceEvent list" where
  "handle_socket W flt now instant sid identity rs st =
     (let (st0, events) = touch W flt now identity st;
          (st1, relays, events2) = serve_frames W sid identity instant rs (open_socket sid identity st0)
      in (st1, relays, events @ events2))"

section \<open>Frames of the state\<close>

lemma send_ws_error_frame [simp]:
  "ws_db (send_ws_error J sid t st) = ws_db st" "ws_manager (send_ws_error J sid t st) = ws_manager st"
  "ws_voices (send_ws_error J sid t st) = ws_voices st"
  by (simp_all add: send_ws_error_def split: option.split)

lemma broadcast_out_frame [simp]:
  "ws_db (broadcast_out J c out st) = ws_db st" "ws_manager (broadcast_out J c out st) = ws_manager st"
  "ws_voices (broadcast_out J c out st) = ws_voices st"
  by (simp_all add: broadcast_out_def split: option.split)

lemma send_ws_error_other [simp]: "sid' \<noteq> sid \<Longrightarrow> ws_queues (send_ws_error J sid t st) sid' = ws_queues st sid'"
  by (simp add: send_ws_error_def try_send_def split: option.split)

lemma on_voice_intent_frame [simp]:
  "ws_db (on_voice_intent W flt sid identity c txt st) = ws_db st"
  "ws_manager (on_voice_intent W flt sid identity c txt st) = ws_manager st"
  by (simp_all add: on_voice_intent_def Let_def split: option.split sum.split prod.split)

lemma membership_error_None: "membership_error c (check_ws_membership flt s d c p) = None \<Longrightarrow> is_member d s c p"
  by (auto simp: membership_error_def check_ws_membership_def split: if_splits)

lemma persist_message_cases:
  assumes "persist_message S flt now d params = (res, d')"
  shows "d' = d \<or> (\<exists>msg. create_message S now d params = (Inr msg, d'))"
    and "res = Inr (msg, fed) \<Longrightarrow> create_message S now d params = (Inr msg, d') \<and>
      (\<exists>ch. get_channel S d' (mp_channel_id params) = Inr ch \<and> fed = (cn_federation_scope ch = Federated))"
proof -
  obtain r d1 where c: "create_message S now d params = (r, d1)" by (cases "create_message S now d params")
  have "r = Inl e \<Longrightarrow> d1 = d" for e
    using c by (auto simp: create_message_def Let_def split: sum.splits if_splits)
  then show "d' = d \<or> (\<exists>msg. create_message S now d params = (Inr msg, d'))"
    using assms c by (cases r) (auto simp: persist_message_def split: sum.splits if_splits)
  show "res = Inr (msg, fed) \<Longrightarrow> create_message S now d params = (Inr msg, d') \<and>
      (\<exists>ch. get_channel S d' (mp_channel_id params) = Inr ch \<and> fed = (cn_federation_scope ch = Federated))"
    using assms c by (auto simp: persist_message_def split: sum.splits if_splits)
qed

lemma create_message_channel: "create_message S now d params = (Inr msg, d') \<Longrightarrow> mg_channel_id msg = mp_channel_id params"
  by (auto simp: create_message_def map_row_to_message_def Let_def split: sum.splits if_splits)

section \<open>Sending\<close>

lemma on_send:
  assumes "handle_incoming W flt now uuid sid identity (SendMessage c content reply_to) st = (st', relay)"
    and "params = \<lparr>mp_channel_id = c, mp_message_id = uuid, mp_sender_pseudonym = pf_pseudonym_id identity,
      mp_content = content, mp_reply_to_message_id = reply_to\<rparr>"
  shows "(ws_db st' = ws_db st \<or> length content \<le> 65536 \<and> is_member (ws_db st) (sr_id W) c (pf_pseudonym_id identity)
        \<and> (\<exists>msg. create_message (sr_serde W) now (ws_db st) params = (Inr msg, ws_db st')))
    \<and> (relay = None \<or> (\<exists>msg ch. relay = Some (c, msg) \<and> create_message (sr_serde W) now (ws_db st) params = (Inr msg, ws_db st')
        \<and> get_channel (sr_serde W) (ws_db st') c = Inr ch \<and> cn_federation_scope ch = Federated))
    \<and> (\<forall>sid'. sid' \<noteq> sid \<longrightarrow> ws_queues st' sid' = ws_queues st sid'
        \<or> (\<exists>msg json p'. create_message (sr_serde W) now (ws_db st) params = (Inr msg, ws_db st')
            \<and> outgoing_to_json (sr_json W) (OutMessage (payload_of msg)) = Some json
            \<and> in_entry c p' (channel_subscriptions (ws_manager st)) \<and> sessions (ws_manager st) p' = Some sid'
            \<and> ws_queues st' sid' = map_option (enqueue json) (ws_queues st sid')))"
proof -
  let ?p = "pf_pseudonym_id identity" and ?d = "ws_db st"
  have h: "on_message W flt now uuid sid ?p c content reply_to st = (st', relay)"
    using assms(1) by (simp add: handle_incoming_def Let_def)
  consider (error) t d' where "st' = send_ws_error (sr_json W) sid t (st\<lparr>ws_db := d'\<rparr>)" "relay = None" "d' = ?d"
    | (failed) t d' msg where "st' = send_ws_error (sr_json W) sid t (st\<lparr>ws_db := d'\<rparr>)" "relay = None"
        "length content \<le> 65536" "is_member ?d (sr_id W) c ?p" "create_message (sr_serde W) now ?d params = (Inr msg, d')"
    | (stored) msg fed d' where "persist_message (sr_serde W) flt now ?d params = (Inr (msg, fed), d')"
        "length content \<le> 65536" "is_member ?d (sr_id W) c ?p"
        "st' = broadcast_out (sr_json W) (mg_channel_id msg) (OutMessage (payload_of msg)) (st\<lparr>ws_db := d'\<rparr>)"
        "relay = (if fed then Some (mg_channel_id msg, msg) else None)"
  proof (cases "length content > max_ws_message_content_len
      \<or> membership_error c (check_ws_membership flt (sr_id W) ?d c ?p) \<noteq> None")
    case True
    then show ?thesis using h error [of _ ?d] by (auto simp: on_message_def split: if_splits)
  next
    case False
    then have ok: "length content \<le> 65536" "is_member ?d (sr_id W) c ?p" and n: "\<not> length content > max_ws_message_content_len"
        "membership_error c (check_ws_membership flt (sr_id W) ?d c ?p) = None"
      using membership_error_None [of c flt "sr_id W" ?d ?p] by (auto simp: max_ws_message_content_len_def)
    obtain res d' where pm: "persist_message (sr_serde W) flt now ?d params = (res, d')"
      by (cases "persist_message (sr_serde W) flt now ?d params")
    show ?thesis
    proof (cases res)
      case (Inl e)
      then have "st' = send_ws_error (sr_json W) sid ''Failed to send message: internal error'' (st\<lparr>ws_db := d'\<rparr>)" "relay = None"
        using h pm n by (auto simp: on_message_def assms(2))
      then show ?thesis using persist_message_cases(1) [OF pm] error failed ok by blast
    next
      case (Inr x)
      obtain msg fed where "x = (msg, fed)" by (cases x)
      then show ?thesis using stored [of msg fed d'] h pm n Inr ok by (simp add: on_message_def assms(2))
    qed
  qed
  then show ?thesis
  proof cases
    case error
    then show ?thesis by simp
  next
    case failed
    then show ?thesis by auto
  next
    case stored
    note m = persist_message_cases(2) [OF stored(1) refl]
    have c: "mg_channel_id msg = c" using create_message_channel [OF conjunct1 [OF m]] by (simp add: assms(2))
    have p: "mp_channel_id params = c" by (simp add: assms(2))
    have q: "ws_queues st' sid' = ws_queues st sid'
        \<or> (\<exists>json p'. outgoing_to_json (sr_json W) (OutMessage (payload_of msg)) = Some json
            \<and> in_entry c p' (channel_subscriptions (ws_manager st)) \<and> sessions (ws_manager st) p' = Some sid'
            \<and> ws_queues st' sid' = map_option (enqueue json) (ws_queues st sid'))" for sid'
      by (auto simp: stored(4) c broadcast_out_def broadcast_def in_entry_def split: option.split)
    have "ws_db st' = d'" by (simp add: stored(4))
    then show ?thesis using m q stored(2,3,5) by (auto simp: c p)
  qed
qed

text \<open>A member's message is stored when the database calls succeed.\<close>

lemma on_send_stores:
  assumes "length content \<le> 65536" and "is_member (ws_db st) (sr_id W) c (pf_pseudonym_id identity)"
    and "create_message (sr_serde W) now (ws_db st) \<lparr>mp_channel_id = c, mp_message_id = uuid,
      mp_sender_pseudonym = pf_pseudonym_id identity, mp_content = content, mp_reply_to_message_id = reply_to\<rparr> = (Inr msg, d')"
  shows "ws_db (fst (handle_incoming W no_faults now uuid sid identity (SendMessage c content reply_to) st)) = d'"
proof -
  have "\<exists>res. persist_message (sr_serde W) no_faults now (ws_db st) \<lparr>mp_channel_id = c, mp_message_id = uuid,
      mp_sender_pseudonym = pf_pseudonym_id identity, mp_content = content, mp_reply_to_message_id = reply_to\<rparr> = (res, d')"
    using assms(3) by (simp add: persist_message_def no_faults_def split: sum.split)
  then show ?thesis
    using assms(1,2) by (auto simp: handle_incoming_def on_message_def Let_def check_ws_membership_def membership_error_def
        max_ws_message_content_len_def no_faults_def split: sum.split)
qed

lemma touch_nodes:
  "fst (touch_activity flt now s p d) = d\<lparr>graph_nodes := graph_nodes (fst (touch_activity flt now s p d))\<rparr>"
  "snd (touch_activity flt now s p d) \<in> {None, Some (NodeUpdated p True)}"
  by (simp_all add: touch_activity_def update_node_activity_def Let_def)


section \<open>Any number of connections\<close>

text \<open>
  What happens to the server's state: a connection opens, gets a message or closes, the
  forwarding task takes messages out of a queue, a node is marked as active, and the HTTP handlers
  call the manager. These steps run as a whole. The others are the parts they are made of, as
  tasks that run at the same time interleave them: a section of the manager that holds a lock, an
  operation on the tables, an offer to the listeners or to one connection, and the beginning and the
  end of a queue and of a voice client.
\<close>

datatype ws_op =
    Opened session_id PlatformIdentity
  | Received faults time string session_id PlatformIdentity IncomingMessage
  | Forwarded session_id nat
  | Closed session_id PlatformIdentity
  | Touched faults time PlatformIdentity
  | Managed manager_op
  | Section manager_section
  | Tables channel_op
  | Broadcast string string
  | Sent session_id string
  | QueueOpened session_id
  | QueueClosed session_id
  | VoiceDropped string

fun ws_step :: "ws_server \<Rightarrow> ws_op \<Rightarrow> ws_state \<Rightarrow> ws_state" where
  "ws_step W (Opened sid identity) st = open_socket sid identity st"
| "ws_step W (Received flt now uuid sid identity incoming) st = fst (handle_incoming W flt now uuid sid identity incoming st)"
| "ws_step W (Forwarded sid n) st = st\<lparr>ws_queues := (ws_queues st)(sid := map_option (drop n) (ws_queues st sid))\<rparr>"
| "ws_step W (Closed sid identity) st = close_socket sid identity st"
| "ws_step W (Touched flt now identity) st = fst (touch W flt now identity st)"
| "ws_step W (Managed op) st = st\<lparr>ws_manager := manager_step op (ws_manager st)\<rparr>"
| "ws_step W (Section x) st = st\<lparr>ws_manager := section_step x (ws_manager st)\<rparr>"
| "ws_step W (Tables op) st = st\<lparr>ws_db := channel_step (sr_serde W) op (ws_db st)\<rparr>"
| "ws_step W (Broadcast c msg) st = st\<lparr>ws_queues := broadcast c msg (ws_manager st) (ws_queues st)\<rparr>"
| "ws_step W (Sent sid msg) st = st\<lparr>ws_queues := try_send sid msg (ws_queues st)\<rparr>"
| "ws_step W (QueueOpened sid) st = st\<lparr>ws_queues := (ws_queues st)(sid \<mapsto> [])\<rparr>"
| "ws_step W (QueueClosed sid) st = st\<lparr>ws_queues := (ws_queues st)(sid := None)\<rparr>"
| "ws_step W (VoiceDropped p) st = st\<lparr>ws_voices := (ws_voices st)(p := None)\<rparr>"

text \<open>Steps that leave the operations of the manager whole.\<close>

fun whole :: "ws_op \<Rightarrow> bool" where
  "whole (Section x) = False"
| "whole _ = True"

definition queues_bounded :: "queues \<Rightarrow> bool" where
  "queues_bounded q \<longleftrightarrow> (\<forall>sid waiting. q sid = Some waiting \<longrightarrow> length waiting \<le> queue_capacity)"

definition ws_ok :: "ws_server \<Rightarrow> ws_state \<Rightarrow> bool" where
  "ws_ok W st \<longleftrightarrow> channels_ok (sr_serde W) (ws_db st) \<and> no_empty_sets (ws_manager st) \<and> queues_bounded (ws_queues st)"

lemma length_enqueue: "length waiting \<le> queue_capacity \<Longrightarrow> length (enqueue msg waiting) \<le> queue_capacity"
  by (simp add: enqueue_def)

lemma queues_bounded_step [simp]:
  "queues_bounded q \<Longrightarrow> queues_bounded (try_send sid msg q)"
  "queues_bounded q \<Longrightarrow> queues_bounded (broadcast c msg m q)"
  "queues_bounded q \<Longrightarrow> queues_bounded (q(sid := None))"
  "queues_bounded q \<Longrightarrow> queues_bounded (q(sid \<mapsto> []))"
  "queues_bounded q \<Longrightarrow> queues_bounded (q(sid := map_option (drop n) (q sid)))"
  by (auto simp: queues_bounded_def try_send_def broadcast_def length_enqueue split: option.splits)
    fastforce

lemma ws_ok_send_error [simp]: "ws_ok W st \<Longrightarrow> ws_ok W (send_ws_error J sid t st)"
  by (simp add: ws_ok_def) (simp add: send_ws_error_def split: option.split)

lemma ws_ok_broadcast [simp]: "ws_ok W st \<Longrightarrow> ws_ok W (broadcast_out J c out st)"
  by (simp add: ws_ok_def) (simp add: broadcast_out_def split: option.split)

lemma ws_ok_voices [simp]: "ws_ok W (st\<lparr>ws_voices := v\<rparr>) = ws_ok W st"
  by (simp add: ws_ok_def)

lemma ws_ok_db: "ws_ok W st \<Longrightarrow> channels_ok (sr_serde W) d \<Longrightarrow> ws_ok W (st\<lparr>ws_db := d\<rparr>)"
  by (simp add: ws_ok_def)

lemma ws_ok_manager: "ws_ok W st \<Longrightarrow> ws_ok W (st\<lparr>ws_manager := manager_step op (ws_manager st)\<rparr>)"
  by (simp add: ws_ok_def no_empty_sets_op)

lemma channels_ok_nodes: "channels_ok S (d\<lparr>graph_nodes := x\<rparr>) = channels_ok S d"
  by (simp add: channels_ok_def tables_wf_def references_ok_def channels_readable_def)

lemma ws_ok_touch: "ws_ok W st \<Longrightarrow> ws_ok W (fst (touch W flt now identity st))"
proof -
  assume ok: "ws_ok W st"
  let ?d = "fst (touch_activity flt now (sr_id W) (pf_pseudonym_id identity) (ws_db st))"
  have "channels_ok (sr_serde W) ?d"
    using ok by (subst touch_nodes(1)) (simp add: channels_ok_nodes ws_ok_def)
  with ok show ?thesis by (simp add: touch_def case_prod_beta ws_ok_db)
qed

lemma ws_ok_message: "ws_ok W st \<Longrightarrow> ws_ok W (fst (on_message W flt now uuid sid p c content reply_to st))"
proof -
  assume ok: "ws_ok W st"
  let ?params = "\<lparr>mp_channel_id = c, mp_message_id = uuid, mp_sender_pseudonym = p, mp_content = content,
    mp_reply_to_message_id = reply_to\<rparr>"
  obtain res d' where pm: "persist_message (sr_serde W) flt now (ws_db st) ?params = (res, d')"
    by (cases "persist_message (sr_serde W) flt now (ws_db st) ?params")
  have "channels_ok (sr_serde W) d'"
    using persist_message_cases(1) [OF pm] ok ok_create_message [of "sr_serde W" "ws_db st" now ?params]
    by (auto simp: ws_ok_def)
  with ok have "ws_ok W (st\<lparr>ws_db := d'\<rparr>)" by (rule ws_ok_db)
  with ok show ?thesis by (simp add: on_message_def pm split: option.split prod.split sum.split)
qed

lemma ws_ok_edit: "ws_ok W st \<Longrightarrow> ws_ok W (on_edit W flt now sid p c m content st)"
proof -
  assume ok: "ws_ok W st"
  obtain res d' where e: "edit_message (\<lambda>i. flt (3 + i)) now (ws_db st) m p content = (res, d')"
    by (cases "edit_message (\<lambda>i. flt (3 + i)) now (ws_db st) m p content")
  have "channels_ok (sr_serde W) d'"
    using ok_edit_message [of "sr_serde W" "ws_db st" "\<lambda>i. flt (3 + i)" now m p content] ok
    unfolding e by (simp add: ws_ok_def)
  with ok have "ws_ok W (st\<lparr>ws_db := d'\<rparr>)" by (rule ws_ok_db)
  with ok show ?thesis unfolding on_edit_def e by (simp split: option.split sum.split)
qed

lemma ws_ok_delete: "ws_ok W st \<Longrightarrow> ws_ok W (on_delete W flt now sid p c m st)"
proof -
  assume ok: "ws_ok W st"
  obtain res d' where e: "delete_message now (ws_db st) m p = (res, d')"
    by (cases "delete_message now (ws_db st) m p")
  have "channels_ok (sr_serde W) d'"
    using ok_delete_message [of "sr_serde W" "ws_db st" now m p] ok unfolding e by (simp add: ws_ok_def)
  with ok have "ws_ok W (st\<lparr>ws_db := d'\<rparr>)" by (rule ws_ok_db)
  with ok show ?thesis unfolding on_delete_def e by (simp split: option.split sum.split)
qed

lemma ws_ok_voice: "ws_ok W st \<Longrightarrow> ws_ok W (on_voice_intent W flt sid identity c txt st)"
  by (simp add: on_voice_intent_def Let_def split: option.split prod.split sum.split)

lemma ws_ok_incoming: "ws_ok W st \<Longrightarrow> ws_ok W (fst (handle_incoming W flt now uuid sid identity incoming st))"
  using ws_ok_manager [of W st "Subscribe _ _"] ws_ok_manager [of W st "Unsubscribe _ _"]
  by (cases incoming)
    (simp_all add: handle_incoming_def Let_def on_subscribe_def ws_ok_message ws_ok_edit ws_ok_delete ws_ok_voice split: option.split)

interpretation connections: invariant_machine "ws_step W" "ws_ok W" for W
proof (standard, goal_cases)
  case (1 st op)
  show ?case
  proof (cases op)
    case (Opened sid identity)
    then show ?thesis
      using 1 no_empty_sets_op [of _ "AddSession (pf_pseudonym_id identity) sid"] by (simp add: ws_ok_def open_socket_def)
  next
    case (Received flt now uuid sid identity incoming)
    then show ?thesis using 1 by (simp add: ws_ok_incoming)
  next
    case (Closed sid identity)
    then show ?thesis
      using 1 no_empty_sets_op [of _ "RemoveSession (pf_pseudonym_id identity) sid"] by (simp add: ws_ok_def close_socket_def)
  next
    case (Touched flt now identity)
    then show ?thesis using 1 by (simp add: ws_ok_touch)
  next
    case (Managed x)
    then show ?thesis using 1 by (simp add: ws_ok_manager)
  next
    case (Section x)
    then show ?thesis using 1 manager_sections.step_inv [of "ws_manager st" x] by (simp add: ws_ok_def)
  next
    case (Tables x)
    then show ?thesis using 1 channel_machine.step_inv [of "sr_serde W" "ws_db st" x] by (simp add: ws_ok_def)
  qed (use 1 in \<open>simp_all add: ws_ok_def\<close>)
qed

text \<open>The subscription maps mirror each other as long as the manager's operations run as a whole.\<close>

lemma mirrored_incoming: "mirrored (ws_manager st) \<Longrightarrow> mirrored (ws_manager (fst (handle_incoming W flt now uuid sid identity incoming st)))"
  using manager.step_inv [of "ws_manager st" "Subscribe _ _"] manager.step_inv [of "ws_manager st" "Unsubscribe _ _"]
  by (cases incoming)
    (simp_all add: handle_incoming_def Let_def on_subscribe_def on_message_def on_edit_def on_delete_def
      split: option.split prod.split sum.split)

lemma mirrored_whole: "whole op \<Longrightarrow> mirrored (ws_manager st) \<Longrightarrow> mirrored (ws_manager (ws_step W op st))"
proof (cases op)
  case (Opened sid identity)
  then show "mirrored (ws_manager st) \<Longrightarrow> ?thesis"
    using manager.step_inv [of "ws_manager st" "AddSession (pf_pseudonym_id identity) sid"] by (simp add: open_socket_def)
next
  case (Closed sid identity)
  then show "mirrored (ws_manager st) \<Longrightarrow> ?thesis"
    using manager.step_inv [of "ws_manager st" "RemoveSession (pf_pseudonym_id identity) sid"] by (simp add: close_socket_def)
next
  case (Managed x)
  then show "mirrored (ws_manager st) \<Longrightarrow> ?thesis" using manager.step_inv [of "ws_manager st" x] by simp
next
  case (Touched flt now identity)
  then show "mirrored (ws_manager st) \<Longrightarrow> ?thesis" by (simp add: touch_def case_prod_beta)
qed (simp_all add: mirrored_incoming)

lemma mirrored_run: "list_all whole ops \<Longrightarrow> mirrored (ws_manager st) \<Longrightarrow> mirrored (ws_manager (fold (ws_step W) ops st))"
  by (induction ops arbitrary: st) (simp_all add: mirrored_whole)

text \<open>
  C5. Whatever connections open, send and close, whatever the HTTP handlers ask of the manager and
  of the tables, with whatever failures, in whatever order and however the sections of the
  manager that hold a lock are interleaved: the tables of channels and messages keep their
  integrity, no queue holds more than 256 messages, and neither subscription map keeps an empty
  set. As long as the operations of the manager run one at a time, the two subscription maps
  mirror each other; when their sections are interleaved they need not (\<open>removal_race\<close> in
  \<open>Annex_Connections\<close>).
\<close>

theorem ws_connections_invariant:
  assumes "channels_ok (sr_serde W) d"
    and "st = fold (ws_step W) ops \<lparr>ws_db = d, ws_manager = new_manager, ws_queues = Map.empty, ws_voices = Map.empty\<rparr>"
  shows "channels_ok (sr_serde W) (ws_db st)
    \<and> (\<forall>sid waiting. ws_queues st sid = Some waiting \<longrightarrow> length waiting \<le> 256)
    \<and> (\<forall>k. channel_subscriptions (ws_manager st) k \<noteq> Some {} \<and> user_subscriptions (ws_manager st) k \<noteq> Some {})
    \<and> (list_all whole ops \<longrightarrow> mirrored (ws_manager st))"
proof -
  let ?st0 = "\<lparr>ws_db = d, ws_manager = new_manager, ws_queues = Map.empty, ws_voices = Map.empty\<rparr>"
  have "ws_ok W ?st0"
    using assms(1) by (simp add: ws_ok_def no_empty_sets_def no_empty_def new_manager_def queues_bounded_def)
  then have "ws_ok W st" unfolding assms(2) by (rule connections.run_inv)
  moreover have "list_all whole ops \<longrightarrow> mirrored (ws_manager st)"
    unfolding assms(2) by (simp add: mirrored_run mirrored_new)
  ultimately show ?thesis
    by (simp add: ws_ok_def queues_bounded_def queue_capacity_def no_empty_sets_def no_empty_def)
qed

section \<open>What the connection manager does not control\<close>

text \<open>
  Disconnecting a user does not end the connection. \<open>disconnect_user\<close> takes the session out
  of the maps, but the loop of the connection goes on: every message it receives has the same
  effect on the database, the voice clients and the peers as before, and the first one that
  subscribes makes the pseudonym a listener again.
\<close>

theorem disconnected_user_still_acts:
  assumes "gone = st\<lparr>ws_manager := disconnect_user (pf_pseudonym_id identity) (ws_manager st)\<rparr>"
  shows "ws_db (fst (handle_incoming W flt now uuid sid identity incoming gone))
        = ws_db (fst (handle_incoming W flt now uuid sid identity incoming st))
    \<and> ws_voices (fst (handle_incoming W flt now uuid sid identity incoming gone))
        = ws_voices (fst (handle_incoming W flt now uuid sid identity incoming st))
    \<and> snd (handle_incoming W flt now uuid sid identity incoming gone)
        = snd (handle_incoming W flt now uuid sid identity incoming st)
    \<and> (is_member (ws_db st) (sr_id W) c (pf_pseudonym_id identity) \<longrightarrow>
        in_entry c (pf_pseudonym_id identity) (channel_subscriptions (ws_manager
          (fst (handle_incoming W no_faults now uuid sid identity (SubscribeTo c) gone)))))"
proof -
  let ?p = "pf_pseudonym_id identity"
  have g: "ws_db gone = ws_db st" "ws_voices gone = ws_voices st" by (simp_all add: assms)
  have msg: "ws_db (fst (on_message W flt now uuid sid ?p x y z gone)) = ws_db (fst (on_message W flt now uuid sid ?p x y z st))
      \<and> ws_voices (fst (on_message W flt now uuid sid ?p x y z gone)) = ws_voices (fst (on_message W flt now uuid sid ?p x y z st))
      \<and> snd (on_message W flt now uuid sid ?p x y z gone) = snd (on_message W flt now uuid sid ?p x y z st)" for x y z
    by (simp add: on_message_def g split: option.split prod.split sum.split)
  have edit: "ws_db (on_edit W flt now sid ?p x y z gone) = ws_db (on_edit W flt now sid ?p x y z st)
      \<and> ws_voices (on_edit W flt now sid ?p x y z gone) = ws_voices (on_edit W flt now sid ?p x y z st)" for x y z
    by (simp add: on_edit_def g split: option.split prod.split sum.split)
  have del: "ws_db (on_delete W flt now sid ?p x y gone) = ws_db (on_delete W flt now sid ?p x y st)
      \<and> ws_voices (on_delete W flt now sid ?p x y gone) = ws_voices (on_delete W flt now sid ?p x y st)" for x y
    by (simp add: on_delete_def g split: option.split prod.split sum.split)
  have voice: "ws_voices (on_voice_intent W flt sid identity x y gone) = ws_voices (on_voice_intent W flt sid identity x y st)" for x y
    by (simp add: on_voice_intent_def g Let_def split: option.split prod.split sum.split)
  have sub: "in_entry c ?p (channel_subscriptions (ws_manager
      (fst (handle_incoming W no_faults now uuid sid identity (SubscribeTo c) gone))))"
    if "is_member (ws_db st) (sr_id W) c ?p"
    using that by (simp add: handle_incoming_def Let_def on_subscribe_def check_ws_membership_def membership_error_def g
        subscribe_def in_entry_insert no_faults_def)
  have "ws_db (fst (handle_incoming W flt now uuid sid identity incoming gone))
        = ws_db (fst (handle_incoming W flt now uuid sid identity incoming st))
    \<and> ws_voices (fst (handle_incoming W flt now uuid sid identity incoming gone))
        = ws_voices (fst (handle_incoming W flt now uuid sid identity incoming st))
    \<and> snd (handle_incoming W flt now uuid sid identity incoming gone)
        = snd (handle_incoming W flt now uuid sid identity incoming st)"
    using msg edit del voice
    by (cases incoming) (simp_all add: handle_incoming_def Let_def on_subscribe_def g split: option.split)
  with sub show ?thesis by blast
qed

text \<open>
  Editing checks the membership of the channel that the client names, not of the message's
  channel: a sender who has left a channel still edits a message there, within the edit
  window, by naming any channel they are a member of; the edit is stored and offered to the
  listeners of the channel they have left.
\<close>

theorem edit_gate_by_named_channel:
  assumes "is_member (ws_db st) (sr_id W) named p" and "get_message (ws_db st) m = Inr old"
    and "mg_sender_pseudonym old = p" and "mg_deleted_at old = None" and "now - mg_created_at old \<le> 60"
    and "length content \<le> 65536" and "st' = on_edit W no_faults now sid p named m content st"
    and "outgoing_to_json (sr_json W) (OutEdited (payload_of (old\<lparr>mg_content := content, mg_edited_at := Some now\<rparr>))) = Some json"
  shows "get_message (ws_db st') m = Inr (old\<lparr>mg_content := content, mg_edited_at := Some now\<rparr>)
    \<and> ws_queues st' = broadcast (mg_channel_id old) json (ws_manager st) (ws_queues st)"
proof -
  obtain r where r: "first_where (\<lambda>r. ms_message r = m) (message_rows (ws_db st)) = Some r" and old: "old = map_row_to_message r"
    using assms(2) by (auto simp: get_message_def split: option.splits)
  have rm: "ms_message r = m" using first_where_Some [OF r] by blast
  let ?new = "old\<lparr>mg_content := content, mg_edited_at := Some now\<rparr>"
  have c: "check_editable now old m p a b = Inr ()" for a b
    using assms(3-5) by (simp add: check_editable_def EDIT_WINDOW_SECONDS_def)
  obtain d' where e: "edit_message no_faults now (ws_db st) m p content = (get_message d' m, d')"
    and rows: "message_rows d' = update_where (\<lambda>r. ms_message r = m)
      (\<lambda>r. r\<lparr>ms_content := content, ms_edited := Some now\<rparr>) (message_rows (ws_db st))"
    by (simp add: edit_message_def assms(2) c Let_def)
  have "first_where (\<lambda>r. ms_message r = m) (message_rows d') = Some (r\<lparr>ms_content := content, ms_edited := Some now\<rparr>)"
    unfolding rows by (subst first_where_update_where) (simp_all add: r rm)
  then have g: "get_message d' m = Inr ?new" by (simp add: get_message_def old map_row_to_message_def)
  have "check_ws_membership no_faults (sr_id W) (ws_db st) named p = Allowed"
    using assms(1) by (simp add: check_ws_membership_def no_faults_def)
  then have st': "st' = broadcast_out (sr_json W) (mg_channel_id old) (OutEdited (payload_of ?new)) (st\<lparr>ws_db := d'\<rparr>)"
    using assms(6) by (simp add: assms(7) on_edit_def membership_error_def max_ws_message_content_len_def shifted_no_faults e g)
      (simp add: no_faults_def)
  show ?thesis using g assms(8) by (simp add: st') (simp add: broadcast_out_def)
qed

section \<open>A concrete connection\<close>

text \<open>
  Alice is a member of channel \<open>e\<close> and wrote a message in channel \<open>c\<close>; bob listens there. A text
  is read as a greeting to the channel it names.
\<close>

definition demo_ws_json :: ws_json where
  "demo_ws_json = \<lparr>
     incoming_from_json = (\<lambda>s. Some (SendMessage s ''hello'' None)),
     outgoing_to_json = (\<lambda>out. case out of
        OutMessage w \<Rightarrow> Some (wp_content w) | OutEdited w \<Rightarrow> Some (wp_content w) | OutDeleted w \<Rightarrow> Some (wp_message_id w)
      | Transcription c p t \<Rightarrow> Some t | OutError t \<Rightarrow> Some t)\<rparr>"

definition demo_ws :: "ws_server \<Rightarrow> ws_server" where
  "demo_ws W = W\<lparr>sr_id := 1, sr_serde := demo_serde, sr_json := demo_ws_json\<rparr>"

definition demo_ws_db :: db where
  "demo_ws_db = demo_chat\<lparr>channel_members := \<lparr>auto_rows = [new_member 5 1 ''e'' ''alice'' 1], auto_seq = 1\<rparr>\<rparr>"

definition demo_ws_state :: ws_state where
  "demo_ws_state = \<lparr>ws_db = demo_ws_db, ws_manager = subscribe ''c'' ''bob'' (add_session ''bob'' ''x'' new_manager),
     ws_queues = [''x'' \<mapsto> []], ws_voices = Map.empty\<rparr>"

lemma demo_ws_simps [simp]:
  "sr_id (demo_ws W) = 1" "sr_serde (demo_ws W) = demo_serde" "sr_json (demo_ws W) = demo_ws_json"
  "ws_db demo_ws_state = demo_ws_db" "message_rows demo_ws_db = message_rows demo_chat"
  "member_rows demo_ws_db = [new_member 5 1 ''e'' ''alice'' 1]"
  by (simp_all add: demo_ws_def demo_ws_state_def demo_ws_db_def)

lemma demo_ws_member: "is_member demo_ws_db 1 c p = (c = ''e'' \<and> p = ''alice'')"
  by (auto simp: is_member_def is_member_row_def exists_where_iff new_member_def)

definition demo_greeting :: "string \<Rightarrow> received" where
  "demo_greeting c = \<lparr>rv_frame = TextFrame c, rv_instant = 5, rv_now = 150, rv_uuid = ''u'', rv_faults = no_faults,
     rv_touch_faults = no_faults\<rparr>"

definition demo_greeting_params :: "string \<Rightarrow> CreateMessageParams" where
  "demo_greeting_params c = \<lparr>mp_channel_id = c, mp_message_id = ''u'', mp_sender_pseudonym = ''alice'', mp_content = ''hello'',
     mp_reply_to_message_id = None\<rparr>"

lemma demo_greeting_stored:
  "\<exists>msg d'. create_message demo_serde 150 demo_ws_db (demo_greeting_params ''e'') = (Inr msg, d')
     \<and> map ms_content (message_rows d') = [''hi'', ''hi'', ''hello'']"
  by (simp add: create_message_def demo_greeting_params_def resolve_retention_days_def exists_where_def demo_ws_db_def
      demo_serde_def Let_def map_row_to_message_def demo_chat_def demo_message_def demo_channel_def sqlite_datetime_def
      get_message_def day_def)


text \<open>A connection that sends, with a removal whose sections others come between, and one without.\<close>

definition demo_ws_history :: "ws_op list" where
  "demo_ws_history =
     [Opened ''x'' (demo_person RoleCode.Human ''alice''), Managed (Subscribe ''e'' ''alice''),
      Received no_faults 9 ''u'' ''x'' (demo_person RoleCode.Human ''alice'') (SendMessage ''e'' ''hi'' None),
      Touched no_faults 9 (demo_person RoleCode.Human ''alice'')]"

theorem ws_connections_invariant_witness:
  "\<forall>W. let st0 = \<lparr>ws_db = demo_ws_db, ws_manager = new_manager, ws_queues = Map.empty, ws_voices = Map.empty\<rparr>;
       st1 = fold (ws_step (demo_ws W)) demo_ws_history st0;
       st2 = fold (ws_step (demo_ws W)) (demo_ws_history @ [Section (TakeSession ''alice'' ''x''), Section (ClearListener ''alice'' {''e''}),
               Managed (Subscribe ''f'' ''alice''), Section (ClearUser ''alice''), QueueClosed ''x'']) st0
     in channels_ok demo_serde (ws_db st1) \<and> mirrored (ws_manager st1) \<and> in_entry ''e'' ''alice'' (channel_subscriptions (ws_manager st1))
      \<and> channels_ok demo_serde (ws_db st2) \<and> \<not> mirrored (ws_manager st2)"
proof
  fix W
  let ?st0 = "\<lparr>ws_db = demo_ws_db, ws_manager = new_manager, ws_queues = Map.empty, ws_voices = Map.empty\<rparr>"
  let ?more = "[Section (TakeSession ''alice'' ''x''), Section (ClearListener ''alice'' {''e''}),
               Managed (Subscribe ''f'' ''alice''), Section (ClearUser ''alice''), QueueClosed ''x'']"
  have ok: "channels_ok (sr_serde (demo_ws W)) demo_ws_db"
    using demo_chat_ok by (simp add: channels_ok_def tables_wf_def references_ok_def channels_readable_def auto_wf_def
        demo_ws_db_def demo_chat_def new_member_def)
  note spec = ws_connections_invariant [OF ok refl]
  have p: "pf_pseudonym_id (demo_person RoleCode.Human ''alice'') = ''alice''" by (simp add: demo_person_def)
  have m1: "ws_manager (fold (ws_step (demo_ws W)) demo_ws_history ?st0) = subscribe ''e'' ''alice'' (add_session ''alice'' ''x'' new_manager)"
    by (simp add: demo_ws_history_def handle_incoming_def on_message_def Let_def open_socket_def p touch_def case_prod_beta
        split: option.split prod.split sum.split)
  have "in_entry ''e'' ''alice'' (channel_subscriptions (subscribe ''e'' ''alice'' (add_session ''alice'' ''x'' new_manager)))"
    by (simp add: subscribe_def in_entry_insert)
  then have 1: "in_entry ''e'' ''alice'' (channel_subscriptions (ws_manager (fold (ws_step (demo_ws W)) demo_ws_history ?st0)))"
    by (simp only: m1)
  have m2: "ws_manager (fold (ws_step (demo_ws W)) (demo_ws_history @ ?more) ?st0) =
      fold section_step [TakeSession ''alice'' ''x'', ClearListener ''alice'' {''e''}, AddListener ''f'' ''alice'',
        AddChannel ''f'' ''alice'', ClearUser ''alice''] (ws_manager (fold (ws_step (demo_ws W)) demo_ws_history ?st0))"
    by (simp add: subscribe_def)
  have "in_entry ''f'' ''alice'' (channel_subscriptions (ws_manager (fold (ws_step (demo_ws W)) (demo_ws_history @ ?more) ?st0)))"
    "\<not> in_entry ''alice'' ''f'' (user_subscriptions (ws_manager (fold (ws_step (demo_ws W)) (demo_ws_history @ ?more) ?st0)))"
    unfolding m2 by (simp_all add: in_entry_insert in_entry_delete)
  then have 2: "\<not> mirrored (ws_manager (fold (ws_step (demo_ws W)) (demo_ws_history @ ?more) ?st0))"
    unfolding mirrored_def by blast
  have "list_all whole demo_ws_history" by (simp add: demo_ws_history_def)
  then show "let st0 = ?st0; st1 = fold (ws_step (demo_ws W)) demo_ws_history st0;
       st2 = fold (ws_step (demo_ws W)) (demo_ws_history @ ?more) st0
     in channels_ok demo_serde (ws_db st1) \<and> mirrored (ws_manager st1) \<and> in_entry ''e'' ''alice'' (channel_subscriptions (ws_manager st1))
      \<and> channels_ok demo_serde (ws_db st2) \<and> \<not> mirrored (ws_manager st2)"
    using spec [of demo_ws_history] spec [of "demo_ws_history @ ?more"] 1 2 unfolding Let_def demo_ws_simps(2) by blast
qed

theorem disconnected_user_still_acts_witness:
  "\<forall>W. in_entry ''e'' ''alice'' (channel_subscriptions (ws_manager (fst (handle_incoming (demo_ws W) no_faults 9 ''u'' ''x''
       (demo_person RoleCode.Human ''alice'') (SubscribeTo ''e'')
       (demo_ws_state\<lparr>ws_manager := disconnect_user ''alice'' (ws_manager demo_ws_state)\<rparr>)))))"
  using disconnected_user_still_acts [where identity = "demo_person RoleCode.Human ''alice''" and st = demo_ws_state
      and c = "''e''", OF refl]
  by (simp add: demo_person_def demo_ws_member)

lemma demo_ws_edit:
  "broadcast ''c'' json (ws_manager demo_ws_state) (ws_queues demo_ws_state) ''x'' = Some [json]"
  by (simp add: broadcast_def demo_ws_state_def subscribe_def add_session_def new_manager_def entry_insert_def
      drop_listener_def enqueue_def queue_capacity_def)

theorem edit_gate_by_named_channel_witness:
  "\<forall>W. ws_queues (on_edit (demo_ws W) no_faults 150 ''y'' ''alice'' ''e'' ''m'' ''bye'' demo_ws_state) ''x'' = Some [''bye'']
     \<and> \<not> is_member demo_ws_db 1 ''c'' ''alice''"
proof
  fix W
  let ?old = "map_row_to_message (demo_message 1 ''c'' ''m'')"
  have c: "mg_channel_id ?old = ''c''" by (simp add: map_row_to_message_def)
  have "ws_queues (on_edit (demo_ws W) no_faults 150 ''y'' ''alice'' ''e'' ''m'' ''bye'' demo_ws_state)
      = broadcast (mg_channel_id ?old) ''bye'' (ws_manager demo_ws_state) (ws_queues demo_ws_state)"
    by (rule conjunct2 [OF edit_gate_by_named_channel
          [where st = demo_ws_state and W = "demo_ws W" and named = "''e''" and old = ?old, OF _ _ _ _ _ _ refl]])
      (simp_all add: demo_ws_member get_message_def map_row_to_message_def demo_ws_json_def payload_of_def)
  then have "ws_queues (on_edit (demo_ws W) no_faults 150 ''y'' ''alice'' ''e'' ''m'' ''bye'' demo_ws_state) ''x'' = Some [''bye'']"
    by (simp only: c demo_ws_edit)
  then show "ws_queues (on_edit (demo_ws W) no_faults 150 ''y'' ''alice'' ''e'' ''m'' ''bye'' demo_ws_state) ''x'' = Some [''bye'']
      \<and> \<not> is_member demo_ws_db 1 ''c'' ''alice''"
    by (simp add: demo_ws_member)
qed

end
