(* ===== verification/Annex_Registry_Api.thy ===== *)
theory Annex_Registry_Api
  imports Annex_Agents Annex_Federation_Api Annex_Demo
begin

text \<open>
  \<open>annex-server/src/api.rs\<close>: registering an identity, the lookups of the registry, the
  verification of membership by which an identity gets its pseudonym on a topic, and the
  lookups of a platform identity. \<open>flt n\<close> makes the \<open>n\<close>-th database call of a handler fail.
  Like the handlers of \<open>Annex_Policy\<close>, these return what they sent to the observers.
\<close>

section \<open>Errors\<close>

text \<open>The display of an error; where it quotes the engine or a library it ends.\<close>

definition identity_error_text :: "IdentityError \<Rightarrow> string" where
  "identity_error_text e =
     (case e of
        EmptyCommitment \<Rightarrow> ''commitment hex cannot be empty''
      | EmptyTopic \<Rightarrow> ''topic cannot be empty''
      | EmptyNullifier \<Rightarrow> ''nullifier hex cannot be empty''
      | InvalidNullifierFormat \<Rightarrow> ''nullifier hex must be 64 lowercase hex characters''
      | InvalidCommitmentFormat \<Rightarrow> ''commitment hex must be 64 lowercase hex characters''
      | InvalidHex \<Rightarrow> ''invalid hex string''
      | InvalidRoleCode c \<Rightarrow> ''invalid role code: '' @ decimal (unat c)
      | InvalidRoleLabel l \<Rightarrow> ''invalid role label: '' @ l
      | PoseidonError s \<Rightarrow> ''poseidon error: '' @ s
      | TreeFull \<Rightarrow> ''merkle tree is full''
      | InvalidIndex i \<Rightarrow> ''invalid leaf index: '' @ decimal i
      | DuplicateNullifier t \<Rightarrow> ''nullifier already exists for topic '' @ quote t
      | DuplicateCommitment c \<Rightarrow> ''duplicate commitment: '' @ c
      | CommitmentNotFound c \<Rightarrow> ''commitment not found: '' @ c
      | MerkleRootMismatch s c \<Rightarrow> ''merkle root mismatch: stored='' @ s @ '', computed='' @ c
      | DatabaseError _ \<Rightarrow> ''database error: '')"

definition register_failure :: "IdentityError \<Rightarrow> ApiError" where
  "register_failure e =
     (case e of
        InvalidCommitmentFormat \<Rightarrow> BadRequest (identity_error_text e)
      | InvalidRoleCode _ \<Rightarrow> BadRequest (identity_error_text e)
      | InvalidHex \<Rightarrow> BadRequest (identity_error_text e)
      | DuplicateCommitment _ \<Rightarrow> ApiConflict (identity_error_text e)
      | _ \<Rightarrow> InternalServerError)"

section \<open>The registry\<close>

record RegisterRequest =
  rg_commitment_hex :: string
  rg_role_code :: u8
  rg_node_id :: int

record RegisterResponse =
  rs_identity_id :: int
  rs_leaf_index :: nat
  rs_root_hex :: string
  rs_path_elements :: "string list"
  rs_path_indices :: "u8 list"

text \<open>\<open>flt 0\<close> is the connection, \<open>flt 1\<close> to \<open>flt 6\<close> the registration, \<open>flt 7\<close> the event.\<close>

definition register_handler ::
  "'f crypto \<Rightarrow> (EventPayload \<Rightarrow> string option) \<Rightarrow> faults \<Rightarrow> time \<Rightarrow> int \<Rightarrow> 'f MerkleTree \<Rightarrow> db \<Rightarrow> RegisterRequest
     \<Rightarrow> (ApiError + RegisterResponse) \<times> 'f MerkleTree \<times> db \<times> sent" where
  "register_handler C js flt now s t d q =
     (case from_u8 (rg_role_code q) of
        None \<Rightarrow> (Inl (BadRequest (''invalid role code: '' @ decimal (unat (rg_role_code q)))), t, d, nothing_sent)
      | Some role \<Rightarrow>
          if flt 0 then (Inl InternalServerError, t, d, nothing_sent)
          else (case register_identity C now (\<lambda>i. flt (1 + i)) t d (rg_commitment_hex q) role (rg_node_id q) of
             (Inl e, t', d') \<Rightarrow> (Inl (register_failure e), t', d', nothing_sent)
           | (Inr r, t', d') \<Rightarrow>
               let (d'', event) = emit_and_broadcast js (\<lambda>i. flt (7 + i)) now d' s (rg_commitment_hex q)
                                    (IdentityRegistered (rg_commitment_hex q) (as_u8 role))
               in (Inr \<lparr>rs_identity_id = identity_id r, rs_leaf_index = leaf_index r, rs_root_hex = RegistrationResult.rr_root_hex r,
                        rs_path_elements = path_elements r, rs_path_indices = path_indices r\<rparr>,
                   t', d'', observed event nothing_sent)))"

record GetPathResponse =
  gp_leaf_index :: nat
  gp_root_hex :: string
  gp_path_elements :: "string list"
  gp_path_indices :: "u8 list"

text \<open>\<open>flt 1\<close> is the query for the leaf.\<close>

definition get_path_handler ::
  "'f crypto \<Rightarrow> faults \<Rightarrow> 'f MerkleTree \<Rightarrow> db \<Rightarrow> string \<Rightarrow> ApiError + GetPathResponse" where
  "get_path_handler C flt t d c =
     and_then (db_call flt 0) (\<lambda>_. and_then (db_call flt 1) (\<lambda>_.
     and_then (map_err (\<lambda>e. case e of CommitmentNotFound _ \<Rightarrow> NotFound (''commitment not found: '' @ c) | _ \<Rightarrow> InternalServerError)
                 (get_path_for_commitment C t d c)) (\<lambda>(i, r, els, bits).
       Inr \<lparr>gp_leaf_index = i, gp_root_hex = r, gp_path_elements = els, gp_path_indices = bits\<rparr>)))"

definition get_current_root_handler :: "'f crypto \<Rightarrow> faults \<Rightarrow> 'f MerkleTree \<Rightarrow> db \<Rightarrow> ApiError + GetRootResponse" where
  "get_current_root_handler C flt t d =
     and_then (db_call flt 0) (\<lambda>_. and_then (db_call flt 1) (\<lambda>_.
       Inr \<lparr>rr_root_hex = root_hex C t, rr_leaf_count = next_index t,
            rr_updated_at = map_option rt_created (first_where (\<lambda>r. rt_root_hex r = root_hex C t) (vrp_roots d))\<rparr>))"

definition get_topics_handler :: "faults \<Rightarrow> db \<Rightarrow> ApiError + VrpTopic list" where
  "get_topics_handler flt d = and_then (db_call flt 0) (\<lambda>_. and_then (db_call flt 1) (\<lambda>_. Inr (get_all_topics d)))"

definition get_roles_handler :: "faults \<Rightarrow> db \<Rightarrow> ApiError + VrpRoleEntry list" where
  "get_roles_handler flt d = and_then (db_call flt 0) (\<lambda>_. and_then (db_call flt 1) (\<lambda>_. Inr (get_all_roles d)))"

section \<open>Verifying membership\<close>

record VerifyMembershipRequest =
  vm_root :: string
  vm_commitment :: string
  vm_topic :: string
  vm_proof :: string
  vm_public_signals :: "string list"

text \<open>
  What the handler asks of \<open>serde_json\<close>: the text of a list of strings, and the metadata of an
  agent (alignment, scope, contract, reputation), if the stored contract is JSON.
\<close>

record membership_io =
  signals_to_json :: "string list \<Rightarrow> string"
  agent_metadata :: "string \<Rightarrow> string \<Rightarrow> string \<Rightarrow> rat \<Rightarrow> string option"

definition check_proof ::
  "'f crypto \<Rightarrow> ('f, 'q, 'g, 'h) snark \<Rightarrow> membership_io \<Rightarrow> ('g, 'h) VerifyingKey \<Rightarrow> faults \<Rightarrow> db \<Rightarrow> VerifyMembershipRequest
     \<Rightarrow> ApiError + unit" where
  "check_proof C Z io vkey flt d q =
     and_then (db_call flt 0) (\<lambda>_. and_then (db_call flt 1) (\<lambda>_.
     if \<not> exists_where (\<lambda>r. rt_root_hex r = vm_root q) (vrp_roots d)
     then Inl (ApiConflict (''stale or invalid root: '' @ vm_root q)) else
     and_then (map_err (\<lambda>_. BadRequest ''invalid proof format: '') (parse_proof Z (vm_proof q))) (\<lambda>pr.
     and_then (map_err (\<lambda>_. BadRequest ''invalid public signals format: '')
                 (parse_public_signals Z (signals_to_json io (vm_public_signals q)))) (\<lambda>signals.
     and_then (map_err (\<lambda>_. Unauthorized ''proof verification failed: '') (verify_proof Z vkey pr signals)) (\<lambda>valid.
     if \<not> valid then Inl (Unauthorized ''invalid proof'') else
     if length signals \<noteq> 2 then Inl (BadRequest ''invalid number of public signals'') else
     and_then (map_err (\<lambda>_. BadRequest ''invalid root hex: '') (parse_fr_from_hex C (vm_root q))) (\<lambda>claimed_root.
     and_then (map_err (\<lambda>_. BadRequest ''invalid commitment hex: '') (parse_fr_from_hex C (vm_commitment q))) (\<lambda>claimed_commitment.
     if signals ! 0 \<noteq> claimed_root then Inl (BadRequest ''proof root does not match claimed root'') else
     if signals ! 1 \<noteq> claimed_commitment then Inl (BadRequest ''proof commitment does not match claimed commitment'') else
     Inr ())))))))"

text \<open>What is known before the transaction: nullifier, pseudonym, role, server, metadata.\<close>

definition derive_names :: "'f crypto \<Rightarrow> VerifyMembershipRequest \<Rightarrow> ApiError + string \<times> string" where
  "derive_names C q =
     and_then (map_err (\<lambda>e. BadRequest (''failed to derive nullifier: '' @ identity_error_text e))
                 (derive_nullifier_hex C (vm_commitment q) (vm_topic q))) (\<lambda>n.
     and_then (map_err (\<lambda>_. InternalServerError) (derive_pseudonym_id C (vm_topic q) n)) (\<lambda>p. Inr (n, p)))"

definition registered_role :: "faults \<Rightarrow> db \<Rightarrow> string \<Rightarrow> ApiError + RoleCode" where
  "registered_role flt d c =
     and_then (db_call flt 3) (\<lambda>_.
     and_then (ok_or (first_where (\<lambda>r. vi_commitment r = c) (vrp_identities d)) (NotFound ''identity not found in registry'')) (\<lambda>r.
     ok_or (from_u8 (vi_role r)) InternalServerError))"

definition first_server :: "faults \<Rightarrow> db \<Rightarrow> ApiError + int" where
  "first_server flt d =
     and_then (db_call flt 4) (\<lambda>_. case servers d of [] \<Rightarrow> Inl InternalServerError | sv # _ \<Rightarrow> Inr (sv_id sv))"

definition node_metadata :: "membership_io \<Rightarrow> faults \<Rightarrow> db \<Rightarrow> int \<Rightarrow> string \<Rightarrow> RoleCode \<Rightarrow> ApiError + string option" where
  "node_metadata io flt d s p role =
     (if role \<noteq> RoleCode.AiAgent then Inr None
      else and_then (db_call flt 5) (\<lambda>_.
        case first_where (is_agent s p) (agent_rows d) of
          None \<Rightarrow> Inr None
        | Some r \<Rightarrow>
            and_then (ok_or (agent_metadata io (ar_alignment r) (ar_scope r) (ar_contract r) (ar_reputation r)) InternalServerError)
              (\<lambda>j. Inr (Some j))))"

definition prepare_member ::
  "'f crypto \<Rightarrow> membership_io \<Rightarrow> faults \<Rightarrow> db \<Rightarrow> VerifyMembershipRequest
     \<Rightarrow> ApiError + (string \<times> string \<times> RoleCode \<times> int \<times> string option)" where
  "prepare_member C io flt d q =
     and_then (derive_names C q) (\<lambda>(n, p).
     and_then (registered_role flt d (vm_commitment q)) (\<lambda>role.
     and_then (first_server flt d) (\<lambda>s.
     and_then (node_metadata io flt d s p role) (\<lambda>md. Inr (n, p, role, s, md)))))"

definition nullifier_failure :: "IdentityError \<Rightarrow> ApiError" where
  "nullifier_failure e = (case e of DuplicateNullifier _ \<Rightarrow> ApiConflict (identity_error_text e) | _ \<Rightarrow> InternalServerError)"

text \<open>The \<open>Debug\<close> form of a node type.\<close>

fun node_type_name :: "NodeType \<Rightarrow> string" where
  "node_type_name NodeType.Human = ''Human''"
| "node_type_name NodeType.AiAgent = ''AiAgent''"
| "node_type_name NodeType.Collective = ''Collective''"
| "node_type_name NodeType.Bridge = ''Bridge''"
| "node_type_name NodeType.Service = ''Service''"

text \<open>
  The transaction: \<open>flt 6\<close> to \<open>flt 12\<close> are its begin, the nullifier, the first event, the
  identity, the node, the second event and the commit. The events are broadcast before it
  commits.
\<close>

definition insert_member_nullifier :: "faults \<Rightarrow> db \<Rightarrow> VerifyMembershipRequest \<Rightarrow> string \<Rightarrow> string \<Rightarrow> ApiError + db" where
  "insert_member_nullifier flt d q n p =
     and_then (db_call flt 6) (\<lambda>_. and_then (db_call flt 7) (\<lambda>_.
       map_err nullifier_failure (insert_nullifier d (vm_topic q) n (Some p) (Some (vm_commitment q)))))"

definition write_member ::
  "faults \<Rightarrow> time \<Rightarrow> db \<Rightarrow> int \<Rightarrow> string \<Rightarrow> RoleCode \<Rightarrow> string option \<Rightarrow> ApiError + db" where
  "write_member flt now d s p role md =
     and_then (db_call flt 9) (\<lambda>_. case create_platform_identity now d s p role of
         (Inl _, _) \<Rightarrow> Inl InternalServerError
       | (Inr _, d1) \<Rightarrow>
           and_then (db_call flt 10) (\<lambda>_. case ensure_graph_node now d1 s p (role_code_to_node_type role) md of
               (Inl _, _) \<Rightarrow> Inl InternalServerError
             | (Inr _, d2) \<Rightarrow> Inr d2))"

definition membership_transaction ::
  "(EventPayload \<Rightarrow> string option) \<Rightarrow> faults \<Rightarrow> time \<Rightarrow> int \<Rightarrow> db \<Rightarrow> VerifyMembershipRequest
     \<Rightarrow> string \<times> string \<times> RoleCode \<times> int \<times> string option \<Rightarrow> (ApiError + db) \<times> sent" where
  "membership_transaction js flt now s0 d q = (\<lambda>(n, p, role, s, md).
     (case insert_member_nullifier flt d q n p of
        Inl e \<Rightarrow> (Inl e, nothing_sent)
      | Inr d1 \<Rightarrow>
          (let (d2, event1) = emit_and_broadcast js (\<lambda>i. flt (8 + i)) now d1 s0 p (PseudonymDerived p (vm_topic q));
               out1 = observed event1 nothing_sent
           in (case write_member flt now d2 s p role md of
                 Inl e \<Rightarrow> (Inl e, out1)
               | Inr d3 \<Rightarrow>
                   (let (d4, event2) = emit_and_broadcast js (\<lambda>i. flt (11 + i)) now d3 s p
                                         (EventPayload.NodeAdded p (node_type_name (role_code_to_node_type role)));
                        out2 = observed event2 out1
                    in if flt 12 then (Inl InternalServerError, out2)
                       else (Inr d4, send_both (NodeUpdated p True) None out2))))))"

text \<open>
  The event for the verified proof is written before the transaction and stays when it fails.
\<close>

definition verify_membership_handler ::
  "'f crypto \<Rightarrow> ('f, 'q, 'g, 'h) snark \<Rightarrow> membership_io \<Rightarrow> (EventPayload \<Rightarrow> string option) \<Rightarrow> ('g, 'h) VerifyingKey \<Rightarrow> faults
     \<Rightarrow> time \<Rightarrow> int \<Rightarrow> db \<Rightarrow> VerifyMembershipRequest \<Rightarrow> (ApiError + string) \<times> db \<times> sent" where
  "verify_membership_handler C Z io js vkey flt now s0 d q =
     (case check_proof C Z io vkey flt d q of
        Inl e \<Rightarrow> (Inl e, d, nothing_sent)
      | Inr _ \<Rightarrow>
          (let (d1, event) = emit_and_broadcast js (\<lambda>i. flt (2 + i)) now d s0 (vm_commitment q)
                               (IdentityVerified (vm_commitment q) (vm_topic q));
               out = observed event nothing_sent
           in (case prepare_member C io flt d1 q of
                 Inl e \<Rightarrow> (Inl e, d1, out)
               | Inr m \<Rightarrow>
                   (case membership_transaction js flt now s0 d1 q m of
                      (Inl e, sent) \<Rightarrow> (Inl e, d1, \<lparr>presence_sent = [], observe_sent = observe_sent out @ observe_sent sent\<rparr>)
                    | (Inr d2, sent) \<Rightarrow>
                        (Inr (fst (snd m)), d2,
                         \<lparr>presence_sent = presence_sent sent, observe_sent = observe_sent out @ observe_sent sent\<rparr>)))))"

section \<open>Looking up an identity\<close>

definition has_live_moderator :: "time \<Rightarrow> db \<Rightarrow> int \<Rightarrow> bool" where
  "has_live_moderator now d s =
     exists_where (\<lambda>r. pi_server r = s \<and> can_moderate (pi_caps r) \<and> pi_active r \<and>
         exists_where (\<lambda>g. is_node s (pi_pseudonym r) g \<and> null_less (Some (now - 300)) (gn_last_seen g)) (node_rows d))
       (auto_rows (platform_identities d))"

definition reread :: "db \<Rightarrow> int \<Rightarrow> string \<Rightarrow> ApiError + PlatformIdentity" where
  "reread d s p = map_err (\<lambda>_. InternalServerError) (get_platform_identity d s p)"

definition promote_identity :: "time \<Rightarrow> int \<Rightarrow> string \<Rightarrow> db \<Rightarrow> db" where
  "promote_identity now s p d =
     d\<lparr>platform_identities := auto_update (\<lambda>r. pi_server r = s \<and> pi_pseudonym r = p)
         (\<lambda>r. r\<lparr>pi_caps := promote (pi_caps r), pi_updated := now\<rparr>) (platform_identities d)\<rparr>"

text \<open>
  \<open>flt 0\<close> to \<open>flt 6\<close>: the connection, the lookup, the founder check, its reread, the query for a
  moderator that was seen lately, the promotion, its reread.
\<close>

definition fetch_platform_identity ::
  "faults \<Rightarrow> time \<Rightarrow> int \<Rightarrow> string \<Rightarrow> db \<Rightarrow> (ApiError + PlatformIdentity) \<times> db" where
  "fetch_platform_identity flt now s p d =
     (case and_then (db_call flt 0) (\<lambda>_. and_then (db_call flt 1) (\<lambda>_.
             map_err (\<lambda>e. if e = DatabaseError QueryReturnedNoRows then NotFound (''identity not found: '' @ p)
                          else InternalServerError) (get_platform_identity d s p))) of
        Inl e \<Rightarrow> (Inl e, d)
      | Inr identity \<Rightarrow>
          if can_moderate (pf_capabilities identity) then (Inr identity, d)
          else if flt 2 then (Inl InternalServerError, d)
          else (case ensure_founder now d s of
             (True, d1) \<Rightarrow> (and_then (db_call flt 3) (\<lambda>_. reread d1 s p), d1)
           | (False, d1) \<Rightarrow>
               if flt 4 then (Inl InternalServerError, d1)
               else if has_live_moderator now d1 s then (Inr identity, d1)
               else if flt 5 then (Inl InternalServerError, d1)
               else let d2 = promote_identity now s p d1
                    in (and_then (db_call flt 6) (\<lambda>_. reread d2 s p), d2)))"

record GetIdentityResponse =
  gi_pseudonym_id :: string
  gi_participant_type :: RoleCode
  gi_active :: bool
  gi_capabilities :: Capabilities

definition get_identity_handler ::
  "faults \<Rightarrow> time \<Rightarrow> int \<Rightarrow> db \<Rightarrow> string \<Rightarrow> (ApiError + GetIdentityResponse) \<times> db" where
  "get_identity_handler flt now s d p =
     (case fetch_platform_identity flt now s p d of
        (Inl e, d') \<Rightarrow> (Inl e, d')
      | (Inr i, d') \<Rightarrow> (Inr \<lparr>gi_pseudonym_id = pf_pseudonym_id i, gi_participant_type = participant_type i,
                             gi_active = pf_active i, gi_capabilities = pf_capabilities i\<rparr>, d'))"

definition get_identity_capabilities_handler ::
  "faults \<Rightarrow> time \<Rightarrow> int \<Rightarrow> db \<Rightarrow> string \<Rightarrow> (ApiError + Capabilities) \<times> db" where
  "get_identity_capabilities_handler flt now s d p =
     (case fetch_platform_identity flt now s p d of
        (Inl e, d') \<Rightarrow> (Inl e, d')
      | (Inr i, d') \<Rightarrow> (Inr (pf_capabilities i), d'))"

section \<open>Verification of membership is sound and happens once\<close>

lemma emit_only_log:
  "emit_and_broadcast js flt now d s eid payload = (d', e) \<Longrightarrow> \<exists>l. d' = d\<lparr>public_event_log := l\<rparr>"
proof -
  assume "emit_and_broadcast js flt now d s eid payload = (d', e)"
  then have "d' = fst (emit_and_broadcast js flt now d s eid payload)" by simp
  moreover have "\<exists>l. fst (emit_and_broadcast js flt now d s eid payload) = d\<lparr>public_event_log := l\<rparr>"
    unfolding emit_and_broadcast_fst
    by (rule emit_event_cases [of js flt now d s "domain payload" "event_type payload" "entity_type payload" eid payload])
      (auto intro: exI [of _ "public_event_log d"])
  ultimately show ?thesis by simp
qed

lemma check_proof_Inr:
  assumes "check_proof C Z io vkey flt d q = Inr u"
  shows "exists_where (\<lambda>r. rt_root_hex r = vm_root q) (vrp_roots d)"
    and "\<exists>pr x y. parse_proof Z (vm_proof q) = Inr pr \<and> verify_proof Z vkey pr [x, y] = Inr True
      \<and> parse_fr_from_hex C (vm_root q) = Inr x \<and> parse_fr_from_hex C (vm_commitment q) = Inr y"
proof -
  show "exists_where (\<lambda>r. rt_root_hex r = vm_root q) (vrp_roots d)"
    using assms by (simp add: check_proof_def res_simps split: if_splits)
  obtain pr xs where pr: "parse_proof Z (vm_proof q) = Inr pr" "verify_proof Z vkey pr xs = Inr True"
    and xs: "length xs = 2" "parse_fr_from_hex C (vm_root q) = Inr (xs ! 0)" "parse_fr_from_hex C (vm_commitment q) = Inr (xs ! 1)"
    using assms by (auto simp: check_proof_def res_simps split: if_splits)
  from xs(1) have "xs = [xs ! 0, xs ! 1]" by (cases xs; cases "tl xs") auto
  with pr xs(2,3) show "\<exists>pr x y. parse_proof Z (vm_proof q) = Inr pr \<and> verify_proof Z vkey pr [x, y] = Inr True
      \<and> parse_fr_from_hex C (vm_root q) = Inr x \<and> parse_fr_from_hex C (vm_commitment q) = Inr y" by metis
qed

lemma prepare_member_Inr:
  assumes "prepare_member C io flt d q = Inr (n, p, role, s, md)"
  shows "derive_nullifier_hex C (vm_commitment q) (vm_topic q) = Inr n"
    and "derive_topic_scoped_pseudonym C (vm_commitment q) (vm_topic q) = Inr p"
    and "\<exists>r \<in> set (vrp_identities d). vi_commitment r = vm_commitment q \<and> from_u8 (vi_role r) = Some role"
    and "\<exists>sv rest. servers d = sv # rest \<and> s = sv_id sv"
proof -
  obtain r where r: "derive_nullifier_hex C (vm_commitment q) (vm_topic q) = Inr n"
    "derive_pseudonym_id C (vm_topic q) n = Inr p"
    "first_where (\<lambda>r. vi_commitment r = vm_commitment q) (vrp_identities d) = Some r" "from_u8 (vi_role r) = Some role"
    and s: "first_server flt d = Inr s"
    using assms by (auto simp: prepare_member_def derive_names_def registered_role_def res_simps)
  show "derive_nullifier_hex C (vm_commitment q) (vm_topic q) = Inr n"
    "derive_topic_scoped_pseudonym C (vm_commitment q) (vm_topic q) = Inr p"
    using r(1,2) by (simp_all add: derive_topic_scoped_pseudonym_def)
  show "\<exists>r \<in> set (vrp_identities d). vi_commitment r = vm_commitment q \<and> from_u8 (vi_role r) = Some role"
    using first_where_Some [OF r(3)] r(4) by blast
  show "\<exists>sv rest. servers d = sv # rest \<and> s = sv_id sv"
    using s by (auto simp: first_server_def res_simps split: list.splits)
qed

lemma create_platform_identity_Inr:
  assumes "create_platform_identity now d s p role = (Inr i, d')"
  obtains row where "d' = d\<lparr>platform_identities := auto_insert row (platform_identities d)\<rparr>"
    "\<And>k. pi_server (row k) = s" "\<And>k. pi_pseudonym (row k) = p" "\<And>k. pi_type (row k) = label role"
    "\<And>k. can_moderate (pi_caps (row k)) = founder_flag d s"
  using assms by (auto simp: create_platform_identity_def Let_def split: if_splits)

lemma ensure_graph_node_active:
  "\<exists>g \<in> set (node_rows (snd (ensure_graph_node now d s p ty md))). is_node s p g \<and> gn_active g"
proof (cases "first_where (is_node s p) (node_rows d)")
  case None
  then show ?thesis by (simp add: ensure_graph_node_def Let_def is_node_def)
next
  case (Some r)
  from first_where_Some [OF Some] have "refreshed now md r \<in> set (update_where (is_node s p) (refreshed now md) (node_rows d))"
    by (auto simp: set_update_where)
  moreover have "is_node s p (refreshed now md r)" "gn_active (refreshed now md r)"
    using first_where_Some [OF Some] by (simp_all add: refreshed_def is_node_def)
  ultimately show ?thesis by (auto simp: ensure_graph_node_def Some)
qed

text \<open>The database after a transaction that commits.\<close>

lemma write_member_Inr:
  assumes "write_member flt now d s p role md = Inr d'"
  obtains row g where "d' = d\<lparr>platform_identities := auto_insert row (platform_identities d), graph_nodes := g\<rparr>"
    and "\<And>k. pi_server (row k) = s" and "\<And>k. pi_pseudonym (row k) = p" and "\<And>k. pi_type (row k) = label role"
    and "\<And>k. can_moderate (pi_caps (row k)) = founder_flag d s"
    and "\<exists>n \<in> set (auto_rows g). is_node s p n \<and> gn_active n"
proof -
  obtain i d1 x where c: "create_platform_identity now d s p role = (Inr i, d1)"
    and e: "ensure_graph_node now d1 s p (role_code_to_node_type role) md = (Inr x, d')"
    using assms by (auto simp: write_member_def res_simps split: prod.splits sum.splits)
  from c obtain row where row: "d1 = d\<lparr>platform_identities := auto_insert row (platform_identities d)\<rparr>"
    "\<And>k. pi_server (row k) = s" "\<And>k. pi_pseudonym (row k) = p" "\<And>k. pi_type (row k) = label role"
    "\<And>k. can_moderate (pi_caps (row k)) = founder_flag d s" 
    by (rule create_platform_identity_Inr) (rule that)
  have d': "d' = d1\<lparr>graph_nodes := graph_nodes d'\<rparr>"
    using e by (auto simp: ensure_graph_node_def Let_def split: option.splits)
  have "\<exists>n \<in> set (node_rows d'). is_node s p n \<and> gn_active n"
    using ensure_graph_node_active [where now = now and d = d1 and s = s and p = p
        and ty = "role_code_to_node_type role" and md = md] by (simp add: e)
  with row d' that [of "graph_nodes d'" row] show ?thesis by simp
qed

lemma membership_transaction_Inr:
  assumes "membership_transaction js flt now s0 d q (n, p, role, s, md) = (Inr d', out)"
  obtains row g l where "\<not> check_nullifier_exists d (vm_topic q) n"
    and "d' = d\<lparr>zk_nullifiers := zk_nullifiers d @ [\<lparr>nf_topic = vm_topic q, nf_nullifier = n, nf_pseudonym = Some p,
           nf_commitment = Some (vm_commitment q)\<rparr>],
         platform_identities := auto_insert row (platform_identities d), graph_nodes := g, public_event_log := l\<rparr>"
    and "\<And>k. pi_server (row k) = s" and "\<And>k. pi_pseudonym (row k) = p" and "\<And>k. pi_type (row k) = label role"
    and "\<And>k. can_moderate (pi_caps (row k)) = founder_flag d s"
    and "\<exists>x \<in> set (auto_rows g). is_node s p x \<and> gn_active x"
proof (cases "insert_member_nullifier flt d q n p")
  case (Inl e)
  with assms show ?thesis by (simp add: membership_transaction_def)
next
  case (Inr d1)
  then have d1: "\<not> check_nullifier_exists d (vm_topic q) n" "d1 = d\<lparr>zk_nullifiers := zk_nullifiers d @
      [\<lparr>nf_topic = vm_topic q, nf_nullifier = n, nf_pseudonym = Some p, nf_commitment = Some (vm_commitment q)\<rparr>]\<rparr>"
    by (auto simp: insert_member_nullifier_def insert_nullifier_cases res_simps split: if_splits)
  obtain d2 e2 where e2: "emit_and_broadcast js (\<lambda>i. flt (8 + i)) now d1 s0 p (PseudonymDerived p (vm_topic q)) = (d2, e2)"
    by (cases "emit_and_broadcast js (\<lambda>i. flt (8 + i)) now d1 s0 p (PseudonymDerived p (vm_topic q))")
  obtain l2 where l2: "d2 = d1\<lparr>public_event_log := l2\<rparr>" using emit_only_log [OF e2] by blast
  from assms Inr e2 obtain d3 where w: "write_member flt now d2 s p role md = Inr d3"
    by (cases "write_member flt now d2 s p role md") (simp_all add: membership_transaction_def)
  obtain d4 e4 where e4: "emit_and_broadcast js (\<lambda>i. flt (11 + i)) now d3 s p
      (EventPayload.NodeAdded p (node_type_name (role_code_to_node_type role))) = (d4, e4)"
    by (cases "emit_and_broadcast js (\<lambda>i. flt (11 + i)) now d3 s p
      (EventPayload.NodeAdded p (node_type_name (role_code_to_node_type role)))")
  obtain l4 where l4: "d4 = d3\<lparr>public_event_log := l4\<rparr>" using emit_only_log [OF e4] by blast
  have d': "d' = d4" using assms Inr e2 w e4 by (simp add: membership_transaction_def Let_def split: if_splits)
  from w obtain row g where row: "d3 = d2\<lparr>platform_identities := auto_insert row (platform_identities d2), graph_nodes := g\<rparr>"
    "\<And>k. pi_server (row k) = s" "\<And>k. pi_pseudonym (row k) = p" "\<And>k. pi_type (row k) = label role"
    "\<And>k. can_moderate (pi_caps (row k)) = founder_flag d2 s"
    "\<exists>n \<in> set (auto_rows g). is_node s p n \<and> gn_active n" by (rule write_member_Inr) (rule that)
  have f: "founder_flag d2 s = founder_flag d s" by (simp add: l2 d1(2) founder_flag_def)
  show ?thesis
    by (rule that [of l4 g row]) (use d1 l2 l4 d' row f in simp_all)
qed

text \<open>
  C2. Verifying membership. It answers with a pseudonym only when the claimed root is one this
  server has had, the proof verifies against that root and the commitment, and the
  commitment is registered; the pseudonym is the one that commitment and topic determine, its
  nullifier was unused and is spent, and one platform identity is created, of the registered
  role, with moderator rights if and only if it is the server's first, together with an
  active node. A request that fails changes nothing but the public log, and announces nobody.
\<close>

theorem verify_membership_sound:
  "case verify_membership_handler C Z io js vkey flt now s0 d q of
     (Inl _, d', out) \<Rightarrow> d' = d\<lparr>public_event_log := public_event_log d'\<rparr> \<and> presence_sent out = []
   | (Inr p, d', out) \<Rightarrow>
       exists_where (\<lambda>r. rt_root_hex r = vm_root q) (vrp_roots d)
       \<and> (\<exists>pr x y. parse_proof Z (vm_proof q) = Inr pr \<and> verify_proof Z vkey pr [x, y] = Inr True
            \<and> parse_fr_from_hex C (vm_root q) = Inr x \<and> parse_fr_from_hex C (vm_commitment q) = Inr y)
       \<and> derive_topic_scoped_pseudonym C (vm_commitment q) (vm_topic q) = Inr p
       \<and> (\<exists>n ident role sv rest row. derive_nullifier_hex C (vm_commitment q) (vm_topic q) = Inr n
            \<and> \<not> check_nullifier_exists d (vm_topic q) n
            \<and> zk_nullifiers d' = zk_nullifiers d @ [\<lparr>nf_topic = vm_topic q, nf_nullifier = n, nf_pseudonym = Some p,
                 nf_commitment = Some (vm_commitment q)\<rparr>]
            \<and> ident \<in> set (vrp_identities d) \<and> vi_commitment ident = vm_commitment q \<and> from_u8 (vi_role ident) = Some role
            \<and> servers d = sv # rest
            \<and> auto_rows (platform_identities d') = auto_rows (platform_identities d) @ [row] \<and> pi_server row = sv_id sv
            \<and> pi_pseudonym row = p \<and> pi_type row = label role \<and> can_moderate (pi_caps row) = founder_flag d (sv_id sv)
            \<and> (\<exists>g \<in> set (node_rows d'). is_node (sv_id sv) p g \<and> gn_active g))"
proof (cases "check_proof C Z io vkey flt d q")
  case (Inl e)
  then show ?thesis by (simp add: verify_membership_handler_def nothing_sent_def)
next
  case (Inr u)
  obtain d1 e1 where e1: "emit_and_broadcast js (\<lambda>i. flt (2 + i)) now d s0 (vm_commitment q)
      (IdentityVerified (vm_commitment q) (vm_topic q)) = (d1, e1)"
    by (cases "emit_and_broadcast js (\<lambda>i. flt (2 + i)) now d s0 (vm_commitment q)
      (IdentityVerified (vm_commitment q) (vm_topic q))")
  obtain l where d1: "d1 = d\<lparr>public_event_log := l\<rparr>" using emit_only_log [OF e1] by blast
  note h = verify_membership_handler_def [of C Z io js vkey flt now s0 d q]
  show ?thesis
  proof (cases "prepare_member C io flt d1 q")
    case p: (Inl e)
    then have "verify_membership_handler C Z io js vkey flt now s0 d q = (Inl e, d1, observed e1 nothing_sent)"
      by (simp add: h Inr e1 [simplified])
    then show ?thesis by (simp add: d1 observed_def nothing_sent_def)
  next
    case p: (Inr m)
    obtain n p role s md where m: "m = (n, p, role, s, md)" by (cases m)
    note pm = prepare_member_Inr [OF p [unfolded m]]
    obtain res sent where t: "membership_transaction js flt now s0 d1 q m = (res, sent)"
      by (cases "membership_transaction js flt now s0 d1 q m")
    show ?thesis
    proof (cases res)
      case r: (Inl e)
      with t have "verify_membership_handler C Z io js vkey flt now s0 d q
          = (Inl e, d1, \<lparr>presence_sent = [], observe_sent = observe_sent (observed e1 nothing_sent) @ observe_sent sent\<rparr>)"
        by (simp add: h Inr e1 [simplified] p)
      then show ?thesis by (simp add: d1)
    next
      case r: (Inr d2)
      from t [unfolded r m] obtain row g l' where row: "\<not> check_nullifier_exists d1 (vm_topic q) n"
        "d2 = d1\<lparr>zk_nullifiers := zk_nullifiers d1 @ [\<lparr>nf_topic = vm_topic q, nf_nullifier = n, nf_pseudonym = Some p,
           nf_commitment = Some (vm_commitment q)\<rparr>],
         platform_identities := auto_insert row (platform_identities d1), graph_nodes := g, public_event_log := l'\<rparr>"
        "\<And>k. pi_server (row k) = s" "\<And>k. pi_pseudonym (row k) = p" "\<And>k. pi_type (row k) = label role"
        "\<And>k. can_moderate (pi_caps (row k)) = founder_flag d1 s"
        "\<exists>x \<in> set (auto_rows g). is_node s p x \<and> gn_active x" by (rule membership_transaction_Inr) (rule that)
      have c: "check_nullifier_exists d1 t n = check_nullifier_exists d t n" "founder_flag d1 s = founder_flag d s" for t
        by (simp_all add: d1 check_nullifier_exists_def founder_flag_def)
      obtain sv rest where sv: "servers d = sv # rest" "s = sv_id sv" using pm(4) by (auto simp: d1)
      obtain ident where ident: "ident \<in> set (vrp_identities d)" "vi_commitment ident = vm_commitment q"
        "from_u8 (vi_role ident) = Some role" using pm(3) by (auto simp: d1)
      have res: "verify_membership_handler C Z io js vkey flt now s0 d q
          = (Inr p, d2, \<lparr>presence_sent = presence_sent sent, observe_sent = observe_sent (observed e1 nothing_sent) @ observe_sent sent\<rparr>)"
        using t r by (simp add: h Inr e1 [simplified] p m)
      have rows: "auto_rows (platform_identities d2) = auto_rows (platform_identities d) @ [row (auto_next (platform_identities d))]"
        "zk_nullifiers d2 = zk_nullifiers d @ [\<lparr>nf_topic = vm_topic q, nf_nullifier = n, nf_pseudonym = Some p,
                 nf_commitment = Some (vm_commitment q)\<rparr>]" "node_rows d2 = auto_rows g"
        by (simp_all add: row(2) d1)
      show ?thesis
        unfolding res prod.case sum.case
        by (intro conjI exI [of _ n] exI [of _ ident] exI [of _ role] exI [of _ sv] exI [of _ rest]
            exI [of _ "row (auto_next (platform_identities d))"])
          (use check_proof_Inr [OF Inr] pm(1,2) row(1,3-7) rows sv ident c in simp_all)
    qed
  qed
qed

text \<open>The steps of a request that succeeds.\<close>

lemma verify_membership_steps:
  assumes "verify_membership_handler C Z io js vkey flt now s0 d q = (Inr p, d', out)"
  obtains l n role s md sent where "prepare_member C io flt (d\<lparr>public_event_log := l\<rparr>) q = Inr (n, p, role, s, md)"
    and "membership_transaction js flt now s0 (d\<lparr>public_event_log := l\<rparr>) q (n, p, role, s, md) = (Inr d', sent)"
proof -
  obtain d1 e1 where e1: "emit_and_broadcast js (\<lambda>i. flt (2 + i)) now d s0 (vm_commitment q)
      (IdentityVerified (vm_commitment q) (vm_topic q)) = (d1, e1)"
    by (cases "emit_and_broadcast js (\<lambda>i. flt (2 + i)) now d s0 (vm_commitment q)
      (IdentityVerified (vm_commitment q) (vm_topic q))")
  obtain l where l: "d1 = d\<lparr>public_event_log := l\<rparr>" using emit_only_log [OF e1] by blast
  obtain m sent where "prepare_member C io flt d1 q = Inr m" "p = fst (snd m)"
    "membership_transaction js flt now s0 d1 q m = (Inr d', sent)"
    using assms e1 [simplified]
    by (auto simp: verify_membership_handler_def Let_def split: sum.splits prod.splits)
  then show ?thesis using that [of l "fst m" "fst (snd (snd m))" "fst (snd (snd (snd m)))" "snd (snd (snd (snd m)))" sent]
    by (simp add: l)
qed

text \<open>
  A commitment gets its pseudonym on a topic once. After a success, no later request for the
  same commitment and topic succeeds, whatever proof, root, server and failures it comes
  with, as long as the spent nullifiers are kept.
\<close>

theorem verify_membership_once:
  assumes "verify_membership_handler C Z io js vkey flt now s0 d q = (Inr p, d1, out)"
    and "set (zk_nullifiers d1) \<subseteq> set (zk_nullifiers d2)"
    and "vm_commitment q' = vm_commitment q" and "vm_topic q' = vm_topic q"
  shows "fst (verify_membership_handler C Z' io' js' vkey' flt' now' s0' d2 q') \<noteq> Inr p'"
proof
  assume "fst (verify_membership_handler C Z' io' js' vkey' flt' now' s0' d2 q') = Inr p'"
  then obtain d3 out' where again: "verify_membership_handler C Z' io' js' vkey' flt' now' s0' d2 q' = (Inr p', d3, out')"
    by (metis prod.collapse)
  from assms(1) obtain l n role s md sent where 1: "prepare_member C io flt (d\<lparr>public_event_log := l\<rparr>) q = Inr (n, p, role, s, md)"
    "membership_transaction js flt now s0 (d\<lparr>public_event_log := l\<rparr>) q (n, p, role, s, md) = (Inr d1, sent)"
    by (rule verify_membership_steps)
  from again obtain l' n' role' s' md' sent' where 2: "prepare_member C io' flt' (d2\<lparr>public_event_log := l'\<rparr>) q' = Inr (n', p', role', s', md')"
    "membership_transaction js' flt' now' s0' (d2\<lparr>public_event_log := l'\<rparr>) q' (n', p', role', s', md') = (Inr d3, sent')"
    by (rule verify_membership_steps)
  have n: "n' = n" using prepare_member_Inr(1) [OF 1(1)] prepare_member_Inr(1) [OF 2(1)] assms(3,4) by simp
  from 1(2) have "\<exists>r \<in> set (zk_nullifiers d1). nf_topic r = vm_topic q \<and> nf_nullifier r = n"
    by (rule membership_transaction_Inr) simp
  with assms(2) have "check_nullifier_exists d2 (vm_topic q) n"
    unfolding check_nullifier_exists_def count_where_pos by blast
  moreover from 2(2) have "\<not> check_nullifier_exists d2 (vm_topic q) n"
    by (rule membership_transaction_Inr) (simp add: n assms(4) check_nullifier_exists_def)
  ultimately show False by contradiction
qed

section \<open>Who a lookup promotes\<close>

lemma ensure_founder_not_needed:
  "exists_where (active_moderator s) (platform_rows d) \<Longrightarrow> ensure_founder now d s = (False, d)"
  by (simp add: ensure_founder_def)

lemma ensure_founder_nobody:
  "\<not> exists_where (\<lambda>r. pi_server r = s \<and> pi_active r) (platform_rows d) \<Longrightarrow> ensure_founder now d s = (False, d)"
  using min_active_id_None [of d s]
  by (auto simp: ensure_founder_def exists_where_iff count_where_def update_where_def auto_update_def)

text \<open>
  C32. Looking up an identity, which no route protects, changes who moderates the server.
  While the server has an active moderator, but none that was seen in the last five minutes,
  asking for any identity without moderator rights gives it the rights to speak, moderate,
  invite and federate, whether it is active or not, and says so in the answer; with a
  moderator seen later than that, the lookup changes nothing and reads the row. With no active
  moderator at all the earliest active identity gets the rights, whoever was asked for; with
  no active identity either, it is again the one that was asked for.
\<close>

theorem identity_lookup_promotes:
  assumes "get_platform_identity d s p = Inr i" and "\<not> can_moderate (pf_capabilities i)"
  shows "if exists_where (active_moderator s) (platform_rows d)
      \<or> \<not> exists_where (\<lambda>r. pi_server r = s \<and> pi_active r) (platform_rows d)
    then get_identity_handler no_faults now s d p =
      (let caps = if has_live_moderator now d s then pf_capabilities i else promote (pf_capabilities i)
       in (Inr \<lparr>gi_pseudonym_id = p, gi_participant_type = participant_type i, gi_active = pf_active i, gi_capabilities = caps\<rparr>,
           if has_live_moderator now d s then d else promote_identity now s p d))
    else \<exists>r \<in> set (platform_rows d). pi_server r = s \<and> pi_active r
      \<and> (\<forall>r' \<in> set (platform_rows d). pi_server r' = s \<and> pi_active r' \<longrightarrow> pi_id r \<le> pi_id r')
      \<and> snd (get_identity_handler no_faults now s d p) = d\<lparr>platform_identities := auto_update (\<lambda>x. pi_id x = pi_id r)
           (\<lambda>r. r\<lparr>pi_caps := promote (pi_caps r), pi_updated := now\<rparr>) (platform_identities d)\<rparr>"
proof (cases "exists_where (active_moderator s) (platform_rows d)
      \<or> \<not> exists_where (\<lambda>r. pi_server r = s \<and> pi_active r) (platform_rows d)")
  case True
  have p: "pf_pseudonym_id i = p"
    using assms(1) by (auto simp: get_platform_identity_def split: option.splits sum.splits dest: first_where_Some)
  have f: "ensure_founder now d s = (False, d)"
    using True ensure_founder_not_needed ensure_founder_nobody by blast
  obtain r where r: "first_where (\<lambda>r. pi_server r = s \<and> pi_pseudonym r = p) (platform_rows d) = Some r"
    and i: "pf_active i = pi_active r" "pf_capabilities i = pi_caps r" "role_from_str (pi_type r) = Inr (participant_type i)"
    using assms(1) by (auto simp: get_platform_identity_def split: option.splits sum.splits)
  have "first_where (\<lambda>r. pi_server r = s \<and> pi_pseudonym r = p) (platform_rows (promote_identity now s p d))
      = Some (r\<lparr>pi_caps := promote (pi_caps r), pi_updated := now\<rparr>)"
    using first_where_Some [OF r] r by (simp add: promote_identity_def first_where_update_where)
  then obtain i' where "reread (promote_identity now s p d) s p = Inr i'" "pf_pseudonym_id i' = p" "pf_active i' = pf_active i"
    "participant_type i' = participant_type i" "pf_capabilities i' = promote (pf_capabilities i)"
    using first_where_Some [OF r] i by (simp add: reread_def get_platform_identity_def)
  then show ?thesis
    using assms(1,2) p f True
    by (simp add: get_identity_handler_def fetch_platform_identity_def no_faults_def db_call_def Let_def)
next
  case False
  then obtain r0 where r0: "r0 \<in> set (platform_rows d)" "pi_server r0 = s" "pi_active r0" by (auto simp: exists_where_iff)
  have none: "\<not> exists_where (active_moderator s) (platform_rows d)" using False by blast
  obtain r where r: "r \<in> set (platform_rows d)" "pi_server r = s" "pi_active r"
    "\<forall>r' \<in> set (platform_rows d). pi_server r' = s \<and> pi_active r' \<longrightarrow> pi_id r \<le> pi_id r'"
    and e: "ensure_founder now d s = (True, d\<lparr>platform_identities := auto_update (\<lambda>x. pi_id x = pi_id r)
           (\<lambda>r. r\<lparr>pi_caps := promote (pi_caps r), pi_updated := now\<rparr>) (platform_identities d)\<rparr>)"
    by (rule ensure_founder_promotes [OF none r0])
  have "snd (fetch_platform_identity no_faults now s p d) = d\<lparr>platform_identities := auto_update (\<lambda>x. pi_id x = pi_id r)
           (\<lambda>r. r\<lparr>pi_caps := promote (pi_caps r), pi_updated := now\<rparr>) (platform_identities d)\<rparr>"
    using assms by (simp add: fetch_platform_identity_def no_faults_def db_call_def e)
  then have "snd (get_identity_handler no_faults now s d p) = d\<lparr>platform_identities := auto_update (\<lambda>x. pi_id x = pi_id r)
           (\<lambda>r. r\<lparr>pi_caps := promote (pi_caps r), pi_updated := now\<rparr>) (platform_identities d)\<rparr>"
    by (cases "fetch_platform_identity no_faults now s p d"; cases "fst (fetch_platform_identity no_faults now s p d)")
      (simp_all add: get_identity_handler_def)
  then show ?thesis using r unfolding if_not_P [OF False] by (intro bexI [of _ r] conjI) assumption+
qed

section \<open>A concrete registry\<close>

text \<open>A server with one registered human, whose commitment also is the root it has had.\<close>

definition demo_member_snark :: "(u8, nat, nat, nat) snark" where
  "demo_member_snark = demo_snark\<lparr>fr_from_str := \<lambda>_. Some (commitment_leaf demo_crypto demo_commitment),
     signals_from_json := \<lambda>_. Some [[], []]\<rparr>"

definition demo_member_io :: membership_io where
  "demo_member_io = \<lparr>signals_to_json = concat, agent_metadata = (\<lambda>_ _ _ _. None)\<rparr>"

definition demo_registry :: db where
  "demo_registry = (migrated_db 0)\<lparr>
     servers := [\<lparr>sv_id = 1, sv_slug = ''s'', sv_label = ''S'', sv_policy_json = []\<rparr>],
     vrp_roots := [\<lparr>rt_root_hex = demo_commitment, rt_active = True, rt_created = 0\<rparr>],
     vrp_identities := [\<lparr>vi_rowid = 1, vi_commitment = demo_commitment, vi_role = 1, vi_node = 0\<rparr>]\<rparr>"

definition demo_membership :: VerifyMembershipRequest where
  "demo_membership = \<lparr>vm_root = demo_commitment, vm_commitment = demo_commitment, vm_topic = ''t'', vm_proof = [],
     vm_public_signals = []\<rparr>"

lemma demo_registry_rows [simp]:
  "servers demo_registry = [\<lparr>sv_id = 1, sv_slug = ''s'', sv_label = ''S'', sv_policy_json = []\<rparr>]"
  "vrp_roots demo_registry = [\<lparr>rt_root_hex = demo_commitment, rt_active = True, rt_created = 0\<rparr>]"
  "vrp_identities demo_registry = [\<lparr>vi_rowid = 1, vi_commitment = demo_commitment, vi_role = 1, vi_node = 0\<rparr>]"
  "zk_nullifiers demo_registry = []" "platform_rows demo_registry = []" "node_rows demo_registry = []"
  by (simp_all add: demo_registry_def migrated_db_def)

lemma demo_membership_fields [simp]:
  "vm_root demo_membership = demo_commitment" "vm_commitment demo_membership = demo_commitment"
  "vm_topic demo_membership = ''t''"
  by (simp_all add: demo_membership_def)

lemma demo_member_verifies:
  "\<exists>p d'. verify_membership_handler demo_crypto demo_member_snark demo_member_io (\<lambda>_. None) vkey no_faults 5 1
      demo_registry demo_membership = (Inr p, d', \<lparr>presence_sent = [NodeUpdated p True], observe_sent = []\<rparr>)"
proof -
  have "hex_decode demo_crypto demo_commitment \<noteq> None"
    using demo_hex_laws demo_commitment_format lower_hex_is_hexdigit [of demo_commitment]
    by (simp add: hex_laws_def is_lower_hex_64_def)
  then have fr: "parse_fr_from_hex demo_crypto demo_commitment = Inr (commitment_leaf demo_crypto demo_commitment)"
    by (auto simp: parse_fr_from_hex_def commitment_leaf_def)
  have check: "check_proof demo_crypto demo_member_snark demo_member_io vkey no_faults demo_registry demo_membership = Inr ()"
    by (simp add: check_proof_def fr exists_where_def parse_proof_def parse_public_signals_def verify_proof_def
        demo_member_snark_def demo_snark_def parse_g1_def parse_g2_def parse_fq_def parse_fr_def validate_g1_def validate_g2_def)
  have sha: "is_lower_hex_64 (sha256_hex demo_crypto x)" "sha256_hex demo_crypto x \<noteq> []" for x
    using sha256_hex_format [OF demo_hex_laws demo_sha_laws, of x] by (auto simp: is_lower_hex_64_def)
  obtain n p where n: "derive_nullifier_hex demo_crypto demo_commitment ''t'' = Inr n" "derive_pseudonym_id demo_crypto ''t'' n = Inr p"
    using demo_commitment_format sha by (simp add: derive_nullifier_hex_def derive_pseudonym_id_def)
  have prep: "prepare_member demo_crypto demo_member_io no_faults demo_registry demo_membership = Inr (n, p, RoleCode.Human, 1, None)"
    by (simp add: prepare_member_def derive_names_def n registered_role_def first_server_def node_metadata_def from_u8_def)
  have emit: "emit_and_broadcast (\<lambda>_. None) flt now d s e pl = (d, None)" for flt now d s e pl
    by (simp add: emit_and_broadcast_def emit_event_def)
  have ins: "insert_member_nullifier no_faults demo_registry demo_membership n p
      = Inr (demo_registry\<lparr>zk_nullifiers := [\<lparr>nf_topic = ''t'', nf_nullifier = n, nf_pseudonym = Some p, nf_commitment = Some demo_commitment\<rparr>]\<rparr>)"
    by (simp add: insert_member_nullifier_def insert_nullifier_cases check_nullifier_exists_def count_where_def)
  obtain d' where w: "write_member no_faults 5 (demo_registry\<lparr>zk_nullifiers := [\<lparr>nf_topic = ''t'', nf_nullifier = n,
      nf_pseudonym = Some p, nf_commitment = Some demo_commitment\<rparr>]\<rparr>) 1 p RoleCode.Human None = Inr d'"
    by (simp add: write_member_def create_platform_identity_def Let_def get_platform_identity_def exists_where_def
        role_from_str_def ensure_graph_node_def graph_node_of_def str_to_node_type_def)
  show ?thesis
    using check prep w
    by (simp add: verify_membership_handler_def emit membership_transaction_def ins observed_def nothing_sent_def)
      (simp add: no_faults_def send_both_def)
qed

theorem verify_membership_once_witness:
  "\<forall>vkey. \<exists>p d'. fst (verify_membership_handler demo_crypto demo_member_snark demo_member_io (\<lambda>_. None) vkey no_faults 5 1
      demo_registry demo_membership) = Inr p
    \<and> fst (verify_membership_handler demo_crypto demo_member_snark demo_member_io (\<lambda>_. None) vkey no_faults 6 1 d' demo_membership) \<noteq> Inr p
    \<and> (\<exists>r. zk_nullifiers d' = [r])"
proof
  fix vkey
  obtain p d' where h: "verify_membership_handler demo_crypto demo_member_snark demo_member_io (\<lambda>_. None) vkey no_faults 5 1
      demo_registry demo_membership = (Inr p, d', \<lparr>presence_sent = [NodeUpdated p True], observe_sent = []\<rparr>)"
    using demo_member_verifies by blast
  note once = verify_membership_once [OF h order_refl refl refl]
  from h obtain l n role s md sent where t: "membership_transaction (\<lambda>_. None) no_faults 5 1 (demo_registry\<lparr>public_event_log := l\<rparr>)
      demo_membership (n, p, role, s, md) = (Inr d', sent)" by (rule verify_membership_steps)
  have "\<exists>r. zk_nullifiers d' = [r]" using t by (rule membership_transaction_Inr) simp
  with h once show "\<exists>p d'. fst (verify_membership_handler demo_crypto demo_member_snark demo_member_io (\<lambda>_. None) vkey no_faults 5 1
      demo_registry demo_membership) = Inr p
    \<and> fst (verify_membership_handler demo_crypto demo_member_snark demo_member_io (\<lambda>_. None) vkey no_faults 6 1 d' demo_membership) \<noteq> Inr p
    \<and> (\<exists>r. zk_nullifiers d' = [r])" by (intro exI [of _ p] exI [of _ d']) simp
qed

text \<open>A moderator who was never seen, and a deactivated identity.\<close>

definition demo_lookup :: db where
  "demo_lookup = fold platform_step [CreateIdentity 1 7 ''a'' RoleCode.Human, CreateIdentity 2 7 ''b'' RoleCode.Human,
     Deactivate 3 7 ''b''] (migrated_db 0)"

theorem identity_lookup_promotes_witness:
  "\<exists>r d'. get_identity_handler no_faults 9 7 demo_lookup ''b'' = (Inr r, d') \<and> can_moderate (gi_capabilities r) \<and> \<not> gi_active r"
proof -
  let ?rows = "auto_rows (platform_identities demo_lookup)"
  have rows: "?rows = [\<lparr>pi_id = 1, pi_server = 7, pi_pseudonym = ''a'', pi_type = ''HUMAN'',
        pi_caps = \<lparr>can_voice = True, can_moderate = True, can_invite = True, can_federate = True, can_bridge = False\<rparr>,
        pi_active = True, pi_created = 1, pi_updated = 1\<rparr>,
      \<lparr>pi_id = 2, pi_server = 7, pi_pseudonym = ''b'', pi_type = ''HUMAN'',
        pi_caps = \<lparr>can_voice = False, can_moderate = False, can_invite = False, can_federate = False, can_bridge = False\<rparr>,
        pi_active = False, pi_created = 2, pi_updated = 3\<rparr>]"
    by (simp add: demo_lookup_def create_platform_identity_def deactivate_platform_identity_def migrated_db_def
        exists_where_def Let_def founder_flag_def count_where_def update_where_def)
  have live: "\<not> has_live_moderator 9 demo_lookup 7"
    by (simp add: has_live_moderator_def rows exists_where_def)
      (simp add: demo_lookup_def create_platform_identity_def deactivate_platform_identity_def migrated_db_def Let_def exists_where_def)
  obtain i where i: "get_platform_identity demo_lookup 7 ''b'' = Inr i" "pf_active i = False"
    "\<not> can_moderate (pf_capabilities i)"
    by (simp add: get_platform_identity_def rows role_from_str_def)
  have "exists_where (active_moderator 7) ?rows" by (simp add: rows exists_where_def)
  with identity_lookup_promotes [OF i(1,3), of 9] live i(2) show ?thesis by (simp add: Let_def promote_def)
qed

end
