(* ===== verification/Annex_Uploads.thy ===== *)
theory Annex_Uploads
  imports Annex_Agents Annex_Channels
begin

text \<open>
  \<open>annex-server/src/api_upload.rs\<close>: detecting the type of a file by its first bytes, removing
  the metadata of JPEG and PNG images, and the upload handlers. The
  column with the image of a server and the files on disk are kept beside the database; \<open>flt n\<close> makes the \<open>n\<close>-th call of a handler to the file system or the
  database fail. A loop over the bytes of a file is a function of the bytes that are left.
\<close>

section \<open>Types of files\<close>

datatype UploadCategory = Image | Video | File

fun category_str :: "UploadCategory \<Rightarrow> string" where
  "category_str Image = ''image''"
| "category_str Video = ''video''"
| "category_str File = ''file''"

fun subdir :: "UploadCategory \<Rightarrow> string" where
  "subdir Image = ''images''"
| "subdir Video = ''videos''"
| "subdir File = ''files''"

definition allowed_image_types :: "string list" where
  "allowed_image_types = [''image/jpeg'', ''image/png'', ''image/gif'', ''image/webp'']"

definition allowed_video_types :: "string list" where
  "allowed_video_types = [''video/mp4'', ''video/webm'', ''video/quicktime'']"

definition blocked_types :: "string list" where
  "blocked_types = [''application/x-executable'', ''application/x-dosexec'', ''application/x-sharedlib'']"

definition max_server_image_size :: nat where "max_server_image_size = 10 * 1024 * 1024"
definition upload_stream_ceiling :: nat where "upload_stream_ceiling = 50 * 1024 * 1024"

definition ext_from_content_type :: "string \<Rightarrow> string" where
  "ext_from_content_type ct =
     (if ct = ''image/jpeg'' then ''jpg''
      else if ct = ''image/png'' then ''png''
      else if ct = ''image/gif'' then ''gif''
      else if ct = ''image/webp'' then ''webp''
      else if ct = ''video/mp4'' then ''mp4''
      else if ct = ''video/webm'' then ''webm''
      else if ct = ''video/quicktime'' then ''mov''
      else if ct = ''application/pdf'' then ''pdf''
      else if ct = ''application/zip'' then ''zip''
      else if ct = ''text/plain'' then ''txt''
      else ''bin'')"

definition png_signature :: bytes where
  "png_signature = [CHR 0x89, CHR 0x50, CHR 0x4E, CHR 0x47, CHR 0x0D, CHR 0x0A, CHR 0x1A, CHR 0x0A]"

text \<open>The bytes of \<open>data\<close> from \<open>i\<close> to \<open>j\<close>, as far as they are there; a shorter file matches no test.\<close>

definition slice :: "nat \<Rightarrow> nat \<Rightarrow> bytes \<Rightarrow> bytes" where
  "slice i j data = take (j - i) (drop i data)"

definition detect_content_type :: "bytes \<Rightarrow> (string \<times> UploadCategory) option" where
  "detect_content_type data =
     (if slice 0 2 data = [CHR 0xFF, CHR 0xD8] then Some (''image/jpeg'', Image)
      else if slice 0 8 data = png_signature then Some (''image/png'', Image)
      else if slice 0 4 data = ''GIF8'' then Some (''image/gif'', Image)
      else if slice 0 4 data = ''RIFF'' \<and> slice 8 12 data = ''WEBP'' then Some (''image/webp'', Image)
      else if 12 \<le> length data \<and> slice 4 8 data = ''ftyp''
      then (if slice 8 12 data = ''qt  '' then Some (''video/quicktime'', Video) else Some (''video/mp4'', Video))
      else if slice 0 4 data = [CHR 0x1A, CHR 0x45, CHR 0xDF, CHR 0xA3] then Some (''video/webm'', Video)
      else if slice 0 4 data = ''%PDF'' then Some (''application/pdf'', File)
      else if slice 0 4 data = [CHR 0x50, CHR 0x4B, CHR 0x03, CHR 0x04] then Some (''application/zip'', File)
      else if slice 0 4 data = [CHR 0x7F, CHR 0x45, CHR 0x4C, CHR 0x46] then Some (''application/x-executable'', File)
      else if slice 0 2 data = [CHR 0x4D, CHR 0x5A] then Some (''application/x-dosexec'', File)
      else None)"

definition max_size_for_category :: "ServerPolicy \<Rightarrow> UploadCategory \<Rightarrow> nat" where
  "max_size_for_category policy category =
     unat (case category of Image \<Rightarrow> max_image_size_mb policy | Video \<Rightarrow> max_video_size_mb policy
       | File \<Rightarrow> max_file_size_mb policy) * 1024 * 1024"

definition is_category_enabled :: "ServerPolicy \<Rightarrow> UploadCategory \<Rightarrow> bool" where
  "is_category_enabled policy category =
     (case category of Image \<Rightarrow> images_enabled policy | Video \<Rightarrow> videos_enabled policy | File \<Rightarrow> files_enabled policy)"

section \<open>Removing metadata\<close>

definition be16 :: "bytes \<Rightarrow> nat" where
  "be16 bs = foldl (\<lambda>n b. 256 * n + of_char b) 0 (take 2 bs)"

definition be32 :: "bytes \<Rightarrow> nat" where
  "be32 bs = foldl (\<lambda>n b. 256 * n + of_char b) 0 (take 4 bs)"

definition standalone_marker :: "char \<Rightarrow> bool" where
  "standalone_marker m \<longleftrightarrow> m = CHR 0xD8 \<or> m = CHR 0xD9 \<or> 0xD0 \<le> (of_char m :: nat) \<and> (of_char m :: nat) \<le> 0xD7"

definition metadata_marker :: "char \<Rightarrow> bool" where
  "metadata_marker m \<longleftrightarrow> m = CHR 0xE1 \<or> m = CHR 0xEC \<or> m = CHR 0xED \<or> m = CHR 0xFE"

text \<open>The loop of \<open>strip_jpeg_metadata\<close>, on the bytes from \<open>i\<close> on.\<close>

function strip_segments :: "bytes \<Rightarrow> bytes" where
  "strip_segments rest =
     (case rest of
        a # m # body \<Rightarrow>
          if a \<noteq> CHR 0xFF then rest
          else if m = CHR 0xDA then rest
          else if standalone_marker m then a # m # strip_segments body
          else if length body < 2 then []
          else let total = be16 body + 2 in
            if length rest < total then rest
            else (if metadata_marker m then [] else take total rest) @ strip_segments (drop total rest)
      | _ \<Rightarrow> [])"
  by pat_completeness auto
termination
  by (relation "measure length") auto

declare strip_segments.simps [simp del]

definition strip_jpeg_metadata :: "bytes \<Rightarrow> bytes" where
  "strip_jpeg_metadata data =
     (if slice 0 2 data \<noteq> [CHR 0xFF, CHR 0xD8] then data else take 2 data @ strip_segments (drop 2 data))"

definition metadata_chunks :: "string list" where
  "metadata_chunks = [''tEXt'', ''iTXt'', ''zTXt'', ''eXIf'']"

text \<open>
  The loop of \<open>strip_png_metadata\<close>. A partial chunk is copied before the loop is left, and the
  copy of the trailing bytes after the loop takes it again.
\<close>

function strip_chunks :: "bytes \<Rightarrow> bytes" where
  "strip_chunks rest =
     (if length rest < 12 then rest
      else let total = 12 + be32 rest in
        if length rest < total then rest @ rest
        else (if slice 4 8 rest \<in> set metadata_chunks then [] else take total rest) @ strip_chunks (drop total rest))"
  by pat_completeness auto
termination
  by (relation "measure length") auto

declare strip_chunks.simps [simp del]

definition strip_png_metadata :: "bytes \<Rightarrow> bytes" where
  "strip_png_metadata data = (if slice 0 8 data \<noteq> png_signature then data else take 8 data @ strip_chunks (drop 8 data))"

definition strip_metadata :: "bytes \<Rightarrow> string \<Rightarrow> bytes" where
  "strip_metadata data content_type =
     (if content_type = ''image/jpeg'' then strip_jpeg_metadata data
      else if content_type = ''image/png'' then strip_png_metadata data
      else data)"

section \<open>Reading an upload\<close>

text \<open>A field of the form: its file name and the chunks it comes in, of which reading may fail.\<close>

record upload_field =
  uf_filename :: "string option"
  uf_chunks :: "bytes option list"

fun read_field_capped :: "nat \<Rightarrow> bytes \<Rightarrow> bytes option list \<Rightarrow> ApiError + bytes" where
  "read_field_capped max_bytes buf [] = Inr buf"
| "read_field_capped max_bytes buf (None # cs) = Inl (BadRequest ''failed to read upload chunk: '')"
| "read_field_capped max_bytes buf (Some c # cs) =
     (if max_bytes < length buf + length c
      then Inl (BadRequest (''upload exceeds maximum size of '' @ decimal max_bytes @ '' bytes''))
      else read_field_capped max_bytes (buf @ c) cs)"

text \<open>The next field of the form, if the form can be read.\<close>

definition next_field :: "upload_field option option \<Rightarrow> ApiError + upload_field" where
  "next_field multipart =
     (case multipart of
        None \<Rightarrow> Inl (BadRequest ''multipart error: '')
      | Some None \<Rightarrow> Inl (BadRequest ''no file provided'')
      | Some (Some f) \<Rightarrow> Inr f)"

section \<open>The handlers\<close>

record upload_state =
  us_db :: db
  us_image_urls :: "int \<rightharpoonup> string"
  us_files :: "string \<rightharpoonup> bytes"

text \<open>\<open>INSERT INTO uploads\<close>: the upload id is unique, the server must exist.\<close>

definition record_upload :: "(int \<Rightarrow> upload_row) \<Rightarrow> upload_state \<Rightarrow> upload_state option" where
  "record_upload row st =
     (if exists_where (\<lambda>r. up_upload r = up_upload (row 0)) (auto_rows (uploads (us_db st)))
         \<or> \<not> exists_where (\<lambda>r. sv_id r = up_server (row 0)) (servers (us_db st))
      then None
      else Some (st\<lparr>us_db := (us_db st)\<lparr>uploads := auto_insert row (uploads (us_db st))\<rparr>\<rparr>))"

definition write_file :: "string \<Rightarrow> bytes \<Rightarrow> upload_state \<Rightarrow> upload_state" where
  "write_file name content st = st\<lparr>us_files := (us_files st)(name \<mapsto> content)\<rparr>"

record UploadResponse =
  uo_upload_id :: string
  uo_url :: string
  uo_filename :: string
  uo_content_type :: string
  uo_category :: string
  uo_size :: nat
  uo_metadata_stripped_bytes :: u64

text \<open>What is decided before anything is written: file name, data, type and category.\<close>

definition check_chat_upload ::
  "faults \<Rightarrow> ServerPolicy \<Rightarrow> int \<Rightarrow> string \<Rightarrow> string \<Rightarrow> upload_field option option \<Rightarrow> upload_state
     \<Rightarrow> ApiError + (string \<times> bytes \<times> string \<times> UploadCategory)" where
  "check_chat_upload flt policy s p c multipart st =
     and_then (db_call flt 0) (\<lambda>_. and_then (db_call flt 1) (\<lambda>_.
     if \<not> is_member (us_db st) s c p then Inl (Forbidden ''not a member of this channel'') else
     and_then (next_field multipart) (\<lambda>field.
     and_then (read_field_capped upload_stream_ceiling [] (uf_chunks field)) (\<lambda>data.
     let (ct, category) = (case detect_content_type data of Some x \<Rightarrow> x | None \<Rightarrow> (''application/octet-stream'', File)) in
     if ct \<in> set blocked_types then Inl (BadRequest (''file type not allowed: '' @ ct)) else
     if \<not> is_category_enabled policy category
     then Inl (BadRequest (category_str category @ '' uploads are disabled on this server'')) else
     if max_size_for_category policy category < length data
     then Inl (BadRequest (''file too large: '' @ decimal (length data) @ '' bytes (max ''
            @ decimal (max_size_for_category policy category) @ '' bytes for '' @ category_str category @ '')'')) else
     if category = Image \<and> ct \<notin> set allowed_image_types then Inl (BadRequest (''unsupported image type: '' @ ct)) else
     if category = Video \<and> ct \<notin> set allowed_video_types then Inl (BadRequest (''unsupported video type: '' @ ct)) else
     Inr (case uf_filename field of Some n \<Rightarrow> n | None \<Rightarrow> ''upload'', data, ct, category)))))"

text \<open>
  The number of bytes removed is a subtraction of \<open>usize\<close> values, which wraps in a release
  build. The file is written before the row.
\<close>

definition upload_chat_handler ::
  "faults \<Rightarrow> time \<Rightarrow> ServerPolicy \<Rightarrow> int \<Rightarrow> string \<Rightarrow> string \<Rightarrow> string \<Rightarrow> string \<Rightarrow> upload_field option option \<Rightarrow> upload_state
     \<Rightarrow> (ApiError + UploadResponse) \<times> upload_state" where
  "upload_chat_handler flt now policy s upload_dir uuid p c multipart st =
     (case check_chat_upload flt policy s p c multipart st of
        Inl e \<Rightarrow> (Inl e, st)
      | Inr (filename, data, ct, category) \<Rightarrow>
          (let cleaned = strip_metadata data ct;
               stripped_bytes = (of_nat (length data) - of_nat (length cleaned) :: u64);
               safe_filename = uuid @ ''.'' @ ext_from_content_type ct;
               chat_dir = upload_dir @ ''/chat/'' @ subdir category
           in if flt 2 \<or> flt 3 then (Inl InternalServerError, st)
              else let st1 = write_file (chat_dir @ ''/'' @ safe_filename) cleaned st in
                if flt 4 \<or> flt 5 then (Inl InternalServerError, st1)
                else case record_upload (\<lambda>i. \<lparr>up_id = i, up_server = s, up_upload = uuid, up_uploader = p,
                         up_filename = filename, up_type = ct, up_size = int (length cleaned), up_purpose = ''chat'',
                         up_channel = Some c, up_created = now, up_category = category_str category\<rparr>) st1 of
                    None \<Rightarrow> (Inl InternalServerError, st1)
                  | Some st2 \<Rightarrow>
                      (Inr \<lparr>uo_upload_id = uuid, uo_url = ''/uploads/chat/'' @ subdir category @ ''/'' @ safe_filename,
                            uo_filename = filename, uo_content_type = ct, uo_category = category_str category,
                            uo_size = length cleaned, uo_metadata_stripped_bytes = stripped_bytes\<rparr>, st2)))"

definition check_server_image ::
  "PlatformIdentity \<Rightarrow> upload_field option option \<Rightarrow> ApiError + (string \<times> bytes \<times> string)" where
  "check_server_image identity multipart =
     (if \<not> can_moderate (pf_capabilities identity)
      then Inl (Forbidden ''insufficient permissions to upload server image'')
      else and_then (next_field multipart) (\<lambda>field.
        and_then (read_field_capped max_server_image_size [] (uf_chunks field)) (\<lambda>data.
        and_then (ok_or (detect_content_type data) (BadRequest ''unsupported file format'')) (\<lambda>(ct, category).
        if category \<noteq> Image \<or> ct \<notin> set allowed_image_types
        then Inl (BadRequest ''server image must be JPEG, PNG, GIF, or WebP'')
        else Inr (case uf_filename field of Some n \<Rightarrow> n | None \<Rightarrow> ''image'', data, ct)))))"

definition set_image_url :: "int \<Rightarrow> string \<Rightarrow> upload_state \<Rightarrow> upload_state" where
  "set_image_url s url st =
     (if exists_where (\<lambda>r. sv_id r = s) (servers (us_db st)) then st\<lparr>us_image_urls := (us_image_urls st)(s \<mapsto> url)\<rparr> else st)"

text \<open>The update of the image and the row of the upload are separate statements: the first stays when the second fails.\<close>

definition upload_server_image_handler ::
  "(EventPayload \<Rightarrow> string option) \<Rightarrow> faults \<Rightarrow> time \<Rightarrow> int \<Rightarrow> string \<Rightarrow> string \<Rightarrow> PlatformIdentity \<Rightarrow> upload_field option option
     \<Rightarrow> upload_state \<Rightarrow> (ApiError + string \<times> string) \<times> upload_state \<times> sent" where
  "upload_server_image_handler js flt now s upload_dir uuid identity multipart st =
     (case check_server_image identity multipart of
        Inl e \<Rightarrow> (Inl e, st, nothing_sent)
      | Inr (filename, data, ct) \<Rightarrow>
          (let cleaned = strip_metadata data ct; p = pf_pseudonym_id identity;
               name = ''server_'' @ uuid @ ''.'' @ ext_from_content_type ct;
               image_url = ''/uploads/server/'' @ name
           in if flt 0 \<or> flt 1 then (Inl InternalServerError, st, nothing_sent)
              else let st1 = write_file (upload_dir @ ''/server/'' @ name) cleaned st in
                if flt 2 \<or> flt 3 then (Inl InternalServerError, st1, nothing_sent)
                else let st2 = set_image_url s image_url st1 in
                  if flt 4 then (Inl InternalServerError, st2, nothing_sent)
                  else case record_upload (\<lambda>i. \<lparr>up_id = i, up_server = s, up_upload = uuid, up_uploader = p,
                         up_filename = filename, up_type = ct, up_size = int (length cleaned), up_purpose = ''server_image'',
                         up_channel = None, up_created = now, up_category = ''image''\<rparr>) st2 of
                      None \<Rightarrow> (Inl InternalServerError, st2, nothing_sent)
                    | Some st3 \<Rightarrow>
                        let (d', event) = emit_and_broadcast js (\<lambda>i. flt (5 + i)) now (us_db st3) s p
                              (ModerationAction p ''server_image_upload'' None ''Server image updated'')
                        in (Inr (uuid, image_url), st3\<lparr>us_db := d'\<rparr>, observed event nothing_sent)))"

definition get_server_image_handler :: "faults \<Rightarrow> int \<Rightarrow> upload_state \<Rightarrow> ApiError + string option" where
  "get_server_image_handler flt s st =
     and_then (db_call flt 0) (\<lambda>_. and_then (db_call flt 1) (\<lambda>_.
       if exists_where (\<lambda>r. sv_id r = s) (servers (us_db st)) then Inr (us_image_urls st s) else Inl InternalServerError))"

section \<open>What is removed\<close>

text \<open>A chunk of a PNG file announces its own length; so does a segment of a JPEG file that has a body.\<close>

definition png_chunk :: "bytes \<Rightarrow> bool" where
  "png_chunk c \<longleftrightarrow> 12 \<le> length c \<and> length c = 12 + be32 c"

definition jpeg_segment :: "bytes \<Rightarrow> bool" where
  "jpeg_segment g \<longleftrightarrow> (\<exists>m body. g = CHR 0xFF # m # body \<and> m \<noteq> CHR 0xDA \<and>
     (if standalone_marker m then body = [] else 2 \<le> length body \<and> length g = be16 body + 2))"

definition png_metadata :: "bytes \<Rightarrow> bool" where
  "png_metadata c \<longleftrightarrow> slice 4 8 c \<in> set metadata_chunks"

definition jpeg_metadata :: "bytes \<Rightarrow> bool" where
  "jpeg_metadata g \<longleftrightarrow> metadata_marker (g ! 1)"

lemma be_append: "4 \<le> length c \<Longrightarrow> be32 (c @ r) = be32 c" "2 \<le> length c \<Longrightarrow> be16 (c @ r) = be16 c"
  by (simp_all add: be32_def be16_def)

lemma slice_append: "j \<le> length c \<Longrightarrow> slice i j (c @ r) = slice i j c"
  by (simp add: slice_def)

lemma strip_chunks_chunk:
  "png_chunk c \<Longrightarrow> strip_chunks (c @ r) = (if png_metadata c then [] else c) @ strip_chunks r"
  by (subst strip_chunks.simps) (simp add: png_chunk_def png_metadata_def be_append slice_append)

lemma strip_chunks_concat:
  "list_all png_chunk cs \<Longrightarrow> strip_chunks (concat cs @ r) = concat (filter (\<lambda>c. \<not> png_metadata c) cs) @ strip_chunks r"
  by (induction cs) (simp_all add: strip_chunks_chunk)

lemma strip_chunks_end:
  "length r < 12 \<Longrightarrow> strip_chunks r = r"
  "12 \<le> length r \<Longrightarrow> length r < 12 + be32 r \<Longrightarrow> strip_chunks r = r @ r"
  by (subst strip_chunks.simps, simp)+

lemma strip_segments_segment:
  "jpeg_segment g \<Longrightarrow> strip_segments (g @ r) = (if jpeg_metadata g then [] else g) @ strip_segments r"
proof -
  assume "jpeg_segment g"
  then obtain m body where g: "g = CHR 0xFF # m # body" "m \<noteq> CHR 0xDA"
    "if standalone_marker m then body = [] else 2 \<le> length body \<and> length g = be16 body + 2"
    by (auto simp: jpeg_segment_def)
  show ?thesis
  proof (cases "standalone_marker m")
    case True
    then have "\<not> metadata_marker m" by (auto simp: standalone_marker_def metadata_marker_def)
    with True g show ?thesis by (subst strip_segments.simps) (simp add: jpeg_metadata_def)
  next
    case False
    with g have l: "2 \<le> length body" "be16 body = length body" by auto
    show ?thesis
      by (subst strip_segments.simps) (use g(2) False l in \<open>simp add: g(1) jpeg_metadata_def be_append\<close>)
  qed
qed

lemma strip_segments_concat:
  "list_all jpeg_segment gs \<Longrightarrow> strip_segments (concat gs @ r) = concat (filter (\<lambda>g. \<not> jpeg_metadata g) gs) @ strip_segments r"
  by (induction gs) (simp_all add: strip_segments_segment)

lemma strip_png_signature: "strip_png_metadata (png_signature @ r) = png_signature @ strip_chunks r"
  by (simp add: strip_png_metadata_def slice_def png_signature_def)

text \<open>
  C19. Removing metadata is exact. A PNG file, its chunks and up to eleven bytes after them, keeps
  just the chunks that are not text or EXIF, in order, byte for byte, and the bytes
  after; a JPEG file keeps just the segments before the scan that are not EXIF, Ducky, IPTC or
  comments, and the scan with all that follows. Doing it again changes nothing.
\<close>

theorem metadata_removed:
  assumes "list_all png_chunk cs" and "length r < 12" and "list_all jpeg_segment gs"
    and "png = png_signature @ concat cs @ r" and "jpeg = [CHR 0xFF, CHR 0xD8] @ concat gs @ CHR 0xFF # CHR 0xDA # scan"
  shows "strip_metadata png ''image/png'' = png_signature @ concat (filter (\<lambda>c. \<not> png_metadata c) cs) @ r
    \<and> strip_metadata jpeg ''image/jpeg''
        = [CHR 0xFF, CHR 0xD8] @ concat (filter (\<lambda>g. \<not> jpeg_metadata g) gs) @ CHR 0xFF # CHR 0xDA # scan
    \<and> (\<forall>data ct. (data, ct) = (png, ''image/png'') \<or> (data, ct) = (jpeg, ''image/jpeg'') \<longrightarrow>
          strip_metadata (strip_metadata data ct) ct = strip_metadata data ct)"
proof -
  have scan: "strip_segments (CHR 0xFF # CHR 0xDA # scan) = CHR 0xFF # CHR 0xDA # scan"
    by (subst strip_segments.simps) simp
  have png: "strip_metadata (png_signature @ concat xs @ r) ''image/png''
      = png_signature @ concat (filter (\<lambda>c. \<not> png_metadata c) xs) @ r" if "list_all png_chunk xs" for xs
    using that assms(2) by (simp add: strip_metadata_def strip_png_signature strip_chunks_concat strip_chunks_end)
  have jpeg: "strip_metadata ([CHR 0xFF, CHR 0xD8] @ concat xs @ CHR 0xFF # CHR 0xDA # scan) ''image/jpeg''
      = [CHR 0xFF, CHR 0xD8] @ concat (filter (\<lambda>g. \<not> jpeg_metadata g) xs) @ CHR 0xFF # CHR 0xDA # scan"
    if "list_all jpeg_segment xs" for xs
    using that by (simp add: strip_metadata_def strip_jpeg_metadata_def slice_def strip_segments_concat scan)
  have f: "list_all P (filter Q xs)" if "list_all P xs" for P Q and xs :: "bytes list"
    using that by (simp add: list_all_iff)
  have again: "strip_metadata (strip_metadata png ''image/png'') ''image/png'' = strip_metadata png ''image/png''"
    "strip_metadata (strip_metadata jpeg ''image/jpeg'') ''image/jpeg'' = strip_metadata jpeg ''image/jpeg''"
    using png [OF assms(1)] png [OF f [OF assms(1), of "\<lambda>c. \<not> png_metadata c"]]
      jpeg [OF assms(3)] jpeg [OF f [OF assms(3), of "\<lambda>g. \<not> jpeg_metadata g"]] unfolding assms(4,5) by simp_all
  show ?thesis using png [OF assms(1)] jpeg [OF assms(3)] again unfolding assms(4,5) by blast
qed

text \<open>
  C34. A PNG file that ends in the middle of a chunk, of which at least twelve bytes are there,
  comes out longer than expected: the partial chunk is copied twice. If there was nothing to
  remove, the file has grown, and the number of bytes that the handler reports as removed has
  wrapped around. A shorter rest is kept once, so that nothing is removed and nothing added.
\<close>

theorem truncated_png_grows:
  assumes "list_all png_chunk cs" and "length r < 12 \<or> length r < 12 + be32 r"
    and "png = png_signature @ concat cs @ r"
  shows "strip_metadata png ''image/png''
      = png_signature @ concat (filter (\<lambda>c. \<not> png_metadata c) cs) @ (if length r < 12 then r else r @ r)
    \<and> (list_all (\<lambda>c. \<not> png_metadata c) cs \<longrightarrow>
        (if length r < 12 then strip_metadata png ''image/png'' = png
         else strip_metadata png ''image/png'' = png @ r
           \<and> of_nat (length png) - of_nat (length (strip_metadata png ''image/png'')) = (- of_nat (length r) :: u64)))"
proof -
  have "strip_chunks r = (if length r < 12 then r else r @ r)" using assms(2) strip_chunks_end [of r] by auto
  then have "strip_metadata png ''image/png''
      = png_signature @ concat (filter (\<lambda>c. \<not> png_metadata c) cs) @ (if length r < 12 then r else r @ r)"
    by (simp only: assms(3) strip_metadata_def strip_png_signature strip_chunks_concat [OF assms(1)] simp_thms if_True)
      simp
  moreover have "filter (\<lambda>c. \<not> png_metadata c) cs = cs" if "list_all (\<lambda>c. \<not> png_metadata c) cs"
    using that by (simp add: filter_id_conv list_all_iff)
  ultimately show ?thesis by (simp add: assms(3))
qed

section \<open>What is accepted\<close>

lemma read_field_capped_Inr:
  "length buf \<le> m \<Longrightarrow>
   read_field_capped m buf cs = Inr data \<longleftrightarrow> None \<notin> set cs \<and> data = buf @ concat (map the cs) \<and> length data \<le> m"
  by (induction m buf cs rule: read_field_capped.induct) auto

lemma check_chat_upload_Inr:
  assumes "check_chat_upload flt policy s p c multipart st = Inr (filename, data, ct, category)"
  obtains field where "multipart = Some (Some field)" and "is_member (us_db st) s c p" and "None \<notin> set (uf_chunks field)"
    and "data = concat (map the (uf_chunks field))" and "length data \<le> upload_stream_ceiling"
    and "(ct, category) = (case detect_content_type data of Some x \<Rightarrow> x | None \<Rightarrow> (''application/octet-stream'', File))"
    and "ct \<notin> set blocked_types" and "is_category_enabled policy category"
    and "length data \<le> max_size_for_category policy category"
proof -
  obtain field where f: "next_field multipart = Inr field" and m: "is_member (us_db st) s c p"
    using assms by (auto simp: check_chat_upload_def res_simps split: if_splits)
  obtain data' where d: "read_field_capped upload_stream_ceiling [] (uf_chunks field) = Inr data'"
    using assms f m by (auto simp: check_chat_upload_def res_simps)
  obtain ct' cat' where x: "(case detect_content_type data' of Some x \<Rightarrow> x | None \<Rightarrow> (''application/octet-stream'', File)) = (ct', cat')"
    by (cases "case detect_content_type data' of Some x \<Rightarrow> x | None \<Rightarrow> (''application/octet-stream'', File)")
  from f have "multipart = Some (Some field)" by (auto simp: next_field_def split: option.splits)
  moreover have "data' = data \<and> ct' = ct \<and> cat' = category \<and> ct \<notin> set blocked_types \<and> is_category_enabled policy category
      \<and> length data \<le> max_size_for_category policy category"
    using assms by (simp add: check_chat_upload_def res_simps f d m x split: if_splits)
  moreover have "None \<notin> set (uf_chunks field) \<and> data' = concat (map the (uf_chunks field)) \<and> length data' \<le> upload_stream_ceiling"
    using iffD1 [OF read_field_capped_Inr d] by auto
  ultimately show ?thesis by (intro that [of field]) (use m x in auto)
qed

text \<open>
  C13. What an upload to a channel does. It succeeds only for a member, with a file of at most
  50 MiB, within the limit of its category, whose category is enabled and whose detected type
  is not blocked; then exactly one file is written, at a path made of the server's own
  identifier and the detected type, with the metadata removed, and one row is recorded. A
  failed upload leaves the database as it was.
\<close>

theorem chat_upload_accepted:
  "case upload_chat_handler flt now policy s upload_dir uuid p c multipart st of
     (Inl _, st') \<Rightarrow> us_db st' = us_db st \<and> us_image_urls st' = us_image_urls st
   | (Inr r, st') \<Rightarrow> \<exists>field data ct category. multipart = Some (Some field) \<and> data = concat (map the (uf_chunks field))
       \<and> (ct, category) = (case detect_content_type data of Some x \<Rightarrow> x | None \<Rightarrow> (''application/octet-stream'', File))
       \<and> is_member (us_db st) s c p \<and> ct \<notin> set blocked_types \<and> is_category_enabled policy category
       \<and> length data \<le> 50 * 2 ^ 20 \<and> length data \<le> max_size_for_category policy category
       \<and> us_files st' = (us_files st)(upload_dir @ ''/chat/'' @ subdir category @ ''/'' @ uuid @ ''.'' @ ext_from_content_type ct
            \<mapsto> strip_metadata data ct)
       \<and> us_db st' = (us_db st)\<lparr>uploads := uploads (us_db st')\<rparr>
       \<and> (\<exists>row. auto_rows (uploads (us_db st')) = auto_rows (uploads (us_db st)) @ [row] \<and> up_upload row = uuid \<and> up_uploader row = p
            \<and> up_channel row = Some c \<and> up_type row = ct \<and> up_size row = int (length (strip_metadata data ct)))"
proof (cases "check_chat_upload flt policy s p c multipart st")
  case (Inl e)
  then show ?thesis by (simp add: upload_chat_handler_def)
next
  case (Inr x)
  obtain filename data ct category where x: "x = (filename, data, ct, category)" by (cases x)
  obtain field where f: "multipart = Some (Some field)" "is_member (us_db st) s c p" "None \<notin> set (uf_chunks field)"
    "data = concat (map the (uf_chunks field))" "length data \<le> upload_stream_ceiling"
    "(ct, category) = (case detect_content_type data of Some x \<Rightarrow> x | None \<Rightarrow> (''application/octet-stream'', File))"
    "ct \<notin> set blocked_types" "is_category_enabled policy category" "length data \<le> max_size_for_category policy category"
    by (rule check_chat_upload_Inr [OF Inr [unfolded x]])
  let ?name = "upload_dir @ ''/chat/'' @ subdir category @ ''/'' @ uuid @ ''.'' @ ext_from_content_type ct"
  let ?row = "\<lambda>i. \<lparr>up_id = i, up_server = s, up_upload = uuid, up_uploader = p, up_filename = filename, up_type = ct,
    up_size = int (length (strip_metadata data ct)), up_purpose = ''chat'', up_channel = Some c,
    up_created = now, up_category = category_str category\<rparr>"
  let ?st1 = "write_file ?name (strip_metadata data ct) st"
  have w: "us_db ?st1 = us_db st" "us_image_urls ?st1 = us_image_urls st"
    "us_files ?st1 = (us_files st)(?name \<mapsto> strip_metadata data ct)" by (simp_all add: write_file_def)
  show ?thesis
  proof (cases "flt 2 \<or> flt 3 \<or> flt 4 \<or> flt 5 \<or> record_upload ?row ?st1 = None")
    case True
    then show ?thesis using w by (auto simp: upload_chat_handler_def Inr x Let_def)
  next
    case False
    then obtain st2 where r: "record_upload ?row ?st1 = Some st2" by blast
    then have st2: "us_db st2 = (us_db st)\<lparr>uploads := uploads (us_db st2)\<rparr>" "us_files st2 = us_files ?st1"
      "auto_rows (uploads (us_db st2)) = auto_rows (uploads (us_db st)) @ [?row (auto_next (uploads (us_db st)))]"
      using w by (auto simp: record_upload_def split: if_splits)
    have "\<exists>resp. upload_chat_handler flt now policy s upload_dir uuid p c multipart st = (Inr resp, st2)"
      using False r by (simp add: upload_chat_handler_def Inr x Let_def)
    then obtain resp where resp: "upload_chat_handler flt now policy s upload_dir uuid p c multipart st = (Inr resp, st2)" by blast
    show ?thesis
      unfolding resp prod.case sum.case
      by (intro exI [of _ field] exI [of _ data] exI [of _ ct] exI [of _ category] conjI
          exI [of _ "?row (auto_next (uploads (us_db st)))"])
        (use f st2 w in \<open>simp_all add: upload_stream_ceiling_def\<close>)
  qed
qed

text \<open>
  The blocked types can be passed by. The tests for videos come before those for
  executables and look at the fifth byte on, which the loader of a DOS or Windows executable
  ignores: a file that starts as such an executable and carries \<open>ftyp\<close> there is accepted as a
  video wherever videos are.
\<close>

theorem executable_passes_as_video:
  assumes "data = [CHR 0x4D, CHR 0x5A, a, b] @ ''ftyp'' @ rest" and "4 \<le> length rest" and "take 4 rest \<noteq> ''qt  ''"
    and "is_member (us_db st) s c p" and "videos_enabled policy"
    and "length data \<le> max_size_for_category policy Video" and "length data \<le> 50 * 2 ^ 20"
  shows "check_chat_upload no_faults policy s p c (Some (Some \<lparr>uf_filename = None, uf_chunks = [Some data]\<rparr>)) st
    = Inr (''upload'', data, ''video/mp4'', Video)"
proof -
  have "detect_content_type data = Some (''video/mp4'', Video)"
    using assms(2,3) by (simp add: detect_content_type_def slice_def png_signature_def assms(1))
  then show ?thesis
    using assms(4-7)
    by (simp add: check_chat_upload_def next_field_def upload_stream_ceiling_def blocked_types_def allowed_video_types_def
        is_category_enabled_def)
qed

section \<open>Concrete files\<close>

definition demo_ihdr :: bytes where
  "demo_ihdr = [CHR 0x00, CHR 0x00, CHR 0x00, CHR 0x01] @ ''IHDR'' @ [CHR 0x07, CHR 0x00, CHR 0x00, CHR 0x00, CHR 0x00]"

definition demo_text :: bytes where
  "demo_text = [CHR 0x00, CHR 0x00, CHR 0x00, CHR 0x02] @ ''tEXthi'' @ [CHR 0x00, CHR 0x00, CHR 0x00, CHR 0x00]"

definition demo_exif :: bytes where
  "demo_exif = [CHR 0xFF, CHR 0xE1, CHR 0x00, CHR 0x04] @ ''me''"

lemma demo_chunks [simp]:
  "png_chunk demo_ihdr" "png_chunk demo_text" "jpeg_segment demo_exif" "\<not> png_metadata demo_ihdr" "png_metadata demo_text"
  "jpeg_metadata demo_exif"
  by (simp_all add: png_chunk_def jpeg_segment_def png_metadata_def jpeg_metadata_def demo_ihdr_def demo_text_def demo_exif_def
      be32_def be16_def slice_def metadata_chunks_def metadata_marker_def standalone_marker_def)

theorem metadata_removed_witness:
  "strip_metadata (png_signature @ demo_ihdr @ demo_text) ''image/png'' = png_signature @ demo_ihdr
   \<and> strip_metadata ([CHR 0xFF, CHR 0xD8] @ demo_exif @ [CHR 0xFF, CHR 0xDA, CHR 0x01]) ''image/jpeg''
     = [CHR 0xFF, CHR 0xD8, CHR 0xFF, CHR 0xDA, CHR 0x01]"
  using metadata_removed [of "[demo_ihdr, demo_text]" "[]" "[demo_exif]" "png_signature @ demo_ihdr @ demo_text"
      "[CHR 0xFF, CHR 0xD8] @ demo_exif @ [CHR 0xFF, CHR 0xDA, CHR 0x01]" "[CHR 0x01]"]
  by simp

theorem truncated_png_grows_witness:
  "\<exists>r. strip_metadata (png_signature @ demo_ihdr @ r) ''image/png'' = png_signature @ demo_ihdr @ r @ r \<and> length r = 12"
proof -
  let ?r = "[CHR 0x00, CHR 0x00, CHR 0x00, CHR 0x09] @ ''IDATdata''"
  have "strip_metadata (png_signature @ demo_ihdr @ ?r) ''image/png''
      = png_signature @ concat (filter (\<lambda>c. \<not> png_metadata c) [demo_ihdr]) @ (if length ?r < 12 then ?r else ?r @ ?r)"
    by (rule conjunct1 [OF truncated_png_grows]) (simp_all add: be32_def)
  then show ?thesis by (intro exI [of _ ?r]) simp
qed

definition demo_uploads :: upload_state where
  "demo_uploads = \<lparr>us_db = (migrated_db 0)\<lparr>channel_members := \<lparr>auto_rows = [\<lparr>mb_id = 1, mb_server = 1, mb_channel = ''c'', mb_pseudonym = ''ann'', mb_role = ''MEMBER'', mb_joined = 5\<rparr>], auto_seq = 1\<rparr>\<rparr>,
     us_image_urls = Map.empty, us_files = Map.empty\<rparr>"

theorem executable_passes_as_video_witness:
  "check_chat_upload no_faults default_policy 1 ''ann'' ''c''
     (Some (Some \<lparr>uf_filename = None, uf_chunks = [Some (''MZ##ftypisom'')]\<rparr>)) demo_uploads
   = Inr (''upload'', ''MZ##ftypisom'', ''video/mp4'', Video)
   \<and> snd (the (detect_content_type (''MZ########''))) = File \<and> fst (the (detect_content_type (''MZ########''))) \<in> set blocked_types"
proof -
  have "check_chat_upload no_faults default_policy 1 ''ann'' ''c''
      (Some (Some \<lparr>uf_filename = None, uf_chunks = [Some (''MZ##ftypisom'')]\<rparr>)) demo_uploads
    = Inr (''upload'', ''MZ##ftypisom'', ''video/mp4'', Video)"
    by (rule executable_passes_as_video [where a = "CHR 0x23" and b = "CHR 0x23" and rest = "''isom''"])
      (simp_all add: demo_uploads_def is_member_def is_member_row_def exists_where_def default_policy_def
        max_size_for_category_def default_max_upload_mb_def default_true_def)
  then show ?thesis by (simp add: detect_content_type_def slice_def png_signature_def blocked_types_def)
qed

end
