(* ===== verification/Annex_Usernames.thy ===== *)
theory Annex_Usernames
  imports Annex_Agents Annex_Demo Rust_Text
begin

unbundle bit_operations_syntax

text \<open>
  \<open>annex-server/src/api_usernames.rs\<close>: encrypted usernames and who may see them. HKDF,
  ChaCha20-Poly1305 and the check for UTF-8 are the record \<open>aead\<close>, of which \<open>aead_laws\<close>
  states what the code relies on. \<open>flt n\<close> makes the \<open>n\<close>-th database call of a handler fail.
\<close>

section \<open>Encryption\<close>

record aead =
  hkdf_sha256 :: "bytes \<Rightarrow> bytes \<Rightarrow> bytes \<Rightarrow> bytes"
  aead_encrypt :: "bytes \<Rightarrow> bytes \<Rightarrow> bytes \<Rightarrow> bytes"
  aead_decrypt :: "bytes \<Rightarrow> bytes \<Rightarrow> bytes \<Rightarrow> bytes option"
  is_utf8 :: "bytes \<Rightarrow> bool"

definition aead_laws :: "aead \<Rightarrow> bool" where
  "aead_laws A \<longleftrightarrow> (\<forall>k n m. length n = 12 \<longrightarrow>
     aead_decrypt A k n (aead_encrypt A k n m) = Some m \<and> length (aead_encrypt A k n m) = length m + 16)"

definition max_username_len :: nat where "max_username_len = 32"
definition aead_overhead :: nat where "aead_overhead = 12 + 16"

definition derive_aead_key :: "aead \<Rightarrow> bytes \<Rightarrow> string \<Rightarrow> bytes" where
  "derive_aead_key A signing_key p = hkdf_sha256 A p signing_key ''annex-username-encryption-v2''"

definition encrypt_username :: "'f crypto \<Rightarrow> aead \<Rightarrow> bytes \<Rightarrow> bytes \<Rightarrow> string \<Rightarrow> string \<Rightarrow> string" where
  "encrypt_username C A nonce signing_key p username =
     hex_encode C (nonce @ aead_encrypt A (derive_aead_key A signing_key p) nonce username)"

definition from_utf8 :: "aead \<Rightarrow> bytes \<Rightarrow> string option" where
  "from_utf8 A bs = (if is_utf8 A bs then Some bs else None)"

definition decrypt_aead :: "aead \<Rightarrow> bytes \<Rightarrow> string \<Rightarrow> bytes \<Rightarrow> string option" where
  "decrypt_aead A signing_key p data =
     (case aead_decrypt A (derive_aead_key A signing_key p) (take 12 data) (drop 12 data) of
        Some plaintext \<Rightarrow> from_utf8 A plaintext
      | None \<Rightarrow> None)"

definition xor_char :: "char \<Rightarrow> char \<Rightarrow> char" where
  "xor_char a b = char_of (of_char a XOR of_char b :: nat)"

definition legacy_keystream :: "'f crypto \<Rightarrow> bytes \<Rightarrow> string \<Rightarrow> bytes" where
  "legacy_keystream C signing_key p = sha256 C (''annex-username-key-v1'' @ signing_key @ p)"

definition decrypt_xor_legacy :: "'f crypto \<Rightarrow> aead \<Rightarrow> bytes \<Rightarrow> string \<Rightarrow> bytes \<Rightarrow> string option" where
  "decrypt_xor_legacy C A signing_key p data =
     (let keystream = legacy_keystream C signing_key p
      in from_utf8 A (map (\<lambda>i. xor_char (data ! i) (keystream ! (i mod length keystream))) [0..<length data]))"

definition decrypt_username :: "'f crypto \<Rightarrow> aead \<Rightarrow> bytes \<Rightarrow> string \<Rightarrow> string \<Rightarrow> string option" where
  "decrypt_username C A signing_key p encrypted_hex =
     (case hex_decode C encrypted_hex of
        None \<Rightarrow> None
      | Some data \<Rightarrow>
          (case if aead_overhead \<le> length data then decrypt_aead A signing_key p data else None of
             Some plaintext \<Rightarrow> Some plaintext
           | None \<Rightarrow> decrypt_xor_legacy C A signing_key p data))"

section \<open>Validation\<close>

text \<open>Characters are counted by the bytes that are no continuation bytes.\<close>

definition char_count :: "string \<Rightarrow> nat" where
  "char_count s = length (filter (\<lambda>b. \<not> (0x80 \<le> (of_char b :: nat) \<and> (of_char b :: nat) < 0xC0)) s)"

text \<open>Control characters: below the space, the delete character, and U+0080 to U+009F.\<close>

fun has_control :: "string \<Rightarrow> bool" where
  "has_control [] = False"
| "has_control (a # s) =
     ((of_char a :: nat) < 0x20 \<or> (of_char a :: nat) = 0x7F
      \<or> (of_char a :: nat) = 0xC2 \<and> (case s of b # _ \<Rightarrow> 0x80 \<le> (of_char b :: nat) \<and> (of_char b :: nat) \<le> 0x9F | [] \<Rightarrow> False)
      \<or> has_control s)"

definition validate_username :: "string \<Rightarrow> string + unit" where
  "validate_username username =
     (let trimmed = trim username in
      if trimmed = [] then Inl ''username cannot be empty''
      else if max_username_len < char_count trimmed
      then Inl (''username too long (max '' @ decimal max_username_len @ '' chars)'')
      else if has_control trimmed then Inl ''username cannot contain control characters''
      else Inr ())"

section \<open>Tables and handlers\<close>

definition is_profile :: "int \<Rightarrow> string \<Rightarrow> profile_row \<Rightarrow> bool" where
  "is_profile s p r \<longleftrightarrow> pr_server r = s \<and> pr_pseudonym r = p"

definition is_grant :: "int \<Rightarrow> string \<Rightarrow> string \<Rightarrow> grant_row \<Rightarrow> bool" where
  "is_grant s p q r \<longleftrightarrow> gt_server r = s \<and> gt_granter r = p \<and> gt_grantee r = q"

definition upsert_profile :: "time \<Rightarrow> int \<Rightarrow> string \<Rightarrow> string \<Rightarrow> db \<Rightarrow> db" where
  "upsert_profile now s p encrypted st =
     st\<lparr>user_profiles :=
       (if exists_where (is_profile s p) (auto_rows (user_profiles st))
        then auto_update (is_profile s p) (\<lambda>r. r\<lparr>pr_username := encrypted, pr_updated := now\<rparr>) (user_profiles st)
        else auto_insert (\<lambda>i. \<lparr>pr_row_id = i, pr_server = s, pr_pseudonym = p, pr_username = encrypted, pr_updated = now\<rparr>)
               (user_profiles st))\<rparr>"

definition set_username_handler ::
  "'f crypto \<Rightarrow> aead \<Rightarrow> faults \<Rightarrow> time \<Rightarrow> bytes \<Rightarrow> bytes \<Rightarrow> ServerPolicy \<Rightarrow> int \<Rightarrow> string \<Rightarrow> string \<Rightarrow> db
     \<Rightarrow> (ApiError + unit) \<times> db" where
  "set_username_handler C A flt now nonce signing_key policy s p requested st =
     (if \<not> usernames_enabled policy then (Inl (BadRequest ''usernames are not enabled on this server''), st)
      else let username = trim requested in
        case validate_username username of
          Inl e \<Rightarrow> (Inl (BadRequest e), st)
        | Inr _ \<Rightarrow>
            if flt 0 \<or> flt 1 \<or> \<not> exists_where (\<lambda>r. sv_id r = s) (servers st) then (Inl InternalServerError, st)
            else (Inr (), upsert_profile now s p (encrypt_username C A nonce signing_key p username) st))"

text \<open>Two statements, each committed on its own.\<close>

definition delete_username_handler :: "faults \<Rightarrow> int \<Rightarrow> string \<Rightarrow> db \<Rightarrow> (ApiError + unit) \<times> db" where
  "delete_username_handler flt s p st =
     (if flt 0 \<or> flt 1 then (Inl InternalServerError, st)
      else let st1 = st\<lparr>user_profiles := auto_delete (is_profile s p) (user_profiles st)\<rparr> in
        if flt 2 then (Inl InternalServerError, st1)
        else (Inr (), st1\<lparr>username_grants := auto_delete (\<lambda>r. gt_server r = s \<and> gt_granter r = p) (username_grants st1)\<rparr>))"

definition insert_grant :: "time \<Rightarrow> int \<Rightarrow> string \<Rightarrow> string \<Rightarrow> db \<Rightarrow> db" where
  "insert_grant now s p q st =
     (if exists_where (is_grant s p q) (auto_rows (username_grants st)) then st
      else st\<lparr>username_grants := auto_insert (\<lambda>i. \<lparr>gt_id = i, gt_server = s, gt_granter = p, gt_grantee = q,
             gt_created = now\<rparr>) (username_grants st)\<rparr>)"

definition grant_username_handler ::
  "faults \<Rightarrow> time \<Rightarrow> int \<Rightarrow> string \<Rightarrow> string \<Rightarrow> db \<Rightarrow> (ApiError + unit) \<times> db" where
  "grant_username_handler flt now s p requested st =
     (let q = trim requested in
      if q = [] then (Inl (BadRequest ''grantee_pseudonym is required''), st)
      else if p = q then (Inl (BadRequest ''cannot grant visibility to yourself''), st)
      else if flt 0 \<or> flt 1 then (Inl InternalServerError, st)
      else if \<not> exists_where (is_profile s p) (auto_rows (user_profiles st))
      then (Inl (BadRequest ''set a username before granting visibility''), st)
      else if flt 2 \<or> \<not> exists_where (\<lambda>r. sv_id r = s) (servers st) then (Inl InternalServerError, st)
      else (Inr (), insert_grant now s p q st))"

definition revoke_grant_handler :: "faults \<Rightarrow> int \<Rightarrow> string \<Rightarrow> string \<Rightarrow> db \<Rightarrow> (ApiError + unit) \<times> db" where
  "revoke_grant_handler flt s p q st =
     (if flt 0 \<or> flt 1 then (Inl InternalServerError, st)
      else (Inr (), st\<lparr>username_grants := auto_delete (is_grant s p q) (username_grants st)\<rparr>))"

definition list_grants_handler :: "faults \<Rightarrow> int \<Rightarrow> string \<Rightarrow> db \<Rightarrow> ApiError + string list" where
  "list_grants_handler flt s p st =
     (if flt 0 \<or> flt 1 then Inl InternalServerError
      else Inr (map gt_grantee (order_by gt_created (filter (\<lambda>r. gt_server r = s \<and> gt_granter r = p) (auto_rows (username_grants st))))))"

text \<open>The join of the grants to \<open>q\<close> with the profiles of their granters.\<close>

definition granted_profiles :: "int \<Rightarrow> string \<Rightarrow> db \<Rightarrow> (string \<times> string) list" where
  "granted_profiles s q st =
     concat (map (\<lambda>g. map (\<lambda>r. (pr_pseudonym r, pr_username r))
                        (filter (is_profile (gt_server g) (gt_granter g)) (auto_rows (user_profiles st))))
       (filter (\<lambda>g. gt_server g = s \<and> gt_grantee g = q) (auto_rows (username_grants st))))"

definition shown :: "(string \<Rightarrow> string \<Rightarrow> string option) \<Rightarrow> string \<times> string \<Rightarrow> (string \<rightharpoonup> string) \<Rightarrow> (string \<rightharpoonup> string)" where
  "shown decrypt entry m = (case decrypt (fst entry) (snd entry) of Some name \<Rightarrow> m(fst entry \<mapsto> name) | None \<Rightarrow> m)"

text \<open>A failed lookup of the own username counts as none.\<close>

definition get_visible_usernames_handler ::
  "'f crypto \<Rightarrow> aead \<Rightarrow> faults \<Rightarrow> bytes \<Rightarrow> ServerPolicy \<Rightarrow> int \<Rightarrow> string \<Rightarrow> db \<Rightarrow> ApiError + (string \<rightharpoonup> string)" where
  "get_visible_usernames_handler C A flt signing_key policy s q st =
     (if \<not> usernames_enabled policy then Inr Map.empty
      else if flt 0 then Inl InternalServerError
      else let decrypt = decrypt_username C A signing_key;
               own = (if flt 1 then None else first_where (is_profile s q) (auto_rows (user_profiles st)));
               m = (case own of Some r \<Rightarrow> shown decrypt (q, pr_username r) Map.empty | None \<Rightarrow> Map.empty)
           in if flt 2 then Inl InternalServerError else Inr (fold (shown decrypt) (granted_profiles s q st) m))"

section \<open>What every operation keeps\<close>

definition usernames_ok :: "db \<Rightarrow> bool" where
  "usernames_ok st \<longleftrightarrow> auto_wf pr_row_id (user_profiles st) \<and> auto_wf gt_id (username_grants st)
     \<and> distinct (map (\<lambda>r. (pr_server r, pr_pseudonym r)) (auto_rows (user_profiles st)))
     \<and> distinct (map (\<lambda>r. (gt_server r, gt_granter r, gt_grantee r)) (auto_rows (username_grants st)))
     \<and> list_all (\<lambda>r. gt_granter r \<noteq> gt_grantee r) (auto_rows (username_grants st))"

datatype username_op =
    SetUsername faults time bytes bytes ServerPolicy int string string
  | DeleteUsername faults int string
  | GrantUsername faults time int string string
  | RevokeGrant faults int string string

fun username_step :: "'f crypto \<Rightarrow> aead \<Rightarrow> username_op \<Rightarrow> db \<Rightarrow> db" where
  "username_step C A (SetUsername flt now nonce k policy s p n) st = snd (set_username_handler C A flt now nonce k policy s p n st)"
| "username_step C A (DeleteUsername flt s p) st = snd (delete_username_handler flt s p st)"
| "username_step C A (GrantUsername flt now s p q) st = snd (grant_username_handler flt now s p q st)"
| "username_step C A (RevokeGrant flt s p q) st = snd (revoke_grant_handler flt s p q st)"

lemma usernames_ok_upsert: "usernames_ok st \<Longrightarrow> usernames_ok (upsert_profile now s p e st)"
proof (cases "exists_where (is_profile s p) (auto_rows (user_profiles st))")
  case True
  moreover have "map (\<lambda>r. (pr_server r, pr_pseudonym r)) (update_where (is_profile s p) (\<lambda>r. r\<lparr>pr_username := e, pr_updated := now\<rparr>) rs)
      = map (\<lambda>r. (pr_server r, pr_pseudonym r)) rs" for rs
    by (rule map_update_where) simp
  moreover assume "usernames_ok st"
  ultimately show ?thesis by (simp add: usernames_ok_def upsert_profile_def auto_wf_update)
next
  case False
  then have "(s, p) \<notin> (\<lambda>r. (pr_server r, pr_pseudonym r)) ` set (auto_rows (user_profiles st))"
    by (auto simp: exists_where_iff is_profile_def)
  moreover assume "usernames_ok st"
  ultimately show ?thesis using False by (simp add: usernames_ok_def upsert_profile_def auto_wf_insert)
qed

lemma usernames_ok_grant: "usernames_ok st \<Longrightarrow> p \<noteq> q \<Longrightarrow> usernames_ok (insert_grant now s p q st)"
proof (cases "exists_where (is_grant s p q) (auto_rows (username_grants st))")
  case False
  then have "(s, p, q) \<notin> (\<lambda>r. (gt_server r, gt_granter r, gt_grantee r)) ` set (auto_rows (username_grants st))"
    by (auto simp: exists_where_iff is_grant_def)
  moreover assume "usernames_ok st" "p \<noteq> q"
  ultimately show ?thesis using False by (simp add: usernames_ok_def insert_grant_def auto_wf_insert)
qed (simp add: insert_grant_def)

lemma usernames_ok_delete:
  "usernames_ok st \<Longrightarrow> usernames_ok (st\<lparr>user_profiles := auto_delete P (user_profiles st)\<rparr>)"
  "usernames_ok st \<Longrightarrow> usernames_ok (st\<lparr>username_grants := auto_delete Q (username_grants st)\<rparr>)"
  by (simp_all add: usernames_ok_def auto_wf_delete delete_where_def distinct_map_filter list_all_iff)

interpretation usernames: invariant_machine "username_step C A" usernames_ok for C A
proof (standard, goal_cases)
  case (1 st op)
  then show ?case
    by (cases op)
      (simp_all add: set_username_handler_def delete_username_handler_def grant_username_handler_def revoke_grant_handler_def
        Let_def usernames_ok_upsert usernames_ok_grant usernames_ok_delete usernames_ok_delete(2) [of "st\<lparr>user_profiles := _\<rparr>", simplified]
        split: sum.split)
qed

section \<open>Who sees a username\<close>

definition may_see :: "int \<Rightarrow> string \<Rightarrow> string \<Rightarrow> db \<Rightarrow> bool" where
  "may_see s q p st \<longleftrightarrow> p = q \<or> exists_where (is_grant s p q) (auto_rows (username_grants st))"

definition stored_username :: "'f crypto \<Rightarrow> aead \<Rightarrow> bytes \<Rightarrow> int \<Rightarrow> string \<Rightarrow> db \<Rightarrow> string option" where
  "stored_username C A k s p st =
     (case first_where (is_profile s p) (auto_rows (user_profiles st)) of
        Some r \<Rightarrow> decrypt_username C A k p (pr_username r)
      | None \<Rightarrow> None)"

lemma shown_apply: "shown dc (q, e) m p = (if p = q \<and> dc q e \<noteq> None then dc q e else m p)"
  by (simp add: shown_def split: option.split)

lemma fold_shown:
  "(\<And>p e. (p, e) \<in> set xs \<Longrightarrow> e = stored p) \<Longrightarrow>
   fold (shown dc) xs m p = (if p \<in> fst ` set xs \<and> dc p (stored p) \<noteq> None then dc p (stored p) else m p)"
proof (induction xs arbitrary: m)
  case (Cons x xs)
  obtain q e where x: "x = (q, e)" by (cases x)
  have e: "e = stored q" using Cons.prems [of q e] by (simp add: x)
  have IH: "fold (shown dc) xs m' p = (if p \<in> fst ` set xs \<and> dc p (stored p) \<noteq> None then dc p (stored p) else m' p)" for m'
    using Cons.prems by (intro Cons.IH) simp
  show ?case by (auto simp: x e IH shown_apply)
qed simp

lemma profile_unique:
  assumes "usernames_ok st" and "r \<in> set (auto_rows (user_profiles st))" and "is_profile s p r"
  shows "first_where (is_profile s p) (auto_rows (user_profiles st)) = Some r"
  by (rule first_where_unique [where key = "\<lambda>r. (pr_server r, pr_pseudonym r)"])
    (use assms in \<open>simp_all add: usernames_ok_def is_profile_def\<close>)

lemma granted_profiles_iff:
  "(p, e) \<in> set (granted_profiles s q st) \<longleftrightarrow> exists_where (is_grant s p q) (auto_rows (username_grants st))
     \<and> (\<exists>r \<in> set (auto_rows (user_profiles st)). is_profile s p r \<and> e = pr_username r)"
  by (force simp: granted_profiles_def exists_where_iff is_grant_def is_profile_def)

lemma visible_exact:
  assumes "usernames_ok st" and "usernames_enabled policy"
  shows "get_visible_usernames_handler C A no_faults k policy s q st
    = Inr (\<lambda>p. if may_see s q p st then stored_username C A k s p st else None)"
proof -
  let ?P = "auto_rows (user_profiles st)"
  define ciphertext where "ciphertext p = (case first_where (is_profile s p) ?P of Some r \<Rightarrow> pr_username r | None \<Rightarrow> [])" for p
  define own where "own = (case first_where (is_profile s q) ?P of
      Some r \<Rightarrow> shown (decrypt_username C A k) (q, pr_username r) Map.empty | None \<Rightarrow> Map.empty)"
  have e: "e = ciphertext p" if "(p, e) \<in> set (granted_profiles s q st)" for p e
    using that profile_unique [OF assms(1)] by (auto simp: granted_profiles_iff ciphertext_def)
  have in_fst: "p \<in> fst ` set (granted_profiles s q st)
      \<longleftrightarrow> exists_where (is_grant s p q) (auto_rows (username_grants st)) \<and> (\<exists>r \<in> set ?P. is_profile s p r)" for p
  proof -
    have "p \<in> fst ` X \<longleftrightarrow> (\<exists>e. (p, e) \<in> X)" for X :: "(string \<times> string) set" by force
    then show ?thesis by (auto simp: granted_profiles_iff)
  qed
  have ex: "(\<exists>r \<in> set ?P. is_profile s p r) \<longleftrightarrow> first_where (is_profile s p) ?P \<noteq> None" for p
    by (simp add: first_where_None)
  have own: "own p = (if p = q then stored_username C A k s q st else None)" for p
    by (auto simp: own_def shown_def stored_username_def split: option.split)
  have "fold (shown (decrypt_username C A k)) (granted_profiles s q st) own p
      = (if may_see s q p st then stored_username C A k s p st else None)" for p
  proof -
    have "fold (shown (decrypt_username C A k)) (granted_profiles s q st) own p
        = (if p \<in> fst ` set (granted_profiles s q st) \<and> decrypt_username C A k p (ciphertext p) \<noteq> None
           then decrypt_username C A k p (ciphertext p) else own p)" by (rule fold_shown [OF e])
    also have "\<dots> = (if may_see s q p st then stored_username C A k s p st else None)"
      unfolding in_fst ex own by (auto simp: may_see_def stored_username_def ciphertext_def split: option.splits)
    finally show ?thesis .
  qed
  then have "fold (shown (decrypt_username C A k)) (granted_profiles s q st) own
      = (\<lambda>p. if may_see s q p st then stored_username C A k s p st else None)" by blast
  then show ?thesis
    using assms(2) by (simp add: get_visible_usernames_handler_def no_faults_def own_def Let_def)
qed

lemma decrypt_encrypt:
  "hex_laws C \<Longrightarrow> aead_laws A \<Longrightarrow> length nonce = 12 \<Longrightarrow> is_utf8 A name \<Longrightarrow>
   decrypt_username C A k p (encrypt_username C A nonce k p name) = Some name"
  by (simp add: decrypt_username_def encrypt_username_def hex_laws_def aead_laws_def aead_overhead_def decrypt_aead_def from_utf8_def)

lemma stored_upsert:
  assumes "usernames_ok st"
  shows "stored_username C A k s p' (upsert_profile now s p e st)
    = (if p' = p then decrypt_username C A k p e else stored_username C A k s p' st)"
proof (cases "first_where (is_profile s p) (auto_rows (user_profiles st))")
  case None
  then have "\<not> exists_where (is_profile s p) (auto_rows (user_profiles st))" by (simp add: exists_where_iff first_where_None)
  then show ?thesis
    using None by (auto simp: stored_username_def upsert_profile_def first_where_append is_profile_def split: option.split)
next
  case (Some r)
  then have "exists_where (is_profile s p) (auto_rows (user_profiles st))" using first_where_Some [OF Some] by (auto simp: exists_where_iff)
  moreover have "is_profile s p' r' \<Longrightarrow> is_profile s p r' \<Longrightarrow> p' = p" for r' by (simp add: is_profile_def)
  ultimately show ?thesis
    using Some first_where_Some [of "is_profile s p'" "auto_rows (user_profiles st)"] first_where_Some [OF Some]
    by (auto simp: stored_username_def upsert_profile_def first_where_update_where is_profile_def split: option.splits)
qed

lemma may_see_upsert [simp]: "may_see s q p' (upsert_profile now s p e st) = may_see s q p' st"
  by (simp add: may_see_def upsert_profile_def)

lemma set_username_shows:
  assumes "usernames_ok st" and "hex_laws C" and "aead_laws A" and "length nonce = 12" and "is_utf8 A (trim name)"
    and "set_username_handler C A flt now nonce k policy s p name st = (Inr (), st')"
  shows "usernames_ok st' \<and> (\<forall>q. get_visible_usernames_handler C A no_faults k policy s q st' =
      Inr (\<lambda>p'. if may_see s q p' st then if p' = p then Some (trim name) else stored_username C A k s p' st else None))"
proof -
  have en: "usernames_enabled policy" and st': "st' = upsert_profile now s p (encrypt_username C A nonce k p (trim name)) st"
    using assms(6) by (auto simp: set_username_handler_def Let_def split: if_splits sum.splits)
  have ok: "usernames_ok st'" using assms(1) by (simp add: st' usernames_ok_upsert)
  have "get_visible_usernames_handler C A no_faults k policy s q st' =
      Inr (\<lambda>p'. if may_see s q p' st then if p' = p then Some (trim name) else stored_username C A k s p' st else None)" for q
    unfolding visible_exact [OF ok en]
    by (simp add: st' stored_upsert [OF assms(1)] decrypt_encrypt [OF assms(2-5)] cong: if_cong)
  with ok show ?thesis by blast
qed

text \<open>
  C15. Usernames are private. After any history of settings, deletions, grants and revocations
  with any failures, a user who sets a username is shown under it, trimmed, to themselves and
  to exactly those who hold a grant of theirs at that moment, and what others are shown of
  other users does not change.
\<close>

theorem username_visibility:
  assumes "hex_laws C" and "aead_laws A" and "length nonce = 12" and "is_utf8 A (trim name)"
    and "st = fold (username_step C A) ops ((migrated_db t0)\<lparr>servers := ss\<rparr>)"
    and "set_username_handler C A flt now nonce k policy s p name st = (Inr (), st')"
  shows "\<exists>m m'. get_visible_usernames_handler C A no_faults k policy s q st = Inr m
    \<and> get_visible_usernames_handler C A no_faults k policy s q st' = Inr m'
    \<and> m' p = (if q = p \<or> exists_where (is_grant s p q) (auto_rows (username_grants st)) then Some (trim name) else None)
    \<and> (\<forall>p'. p' \<noteq> p \<longrightarrow> m' p' = m p')"
proof -
  have "usernames_ok ((migrated_db t0)\<lparr>servers := ss\<rparr>)"
    by (simp add: usernames_ok_def empty_auto_def auto_wf_def)
  then have ok: "usernames_ok st" unfolding assms(5) by (rule usernames.run_inv)
  have en: "usernames_enabled policy" using assms(6) by (auto simp: set_username_handler_def split: if_splits)
  show ?thesis
    using visible_exact [OF ok en, of C A k s q] set_username_shows [OF ok assms(1-4,6)]
    by (auto simp: may_see_def)
qed

text \<open>
  A deletion that fails half way can reveal a later name. The profile and the grants are
  deleted by separate statements; if the second one fails, the name is gone and an error is
  answered, but when the user sets another name, everyone who held a grant sees it.
\<close>

theorem failed_deletion_keeps_grants:
  assumes "hex_laws C" and "aead_laws A" and "length nonce = 12" and "is_utf8 A (trim name)" and "usernames_ok st"
    and "exists_where (is_grant s p q) (auto_rows (username_grants st))"
    and "\<not> flt 0" and "\<not> flt 1" and "flt 2" and "st1 = snd (delete_username_handler flt s p st)"
    and "set_username_handler C A no_faults now nonce k policy s p name st1 = (Inr (), st2)"
  shows "fst (delete_username_handler flt s p st) = Inl InternalServerError \<and> stored_username C A k s p st1 = None
    \<and> (\<exists>m. get_visible_usernames_handler C A no_faults k policy s q st2 = Inr m \<and> m p = Some (trim name))"
proof -
  have st1: "st1 = st\<lparr>user_profiles := auto_delete (is_profile s p) (user_profiles st)\<rparr>"
    using assms(7-10) by (simp add: delete_username_handler_def Let_def)
  have ok: "usernames_ok st1" using assms(5) by (simp add: st1 usernames_ok_delete)
  have "first_where (is_profile s p) (auto_rows (user_profiles st1)) = None"
    by (simp add: st1 first_where_None set_delete_where)
  moreover have "may_see s q p st1" using assms(6) by (simp add: may_see_def st1)
  ultimately show ?thesis
    using set_username_shows [OF ok assms(1-4,11)] assms(7-9)
    by (auto simp: stored_username_def delete_username_handler_def Let_def)
qed

section \<open>The legacy format\<close>

lemma xor_char_cancel: "xor_char (xor_char (xor_char a b) (xor_char a c)) b = c"
proof -
  have o: "of_char (xor_char x y) = (of_char x XOR of_char y :: nat)" for x y
  proof -
    have "take_bit 8 (of_char z :: nat) = of_char z" for z
      using nat_of_char_less_256 [of z] by (simp add: take_bit_eq_mod)
    then have "take_bit 8 (of_char x XOR of_char y :: nat) = of_char x XOR of_char y" by simp
    then show ?thesis by (simp add: xor_char_def take_bit_eq_mod)
  qed
  have "of_char (xor_char (xor_char (xor_char a b) (xor_char a c)) b) = (of_char c :: nat)"
    by (simp only: o) (rule bit_eqI, auto simp: bit_xor_iff)
  then show ?thesis by (metis char_of_char)
qed

text \<open>What a forger computes from a ciphertext, its plaintext and the name wanted.\<close>

definition forge :: "bytes \<Rightarrow> string \<Rightarrow> string \<Rightarrow> bytes" where
  "forge old known wanted = map (\<lambda>i. xor_char (old ! i) (xor_char (known ! i) (wanted ! i))) [0..<length wanted]"

text \<open>
  C35. The legacy format has no integrity, and every short ciphertext is read in it. Who knows one
  legacy ciphertext of a user with its name, the byte-wise exclusive or with the user's
  keystream, can write a ciphertext for any other name that is not longer and has less than
  28 bytes, without any key, and it decrypts to that name.
\<close>

theorem legacy_ciphertext_forged:
  assumes "hex_laws C" and "sha_laws C" and "is_utf8 A wanted" and "length wanted < 28" and "length wanted \<le> length known"
    and "length known \<le> 32"
    and "old = map (\<lambda>i. xor_char (known ! i) (legacy_keystream C k p ! i)) [0..<length known]"
  shows "decrypt_username C A k p (hex_encode C (forge old known wanted)) = Some wanted"
proof -
  let ?ks = "legacy_keystream C k p"
  have l: "length ?ks = 32" using assms(2) by (simp add: legacy_keystream_def sha_laws_def)
  have "map (\<lambda>i. xor_char (forge old known wanted ! i) (?ks ! (i mod 32))) [0..<length wanted] = map ((!) wanted) [0..<length wanted]"
  proof (rule map_cong [OF refl])
    fix i assume "i \<in> set [0..<length wanted]"
    then have i: "i < length wanted" "i < length known" "i mod 32 = i" using assms(5,6) by auto
    show "xor_char (forge old known wanted ! i) (?ks ! (i mod 32)) = wanted ! i"
      using i by (simp add: forge_def assms(7) xor_char_cancel)
  qed
  then have "map (\<lambda>i. xor_char (forge old known wanted ! i) (?ks ! (i mod 32))) [0..<length wanted] = wanted"
    by (simp add: map_nth)
  then show ?thesis
    using assms(1,3,4) by (simp add: decrypt_username_def hex_laws_def aead_overhead_def forge_def decrypt_xor_legacy_def l
        from_utf8_def)
qed

section \<open>Concrete usernames\<close>

definition demo_aead :: aead where
  "demo_aead = \<lparr>hkdf_sha256 = (\<lambda>_ _ _. []), aead_encrypt = (\<lambda>_ _ m. replicate 16 (CHR ''t'') @ m),
     aead_decrypt = (\<lambda>_ _ c. if take 16 c = replicate 16 (CHR ''t'') then Some (drop 16 c) else None), is_utf8 = (\<lambda>_. True)\<rparr>"

lemma demo_aead_laws: "aead_laws demo_aead" "is_utf8 demo_aead s"
  by (simp_all add: aead_laws_def demo_aead_def)

definition demo_nonce :: bytes where "demo_nonce = replicate 12 (CHR ''n'')"

definition named_policy :: ServerPolicy where
  "named_policy = default_policy\<lparr>usernames_enabled := True\<rparr>"

definition demo_server :: server_row where
  "demo_server = \<lparr>sv_id = 1, sv_slug = ''s'', sv_label = ''S'', sv_policy_json = []\<rparr>"

definition demo_history :: "username_op list" where
  "demo_history = [SetUsername no_faults 1 demo_nonce [] named_policy 1 ''ann'' ''Ann'', GrantUsername no_faults 2 1 ''ann'' ''bob'']"

lemma trim_plain: "trim ''Ann'' = ''Ann''" "trim ''Eve'' = ''Eve''" "trim ''bob'' = ''bob''"
  by (simp_all add: trim_def strip_front_none white_space_def starts_with_def)

lemma demo_set:
  assumes "servers st = [demo_server]"
  shows "set_username_handler C A no_faults now nonce k named_policy 1 ''ann'' ''Eve'' st
    = (Inr (), upsert_profile now 1 ''ann'' (encrypt_username C A nonce k ''ann'' ''Eve'') st)"
  by (simp add: set_username_handler_def named_policy_def trim_plain validate_username_def max_username_len_def char_count_def
      no_faults_def exists_where_def assms demo_server_def)

theorem username_visibility_witness:
  "\<exists>st st' m. st = fold (username_step demo_crypto demo_aead) demo_history ((migrated_db 0)\<lparr>servers := [demo_server]\<rparr>)
    \<and> set_username_handler demo_crypto demo_aead no_faults 3 demo_nonce [] named_policy 1 ''ann'' ''Eve'' st = (Inr (), st')
    \<and> get_visible_usernames_handler demo_crypto demo_aead no_faults [] named_policy 1 ''bob'' st' = Inr m
    \<and> m ''ann'' = Some ''Eve''"
proof -
  define st where "st = fold (username_step demo_crypto demo_aead) demo_history ((migrated_db 0)\<lparr>servers := [demo_server]\<rparr>)"
  have ann: "set_username_handler demo_crypto demo_aead no_faults 1 demo_nonce [] named_policy 1 ''ann'' ''Ann'' ((migrated_db 0)\<lparr>servers := [demo_server]\<rparr>)
      = (Inr (), upsert_profile 1 1 ''ann'' (encrypt_username demo_crypto demo_aead demo_nonce [] ''ann'' ''Ann'') ((migrated_db 0)\<lparr>servers := [demo_server]\<rparr>))"
    by (simp add: set_username_handler_def named_policy_def trim_plain validate_username_def max_username_len_def char_count_def
        no_faults_def exists_where_def demo_server_def)
  have st: "servers st = [demo_server]" "exists_where (is_grant 1 ''ann'' ''bob'') (auto_rows (username_grants st))"
    by (simp_all add: st_def demo_history_def ann grant_username_handler_def trim_plain)
      (simp_all add: no_faults_def upsert_profile_def empty_auto_def exists_where_def is_profile_def demo_server_def insert_grant_def
        is_grant_def)
  have len: "length demo_nonce = 12" by (simp add: demo_nonce_def)
  have t: "trim ''Eve'' = ''Eve''" by (simp add: trim_plain)
  obtain m where m: "get_visible_usernames_handler demo_crypto demo_aead no_faults [] named_policy 1 ''bob''
      (upsert_profile 3 1 ''ann'' (encrypt_username demo_crypto demo_aead demo_nonce [] ''ann'' ''Eve'') st) = Inr m"
    "m ''ann'' = Some ''Eve''"
    using username_visibility [OF demo_hex_laws demo_aead_laws(1) len demo_aead_laws(2) st_def demo_set [OF st(1)], where q = "''bob''" and k = "[]" and now = 3] st(2) t
    by auto
  with st_def demo_set [OF st(1)] show ?thesis by blast
qed

definition demo_granted :: db where
  "demo_granted = (migrated_db 0)\<lparr>servers := [demo_server],
     user_profiles := \<lparr>auto_rows = [\<lparr>pr_row_id = 1, pr_server = 1, pr_pseudonym = ''ann'', pr_username = ''00'', pr_updated = 0\<rparr>], auto_seq = 1\<rparr>,
     username_grants := \<lparr>auto_rows = [\<lparr>gt_id = 1, gt_server = 1, gt_granter = ''ann'', gt_grantee = ''bob'', gt_created = 0\<rparr>], auto_seq = 1\<rparr>\<rparr>"

theorem failed_deletion_keeps_grants_witness:
  "\<exists>st1 st2 m. delete_username_handler (\<lambda>n. n = 2) 1 ''ann'' demo_granted = (Inl InternalServerError, st1)
    \<and> set_username_handler demo_crypto demo_aead no_faults 3 demo_nonce [] named_policy 1 ''ann'' ''Eve'' st1 = (Inr (), st2)
    \<and> get_visible_usernames_handler demo_crypto demo_aead no_faults [] named_policy 1 ''bob'' st2 = Inr m \<and> m ''ann'' = Some ''Eve''"
proof -
  let ?flt = "\<lambda>n :: nat. n = 2"
  define st1 where "st1 = snd (delete_username_handler ?flt 1 ''ann'' demo_granted)"
  have sv: "servers st1 = [demo_server]" by (simp add: st1_def delete_username_handler_def demo_granted_def Let_def)
  have ok: "usernames_ok demo_granted" by (simp add: usernames_ok_def demo_granted_def auto_wf_def)
  have g: "exists_where (is_grant 1 ''ann'' ''bob'') (auto_rows (username_grants demo_granted))"
    by (simp add: demo_granted_def exists_where_def is_grant_def)
  have len: "length demo_nonce = 12" by (simp add: demo_nonce_def)
  have f: "\<not> ?flt 0" "\<not> ?flt 1" "?flt 2" by simp_all
  note fail = failed_deletion_keeps_grants [OF demo_hex_laws demo_aead_laws(1) len demo_aead_laws(2) ok g f st1_def demo_set [OF sv], where k = "[]" and now = 3]
  have "delete_username_handler ?flt 1 ''ann'' demo_granted = (Inl InternalServerError, st1)"
    using conjunct1 [OF fail] by (simp add: st1_def prod_eq_iff)
  moreover obtain m where "get_visible_usernames_handler demo_crypto demo_aead no_faults [] named_policy 1 ''bob''
      (upsert_profile 3 1 ''ann'' (encrypt_username demo_crypto demo_aead demo_nonce [] ''ann'' ''Eve'') st1) = Inr m"
    "m ''ann'' = Some ''Eve''"
    using conjunct2 [OF conjunct2 [OF fail]] trim_plain(2) by auto
  ultimately show ?thesis using demo_set [OF sv] by blast
qed

theorem legacy_ciphertext_forged_witness:
  "\<forall>k p. \<exists>old. decrypt_username demo_crypto demo_aead k p (hex_encode demo_crypto (forge old ''Ann'' ''Eve'')) = Some ''Eve''"
  using legacy_ciphertext_forged [OF demo_hex_laws demo_sha_laws demo_aead_laws(2), of "''Eve''" "''Ann''"] by auto

end
