(* ===== verification/Annex_Admin.thy ===== *)
theory Annex_Admin
  imports Annex_Agents Rust_Text
begin

text \<open>
  \<open>annex-server/src/api_admin.rs\<close>: the handlers for moderators. \<open>flt n\<close> makes the \<open>n\<close>-th database
  call of a handler fail. The live policy and the public URL are kept beside the database. The
  JSON text of a policy is an argument, \<open>None\<close> if it cannot be written.
\<close>

definition require_moderator :: "PlatformIdentity \<Rightarrow> string \<Rightarrow> ApiError + unit" where
  "require_moderator identity message =
     (if can_moderate (pf_capabilities identity) then Inr () else Inl (Forbidden message))"

definition moderation_event :: "string \<Rightarrow> string \<Rightarrow> string option \<Rightarrow> string \<Rightarrow> EventPayload" where
  "moderation_event moderator action target description = ModerationAction moderator action target description"

section \<open>The policy\<close>

definition get_policy_handler :: "PlatformIdentity \<Rightarrow> ServerPolicy \<Rightarrow> ApiError + ServerPolicy" where
  "get_policy_handler identity policy =
     and_then (require_moderator identity ''insufficient permissions to view policy'') (\<lambda>_. Inr policy)"

text \<open>The statements of the transaction; the version identifier is unique and the server a foreign key.\<close>

definition store_policy :: "time \<Rightarrow> int \<Rightarrow> string \<Rightarrow> string \<Rightarrow> db \<Rightarrow> db" where
  "store_policy now s version_id json d =
     d\<lparr>servers := update_where (\<lambda>r. sv_id r = s) (\<lambda>r. r\<lparr>sv_policy_json := json\<rparr>) (servers d),
       server_policy_versions := auto_insert (\<lambda>i. \<lparr>pv_id = i, pv_server = s, pv_version = version_id, pv_policy_json = json,
         pv_activated = now\<rparr>) (server_policy_versions d)\<rparr>"

definition policy_transaction ::
  "(EventPayload \<Rightarrow> string option) \<Rightarrow> faults \<Rightarrow> time \<Rightarrow> int \<Rightarrow> string \<Rightarrow> string \<Rightarrow> string \<Rightarrow> db \<Rightarrow> (ApiError + db) \<times> sent" where
  "policy_transaction js flt now s moderator version_id json d =
     (if flt 0 \<or> flt 1 \<or> flt 2 \<or> flt 3
         \<or> exists_where (\<lambda>r. pv_version r = version_id) (auto_rows (server_policy_versions d))
         \<or> \<not> exists_where (\<lambda>r. sv_id r = s) (servers d)
      then (Inl InternalServerError, nothing_sent)
      else let (d1, event) = emit_and_broadcast js (\<lambda>i. flt (5 + i)) now (store_policy now s version_id json d) s moderator
                 (moderation_event moderator ''policy_update'' None (''Server policy updated to version '' @ version_id));
               out = observed event nothing_sent
           in if flt 4 then (Inl InternalServerError, out) else (Inr d1, out))"

text \<open>
  The live policy is replaced after the commit and before the alignments are recalculated; an
  error of the recalculation is answered, but the new policy stays.
\<close>

definition update_policy_handler ::
  "'f crypto \<Rightarrow> unicode \<Rightarrow> vrp_json \<Rightarrow> fed_json \<Rightarrow> (ServerPolicy \<Rightarrow> string option) \<Rightarrow> (EventPayload \<Rightarrow> string option) \<Rightarrow> u64 option
     \<Rightarrow> faults \<Rightarrow> faults \<Rightarrow> faults \<Rightarrow> time \<Rightarrow> string \<Rightarrow> int \<Rightarrow> PlatformIdentity \<Rightarrow> ServerPolicy \<Rightarrow> ServerPolicy \<Rightarrow> db
     \<Rightarrow> (ApiError + string) \<times> ServerPolicy \<times> db \<times> sent list" where
  "update_policy_handler C U V J to_json js clock flt flt' flt'' now version_id s identity new_policy policy d =
     (case and_then (require_moderator identity ''insufficient permissions to update policy'')
             (\<lambda>_. ok_or (to_json new_policy) (BadRequest ''failed to serialize policy: '')) of
        Inl e \<Rightarrow> (Inl e, policy, d, [])
      | Inr json \<Rightarrow>
          (case policy_transaction js flt now s (pf_pseudonym_id identity) version_id json d of
             (Inl e, out) \<Rightarrow> (Inl e, policy, d, [out])
           | (Inr d1, out) \<Rightarrow>
               (case recalculate_all_alignments C U V J js clock flt' flt'' now (Some new_policy) s d1 of
                  (Inl e, d2, outs) \<Rightarrow> (Inl e, new_policy, d2, out # outs)
                | (Inr _, d2, outs) \<Rightarrow> (Inr version_id, new_policy, d2, out # outs))))"

section \<open>Federation\<close>

text \<open>A failed lookup of the peer's URL only suppresses the event.\<close>

definition revoked_url :: "faults \<Rightarrow> int \<Rightarrow> int \<Rightarrow> db \<Rightarrow> string option" where
  "revoked_url flt agreement_id s d =
     (if flt 1 then None
      else case first_where (\<lambda>a. ag_id a = agreement_id \<and> ag_server a = s \<and> ag_active a) (agreement_rows d) of
        None \<Rightarrow> None
      | Some a \<Rightarrow> map_option in_base_url (first_where (\<lambda>i. in_id i = ag_remote a) (instances d)))"

definition revoke_federation_handler ::
  "(EventPayload \<Rightarrow> string option) \<Rightarrow> faults \<Rightarrow> time \<Rightarrow> int \<Rightarrow> PlatformIdentity \<Rightarrow> int \<Rightarrow> db
     \<Rightarrow> (ApiError + string option) \<times> db \<times> sent" where
  "revoke_federation_handler js flt now s identity agreement_id d =
     (case and_then (require_moderator identity ''insufficient permissions to revoke federation agreement'') (\<lambda>_.
           and_then (db_call flt 0) (\<lambda>_. db_call flt 2)) of
        Inl e \<Rightarrow> (Inl e, d, nothing_sent)
      | Inr _ \<Rightarrow>
          (case revoke_agreement now d agreement_id s of
             (False, d') \<Rightarrow> (Inl (NotFound ''federation agreement not found or already revoked''), d', nothing_sent)
           | (True, d') \<Rightarrow>
               (case revoked_url flt agreement_id s d of
                  None \<Rightarrow> (Inr None, d', nothing_sent)
                | Some url \<Rightarrow>
                    let (d'', event) = emit_and_broadcast js (\<lambda>i. flt (3 + i)) now d' s (pf_pseudonym_id identity)
                          (EventPayload.FederationSevered url (''revoked by moderator '' @ pf_pseudonym_id identity))
                    in (Inr (Some url), d'', observed event nothing_sent))))"

section \<open>Server settings\<close>

definition rename_server_handler ::
  "(EventPayload \<Rightarrow> string option) \<Rightarrow> faults \<Rightarrow> time \<Rightarrow> int \<Rightarrow> PlatformIdentity \<Rightarrow> string \<Rightarrow> db \<Rightarrow> (ApiError + string) \<times> db \<times> sent" where
  "rename_server_handler js flt now s identity requested d =
     (let new_label = trim requested in
      case and_then (require_moderator identity ''insufficient permissions to rename server'') (\<lambda>_.
           if new_label = [] \<or> 128 < length new_label
           then Inl (BadRequest (''label must be 1'' @ [CHR 0xE2, CHR 0x80, CHR 0x93] @ ''128 characters''))
           else and_then (db_call flt 0) (\<lambda>_. db_call flt 1)) of
        Inl e \<Rightarrow> (Inl e, d, nothing_sent)
      | Inr _ \<Rightarrow>
          let d1 = d\<lparr>servers := update_where (\<lambda>r. sv_id r = s) (\<lambda>r. r\<lparr>sv_label := new_label\<rparr>) (servers d)\<rparr>;
              (d2, event) = emit_and_broadcast js (\<lambda>i. flt (2 + i)) now d1 s (pf_pseudonym_id identity)
                (moderation_event (pf_pseudonym_id identity) ''server_rename'' None
                   (''Server renamed to '' @ [CHR 0x22] @ new_label @ [CHR 0x22]))
          in (Inr new_label, d2, observed event nothing_sent))"

definition get_server_handler :: "faults \<Rightarrow> int \<Rightarrow> string \<Rightarrow> PlatformIdentity \<Rightarrow> db \<Rightarrow> ApiError + string \<times> string \<times> string" where
  "get_server_handler flt s url identity d =
     and_then (require_moderator identity ''insufficient permissions'') (\<lambda>_.
     and_then (db_call flt 0) (\<lambda>_. and_then (db_call flt 1) (\<lambda>_.
     and_then (ok_or (first_where (\<lambda>r. sv_id r = s) (servers d)) InternalServerError) (\<lambda>r.
       Inr (sv_slug r, sv_label r, url)))))"

definition trim_end_slashes :: "string \<Rightarrow> string" where
  "trim_end_slashes s = rev (dropWhile (\<lambda>c. c = CHR ''/'') (rev s))"

text \<open>The result and the public URL from then on.\<close>

definition set_public_url_handler :: "PlatformIdentity \<Rightarrow> string \<Rightarrow> string \<Rightarrow> (ApiError + string) \<times> string" where
  "set_public_url_handler identity requested current =
     (let url = trim_end_slashes (trim requested) in
      case and_then (require_moderator identity ''insufficient permissions'') (\<lambda>_.
           if url \<noteq> [] \<and> \<not> starts_with url ''http://'' \<and> \<not> starts_with url ''https://''
           then Inl (BadRequest ''public_url must start with http:// or https://'')
           else Inr ()) of
        Inl e \<Rightarrow> (Inl e, current)
      | Inr _ \<Rightarrow> (Inr url, url))"

section \<open>Members\<close>

record MemberInfo =
  mi_pseudonym_id :: string
  mi_participant_type :: string
  mi_capabilities :: Capabilities
  mi_active :: bool
  mi_created_at :: time

definition list_members_handler :: "faults \<Rightarrow> int \<Rightarrow> PlatformIdentity \<Rightarrow> db \<Rightarrow> ApiError + MemberInfo list" where
  "list_members_handler flt s identity d =
     and_then (require_moderator identity ''insufficient permissions to list members'') (\<lambda>_.
     and_then (db_call flt 0) (\<lambda>_. and_then (db_call flt 1) (\<lambda>_.
       Inr (map (\<lambda>r. \<lparr>mi_pseudonym_id = pi_pseudonym r, mi_participant_type = pi_type r, mi_capabilities = pi_caps r,
              mi_active = pi_active r, mi_created_at = pi_created r\<rparr>)
            (order_by pi_created (filter (\<lambda>r. pi_server r = s) (platform_rows d)))))))"

definition bool_text :: "bool \<Rightarrow> string" where
  "bool_text b = (if b then ''true'' else ''false'')"

definition capabilities_text :: "string \<Rightarrow> Capabilities \<Rightarrow> string" where
  "capabilities_text target caps =
     ''Updated capabilities for '' @ target @ '': moderate='' @ bool_text (can_moderate caps) @ '', voice=''
     @ bool_text (can_voice caps) @ '', invite='' @ bool_text (can_invite caps) @ '', federate=''
     @ bool_text (can_federate caps) @ '', bridge='' @ bool_text (can_bridge caps)"

text \<open>An unknown target is answered as an internal error.\<close>

definition update_member_capabilities_handler ::
  "(EventPayload \<Rightarrow> string option) \<Rightarrow> faults \<Rightarrow> time \<Rightarrow> int \<Rightarrow> PlatformIdentity \<Rightarrow> string \<Rightarrow> Capabilities \<Rightarrow> db
     \<Rightarrow> (ApiError + unit) \<times> db \<times> sent" where
  "update_member_capabilities_handler js flt now s identity target caps d =
     (case and_then (require_moderator identity ''insufficient permissions to update member capabilities'') (\<lambda>_.
           and_then (db_call flt 0) (\<lambda>_. db_call flt 1)) of
        Inl e \<Rightarrow> (Inl e, d, nothing_sent)
      | Inr _ \<Rightarrow>
          (case update_capabilities now d s target caps of
             (Inl _, d') \<Rightarrow> (Inl InternalServerError, d', nothing_sent)
           | (Inr _, d') \<Rightarrow>
               let (d'', event) = emit_and_broadcast js (\<lambda>i. flt (2 + i)) now d' s (pf_pseudonym_id identity)
                     (moderation_event (pf_pseudonym_id identity) ''capabilities_update'' (Some target) (capabilities_text target caps))
               in (Inr (), d'', observed event nothing_sent)))"

section \<open>Moderators only\<close>

text \<open>
  Every administrative handler refuses a caller whose identity may not moderate, whatever the
  request and the state of the server, with the status 403, and before it does anything: the live
  policy, the public URL and the database stay as they are, and nothing is sent.
\<close>

theorem admin_requires_moderator:
  assumes "\<not> can_moderate (pf_capabilities identity)"
  shows "(\<exists>m. get_policy_handler identity policy = Inl (Forbidden m))
    \<and> (\<exists>m. update_policy_handler C U V J to_json js clock flt flt' flt'' now v s identity new_policy policy d
          = (Inl (Forbidden m), policy, d, []))
    \<and> (\<exists>m. revoke_federation_handler js flt now s identity agreement_id d = (Inl (Forbidden m), d, nothing_sent))
    \<and> (\<exists>m. rename_server_handler js flt now s identity new_name d = (Inl (Forbidden m), d, nothing_sent))
    \<and> (\<exists>m. get_server_handler flt s url identity d = Inl (Forbidden m))
    \<and> (\<exists>m. set_public_url_handler identity new_url url = (Inl (Forbidden m), url))
    \<and> (\<exists>m. list_members_handler flt s identity d = Inl (Forbidden m))
    \<and> (\<exists>m. update_member_capabilities_handler js flt now s identity target caps d = (Inl (Forbidden m), d, nothing_sent))"
  using assms
  by (simp add: get_policy_handler_def update_policy_handler_def revoke_federation_handler_def rename_server_handler_def
      get_server_handler_def set_public_url_handler_def list_members_handler_def update_member_capabilities_handler_def
      require_moderator_def)

definition demo_visitor :: PlatformIdentity where
  "demo_visitor = \<lparr>pf_id = 2, pf_server_id = 1, pf_pseudonym_id = ''p'', participant_type = RoleCode.Human,
     pf_capabilities = default_capabilities, pf_active = True, pf_created_at = 5, pf_updated_at = 5\<rparr>"

theorem admin_requires_moderator_witness:
  "\<exists>m. update_member_capabilities_handler (\<lambda>_. None) no_faults 7 1 demo_visitor ''p'' (promote default_capabilities) (migrated_db 0)
     = (Inl (Forbidden m), migrated_db 0, nothing_sent)"
proof -
  have "\<not> can_moderate (pf_capabilities demo_visitor)" by (simp add: demo_visitor_def default_capabilities_def)
  note refused = admin_requires_moderator [OF this, THEN conjunct2, THEN conjunct2, THEN conjunct2, THEN conjunct2, THEN conjunct2,
    THEN conjunct2, THEN conjunct2]
  show ?thesis by (rule refused)
qed

section \<open>The policy in force\<close>

definition settings :: "db \<Rightarrow> server_row list \<times> policy_version_row auto_table" where
  "settings d = (servers d, server_policy_versions d)"

lemma settings_emit: "settings (fst (emit_and_broadcast js flt now d s eid payload)) = settings d"
  by (simp add: settings_def emit_and_broadcast_def emit_event_def Let_def split: option.split sum.split)

lemma settings_emitted: "emit_and_broadcast js flt now d s eid payload = (d', e) \<Longrightarrow> settings d' = settings d"
  using settings_emit [of js flt now d s eid payload] by simp

lemma settings_writes [simp]:
  "settings (write_agent now s u d) = settings d" "settings (write_peer J now w d) = settings d"
  by (simp_all add: settings_def write_agent_def write_peer_def)

lemma settings_agents:
  "apply_agent_updates js flt now s k us d out = (r, d', out') \<Longrightarrow> settings d' = settings d"
proof (induction us arbitrary: k d out)
  case (Cons u us)
  obtain d2 e where e: "emit_and_broadcast js (\<lambda>i. flt (2 * k + 1 + i)) now (write_agent now s u d) s (au_pseudonym u)
    (agent_event u) = (d2, e)" by fastforce
  then show ?case using Cons.prems Cons.IH [of "Suc k" d2] settings_emitted [OF e]
    by (auto simp: db_call_def split: if_splits)
qed simp

lemma settings_peers:
  "apply_peer_updates J js flt now s k us d out = (r, d', out') \<Longrightarrow> settings d' = settings d"
proof (induction us arbitrary: k d out)
  case (Cons u us)
  obtain d2 e where e: "emit_and_broadcast js (\<lambda>i. flt (2 * k + 1 + i)) now (write_peer J now u d) s (pu_base_url u)
    (peer_event u) = (d2, e)" by fastforce
  then show ?case using Cons.prems Cons.IH [of "Suc k" d2] settings_emitted [OF e]
    by (auto simp: db_call_def split: if_splits)
qed simp

lemma settings_recalculated:
  assumes "recalculate_all_alignments C U V J js clock flt flt' now pol s d = (r, d', outs)"
  shows "settings d' = settings d"
proof -
  obtain r1 d1 o1 where 1: "recalculate_agent_alignments C U V js clock flt now pol s d = (r1, d1, o1)"
    by (rule prod_cases3)
  obtain r2 d2 o2 where 2: "recalculate_federation_agreements C U J js clock flt' now pol s d1 = (r2, d2, o2)"
    by (rule prod_cases3)
  have "settings d1 = settings d"
    using 1 unfolding recalculate_agent_alignments_def
    by (auto split: sum.splits prod.splits dest: settings_agents)
  moreover have "settings d2 = settings d1"
    using 2 unfolding recalculate_federation_agreements_def
    by (auto split: sum.splits prod.splits dest: settings_peers)
  moreover have "d' = d1 \<or> d' = d2"
    using assms by (simp add: recalculate_all_alignments_def 1 2 split: sum.splits)
  ultimately show ?thesis by auto
qed

definition policy_stored :: "int \<Rightarrow> string \<Rightarrow> string \<Rightarrow> db \<Rightarrow> bool" where
  "policy_stored s version_id json d \<longleftrightarrow>
     (\<forall>r \<in> set (servers d). sv_id r = s \<longrightarrow> sv_policy_json r = json)
     \<and> (\<exists>r \<in> set (auto_rows (server_policy_versions d)). pv_server r = s \<and> pv_version r = version_id \<and> pv_policy_json r = json)"

lemma policy_stored_settings: "settings d' = settings d \<Longrightarrow> policy_stored s v json d' = policy_stored s v json d"
  by (simp add: settings_def policy_stored_def)

lemma policy_stored_store: "policy_stored s v json (store_policy now s v json d)"
proof -
  have *: "sv_policy_json r = json" if "r \<in> set (update_where (\<lambda>r. sv_id r = s) (\<lambda>r. r\<lparr>sv_policy_json := json\<rparr>) rs)" "sv_id r = s" for r rs
    using update_where_hit [OF that] by fastforce
  have "\<forall>r \<in> set (servers (store_policy now s v json d)). sv_id r = s \<longrightarrow> sv_policy_json r = json"
    by (intro ballI impI, rule * [of _ "servers d"]) (simp_all add: store_policy_def)
  then show ?thesis unfolding policy_stored_def by (simp add: store_policy_def)
qed

lemma policy_transaction_Inr:
  assumes "policy_transaction js flt now s moderator v json d = (Inr d1, out)"
  shows "policy_stored s v json d1"
proof -
  obtain d2 e where e: "emit_and_broadcast js (\<lambda>i. flt (5 + i)) now (store_policy now s v json d) s moderator
    (moderation_event moderator ''policy_update'' None (''Server policy updated to version '' @ v)) = (d2, e)" by fastforce
  have "d1 = d2" using assms unfolding policy_transaction_def Let_def e by (simp split: if_splits)
  then show ?thesis using policy_stored_settings [OF settings_emitted [OF e]] policy_stored_store by simp
qed

text \<open>
  C20. The policy that the server goes by and the policy that it stores change together. If an
  update is refused or its transaction fails, the database and the live policy are as before and
  an error is answered. Otherwise the caller is a moderator, the new policy is live, and its
  JSON text is the one stored for the server and logged under the new version: also when the
  recalculation of the alignments fails afterwards and the caller is answered an error.
\<close>

theorem policy_update_durable:
  assumes "update_policy_handler C U V J to_json js clock flt flt' flt'' now v s identity new_policy policy d
    = (r, policy', d', outs)"
  shows "(policy' = policy \<and> d' = d \<and> (\<exists>e. r = Inl e))
    \<or> (policy' = new_policy \<and> can_moderate (pf_capabilities identity) \<and> (r = Inr v \<or> (\<exists>e. r = Inl e))
       \<and> (\<exists>json. to_json new_policy = Some json \<and> policy_stored s v json d'))"
proof (cases "can_moderate (pf_capabilities identity) \<and> (\<exists>json. to_json new_policy = Some json)")
  case False
  then show ?thesis using assms
    by (auto simp: update_policy_handler_def require_moderator_def split: if_splits option.splits)
next
  case True
  then obtain json where m: "can_moderate (pf_capabilities identity)" and j: "to_json new_policy = Some json" by blast
  obtain t out where t: "policy_transaction js flt now s (pf_pseudonym_id identity) v json d = (t, out)" by fastforce
  show ?thesis
  proof (cases t)
    case (Inl e)
    then show ?thesis using assms by (auto simp: update_policy_handler_def require_moderator_def m j t)
  next
    case (Inr d1)
    obtain r2 d2 o2 where 2: "recalculate_all_alignments C U V J js clock flt' flt'' now (Some new_policy) s d1 = (r2, d2, o2)"
      by (rule prod_cases3)
    have "policy_stored s v json d2"
      using policy_transaction_Inr [OF t [unfolded Inr]] policy_stored_settings [OF settings_recalculated [OF 2]] by simp
    moreover have "policy' = new_policy \<and> d' = d2 \<and> (r = Inr v \<or> (\<exists>e. r = Inl e))"
      using assms by (auto simp: update_policy_handler_def require_moderator_def m j t Inr 2 split: sum.splits)
    ultimately show ?thesis using m j by blast
  qed
qed

definition demo_moderator :: PlatformIdentity where
  "demo_moderator = demo_visitor\<lparr>pf_capabilities := promote default_capabilities\<rparr>"

definition demo_admin_db :: db where
  "demo_admin_db = demo_policy_db\<lparr>servers := [\<lparr>sv_id = 1, sv_slug = ''s'', sv_label = ''S'', sv_policy_json = []\<rparr>]\<rparr>"

lemma demo_transaction:
  "\<exists>d1 out. policy_transaction (\<lambda>_. None) no_faults 7 1 ''p'' ''v2'' ''{}'' demo_admin_db = (Inr d1, out)"
proof -
  obtain d2 e where e: "emit_and_broadcast (\<lambda>_. None) (\<lambda>i. no_faults (5 + i)) 7 (store_policy 7 1 ''v2'' ''{}'' demo_admin_db) 1 ''p''
    (moderation_event ''p'' ''policy_update'' None (''Server policy updated to version '' @ ''v2'')) = (d2, e)" by fastforce
  have "\<not> exists_where (\<lambda>r. pv_version r = ''v2'') (auto_rows (server_policy_versions demo_admin_db))"
    "exists_where (\<lambda>r. sv_id r = 1) (servers demo_admin_db)"
    by (simp_all add: demo_admin_db_def demo_policy_db_def exists_where_def)
  then show ?thesis unfolding policy_transaction_def Let_def e by (simp add: no_faults_def)
qed

theorem policy_update_durable_witness:
  "\<exists>r d' outs. update_policy_handler demo_crypto demo_unicode demo_vrp_json demo_fed_json (\<lambda>_. Some ''{}'') (\<lambda>_. None) (Some 7)
     no_faults no_faults no_faults 7 ''v2'' 1 demo_moderator (default_policy\<lparr>voice_enabled := False\<rparr>) default_policy demo_admin_db
       = (r, default_policy\<lparr>voice_enabled := False\<rparr>, d', outs)
     \<and> policy_stored 1 ''v2'' ''{}'' d'"
proof -
  let ?new = "default_policy\<lparr>voice_enabled := False\<rparr>"
  obtain d1 out where t: "policy_transaction (\<lambda>_. None) no_faults 7 1 ''p'' ''v2'' ''{}'' demo_admin_db = (Inr d1, out)"
    using demo_transaction by blast
  obtain r2 d2 o2 where 2: "recalculate_all_alignments demo_crypto demo_unicode demo_vrp_json demo_fed_json (\<lambda>_. None) (Some 7)
      no_faults no_faults 7 (Some ?new) 1 d1 = (r2, d2, o2)"
    by (rule prod_cases3)
  have m: "can_moderate (pf_capabilities demo_moderator)" "pf_pseudonym_id demo_moderator = ''p''"
    by (simp_all add: demo_moderator_def demo_visitor_def)
  have r: "update_policy_handler demo_crypto demo_unicode demo_vrp_json demo_fed_json (\<lambda>_. Some ''{}'') (\<lambda>_. None) (Some 7)
      no_faults no_faults no_faults 7 ''v2'' 1 demo_moderator ?new default_policy demo_admin_db
      = (map_sum id (\<lambda>_. ''v2'') r2, ?new, d2, out # o2)"
    unfolding update_policy_handler_def require_moderator_def m
    by (cases r2) (simp_all add: t 2 m)
  have "?new \<noteq> default_policy" by (simp add: default_policy_def)
  from policy_update_durable [OF r] have "policy_stored 1 ''v2'' ''{}'' d2"
  proof (elim disjE conjE exE)
    fix json assume "Some ''{}'' = Some json" "policy_stored 1 ''v2'' json d2"
    then show ?thesis by simp
  qed (use \<open>?new \<noteq> default_policy\<close> in simp_all)
  with r show ?thesis by (intro exI conjI)
qed

end
