(* ===== verification/Annex_Public.thy ===== *)
theory Annex_Public
  imports Annex_Agents Annex_RateLimit
begin

text \<open>
  What the server shows to everybody and does by itself: the graph handlers
  (\<open>annex-server/src/api_graph.rs\<close>), the public event log, its live streams and the summaries
  (\<open>api_observe.rs\<close>, \<open>api_sse.rs\<close>) and the background tasks (\<open>background.rs\<close>). \<open>flt n\<close> makes
  the \<open>n\<close>-th database call fail. A stream is the list of what its broadcast receiver yields:
  events, and notices that some were lost. A round of a task is one pass of its loop; the
  sleep between two rounds shows as the time of the next one.
\<close>

section \<open>The graph (api_graph.rs)\<close>

definition MAX_BFS_DEPTH :: u32 where
  "MAX_BFS_DEPTH = 10"

record GetDegreesParams =
  gd_from :: string
  gd_to :: string
  gd_max_depth :: u32

datatype GraphApiError = GraphBadRequest string | GraphNotFound string | GraphInternal

fun graph_api_status :: "GraphApiError \<Rightarrow> nat" where
  "graph_api_status (GraphBadRequest _) = 400"
| "graph_api_status (GraphNotFound _) = 404"
| "graph_api_status GraphInternal = 500"

definition graph_call :: "faults \<Rightarrow> nat \<Rightarrow> GraphApiError + unit" where
  "graph_call flt n = (if flt n then Inl GraphInternal else Inr ())"

definition get_degrees_handler :: "faults \<Rightarrow> int \<Rightarrow> GetDegreesParams \<Rightarrow> db \<Rightarrow> GraphApiError + BfsPath" where
  "get_degrees_handler flt s params d =
     (if MAX_BFS_DEPTH < gd_max_depth params
      then Inl (GraphBadRequest (''max_depth must be <= '' @ decimal (unat MAX_BFS_DEPTH) @ '', got ''
             @ decimal (unat (gd_max_depth params))))
      else and_then (graph_call flt 0) (\<lambda>_. and_then (graph_call flt 1) (\<lambda>_.
             Inr (find_path_bfs d s (gd_from params) (gd_to params) (gd_max_depth params)))))"

fun profile_error :: "GraphError \<Rightarrow> GraphApiError" where
  "profile_error (NodeNotFound p) = GraphNotFound (''node not found: '' @ p)"
| "profile_error _ = GraphInternal"

definition get_profile_handler :: "faults \<Rightarrow> int \<Rightarrow> PlatformIdentity \<Rightarrow> string \<Rightarrow> db \<Rightarrow> GraphApiError + GraphProfile" where
  "get_profile_handler flt s identity target d =
     and_then (graph_call flt 0) (\<lambda>_. and_then (graph_call flt 1) (\<lambda>_.
       map_err profile_error (get_visible_profile d s (pf_pseudonym_id identity) target)))"

section \<open>The event log (api_observe.rs)\<close>

record EventsQuery =
  eq_domain :: "string option"
  eq_event_type :: "string option"
  eq_entity_type :: "string option"
  eq_entity_id :: "string option"
  eq_since :: "string option"
  eq_limit :: "int option"

record EventsResponse =
  er_events :: "PublicEvent list"
  er_count :: nat

definition events_limit :: "int option \<Rightarrow> int" where
  "events_limit limit = max 1 (min 1000 (case limit of Some n \<Rightarrow> n | None \<Rightarrow> 100))"

definition query_domain :: "string option \<Rightarrow> ApiError + EventDomain option" where
  "query_domain d =
     (case d of
        None \<Rightarrow> Inr None
      | Some t \<Rightarrow> map_sum (\<lambda>_. BadRequest (''invalid domain: '' @ t
            @ ''. Expected one of: IDENTITY, PRESENCE, FEDERATION, AGENT, MODERATION'')) Some (domain_from_str t))"

definition get_events_handler ::
  "(time \<Rightarrow> string) \<Rightarrow> faults \<Rightarrow> int \<Rightarrow> EventsQuery \<Rightarrow> db \<Rightarrow> ApiError + EventsResponse" where
  "get_events_handler fmt flt s q d =
     and_then (query_domain (eq_domain q)) (\<lambda>dmn.
     and_then (db_call flt 0) (\<lambda>_. and_then (db_call flt 1) (\<lambda>_.
       let events = query_events fmt d s \<lparr>ef_domain = dmn, ef_event_type = eq_event_type q, ef_entity_type = eq_entity_type q,
             ef_entity_id = eq_entity_id q, ef_since = eq_since q, ef_limit = Some (events_limit (eq_limit q))\<rparr>
       in Inr \<lparr>er_events = events, er_count = length events\<rparr>)))"

section \<open>Live streams (api_observe.rs, api_sse.rs)\<close>

datatype 'e received = Received 'e | Lagged u64

text \<open>A line of data, or the sentinel event with the number of missed events.\<close>

datatype sse_event = SseData string | SseLagged u64

fun stream_item :: "('e \<Rightarrow> string option) \<Rightarrow> ('e \<Rightarrow> bool) \<Rightarrow> 'e received \<Rightarrow> sse_event option" where
  "stream_item to_json passes (Received event) = (if passes event then map_option SseData (to_json event) else None)"
| "stream_item to_json passes (Lagged n) = Some (SseLagged n)"

definition stream_domain :: "string option \<Rightarrow> EventDomain option" where
  "stream_domain param = (case param of None \<Rightarrow> None | Some t \<Rightarrow> parse_domain t)"

definition passes_domain :: "EventDomain option \<Rightarrow> PublicEvent \<Rightarrow> bool" where
  "passes_domain f event = (case f of None \<Rightarrow> True | Some dmn \<Rightarrow> pe_domain event = as_str dmn)"

definition get_event_stream_handler ::
  "(PublicEvent \<Rightarrow> string option) \<Rightarrow> string option \<Rightarrow> PublicEvent received list \<Rightarrow> sse_event list" where
  "get_event_stream_handler to_json param items = List.map_filter (stream_item to_json (passes_domain (stream_domain param))) items"

definition get_presence_stream_handler ::
  "(PresenceEvent \<Rightarrow> string option) \<Rightarrow> PresenceEvent received list \<Rightarrow> sse_event list" where
  "get_presence_stream_handler to_json items = List.map_filter (stream_item to_json (\<lambda>_. True)) items"

section \<open>Summaries (api_observe.rs)\<close>

record ServerSummaryResponse =
  ss_slug :: string
  ss_label :: string
  ss_public_url :: string
  ss_members_by_type :: "(string \<times> nat) list"
  ss_total_active_members :: nat
  ss_channel_count :: nat
  ss_federation_peer_count :: nat
  ss_active_agent_count :: nat

definition active_nodes :: "int \<Rightarrow> db \<Rightarrow> node_row list" where
  "active_nodes s d = filter (\<lambda>r. gn_server r = s \<and> gn_active r) (node_rows d)"

text \<open>\<open>GROUP BY node_type\<close>: each type once, in order.\<close>

definition members_by_type :: "int \<Rightarrow> db \<Rightarrow> (string \<times> nat) list" where
  "members_by_type s d = map (\<lambda>ty. (ty, count_where (\<lambda>r. gn_type r = ty) (active_nodes s d)))
     (sort (remdups (map gn_type (active_nodes s d))))"

definition get_server_summary_handler :: "faults \<Rightarrow> int \<Rightarrow> string \<Rightarrow> db \<Rightarrow> ApiError + ServerSummaryResponse" where
  "get_server_summary_handler flt s url d =
     and_then (db_call flt 0) (\<lambda>_. and_then (db_call flt 1) (\<lambda>_.
     and_then (ok_or (first_where (\<lambda>r. sv_id r = s) (servers d)) InternalServerError) (\<lambda>r.
     and_then (db_call flt 2) (\<lambda>_. and_then (db_call flt 3) (\<lambda>_. and_then (db_call flt 4) (\<lambda>_. and_then (db_call flt 5) (\<lambda>_.
       Inr \<lparr>ss_slug = sv_slug r, ss_label = sv_label r, ss_public_url = url, ss_members_by_type = members_by_type s d,
            ss_total_active_members = sum_list (map snd (members_by_type s d)),
            ss_channel_count = count_where (\<lambda>r. ch_server r = s) (auto_rows (channels d)),
            ss_federation_peer_count = count_where (\<lambda>a. ag_server a = s \<and> ag_active a) (auto_rows (federation_agreements d)),
            ss_active_agent_count = count_where (\<lambda>a. ar_server a = s \<and> ar_active a) (agent_rows d)\<rparr>)))))))"

record FederationPeerEntry =
  fp_base_url :: string
  fp_label :: string
  fp_alignment_status :: string
  fp_transfer_scope :: string
  fp_active :: bool

record FederationPeersResponse =
  fr_peers :: "FederationPeerEntry list"
  fr_count :: nat

definition joined_peers :: "int \<Rightarrow> db \<Rightarrow> (agreement_row \<times> instance_row) list" where
  "joined_peers s d = filter (\<lambda>(a, i). ag_server a = s) (active_peers d)"

definition get_federation_peers_handler :: "faults \<Rightarrow> int \<Rightarrow> db \<Rightarrow> ApiError + FederationPeersResponse" where
  "get_federation_peers_handler flt s d =
     and_then (db_call flt 0) (\<lambda>_. and_then (db_call flt 1) (\<lambda>_.
       let peers = map (\<lambda>(a, i). \<lparr>fp_base_url = in_base_url i, fp_label = in_label i, fp_alignment_status = ag_alignment a,
             fp_transfer_scope = ag_scope a, fp_active = ag_active a\<rparr>) (order_by (in_label \<circ> snd) (joined_peers s d))
       in Inr \<lparr>fr_peers = peers, fr_count = length peers\<rparr>))"

text \<open>A contract that does not parse as JSON is shown as the stored text.\<close>

datatype 'j contract_value = ContractJson 'j | ContractText string

record 'j AgentEntry =
  ae_pseudonym_id :: string
  ae_alignment_status :: string
  ae_transfer_scope :: string
  ae_capability_contract :: "'j contract_value"
  ae_reputation_score :: rat

record 'j AgentsResponse =
  as_agents :: "'j AgentEntry list"
  as_count :: nat

definition shown_contract :: "(string \<Rightarrow> 'j option) \<Rightarrow> string \<Rightarrow> 'j contract_value" where
  "shown_contract from_json t = (case from_json t of Some j \<Rightarrow> ContractJson j | None \<Rightarrow> ContractText t)"

definition get_agents_handler :: "(string \<Rightarrow> 'j option) \<Rightarrow> faults \<Rightarrow> int \<Rightarrow> db \<Rightarrow> ApiError + 'j AgentsResponse" where
  "get_agents_handler from_json flt s d =
     and_then (db_call flt 0) (\<lambda>_. and_then (db_call flt 1) (\<lambda>_.
       let agents = map (\<lambda>r. \<lparr>ae_pseudonym_id = ar_pseudonym r, ae_alignment_status = ar_alignment r,
             ae_transfer_scope = ar_scope r, ae_capability_contract = shown_contract from_json (ar_contract r),
             ae_reputation_score = ar_reputation r\<rparr>)
           (sql_limit 1000 (order_by_desc ar_reputation (active_agents d s)))
       in Inr \<lparr>as_agents = agents, as_count = length agents\<rparr>))"

section \<open>Background tasks (background.rs)\<close>

text \<open>The seconds between two rounds of pruning; a threshold of zero disables the task.\<close>

definition pruning_interval :: "u64 \<Rightarrow> nat option" where
  "pruning_interval threshold = (if threshold = 0 then None else Some (max 1 (min 60 (unat threshold div 2))))"

fun log_pruned ::
  "(EventPayload \<Rightarrow> string option) \<Rightarrow> faults \<Rightarrow> time \<Rightarrow> int \<Rightarrow> string list \<Rightarrow> nat \<Rightarrow> db \<Rightarrow> sent \<Rightarrow> db \<times> sent" where
  "log_pruned js flt now s [] k d out = (d, out)"
| "log_pruned js flt now s (p # ps) k d out =
     (let (d1, event) = emit_and_broadcast js (\<lambda>i. flt (k + i)) now d s p (EventPayload.NodePruned p)
      in log_pruned js flt now s ps (Suc k) d1 (observed event out))"

definition prune_round ::
  "(EventPayload \<Rightarrow> string option) \<Rightarrow> int \<Rightarrow> u64 \<Rightarrow> faults \<Rightarrow> time \<Rightarrow> db \<Rightarrow> db \<times> sent" where
  "prune_round js s threshold flt now d =
     (if flt 0 \<or> flt 1 then (d, nothing_sent)
      else case prune_inactive_nodes now d s threshold of
             (Inl _, d') \<Rightarrow> (d', nothing_sent)
           | (Inr pruned, d') \<Rightarrow>
               let (d'', out) = log_pruned js (\<lambda>i. flt (2 + i)) now s pruned 0 d' nothing_sent
               in (d'', out\<lparr>presence_sent := presence_sent out @ map PresenceEvent.NodePruned pruned\<rparr>))"

text \<open>The database after the rounds, each with its faults and its time.\<close>

definition start_pruning_task ::
  "(EventPayload \<Rightarrow> string option) \<Rightarrow> int \<Rightarrow> u64 \<Rightarrow> (faults \<times> time) list \<Rightarrow> db \<Rightarrow> db" where
  "start_pruning_task js s threshold rounds d =
     (case pruning_interval threshold of
        None \<Rightarrow> d
      | Some _ \<Rightarrow> fold (\<lambda>(flt, now) d. fst (prune_round js s threshold flt now d)) rounds d)"

text \<open>The times, in seconds, at which the rounds of the limiter's task happen.\<close>

definition start_rate_limit_cleanup_task :: "nat \<Rightarrow> nat \<Rightarrow> rate_limiter \<Rightarrow> rate_limiter" where
  "start_rate_limit_cleanup_task start rounds state =
     fold (\<lambda>k st. cleanup_expired ((start + 120 * k) * 10 ^ 9) st) [1..<Suc rounds] state"

section \<open>Facts\<close>

lemma log_pruned_frame:
  "log_pruned js flt now s ps k d out = (d', out') \<Longrightarrow> graph_nodes d' = graph_nodes d \<and> presence_sent out' = presence_sent out"
proof (induction ps arbitrary: k d out)
  case (Cons p ps)
  obtain d1 e where e: "emit_and_broadcast js (\<lambda>i. flt (k + i)) now d s p (EventPayload.NodePruned p) = (d1, e)" by fastforce
  have "graph_nodes (fst (emit_and_broadcast js (\<lambda>i. flt (k + i)) now d s p (EventPayload.NodePruned p))) = graph_nodes d"
    by (simp add: emit_and_broadcast_def emit_event_def Let_def split: option.split sum.split)
  then have "graph_nodes d1 = graph_nodes d" by (simp add: e)
  then show ?case using Cons.prems Cons.IH [of "Suc k" d1] by (simp add: e observed_def)
qed simp

definition long_unseen :: "time \<Rightarrow> u64 \<Rightarrow> node_row \<Rightarrow> bool" where
  "long_unseen now threshold r \<longleftrightarrow> null_less (gn_last_seen r) (sqlite_datetime now (- int (unat threshold)))"

lemma prune_round_nodes:
  assumes "\<not> flt 0" "\<not> flt 1" "unat threshold < 2 ^ 63" and "prune_round js s threshold flt now d = (d', out)"
  shows "presence_sent out = map (\<lambda>r. PresenceEvent.NodePruned (gn_pseudonym r))
      (filter (\<lambda>r. long_unseen now threshold r) (active_nodes s d))
    \<and> node_rows d' = map (\<lambda>r. if gn_server r = s \<and> long_unseen now threshold r then r\<lparr>gn_active := False\<rparr> else r) (node_rows d)"
proof -
  let ?p = "\<lambda>r. gn_server r = s \<and> gn_active r \<and> null_less (gn_last_seen r) (sqlite_datetime now (- int (unat threshold)))"
  let ?d = "d\<lparr>graph_nodes := auto_update ?p (\<lambda>r. r\<lparr>gn_active := False\<rparr>) (graph_nodes d)\<rparr>"
  let ?names = "map gn_pseudonym (filter ?p (node_rows d))"
  have pr: "prune_inactive_nodes now d s threshold = (Inr ?names, ?d)"
    using assms(3) by (simp add: prune_inactive_nodes_def Let_def)
  have np: "\<not> (flt 0 \<or> flt 1)" using assms(1,2) by simp
  obtain d2 o2 where l: "log_pruned js (\<lambda>i. flt (2 + i)) now s ?names 0 ?d nothing_sent = (d2, o2)" by fastforce
  have e: "d' = d2" "out = o2\<lparr>presence_sent := presence_sent o2 @ map PresenceEvent.NodePruned ?names\<rparr>"
    using assms(4) unfolding prune_round_def if_not_P [OF np] pr sum.case prod.case Let_def l by simp_all
  have f: "graph_nodes d2 = graph_nodes ?d" "presence_sent o2 = []"
    using log_pruned_frame [OF l] by (simp_all add: nothing_sent_def)
  have g: "filter ?p (node_rows d) = filter (\<lambda>r. long_unseen now threshold r) (active_nodes s d)"
    by (simp add: active_nodes_def long_unseen_def conj_ac)
  have "update_where ?p (\<lambda>r. r\<lparr>gn_active := False\<rparr>) (node_rows d)
      = map (\<lambda>r. if gn_server r = s \<and> long_unseen now threshold r then r\<lparr>gn_active := False\<rparr> else r) (node_rows d)"
    unfolding update_where_def
  proof (rule map_cong [OF refl])
    fix r :: node_row
    show "(if ?p r then r\<lparr>gn_active := False\<rparr> else r) = (if gn_server r = s \<and> long_unseen now threshold r then r\<lparr>gn_active := False\<rparr> else r)"
      by (cases "gn_active r") (simp_all add: long_unseen_def)
  qed
  then show ?thesis using f(1) by (simp add: e f(2) g [symmetric] comp_def)
qed

text \<open>
  C18. Whatever rounds of pruning went before, with whatever failures of the database: after a round
  whose database calls succeed, no node of the server is active that was last seen more than the
  threshold ago, and the presence stream has been told of exactly the nodes that this round
  deactivated, each once and in their order in the table; the nodes of other servers, and the nodes
  seen since, are as before the round. A threshold of zero turns the task off.
\<close>

theorem pruning_catches_up:
  assumes "\<not> flt 0" "\<not> flt 1" "unat threshold < 2 ^ 63" "0 < threshold"
    and "prune_round js s threshold flt now (start_pruning_task js s threshold rounds d) = (d', out)"
  shows "start_pruning_task js s threshold (rounds @ [(flt, now)]) d = d'
    \<and> filter (long_unseen now threshold) (active_nodes s d') = []
    \<and> presence_sent out = map (\<lambda>r. PresenceEvent.NodePruned (gn_pseudonym r))
        (filter (long_unseen now threshold) (active_nodes s (start_pruning_task js s threshold rounds d)))
    \<and> filter (\<lambda>r. gn_server r \<noteq> s \<or> \<not> long_unseen now threshold r) (node_rows d')
        = filter (\<lambda>r. gn_server r \<noteq> s \<or> \<not> long_unseen now threshold r) (node_rows (start_pruning_task js s threshold rounds d))"
proof -
  note n = prune_round_nodes [OF assms(1-3,5)]
  let ?f = "\<lambda>r :: node_row. if gn_server r = s \<and> long_unseen now threshold r then r\<lparr>gn_active := False\<rparr> else r"
  have st: "long_unseen now threshold (?f r) = long_unseen now threshold r" "gn_server (?f r) = gn_server r" for r
    by (simp_all add: long_unseen_def)
  have "\<not> (long_unseen now threshold (?f r) \<and> gn_server (?f r) = s \<and> gn_active (?f r))" for r
    by (simp add: long_unseen_def)
  then have none: "filter (long_unseen now threshold) (filter (\<lambda>r. gn_server r = s \<and> gn_active r) (map ?f rs)) = []" for rs
    unfolding filter_empty_conv set_filter set_map by blast
  have "pruning_interval threshold \<noteq> None" using assms(4) by (simp add: pruning_interval_def word_gt_0)
  then have "start_pruning_task js s threshold (rounds @ [(flt, now)]) d = d'"
    using assms(5) by (auto simp: start_pruning_task_def)
  moreover have "filter (long_unseen now threshold) (active_nodes s d') = []"
    unfolding active_nodes_def conjunct2 [OF n] by (rule none)
  moreover have "filter (\<lambda>r. gn_server r \<noteq> s \<or> \<not> long_unseen now threshold r) (map ?f rs)
      = filter (\<lambda>r. gn_server r \<noteq> s \<or> \<not> long_unseen now threshold r) rs" for rs
    by (induction rs) (simp_all add: long_unseen_def)
  ultimately show ?thesis using n by simp
qed

theorem pruning_catches_up_witness:
  "\<exists>d' out. prune_round (\<lambda>_. None) 1 85 no_faults 100
      (start_pruning_task (\<lambda>_. None) 1 85 [(\<lambda>_. True, 90)] demo_graph) = (d', out)
    \<and> filter (long_unseen 100 85) (active_nodes 1 d') = [] \<and> presence_sent out = [PresenceEvent.NodePruned ''a'']"
proof -
  obtain d' out where r: "prune_round (\<lambda>_. None) 1 85 no_faults 100
      (start_pruning_task (\<lambda>_. None) 1 85 [(\<lambda>_. True, 90)] demo_graph) = (d', out)" by fastforce
  have t: "start_pruning_task (\<lambda>_. None) 1 85 [(\<lambda>_. True, 90)] demo_graph = demo_graph"
    by (simp add: start_pruning_task_def pruning_interval_def prune_round_def)
  have "map (\<lambda>r. PresenceEvent.NodePruned (gn_pseudonym r)) (filter (long_unseen 100 85) (active_nodes 1 demo_graph))
      = [PresenceEvent.NodePruned ''a'']"
    by (simp add: active_nodes_def demo_graph_nodes long_unseen_def sqlite_datetime_def)
  then have "filter (long_unseen 100 85) (active_nodes 1 d') = [] \<and> presence_sent out = [PresenceEvent.NodePruned ''a'']"
    using pruning_catches_up [OF _ _ _ _ r] by (simp add: t no_faults_def)
  with r show ?thesis by (intro exI conjI) auto
qed

definition of_domain :: "EventDomain \<Rightarrow> PublicEvent received \<Rightarrow> bool" where
  "of_domain dmn item = (case item of Received e \<Rightarrow> pe_domain e = as_str dmn | Lagged n \<Rightarrow> True)"

lemma stream_domain_simps [simp]:
  "stream_domain None = None" "stream_domain (Some (as_str dmn)) = Some dmn"
  by (simp_all add: stream_domain_def parse_domain_def domain_from_str_def split: EventDomain.splits) (cases dmn; simp)+

text \<open>
  A live stream with a domain is the stream without one, less the events of the other domains:
  in the same order, and with every notice of lost events, which no filter drops. A domain that is
  not known is not refused, as the query of the log does, but filters nothing.
\<close>

theorem event_stream_filtered:
  "get_event_stream_handler to_json (Some (as_str dmn)) items
     = get_event_stream_handler to_json None (filter (of_domain dmn) items)
   \<and> length (filter (\<lambda>x. \<exists>n. x = SseLagged n) (get_event_stream_handler to_json param items))
     = length (filter (\<lambda>x. \<exists>n. x = Lagged n) items)
   \<and> get_event_stream_handler to_json (Some ''unknown'') items = get_event_stream_handler to_json None items"
proof -
  have "List.map_filter (stream_item to_json (passes_domain (Some dmn))) items
      = List.map_filter (stream_item to_json (passes_domain None)) (filter (of_domain dmn) items)"
  proof (induction items)
    case (Cons item items)
    then show ?case by (cases item) (simp_all add: passes_domain_def of_domain_def split: option.split)
  qed simp
  moreover have "length (filter (\<lambda>x. \<exists>n. x = SseLagged n) (List.map_filter (stream_item to_json f) items))
      = length (filter (\<lambda>x. \<exists>n. x = Lagged n) items)" for f
  proof (induction items)
    case (Cons item items)
    then show ?case by (cases item) (auto split: option.split)
  qed simp
  moreover have "stream_domain (Some ''unknown'') = None"
    by (simp add: stream_domain_def parse_domain_def domain_from_str_def)
  ultimately show ?thesis by (simp add: get_event_stream_handler_def)
qed

lemma count_partition:
  "distinct ts \<Longrightarrow> set (map g rs) \<subseteq> set ts \<Longrightarrow> sum_list (map (\<lambda>t. count_where (\<lambda>r. g r = t) rs) ts) = length rs"
proof (induction rs)
  case (Cons r rs)
  have "sum_list (map (\<lambda>t. count_where (\<lambda>r. g r = t) (r # rs)) ts)
      = sum_list (map (\<lambda>t. (if g r = t then 1 else 0) + count_where (\<lambda>r. g r = t) rs) ts)"
    by (rule arg_cong [where f = sum_list], rule map_cong) (simp_all add: count_where_def)
  also have "\<dots> = sum_list (map (\<lambda>t. if g r = t then 1 else 0) ts) + length rs"
    using Cons by (simp add: sum_list_addf)
  also have "sum_list (map (\<lambda>t. if g r = t then 1 else 0) ts) = (1 :: nat)"
    using Cons.prems by (simp add: sum_list_distinct_conv_sum_set)
  finally show ?case by simp
qed (simp add: count_where_def)

lemma count_group_pos:
  "(k, n) \<in> set (map (\<lambda>t. (t, count_where (\<lambda>r. g r = t) rs)) (sort (remdups (map g rs)))) \<Longrightarrow> 0 < n"
  by (auto simp: count_where_pos)

text \<open>
  The total of the summary, which the code adds up over the types, is the number of active nodes of
  the server: no type is listed twice, and none without a node.
\<close>

theorem summary_counts_members:
  assumes "get_server_summary_handler flt s url d = Inr r"
  shows "ss_total_active_members r = length (filter (\<lambda>n. gn_server n = s \<and> gn_active n) (node_rows d))
    \<and> distinct (map fst (ss_members_by_type r)) \<and> (\<forall>(ty, n) \<in> set (ss_members_by_type r). 0 < n)"
proof -
  have e: "ss_members_by_type r = members_by_type s d" "ss_total_active_members r = sum_list (map snd (members_by_type s d))"
    using assms unfolding get_server_summary_handler_def db_call_def
    by (cases "first_where (\<lambda>r. sv_id r = s) (servers d)"; simp split: if_splits; clarsimp)+
  have "sum_list (map snd (members_by_type s d)) = length (active_nodes s d)"
    using count_partition [of "sort (remdups (map gn_type (active_nodes s d)))" gn_type "active_nodes s d"]
    by (simp add: members_by_type_def comp_def)
  moreover have "0 < n" if "(ty, n) \<in> set (members_by_type s d)" for ty n
    using that unfolding members_by_type_def by (rule count_group_pos)
  moreover have "distinct (map fst (members_by_type s d))" by (simp add: members_by_type_def comp_def)
  ultimately show ?thesis by (auto simp: e active_nodes_def)
qed

definition demo_served :: db where
  "demo_served = demo_graph\<lparr>servers := [\<lparr>sv_id = 1, sv_slug = ''s'', sv_label = ''S'', sv_policy_json = []\<rparr>]\<rparr>"

theorem summary_counts_members_witness:
  "\<exists>r. get_server_summary_handler no_faults 1 ''http://s'' demo_served = Inr r
     \<and> ss_total_active_members r = length (active_nodes 1 demo_graph)"
proof -
  obtain r where r: "get_server_summary_handler no_faults 1 ''http://s'' demo_served = Inr r"
    by (simp add: get_server_summary_handler_def demo_served_def)
  then show ?thesis using summary_counts_members [OF r] by (simp add: active_nodes_def demo_served_def)
qed

end
