(* ===== verification/Annex_Config.thy ===== *)
theory Annex_Config
  imports Annex_Connections Annex_RateLimit Annex_Voice
begin

text \<open>
  The configuration (\<open>annex-server/src/config.rs\<close>) and what the binary does with the command
  line and the environment (\<open>main.rs\<close>). The environment is a function from the name of a
  variable to its state, the file is what reading it gives, and the TOML reader is an argument.
  The explanations that the errors carry are left out; \<open>usize\<close> has 64 bits.
\<close>

section \<open>The configuration\<close>

record ServerConfig =
  cs_host :: IpAddr
  cs_port :: "16 word"
  cs_retention_check_interval_seconds :: u64
  cs_inactivity_threshold_seconds :: u64
  cs_public_url :: string
  cs_merkle_tree_depth :: u64
  cs_presence_broadcast_capacity :: u64

record DatabaseConfig =
  cd_path :: string
  cd_busy_timeout_ms :: u64
  cd_pool_max_size :: u32

record LoggingConfig =
  cl_level :: string
  cl_json :: bool

record VoicePathsConfig =
  cv_tts_voices_dir :: string
  cv_tts_binary_path :: string
  cv_stt_model_path :: string
  cv_stt_binary_path :: string
  cv_bark_binary_path :: string

record CorsConfig =
  co_allowed_origins :: "string list"

record SecurityConfig =
  cy_enforce_zk_proofs :: bool

record Config =
  cf_server :: ServerConfig
  cf_database :: DatabaseConfig
  cf_logging :: LoggingConfig
  cf_livekit :: LiveKitConfig
  cf_voice :: VoicePathsConfig
  cf_cors :: CorsConfig
  cf_security :: SecurityConfig

definition default_server_config :: ServerConfig where
  "default_server_config = \<lparr>cs_host = V4 (ipv4_of 127 0 0 1), cs_port = 3000, cs_retention_check_interval_seconds = 3600,
     cs_inactivity_threshold_seconds = 300, cs_public_url = [], cs_merkle_tree_depth = 20,
     cs_presence_broadcast_capacity = 256\<rparr>"

definition default_database_config :: DatabaseConfig where
  "default_database_config = \<lparr>cd_path = ''annex.db'', cd_busy_timeout_ms = 5000, cd_pool_max_size = 8\<rparr>"

definition default_voice_paths :: VoicePathsConfig where
  "default_voice_paths = \<lparr>cv_tts_voices_dir = ''assets/voices'', cv_tts_binary_path = ''assets/piper/piper'',
     cv_stt_model_path = ''assets/models/ggml-base.en.bin'', cv_stt_binary_path = ''assets/whisper/whisper'',
     cv_bark_binary_path = ''assets/bark/bark_tts.py''\<rparr>"

definition default_config :: Config where
  "default_config = \<lparr>cf_server = default_server_config, cf_database = default_database_config,
     cf_logging = \<lparr>cl_level = ''info'', cl_json = False\<rparr>, cf_livekit = default_livekit_config, cf_voice = default_voice_paths,
     cf_cors = \<lparr>co_allowed_origins = []\<rparr>, cf_security = \<lparr>cy_enforce_zk_proofs = False\<rparr>\<rparr>"

datatype ConfigError = FileRead | ConfigParse | InvalidEnvVar string | InvalidValue string

section \<open>Validation\<close>

definition in_range :: "u64 \<Rightarrow> u64 \<Rightarrow> u64 \<Rightarrow> bool" where
  "in_range lo hi x \<longleftrightarrow> lo \<le> x \<and> x \<le> hi"

definition validate_config :: "Config \<Rightarrow> ConfigError + unit" where
  "validate_config c =
     (if \<not> in_range 1 60000 (cd_busy_timeout_ms (cf_database c)) then Inl (InvalidValue ''database.busy_timeout_ms'')
      else if \<not> (1 \<le> cd_pool_max_size (cf_database c) \<and> cd_pool_max_size (cf_database c) \<le> 64)
      then Inl (InvalidValue ''database.pool_max_size'')
      else if cs_retention_check_interval_seconds (cf_server c) < 1
      then Inl (InvalidValue ''server.retention_check_interval_seconds'')
      else if \<not> in_range 1 30 (cs_merkle_tree_depth (cf_server c)) then Inl (InvalidValue ''server.merkle_tree_depth'')
      else if \<not> in_range 16 10000 (cs_presence_broadcast_capacity (cf_server c))
      then Inl (InvalidValue ''server.presence_broadcast_capacity'')
      else Inr ())"

section \<open>The environment\<close>

datatype env_value = NotPresent | NotUnicode | Set string

type_synonym env = "string \<Rightarrow> env_value"

definition parse_env_var :: "env \<Rightarrow> string \<Rightarrow> (string \<Rightarrow> 'a option) \<Rightarrow> ConfigError + 'a option" where
  "parse_env_var env name parse =
     (case env name of
        Set raw \<Rightarrow> (case parse raw of Some v \<Rightarrow> Inr (Some v) | None \<Rightarrow> Inl (InvalidEnvVar name))
      | NotPresent \<Rightarrow> Inr None
      | NotUnicode \<Rightarrow> Inl (InvalidEnvVar name))"

definition parse_bool_text :: "string \<Rightarrow> bool option" where
  "parse_bool_text raw =
     (let normalized = to_ascii_lowercase (trim raw) in
      if normalized \<in> {''1'', ''true'', ''yes'', ''on''} then Some True
      else if normalized \<in> {''0'', ''false'', ''no'', ''off''} then Some False
      else None)"

definition parse_env_bool :: "env \<Rightarrow> string \<Rightarrow> ConfigError + bool option" where
  "parse_env_bool env name = parse_env_var env name parse_bool_text"

text \<open>\<open>FromStr\<close> of the unsigned integers.\<close>

definition parse_unsigned :: "string \<Rightarrow> 'w::len word option" where
  "parse_unsigned s =
     (let ds = (if s \<noteq> [] \<and> hd s = CHR ''+'' then tl s else s)
      in if ds = [] \<or> \<not> list_all digit_char ds \<or> 2 ^ LENGTH('w) \<le> digits_nat ds then None
         else Some (of_nat (digits_nat ds)))"

text \<open>An override: a variable that is set and readable changes one field.\<close>

definition override_with :: "(Config \<Rightarrow> 'a \<Rightarrow> Config) \<Rightarrow> ConfigError + 'a option \<Rightarrow> Config \<Rightarrow> ConfigError + Config" where
  "override_with put r c = map_sum id (\<lambda>v. case v of None \<Rightarrow> c | Some x \<Rightarrow> put c x) r"

definition text_override :: "env \<Rightarrow> string \<Rightarrow> (Config \<Rightarrow> string \<Rightarrow> Config) \<Rightarrow> Config \<Rightarrow> ConfigError + Config" where
  "text_override env name put = override_with put (parse_env_var env name Some)"

definition server_overrides :: "env \<Rightarrow> (Config \<Rightarrow> ConfigError + Config) list" where
  "server_overrides env =
     [override_with (\<lambda>c v. c\<lparr>cf_server := (cf_server c)\<lparr>cs_host := v\<rparr>\<rparr>) (parse_env_var env ''ANNEX_HOST'' parse_ip_addr),
      override_with (\<lambda>c v. c\<lparr>cf_server := (cf_server c)\<lparr>cs_port := v\<rparr>\<rparr>) (parse_env_var env ''ANNEX_PORT'' parse_unsigned),
      override_with (\<lambda>c v. c\<lparr>cf_server := (cf_server c)\<lparr>cs_retention_check_interval_seconds := v\<rparr>\<rparr>)
        (parse_env_var env ''ANNEX_RETENTION_CHECK_INTERVAL_SECONDS'' parse_unsigned),
      override_with (\<lambda>c v. c\<lparr>cf_server := (cf_server c)\<lparr>cs_inactivity_threshold_seconds := v\<rparr>\<rparr>)
        (parse_env_var env ''ANNEX_INACTIVITY_THRESHOLD_SECONDS'' parse_unsigned),
      text_override env ''ANNEX_PUBLIC_URL'' (\<lambda>c v. c\<lparr>cf_server := (cf_server c)\<lparr>cs_public_url := v\<rparr>\<rparr>),
      override_with (\<lambda>c v. c\<lparr>cf_server := (cf_server c)\<lparr>cs_merkle_tree_depth := v\<rparr>\<rparr>)
        (parse_env_var env ''ANNEX_MERKLE_TREE_DEPTH'' parse_unsigned),
      override_with (\<lambda>c v. c\<lparr>cf_server := (cf_server c)\<lparr>cs_presence_broadcast_capacity := v\<rparr>\<rparr>)
        (parse_env_var env ''ANNEX_PRESENCE_BROADCAST_CAPACITY'' parse_unsigned)]"

definition database_overrides :: "env \<Rightarrow> (Config \<Rightarrow> ConfigError + Config) list" where
  "database_overrides env =
     [text_override env ''ANNEX_DB_PATH'' (\<lambda>c v. c\<lparr>cf_database := (cf_database c)\<lparr>cd_path := v\<rparr>\<rparr>),
      override_with (\<lambda>c v. c\<lparr>cf_database := (cf_database c)\<lparr>cd_busy_timeout_ms := v\<rparr>\<rparr>)
        (parse_env_var env ''ANNEX_DB_BUSY_TIMEOUT_MS'' parse_unsigned),
      override_with (\<lambda>c v. c\<lparr>cf_database := (cf_database c)\<lparr>cd_pool_max_size := v\<rparr>\<rparr>)
        (parse_env_var env ''ANNEX_DB_POOL_MAX_SIZE'' parse_unsigned),
      text_override env ''ANNEX_LOG_LEVEL'' (\<lambda>c v. c\<lparr>cf_logging := (cf_logging c)\<lparr>cl_level := v\<rparr>\<rparr>),
      override_with (\<lambda>c v. c\<lparr>cf_logging := (cf_logging c)\<lparr>cl_json := v\<rparr>\<rparr>) (parse_env_bool env ''ANNEX_LOG_JSON'')]"

definition voice_overrides :: "env \<Rightarrow> (Config \<Rightarrow> ConfigError + Config) list" where
  "voice_overrides env =
     [text_override env ''ANNEX_LIVEKIT_URL'' (\<lambda>c v. c\<lparr>cf_livekit := (cf_livekit c)\<lparr>lk_url := v\<rparr>\<rparr>),
      text_override env ''ANNEX_LIVEKIT_PUBLIC_URL'' (\<lambda>c v. c\<lparr>cf_livekit := (cf_livekit c)\<lparr>lk_public_url := v\<rparr>\<rparr>),
      text_override env ''ANNEX_LIVEKIT_API_KEY'' (\<lambda>c v. c\<lparr>cf_livekit := (cf_livekit c)\<lparr>lk_api_key := v\<rparr>\<rparr>),
      text_override env ''ANNEX_LIVEKIT_API_SECRET'' (\<lambda>c v. c\<lparr>cf_livekit := (cf_livekit c)\<lparr>lk_api_secret := v\<rparr>\<rparr>),
      text_override env ''ANNEX_TTS_VOICES_DIR'' (\<lambda>c v. c\<lparr>cf_voice := (cf_voice c)\<lparr>cv_tts_voices_dir := v\<rparr>\<rparr>),
      text_override env ''ANNEX_TTS_BINARY_PATH'' (\<lambda>c v. c\<lparr>cf_voice := (cf_voice c)\<lparr>cv_tts_binary_path := v\<rparr>\<rparr>),
      text_override env ''ANNEX_STT_MODEL_PATH'' (\<lambda>c v. c\<lparr>cf_voice := (cf_voice c)\<lparr>cv_stt_model_path := v\<rparr>\<rparr>),
      text_override env ''ANNEX_STT_BINARY_PATH'' (\<lambda>c v. c\<lparr>cf_voice := (cf_voice c)\<lparr>cv_stt_binary_path := v\<rparr>\<rparr>),
      text_override env ''ANNEX_BARK_BINARY_PATH'' (\<lambda>c v. c\<lparr>cf_voice := (cf_voice c)\<lparr>cv_bark_binary_path := v\<rparr>\<rparr>)]"

text \<open>\<open>str::split\<close> by one character\<close>

fun split_on :: "char \<Rightarrow> string \<Rightarrow> string list" where
  "split_on sep [] = [[]]"
| "split_on sep (c # cs) =
     (if c = sep then [] # split_on sep cs
      else case split_on sep cs of p # ps \<Rightarrow> (c # p) # ps | [] \<Rightarrow> [[c]])"

definition origins_of :: "string \<Rightarrow> string list" where
  "origins_of s = filter (\<lambda>o'. o' \<noteq> []) (map trim (split_on (CHR '','') s))"

text \<open>Only here a value that is not valid Unicode is passed over.\<close>

definition cors_override :: "env \<Rightarrow> Config \<Rightarrow> ConfigError + Config" where
  "cors_override env c =
     (case env ''ANNEX_CORS_ORIGINS'' of
        Set v \<Rightarrow> Inr (c\<lparr>cf_cors := (cf_cors c)\<lparr>co_allowed_origins := origins_of v\<rparr>\<rparr>)
      | _ \<Rightarrow> Inr c)"

definition env_overrides :: "env \<Rightarrow> (Config \<Rightarrow> ConfigError + Config) list" where
  "env_overrides env = server_overrides env @ database_overrides env @ voice_overrides env @
     [cors_override env,
      override_with (\<lambda>c v. c\<lparr>cf_security := (cf_security c)\<lparr>cy_enforce_zk_proofs := v\<rparr>\<rparr>)
        (parse_env_bool env ''ANNEX_ENFORCE_ZK_PROOFS'')]"

fun apply_overrides :: "(Config \<Rightarrow> ConfigError + Config) list \<Rightarrow> Config \<Rightarrow> ConfigError + Config" where
  "apply_overrides [] c = Inr c"
| "apply_overrides (f # fs) c = and_then (f c) (apply_overrides fs)"

section \<open>Loading\<close>

datatype file_read = Contents string | FileNotFound | FileError

definition backslash :: char where
  "backslash = CHR 0x5C"

text \<open>The text that is parsed, and the one to write back, if any.\<close>

definition sanitized :: "string \<Rightarrow> string \<times> string option" where
  "sanitized contents =
     (if contains contents [CHR '':'', backslash]
      then let fixed = map (\<lambda>c. if c = backslash then CHR ''/'' else c) contents in (fixed, Some fixed)
      else (contents, None))"

definition read_config_file :: "(string \<Rightarrow> Config option) \<Rightarrow> file_read \<Rightarrow> (ConfigError + Config) \<times> string option" where
  "read_config_file toml file =
     (case file of
        Contents contents \<Rightarrow> (let (text, rewrite) = sanitized contents in (ok_or (toml text) ConfigParse, rewrite))
      | FileNotFound \<Rightarrow> (Inr default_config, None)
      | FileError \<Rightarrow> (Inl FileRead, None))"

text \<open>The second component is what the file is overwritten with; a failure to write is only logged.\<close>

definition load_config ::
  "(string \<Rightarrow> Config option) \<Rightarrow> (string \<Rightarrow> file_read) \<Rightarrow> env \<Rightarrow> string option
     \<Rightarrow> (ConfigError + Config) \<times> (string \<times> string) option" where
  "load_config toml files env p =
     (let (base, rewrite) = (case p of Some f \<Rightarrow> read_config_file toml (files f) | None \<Rightarrow> (Inr default_config, None))
      in (and_then base (\<lambda>c. and_then (apply_overrides (env_overrides env) c) (\<lambda>c'. and_then (validate_config c') (\<lambda>_. Inr c'))),
          case (p, rewrite) of (Some f, Some t) \<Rightarrow> Some (f, t) | _ \<Rightarrow> None))"

section \<open>The binary (main.rs)\<close>

definition resolve_config_path :: "string list \<Rightarrow> env \<Rightarrow> string option \<times> string" where
  "resolve_config_path args env =
     (case (if 1 < length args then Some (args ! 1) else None) of
        Some p \<Rightarrow> if trim p \<noteq> [] then (Some p, ''cli-arg'')
                  else (case env ''ANNEX_CONFIG_PATH'' of
                          Set v \<Rightarrow> if trim v \<noteq> [] then (Some v, ''env-var'') else (None, ''default'')
                        | _ \<Rightarrow> (None, ''default''))
      | None \<Rightarrow> (case env ''ANNEX_CONFIG_PATH'' of
                   Set v \<Rightarrow> if trim v \<noteq> [] then (Some v, ''env-var'') else (None, ''default'')
                 | _ \<Rightarrow> (None, ''default'')))"

definition selected_config_path :: "string list \<Rightarrow> env \<Rightarrow> string option" where
  "selected_config_path args env = (case fst (resolve_config_path args env) of Some p \<Rightarrow> Some p | None \<Rightarrow> Some ''config.toml'')"

fun is_unspecified :: "IpAddr \<Rightarrow> bool" where
  "is_unspecified (V4 a) = v4_is_unspecified a"
| "is_unspecified (V6 a) = v6_is_unspecified a"

text \<open>The URL that is opened, if any; \<open>local_addr\<close> is absent when the listener has none.\<close>

definition maybe_open_browser ::
  "(IpAddr \<Rightarrow> string) \<Rightarrow> env \<Rightarrow> bool \<Rightarrow> SocketAddr option \<Rightarrow> string option" where
  "maybe_open_browser show_ip env dockerenv local_addr =
     (let env_val = to_ascii_lowercase (case env ''ANNEX_OPEN_BROWSER'' of Set v \<Rightarrow> v | _ \<Rightarrow> []);
          should_open = (if env_val \<in> {''true'', ''1'', ''yes''} then True
            else if env_val \<in> {''false'', ''0'', ''no''} then False else \<not> dockerenv)
      in if \<not> should_open then None
         else case local_addr of
                None \<Rightarrow> None
              | Some a \<Rightarrow>
                  let host = (if is_unspecified (sa_ip a) then V4 (ipv4_of 127 0 0 1) else sa_ip a)
                  in Some (''http://'' @ show_ip host @ '':'' @ decimal (unat (sa_port a))))"

section \<open>What a loaded configuration satisfies\<close>

definition config_valid :: "Config \<Rightarrow> bool" where
  "config_valid c \<longleftrightarrow>
     unat (cd_busy_timeout_ms (cf_database c)) \<in> {1..60000} \<and> unat (cd_pool_max_size (cf_database c)) \<in> {1..64}
     \<and> 0 < unat (cs_retention_check_interval_seconds (cf_server c)) \<and> unat (cs_merkle_tree_depth (cf_server c)) \<in> {1..30}
     \<and> unat (cs_presence_broadcast_capacity (cf_server c)) \<in> {16..10000}"

lemma refuse_Inr: "(if P then Inl e else r) = Inr u \<longleftrightarrow> \<not> P \<and> r = Inr u"
  by simp

lemma validate_config_valid: "validate_config c = Inr u \<longleftrightarrow> config_valid c"
proof -
  let ?d = "cf_database c" and ?s = "cf_server c"
  have r: "in_range lo hi x \<longleftrightarrow> unat x \<in> {unat lo..unat hi}" for lo hi x
    by (simp add: in_range_def word_le_nat_alt)
  have "validate_config c = Inr u \<longleftrightarrow> in_range 1 60000 (cd_busy_timeout_ms ?d)
      \<and> (1 \<le> cd_pool_max_size ?d \<and> cd_pool_max_size ?d \<le> 64) \<and> \<not> cs_retention_check_interval_seconds ?s < 1
      \<and> in_range 1 30 (cs_merkle_tree_depth ?s) \<and> in_range 16 10000 (cs_presence_broadcast_capacity ?s)"
    unfolding validate_config_def refuse_Inr by simp
  also have "(1 \<le> cd_pool_max_size ?d \<and> cd_pool_max_size ?d \<le> 64) \<longleftrightarrow> unat (cd_pool_max_size ?d) \<in> {1..64}"
    by (simp add: word_le_nat_alt)
  also have "\<not> cs_retention_check_interval_seconds ?s < 1 \<longleftrightarrow> 0 < unat (cs_retention_check_interval_seconds ?s)"
    by (simp add: word_less_nat_alt)
  finally show ?thesis unfolding r config_valid_def by simp
qed

lemma load_config_Inr:
  assumes "load_config toml files env p = (Inr c, w)"
  obtains c0 where "fst (case p of Some f \<Rightarrow> read_config_file toml (files f) | None \<Rightarrow> (Inr default_config, None)) = Inr c0"
    and "apply_overrides (env_overrides env) c0 = Inr c" and "config_valid c"
proof -
  obtain base rewrite where b: "(case p of Some f \<Rightarrow> read_config_file toml (files f) | None \<Rightarrow> (Inr default_config, None)) = (base, rewrite)"
    by fastforce
  have "and_then base (\<lambda>c. and_then (apply_overrides (env_overrides env) c) (\<lambda>c'. and_then (validate_config c') (\<lambda>_. Inr c'))) = Inr c"
    using assms unfolding load_config_def b by simp
  then obtain c0 where c0: "base = Inr c0"
    "and_then (apply_overrides (env_overrides env) c0) (\<lambda>c'. and_then (validate_config c') (\<lambda>_. Inr c')) = Inr c"
    by (cases base) simp_all
  then obtain c1 where c1: "apply_overrides (env_overrides env) c0 = Inr c1" "and_then (validate_config c1) (\<lambda>_. Inr c1) = Inr c"
    by (cases "apply_overrides (env_overrides env) c0") simp_all
  have v: "validate_config c1 = Inr ()" using c1(2) by (cases "validate_config c1") simp_all
  then have e: "c1 = c" using c1(2) by simp
  show thesis
    by (rule that) (use b c0(1) c1(1) v in \<open>simp_all add: e validate_config_valid\<close>)
qed

definition keeps :: "(Config \<Rightarrow> 'a) \<Rightarrow> (Config \<Rightarrow> ConfigError + Config) \<Rightarrow> bool" where
  "keeps field f \<longleftrightarrow> (\<forall>c c'. f c = Inr c' \<longrightarrow> field c' = field c)"

lemma keeps_override: "(\<And>c v. field (put c v) = field c) \<Longrightarrow> keeps field (override_with put r)"
  by (cases r) (auto simp: keeps_def override_with_def split: option.splits)

lemma keeps_text: "(\<And>c v. field (put c v) = field c) \<Longrightarrow> keeps field (text_override env name put)"
  by (simp add: text_override_def keeps_override)

lemma keeps_cors: "(\<And>c v. field (c\<lparr>cf_cors := v\<rparr>) = field c) \<Longrightarrow> keeps field (cors_override env)"
  by (auto simp: keeps_def cors_override_def split: env_value.splits)

lemmas keeps_rules = keeps_override keeps_text keeps_cors

lemma apply_overrides_keep: "apply_overrides fs c = Inr c' \<Longrightarrow> list_all (keeps field) fs \<Longrightarrow> field c' = field c"
proof (induction fs arbitrary: c)
  case (Cons f fs)
  then obtain c1 where "f c = Inr c1" "apply_overrides fs c1 = Inr c'" by (cases "f c") simp_all
  then show ?case using Cons.IH Cons.prems(2) by (simp add: keeps_def)
qed simp

lemma apply_overrides_put:
  "apply_overrides (fs @ f # gs) c = Inr c' \<Longrightarrow> list_all (keeps field) gs \<Longrightarrow> \<exists>c1 c2. f c1 = Inr c2 \<and> field c' = field c2"
proof (induction fs arbitrary: c)
  case Nil
  then obtain c1 where "f c = Inr c1" "apply_overrides gs c1 = Inr c'" by (cases "f c") simp_all
  then show ?case using apply_overrides_keep Nil.prems(2) by metis
next
  case (Cons g fs)
  then obtain c1 where "apply_overrides (fs @ f # gs) c1 = Inr c'" by (cases "g c") simp_all
  then show ?case using Cons.IH Cons.prems(2) by blast
qed

lemma override_with_put:
  "override_with put r c = Inr c' \<Longrightarrow> \<exists>v. r = Inr v \<and> (\<forall>x. v = Some x \<longrightarrow> c' = put c x)"
  by (cases r) (auto simp: override_with_def)

lemma parse_env_var_Set: "env name = Set t \<Longrightarrow> parse_env_var env name parse = Inr v \<Longrightarrow> v \<noteq> None \<and> parse t = v"
  by (cases "parse t") (auto simp: parse_env_var_def)

text \<open>The field that an override sets, once no later one touches it.\<close>

lemma override_wins:
  assumes "apply_overrides fs c = Inr c'" and "n < length fs" and "fs ! n = override_with put (parse_env_var env name parse)"
    and "list_all (keeps field) (drop (Suc n) fs)" and "\<And>c v. field (put c v) = v"
  shows "case env name of Set t \<Rightarrow> parse t = Some (field c') | _ \<Rightarrow> True"
proof (cases "env name")
  case (Set t)
  have "apply_overrides (take n fs @ override_with put (parse_env_var env name parse) # drop (Suc n) fs) c = Inr c'"
    using assms(1) id_take_nth_drop [OF assms(2)] assms(3) by simp
  then obtain c1 c2 where c: "override_with put (parse_env_var env name parse) c1 = Inr c2" "field c' = field c2"
    using apply_overrides_put assms(4) by blast
  then obtain v where v: "parse_env_var env name parse = Inr v" "\<forall>x. v = Some x \<longrightarrow> c2 = put c1 x"
    using override_with_put by blast
  have "v \<noteq> None" "parse t = v" using parse_env_var_Set [where name = name, OF Set v(1)] by simp_all
  then obtain x where "v = Some x" "parse t = Some x" by auto
  then show ?thesis using v(2) c(2) assms(5) by (simp add: Set)
qed simp_all

text \<open>
  C36. A configuration is loaded only if it is within its bounds, whatever the file and the
  environment say: connections wait between one and 60000 milliseconds, the pool has between one
  and 64 of them, the retention task pauses between two rounds, the identity tree has a depth
  from 1 to 30, and the presence channel a capacity from 16 to 10000. A variable of the environment
  wins over the file, and is never passed over silently: the loaded port, address, database path
  and enforcement of membership proofs are the values of their variables when these are set.
\<close>

theorem loaded_config_valid:
  assumes "load_config toml files env p = (Inr c, w)"
  shows "config_valid c
    \<and> (case env ''ANNEX_HOST'' of Set t \<Rightarrow> parse_ip_addr t = Some (cs_host (cf_server c)) | _ \<Rightarrow> True)
    \<and> (case env ''ANNEX_PORT'' of Set t \<Rightarrow> parse_unsigned t = Some (cs_port (cf_server c)) | _ \<Rightarrow> True)
    \<and> (case env ''ANNEX_DB_PATH'' of Set t \<Rightarrow> cd_path (cf_database c) = t | _ \<Rightarrow> True)
    \<and> (case env ''ANNEX_ENFORCE_ZK_PROOFS'' of Set t \<Rightarrow> parse_bool_text t = Some (cy_enforce_zk_proofs (cf_security c)) | _ \<Rightarrow> True)"
proof -
  obtain c0 where c0: "apply_overrides (env_overrides env) c0 = Inr c" "config_valid c"
    using load_config_Inr [OF assms] by blast
  have n: "length (env_overrides env) = 23" by (simp add: env_overrides_def server_overrides_def database_overrides_def voice_overrides_def)
  note defs = env_overrides_def server_overrides_def database_overrides_def voice_overrides_def text_override_def parse_env_bool_def
  have host: "case env ''ANNEX_HOST'' of Set t \<Rightarrow> parse_ip_addr t = Some (cs_host (cf_server c)) | _ \<Rightarrow> True"
    by (rule override_wins [where n = 0 and field = "\<lambda>c. cs_host (cf_server c)", OF c0(1)])
      (simp add: n, simp add: defs, simp add: defs keeps_override keeps_cors, simp)
  have port: "case env ''ANNEX_PORT'' of Set t \<Rightarrow> parse_unsigned t = Some (cs_port (cf_server c)) | _ \<Rightarrow> True"
    by (rule override_wins [where n = 1 and field = "\<lambda>c. cs_port (cf_server c)", OF c0(1)])
      (simp add: n, simp add: defs, simp add: defs keeps_override keeps_cors, simp)
  have "case env ''ANNEX_DB_PATH'' of Set t \<Rightarrow> Some t = Some (cd_path (cf_database c)) | _ \<Rightarrow> True"
    by (rule override_wins [where n = 7 and field = "\<lambda>c. cd_path (cf_database c)", OF c0(1)])
      (simp add: n, simp add: defs, simp add: defs keeps_override keeps_cors, simp)
  then have db: "case env ''ANNEX_DB_PATH'' of Set t \<Rightarrow> cd_path (cf_database c) = t | _ \<Rightarrow> True"
    by (simp split: env_value.splits)
  have zk: "case env ''ANNEX_ENFORCE_ZK_PROOFS'' of Set t \<Rightarrow> parse_bool_text t = Some (cy_enforce_zk_proofs (cf_security c)) | _ \<Rightarrow> True"
    by (rule override_wins [where n = 22 and field = "\<lambda>c. cy_enforce_zk_proofs (cf_security c)", OF c0(1)])
      (simp add: n, simp add: defs, simp add: defs keeps_override keeps_cors, simp)
  show ?thesis using c0(2) host port db zk by blast
qed

definition demo_env :: env where
  "demo_env name = (if name = ''ANNEX_PORT'' then Set ''9876'' else if name = ''ANNEX_ENFORCE_ZK_PROOFS'' then Set '' Yes'' else NotPresent)"

lemma override_none: "override_with put (Inr None) = Inr"
  by (simp add: override_with_def fun_eq_iff)

lemma apply_overrides_append: "apply_overrides (fs @ gs) c = and_then (apply_overrides fs c) (apply_overrides gs)"
proof (induction fs arbitrary: c)
  case (Cons f fs)
  then show ?case by (cases "f c") simp_all
qed simp

lemma apply_overrides_skip: "apply_overrides (replicate n Inr) c = Inr c"
  by (induction n) simp_all

lemma unset: "name \<noteq> ''ANNEX_PORT'' \<Longrightarrow> name \<noteq> ''ANNEX_ENFORCE_ZK_PROOFS'' \<Longrightarrow> parse_env_var demo_env name parse = Inr None"
  by (simp add: parse_env_var_def demo_env_def)

lemma demo_loaded:
  "load_config (\<lambda>_. None) (\<lambda>_. FileNotFound) demo_env (Some ''config.toml'')
     = (Inr (default_config\<lparr>cf_server := default_server_config\<lparr>cs_port := 9876\<rparr>, cf_security := \<lparr>cy_enforce_zk_proofs = True\<rparr>\<rparr>), None)"
proof -
  have port: "parse_env_var demo_env ''ANNEX_PORT'' parse_unsigned = Inr (Some (9876 :: 16 word))"
    by (simp add: parse_env_var_def demo_env_def parse_unsigned_def digits_nat_def digit_char_def of_char_of)
  have zk: "parse_env_var demo_env ''ANNEX_ENFORCE_ZK_PROOFS'' parse_bool_text = Inr (Some True)"
    by (simp add: parse_env_var_def demo_env_def parse_bool_text_def) (code_simp)
  have cors: "cors_override demo_env c = Inr c" for c by (simp add: cors_override_def demo_env_def)
  let ?c = "default_config\<lparr>cf_server := default_server_config\<lparr>cs_port := 9876\<rparr>, cf_security := \<lparr>cy_enforce_zk_proofs = True\<rparr>\<rparr>"
  have "config_valid ?c"
    by (simp add: config_valid_def default_config_def default_server_config_def default_database_config_def)
  then have "validate_config ?c = Inr ()" by (simp add: validate_config_valid)
  moreover have "apply_overrides (env_overrides demo_env) default_config = Inr ?c"
  proof -
    have "server_overrides demo_env = [Inr, override_with (\<lambda>c v. c\<lparr>cf_server := (cf_server c)\<lparr>cs_port := v\<rparr>\<rparr>) (Inr (Some 9876)),
        Inr, Inr, Inr, Inr, Inr]"
      unfolding server_overrides_def text_override_def port by (simp add: unset override_none)
    moreover have "database_overrides demo_env = replicate 5 Inr" "voice_overrides demo_env = replicate 9 Inr"
      by (simp_all add: database_overrides_def voice_overrides_def text_override_def parse_env_bool_def unset override_none
          eval_nat_numeral)
    ultimately show ?thesis
      unfolding env_overrides_def parse_env_bool_def zk
      by (simp add: apply_overrides_append apply_overrides_skip cors override_with_def default_config_def)
  qed
  ultimately show ?thesis by (simp add: load_config_def read_config_file_def)
qed

theorem loaded_config_valid_witness:
  "\<exists>c. load_config (\<lambda>_. None) (\<lambda>_. FileNotFound) demo_env (Some ''config.toml'') = (Inr c, None) \<and> config_valid c
     \<and> parse_unsigned ''9876'' = Some (cs_port (cf_server c)) \<and> parse_bool_text '' Yes'' = Some (cy_enforce_zk_proofs (cf_security c))"
  using loaded_config_valid [OF demo_loaded] demo_loaded by (simp add: demo_env_def)

text \<open>
  The repair of Windows paths starts at any colon before a backslash, also at one that is no drive
  letter: then every escape of the file is gone from what is parsed, and from the file.
\<close>

lemma contains_middle: "contains (pre @ t @ post) t"
proof (induction pre)
  case Nil
  show ?case by (cases t; cases post) (simp_all add: starts_with_def)
qed simp

lemma escape_after_colon_rewritten:
  assumes "contents = pre @ [CHR '':'', backslash] @ post"
  shows "\<exists>fixed. read_config_file toml (Contents contents) = (ok_or (toml fixed) ConfigParse, Some fixed)
     \<and> backslash \<notin> set fixed \<and> length fixed = length contents"
proof -
  have c: "contains contents [CHR '':'', backslash]" unfolding assms by (rule contains_middle)
  let ?fixed = "map (\<lambda>c. if c = backslash then CHR ''/'' else c) contents"
  have "CHR ''/'' \<noteq> backslash" by (simp add: backslash_def)
  then have "backslash \<notin> set ?fixed" by auto
  then show ?thesis by (intro exI [of _ ?fixed]) (simp add: read_config_file_def sanitized_def c Let_def)
qed

end
