(* ===== verification/Annex_Startup.thy ===== *)
theory Annex_Startup
  imports Annex_Config Annex_Zk Annex_Demo Annex_Messages
begin

text \<open>
  Starting the server (\<open>annex-server/src/lib.rs\<close>): the signing key, the first server row, the
  application state and the order in which starting may fail; the two status endpoints; and the
  router with its layers. Files, the environment, the random key and the identifiers are arguments.
\<close>

datatype StartupError =
    InvalidLoggingLevel string
  | StartupConfig ConfigError
  | StartupDatabase
  | StartupIdentity IdentityError
  | StartupIo
  | StartupZk ZkError
  | PoolConnection
  | StartupMigration string
  | DbQuery rusqlite_error
  | InvalidSigningKey string

section \<open>The media server\<close>

text \<open>\<open>probe url\<close>: a request to the address is answered; \<open>client_ok\<close>: the HTTP client could be built.\<close>

definition is_livekit_reachable :: "bool \<Rightarrow> (string \<Rightarrow> bool) \<Rightarrow> string \<Rightarrow> bool" where
  "is_livekit_reachable client_ok probe ws_url \<longleftrightarrow> client_ok \<and> probe (health_url ws_url)"

text \<open>Whether there is a child process; the container runs on its own.\<close>

definition try_start_livekit_dev :: "bool \<Rightarrow> bool" where
  "try_start_livekit_dev native_spawns = native_spawns"

text \<open>
  The probes that are made are numbered, \<open>probes 0\<close> before anything is started and up to five
  afterwards. The result is whether a child process is held, and the number of probes.
\<close>

definition ensure_livekit_running :: "(nat \<Rightarrow> bool) \<Rightarrow> bool \<Rightarrow> string \<Rightarrow> bool \<times> nat" where
  "ensure_livekit_running probes native_spawns url =
     (if url = [] then (False, 0)
      else if probes 0 then (False, 1)
      else (try_start_livekit_dev native_spawns,
            case List.find probes [1..<6] of Some k \<Rightarrow> Suc k | None \<Rightarrow> 6))"

section \<open>The signing key\<close>

datatype key_file = KeyAbsent | KeyUnreadable | KeyText string

text \<open>The key of a readable and well-formed file.\<close>

definition key_in_file :: "'f crypto \<Rightarrow> key_file \<Rightarrow> bytes option" where
  "key_in_file C file =
     (case file of
        KeyText t \<Rightarrow> (case hex_decode C (trim t) of Some bs \<Rightarrow> if length bs = 32 then Some bs else None | None \<Rightarrow> None)
      | _ \<Rightarrow> None)"

text \<open>The key, and the key file afterwards; \<open>fresh\<close> is what the generator yields.\<close>

definition resolve_signing_key ::
  "'f crypto \<Rightarrow> env \<Rightarrow> bytes \<Rightarrow> bool \<Rightarrow> key_file \<Rightarrow> (StartupError + bytes) \<times> key_file" where
  "resolve_signing_key C env fresh writable file =
     (case env ''ANNEX_SIGNING_KEY'' of
        Set hex_key \<Rightarrow>
          (case hex_decode C hex_key of
             None \<Rightarrow> (Inl (InvalidSigningKey ''not valid hex''), file)
           | Some bs \<Rightarrow>
               if length bs = 32 then (Inr bs, file)
               else (Inl (InvalidSigningKey (''expected 32 bytes, got '' @ decimal (length bs))), file))
      | _ \<Rightarrow>
          (case key_in_file C file of
             Some bs \<Rightarrow> (Inr bs, file)
           | None \<Rightarrow> (Inr fresh, if writable then KeyText (hex_encode C fresh) else file)))"

section \<open>The server row\<close>

definition env_or :: "env \<Rightarrow> string \<Rightarrow> string \<Rightarrow> string" where
  "env_or env name fallback = (case env name of Set v \<Rightarrow> v | _ \<Rightarrow> fallback)"

definition general_channel :: "int \<Rightarrow> string \<Rightarrow> CreateChannelParams" where
  "general_channel s channel = \<lparr>cc_server_id = s, cc_channel_id = channel, cc_name = ''General'', cc_channel_type = ChannelType.Text,
     cc_topic = Some ''Welcome to Annex!'', cc_vrp_topic_binding = None, cc_required_capabilities_json = None,
     cc_agent_min_alignment = None, cc_retention_days = None, cc_federation_scope = FederationScope.Local\<rparr>"

text \<open>
  The first row, or a new one with a first channel; the statements run outside a transaction, and
  the channel may fail. Rows of \<open>servers\<close> are never deleted, so the first identifier is 1.
\<close>

definition seed_server ::
  "serde \<Rightarrow> (ServerPolicy \<Rightarrow> string) \<Rightarrow> env \<Rightarrow> string \<Rightarrow> faults \<Rightarrow> time \<Rightarrow> db
     \<Rightarrow> (StartupError + int \<times> ServerPolicy) \<times> db" where
  "seed_server S policy_to_json env general_id flt now d =
     (if flt 2 then (Inl (DbQuery (SqliteFailure EngineFailure)), d)
      else let d1 = d\<lparr>servers := servers d @ [\<lparr>sv_id = 1, sv_slug = env_or env ''ANNEX_SERVER_SLUG'' ''default'',
                 sv_label = env_or env ''ANNEX_SERVER_LABEL'' ''Annex Server'', sv_policy_json = policy_to_json default_policy\<rparr>]\<rparr>
           in (Inr (1, default_policy), if flt 3 then d1 else snd (create_channel S now d1 (general_channel 1 general_id))))"

definition load_server ::
  "serde \<Rightarrow> (ServerPolicy \<Rightarrow> string) \<Rightarrow> env \<Rightarrow> string \<Rightarrow> faults \<Rightarrow> time \<Rightarrow> db
     \<Rightarrow> (StartupError + int \<times> ServerPolicy) \<times> db" where
  "load_server S policy_to_json env general_id flt now d =
     (if flt 0 then (Inl PoolConnection, d)
      else if flt 1 then (Inl (DbQuery (SqliteFailure EngineFailure)), d)
      else case servers d of
             r # _ \<Rightarrow>
               (case policy_from_json S (sv_policy_json r) of
                  Some policy \<Rightarrow> (Inr (sv_id r, policy), d)
                | None \<Rightarrow> (Inl (DbQuery (FromSqlConversionFailure 1)), d))
           | [] \<Rightarrow> seed_server S policy_to_json env general_id flt now d)"

section \<open>The verification key\<close>

definition load_membership_vkey ::
  "('f, 'q, 'g, 'h) snark \<Rightarrow> env \<Rightarrow> (string \<Rightarrow> file_read) \<Rightarrow> StartupError + ('g, 'h) VerifyingKey" where
  "load_membership_vkey Z env files =
     (case files (env_or env ''ANNEX_ZK_KEY_PATH'' ''zk/keys/membership_vkey.json'') of
        Contents json \<Rightarrow> map_err StartupZk (parse_verification_key Z json)
      | _ \<Rightarrow> Inr (generate_dummy_vkey Z))"

section \<open>The application state\<close>

text \<open>The fields that starting decides; the others start empty or wrap a service.\<close>

record ('f, 'g, 'h) AppState =
  app_merkle_tree :: "'f MerkleTree"
  app_membership_vkey :: "('g, 'h) VerifyingKey"
  app_server_id :: int
  app_signing_key :: bytes
  app_public_url :: string
  app_policy :: ServerPolicy
  app_upload_dir :: string
  app_ws_token_secret :: bytes
  app_cors_origins :: "string list"
  app_enforce_zk_proofs :: bool

record startup_io =
  si_env :: env
  si_files :: "string \<Rightarrow> file_read"
  si_pool :: bool
  si_migrated :: "string + nat"
  si_fresh_key :: bytes
  si_key_writable :: bool
  si_general_id :: string
  si_bound :: bool
  si_tree_conn :: bool
  si_migrate_conn :: bool

definition initial_state ::
  "'f crypto \<Rightarrow> startup_io \<Rightarrow> Config \<Rightarrow> 'f MerkleTree \<Rightarrow> ('g, 'h) VerifyingKey \<Rightarrow> int \<Rightarrow> ServerPolicy \<Rightarrow> bytes
     \<Rightarrow> ('f, 'g, 'h) AppState" where
  "initial_state C io config tree vkey s policy key =
     \<lparr>app_merkle_tree = tree, app_membership_vkey = vkey, app_server_id = s, app_signing_key = key,
      app_public_url = cs_public_url (cf_server config), app_policy = policy,
      app_upload_dir = env_or (si_env io) ''ANNEX_UPLOAD_DIR'' ''data/uploads'',
      app_ws_token_secret = derive_ws_token_secret C key, app_cors_origins = co_allowed_origins (cf_cors config),
      app_enforce_zk_proofs = cy_enforce_zk_proofs (cf_security config)\<rparr>"

text \<open>What is left behind: the database and the key file, also when starting fails.\<close>

definition prepare_server ::
  "'f crypto \<Rightarrow> ('f, 'q, 'g, 'h) snark \<Rightarrow> serde \<Rightarrow> (ServerPolicy \<Rightarrow> string) \<Rightarrow> startup_io \<Rightarrow> faults \<Rightarrow> time \<Rightarrow> Config
     \<Rightarrow> db \<Rightarrow> key_file \<Rightarrow> (StartupError + ('f, 'g, 'h) AppState) \<times> db \<times> key_file" where
  "prepare_server C Z S policy_to_json io flt now config d file =
     (if \<not> si_pool io then (Inl StartupDatabase, d, file)
      else if \<not> si_migrate_conn io then (Inl PoolConnection, d, file)
      else case si_migrated io of Inl m \<Rightarrow> (Inl (StartupMigration m), d, file) | Inr _ \<Rightarrow>
      if \<not> si_tree_conn io then (Inl PoolConnection, d, file)
      else case restore C d (unat (cs_merkle_tree_depth (cf_server config))) of
        Inl e \<Rightarrow> (Inl (StartupIdentity e), d, file) | Inr tree \<Rightarrow>
      case load_server S policy_to_json (si_env io) (si_general_id io) flt now d of
        (Inl e, d1) \<Rightarrow> (Inl e, d1, file) | (Inr (s, policy), d1) \<Rightarrow>
      case load_membership_vkey Z (si_env io) (si_files io) of
        Inl e \<Rightarrow> (Inl e, d1, file) | Inr vkey \<Rightarrow>
      case resolve_signing_key C (si_env io) (si_fresh_key io) (si_key_writable io) file of
        (Inl e, file') \<Rightarrow> (Inl e, d1, file') | (Inr key, file') \<Rightarrow>
      if \<not> si_bound io then (Inl StartupIo, d1, file')
      else (Inr (initial_state C io config tree vkey s policy key), d1, file'))"

section \<open>Status\<close>

record health_response =
  hr_status :: string
  hr_version :: string
  hr_voice_enabled :: bool

definition health :: "string \<Rightarrow> LiveKitConfig \<Rightarrow> health_response" where
  "health version livekit = \<lparr>hr_status = ''ok'', hr_version = version, hr_voice_enabled = voice_is_enabled livekit\<rparr>"

datatype setup_hint = DisabledByPolicy | NotConfigured | NoPublicUrl | VoiceReady

record voice_status =
  vs_voice_enabled :: bool
  vs_policy_enabled :: bool
  vs_infrastructure_ready :: bool
  vs_has_public_url :: bool
  vs_setup_hint :: setup_hint

definition voice_config_status :: "ServerPolicy \<Rightarrow> LiveKitConfig \<Rightarrow> voice_status" where
  "voice_config_status policy livekit =
     (let infrastructure_ready = voice_is_enabled livekit;
          has_public_url = (get_public_url livekit \<noteq> []);
          policy_enabled = voice_enabled policy
      in \<lparr>vs_voice_enabled = (policy_enabled \<and> infrastructure_ready), vs_policy_enabled = policy_enabled,
          vs_infrastructure_ready = infrastructure_ready, vs_has_public_url = has_public_url,
          vs_setup_hint = (if \<not> policy_enabled then DisabledByPolicy else if \<not> infrastructure_ready then NotConfigured
             else if \<not> has_public_url then NoPublicUrl else VoiceReady)\<rparr>)"

section \<open>Starting again\<close>

lemma trim_lower_hex:
  assumes "list_all is_lower_hex s"
  shows "trim s = s"
proof -
  have "\<not> (w \<noteq> [] \<and> starts_with t w)" if "w \<in> set ws" "\<forall>w \<in> set ws. w \<noteq> [] \<and> \<not> is_lower_hex (hd w)" "list_all is_lower_hex t" for t w ws
  proof
    assume "w \<noteq> [] \<and> starts_with t w"
    then have "w \<noteq> []" and w: "take (length w) t = w" by (simp_all add: starts_with_def)
    then have "hd w \<in> set t" by (metis hd_in_set in_set_takeD)
    then show False using that unfolding list_all_iff by blast
  qed
  then have strip: "strip_front ws t = t" if "\<forall>w \<in> set ws. w \<noteq> [] \<and> \<not> is_lower_hex (hd w)" "list_all is_lower_hex t" for t ws
    using that by (intro strip_front_none) (simp add: find_None_iff)
  have "\<forall>w \<in> set white_space. w \<noteq> [] \<and> \<not> is_lower_hex (hd w)" "\<forall>w \<in> set (map rev white_space). w \<noteq> [] \<and> \<not> is_lower_hex (hd w)"
    by (simp_all add: white_space_def is_lower_hex_def is_ascii_digit_def)
  then show ?thesis using assms by (simp add: trim_def strip)
qed

lemma stored_key_found:
  assumes "hex_laws C" and "length k = 32" and "\<And>t. env ''ANNEX_SIGNING_KEY'' \<noteq> Set t"
  shows "resolve_signing_key C env fresh w (KeyText (hex_encode C k)) = (Inr k, KeyText (hex_encode C k))"
proof -
  have "trim (hex_encode C k) = hex_encode C k" using assms(1) by (intro trim_lower_hex) (simp add: hex_laws_def)
  moreover have "hex_decode C (hex_encode C k) = Some k" using assms(1) by (simp add: hex_laws_def)
  moreover have "env ''ANNEX_SIGNING_KEY'' = NotPresent \<or> env ''ANNEX_SIGNING_KEY'' = NotUnicode"
    using assms(3) by (cases "env ''ANNEX_SIGNING_KEY''") auto
  ultimately show ?thesis using assms(2) by (auto simp: resolve_signing_key_def key_in_file_def)
qed

lemma signing_key_stable:
  assumes "hex_laws C" and "length fresh = 32"
    and "resolve_signing_key C env fresh True file = (Inr k, file')"
    and "env' ''ANNEX_SIGNING_KEY'' = env ''ANNEX_SIGNING_KEY''"
  shows "resolve_signing_key C env' fresh' w file' = (Inr k, file')"
proof (cases "\<exists>t. env ''ANNEX_SIGNING_KEY'' = Set t")
  case True
  then obtain t where t: "env ''ANNEX_SIGNING_KEY'' = Set t" by blast
  then show ?thesis using assms(3,4) by (cases "hex_decode C t") (simp_all add: resolve_signing_key_def split: if_splits)
next
  case False
  then have env: "env ''ANNEX_SIGNING_KEY'' = NotPresent \<or> env ''ANNEX_SIGNING_KEY'' = NotUnicode"
    by (cases "env ''ANNEX_SIGNING_KEY''") auto
  have n: "env' ''ANNEX_SIGNING_KEY'' \<noteq> Set t" for t using assms(4) False by simp
  have r: "resolve_signing_key C e fr wr f = (case key_in_file C f of Some bs \<Rightarrow> (Inr bs, f)
      | None \<Rightarrow> (Inr fr, if wr then KeyText (hex_encode C fr) else f))"
    if "e ''ANNEX_SIGNING_KEY'' = env ''ANNEX_SIGNING_KEY''" for e fr wr f
    using env that by (elim disjE) (simp_all add: resolve_signing_key_def)
  show ?thesis
  proof (cases "key_in_file C file")
    case None
    then have "fresh = k \<and> KeyText (hex_encode C fresh) = file'" using assms(3) by (auto simp: r)
    then have "k = fresh" "file' = KeyText (hex_encode C fresh)" by blast+
    then show ?thesis using stored_key_found [OF assms(1,2), of env'] n by simp
  next
    case (Some bs)
    then have "bs = k \<and> file = file'" using assms(3) by (auto simp: r)
    then have "file' = file" "k = bs" by blast+
    then show ?thesis using Some assms(4) by (simp add: r)
  qed
qed

lemma servers_general: "servers (snd (create_channel S now d p)) = servers d"
  by (simp add: create_channel_def)

lemma server_stable:
  assumes "policy_from_json S (policy_to_json default_policy) = Some default_policy"
    and "load_server S policy_to_json env g flt now d = (Inr (s, policy), d')"
    and "load_server S policy_to_json env' g' flt' now' d' = (Inr (s', policy'), d'')"
  shows "s' = s \<and> policy' = policy \<and> d'' = d'"
proof -
  have "\<exists>r rs. servers d' = r # rs \<and> sv_id r = s \<and> policy_from_json S (sv_policy_json r) = Some policy"
  proof (cases "servers d")
    case Nil
    then show ?thesis using assms(1,2)
      by (auto simp: load_server_def seed_server_def Let_def servers_general split: if_splits)
  next
    case (Cons r rs)
    then show ?thesis using assms(2) by (auto simp: load_server_def split: if_splits option.splits)
  qed
  then show ?thesis using assms(3) by (auto simp: load_server_def split: if_splits)
qed

lemma prepare_server_Inr:
  assumes "prepare_server C Z S policy_to_json io flt now config d file = (Inr st, d', file')"
  obtains s policy key where "load_server S policy_to_json (si_env io) (si_general_id io) flt now d = (Inr (s, policy), d')"
    and "resolve_signing_key C (si_env io) (si_fresh_key io) (si_key_writable io) file = (Inr key, file')"
    and "app_server_id st = s" "app_policy st = policy" "app_signing_key st = key" "app_ws_token_secret st = derive_ws_token_secret C key"
  using assms unfolding prepare_server_def
  by (auto split: if_splits sum.splits prod.splits simp: initial_state_def)

text \<open>
  C14. Restarting keeps who the server is. After a start whose key file could be written, a later
  start on what it left behind that succeeds, with the same setting of the variable
  \<open>ANNEX_SIGNING_KEY\<close>, whatever its other
  settings, failures and generated values, takes the same server row, policy, signing key and secret
  of the session tokens, and adds neither a row nor a key: the defaults are seeded once.
\<close>

theorem restart_keeps_identity:
  assumes "hex_laws C" and "policy_from_json S (policy_to_json default_policy) = Some default_policy"
    and "length (si_fresh_key io) = 32" "si_key_writable io"
    and "prepare_server C Z S policy_to_json io flt now config d file = (Inr st, d', file')"
    and "si_env io' ''ANNEX_SIGNING_KEY'' = si_env io ''ANNEX_SIGNING_KEY''"
    and "prepare_server C Z S policy_to_json io' flt' now' config' d' file' = (Inr st', d'', file'')"
  shows "app_server_id st' = app_server_id st \<and> app_policy st' = app_policy st \<and> app_signing_key st' = app_signing_key st
    \<and> app_ws_token_secret st' = app_ws_token_secret st \<and> d'' = d' \<and> file'' = file'"
proof -
  obtain s policy key where 1: "load_server S policy_to_json (si_env io) (si_general_id io) flt now d = (Inr (s, policy), d')"
    "resolve_signing_key C (si_env io) (si_fresh_key io) (si_key_writable io) file = (Inr key, file')"
    "app_server_id st = s" "app_policy st = policy" "app_signing_key st = key" "app_ws_token_secret st = derive_ws_token_secret C key"
    by (rule prepare_server_Inr [OF assms(5)]) (rule that)
  obtain s2 policy2 key2 where 2: "load_server S policy_to_json (si_env io') (si_general_id io') flt' now' d' = (Inr (s2, policy2), d'')"
    "resolve_signing_key C (si_env io') (si_fresh_key io') (si_key_writable io') file' = (Inr key2, file'')"
    "app_server_id st' = s2" "app_policy st' = policy2" "app_signing_key st' = key2" "app_ws_token_secret st' = derive_ws_token_secret C key2"
    by (rule prepare_server_Inr [OF assms(7)]) (rule that)
  have a: "resolve_signing_key C (si_env io) (si_fresh_key io) True file = (Inr key, file')" using 1(2) assms(4) by simp
  have k: "resolve_signing_key C (si_env io') (si_fresh_key io') (si_key_writable io') file' = (Inr key, file')"
    by (rule signing_key_stable [where env' = "si_env io'", OF assms(1,3) a assms(6)])
  have "s2 = s \<and> policy2 = policy \<and> d'' = d'" by (rule server_stable [OF assms(2) 1(1) 2(1)])
  then show ?thesis using 1(3-6) 2(2-6) k by simp
qed

text \<open>
  Without the condition on the variable it is lost: a key that came from the environment is not
  written to the file, and a later start without the variable makes a new one.
\<close>

lemma environment_key_not_kept:
  assumes "resolve_signing_key C env fresh True KeyAbsent = (Inr k, file')"
    and "env ''ANNEX_SIGNING_KEY'' = Set t" and "env' ''ANNEX_SIGNING_KEY'' = NotPresent"
  shows "resolve_signing_key C env' fresh' True file' = (Inr fresh', KeyText (hex_encode C fresh'))"
  using assms by (cases "hex_decode C t") (simp_all add: resolve_signing_key_def key_in_file_def split: if_splits)

text \<open>A key file that cannot be read or does not hold a key is replaced, and the old key is lost.\<close>

lemma unreadable_key_replaced:
  "\<forall>t. env ''ANNEX_SIGNING_KEY'' \<noteq> Set t \<Longrightarrow>
   resolve_signing_key C env fresh True KeyUnreadable = (Inr fresh, KeyText (hex_encode C fresh))"
  by (cases "env ''ANNEX_SIGNING_KEY''") (simp_all add: resolve_signing_key_def key_in_file_def)

text \<open>The hint about a missing public URL is never shown: the URL falls back to the internal one.\<close>

lemma public_url_hint_unreachable:
  "vs_has_public_url (voice_config_status policy livekit) \<longleftrightarrow> lk_public_url livekit \<noteq> [] \<or> vs_infrastructure_ready (voice_config_status policy livekit)"
  "vs_setup_hint (voice_config_status policy livekit) \<noteq> NoPublicUrl"
  by (simp_all add: voice_config_status_def Let_def get_public_url_def voice_is_enabled_def)

definition demo_startup :: startup_io where
  "demo_startup = \<lparr>si_env = (\<lambda>_. NotPresent), si_files = (\<lambda>_. FileNotFound), si_pool = True, si_migrated = Inr 40,
     si_fresh_key = replicate 32 (CHR 0x07), si_key_writable = True, si_general_id = ''c1'', si_bound = True,
     si_tree_conn = True, si_migrate_conn = True\<rparr>"

definition demo_startup_serde :: serde where
  "demo_startup_serde = demo_serde\<lparr>policy_from_json := (\<lambda>_. Some default_policy)\<rparr>"

lemma tables_created [simp]:
  "vrp_leaves (snd (create_channel S now d p)) = vrp_leaves d" "vrp_roots (snd (create_channel S now d p)) = vrp_roots d"
  by (simp_all add: create_channel_def)

lemma restore_empty: "vrp_leaves d = [] \<Longrightarrow> vrp_roots d = [] \<Longrightarrow> \<exists>t. restore demo_crypto d 20 = Inr t"
  using new_tree_total [OF demo_poseidon2_total, of 20] by (auto simp: restore_def order_by_def order_by_desc_def)

lemma demo_started:
  assumes "vrp_leaves d = []" "vrp_roots d = []" "servers d = [] \<or> (\<exists>r. servers d = [r])" "length k = 32"
  shows "\<exists>st d' f'. prepare_server demo_crypto demo_snark demo_startup_serde (\<lambda>_. []) (demo_startup\<lparr>si_fresh_key := k\<rparr>) no_faults 5
      default_config d file = (Inr st, d', f')
    \<and> vrp_leaves d' = [] \<and> vrp_roots d' = [] \<and> (\<exists>r. servers d' = [r])"
proof -
  obtain t where t: "restore demo_crypto d 20 = Inr t" using restore_empty assms(1,2) by blast
  obtain key f' where key: "resolve_signing_key demo_crypto (\<lambda>_. NotPresent) k True file = (Inr key, f')"
    by (cases "key_in_file demo_crypto file") (simp_all add: resolve_signing_key_def)
  obtain x d' where x: "load_server demo_startup_serde (\<lambda>_. []) (\<lambda>_. NotPresent) ''c1'' no_faults 5 d = (Inr x, d')"
    and d': "vrp_leaves d' = []" "vrp_roots d' = []" "\<exists>r. servers d' = [r]"
    using assms(1-3)
    by (elim disjE exE) (simp_all add: load_server_def seed_server_def no_faults_def demo_startup_serde_def servers_general Let_def)
  have "unat (cs_merkle_tree_depth (cf_server default_config)) = 20"
    by (simp add: default_config_def default_server_config_def)
  then show ?thesis
    using d' by (cases x) (simp add: prepare_server_def demo_startup_def t key x load_membership_vkey_def)
qed

theorem restart_keeps_identity_witness:
  "\<exists>st d' f' st' d'' f''.
     prepare_server demo_crypto demo_snark demo_startup_serde (\<lambda>_. []) (demo_startup\<lparr>si_fresh_key := replicate 32 (CHR 0x07)\<rparr>)
       no_faults 5 default_config (migrated_db 0) KeyAbsent = (Inr st, d', f')
     \<and> prepare_server demo_crypto demo_snark demo_startup_serde (\<lambda>_. []) (demo_startup\<lparr>si_fresh_key := replicate 32 (CHR 0x09)\<rparr>)
       no_faults 5 default_config d' f' = (Inr st', d'', f'')
     \<and> app_signing_key st' = app_signing_key st \<and> app_server_id st' = app_server_id st"
proof -
  obtain st d' f' where 1: "prepare_server demo_crypto demo_snark demo_startup_serde (\<lambda>_. [])
      (demo_startup\<lparr>si_fresh_key := replicate 32 (CHR 0x07)\<rparr>) no_faults 5 default_config (migrated_db 0) KeyAbsent = (Inr st, d', f')"
    "vrp_leaves d' = []" "vrp_roots d' = []" "\<exists>r. servers d' = [r]"
    using demo_started [of "migrated_db 0" "replicate 32 (CHR 0x07)" KeyAbsent] by auto
  obtain st' d'' f'' where 2: "prepare_server demo_crypto demo_snark demo_startup_serde (\<lambda>_. [])
      (demo_startup\<lparr>si_fresh_key := replicate 32 (CHR 0x09)\<rparr>) no_faults 5 default_config d' f' = (Inr st', d'', f'')"
    using demo_started [of d' "replicate 32 (CHR 0x09)" f'] 1(2-4) by auto
  have "app_server_id st' = app_server_id st \<and> app_policy st' = app_policy st \<and> app_signing_key st' = app_signing_key st
    \<and> app_ws_token_secret st' = app_ws_token_secret st \<and> d'' = d' \<and> f'' = f'"
    by (rule restart_keeps_identity [OF demo_hex_laws _ _ _ 1(1) _ 2]) (simp_all add: demo_startup_serde_def demo_startup_def)
  then show ?thesis
    by (intro exI [of _ st] exI [of _ d'] exI [of _ f'] exI [of _ st'] exI [of _ d''] exI [of _ f''] conjI 1(1) 2) simp_all
qed

end
