(* ===== verification/Annex_Routes.thy ===== *)
theory Annex_Routes
  imports Annex_Startup
begin

text \<open>
  The table of the router, \<open>app\<close> in \<open>annex-server/src/lib.rs\<close>, and how a path finds its entry. A
  handler is its name; what it does is the definition of that name in the theory of its file.
  Matching follows the routing library: a segment in braces takes any segment that is not empty,
  and \<open>get\<close> answers HEAD as well.
\<close>

section \<open>The table\<close>

datatype Method = GET | HEAD | POST | PUT | DELETE | PATCH | OPTIONS

type_synonym route = "string \<times> (Method \<times> string) list"

definition protected_routes :: "route list" where
  "protected_routes =
     [(''/api/channels'', [(POST, ''api_channels::create_channel_handler''), (GET, ''api_channels::list_channels_handler'')]),
      (''/api/channels/{channelId}'', [(GET, ''api_channels::get_channel_handler''), (DELETE, ''api_channels::delete_channel_handler'')]),
      (''/api/channels/{channelId}/join'', [(POST, ''api_channels::join_channel_handler'')]),
      (''/api/channels/{channelId}/voice/join'', [(POST, ''api_channels::join_voice_channel_handler'')]),
      (''/api/channels/{channelId}/voice/leave'', [(POST, ''api_channels::leave_voice_channel_handler'')]),
      (''/api/channels/{channelId}/voice/status'', [(GET, ''api_channels::voice_status_handler'')]),
      (''/api/channels/{channelId}/leave'', [(POST, ''api_channels::leave_channel_handler'')]),
      (''/api/channels/{channelId}/messages'', [(GET, ''api_channels::get_channel_history_handler'')]),
      (''/api/channels/{channelId}/messages/{messageId}/edits'', [(GET, ''api_channels::get_message_edits_handler'')]),
      (''/api/agents/{pseudonymId}'', [(GET, ''api_agent::get_agent_profile_handler'')]),
      (''/api/agents/{pseudonymId}/voice-profile'', [(PUT, ''api_agent::update_agent_voice_profile_handler'')]),
      (''/api/rtx/publish'', [(POST, ''api_rtx::publish_handler'')]),
      (''/api/rtx/subscribe'', [(POST, ''api_rtx::subscribe_handler''), (DELETE, ''api_rtx::unsubscribe_handler'')]),
      (''/api/rtx/subscriptions'', [(GET, ''api_rtx::get_subscription_handler'')]),
      (''/api/rtx/governance/transfers'', [(GET, ''api_rtx::governance_transfers_handler'')]),
      (''/api/rtx/governance/summary'', [(GET, ''api_rtx::governance_summary_handler'')]),
      (''/api/admin/policy'', [(GET, ''api_admin::get_policy_handler''), (PUT, ''api_admin::update_policy_handler'')]),
      (''/api/admin/server'', [(GET, ''api_admin::get_server_handler''), (PATCH, ''api_admin::rename_server_handler'')]),
      (''/api/admin/public-url'', [(PUT, ''api_admin::set_public_url_handler'')]),
      (''/api/admin/federation/{id}'', [(DELETE, ''api_admin::revoke_federation_handler'')]),
      (''/api/admin/members'', [(GET, ''api_admin::list_members_handler'')]),
      (''/api/admin/members/{pseudonymId}/capabilities'', [(PATCH, ''api_admin::update_member_capabilities_handler'')]),
      (''/api/profile/username'', [(PUT, ''api_usernames::set_username_handler''), (DELETE, ''api_usernames::delete_username_handler'')]),
      (''/api/profile/username/grant'', [(POST, ''api_usernames::grant_username_handler'')]),
      (''/api/profile/username/grant/{granteePseudonym}'', [(DELETE, ''api_usernames::revoke_grant_handler'')]),
      (''/api/profile/username/grants'', [(GET, ''api_usernames::list_grants_handler'')]),
      (''/api/usernames/visible'', [(GET, ''api_usernames::get_visible_usernames_handler'')]),
      (''/api/link-preview'', [(GET, ''api_link_preview::link_preview_handler'')]),
      (''/api/ws/token'', [(POST, ''api_ws::create_ws_token_handler'')]),
      (''/api/graph/profile/{targetPseudonym}'', [(GET, ''api_graph::get_profile_handler'')])]"

definition upload_routes :: "route list" where
  "upload_routes =
     [(''/api/admin/server/image'', [(POST, ''api_upload::upload_server_image_handler'')]),
      (''/api/channels/{channelId}/upload'', [(POST, ''api_upload::upload_chat_handler'')])]"

definition public_routes :: "route list" where
  "public_routes =
     [(''/health'', [(GET, ''health'')]),
      (''/api/registry/register'', [(POST, ''api::register_handler'')]),
      (''/api/registry/path/{commitmentHex}'', [(GET, ''api::get_path_handler'')]),
      (''/api/registry/current-root'', [(GET, ''api::get_current_root_handler'')]),
      (''/api/zk/verify-membership'', [(POST, ''api::verify_membership_handler'')]),
      (''/api/registry/topics'', [(GET, ''api::get_topics_handler'')]),
      (''/api/registry/roles'', [(GET, ''api::get_roles_handler'')]),
      (''/api/identity/{pseudonymId}'', [(GET, ''api::get_identity_handler'')]),
      (''/api/identity/{pseudonymId}/capabilities'', [(GET, ''api::get_identity_capabilities_handler'')]),
      (''/api/vrp/agent-handshake'', [(POST, ''api_vrp::agent_handshake_handler'')]),
      (''/api/federation/handshake'', [(POST, ''api_federation::federation_handshake_handler'')]),
      (''/api/federation/vrp-root'', [(GET, ''api_federation::get_vrp_root_handler'')]),
      (''/api/federation/attest-membership'', [(POST, ''api_federation::attest_membership_handler'')]),
      (''/api/federation/channels'', [(GET, ''api_federation::get_federated_channels_handler'')]),
      (''/api/federation/channels/{channelId}/join'', [(POST, ''api_federation::join_federated_channel_handler'')]),
      (''/api/federation/messages'', [(POST, ''api_federation::receive_federated_message_handler'')]),
      (''/api/federation/rtx'', [(POST, ''api_federation::receive_federated_rtx_handler'')]),
      (''/api/graph/degrees'', [(GET, ''api_graph::get_degrees_handler'')]),
      (''/events/presence'', [(GET, ''api_sse::get_presence_stream_handler'')]),
      (''/api/public/events'', [(GET, ''api_observe::get_events_handler'')]),
      (''/events/stream'', [(GET, ''api_observe::get_event_stream_handler'')]),
      (''/api/public/server/summary'', [(GET, ''api_observe::get_server_summary_handler'')]),
      (''/api/public/federation/peers'', [(GET, ''api_observe::get_federation_peers_handler'')]),
      (''/api/public/agents'', [(GET, ''api_observe::get_agents_handler'')]),
      (''/api/voice/config-status'', [(GET, ''voice_config_status'')]),
      (''/api/public/server/image'', [(GET, ''api_upload::get_server_image_handler'')]),
      (''/api/link-preview/image'', [(GET, ''api_link_preview::image_proxy_handler'')]),
      (''/ws'', [(GET, ''api_ws::ws_handler'')])]"

definition MAX_REQUEST_BODY_BYTES :: nat where
  "MAX_REQUEST_BODY_BYTES = 2 * 1024 * 1024"

record mounted =
  mt_pattern :: string
  mt_methods :: "(Method \<times> string) list"
  mt_auth :: bool
  mt_body_limit :: nat

definition mount :: "bool \<Rightarrow> nat \<Rightarrow> route list \<Rightarrow> mounted list" where
  "mount auth limit = map (\<lambda>(pat, methods). \<lparr>mt_pattern = pat, mt_methods = methods, mt_auth = auth, mt_body_limit = limit\<rparr>)"

text \<open>The limit of the upload routes, the inner one, overrides the limit of the whole router.\<close>

definition app_routes :: "mounted list" where
  "app_routes = mount False MAX_REQUEST_BODY_BYTES public_routes @ mount True MAX_REQUEST_BODY_BYTES protected_routes
     @ mount True (50 * 1024 * 1024) upload_routes"

section \<open>Matching\<close>

definition is_param :: "string \<Rightarrow> bool" where
  "is_param seg \<longleftrightarrow> starts_with seg ''{''"

fun segments_match :: "string list \<Rightarrow> string list \<Rightarrow> bool" where
  "segments_match [] [] = True"
| "segments_match (p # ps) (s # ss) \<longleftrightarrow> (if is_param p then s \<noteq> [] else p = s) \<and> segments_match ps ss"
| "segments_match _ _ = False"

definition segments :: "string \<Rightarrow> string list" where
  "segments = split_on (CHR ''/'')"

definition route_matches :: "mounted \<Rightarrow> string \<Rightarrow> bool" where
  "route_matches r path \<longleftrightarrow> segments_match (segments (mt_pattern r)) (segments path)"

definition find_route :: "string \<Rightarrow> mounted option" where
  "find_route path = first_where (\<lambda>r. route_matches r path) app_routes"

definition method_handler :: "mounted \<Rightarrow> Method \<Rightarrow> string option" where
  "method_handler r m =
     (case map_of (mt_methods r) m of
        Some h \<Rightarrow> Some h
      | None \<Rightarrow> if m = HEAD then map_of (mt_methods r) GET else None)"

section \<open>The table is unambiguous\<close>

fun overlap :: "string list \<Rightarrow> string list \<Rightarrow> bool" where
  "overlap [] [] = True"
| "overlap (p # ps) (q # qs) \<longleftrightarrow> (is_param p \<or> is_param q \<or> p = q) \<and> overlap ps qs"
| "overlap _ _ = False"

lemma segments_match_overlap: "segments_match p s \<Longrightarrow> segments_match q s \<Longrightarrow> overlap p q"
  by (induction p s arbitrary: q rule: segments_match.induct) (case_tac q; auto split: if_splits)+

fun no_overlap :: "string list list \<Rightarrow> bool" where
  "no_overlap [] = True"
| "no_overlap (p # ps) \<longleftrightarrow> list_all (\<lambda>q. \<not> overlap p q) ps \<and> no_overlap ps"

lemma public_segments:
  "map (segments \<circ> fst) public_routes =
    [[[], ''health''],
     [[], ''api'', ''registry'', ''register''],
     [[], ''api'', ''registry'', ''path'', ''{commitmentHex}''],
     [[], ''api'', ''registry'', ''current-root''],
     [[], ''api'', ''zk'', ''verify-membership''],
     [[], ''api'', ''registry'', ''topics''],
     [[], ''api'', ''registry'', ''roles''],
     [[], ''api'', ''identity'', ''{pseudonymId}''],
     [[], ''api'', ''identity'', ''{pseudonymId}'', ''capabilities''],
     [[], ''api'', ''vrp'', ''agent-handshake''],
     [[], ''api'', ''federation'', ''handshake''],
     [[], ''api'', ''federation'', ''vrp-root''],
     [[], ''api'', ''federation'', ''attest-membership''],
     [[], ''api'', ''federation'', ''channels''],
     [[], ''api'', ''federation'', ''channels'', ''{channelId}'', ''join''],
     [[], ''api'', ''federation'', ''messages''],
     [[], ''api'', ''federation'', ''rtx''],
     [[], ''api'', ''graph'', ''degrees''],
     [[], ''events'', ''presence''],
     [[], ''api'', ''public'', ''events''],
     [[], ''events'', ''stream''],
     [[], ''api'', ''public'', ''server'', ''summary''],
     [[], ''api'', ''public'', ''federation'', ''peers''],
     [[], ''api'', ''public'', ''agents''],
     [[], ''api'', ''voice'', ''config-status''],
     [[], ''api'', ''public'', ''server'', ''image''],
     [[], ''api'', ''link-preview'', ''image''],
     [[], ''ws'']]"
  by (simp add: public_routes_def segments_def)

lemma protected_segments:
  "map (segments \<circ> fst) protected_routes =
    [[[], ''api'', ''channels''],
     [[], ''api'', ''channels'', ''{channelId}''],
     [[], ''api'', ''channels'', ''{channelId}'', ''join''],
     [[], ''api'', ''channels'', ''{channelId}'', ''voice'', ''join''],
     [[], ''api'', ''channels'', ''{channelId}'', ''voice'', ''leave''],
     [[], ''api'', ''channels'', ''{channelId}'', ''voice'', ''status''],
     [[], ''api'', ''channels'', ''{channelId}'', ''leave''],
     [[], ''api'', ''channels'', ''{channelId}'', ''messages''],
     [[], ''api'', ''channels'', ''{channelId}'', ''messages'', ''{messageId}'', ''edits''],
     [[], ''api'', ''agents'', ''{pseudonymId}''],
     [[], ''api'', ''agents'', ''{pseudonymId}'', ''voice-profile''],
     [[], ''api'', ''rtx'', ''publish''],
     [[], ''api'', ''rtx'', ''subscribe''],
     [[], ''api'', ''rtx'', ''subscriptions''],
     [[], ''api'', ''rtx'', ''governance'', ''transfers''],
     [[], ''api'', ''rtx'', ''governance'', ''summary''],
     [[], ''api'', ''admin'', ''policy''],
     [[], ''api'', ''admin'', ''server''],
     [[], ''api'', ''admin'', ''public-url''],
     [[], ''api'', ''admin'', ''federation'', ''{id}''],
     [[], ''api'', ''admin'', ''members''],
     [[], ''api'', ''admin'', ''members'', ''{pseudonymId}'', ''capabilities''],
     [[], ''api'', ''profile'', ''username''],
     [[], ''api'', ''profile'', ''username'', ''grant''],
     [[], ''api'', ''profile'', ''username'', ''grant'', ''{granteePseudonym}''],
     [[], ''api'', ''profile'', ''username'', ''grants''],
     [[], ''api'', ''usernames'', ''visible''],
     [[], ''api'', ''link-preview''],
     [[], ''api'', ''ws'', ''token''],
     [[], ''api'', ''graph'', ''profile'', ''{targetPseudonym}'']]"
  by (simp add: protected_routes_def segments_def)

lemma upload_segments:
  "map (segments \<circ> fst) upload_routes =
    [[[], ''api'', ''admin'', ''server'', ''image''],
     [[], ''api'', ''channels'', ''{channelId}'', ''upload'']]"
  by (simp add: upload_routes_def segments_def)

lemma mount_segments: "map (segments \<circ> mt_pattern) (mount auth limit rs) = map (segments \<circ> fst) rs"
  by (simp add: mount_def case_prod_beta comp_def)

lemma table_segments:
  "map (segments \<circ> mt_pattern) app_routes
     = map (segments \<circ> fst) public_routes @ map (segments \<circ> fst) protected_routes @ map (segments \<circ> fst) upload_routes"
  by (simp only: app_routes_def map_append mount_segments)

lemma table_no_overlap: "no_overlap (map (segments \<circ> mt_pattern) app_routes)"
  unfolding table_segments public_segments protected_segments upload_segments
  by (simp add: is_param_def starts_with_def)

lemma first_where_no_overlap:
  "no_overlap (map f rs) \<Longrightarrow> r \<in> set rs \<Longrightarrow> P r \<Longrightarrow> (\<And>a b. P a \<Longrightarrow> P b \<Longrightarrow> overlap (f a) (f b)) \<Longrightarrow> first_where P rs = Some r"
proof (induction rs)
  case (Cons x rs)
  show ?case
  proof (cases "x = r")
    case False
    then have "r \<in> set rs" using Cons.prems(2) by simp
    then have "\<not> overlap (f x) (f r)" using Cons.prems(1) by (simp add: list_all_iff)
    then have "\<not> P x" using Cons.prems(3,4) by blast
    then show ?thesis using Cons.IH [OF _ \<open>r \<in> set rs\<close> Cons.prems(3,4)] Cons.prems(1) by simp
  qed (use Cons.prems(3) in simp)
qed simp

lemma find_route_unique:
  assumes "r \<in> set app_routes" and "route_matches r path"
  shows "find_route path = Some r"
  unfolding find_route_def
  by (rule first_where_no_overlap [where P = "\<lambda>r. route_matches r path", OF table_no_overlap assms]) (auto simp: route_matches_def intro: segments_match_overlap)

lemma first_where_found: "first_where P rs = Some r \<Longrightarrow> r \<in> set rs \<and> P r"
  by (induction rs) (auto split: if_splits)

lemma find_route_Some: "find_route path = Some r \<Longrightarrow> r \<in> set app_routes \<and> route_matches r path"
  unfolding find_route_def by (rule first_where_found)

end
