(* ===== verification/Annex_Router.thy ===== *)
theory Annex_Router
  imports Annex_Routes
begin

text \<open>
  The layers that a request goes through before a handler runs (\<open>app\<close> in \<open>annex-server/src/lib.rs\<close>),
  and the origins that may call it from a browser. The preflight requests, which the outermost
  layer answers, are left out.
\<close>

section \<open>The layers\<close>

datatype outcome =
    LimiterAnswer StatusCode
  | AuthRefused StatusCode
  | MethodNotAllowed
  | Static string
  | NotRouted
  | Runs string "PlatformIdentity option" nat

record app_request =
  aq_method :: Method
  aq_http :: http_request
  aq_pseudonym_header :: header_value
  aq_authorization :: header_value

text \<open>
  What is not routed goes to the upload directory and the client's files, where they exist at the
  start; unknown paths of the client get its index.
\<close>

definition static_response :: "bool \<Rightarrow> bool \<Rightarrow> string \<Rightarrow> outcome" where
  "static_response with_uploads with_client path =
     (if with_uploads \<and> (path = ''/uploads'' \<or> starts_with path ''/uploads/'') then Static ''uploads''
      else if with_client then Static ''client'' else NotRouted)"

definition dispatch :: "faults \<Rightarrow> db \<Rightarrow> int \<Rightarrow> bool \<Rightarrow> bool \<Rightarrow> app_request \<Rightarrow> outcome" where
  "dispatch flt d s with_uploads with_client q =
     (case find_route (rq_path (aq_http q)) of
        None \<Rightarrow> static_response with_uploads with_client (rq_path (aq_http q))
      | Some r \<Rightarrow>
          (case (if mt_auth r then map_sum id Some (auth_middleware flt d s (aq_pseudonym_header q) (aq_authorization q)) else Inr None) of
             Inl status \<Rightarrow> AuthRefused status
           | Inr who \<Rightarrow>
               (case method_handler r (aq_method q) of
                  None \<Rightarrow> MethodNotAllowed
                | Some h \<Rightarrow> Runs h who (mt_body_limit r))))"

text \<open>
  The limiter is outside the layer that adds the security headers; the second component is whether
  the response gets them.
\<close>

definition serve_request ::
  "nat \<Rightarrow> ServerPolicy option \<Rightarrow> faults \<Rightarrow> db \<Rightarrow> int \<Rightarrow> bool \<Rightarrow> bool \<Rightarrow> app_request \<Rightarrow> limiter_state \<Rightarrow> (outcome \<times> bool) \<times> limiter_state" where
  "serve_request now policy flt d s with_uploads with_client q st =
     (case rate_limit_middleware now policy (aq_http q) st of
        (Inl status, st') \<Rightarrow> ((LimiterAnswer status, False), st')
      | (Inr (Answered status retry), st') \<Rightarrow> ((LimiterAnswer status, False), st')
      | (Inr PassedOn, st') \<Rightarrow> ((dispatch flt d s with_uploads with_client q, True), st'))"

section \<open>Origins\<close>

datatype allowed_origins = AnyOrigin | Origins "string list"

record cors_layer =
  cl_origins :: allowed_origins
  cl_methods :: "Method list"
  cl_headers :: "string list"

text \<open>\<open>header_value\<close>: the text is a valid value of a header.\<close>

definition build_cors_layer :: "(string \<Rightarrow> bool) \<Rightarrow> string list \<Rightarrow> cors_layer" where
  "build_cors_layer header_value origins =
     \<lparr>cl_origins = (if ''*'' \<in> set origins then AnyOrigin else Origins (filter header_value origins)),
      cl_methods = [GET, POST, PUT, DELETE, PATCH, OPTIONS],
      cl_headers = [''content-type'', ''authorization'', ''x-annex-pseudonym'']\<rparr>"

section \<open>Who gets through\<close>

text \<open>No public pattern matches a path below \<open>/api/admin/\<close>.\<close>

fun admin_free :: "string list \<Rightarrow> bool" where
  "admin_free (a # b # c # segs) \<longleftrightarrow> is_param a \<or> a \<noteq> [] \<or> \<not> is_param b \<and> b \<noteq> ''api'' \<or> \<not> is_param c \<and> c \<noteq> ''admin''"
| "admin_free segs = True"

lemma split_on_nonempty: "split_on c s \<noteq> []"
  by (induction s) (simp_all split: list.split)

lemma segments_admin: "\<exists>segs. segments (''/api/admin/'' @ rest) = [] # ''api'' # ''admin'' # segs \<and> segs \<noteq> []"
  using split_on_nonempty by (simp add: segments_def)

lemma admin_free_no_match: "admin_free p \<Longrightarrow> segs \<noteq> [] \<Longrightarrow> \<not> segments_match p ([] # ''api'' # ''admin'' # segs)"
  by (cases p rule: admin_free.cases) (auto split: if_splits simp: is_param_def starts_with_def neq_Nil_conv)

lemma public_admin_free: "list_all (admin_free \<circ> segments \<circ> mt_pattern) (mount False limit public_routes)"
proof -
  have "list_all admin_free (map (segments \<circ> fst) public_routes)"
    unfolding public_segments by (simp add: is_param_def starts_with_def)
  then show ?thesis by (simp add: list_all_iff mount_def case_prod_beta)
qed

lemma unauthenticated_public: "r \<in> set app_routes \<Longrightarrow> \<not> mt_auth r \<Longrightarrow> r \<in> set (mount False MAX_REQUEST_BODY_BYTES public_routes)"
  by (auto simp: app_routes_def mount_def)

lemma admin_protected:
  assumes "find_route (''/api/admin/'' @ rest) = Some r"
  shows "mt_auth r"
proof (rule ccontr)
  assume "\<not> mt_auth r"
  have r: "r \<in> set app_routes" "route_matches r (''/api/admin/'' @ rest)" using find_route_Some [OF assms] by blast+
  then have "admin_free (segments (mt_pattern r))"
    using public_admin_free unauthenticated_public [OF r(1) \<open>\<not> mt_auth r\<close>] by (auto simp: list_all_iff)
  moreover obtain segs where "segments (''/api/admin/'' @ rest) = [] # ''api'' # ''admin'' # segs" "segs \<noteq> []"
    using segments_admin by blast
  ultimately show False using admin_free_no_match r(2) by (simp add: route_matches_def)
qed

definition public_handlers :: "string list" where
  "public_handlers = concat (map (map snd \<circ> snd) public_routes)"

lemma dispatch_Runs:
  assumes "dispatch flt d s u c q = Runs h who limit"
  obtains r where "find_route (rq_path (aq_http q)) = Some r" "method_handler r (aq_method q) = Some h" "limit = mt_body_limit r"
    "if mt_auth r then \<exists>i. who = Some i \<and> auth_middleware flt d s (aq_pseudonym_header q) (aq_authorization q) = Inr i else who = None"
proof -
  obtain r where r: "find_route (rq_path (aq_http q)) = Some r"
    using assms by (cases "find_route (rq_path (aq_http q))") (auto simp: dispatch_def static_response_def split: if_splits)
  show thesis
    by (rule that [OF r]; use assms in \<open>simp add: dispatch_def r split: sum.splits option.splits if_splits\<close>)
      (cases "auth_middleware flt d s (aq_pseudonym_header q) (aq_authorization q)"; auto)+
qed

lemma handler_in_table: "r \<in> set (mount auth limit rs) \<Longrightarrow> method_handler r m = Some h \<Longrightarrow> h \<in> set (concat (map (map snd \<circ> snd) rs))"
  by (auto simp: mount_def method_handler_def split: option.splits if_splits dest!: map_of_SomeD) force+

text \<open>
  C6. A handler runs only for a request that the limiter passed on, and unless it is one of the
  listed public handlers, only for a caller whose headers the authentication resolves to an active
  identity of this server, which is the identity the handler gets. Every path below
  \<open>/api/admin/\<close> is of the second kind. Its answer carries the security headers, and a body of
  more than 2 MiB is read for authenticated uploads alone.
\<close>

theorem handlers_guarded:
  assumes "serve_request now policy flt d s u c q st = ((Runs h who limit, headers), st')"
  shows "fst (rate_limit_middleware now policy (aq_http q) st) = Inr PassedOn \<and> headers
    \<and> (case who of
         None \<Rightarrow> h \<in> set public_handlers \<and> limit = MAX_REQUEST_BODY_BYTES
           \<and> \<not> (\<exists>rest. rq_path (aq_http q) = ''/api/admin/'' @ rest)
       | Some i \<Rightarrow> auth_middleware flt d s (aq_pseudonym_header q) (aq_authorization q) = Inr i \<and> pf_active i
           \<and> limit \<in> {MAX_REQUEST_BODY_BYTES, 50 * 1024 * 1024})"
proof -
  obtain l st1 where l: "rate_limit_middleware now policy (aq_http q) st = (l, st1)" by fastforce
  have p: "l = Inr PassedOn \<and> headers" "dispatch flt d s u c q = Runs h who limit"
    using assms by (auto simp: serve_request_def l split: sum.splits limited.splits)
  obtain r where r: "find_route (rq_path (aq_http q)) = Some r" "method_handler r (aq_method q) = Some h" "limit = mt_body_limit r"
    "if mt_auth r then \<exists>i. who = Some i \<and> auth_middleware flt d s (aq_pseudonym_header q) (aq_authorization q) = Inr i else who = None"
    by (rule dispatch_Runs [OF p(2)]) (rule that)
  have t: "r \<in> set app_routes" using find_route_Some [OF r(1)] by blast
  then have lim: "limit \<in> {MAX_REQUEST_BODY_BYTES, 50 * 1024 * 1024}" by (auto simp: r(3) app_routes_def mount_def)
  show ?thesis
  proof (cases "mt_auth r")
    case True
    then obtain i where "who = Some i" "auth_middleware flt d s (aq_pseudonym_header q) (aq_authorization q) = Inr i"
      using r(4) by auto
    then show ?thesis using p(1) lim by (auto simp: l auth_middleware_Inr)
  next
    case False
    then have "r \<in> set (mount False MAX_REQUEST_BODY_BYTES public_routes)" by (rule unauthenticated_public [OF t])
    then have "h \<in> set public_handlers" "limit = MAX_REQUEST_BODY_BYTES"
      using handler_in_table [OF _ r(2)] by (auto simp: public_handlers_def r(3) mount_def)
    moreover have "\<not> (\<exists>rest. rq_path (aq_http q) = ''/api/admin/'' @ rest)" using admin_protected r(1) False by metis
    ultimately show ?thesis using p(1) r(4) False by (simp add: l)
  qed
qed

definition demo_request :: app_request where
  "demo_request = \<lparr>aq_method = GET,
     aq_http = \<lparr>rq_path = ''/api/admin/policy'', rq_identity = None, rq_peer = Some \<lparr>sa_ip = V4 7, sa_port = 4000\<rparr>,
       rq_forwarded_proto = Absent, rq_forwarded_host = Absent, rq_host = Absent\<rparr>,
     aq_pseudonym_header = Absent, aq_authorization = Header ''Bearer alice''\<rparr>"

definition demo_users :: db where
  "demo_users = snd (create_platform_identity 5 (migrated_db 0) 1 ''alice'' RoleCode.Human)"

lemma demo_alice: "\<exists>i. auth_middleware no_faults demo_users 1 Absent (Header ''Bearer alice'') = Inr i"
proof -
  let ?r = "hd (platform_rows demo_users)"
  have r: "platform_rows demo_users = [?r]" "pi_server ?r = 1" "pi_pseudonym ?r = ''alice''" "pi_active ?r"
    "pi_type ?r = label RoleCode.Human"
    by (simp_all add: demo_users_def create_platform_identity_def migrated_db_def exists_where_def Let_def founder_flag_def count_where_def)
  have "get_platform_identity demo_users 1 ''alice'' = Inr (identity_of ?r RoleCode.Human)"
    by (simp add: get_platform_identity_def r(2-5), subst r(1), simp add: r(2-5) identity_of_def role_from_str_def)
  then show ?thesis using r(4) by (simp add: auth_middleware_Inr auth_token_Inr no_faults_def)
qed

lemma demo_dispatch: "\<exists>i. dispatch no_faults demo_users 1 u c demo_request = Runs ''api_admin::get_policy_handler'' (Some i) MAX_REQUEST_BODY_BYTES"
proof -
  let ?r = "\<lparr>mt_pattern = ''/api/admin/policy'', mt_methods = [(GET, ''api_admin::get_policy_handler''),
    (PUT, ''api_admin::update_policy_handler'')], mt_auth = True, mt_body_limit = MAX_REQUEST_BODY_BYTES\<rparr>"
  have "find_route ''/api/admin/policy'' = Some ?r"
  proof (rule find_route_unique)
    show "?r \<in> set app_routes" by (simp add: app_routes_def mount_def protected_routes_def)
    show "route_matches ?r ''/api/admin/policy''" by (simp add: route_matches_def segments_def is_param_def starts_with_def)
  qed
  then show ?thesis using demo_alice by (auto simp: dispatch_def demo_request_def method_handler_def)
qed

lemma demo_passes: "fst (rate_limit_middleware 0 (Some default_policy) (aq_http demo_request) \<lparr>ls_public_url = [], ls_limiter = []\<rparr>) = Inr PassedOn"
  by (simp add: rate_limit_middleware_def demo_request_def classify_def rate_limit_key_def check_def rotate_window_def
      effective_no_prev default_policy_def default_rate_limit_def Let_def)

text \<open>What the limiter answers itself leaves without the security headers.\<close>

lemma limiter_answers_bare: "fst (serve_request now policy flt d s u c q st) = (LimiterAnswer status, headers) \<Longrightarrow> \<not> headers"
proof -
  have "dispatch flt d s u c q \<noteq> LimiterAnswer status"
    by (auto simp: dispatch_def static_response_def split: option.split sum.split)
  then show "fst (serve_request now policy flt d s u c q st) = (LimiterAnswer status, headers) \<Longrightarrow> \<not> headers"
    by (auto simp: serve_request_def split: prod.splits sum.splits limited.splits)
qed

lemma proof_header_not_allowed: "''x-annex-zk-proof'' \<notin> set (cl_headers (build_cors_layer header_value origins))"
  by (simp add: build_cors_layer_def)

lemma no_origin_by_default: "cl_origins (build_cors_layer header_value []) = Origins []"
  by (simp add: build_cors_layer_def)

theorem handlers_guarded_witness:
  "\<exists>i st'. serve_request 0 (Some default_policy) no_faults demo_users 1 False False demo_request \<lparr>ls_public_url = [], ls_limiter = []\<rparr>
      = ((Runs ''api_admin::get_policy_handler'' (Some i) MAX_REQUEST_BODY_BYTES, True), st') \<and> pf_active i"
proof -
  obtain i where i: "dispatch no_faults demo_users 1 False False demo_request = Runs ''api_admin::get_policy_handler'' (Some i) MAX_REQUEST_BODY_BYTES"
    using demo_dispatch by blast
  obtain st' where "rate_limit_middleware 0 (Some default_policy) (aq_http demo_request) \<lparr>ls_public_url = [], ls_limiter = []\<rparr> = (Inr PassedOn, st')"
    using demo_passes by (metis prod.collapse)
  then have s: "serve_request 0 (Some default_policy) no_faults demo_users 1 False False demo_request \<lparr>ls_public_url = [], ls_limiter = []\<rparr>
      = ((Runs ''api_admin::get_policy_handler'' (Some i) MAX_REQUEST_BODY_BYTES, True), st')"
    by (simp add: serve_request_def i)
  with handlers_guarded [OF s] show ?thesis by auto
qed

end
