(* ===== verification/Annex_Desktop.thy ===== *)
theory Annex_Desktop
  imports Annex_Startup
begin

text \<open>
  The desktop application (\<open>annex-desktop/src/main.rs\<close>): its configuration file, the environment it
  prepares for the embedded server, and the commands that start and stop the server, the tunnel
  and the local media server. What a child process writes, whether a port is free and what a
  download gives are arguments; the processes that run are part of the state, by number. The
  window, the dialogs and the commands that are not registered are left out.
\<close>

section \<open>The configuration file\<close>

definition dq :: "string \<Rightarrow> string" where
  "dq s = [CHR 0x22] @ s @ [CHR 0x22]"

definition config_lines :: "string \<Rightarrow> string list" where
  "config_lines db_path =
     [''# Annex desktop configuration (auto-generated).'', [],
      ''[server]'', ''host = '' @ dq ''127.0.0.1'', ''port = 0'', [],
      ''[database]'', ''path = '' @ dq db_path, ''busy_timeout_ms = 5000'', ''pool_max_size = 8'', [],
      ''[logging]'', ''level = '' @ dq ''info'', ''json = false'', [],
      ''[cors]'',
      ''# Desktop defaults: allow Tauri webview origins (macOS/Linux + Windows).'',
      ''# Override with ANNEX_CORS_ORIGINS env var if needed.'',
      ''allowed_origins = ['' @ dq ''tauri://localhost'' @ '', '' @ dq ''https://tauri.localhost'' @ '', ''
        @ dq ''http://tauri.localhost'' @ '']'', [],
      ''# [livekit]'',
      ''# Uncomment and configure to enable voice channels (LiveKit WebRTC).'',
      ''# url = '' @ dq ''ws://localhost:7880'',
      ''# api_key = '' @ dq [],
      ''# api_secret = '' @ dq [],
      ''# token_ttl_seconds = 3600'',
      ''#'',
      ''# STUN/TURN servers for WebRTC NAT traversal. Defaults to Google STUN.'',
      ''# Add TURN servers for restrictive corporate networks that block UDP.'',
      ''# [[livekit.ice_servers]]'',
      ''# urls = ['' @ dq ''stun:stun.l.google.com:19302'' @ '', '' @ dq ''stun:stun1.l.google.com:19302'' @ '']'',
      ''#'',
      ''# [[livekit.ice_servers]]'',
      ''# urls = ['' @ dq ''turn:turn.example.com:3478?transport=udp'' @ '', '' @ dq ''turns:turn.example.com:5349?transport=tcp'' @ '']'',
      ''# username = '' @ dq ''your-turn-username'',
      ''# credential = '' @ dq ''your-turn-credential'']"

definition slashed :: "string \<Rightarrow> string" where
  "slashed = map (\<lambda>c. if c = backslash then CHR ''/'' else c)"

definition default_contents :: "string \<Rightarrow> string" where
  "default_contents data_dir = concat (map (\<lambda>l. l @ newline) (config_lines (slashed (path_join data_dir ''annex.db''))))"

definition fix_backslash_paths :: "bool \<Rightarrow> file_read \<Rightarrow> (string + unit) \<times> file_read" where
  "fix_backslash_paths writable config =
     (case config of
        FileNotFound \<Rightarrow> (Inr (), config)
      | FileError \<Rightarrow> (Inl ''failed to read config'', config)
      | Contents contents \<Rightarrow>
          if contains contents [CHR '':'', backslash]
          then if writable then (Inr (), Contents (slashed contents)) else (Inl ''failed to fix backslash paths in config'', config)
          else (Inr (), config))"

text \<open>The path of the file, and what it holds afterwards.\<close>

definition ensure_config :: "bool \<Rightarrow> string \<Rightarrow> file_read \<Rightarrow> (string + string) \<times> file_read" where
  "ensure_config writable data_dir config =
     (if config = FileNotFound \<and> \<not> writable then (Inl ''failed to write default config'', config)
      else case fix_backslash_paths writable (if config = FileNotFound then Contents (default_contents data_dir) else config) of
             (Inl e, config') \<Rightarrow> (Inl e, config')
           | (Inr _, config') \<Rightarrow> (Inr (path_join data_dir ''config.toml''), config'))"

section \<open>The startup mode\<close>

datatype StartupMode = Host | Client string

record StartupPrefs =
  sp_startup_mode :: StartupMode

definition get_startup_mode :: "(string \<Rightarrow> StartupPrefs option) \<Rightarrow> file_read \<Rightarrow> StartupPrefs option" where
  "get_startup_mode from_json prefs_file = (case prefs_file of Contents s \<Rightarrow> from_json s | _ \<Rightarrow> None)"

definition save_startup_mode ::
  "(StartupPrefs \<Rightarrow> string option) \<Rightarrow> bool \<Rightarrow> StartupPrefs \<Rightarrow> file_read \<Rightarrow> (string + unit) \<times> file_read" where
  "save_startup_mode to_json writable prefs prefs_file =
     (case to_json prefs of
        None \<Rightarrow> (Inl ''serialize error'', prefs_file)
      | Some json \<Rightarrow> if writable then (Inr (), Contents json) else (Inl ''write error'', prefs_file))"

definition clear_startup_mode :: "bool \<Rightarrow> file_read \<Rightarrow> (string + unit) \<times> file_read" where
  "clear_startup_mode removable prefs_file =
     (if prefs_file = FileNotFound then (Inr (), prefs_file)
      else if removable then (Inr (), FileNotFound) else (Inl ''remove error'', prefs_file))"

section \<open>The environment\<close>

definition set_var :: "string \<Rightarrow> string \<Rightarrow> env \<Rightarrow> env" where
  "set_var name v env = env(name := Set v)"

definition set_if :: "string \<Rightarrow> string option \<Rightarrow> env \<Rightarrow> env" where
  "set_if name v env = (case v of Some x \<Rightarrow> set_var name x env | None \<Rightarrow> env)"

fun is_set :: "env_value \<Rightarrow> bool" where
  "is_set (Set _) = True"
| "is_set _ = False"

definition desktop_origins :: string where
  "desktop_origins = ''tauri://localhost,https://tauri.localhost,http://tauri.localhost''"

text \<open>The first candidate that exists, of the lists for the key, the binary and the voices.\<close>

definition main_env ::
  "(string \<Rightarrow> bool) \<Rightarrow> string \<Rightarrow> string \<Rightarrow> string list \<Rightarrow> string list \<Rightarrow> string list \<Rightarrow> string option \<Rightarrow> env \<Rightarrow> env" where
  "main_env there client_dir upload_dir vkeys pipers voices keyring env =
     (let env1 = set_var ''ANNEX_UPLOAD_DIR'' upload_dir
            (set_if ''ANNEX_TTS_VOICES_DIR'' (List.find there voices)
            (set_if ''ANNEX_TTS_BINARY_PATH'' (List.find there pipers)
            (set_if ''ANNEX_ZK_KEY_PATH'' (List.find there vkeys)
            (set_var ''ANNEX_CLIENT_DIR'' client_dir env))));
          env2 = (if is_set (env1 ''ANNEX_CORS_ORIGINS'') then env1 else set_var ''ANNEX_CORS_ORIGINS'' desktop_origins env1)
      in if is_set (env2 ''ANNEX_LIVEKIT_API_SECRET'') then env2 else set_if ''ANNEX_LIVEKIT_API_SECRET'' keyring env2)"

section \<open>Processes\<close>

record child =
  cp_url :: string
  cp_pid :: nat

record desktop =
  dk_server :: "string option"
  dk_tunnel :: "child option"
  dk_livekit :: "child option"
  dk_env :: env
  dk_running :: "nat list"
  dk_next_pid :: nat

text \<open>
  What a child does until the deadline: the lines that it writes, and how the wait ends when none of
  them is the one that is waited for.
\<close>

datatype ending = TimedOut | Exited | PipeBroken

record spawned =
  sw_lines :: "string list"
  sw_ending :: ending

fun ending_error :: "ending \<Rightarrow> string" where
  "ending_error TimedOut = ''timed out''"
| "ending_error Exited = ''exited''"
| "ending_error PipeBroken = ''read error''"

definition spawn :: "desktop \<Rightarrow> nat \<times> desktop" where
  "spawn st = (dk_next_pid st, st\<lparr>dk_running := dk_next_pid st # dk_running st, dk_next_pid := Suc (dk_next_pid st)\<rparr>)"

definition kill :: "nat \<Rightarrow> desktop \<Rightarrow> desktop" where
  "kill pid st = st\<lparr>dk_running := filter (\<lambda>q. q \<noteq> pid) (dk_running st)\<rparr>"

text \<open>A handle that is dropped does not stop its process; only one that exits by itself is gone.\<close>

definition abandon :: "nat \<Rightarrow> ending \<Rightarrow> desktop \<Rightarrow> desktop" where
  "abandon pid e st = (if e = Exited then kill pid st else st)"

definition local_url :: "string \<Rightarrow> 16 word \<Rightarrow> string" where
  "local_url scheme port = scheme @ ''127.0.0.1:'' @ decimal (unat port)"

section \<open>The embedded server\<close>

text \<open>\<open>prepared config\<close> is the port that the started server listens on; \<open>healthy k\<close> answers the \<open>k\<close>-th probe.\<close>

definition start_embedded_server ::
  "(env \<Rightarrow> ConfigError + Config) \<Rightarrow> (Config \<Rightarrow> string + 16 word) \<Rightarrow> (nat \<Rightarrow> bool) \<Rightarrow> desktop \<Rightarrow> (string + string) \<times> desktop" where
  "start_embedded_server load prepared healthy st =
     (case dk_server st of
        Some url \<Rightarrow> (Inr url, st)
      | None \<Rightarrow>
          (case and_then (map_err (\<lambda>_. ''config error'') (load (dk_env st))) prepared of
             Inl e \<Rightarrow> (Inl e, st)
           | Inr port \<Rightarrow>
               (let url = local_url ''http://'' port; st' = st\<lparr>dk_server := Some url\<rparr>
                in if \<exists>k \<in> set [0..<50]. healthy k then (Inr url, st')
                   else (Inl ''embedded server failed to become ready within 5 seconds'', st'))))"

section \<open>The tunnel\<close>

function white_split :: "string \<Rightarrow> string list" where
  "white_split s =
     (case List.find (\<lambda>w. w \<noteq> [] \<and> starts_with s w) white_space of
        Some w \<Rightarrow> [] # white_split (drop (length w) s)
      | None \<Rightarrow>
          (case s of
             [] \<Rightarrow> [[]]
           | c # cs \<Rightarrow> (case white_split cs of p # ps \<Rightarrow> (c # p) # ps | [] \<Rightarrow> [[c]])))"
  by pat_completeness auto
termination
  by (relation "measure length")
    (auto simp: find_Some_iff starts_with_def, metis append_Nil2 append_take_drop_id length_greater_0_conv length_drop diff_less take_Nil)

declare white_split.simps [simp del]

definition trim_bars :: "string \<Rightarrow> string" where
  "trim_bars s = rev (dropWhile (\<lambda>c. c = CHR ''|'') (rev (dropWhile (\<lambda>c. c = CHR ''|'') s)))"

definition extract_tunnel_url :: "string \<Rightarrow> string option" where
  "extract_tunnel_url row =
     List.find (\<lambda>w. contains w ''.trycloudflare.com'' \<and> starts_with w ''https://'')
       (map (\<lambda>w. trim (trim_bars w)) (filter (\<lambda>w. w \<noteq> []) (white_split row)))"

definition port_of_url :: "string \<Rightarrow> 16 word option" where
  "port_of_url url = parse_unsigned (last (split_on (CHR '':'') url))"

definition start_tunnel :: "string + string \<Rightarrow> bool \<Rightarrow> spawned \<Rightarrow> desktop \<Rightarrow> (string + string) \<times> desktop" where
  "start_tunnel binary spawns w st =
     (case dk_tunnel st of
        Some t \<Rightarrow> (Inr (cp_url t), st)
      | None \<Rightarrow>
          (case and_then (ok_or (dk_server st) ''embedded server is not running'') (\<lambda>url.
                and_then (ok_or (port_of_url url) ''could not parse port from server URL'') (\<lambda>port.
                and_then binary (\<lambda>p. if spawns then Inr () else Inl ''failed to start cloudflared''))) of
             Inl e \<Rightarrow> (Inl e, st)
           | Inr _ \<Rightarrow>
               (let (pid, st') = spawn st in
                case List.find (\<lambda>u. u \<noteq> None) (map extract_tunnel_url (sw_lines w)) of
                  Some (Some url) \<Rightarrow> (Inr url, st'\<lparr>dk_tunnel := Some \<lparr>cp_url = url, cp_pid = pid\<rparr>\<rparr>)
                | _ \<Rightarrow> (Inl (ending_error (sw_ending w)), abandon pid (sw_ending w) st'))))"

definition stop_tunnel :: "desktop \<Rightarrow> desktop" where
  "stop_tunnel st = (case dk_tunnel st of None \<Rightarrow> st | Some t \<Rightarrow> kill (cp_pid t) (st\<lparr>dk_tunnel := None\<rparr>))"

definition get_tunnel_url :: "desktop \<Rightarrow> string option" where
  "get_tunnel_url st = map_option cp_url (dk_tunnel st)"

section \<open>The local media server\<close>

definition find_available_port :: "(16 word \<Rightarrow> bool) \<Rightarrow> 16 word \<Rightarrow> 16 word \<Rightarrow> 16 word option" where
  "find_available_port free a b = List.find free (map of_nat [unat a..<Suc (unat b)])"

definition ready_line :: "string \<Rightarrow> bool" where
  "ready_line l \<longleftrightarrow> contains l ''started'' \<or> contains l ''ready'' \<or> contains l ''listening''"

definition livekit_env :: "string \<Rightarrow> string \<Rightarrow> string \<Rightarrow> env \<Rightarrow> env" where
  "livekit_env url api_key api_secret env =
     set_var ''ANNEX_LIVEKIT_API_SECRET'' api_secret (set_var ''ANNEX_LIVEKIT_API_KEY'' api_key
       (set_var ''ANNEX_LIVEKIT_PUBLIC_URL'' url (set_var ''ANNEX_LIVEKIT_URL'' url env)))"

definition start_local_livekit ::
  "string + string \<Rightarrow> string \<Rightarrow> string \<Rightarrow> (16 word \<Rightarrow> bool) \<Rightarrow> bool \<Rightarrow> spawned \<Rightarrow> desktop
     \<Rightarrow> (string + string \<times> 16 word option) \<times> desktop" where
  "start_local_livekit binary uuid1 uuid2 free spawns w st =
     (case dk_livekit st of
        Some lk \<Rightarrow> (Inr (cp_url lk, None), st)
      | None \<Rightarrow>
          if dk_server st \<noteq> None then (Inl ''embedded server is already running'', st)
          else case and_then binary (\<lambda>_. and_then (ok_or (find_available_port free 7880 7899) ''no available port'') (\<lambda>port.
                 if spawns then Inr port else Inl ''failed to start livekit-server'')) of
            Inl e \<Rightarrow> (Inl e, st)
          | Inr port \<Rightarrow>
              (let (pid, st') = spawn st; url = local_url ''ws://'' port
               in if \<not> list_ex ready_line (sw_lines w) then (Inl (ending_error (sw_ending w)), abandon pid (sw_ending w) st')
                  else (Inr (url, Some port),
                    st'\<lparr>dk_env := livekit_env url (''annex_'' @ uuid1) (''secret_'' @ uuid2) (dk_env st'),
                        dk_livekit := Some \<lparr>cp_url = url, cp_pid = pid\<rparr>\<rparr>)))"

section \<open>The commands\<close>

datatype desktop_op =
    StartServer "env \<Rightarrow> ConfigError + Config" "Config \<Rightarrow> string + 16 word" "nat \<Rightarrow> bool"
  | StartTunnel "string + string" bool spawned
  | StopTunnel
  | StartLiveKit "string + string" string string "16 word \<Rightarrow> bool" bool spawned

fun desktop_step :: "desktop_op \<Rightarrow> desktop \<Rightarrow> desktop" where
  "desktop_step (StartServer load prepared healthy) st = snd (start_embedded_server load prepared healthy st)"
| "desktop_step (StartTunnel binary spawns w) st = snd (start_tunnel binary spawns w st)"
| "desktop_step StopTunnel st = stop_tunnel st"
| "desktop_step (StartLiveKit binary u1 u2 free spawns w) st = snd (start_local_livekit binary u1 u2 free spawns w st)"

definition desktop_ok :: "desktop \<Rightarrow> bool" where
  "desktop_ok st \<longleftrightarrow> distinct (dk_running st) \<and> (\<forall>q \<in> set (dk_running st). q < dk_next_pid st)
     \<and> (case dk_tunnel st of Some t \<Rightarrow> cp_pid t < dk_next_pid st | None \<Rightarrow> True)
     \<and> (case (dk_tunnel st, dk_livekit st) of (Some t, Some l) \<Rightarrow> cp_pid t \<noteq> cp_pid l | _ \<Rightarrow> True)
     \<and> (case dk_livekit st of Some l \<Rightarrow> cp_pid l \<in> set (dk_running st) | None \<Rightarrow> True)
     \<and> (case dk_tunnel st of Some t \<Rightarrow> cp_pid t \<in> set (dk_running st) | None \<Rightarrow> True)"

lemma start_server_cases:
  obtains "snd (start_embedded_server load prepared healthy st) = st"
  | u where "snd (start_embedded_server load prepared healthy st) = st\<lparr>dk_server := Some u\<rparr>" "dk_server st = None"
proof (cases "dk_server st")
  case None
  show thesis
  proof (cases "and_then (map_err (\<lambda>_. ''config error'') (load (dk_env st))) prepared")
    case (Inl e)
    then show thesis using that(1) None by (simp add: start_embedded_server_def)
  next
    case (Inr port)
    have "snd (start_embedded_server load prepared healthy st) = st\<lparr>dk_server := Some (local_url ''http://'' port)\<rparr>"
      unfolding start_embedded_server_def None Inr by (simp add: Let_def)
    then show thesis using that(2) None by blast
  qed
qed (use that(1) in \<open>simp add: start_embedded_server_def\<close>)

lemma start_tunnel_cases:
  obtains (same) "snd (start_tunnel binary spawns w st) = st"
  | (failed) e where "start_tunnel binary spawns w st = (Inl e, abandon (dk_next_pid st) (sw_ending w) (snd (spawn st)))" "dk_tunnel st = None"
  | (started) u where "start_tunnel binary spawns w st = (Inr u, (snd (spawn st))\<lparr>dk_tunnel := Some \<lparr>cp_url = u, cp_pid = dk_next_pid st\<rparr>\<rparr>)"
      "dk_tunnel st = None"
proof (cases "dk_tunnel st")
  case None
  show thesis
  proof (cases "and_then (ok_or (dk_server st) ''embedded server is not running'') (\<lambda>url.
                and_then (ok_or (port_of_url url) ''could not parse port from server URL'') (\<lambda>port.
                and_then binary (\<lambda>p. if spawns then Inr () else Inl ''failed to start cloudflared'')))")
    case (Inl e)
    then show thesis using same None by (simp add: start_tunnel_def)
  next
    case (Inr u)
    show thesis
    proof (cases "List.find (\<lambda>u. u \<noteq> None) (map extract_tunnel_url (sw_lines w))")
      case None
      then show thesis using failed \<open>dk_tunnel st = None\<close> Inr by (simp add: start_tunnel_def spawn_def)
    next
      case (Some x)
      then show thesis using failed started \<open>dk_tunnel st = None\<close> Inr by (cases x) (simp_all add: start_tunnel_def spawn_def)
    qed
  qed
qed (use same in \<open>simp add: start_tunnel_def\<close>)

lemma start_livekit_cases:
  obtains (same) "snd (start_local_livekit binary u1 u2 free spawns w st) = st"
  | (failed) e where "start_local_livekit binary u1 u2 free spawns w st = (Inl e, abandon (dk_next_pid st) (sw_ending w) (snd (spawn st)))"
      "dk_livekit st = None"
  | (started) u port where "start_local_livekit binary u1 u2 free spawns w st = (Inr (u, Some port),
      (snd (spawn st))\<lparr>dk_env := livekit_env u (''annex_'' @ u1) (''secret_'' @ u2) (dk_env st),
         dk_livekit := Some \<lparr>cp_url = u, cp_pid = dk_next_pid st\<rparr>\<rparr>)" "dk_livekit st = None"
proof (cases "dk_livekit st = None \<and> dk_server st = None")
  case True
  show thesis
  proof (cases "and_then binary (\<lambda>_. and_then (ok_or (find_available_port free 7880 7899) ''no available port'') (\<lambda>port.
                 if spawns then Inr port else Inl ''failed to start livekit-server''))")
    case (Inl e)
    then show thesis using same True by (simp add: start_local_livekit_def)
  next
    case (Inr port)
    show thesis
    proof (cases "list_ex ready_line (sw_lines w)")
      case True
      show thesis
        by (rule started [of "local_url ''ws://'' port" port]; use Inr True \<open>dk_livekit st = None \<and> dk_server st = None\<close> in
          \<open>simp add: start_local_livekit_def spawn_def Let_def\<close>)
    next
      case False
      then show thesis using failed Inr \<open>dk_livekit st = None \<and> dk_server st = None\<close>
        by (simp add: start_local_livekit_def spawn_def Let_def)
    qed
  qed
next
  case False
  then show thesis using same by (cases "dk_livekit st") (simp_all add: start_local_livekit_def)
qed

lemma desktop_ok_new:
  assumes "desktop_ok st"
  shows "desktop_ok (snd (spawn st))" "desktop_ok (kill (dk_next_pid st) (snd (spawn st)))"
    "dk_tunnel st = None \<Longrightarrow> desktop_ok ((snd (spawn st))\<lparr>dk_tunnel := Some \<lparr>cp_url = u, cp_pid = dk_next_pid st\<rparr>\<rparr>)"
    "dk_livekit st = None \<Longrightarrow> desktop_ok ((snd (spawn st))\<lparr>dk_env := e, dk_livekit := Some \<lparr>cp_url = u, cp_pid = dk_next_pid st\<rparr>\<rparr>)"
  using assms by (auto simp: desktop_ok_def spawn_def kill_def less_Suc_eq split: option.splits)

interpretation desktop: invariant_machine desktop_step desktop_ok
proof (standard, goal_cases)
  case (1 st op)
  show ?case
  proof (cases op)
    case (StartServer load prepared healthy)
    then show ?thesis using 1 by (cases rule: start_server_cases [of load prepared healthy st]) (simp_all add: desktop_ok_def cong: option.case_cong)
  next
    case (StartTunnel binary spawns w)
    then show ?thesis using 1 desktop_ok_new [OF 1]
      by (cases rule: start_tunnel_cases [of binary spawns w st]) (simp_all add: abandon_def)
  next
    case StopTunnel
    then show ?thesis using 1 by (auto simp: stop_tunnel_def kill_def desktop_ok_def split: option.splits)
  next
    case (StartLiveKit binary u1 u2 free spawns w)
    then show ?thesis using 1 desktop_ok_new [OF 1]
      by (cases rule: start_livekit_cases [of binary u1 u2 free spawns w st]) (simp_all add: abandon_def)
  qed
qed

text \<open>A process that runs and is not the one of the tunnel is out of reach of the commands.\<close>

definition out_of_reach :: "nat \<Rightarrow> desktop \<Rightarrow> bool" where
  "out_of_reach pid st \<longleftrightarrow> pid \<in> set (dk_running st) \<and> pid < dk_next_pid st
     \<and> (case dk_tunnel st of Some t \<Rightarrow> cp_pid t \<noteq> pid | None \<Rightarrow> True)"

interpretation stray: invariant_machine desktop_step "out_of_reach pid" for pid
proof (standard, goal_cases)
  case (1 st op)
  have new: "out_of_reach pid (snd (spawn st))" "out_of_reach pid (kill (dk_next_pid st) (snd (spawn st)))"
    "out_of_reach pid ((snd (spawn st))\<lparr>dk_tunnel := Some \<lparr>cp_url = u, cp_pid = dk_next_pid st\<rparr>\<rparr>)"
    "out_of_reach pid ((snd (spawn st))\<lparr>dk_env := e, dk_livekit := l\<rparr>)" for u e l
    using 1 by (auto simp: out_of_reach_def spawn_def kill_def)
  show ?case
  proof (cases op)
    case (StartServer load prepared healthy)
    then show ?thesis using 1 by (cases rule: start_server_cases [of load prepared healthy st]) (simp_all add: out_of_reach_def cong: option.case_cong)
  next
    case (StartTunnel binary spawns w)
    then show ?thesis using 1 new
      by (cases rule: start_tunnel_cases [of binary spawns w st]) (simp_all add: abandon_def)
  next
    case StopTunnel
    then show ?thesis using 1 by (auto simp: stop_tunnel_def kill_def out_of_reach_def split: option.splits)
  next
    case (StartLiveKit binary u1 u2 free spawns w)
    then show ?thesis using 1 new
      by (cases rule: start_livekit_cases [of binary u1 u2 free spawns w st]) (simp_all add: abandon_def)
  qed
qed

section \<open>Processes that nobody stops\<close>

lemma no_tunnel_found:
  "\<forall>l \<in> set ls. extract_tunnel_url l = None \<Longrightarrow> List.find (\<lambda>u. u \<noteq> None) (map extract_tunnel_url ls) = None"
  by (induction ls) auto

text \<open>
  C33. When the tunnel's program gives no address in time, the caller gets an error and the state says
  that there is no tunnel, but the program runs on, and no sequence of the application's commands
  stops it: stopping the tunnel does not reach it, and starting it again starts another one.
\<close>

theorem timed_out_tunnel_runs_on:
  assumes "desktop_ok st" and "dk_tunnel st = None" and "dk_server st = Some url" and "port_of_url url = Some p"
    and "\<forall>l \<in> set (sw_lines w). extract_tunnel_url l = None" and "sw_ending w = TimedOut"
  shows "\<exists>st' pid. start_tunnel (Inr b) True w st = (Inl ''timed out'', st') \<and> get_tunnel_url st' = None
    \<and> pid \<notin> set (dk_running st) \<and> (\<forall>ops. pid \<in> set (dk_running (fold desktop_step ops st')))"
proof -
  let ?st = "snd (spawn st)" and ?pid = "dk_next_pid st"
  have e: "start_tunnel (Inr b) True w st = (Inl ''timed out'', ?st)"
    using assms(2-4,6) no_tunnel_found [OF assms(5)] by (simp add: start_tunnel_def spawn_def abandon_def)
  have "out_of_reach ?pid ?st" using assms(2) by (simp add: out_of_reach_def spawn_def)
  then have "?pid \<in> set (dk_running (fold desktop_step ops ?st))" for ops
    using stray.run_inv [of ?pid ?st ops] by (simp add: out_of_reach_def)
  moreover have "?pid \<notin> set (dk_running st)" using assms(1) by (auto simp: desktop_ok_def)
  moreover have "get_tunnel_url ?st = None" using assms(2) by (simp add: get_tunnel_url_def spawn_def)
  ultimately show ?thesis using e by blast
qed

definition demo_desktop :: desktop where
  "demo_desktop = \<lparr>dk_server = Some ''http://127.0.0.1:3000'', dk_tunnel = None, dk_livekit = None, dk_env = (\<lambda>_. NotPresent),
     dk_running = [], dk_next_pid = 5\<rparr>"

lemma demo_port: "port_of_url ''http://127.0.0.1:3000'' = Some 3000"
  by (simp add: port_of_url_def parse_unsigned_def digits_nat_def digit_char_def of_char_of)

theorem timed_out_tunnel_runs_on_witness:
  "\<exists>st'. start_tunnel (Inr ''/bin/cloudflared'') True \<lparr>sw_lines = [], sw_ending = TimedOut\<rparr> demo_desktop = (Inl ''timed out'', st')
     \<and> dk_running (desktop_step StopTunnel st') \<noteq> []"
proof -
  obtain st' pid where "start_tunnel (Inr ''/bin/cloudflared'') True \<lparr>sw_lines = [], sw_ending = TimedOut\<rparr> demo_desktop = (Inl ''timed out'', st')"
    and "\<forall>ops. pid \<in> set (dk_running (fold desktop_step ops st'))"
    using timed_out_tunnel_runs_on [of demo_desktop "''http://127.0.0.1:3000''" 3000 "\<lparr>sw_lines = [], sw_ending = TimedOut\<rparr>"
      "''/bin/cloudflared''"] demo_port by (auto simp: demo_desktop_def desktop_ok_def)
  moreover from this(2) have "pid \<in> set (dk_running (fold desktop_step [StopTunnel] st'))" by blast
  ultimately show ?thesis by auto
qed

text \<open>The server counts as started although it never answered: the next call reports success.\<close>

lemma unready_server_reported:
  assumes "dk_server st = None" and "load (dk_env st) = Inr c" and "prepared c = Inr port" and "\<forall>k. \<not> healthy k"
  shows "\<exists>e st'. start_embedded_server load prepared healthy st = (Inl e, st')
    \<and> start_embedded_server load' prepared' healthy' st' = (Inr (local_url ''http://'' port), st')"
  using assms by (simp add: start_embedded_server_def Let_def)

section \<open>What the embedded server is given\<close>

lemma origins_of_desktop: "origins_of desktop_origins = [''tauri://localhost'', ''https://tauri.localhost'', ''http://tauri.localhost'']"
  by (simp add: origins_of_def desktop_origins_def trim_def strip_front_none white_space_def starts_with_def)

lemma main_env_cors:
  "\<not> is_set (env ''ANNEX_CORS_ORIGINS'') \<Longrightarrow> main_env there cd ud vks ps vs keyring env ''ANNEX_CORS_ORIGINS'' = Set desktop_origins"
  by (simp add: main_env_def set_var_def set_if_def Let_def split: option.split)

text \<open>
  Unless the user sets the environment variable, the origins that the embedded server allows are
  those of the application, whatever the configuration file lists: the variable that the
  application sets wins over the file.
\<close>

theorem desktop_origins_win:
  assumes "\<not> is_set (env ''ANNEX_CORS_ORIGINS'')"
    and "load_config toml files (main_env there cd ud vks ps vs keyring env) p = (Inr c, w)"
  shows "co_allowed_origins (cf_cors c) = [''tauri://localhost'', ''https://tauri.localhost'', ''http://tauri.localhost'']"
proof -
  let ?env = "main_env there cd ud vks ps vs keyring env"
  obtain c0 where c0: "apply_overrides (env_overrides ?env) c0 = Inr c" using load_config_Inr [OF assms(2)] by blast
  let ?last = "override_with (\<lambda>c v. c\<lparr>cf_security := (cf_security c)\<lparr>cy_enforce_zk_proofs := v\<rparr>\<rparr>) (parse_env_bool ?env ''ANNEX_ENFORCE_ZK_PROOFS'')"
  have "apply_overrides ((server_overrides ?env @ database_overrides ?env @ voice_overrides ?env) @ cors_override ?env # [?last]) c0 = Inr c"
    using c0 by (simp add: env_overrides_def)
  moreover have "list_all (keeps (\<lambda>c. co_allowed_origins (cf_cors c))) [?last]" by (simp add: keeps_override)
  ultimately obtain c1 c2 where "cors_override ?env c1 = Inr c2" "co_allowed_origins (cf_cors c) = co_allowed_origins (cf_cors c2)"
    using apply_overrides_put [where field = "\<lambda>c. co_allowed_origins (cf_cors c)"] by blast
  then show ?thesis by (auto simp: cors_override_def main_env_cors [where env = env, OF assms(1)] origins_of_desktop)
qed

lemma demo_desktop_loaded:
  "\<exists>c w. load_config (\<lambda>_. Some (default_config\<lparr>cf_cors := \<lparr>co_allowed_origins = [''https://mine'']\<rparr>\<rparr>)) (\<lambda>_. Contents [])
     (main_env (\<lambda>_. False) ''c'' ''u'' [] [] [] None (\<lambda>_. NotPresent)) (Some f) = (Inr c, w)"
proof -
  let ?env = "main_env (\<lambda>_. False) ''c'' ''u'' [] [] [] None (\<lambda>_. NotPresent)"
  have env: "?env name = (if name = ''ANNEX_CLIENT_DIR'' then Set ''c'' else if name = ''ANNEX_UPLOAD_DIR'' then Set ''u''
      else if name = ''ANNEX_CORS_ORIGINS'' then Set desktop_origins else NotPresent)" for name
    by (simp add: main_env_def set_var_def set_if_def)
  have n: "parse_env_var ?env name parse = Inr None"
    if "name \<noteq> ''ANNEX_CLIENT_DIR''" "name \<noteq> ''ANNEX_UPLOAD_DIR''" "name \<noteq> ''ANNEX_CORS_ORIGINS''" for name and parse :: "string \<Rightarrow> 'a option"
    using that by (simp add: parse_env_var_def env)
  have s: "server_overrides ?env = replicate 7 Inr" "database_overrides ?env = replicate 5 Inr" "voice_overrides ?env = replicate 9 Inr"
    by (simp_all add: server_overrides_def database_overrides_def voice_overrides_def text_override_def parse_env_bool_def n override_none
        eval_nat_numeral)
  have a: "apply_overrides (env_overrides ?env) c = cors_override ?env c" for c
    by (simp add: env_overrides_def s apply_overrides_append apply_overrides_skip parse_env_bool_def n override_none
        cors_override_def split: env_value.split)
  have "config_valid (default_config\<lparr>cf_cors := x\<rparr>)" for x
    by (simp add: config_valid_def default_config_def default_server_config_def default_database_config_def)
  then have v: "validate_config (default_config\<lparr>cf_cors := x\<rparr>) = Inr ()" for x by (simp add: validate_config_valid)
  obtain x where "cors_override ?env (default_config\<lparr>cf_cors := \<lparr>co_allowed_origins = [''https://mine'']\<rparr>\<rparr>)
      = Inr (default_config\<lparr>cf_cors := x\<rparr>)"
    by (auto simp: cors_override_def env default_config_def)
  then show ?thesis by (simp add: load_config_def read_config_file_def sanitized_def a v)
qed

theorem desktop_origins_win_witness:
  "\<exists>c w. load_config (\<lambda>_. Some (default_config\<lparr>cf_cors := \<lparr>co_allowed_origins = [''https://mine'']\<rparr>\<rparr>)) (\<lambda>_. Contents [])
       (main_env (\<lambda>_. False) ''c'' ''u'' [] [] [] None (\<lambda>_. NotPresent)) (Some ''config.toml'') = (Inr c, w)
     \<and> ''https://mine'' \<notin> set (co_allowed_origins (cf_cors c))"
proof -
  obtain c w where l: "load_config (\<lambda>_. Some (default_config\<lparr>cf_cors := \<lparr>co_allowed_origins = [''https://mine'']\<rparr>\<rparr>)) (\<lambda>_. Contents [])
      (main_env (\<lambda>_. False) ''c'' ''u'' [] [] [] None (\<lambda>_. NotPresent)) (Some ''config.toml'') = (Inr c, w)"
    using demo_desktop_loaded by blast
  have "\<not> is_set ((\<lambda>_. NotPresent) ''ANNEX_CORS_ORIGINS'')" by simp
  from desktop_origins_win [where env = "\<lambda>_. NotPresent", OF this l] l show ?thesis by auto
qed

lemma livekit_env_simps:
  "livekit_env url key secret env ''ANNEX_LIVEKIT_URL'' = Set url" "livekit_env url key secret env ''ANNEX_LIVEKIT_API_KEY'' = Set key"
  "livekit_env url key secret env ''ANNEX_LIVEKIT_API_SECRET'' = Set secret"
  by (simp_all add: livekit_env_def set_var_def)

text \<open>
  A server that is started after the local media server uses its address, key and secret, whatever
  the file says.
\<close>

lemma local_livekit_reaches_server:
  assumes "load_config toml files (livekit_env url key secret env) p = (Inr c, w)"
  shows "lk_url (cf_livekit c) = url \<and> lk_api_key (cf_livekit c) = key \<and> lk_api_secret (cf_livekit c) = secret"
proof -
  let ?env = "livekit_env url key secret env"
  obtain c0 where c0: "apply_overrides (env_overrides ?env) c0 = Inr c" using load_config_Inr [OF assms] by blast
  have n: "length (env_overrides ?env) = 23" by (simp add: env_overrides_def server_overrides_def database_overrides_def voice_overrides_def)
  note defs = env_overrides_def server_overrides_def database_overrides_def voice_overrides_def text_override_def parse_env_bool_def
  have "case ?env ''ANNEX_LIVEKIT_URL'' of Set t \<Rightarrow> Some t = Some (lk_url (cf_livekit c)) | _ \<Rightarrow> True"
    by (rule override_wins [where n = 12 and field = "\<lambda>c. lk_url (cf_livekit c)", OF c0])
      (simp add: n, simp add: defs, simp add: defs keeps_override keeps_cors, simp)
  moreover have "case ?env ''ANNEX_LIVEKIT_API_KEY'' of Set t \<Rightarrow> Some t = Some (lk_api_key (cf_livekit c)) | _ \<Rightarrow> True"
    by (rule override_wins [where n = 14 and field = "\<lambda>c. lk_api_key (cf_livekit c)", OF c0])
      (simp add: n, simp add: defs, simp add: defs keeps_override keeps_cors, simp)
  moreover have "case ?env ''ANNEX_LIVEKIT_API_SECRET'' of Set t \<Rightarrow> Some t = Some (lk_api_secret (cf_livekit c)) | _ \<Rightarrow> True"
    by (rule override_wins [where n = 15 and field = "\<lambda>c. lk_api_secret (cf_livekit c)", OF c0])
      (simp add: n, simp add: defs, simp add: defs keeps_override keeps_cors, simp)
  ultimately show ?thesis by (simp add: livekit_env_simps)
qed

text \<open>The file that the application repairs is left alone from then on.\<close>

lemma no_backslash_contains: "backslash \<notin> set s \<Longrightarrow> \<not> contains s [CHR '':'', backslash]"
proof (induction s)
  case (Cons c s)
  then show ?case by (cases s) (auto simp: starts_with_def)
qed simp

lemma slashed_no_backslash: "backslash \<notin> set (slashed s)"
  by (auto simp: slashed_def backslash_def)

lemma fix_idempotent:
  assumes "fix_backslash_paths writable config = (Inr (), config')"
  shows "fix_backslash_paths w config' = (Inr (), config')"
  using assms no_backslash_contains [OF slashed_no_backslash]
  by (auto simp: fix_backslash_paths_def split: file_read.splits if_splits)

end
