(* ===== verification/Spec2Isabelle.thy ===== *)
theory Spec2Isabelle
  imports Annex_Registry Annex_Demo Annex_Reputation Annex_Graph Annex_Messages Annex_Observe
    Annex_Exchange Annex_Subscriptions Annex_Zk Annex_Peers Annex_Peers_Demo
    Annex_LinkPreview Annex_Agents Annex_Channels_Api Annex_Ws Annex_Registry_Api Annex_Uploads
    Annex_Usernames Annex_Admin Annex_Public Annex_Router Annex_Desktop
begin

text \<open>
  Verification library of Annex, a self-hosted, federated chat server with zero-knowledge
  identities (the Rust crates under \<open>src/crates\<close>).

  The program. A server keeps its state in one SQLite database. Users register an identity
  commitment in a Merkle tree (\<open>annex-identity\<close>), prove membership, and act under pseudonyms
  derived from commitment and topic. They talk in channels (\<open>annex-channels\<close>), appear in a
  presence graph (\<open>annex-graph\<close>), and AI agents negotiate with the server by comparing
  anchors of principles (\<open>annex-vrp\<close>). Servers federate by the same handshake
  (\<open>annex-federation\<close>), relay messages and attest identities to each other, and exchange
  reflection bundles under transfer scopes (\<open>annex-rtx\<close>). Significant events go to a public log
  (\<open>annex-observe\<close>). The request handlers (\<open>annex-server\<close>) compose these crates.

  The state. \<open>Annex_Db\<close> holds the record \<open>db\<close> with one field per table; a table is the
  list of its rows in rowid order, with the counter of its autoincrement key where it has one
  (\<open>Annex_Prelude\<close>). A SQL statement is written out as the function on the rows that it
  computes, with the unique and foreign-key constraints of the migrations as branches that
  return the constraint error. An operation takes the database and returns its result, an
  \<open>error + value\<close>, with the database it leaves. \<open>faults\<close> is a schedule of engine failures:
  \<open>flt n\<close> makes the \<open>n\<close>-th database call of an operation fail, so a theorem without a
  hypothesis on \<open>flt\<close> holds whatever fails. Times are seconds since the epoch, given to an
  operation as an argument.

  Theories and sources.
  \<^item> \<open>Annex_Prelude\<close>, \<open>Rust_Float\<close>: results, tables, SQLite's date arithmetic, the interfaces
    \<open>codec\<close> and \<open>invariant_machine\<close>; rounding to \<open>f32\<close> and \<open>f64\<close>.
  \<^item> \<open>Annex_Types\<close>: \<open>annex-types\<close>. \<open>Annex_Db\<close>: \<open>annex-db\<close>.
  \<^item> \<open>Annex_Identity\<close>, \<open>Annex_Merkle\<close>, \<open>Annex_Registry\<close>, \<open>Annex_Platform\<close>, \<open>Annex_Zk\<close>:
    \<open>annex-identity\<close>, with the authentication middleware in \<open>Annex_Platform\<close>.
  \<^item> \<open>Annex_Vrp\<close>, \<open>Annex_Semantic\<close>, \<open>Annex_Reputation\<close>: \<open>annex-vrp\<close>.
  \<^item> \<open>Annex_Bfs\<close>, \<open>Annex_Graph\<close>: \<open>annex-graph\<close>.
  \<^item> \<open>Annex_Channels\<close> (operations and their invariant), \<open>Annex_Messages\<close> (properties):
    \<open>annex-channels\<close> and \<open>annex-server/src/retention.rs\<close>.
  \<^item> \<open>Annex_Observe\<close>: \<open>annex-observe\<close> and \<open>emit_and_broadcast\<close> of \<open>annex-server/src/lib.rs\<close>.
  \<^item> \<open>Annex_Federation\<close>: \<open>annex-federation\<close>. \<open>Annex_Rtx\<close>: \<open>annex-rtx\<close>.
  \<^item> \<open>Annex_Api\<close>, \<open>Annex_Rtx_Api\<close>, \<open>Annex_Federation_Api\<close>: what the handlers share, and the
    handlers of \<open>api_rtx.rs\<close> and \<open>api_federation.rs\<close>.
  \<^item> \<open>Annex_Exchange\<close>, \<open>Annex_Subscriptions\<close>, \<open>Annex_Peers\<close>: the properties of these handlers.
  \<^item> \<open>Annex_RateLimit\<close>: the middleware of \<open>middleware.rs\<close> apart from authentication, on the IP
    addresses of \<open>Annex_Net\<close> and the texts of \<open>Rust_Text\<close>.
  \<^item> \<open>Annex_LinkPreview\<close>: \<open>api_link_preview.rs\<close>. \<open>Annex_Policy\<close>: \<open>policy.rs\<close>.
  \<^item> \<open>Annex_Agents\<close>: \<open>api_vrp.rs\<close> and \<open>api_agent.rs\<close>. \<open>Annex_Voice\<close>: \<open>annex-voice\<close>.
  \<^item> \<open>Annex_Channels_Api\<close>: \<open>api_channels.rs\<close>.
  \<^item> \<open>Annex_Connections\<close> (tokens and the connection manager) and \<open>Annex_Ws\<close> (the messages and the
    life of a connection): \<open>api_ws.rs\<close>.
  \<^item> \<open>Annex_Registry_Api\<close>: \<open>api.rs\<close>. \<open>Annex_Uploads\<close>: \<open>api_upload.rs\<close>. \<open>Annex_Usernames\<close>:
    \<open>api_usernames.rs\<close>. \<open>Annex_Admin\<close>: \<open>api_admin.rs\<close>.
  \<^item> \<open>Annex_Public\<close>: \<open>api_graph.rs\<close>, \<open>api_observe.rs\<close>, \<open>api_sse.rs\<close> and \<open>background.rs\<close>.
  \<^item> \<open>Annex_Config\<close>: \<open>config.rs\<close>, and of \<open>main.rs\<close> the choice of the configuration file and of the
    browser's address. \<open>Annex_Startup\<close>: what \<open>prepare_server\<close> of \<open>lib.rs\<close> reads, writes and decides.
  \<^item> \<open>Annex_Routes\<close> (the table of routes) and \<open>Annex_Router\<close> (the layers around them): \<open>app\<close> of
    \<open>lib.rs\<close>.
  \<^item> \<open>Annex_Desktop\<close>: the configuration, environment and processes of \<open>annex-desktop\<close>.
  \<^item> \<open>Annex_Demo\<close>, \<open>Annex_Netstring\<close>, \<open>Annex_Peers_Demo\<close>: concrete primitives, a concrete
    serialisation and a concrete federated server, on which the properties are applied.

  What the lemmas show. Registration, tree and database move together or not at all, the
  sparse tree refines the list of leaves, proofs fold to the root, and restoring gives the
  tree back. The tables of channels, the event log, the graph, the agreements and the
  subscriptions each have an invariant that every operation keeps (interpretations of
  \<open>invariant_machine\<close>). Retention terminates and purges, unless a message was edited.
  Breadth-first search finds shortest paths, and visibility follows from them. The scores are
  computed with the rounding of the hardware formats and stay in their bounds. Publishing,
  relaying and receiving respect the transfer scopes and are idempotent; what one server
  signs, the other verifies. The rate limiter is bounded over every window, previews reach
  public addresses only, joining a channel admits who its rules admit, a change of the policy
  gives every agent and every peer the verdict of a fresh handshake. The connections keep the
  subscription maps and the queues in order whatever they send; the lock sections of the
  manager are also taken apart, as an inductive step relation. A pseudonym is handed out only for a
  verified membership, once per topic; every handler but the listed public ones runs behind the
  limiter and the authentication; uploads stay within their limits and lose exactly their metadata;
  usernames are shown to the holders of a grant only; a server that is started again is the same
  server, and a configuration that loads is within its bounds. Several theorems state a behaviour that the code does not intend;
  their text says so.

  Parameters. Code outside the repository is an argument: the record \<open>crypto\<close> (Poseidon, the
  scalar field, \<open>hex\<close>, SHA-256), \<open>snark\<close> (curve arithmetic and Groth16), \<open>unicode\<close>
  (character classes), the JSON codecs \<open>serde\<close>, \<open>fed_json\<close> and \<open>rtx_json\<close>, and \<open>peer_io\<close>
  (HTTP and Ed25519), \<open>token_io\<close> (HMAC, base64), the URL and HTML parsers, DNS and HTTP of the
  link previews, LiveKit and the processes of the voice services, \<open>aead\<close> (HKDF and ChaCha20-Poly1305),
  \<open>membership_io\<close> (the JSON of proofs), the TOML reader, and for a start the contents of files, the
  environment, and what sockets and child processes do (\<open>startup_io\<close>, \<open>spawned\<close>). The predicates named \<open>\<dots>_laws\<close> and \<open>key_pair\<close> state what the code
  relies on; the demo theories show that they can hold.

  Bounds and fuel. No definition runs on fuel: the search in \<open>Annex_Bfs\<close> and the retention
  loop in \<open>Annex_Channels\<close> are functions with a termination proof, the other loops are
  structural recursions. Counters and scores keep the width they have in the code.

  Not modelled. Text of errors that quote a library; poisoned locks; the asynchronous runtime
  and the sockets (a handler returns what it would send, and what connections do is a sequence
  of steps); logging; the answers to CORS preflight requests; the SQL text of the migrations beyond
  the tables, keys and seed rows it leads to; the windows, dialogs, keyring, downloads and
  unregistered commands of the desktop application, which only call its libraries; and the web
  client.
\<close>

end
